(* ===== verification/Prelude.thy ===== *)
theory Prelude
  imports Main "HOL-Library.AList" "HOL-Library.Word"
begin

text \<open>
  Shared vocabulary of the development.

  \<^item> Go maps are association lists with distinct keys (\<open>gm_wf\<close>): lookup is \<open>map_of\<close>, assignment
    is \<open>AList.update\<close>, \<open>delete\<close> is \<open>AList.delete\<close>, \<open>len\<close> is \<open>length\<close>. A \<open>range\<close> loop over a Go
    map visits the keys in an unspecified order; the model visits them in list order, and the
    theorems speak about sets, counts or single keys, which do not depend on that order.
  \<^item> Instants and durations (\<open>time.Time\<close>, \<open>time.Duration\<close>) are integers counting nanoseconds.
    A clock reading is an argument of every operation that calls \<open>clk.Now()\<close>.
  \<^item> Errors are the left summand of \<open>'e + 'a\<close>.
\<close>

named_theorems gomap_simps \<open>rewriting with Go maps as association lists\<close>

named_theorems store_defs \<open>definitions of the operations of the stores\<close>

type_synonym time = int
type_synonym duration = int
type_synonym byte = "8 word"

type_synonym ('k, 'v) gomap = "('k \<times> 'v) list"

abbreviation gm_wf :: "('k, 'v) gomap \<Rightarrow> bool" where
  "gm_wf m \<equiv> distinct (map fst m)"

abbreviation gm_keys :: "('k, 'v) gomap \<Rightarrow> 'k list" where
  "gm_keys m \<equiv> map fst m"

text \<open>
  Go's 64-bit signed integers (\<open>int\<close>, \<open>int64\<close>) where an overflow can matter: the mathematical
  result wrapped into the range of the type.
\<close>

definition i64 :: "int \<Rightarrow> int" where
  "i64 x = (x + 2 ^ 63) mod 2 ^ 64 - 2 ^ 63"

definition in_i64 :: "int \<Rightarrow> bool" where
  "in_i64 x \<longleftrightarrow> - (2 ^ 63) \<le> x \<and> x < 2 ^ 63"

lemma i64_in_range: "in_i64 (i64 x)"
  by (simp add: i64_def in_i64_def)

lemma i64_id [simp]: "in_i64 x \<Longrightarrow> i64 x = x"
  by (simp add: i64_def in_i64_def)

lemma i64_overflow:
  assumes "2 ^ 63 \<le> x" "x < 2 ^ 64 + 2 ^ 63"
  shows "i64 x = x - 2 ^ 64"
proof -
  have "(x + 2 ^ 63) mod 2 ^ 64 = (x + 2 ^ 63 - 2 ^ 64) mod 2 ^ 64"
    by (simp only: minus_mod_self2)
  also have "\<dots> = x + 2 ^ 63 - 2 ^ 64"
    using assms by (intro mod_pos_pos_trivial) simp_all
  finally show ?thesis by (simp add: i64_def)
qed

text \<open>Nanoseconds in the units the sources use.\<close>

abbreviation (input) Millisecond :: duration where "Millisecond \<equiv> 1000000"
abbreviation (input) Second :: duration where "Second \<equiv> 1000000000"
abbreviation (input) Minute :: duration where "Minute \<equiv> 60000000000"

subsection \<open>Association lists as Go maps\<close>

text \<open>The key set is kept in the simplifier's normal form \<open>fst ` set m\<close>.\<close>

declare map_of_eq_Some_iff [simp del] Some_eq_map_of_iff [simp del]

lemma gm_get_None: "map_of m k = None \<longleftrightarrow> k \<notin> fst ` set m"
  by (simp add: map_of_eq_None_iff)

lemma gm_get_ex: "k \<in> fst ` set m \<longleftrightarrow> (\<exists>v. map_of m k = Some v)"
  by (metis gm_get_None not_None_eq)

lemma gm_get_update [gomap_simps]:
  "map_of (AList.update k v m) k' = (if k' = k then Some v else map_of m k')"
  by (simp add: update_conv')

lemma gm_get_delete [gomap_simps]:
  "map_of (AList.delete k m) k' = (if k' = k then None else map_of m k')"
  by (simp add: AList.delete_conv')

lemma gm_keyset_update [gomap_simps]: "fst ` set (AList.update k v m) = insert k (fst ` set m)"
  by (induction m) auto

lemma gm_keyset_delete [gomap_simps]: "fst ` set (AList.delete k m) = fst ` set m - {k}"
  by (induction m) auto

lemma gm_update_fresh: "map_of m k = None \<Longrightarrow> AList.update k v m = m @ [(k, v)]"
  by (induction m) (auto split: if_splits)

lemma gm_delete_last: "map_of m k = None \<Longrightarrow> AList.delete k (m @ [(k, v)]) = m"
  by (induction m) (auto split: if_splits)

lemma gm_set_update: "set (AList.update k v m) \<subseteq> insert (k, v) (set m)"
  by (induction m) auto

lemma gm_wf_update [intro, gomap_simps]: "gm_wf m \<Longrightarrow> gm_wf (AList.update k v m)"
  by (rule AList.distinct_update)

lemma gm_wf_delete [intro, gomap_simps]: "gm_wf m \<Longrightarrow> gm_wf (AList.delete k m)"
  by (rule AList.distinct_delete)

lemma gm_wf_filter [intro]: "gm_wf m \<Longrightarrow> gm_wf (filter P m)"
  by (induction m) auto

lemma gm_length_update [gomap_simps]:
  "length (AList.update k v m) = (if k \<in> fst ` set m then length m else Suc (length m))"
  by (induction m) auto

lemma gm_delete_absent: "k \<notin> fst ` set m \<Longrightarrow> AList.delete k m = m"
  by (induction m) auto

lemma gm_length_delete [gomap_simps]:
  "gm_wf m \<Longrightarrow> length (AList.delete k m) = (if k \<in> fst ` set m then length m - 1 else length m)"
proof (induction m)
  case (Cons p m)
  show ?case
  proof (cases "fst p = k")
    case True
    with Cons.prems have "AList.delete k m = m"
      by (auto intro: gm_delete_absent)
    with True show ?thesis by auto
  next
    case False
    with Cons show ?thesis by (cases m) auto
  qed
qed simp

lemma gm_length_delete_le: "length (AList.delete k m) \<le> length m"
  by (induction m) auto

lemma gm_length_card: "gm_wf m \<Longrightarrow> length m = card (fst ` set m)"
  by (metis distinct_card length_map list.set_map)

lemma gm_get_filter:
  "gm_wf m \<Longrightarrow>
     map_of (filter P m) k =
       (case map_of m k of None \<Rightarrow> None | Some v \<Rightarrow> if P (k, v) then Some v else None)"
  by (induction m) (auto simp: map_of_eq_None_iff image_iff split: option.splits)

lemma gm_get_map_snd: "map_of (map (\<lambda>(k, v). (k, f k v)) m) k = map_option (f k) (map_of m k)"
  by (induction m) auto

lemma gm_get_Some_iff: "gm_wf m \<Longrightarrow> map_of m k = Some v \<longleftrightarrow> (k, v) \<in> set m"
  by (simp add: map_of_eq_Some_iff)

lemma gm_key_of_get: "map_of m k = Some v \<Longrightarrow> k \<in> fst ` set m"
  by (metis gm_get_None option.distinct(1))

subsection \<open>JSON values\<close>

text \<open>
  The values the handlers pass to \<open>json.Marshal\<close> and \<open>writeJSON\<close>. An object is a Go map, so the
  order of its members carries no information. \<open>put_nonempty\<close> is the idiom
  \<open>if v != "" { m[k] = v }\<close>.
\<close>

datatype json = JNull | JBool bool | JNum int | JStr string | JArr "json list" | JObj "(string \<times> json) list"

definition put_nonempty :: "string \<Rightarrow> string \<Rightarrow> (string, json) gomap \<Rightarrow> (string, json) gomap" where
  "put_nonempty k v m = (if v \<noteq> [] then AList.update k (JStr v) m else m)"

lemma put_nonempty_get [gomap_simps]:
  "map_of (put_nonempty k v m) k' = (if k' = k \<and> v \<noteq> [] then Some (JStr v) else map_of m k')"
  by (simp add: put_nonempty_def gomap_simps)

subsection \<open>Bytes and lists\<close>

lemma byte_unat_less: "unat (b :: byte) < 256"
  by (rule order_less_le_trans [OF unsigned_less]) simp

lemma distinct_removeAll_eq_remove1: "distinct xs \<Longrightarrow> removeAll x xs = remove1 x xs"
  by (simp add: distinct_remove1_removeAll)

lemma take_drop_mid: "n \<le> m \<Longrightarrow> take (m - n) (drop n xs) = drop n (take m xs)"
  by (simp add: drop_take)

lemma filter_length_mono:
  "(\<And>x. x \<in> set xs \<Longrightarrow> P x \<Longrightarrow> Q x) \<Longrightarrow> length (filter P xs) \<le> length (filter Q xs)"
  by (induction xs) (auto simp: le_SucI)

end
