(* ===== verification/Output_Buffer.thy ===== *)
theory Output_Buffer
  imports Prelude
begin

text \<open>
  \<open>src/internal/terminal/buffer.go\<close>: the byte ring that holds a session's output. Offsets are
  Go \<open>int64\<close> values, so the two places where client-supplied numbers are added or subtracted
  (\<open>Read\<close>) wrap as the code does, and a slice expression whose bounds are out of order is the
  run-time panic \<open>SliceBounds\<close>. The abstract view is the whole byte stream ever appended: the
  buffer holds a suffix of it and \<open>baseOffset\<close> says where that suffix starts.
\<close>

section \<open>State and operations\<close>

datatype runtime_panic = SliceBounds

record output_buffer =
  ob_buf :: "byte list"
  ob_baseOffset :: int
  ob_maxSize :: int

definition ob_New :: "int \<Rightarrow> output_buffer" where
  "ob_New maxSize =
     \<lparr>ob_buf = [], ob_baseOffset = 0, ob_maxSize = (if maxSize \<le> 0 then 1024 * 1024 else maxSize)\<rparr>"

definition ob_Append :: "byte list \<Rightarrow> output_buffer \<Rightarrow> output_buffer" where
  "ob_Append data b =
     (let buf = ob_buf b @ data in
      if int (length buf) > ob_maxSize b
      then let excess = int (length buf) - ob_maxSize b
           in b\<lparr>ob_buf := drop (nat excess) buf, ob_baseOffset := ob_baseOffset b + excess\<rparr>
      else b\<lparr>ob_buf := buf\<rparr>)"

record read_result =
  rr_Data :: "byte list"
  rr_Offset :: int
  rr_HasMore :: bool

definition ob_Read :: "int \<Rightarrow> int \<Rightarrow> output_buffer \<Rightarrow> runtime_panic + read_result" where
  "ob_Read afterOffset limit b =
     (let limit = (if limit \<le> 0 then 4000 else limit);
          len = int (length (ob_buf b));
          relStart = i64 (afterOffset - ob_baseOffset b);
          relStart = (if relStart < 0 then 0 else relStart);
          relStart = (if relStart > len then len else relStart);
          stop = i64 (relStart + limit);
          stop = (if stop > len then len else stop)
      in if stop < relStart then Inl SliceBounds
         else let data = take (nat (stop - relStart)) (drop (nat relStart) (ob_buf b))
              in Inr \<lparr>rr_Data = data,
                      rr_Offset = ob_baseOffset b + relStart + int (length data),
                      rr_HasMore = i64 (relStart + limit) < len\<rparr>)"

record from_result =
  fr_Data :: "byte list"
  fr_Offset :: int
  fr_Reset :: bool

definition ob_CurrentOffset :: "output_buffer \<Rightarrow> int" where
  "ob_CurrentOffset b = ob_baseOffset b + int (length (ob_buf b))"

definition ob_ReadFrom :: "int option \<Rightarrow> output_buffer \<Rightarrow> from_result" where
  "ob_ReadFrom afterOffset b =
     (let cur = ob_baseOffset b + int (length (ob_buf b)) in
      case afterOffset of
        None \<Rightarrow> \<lparr>fr_Data = ob_buf b, fr_Offset = cur, fr_Reset = False\<rparr>
      | Some off \<Rightarrow>
          if off = cur then \<lparr>fr_Data = [], fr_Offset = cur, fr_Reset = False\<rparr>
          else if off > cur \<or> off < ob_baseOffset b
          then \<lparr>fr_Data = ob_buf b, fr_Offset = cur, fr_Reset = True\<rparr>
          else \<lparr>fr_Data = drop (nat (off - ob_baseOffset b)) (ob_buf b), fr_Offset = cur,
                fr_Reset = False\<rparr>)"

text \<open>\<open>bytes.IndexByte\<close>: the first position of a byte, \<open>None\<close> for Go's -1.\<close>

fun index_byte :: "byte \<Rightarrow> byte list \<Rightarrow> nat option" where
  "index_byte c [] = None"
| "index_byte c (x # xs) = (if x = c then Some 0 else map_option Suc (index_byte c xs))"

definition ob_Tail :: "int \<Rightarrow> output_buffer \<Rightarrow> byte list" where
  "ob_Tail limit b =
     (if limit \<le> 0 then []
      else if int (length (ob_buf b)) \<le> limit then ob_buf b
      else let slice = drop (length (ob_buf b) - nat limit) (ob_buf b) in
           case index_byte 0x1b slice of
             None \<Rightarrow> slice
           | Some i \<Rightarrow> if i = 0 then slice else drop i slice)"

definition ob_Clear :: "output_buffer \<Rightarrow> output_buffer" where
  "ob_Clear b = b\<lparr>ob_buf := [], ob_baseOffset := 0\<rparr>"

section \<open>The abstract stream\<close>

text \<open>
  \<open>ob_rep b hist\<close>: the buffer represents the stream \<open>hist\<close> appended since it was created or
  last cleared, keeping its last \<open>maxSize\<close> bytes.
\<close>

definition ob_rep :: "output_buffer \<Rightarrow> byte list \<Rightarrow> bool" where
  "ob_rep b hist \<longleftrightarrow>
     0 < ob_maxSize b \<and>
     ob_baseOffset b = max 0 (int (length hist) - ob_maxSize b) \<and>
     ob_buf b = drop (nat (ob_baseOffset b)) hist"

lemma ob_rep_New: "ob_rep (ob_New maxSize) []"
  by (simp add: ob_rep_def ob_New_def)

lemma ob_rep_Clear: "ob_rep b hist \<Longrightarrow> ob_rep (ob_Clear b) []"
  by (simp add: ob_rep_def ob_Clear_def)

lemma ob_rep_length:
  "ob_rep b hist \<Longrightarrow> int (length (ob_buf b)) = min (int (length hist)) (ob_maxSize b)"
  by (auto simp: ob_rep_def)

lemma ob_rep_bound: "ob_rep b hist \<Longrightarrow> int (length (ob_buf b)) \<le> ob_maxSize b"
  by (simp add: ob_rep_length)

lemma ob_rep_offset: "ob_rep b hist \<Longrightarrow> ob_CurrentOffset b = int (length hist)"
  by (auto simp: ob_rep_def ob_CurrentOffset_def)

lemma ob_rep_base_nonneg: "ob_rep b hist \<Longrightarrow> 0 \<le> ob_baseOffset b \<and> ob_baseOffset b \<le> int (length hist)"
  by (auto simp: ob_rep_def)

lemma ob_rep_Append:
  assumes "ob_rep b hist"
  shows "ob_rep (ob_Append data b) (hist @ data)"
proof -
  let ?base = "ob_baseOffset b" and ?max = "ob_maxSize b"
  have base: "?base = max 0 (int (length hist) - ?max)" and max: "0 < ?max"
    and buf: "ob_buf b = drop (nat ?base) hist"
    using assms by (auto simp: ob_rep_def)
  have whole: "ob_buf b @ data = drop (nat ?base) (hist @ data)"
    using base buf max by simp
  show ?thesis
  proof (cases "int (length (ob_buf b @ data)) > ?max")
    case True
    then show ?thesis
      using base max whole
      by (auto simp: ob_rep_def ob_Append_def Let_def nat_add_distrib [symmetric] simp del: append_assoc)
  next
    case False
    then show ?thesis
      using base max whole by (auto simp: ob_rep_def ob_Append_def Let_def)
  qed
qed

section \<open>Reading\<close>

text \<open>The position a cursor denotes: an evicted one moves up to the base, one ahead moves back.\<close>

definition cursor :: "output_buffer \<Rightarrow> byte list \<Rightarrow> int \<Rightarrow> int" where
  "cursor b hist off = min (max off (ob_baseOffset b)) (int (length hist))"

definition effective_limit :: "int \<Rightarrow> int" where
  "effective_limit limit = (if limit \<le> 0 then 4000 else limit)"

lemma effective_limit_pos: "0 < effective_limit limit"
  by (simp add: effective_limit_def)

text \<open>\<open>Read\<close> in terms of the stream, with the wrap-around of the end position left explicit.\<close>

lemma ob_Read_stream:
  fixes limit :: int
  assumes rep: "ob_rep b hist" and off: "in_i64 (off - ob_baseOffset b)"
  defines "start \<equiv> cursor b hist off" and "l \<equiv> effective_limit limit"
  shows "ob_Read off limit b =
    (let stop = min (i64 (start - ob_baseOffset b + l)) (int (length (ob_buf b)))
     in if stop < start - ob_baseOffset b then Inl SliceBounds
        else Inr \<lparr>rr_Data = take (nat (stop - (start - ob_baseOffset b))) (drop (nat start) hist),
                  rr_Offset = ob_baseOffset b + stop,
                  rr_HasMore = i64 (start - ob_baseOffset b + l) < int (length (ob_buf b))\<rparr>)"
proof -
  let ?base = "ob_baseOffset b" and ?len = "int (length (ob_buf b))"
  have len: "?base + ?len = int (length hist)"
    using ob_rep_offset [OF rep] by (simp add: ob_CurrentOffset_def)
  have rel: "(let r = i64 (off - ?base); r = (if r < 0 then 0 else r)
     in if r > ?len then ?len else r) = start - ?base"
    using off len by (auto simp: start_def cursor_def Let_def)
  have s0: "0 \<le> start - ?base" "start - ?base \<le> ?len" "0 \<le> ?base"
    using len ob_rep_base_nonneg [OF rep] by (auto simp: start_def cursor_def)
  have dr: "drop (nat (start - ?base)) (ob_buf b) = drop (nat start) hist"
  proof -
    have "ob_buf b = drop (nat ?base) hist" using rep by (simp add: ob_rep_def)
    moreover have "nat (start - ?base) + nat ?base = nat start"
      using s0 by (simp add: nat_add_distrib [symmetric])
    ultimately show ?thesis by (simp only: drop_drop)
  qed
  have ln: "int (length (take (nat (stop - (start - ?base))) (drop (nat start) hist))) = stop - (start - ?base)"
    if "start - ?base \<le> stop" "stop \<le> ?len" for stop
    using that s0 len by (simp add: min_def) linarith
  show ?thesis
    unfolding ob_Read_def Let_def effective_limit_def [symmetric] l_def [symmetric]
      rel [unfolded Let_def]
    using ln [of "min (i64 (start - ?base + l)) ?len"]
    by (auto simp: dr min_def)
qed

lemma ob_Read_ok:
  assumes rep: "ob_rep b hist" and off: "in_i64 (off - ob_baseOffset b)"
    and fits: "int (length (ob_buf b)) + effective_limit limit < 2 ^ 63"
  defines "start \<equiv> cursor b hist off" and "l \<equiv> effective_limit limit"
  shows "ob_Read off limit b =
    Inr \<lparr>rr_Data = take (nat l) (drop (nat start) hist),
         rr_Offset = min (start + l) (int (length hist)),
         rr_HasMore = start + l < int (length hist)\<rparr>"
proof -
  let ?base = "ob_baseOffset b" and ?len = "int (length (ob_buf b))"
  have len: "?base + ?len = int (length hist)"
    using ob_rep_offset [OF rep] by (simp add: ob_CurrentOffset_def)
  have s0: "0 \<le> start - ?base" "start - ?base \<le> ?len" "0 \<le> ?base"
    using len ob_rep_base_nonneg [OF rep] by (auto simp: start_def cursor_def)
  have "i64 (start - ?base + l) = start - ?base + l"
    using s0 fits effective_limit_pos [of limit] by (intro i64_id) (simp add: in_i64_def l_def)
  moreover have "take (nat (min (start - ?base + l) ?len - (start - ?base))) (drop (nat start) hist)
      = take (nat l) (drop (nat start) hist)"
    using s0 len by (auto simp: min_def)
  moreover have "0 < l" using effective_limit_pos by (simp add: l_def)
  ultimately show ?thesis
    using ob_Read_stream [OF rep off, of limit, folded start_def l_def] s0 len
    by (auto simp: Let_def min_def)
qed

subsection \<open>A client that follows the cursor\<close>

text \<open>Read, and read again from the returned offset while the answer says there is more.\<close>

fun drain :: "nat \<Rightarrow> int \<Rightarrow> int \<Rightarrow> output_buffer \<Rightarrow> byte list option" where
  "drain 0 off limit b = None"
| "drain (Suc n) off limit b =
     (case ob_Read off limit b of
        Inl _ \<Rightarrow> None
      | Inr r \<Rightarrow>
          if rr_HasMore r then map_option ((@) (rr_Data r)) (drain n (rr_Offset r) limit b)
          else Some (rr_Data r))"

lemma drain_stream:
  assumes rep: "ob_rep b hist" and small: "int (length hist) + effective_limit limit < 2 ^ 63"
  shows "ob_baseOffset b \<le> off \<Longrightarrow> off \<le> int (length hist) \<Longrightarrow> int (length hist) - off < int n \<Longrightarrow>
    drain n off limit b = Some (drop (nat off) hist)"
proof (induction n arbitrary: off)
  case (Suc n)
  let ?l = "effective_limit limit"
  have base: "0 \<le> ob_baseOffset b" "int (length (ob_buf b)) \<le> int (length hist)"
    using ob_rep_base_nonneg [OF rep] ob_rep_length [OF rep] by auto
  have "in_i64 (off - ob_baseOffset b)"
    using Suc.prems base small effective_limit_pos [of limit] by (simp add: in_i64_def)
  moreover have "int (length (ob_buf b)) + ?l < 2 ^ 63" using base small by simp
  moreover have "cursor b hist off = off" using Suc.prems by (simp add: cursor_def)
  ultimately have rd: "ob_Read off limit b =
      Inr \<lparr>rr_Data = take (nat ?l) (drop (nat off) hist),
           rr_Offset = min (off + ?l) (int (length hist)),
           rr_HasMore = off + ?l < int (length hist)\<rparr>"
    using ob_Read_ok [OF rep] by simp
  show ?case
  proof (cases "off + ?l < int (length hist)")
    case True
    then have "drain n (off + ?l) limit b = Some (drop (nat (off + ?l)) hist)"
      using Suc.prems effective_limit_pos [of limit] by (intro Suc.IH) auto
    moreover have "take (nat ?l) (drop (nat off) hist) @ drop (nat (off + ?l)) hist = drop (nat off) hist"
    proof -
      have "nat (off + ?l) = nat ?l + nat off"
        using Suc.prems(1) base(1) effective_limit_pos [of limit] by (simp add: nat_add_distrib)
      then show ?thesis using append_take_drop_id [of "nat ?l" "drop (nat off) hist"] by simp
    qed
    ultimately show ?thesis using True rd by simp
  next
    case False
    with Suc.prems base have "take (nat ?l) (drop (nat off) hist) = drop (nat off) hist"
      by simp
    with False rd show ?thesis by simp
  qed
qed simp

section \<open>Properties\<close>

fun append_all :: "byte list list \<Rightarrow> output_buffer \<Rightarrow> output_buffer" where
  "append_all [] b = b"
| "append_all (d # ds) b = append_all ds (ob_Append d b)"

lemma append_all_rep: "ob_rep b hist \<Longrightarrow> ob_rep (append_all ds b) (hist @ concat ds)"
proof (induction ds b arbitrary: hist rule: append_all.induct)
  case (2 d ds b)
  from 2(1) [OF ob_rep_Append [OF 2(2), of d]] show ?case by simp
qed simp

lemma append_all_maxSize [simp]: "ob_maxSize (append_all ds b) = ob_maxSize b"
  by (induction ds b rule: append_all.induct) (simp_all add: ob_Append_def Let_def)

text \<open>
  After any sequence of appends the buffer holds exactly the last \<open>maxSize\<close> bytes of the
  stream, the base offset counts the evicted ones, and the current offset is the length of the
  whole stream: offsets are monotone positions in the stream whatever was evicted.
\<close>

theorem ob_append_all_keeps_suffix:
  fixes maxSize :: int
  defines "m \<equiv> (if maxSize \<le> 0 then 1024 * 1024 else maxSize)"
  shows "ob_buf (append_all ds (ob_New maxSize)) = drop (length (concat ds) - nat m) (concat ds)
    \<and> ob_baseOffset (append_all ds (ob_New maxSize)) = max 0 (int (length (concat ds)) - m)
    \<and> ob_CurrentOffset (append_all ds (ob_New maxSize)) = int (length (concat ds))"
proof -
  have rep: "ob_rep (append_all ds (ob_New maxSize)) (concat ds)"
    using append_all_rep [OF ob_rep_New, of ds maxSize] by simp
  have "ob_maxSize (append_all ds (ob_New maxSize)) = m"
    by (simp add: ob_New_def m_def)
  moreover have "nat (max 0 (int l - m)) = l - nat m" for l by (auto simp: m_def)
  ultimately show ?thesis
    using rep ob_rep_offset [OF rep] by (auto simp: ob_rep_def)
qed





lemma ob_buf_drop:
  assumes "ob_rep b hist" "ob_baseOffset b \<le> off" "off \<le> int (length hist)"
  shows "drop (nat (off - ob_baseOffset b)) (ob_buf b) = drop (nat off) hist"
proof -
  have "ob_buf b = drop (nat (ob_baseOffset b)) hist" using assms(1) by (simp add: ob_rep_def)
  moreover have "nat (off - ob_baseOffset b) + nat (ob_baseOffset b) = nat off"
    using assms ob_rep_base_nonneg [OF assms(1)] by (simp add: nat_add_distrib [symmetric])
  ultimately show ?thesis by (simp only: drop_drop)
qed

lemma ob_ReadFrom_stream:
  assumes "ob_rep b hist"
  shows "ob_ReadFrom (Some off) b =
    (if ob_baseOffset b \<le> off \<and> off \<le> int (length hist)
     then \<lparr>fr_Data = drop (nat off) hist, fr_Offset = int (length hist), fr_Reset = False\<rparr>
     else \<lparr>fr_Data = drop (nat (ob_baseOffset b)) hist, fr_Offset = int (length hist), fr_Reset = True\<rparr>)"
proof -
  have len: "ob_baseOffset b + int (length (ob_buf b)) = int (length hist)"
    using ob_rep_offset [OF assms] by (simp add: ob_CurrentOffset_def)
  have "ob_buf b = drop (nat (ob_baseOffset b)) hist" using assms by (simp add: ob_rep_def)
  with len ob_buf_drop [OF assms, of off] show ?thesis
    by (auto simp: ob_ReadFrom_def Let_def)
qed

text \<open>
  Re-attachment. A reader that stopped after the chunks \<open>ds\<close> and comes back after the chunks
  \<open>es\<close> with the offset it last saw obtains exactly the bytes of \<open>es\<close>, without a reset, when they
  fit in the buffer; otherwise it is told to reset and obtains the last \<open>maxSize\<close> bytes of the
  stream. Either way the returned offset is the current one.
\<close>

theorem ob_reattach:
  fixes m :: int and ds es :: "byte list list"
  assumes "0 < m"
  defines "b \<equiv> append_all ds (ob_New m)" and "b' \<equiv> append_all (ds @ es) (ob_New m)"
  shows "ob_ReadFrom (Some (ob_CurrentOffset b)) b' =
    \<lparr>fr_Data = (if int (length (concat es)) \<le> m then concat es
                else drop (length (concat (ds @ es)) - nat m) (concat (ds @ es))),
     fr_Offset = ob_CurrentOffset b', fr_Reset = (m < int (length (concat es)))\<rparr>"
proof -
  have rep: "ob_rep b (concat ds)" and rep': "ob_rep b' (concat (ds @ es))"
    using append_all_rep [OF ob_rep_New] by (simp_all add: b_def b'_def del: concat_append)
  have "ob_maxSize b' = m" using assms(1) by (simp add: b'_def ob_New_def)
  with rep' have base: "ob_baseOffset b' = max 0 (int (length (concat (ds @ es))) - m)"
    by (simp add: ob_rep_def)
  then have "nat (ob_baseOffset b') = length (concat (ds @ es)) - nat m"
    using assms(1) by auto
  then show ?thesis
    using assms(1) base
    by (auto simp: ob_ReadFrom_stream [OF rep'] ob_rep_offset [OF rep] ob_rep_offset [OF rep'])
qed

theorem ob_reattach_witness:
  "ob_ReadFrom (Some 3) (append_all ([[1, 2], [3]] @ [[4, 5]]) (ob_New 3))
     = \<lparr>fr_Data = [4, 5], fr_Offset = 5, fr_Reset = False\<rparr>
   \<and> ob_ReadFrom (Some 1) (append_all ([[1]] @ [[2, 3], [4, 5]]) (ob_New 3))
     = \<lparr>fr_Data = [3, 4, 5], fr_Offset = 5, fr_Reset = True\<rparr>"
  using ob_reattach [of 3 "[[1, 2], [3]]" "[[4, 5]]"] ob_reattach [of 3 "[[1]]" "[[2, 3], [4, 5]]"]
  by (simp add: ob_CurrentOffset_def ob_Append_def ob_New_def)

subsection \<open>The tail shown to an approver\<close>

lemma index_byte_Some:
  "index_byte c xs = Some i \<Longrightarrow> i < length xs \<and> xs ! i = c \<and> (\<forall>j < i. xs ! j \<noteq> c)"
proof (induction xs arbitrary: i)
  case (Cons x xs)
  then show ?case by (cases i) (auto simp: nth_Cons split: if_splits nat.splits)
qed simp

text \<open>
  The tail is a suffix of the retained bytes within the limit; it is the whole buffer when
  that fits, and when the cut falls strictly before an escape character, the tail starts at the
  first escape character after the cut, so a renderer never starts inside an escape sequence
  that began before the cut.
\<close>

theorem ob_Tail_suffix:
  fixes b :: output_buffer
  assumes "0 < limit"
  defines "p \<equiv> length (ob_buf b) - nat limit"
  shows "\<exists>n. ob_Tail limit b = drop n (ob_buf b) \<and> p \<le> n
    \<and> int (length (ob_Tail limit b)) \<le> limit
    \<and> (p = 0 \<longrightarrow> ob_Tail limit b = ob_buf b)
    \<and> (p < n \<longrightarrow> ob_Tail limit b \<noteq> [] \<and> hd (ob_Tail limit b) = 0x1b
        \<and> (\<forall>j. p \<le> j \<and> j < n \<longrightarrow> ob_buf b ! j \<noteq> 0x1b))"
proof (cases "int (length (ob_buf b)) \<le> limit")
  case True
  with assms show ?thesis by (intro exI [of _ 0]) (simp add: ob_Tail_def)
next
  case False
  then have p: "0 < p" "length (ob_buf b) - p = nat limit"
    using assms by auto
  let ?slice = "drop p (ob_buf b)"
  have tail: "ob_Tail limit b =
      (case index_byte 0x1b ?slice of None \<Rightarrow> ?slice | Some i \<Rightarrow> if i = 0 then ?slice else drop i ?slice)"
    using False assms(1) unfolding p_def by (simp add: ob_Tail_def Let_def)
  show ?thesis
  proof (cases "index_byte 0x1b ?slice")
    case None
    with tail p assms(1) show ?thesis by (intro exI [of _ p]) simp
  next
    case (Some i)
    note i = index_byte_Some [OF Some]
    have "hd (drop i ?slice) = 0x1b" "drop i ?slice \<noteq> []"
      using i by (simp_all add: hd_drop_conv_nth del: drop_drop)
    moreover have "ob_buf b ! j \<noteq> 0x1b" if "p \<le> j" "j < i + p" for j
      using i that by (auto dest: spec [of _ "j - p"])
    moreover have "ob_Tail limit b = drop (i + p) (ob_buf b)"
      using tail Some by simp
    ultimately show ?thesis
      using p assms(1) by (intro exI [of _ "i + p"]) auto
  qed
qed

theorem ob_Tail_suffix_witness:
  "ob_Tail 4 (append_all [[65, 27, 66, 67, 27, 68]] (ob_New 0)) = [27, 68]"
proof -
  have t: "ob_Tail 4 (append_all [[65, 27, 66, 67, 27, 68]] (ob_New 0)) = [27, 68]"
    by (simp add: ob_Tail_def ob_Append_def ob_New_def)
  show ?thesis
    using ob_Tail_suffix [of 4 "append_all [[65, 27, 66, 67, 27, 68]] (ob_New 0)"] t by simp
qed

section \<open>The contract the session registry relies on\<close>

locale output_log =
  fixes append :: "byte list \<Rightarrow> 'b \<Rightarrow> 'b"
    and current :: "'b \<Rightarrow> int"
    and read_from :: "int option \<Rightarrow> 'b \<Rightarrow> from_result"
    and clear :: "'b \<Rightarrow> 'b"
    and rep :: "'b \<Rightarrow> byte list \<Rightarrow> bool"
  assumes rep_append: "rep b hist \<Longrightarrow> rep (append d b) (hist @ d)"
    and rep_clear: "rep b hist \<Longrightarrow> rep (clear b) []"
    and current_rep: "rep b hist \<Longrightarrow> current b = int (length hist)"
    and read_from_offset: "rep b hist \<Longrightarrow> fr_Offset (read_from at b) = int (length hist)"
    and read_from_suffix: "rep b hist \<Longrightarrow> fr_Reset (read_from (Some off) b) = False \<Longrightarrow>
      0 \<le> off \<and> fr_Data (read_from (Some off) b) = drop (nat off) hist"
begin

text \<open>A reader that polls with the last returned offset obtains exactly what was appended since.\<close>

lemma poll_obtains_appended:
  assumes "rep b hist" and "fr_Reset (read_from (Some (current b)) (append d b)) = False"
  shows "fr_Data (read_from (Some (current b)) (append d b)) = d
    \<and> fr_Offset (read_from (Some (current b)) (append d b)) = current b + int (length d)"
  using read_from_suffix [OF rep_append [OF assms(1)] assms(2)]
    read_from_offset [OF rep_append [OF assms(1)]] current_rep [OF assms(1)]
  by simp

lemma append_advances: "rep b hist \<Longrightarrow> current (append d b) = current b + int (length d)"
  using current_rep rep_append by fastforce

lemma clear_rewinds: "rep b hist \<Longrightarrow> current (clear b) = 0"
  using current_rep rep_clear by fastforce

end

interpretation ob: output_log ob_Append ob_CurrentOffset ob_ReadFrom ob_Clear ob_rep
proof (unfold_locales, goal_cases)
  case (4 b hist at)
  then show ?case
    by (cases at) (auto simp: ob_ReadFrom_def Let_def ob_rep_def)
next
  case (5 b hist off)
  then show ?case
    using ob_rep_base_nonneg [OF 5(1)]
    by (auto simp: ob_ReadFrom_stream [OF 5(1)] split: if_splits)
qed (auto simp: ob_rep_Append ob_rep_Clear ob_rep_offset)

end
