(* ===== verification/Terminal_Keys.thy ===== *)
theory Terminal_Keys
  imports Go_Strings
begin

text \<open>
  \<open>src/internal/terminal/keys.go\<close>: named keys to the bytes sent to the terminal. Strings are
  byte strings (\<open>char list\<close>). \<open>strings.ToLower\<close> matters only for a lookup in a table of ASCII
  names: besides \<open>A-Z\<close>, the two code points whose lower case is an ASCII letter are U+0130
  (UTF-8 \<open>C4 B0\<close>, lower case \<open>i\<close>) and U+212A (UTF-8 \<open>E2 84 AA\<close>, lower case \<open>k\<close>); every other
  byte sequence keeps a non-ASCII byte and so matches no name.
\<close>

definition ascii_lower :: "char \<Rightarrow> char" where
  "ascii_lower c =
     (let n = of_char c :: nat in if 65 \<le> n \<and> n \<le> 90 then char_of (n + 32) else c)"

fun to_lower :: "string \<Rightarrow> string" where
  "to_lower (a # b # c # s) =
     (if a = CHR 0xE2 \<and> b = CHR 0x84 \<and> c = CHR 0xAA then CHR ''k'' # to_lower s
      else if a = CHR 0xC4 \<and> b = CHR 0xB0 then CHR ''i'' # to_lower (c # s)
      else ascii_lower a # to_lower (b # c # s))"
| "to_lower [a, b] =
     (if a = CHR 0xC4 \<and> b = CHR 0xB0 then ''i'' else [ascii_lower a, ascii_lower b])"
| "to_lower [a] = [ascii_lower a]"
| "to_lower [] = []"

definition keyMap :: "(string \<times> string) list" where
  "keyMap =
    [(''ctrl+c'', [CHR 0x03]), (''ctrl+d'', [CHR 0x04]), (''ctrl+z'', [CHR 0x1A]),
     (''ctrl+l'', [CHR 0x0C]), (''ctrl+a'', [CHR 0x01]), (''ctrl+e'', [CHR 0x05]),
     (''ctrl+u'', [CHR 0x15]), (''ctrl+k'', [CHR 0x0B]), (''ctrl+w'', [CHR 0x17]),
     (''tab'', [CHR 0x09]), (''enter'', [CHR 0x0D]), (''escape'', [CHR 0x1B]),
     (''up'', CHR 0x1B # ''[A''), (''down'', CHR 0x1B # ''[B''), (''right'', CHR 0x1B # ''[C''),
     (''left'', CHR 0x1B # ''[D''), (''home'', CHR 0x1B # ''[H''), (''end'', CHR 0x1B # ''[F''),
     (''backspace'', [CHR 0x7F]), (''delete'', CHR 0x1B # ''[3~'')]"

text \<open>The replacer of the two-character escapes backslash-n, backslash-r and backslash-t.\<close>

fun unescape :: "string \<Rightarrow> string" where
  "unescape (a # b # s) =
     (if a = CHR 0x5C \<and> b = CHR ''n'' then CHR 0x0A # unescape s
      else if a = CHR 0x5C \<and> b = CHR ''r'' then CHR 0x0D # unescape s
      else if a = CHR 0x5C \<and> b = CHR ''t'' then CHR 0x09 # unescape s
      else a # unescape (b # s))"
| "unescape s = s"

datatype key_error = UnknownKey string

definition ResolveKey :: "string \<Rightarrow> key_error + string" where
  "ResolveKey key =
     (case map_of keyMap (to_lower key) of
        Some mapped \<Rightarrow> Inr mapped
      | None \<Rightarrow>
          if has_prefix key ''text:'' then Inr (unescape (drop (length ''text:'') key))
          else Inl (UnknownKey key))"

fun ResolveKeys :: "string list \<Rightarrow> key_error + string" where
  "ResolveKeys [] = Inr []"
| "ResolveKeys (k # ks) =
     (case ResolveKey k of
        Inl e \<Rightarrow> Inl e
      | Inr r \<Rightarrow> (case ResolveKeys ks of Inl e \<Rightarrow> Inl e | Inr rs \<Rightarrow> Inr (r @ rs)))"

section \<open>Properties\<close>

lemma to_lower_length: "length (to_lower s) \<le> length s"
  by (induction s rule: to_lower.induct) auto

lemma unescape_length: "length (unescape s) \<le> length s"
  by (induction s rule: unescape.induct) auto

lemma unescape_no_backslash: "CHR 0x5C \<notin> set s \<Longrightarrow> unescape s = s"
  by (induction s rule: unescape.induct) auto

text \<open>A name of the table never starts like literal text, so the two branches do not compete.\<close>

lemma keyMap_names_no_text: "\<forall>(n, v) \<in> set keyMap. \<not> has_prefix n ''text:''"
  by (simp add: keyMap_def has_prefix_def)

lemma to_lower_Cons:
  "a \<noteq> CHR 0xE2 \<Longrightarrow> a \<noteq> CHR 0xC4 \<Longrightarrow> to_lower (a # s) = ascii_lower a # to_lower s"
  by (cases s; cases "tl s") auto

lemma to_lower_text_prefix:
  assumes "has_prefix s ''text:''"
  shows "has_prefix (to_lower s) ''text:''"
proof -
  from assms obtain r where s: "s = ''text:'' @ r"
    by (metis append_take_drop_id has_prefix_def)
  show ?thesis
    by (simp add: s has_prefix_def to_lower_Cons del: to_lower.simps) (simp add: ascii_lower_def)
qed

text \<open>
  Literal text is sent as typed. For \<open>text:\<close> followed by any bytes without a backslash the
  resolution succeeds with exactly these bytes, whatever names the table holds.
\<close>

theorem ResolveKey_text:
  assumes "CHR 0x5C \<notin> set raw"
  shows "ResolveKey (''text:'' @ raw) = Inr raw"
proof -
  have "has_prefix (to_lower (''text:'' @ raw)) ''text:''"
    by (rule to_lower_text_prefix) (simp add: has_prefix_def)
  then have "map_of keyMap (to_lower (''text:'' @ raw)) = None"
    using keyMap_names_no_text by (fastforce simp: map_of_eq_None_iff)
  then show ?thesis
    using assms by (simp add: ResolveKey_def has_prefix_def unescape_no_backslash)
qed

theorem ResolveKey_text_witness: "ResolveKey ''text:ls -la'' = Inr ''ls -la''"
  using ResolveKey_text [of "''ls -la''"] by simp

text \<open>
  A batch of keys is resolved all or nothing. It succeeds exactly when every key resolves,
  the result is the concatenation in order, and otherwise the reported key is the first one
  that does not resolve.
\<close>

theorem ResolveKeys_all_or_nothing:
  "ResolveKeys ks =
     (case find (\<lambda>k. isl (ResolveKey k)) ks of
        None \<Rightarrow> Inr (concat (map (\<lambda>k. projr (ResolveKey k)) ks))
      | Some k \<Rightarrow> Inl (UnknownKey k))"
proof (induction ks)
  case (Cons k ks)
  have "ResolveKey k = Inl e \<Longrightarrow> e = UnknownKey k" for e
    by (auto simp: ResolveKey_def split: option.splits if_splits)
  then show ?case
    using Cons by (cases "ResolveKey k") (auto split: option.splits)
qed simp

end
