(* ===== verification/Terminal_Manager.thy ===== *)
theory Terminal_Manager
  imports Output_Buffer Terminal_Keys
begin

text \<open>
  \<open>src/internal/terminal/manager.go\<close>, \<open>types.go\<close> and \<open>transport.go\<close>: the session registry.

  A \<open>*managed\<close> is shared between the registry, the goroutine inside \<open>Create\<close>, the pump and any
  number of \<open>Close\<close> calls, and outlives its registry entry, so the model keeps an explicit heap
  of managed objects (addresses are list positions) and the registry maps session ids to
  addresses. Every critical section of \<open>m.mu\<close> is one definition on the manager state; the
  operations compose these sections in program order. What the code does to the outside (hook
  invocations, transport calls, cancellation of a connection set-up) is appended to \<open>m_trace\<close>;
  a hook invocation carries the snapshot of subscriber ids it goes to.

  A transport is a handle; what the transport itself does (whether the connection succeeds,
  whether a write fails, the events it delivers, whether it terminates within the join timeout)
  is an argument of the operations. \<open>env\<close> stands for whatever other goroutines do while
  \<open>Create\<close> waits for the transport factory.
\<close>

section \<open>Types\<close>

datatype status = StatusOpening | StatusOpen | StatusClosing | StatusClosed | StatusError

datatype source = SourceUI | SourceMCP | SourceSSH

text \<open>\<open>NoReason\<close> is the empty string.\<close>

datatype close_reason = NoReason | CloseClientUI | CloseClientMCP | CloseClientWS
  | CloseAgentDisconnect | CloseIdleTimeout | CloseAccountDeleted | CloseServerHangup
  | CloseTransportError | CloseShutdown

record session =
  s_SessionID :: string
  s_EndpointID :: string
  s_AccountID :: string
  s_Status :: status
  s_CreatedAt :: time
  s_LastActivityAt :: time
  s_Source :: source
  s_CloseReason :: close_reason
  s_SourceIP :: string
  s_OwnerClientID :: string
  s_MCPReason :: string
  s_MCPClientName :: string
  s_MCPClientVer :: string

record trigger =
  t_Kind :: source
  t_SourceIP :: string
  t_Reason :: string
  t_OwnerClientID :: string
  t_MCPClientName :: string
  t_MCPClientVer :: string

record endpoint_ref =
  er_ID :: string
  er_Label :: string
  er_AccountID :: string
  er_Host :: string
  er_Port :: int
  er_Username :: string
  er_UserVerification :: string
  er_AgentForward :: bool

datatype event = EvData "byte list" | EvErr | EvClosed

type_synonym transport = nat

record managed =
  mg_session :: session
  mg_transport :: "transport option"
  mg_output :: output_buffer
  mg_pumpDone :: bool
  mg_abandoned :: bool
  mg_cancelSetup :: bool

record status_event =
  ev_SessionID :: string
  ev_Status :: status
  ev_Previous :: status
  ev_Reason :: close_reason
  ev_CreatedAt :: time

datatype effect =
    StatusHook nat "nat list" status_event
  | OutputHook "nat list" string int
  | RemovedHook "nat list" string
  | TransportClose transport
  | TransportWrite transport string
  | TransportResize transport int int
  | CancelSetup nat

record manager =
  m_destroyed :: bool
  m_heap :: "managed list"
  m_terminals :: "(string, nat) gomap"
  m_maxBufferSize :: int
  m_idleTimeout :: duration
  m_statusSubs :: "nat list"
  m_outputSubs :: "nat list"
  m_removedSubs :: "nat list"
  m_nextSub :: nat
  m_trace :: "effect list"

datatype mgr_error =
    UnknownEndpoint string
  | ShuttingDown
  | ConnectFailed string string
  | ClosedDuringSetup close_reason
  | TerminalNotFound string
  | NotOpen string status
  | WriteFailed
  | ResizeFailed
  | BadKey key_error
  | NilTransport

section \<open>Construction and subscriptions\<close>

definition NewManager :: "int \<Rightarrow> manager" where
  "NewManager maxBufferSize =
     \<lparr>m_destroyed = False, m_heap = [], m_terminals = [], m_maxBufferSize = maxBufferSize,
      m_idleTimeout = 30 * Minute, m_statusSubs = [], m_outputSubs = [], m_removedSubs = [],
      m_nextSub = 0, m_trace = []\<rparr>"

definition SetIdleTimeout :: "duration \<Rightarrow> manager \<Rightarrow> manager" where
  "SetIdleTimeout d m = m\<lparr>m_idleTimeout := d\<rparr>"

definition SubscribeStatus :: "manager \<Rightarrow> nat \<times> manager" where
  "SubscribeStatus m =
     (m_nextSub m, m\<lparr>m_nextSub := Suc (m_nextSub m), m_statusSubs := m_statusSubs m @ [m_nextSub m]\<rparr>)"

definition SubscribeOutput :: "manager \<Rightarrow> nat \<times> manager" where
  "SubscribeOutput m =
     (m_nextSub m, m\<lparr>m_nextSub := Suc (m_nextSub m), m_outputSubs := m_outputSubs m @ [m_nextSub m]\<rparr>)"

definition SubscribeRemoved :: "manager \<Rightarrow> nat \<times> manager" where
  "SubscribeRemoved m =
     (m_nextSub m, m\<lparr>m_nextSub := Suc (m_nextSub m), m_removedSubs := m_removedSubs m @ [m_nextSub m]\<rparr>)"

definition UnsubscribeStatus :: "nat \<Rightarrow> manager \<Rightarrow> manager" where
  "UnsubscribeStatus i m = m\<lparr>m_statusSubs := removeAll i (m_statusSubs m)\<rparr>"

definition UnsubscribeOutput :: "nat \<Rightarrow> manager \<Rightarrow> manager" where
  "UnsubscribeOutput i m = m\<lparr>m_outputSubs := removeAll i (m_outputSubs m)\<rparr>"

definition UnsubscribeRemoved :: "nat \<Rightarrow> manager \<Rightarrow> manager" where
  "UnsubscribeRemoved i m = m\<lparr>m_removedSubs := removeAll i (m_removedSubs m)\<rparr>"

section \<open>Critical sections\<close>

abbreviation obj :: "manager \<Rightarrow> nat \<Rightarrow> managed" where
  "obj m a \<equiv> m_heap m ! a"

abbreviation sess :: "manager \<Rightarrow> nat \<Rightarrow> session" where
  "sess m a \<equiv> mg_session (obj m a)"

definition upd :: "nat \<Rightarrow> (managed \<Rightarrow> managed) \<Rightarrow> manager \<Rightarrow> manager" where
  "upd a f m = m\<lparr>m_heap := (m_heap m)[a := f (obj m a)]\<rparr>"

definition emit :: "effect list \<Rightarrow> manager \<Rightarrow> manager" where
  "emit es m = m\<lparr>m_trace := m_trace m @ es\<rparr>"

definition stamp_reason :: "close_reason \<Rightarrow> session \<Rightarrow> session" where
  "stamp_reason reason s =
     (if reason \<noteq> NoReason \<and> s_CloseReason s = NoReason then s\<lparr>s_CloseReason := reason\<rparr> else s)"

text \<open>The transition shared by \<open>setStatus\<close> and \<open>beginClosing\<close>, with its broadcast.\<close>

definition transition :: "nat \<Rightarrow> status \<Rightarrow> close_reason \<Rightarrow> manager \<Rightarrow> manager" where
  "transition a status reason m =
     (let prev = s_Status (sess m a);
          s = stamp_reason reason ((sess m a)\<lparr>s_Status := status\<rparr>)
      in emit [StatusHook a (m_statusSubs m)
                 \<lparr>ev_SessionID = s_SessionID s, ev_Status = status, ev_Previous = prev,
                  ev_Reason = s_CloseReason s, ev_CreatedAt = s_CreatedAt s\<rparr>]
           (upd a (\<lambda>mg. mg\<lparr>mg_session := s\<rparr>) m))"

definition setStatus :: "nat \<Rightarrow> status \<Rightarrow> close_reason \<Rightarrow> manager \<Rightarrow> manager" where
  "setStatus a status reason m =
     (let prev = s_Status (sess m a) in
      if prev = status \<or> prev = StatusClosed \<or> prev = StatusError
         \<or> (prev = StatusClosing \<and> status = StatusOpen)
      then m else transition a status reason m)"

definition beginClosing :: "nat \<Rightarrow> close_reason \<Rightarrow> manager \<Rightarrow> bool \<times> manager" where
  "beginClosing a reason m =
     (let prev = s_Status (sess m a) in
      if prev = StatusClosed \<or> prev = StatusClosing then (False, m)
      else (True, transition a StatusClosing reason m))"

definition removeEntry :: "string \<Rightarrow> manager \<Rightarrow> manager" where
  "removeEntry sid m =
     (case map_of (m_terminals m) sid of
        None \<Rightarrow> m
      | Some a \<Rightarrow>
          emit [RemovedHook (m_removedSubs m) sid]
            ((upd a (\<lambda>mg. mg\<lparr>mg_output := ob_Clear (mg_output mg)\<rparr>) m)
               \<lparr>m_terminals := AList.delete sid (m_terminals m)\<rparr>))"

definition reasonOr :: "nat \<Rightarrow> close_reason \<Rightarrow> manager \<Rightarrow> close_reason" where
  "reasonOr a fallback m =
     (if s_CloseReason (sess m a) \<noteq> NoReason then s_CloseReason (sess m a) else fallback)"

definition touch :: "time \<Rightarrow> nat \<Rightarrow> manager \<Rightarrow> manager" where
  "touch now a m = upd a (\<lambda>mg. mg\<lparr>mg_session := (mg_session mg)\<lparr>s_LastActivityAt := now\<rparr>\<rparr>) m"

section \<open>The pump\<close>

text \<open>One output event: append, record the activity, notify the output subscribers.\<close>

definition pump_data :: "time \<Rightarrow> nat \<Rightarrow> byte list \<Rightarrow> manager \<Rightarrow> manager" where
  "pump_data now a data m =
     (if mg_abandoned (obj m a) then m
      else let m = upd a (\<lambda>mg. mg\<lparr>mg_output := ob_Append data (mg_output mg)\<rparr>) m;
               m = touch now a m
           in emit [OutputHook (m_outputSubs m) (s_SessionID (sess m a))
                      (ob_CurrentOffset (mg_output (obj m a)))] m)"

text \<open>
  The loop over the events a transport delivers. An empty list is the closed channel. Each event
  carries the instant at which it is handled.
\<close>

fun pump :: "nat \<Rightarrow> (time \<times> event) list \<Rightarrow> manager \<Rightarrow> manager" where
  "pump a [] m = setStatus a StatusClosed (reasonOr a CloseServerHangup m) m"
| "pump a ((now, EvErr) # evs) m = setStatus a StatusError (reasonOr a CloseTransportError m) m"
| "pump a ((now, EvClosed) # evs) m = setStatus a StatusClosed (reasonOr a CloseServerHangup m) m"
| "pump a ((now, EvData d) # evs) m = pump a evs (pump_data now a d m)"

definition pump_exit :: "nat \<Rightarrow> manager \<Rightarrow> manager" where
  "pump_exit a m = upd a (\<lambda>mg. mg\<lparr>mg_pumpDone := True\<rparr>) m"

section \<open>Create\<close>

definition new_session :: "string \<Rightarrow> time \<Rightarrow> endpoint_ref \<Rightarrow> trigger \<Rightarrow> session" where
  "new_session sid now ep tr =
     (let s = \<lparr>s_SessionID = sid, s_EndpointID = er_ID ep, s_AccountID = er_AccountID ep,
               s_Status = StatusOpening, s_CreatedAt = now, s_LastActivityAt = now,
               s_Source = t_Kind tr, s_CloseReason = NoReason, s_SourceIP = t_SourceIP tr,
               s_OwnerClientID = [], s_MCPReason = [], s_MCPClientName = [], s_MCPClientVer = []\<rparr>
      in if t_Kind tr = SourceMCP
         then s\<lparr>s_OwnerClientID := t_OwnerClientID tr, s_MCPReason := t_Reason tr,
                s_MCPClientName := t_MCPClientName tr, s_MCPClientVer := t_MCPClientVer tr\<rparr>
         else s)"

text \<open>The registration section: refused after \<open>Destroy\<close>, otherwise a fresh managed object.\<close>

definition register :: "session \<Rightarrow> manager \<Rightarrow> mgr_error + nat \<times> manager" where
  "register s m =
     (if m_destroyed m then Inl ShuttingDown
      else let a = length (m_heap m);
               mg = \<lparr>mg_session = s, mg_transport = None, mg_output = ob_New (m_maxBufferSize m),
                     mg_pumpDone = False, mg_abandoned = False, mg_cancelSetup = True\<rparr>
           in Inr (a, m\<lparr>m_heap := m_heap m @ [mg],
                        m_terminals := AList.update (s_SessionID s) a (m_terminals m)\<rparr>))"

definition Create_begin ::
  "string \<Rightarrow> time \<Rightarrow> endpoint_ref \<Rightarrow> string \<Rightarrow> trigger \<Rightarrow> manager \<Rightarrow> mgr_error + nat \<times> manager"
where
  "Create_begin sid now ep expectedAccountID tr m =
     (if er_AccountID ep \<noteq> expectedAccountID then Inl (UnknownEndpoint (er_ID ep))
      else register (new_session sid now ep tr) m)"

text \<open>
  The section after the factory: adopt the transport unless the set-up failed or a \<open>Close\<close>
  moved the session on. The first component says whether a \<open>Close\<close> raced the set-up.
\<close>

definition adopt :: "nat \<Rightarrow> string + transport \<Rightarrow> manager \<Rightarrow> bool \<times> manager" where
  "adopt a outcome m =
     (let aborted = s_Status (sess m a) \<noteq> StatusOpening;
          m = upd a (\<lambda>mg. mg\<lparr>mg_cancelSetup := False\<rparr>) m
      in case outcome of
           Inl _ \<Rightarrow> (aborted, m)
         | Inr t \<Rightarrow> (aborted, if aborted then m else upd a (\<lambda>mg. mg\<lparr>mg_transport := Some t\<rparr>) m))"

definition Create_finish ::
  "nat \<Rightarrow> string \<Rightarrow> string \<Rightarrow> string + transport \<Rightarrow> manager \<Rightarrow> (mgr_error + session) \<times> manager"
where
  "Create_finish a sid epID outcome m =
     (let (aborted, m) = adopt a outcome m in
      case outcome of
        Inl err \<Rightarrow>
          (Inl (ConnectFailed epID err),
           removeEntry sid (setStatus a StatusClosed CloseTransportError m))
      | Inr t \<Rightarrow>
          if aborted
          then (Inl (ClosedDuringSetup (s_CloseReason (sess m a))),
                removeEntry sid (setStatus a StatusClosed NoReason (emit [TransportClose t] m)))
          else let m = setStatus a StatusOpen NoReason m in (Inr (sess m a), m))"

definition Create ::
  "string \<Rightarrow> time \<Rightarrow> endpoint_ref \<Rightarrow> string \<Rightarrow> trigger \<Rightarrow> string + transport \<Rightarrow> (manager \<Rightarrow> manager) \<Rightarrow>
   manager \<Rightarrow> (mgr_error + session) \<times> manager"
where
  "Create sid now ep expectedAccountID tr outcome env m =
     (case Create_begin sid now ep expectedAccountID tr m of
        Inl e \<Rightarrow> (Inl e, m)
      | Inr (a, m) \<Rightarrow> Create_finish a sid (er_ID ep) outcome (env m))"

section \<open>Close\<close>

text \<open>
  How the join of the pump ends: the pump drains the remaining events and exits, or the join
  times out and the pump is abandoned.
\<close>

datatype join = Joined "(time \<times> event) list" | TimedOut

definition Close_join :: "nat \<Rightarrow> join \<Rightarrow> manager \<Rightarrow> manager" where
  "Close_join a j m =
     (case j of
        Joined evs \<Rightarrow> if mg_pumpDone (obj m a) then m else pump_exit a (pump a evs m)
      | TimedOut \<Rightarrow> upd a (\<lambda>mg. mg\<lparr>mg_abandoned := True\<rparr>) m)"

definition Close :: "string \<Rightarrow> close_reason \<Rightarrow> join \<Rightarrow> manager \<Rightarrow> manager" where
  "Close sid reason j m =
     (case map_of (m_terminals m) sid of
        None \<Rightarrow> m
      | Some a \<Rightarrow>
          (let (begun, m) = beginClosing a reason m in
           if \<not> begun then m
           else case mg_transport (obj m a) of
                  None \<Rightarrow> if mg_cancelSetup (obj m a) then emit [CancelSetup a] m else m
                | Some t \<Rightarrow>
                    removeEntry sid
                      (setStatus a StatusClosed reason
                        (Close_join a j (emit [TransportClose t] m)))))"

fun closeAll :: "string list \<Rightarrow> close_reason \<Rightarrow> (string \<Rightarrow> join) \<Rightarrow> manager \<Rightarrow> manager" where
  "closeAll [] reason j m = m"
| "closeAll (sid # sids) reason j m = closeAll sids reason j (Close sid reason (j sid) m)"

text \<open>The ids a sweep selects, read under the lock.\<close>

definition select_ids :: "(session \<Rightarrow> bool) \<Rightarrow> manager \<Rightarrow> string list" where
  "select_ids P m = map fst (filter (\<lambda>(sid, a). P (sess m a)) (m_terminals m))"

definition SweepIdle :: "time \<Rightarrow> (string \<Rightarrow> join) \<Rightarrow> manager \<Rightarrow> manager" where
  "SweepIdle now j m =
     (if m_idleTimeout m \<le> 0 then m
      else closeAll
             (select_ids (\<lambda>s. s_Status s = StatusOpen \<and> now - s_LastActivityAt s > m_idleTimeout m) m)
             CloseIdleTimeout j m)"

definition CloseAllForAccount :: "string \<Rightarrow> close_reason \<Rightarrow> (string \<Rightarrow> join) \<Rightarrow> manager \<Rightarrow> nat \<times> manager"
where
  "CloseAllForAccount acc reason j m =
     (let ids = select_ids (\<lambda>s. s_AccountID s = acc \<and> s_Status s \<noteq> StatusClosed) m
      in (length ids, closeAll ids reason j m))"

definition CloseAllForClient ::
  "string \<Rightarrow> string \<Rightarrow> close_reason \<Rightarrow> (string \<Rightarrow> join) \<Rightarrow> manager \<Rightarrow> nat \<times> manager"
where
  "CloseAllForClient acc clientID reason j m =
     (let ids = select_ids (\<lambda>s. s_AccountID s = acc \<and> s_Source s = SourceMCP
                  \<and> s_Status s \<noteq> StatusClosed \<and> (clientID = [] \<or> s_OwnerClientID s = clientID)) m
      in (length ids, closeAll ids reason j m))"

text \<open>The purge of retained sessions: one critical section, then the hooks for every id.\<close>

definition purgeable :: "string \<Rightarrow> manager \<Rightarrow> string \<times> nat \<Rightarrow> bool" where
  "purgeable acc m e \<longleftrightarrow>
     s_AccountID (sess m (snd e)) = acc
     \<and> (s_Status (sess m (snd e)) = StatusClosed \<or> s_Status (sess m (snd e)) = StatusError)"

definition RemoveForAccount :: "string \<Rightarrow> manager \<Rightarrow> nat \<times> manager" where
  "RemoveForAccount acc m =
     (let gone = filter (purgeable acc m) (m_terminals m);
          cleared = fold (\<lambda>e. upd (snd e) (\<lambda>mg. mg\<lparr>mg_output := ob_Clear (mg_output mg)\<rparr>)) gone m
      in (length gone,
          emit (map (\<lambda>e. RemovedHook (m_removedSubs m) (fst e)) gone)
            (cleared\<lparr>m_terminals := filter (\<lambda>e. \<not> purgeable acc m e) (m_terminals m)\<rparr>)))"

definition mark_destroyed :: "manager \<Rightarrow> manager" where
  "mark_destroyed m = m\<lparr>m_destroyed := True\<rparr>"

definition Destroy :: "(string \<Rightarrow> join) \<Rightarrow> manager \<Rightarrow> manager" where
  "Destroy j m = closeAll (map fst (m_terminals m)) CloseShutdown j (mark_destroyed m)"

section \<open>Input, output and listings\<close>

definition SendInput :: "time \<Rightarrow> bool \<Rightarrow> string \<Rightarrow> string \<Rightarrow> manager \<Rightarrow> (mgr_error + unit) \<times> manager" where
  "SendInput now writeOk sid input m =
     (case map_of (m_terminals m) sid of
        None \<Rightarrow> (Inl (TerminalNotFound sid), m)
      | Some a \<Rightarrow>
          if s_Status (sess m a) \<noteq> StatusOpen then (Inl (NotOpen sid (s_Status (sess m a))), m)
          else case mg_transport (obj m a) of
                 None \<Rightarrow> (Inl NilTransport, m)
               | Some t \<Rightarrow>
                   let m = emit [TransportWrite t input] m
                   in if writeOk then (Inr (), touch now a m) else (Inl WriteFailed, m))"

definition SendKeys :: "time \<Rightarrow> bool \<Rightarrow> string \<Rightarrow> string list \<Rightarrow> manager \<Rightarrow> (mgr_error + unit) \<times> manager"
where
  "SendKeys now writeOk sid keys m =
     (case ResolveKeys keys of
        Inl e \<Rightarrow> (Inl (BadKey e), m)
      | Inr resolved \<Rightarrow> SendInput now writeOk sid resolved m)"

definition ReadOutput :: "string \<Rightarrow> int \<Rightarrow> int \<Rightarrow> manager \<Rightarrow> mgr_error + (runtime_panic + read_result)" where
  "ReadOutput sid afterOffset limit m =
     (case map_of (m_terminals m) sid of
        None \<Rightarrow> Inl (TerminalNotFound sid)
      | Some a \<Rightarrow> Inr (ob_Read afterOffset limit (mg_output (obj m a))))"

definition ReadOutputFrom :: "string \<Rightarrow> int option \<Rightarrow> manager \<Rightarrow> mgr_error + from_result" where
  "ReadOutputFrom sid afterOffset m =
     (case map_of (m_terminals m) sid of
        None \<Rightarrow> Inl (TerminalNotFound sid)
      | Some a \<Rightarrow> Inr (ob_ReadFrom afterOffset (mg_output (obj m a))))"

definition ReadOutputTail :: "string \<Rightarrow> int \<Rightarrow> manager \<Rightarrow> byte list" where
  "ReadOutputTail sid limit m =
     (case map_of (m_terminals m) sid of
        None \<Rightarrow> []
      | Some a \<Rightarrow> ob_Tail limit (mg_output (obj m a)))"

definition OutputOffset :: "string \<Rightarrow> manager \<Rightarrow> mgr_error + int" where
  "OutputOffset sid m =
     (case map_of (m_terminals m) sid of
        None \<Rightarrow> Inl (TerminalNotFound sid)
      | Some a \<Rightarrow> Inr (ob_CurrentOffset (mg_output (obj m a))))"

definition Resize :: "bool \<Rightarrow> string \<Rightarrow> int \<Rightarrow> int \<Rightarrow> manager \<Rightarrow> (mgr_error + unit) \<times> manager" where
  "Resize resizeOk sid cols rows m =
     (case map_of (m_terminals m) sid of
        None \<Rightarrow> (Inl (TerminalNotFound sid), m)
      | Some a \<Rightarrow>
          (case mg_transport (obj m a) of
             None \<Rightarrow> (Inl (NotOpen sid (s_Status (sess m a))), m)
           | Some t \<Rightarrow> (if resizeOk then Inr () else Inl ResizeFailed,
                         emit [TransportResize t cols rows] m)))"

definition list_sessions :: "(session \<Rightarrow> bool) \<Rightarrow> manager \<Rightarrow> session list" where
  "list_sessions P m = filter P (map (\<lambda>e. sess m (snd e)) (m_terminals m))"

definition ListSessions :: "manager \<Rightarrow> session list" where
  "ListSessions m = list_sessions (\<lambda>s. s_Status s \<noteq> StatusClosed) m"

definition ListForAccount :: "string \<Rightarrow> manager \<Rightarrow> session list" where
  "ListForAccount acc m = list_sessions (\<lambda>s. s_AccountID s = acc \<and> s_Status s \<noteq> StatusClosed) m"

definition CountOpenForAccount :: "string \<Rightarrow> manager \<Rightarrow> nat" where
  "CountOpenForAccount acc m =
     length (list_sessions (\<lambda>s. s_AccountID s = acc \<and> s_Status s = StatusOpen) m)"

definition EndpointIDsForAccount :: "string \<Rightarrow> manager \<Rightarrow> string list" where
  "EndpointIDsForAccount acc m =
     map s_EndpointID (list_sessions (\<lambda>s. s_AccountID s = acc \<and> s_Status s \<noteq> StatusClosed) m)"

definition GetSession :: "string \<Rightarrow> manager \<Rightarrow> session option" where
  "GetSession sid m = map_option (sess m) (map_of (m_terminals m) sid)"

end
