(* ===== verification/Terminal_Lifecycle.thy ===== *)
theory Terminal_Lifecycle
  imports Terminal_Manager
begin

text \<open>
  Interleavings of the session registry. \<open>mgr_step\<close> lets any goroutine perform any critical
  section of \<open>Terminal_Manager\<close> at any time, with the guards that the program order of the code
  gives it (a session is opened only after its transport was adopted). Every execution of the
  code is a sequence of such steps, so what holds in every reachable state holds for every
  interleaving of creations, closes, pumps, sweeps and purges.
\<close>

section \<open>Frames\<close>

lemma upd_fields [simp]:
  "m_terminals (upd a f m) = m_terminals m" "m_trace (upd a f m) = m_trace m"
  "m_destroyed (upd a f m) = m_destroyed m" "m_statusSubs (upd a f m) = m_statusSubs m"
  "m_outputSubs (upd a f m) = m_outputSubs m" "m_removedSubs (upd a f m) = m_removedSubs m"
  "m_nextSub (upd a f m) = m_nextSub m" "m_idleTimeout (upd a f m) = m_idleTimeout m"
  "m_maxBufferSize (upd a f m) = m_maxBufferSize m"
  "length (m_heap (upd a f m)) = length (m_heap m)"
  by (simp_all add: upd_def)

lemma obj_upd: "a < length (m_heap m) \<Longrightarrow> obj (upd a f m) b = (if b = a then f (obj m a) else obj m b)"
  by (simp add: upd_def)

lemma emit_fields [simp]:
  "m_heap (emit es m) = m_heap m" "m_terminals (emit es m) = m_terminals m"
  "m_trace (emit es m) = m_trace m @ es" "m_destroyed (emit es m) = m_destroyed m"
  "m_statusSubs (emit es m) = m_statusSubs m" "m_outputSubs (emit es m) = m_outputSubs m"
  "m_removedSubs (emit es m) = m_removedSubs m" "m_nextSub (emit es m) = m_nextSub m"
  "m_idleTimeout (emit es m) = m_idleTimeout m" "m_maxBufferSize (emit es m) = m_maxBufferSize m"
  by (simp_all add: emit_def)

lemma stamp_reason_fields [simp]:
  "s_SessionID (stamp_reason r s) = s_SessionID s" "s_Status (stamp_reason r s) = s_Status s"
  "s_AccountID (stamp_reason r s) = s_AccountID s" "s_Source (stamp_reason r s) = s_Source s"
  "s_OwnerClientID (stamp_reason r s) = s_OwnerClientID s"
  "s_EndpointID (stamp_reason r s) = s_EndpointID s" "s_CreatedAt (stamp_reason r s) = s_CreatedAt s"
  "s_LastActivityAt (stamp_reason r s) = s_LastActivityAt s"
  by (simp_all add: stamp_reason_def)

lemma transition_fields [simp]:
  "m_terminals (transition a st r m) = m_terminals m" "m_destroyed (transition a st r m) = m_destroyed m"
  "length (m_heap (transition a st r m)) = length (m_heap m)"
  by (simp_all add: transition_def Let_def)

lemma obj_transition:
  "a < length (m_heap m) \<Longrightarrow> obj (transition a st r m) b =
     (if b = a then (obj m a)\<lparr>mg_session := stamp_reason r ((sess m a)\<lparr>s_Status := st\<rparr>)\<rparr> else obj m b)"
  by (simp add: transition_def Let_def obj_upd)

section \<open>Steps\<close>

fun transport_call :: "effect \<Rightarrow> bool" where
  "transport_call (TransportClose t) = True"
| "transport_call (TransportWrite t d) = True"
| "transport_call (TransportResize t c r) = True"
| "transport_call (CancelSetup a) = True"
| "transport_call _ = False"

inductive mgr_step :: "manager \<Rightarrow> manager \<Rightarrow> bool" where
  register: "register (new_session sid now ep tr) m = Inr (a, m') \<Longrightarrow> mgr_step m m'"
| adopt: "a < length (m_heap m) \<Longrightarrow> mgr_step m (snd (adopt a outcome m))"
| open_session: "a < length (m_heap m) \<Longrightarrow> mg_transport (obj m a) \<noteq> None \<Longrightarrow>
    mgr_step m (setStatus a StatusOpen NoReason m)"
| finalize: "a < length (m_heap m) \<Longrightarrow> st = StatusClosed \<or> st = StatusError \<Longrightarrow>
    mgr_step m (setStatus a st r m)"
| begin_closing: "a < length (m_heap m) \<Longrightarrow> mgr_step m (snd (beginClosing a r m))"
| pump_output: "a < length (m_heap m) \<Longrightarrow> mgr_step m (pump_data now a d m)"
| pump_exit: "a < length (m_heap m) \<Longrightarrow> mgr_step m (pump_exit a m)"
| abandon: "a < length (m_heap m) \<Longrightarrow> mgr_step m (upd a (\<lambda>mg. mg\<lparr>mg_abandoned := True\<rparr>) m)"
| touch: "a < length (m_heap m) \<Longrightarrow> mgr_step m (touch now a m)"
| remove_entry: "mgr_step m (removeEntry sid m)"
| purge: "mgr_step m (snd (RemoveForAccount acc m))"
| destroy: "mgr_step m (mark_destroyed m)"
| idle_timeout: "mgr_step m (SetIdleTimeout d m)"
| subscribe_status: "mgr_step m (snd (SubscribeStatus m))"
| subscribe_output: "mgr_step m (snd (SubscribeOutput m))"
| subscribe_removed: "mgr_step m (snd (SubscribeRemoved m))"
| unsubscribe_status: "mgr_step m (UnsubscribeStatus i m)"
| unsubscribe_output: "mgr_step m (UnsubscribeOutput i m)"
| unsubscribe_removed: "mgr_step m (UnsubscribeRemoved i m)"
| transport_io: "\<forall>e \<in> set es. transport_call e \<Longrightarrow> mgr_step m (emit es m)"

inductive mgr_reachable :: "manager \<Rightarrow> bool" where
  start: "mgr_reachable (NewManager maxBufferSize)"
| step: "mgr_reachable m \<Longrightarrow> mgr_step m m' \<Longrightarrow> mgr_reachable m'"

section \<open>The lifecycle of a session\<close>

fun allowed :: "status \<Rightarrow> status \<Rightarrow> bool" where
  "allowed StatusOpening st = (st \<noteq> StatusOpening)"
| "allowed StatusOpen st = (st = StatusClosing \<or> st = StatusClosed \<or> st = StatusError)"
| "allowed StatusClosing st = (st = StatusClosed \<or> st = StatusError)"
| "allowed StatusError st = (st = StatusClosing)"
| "allowed StatusClosed st = False"

fun status_events :: "nat \<Rightarrow> effect list \<Rightarrow> status_event list" where
  "status_events a [] = []"
| "status_events a (StatusHook b subs ev # es) =
     (if b = a then ev # status_events a es else status_events a es)"
| "status_events a (_ # es) = status_events a es"

text \<open>A chain of transitions: every event starts where the previous one ended.\<close>

fun chain :: "status \<Rightarrow> status_event list \<Rightarrow> status \<Rightarrow> bool" where
  "chain p [] q = (p = q)"
| "chain p (e # es) q = (ev_Previous e = p \<and> allowed p (ev_Status e) \<and> chain (ev_Status e) es q)"

lemma status_events_append [simp]: "status_events a (es @ fs) = status_events a es @ status_events a fs"
  by (induction a es rule: status_events.induct) auto

lemma status_events_transport [simp]: "\<forall>e \<in> set es. transport_call e \<Longrightarrow> status_events a es = []"
  by (induction a es rule: status_events.induct) auto

lemma status_events_removed [simp]: "status_events a (map (\<lambda>e. RemovedHook (f e) (g e)) es) = []"
  by (induction es) auto

lemma chain_append: "chain p (es @ fs) r \<longleftrightarrow> (\<exists>q. chain p es q \<and> chain q fs r)"
  by (induction p es r rule: chain.induct) auto

lemma chain_from_closed: "chain StatusClosed es q \<longleftrightarrow> es = [] \<and> q = StatusClosed"
  by (cases es) auto

text \<open>Once a chain left \<open>opening\<close>, no event is \<open>open\<close>.\<close>

lemma chain_no_open:
  "chain p es q \<Longrightarrow> p \<noteq> StatusOpening \<Longrightarrow> StatusOpen \<notin> ev_Status ` set es"
proof (induction es arbitrary: p)
  case (Cons e es)
  then have "ev_Status e \<noteq> StatusOpening" "ev_Status e \<noteq> StatusOpen"
    by (cases p; auto)+
  with Cons show ?case by auto
qed simp

lemma chain_open_once: "chain p es q \<Longrightarrow> length (filter (\<lambda>e. ev_Status e = StatusOpen) es) \<le> 1"
proof (induction es arbitrary: p)
  case (Cons e es)
  have "filter (\<lambda>e. ev_Status e = StatusOpen) es = []" if "ev_Status e = StatusOpen"
  proof -
    have "chain StatusOpen es q" using Cons.prems that by simp
    then have "StatusOpen \<notin> ev_Status ` set es" by (rule chain_no_open) simp
    then show ?thesis by (force simp: filter_empty_conv)
  qed
  with Cons show ?case by auto
qed simp

lemma chain_closed_last:
  "chain p es q \<Longrightarrow> i < length es \<Longrightarrow> ev_Status (es ! i) = StatusClosed \<Longrightarrow> Suc i = length es"
proof (induction es arbitrary: p i)
  case (Cons e es)
  then show ?case by (cases i) (auto simp: chain_from_closed)
qed simp

section \<open>Invariant\<close>

definition mgr_wf :: "manager \<Rightarrow> bool" where
  "mgr_wf m \<longleftrightarrow>
     gm_wf (m_terminals m) \<and>
     (\<forall>sid a. map_of (m_terminals m) sid = Some a \<longrightarrow>
        a < length (m_heap m) \<and> s_SessionID (sess m a) = sid)"

definition mgr_inv :: "manager \<Rightarrow> bool" where
  "mgr_inv m \<longleftrightarrow>
     mgr_wf m \<and>
     (\<forall>a. if a < length (m_heap m)
          then chain StatusOpening (status_events a (m_trace m)) (s_Status (sess m a))
          else status_events a (m_trace m) = []) \<and>
     (\<forall>a < length (m_heap m). s_Status (sess m a) = StatusOpen \<longrightarrow> mg_transport (obj m a) \<noteq> None)"

lemma mgr_wf_lookup:
  "mgr_wf m \<Longrightarrow> map_of (m_terminals m) sid = Some a \<Longrightarrow> a < length (m_heap m) \<and> s_SessionID (sess m a) = sid"
  by (simp add: mgr_wf_def)

lemma mgr_inv_wf [simp]: "mgr_inv m \<Longrightarrow> mgr_wf m" "mgr_inv m \<Longrightarrow> gm_wf (m_terminals m)"
  unfolding mgr_inv_def mgr_wf_def by blast+

lemma mgr_inv_life:
  "mgr_inv m \<Longrightarrow> a < length (m_heap m) \<Longrightarrow>
     chain StatusOpening (status_events a (m_trace m)) (s_Status (sess m a))"
  "mgr_inv m \<Longrightarrow> \<not> a < length (m_heap m) \<Longrightarrow> status_events a (m_trace m) = []"
  unfolding mgr_inv_def by (metis (full_types))+

lemma mgr_inv_open:
  "mgr_inv m \<Longrightarrow> a < length (m_heap m) \<Longrightarrow> s_Status (sess m a) = StatusOpen \<Longrightarrow>
     mg_transport (obj m a) \<noteq> None"
  unfolding mgr_inv_def by blast

lemma mgr_wfI:
  assumes "gm_wf (m_terminals m)"
    and "\<And>sid a. map_of (m_terminals m) sid = Some a \<Longrightarrow> a < length (m_heap m)"
    and "\<And>sid a. map_of (m_terminals m) sid = Some a \<Longrightarrow> s_SessionID (sess m a) = sid"
  shows "mgr_wf m"
  unfolding mgr_wf_def using assms by blast

lemma mgr_invI:
  assumes "mgr_wf m"
    and "\<And>a. a < length (m_heap m) \<Longrightarrow> chain StatusOpening (status_events a (m_trace m)) (s_Status (sess m a))"
    and "\<And>a. \<not> a < length (m_heap m) \<Longrightarrow> status_events a (m_trace m) = []"
    and "\<And>a. a < length (m_heap m) \<Longrightarrow> s_Status (sess m a) = StatusOpen \<Longrightarrow> mg_transport (obj m a) \<noteq> None"
  shows "mgr_inv m"
  unfolding mgr_inv_def using assms by simp

lemma mgr_inv_New: "mgr_inv (NewManager n)"
  by (simp add: mgr_inv_def mgr_wf_def NewManager_def)

text \<open>
  A change that keeps every session's identity and status, drops no transport, adds no registry
  entry and broadcasts no status keeps the invariant.
\<close>

lemma mgr_inv_frame:
  assumes inv: "mgr_inv m"
    and len: "length (m_heap m') = length (m_heap m)"
    and sid: "\<And>b. b < length (m_heap m) \<Longrightarrow> s_SessionID (sess m' b) = s_SessionID (sess m b)"
    and st: "\<And>b. b < length (m_heap m) \<Longrightarrow> s_Status (sess m' b) = s_Status (sess m b)"
    and tr: "\<And>b. b < length (m_heap m) \<Longrightarrow> mg_transport (obj m b) \<noteq> None \<Longrightarrow> mg_transport (obj m' b) \<noteq> None"
    and ts: "map_of (m_terminals m') \<subseteq>\<^sub>m map_of (m_terminals m)" "gm_wf (m_terminals m')"
    and ev: "\<And>b. status_events b (m_trace m') = status_events b (m_trace m)"
  shows "mgr_inv m'"
proof -
  have get: "map_of (m_terminals m) c = Some a" if "map_of (m_terminals m') c = Some a" for c a
    using ts(1) that by (metis domI map_le_def)
  have "mgr_wf m'"
  proof (rule mgr_wfI)
    fix c a assume "map_of (m_terminals m') c = Some a"
    from mgr_wf_lookup [OF mgr_inv_wf(1) [OF inv] get [OF this]]
    show "a < length (m_heap m')" "s_SessionID (sess m' a) = c"
      using len sid by auto
  qed (rule ts(2))
  then show ?thesis
    using mgr_inv_life [OF inv] mgr_inv_open [OF inv] len st tr ev
    by (intro mgr_invI) simp_all
qed

lemma mgr_inv_upd:
  assumes "mgr_inv m"
    and "s_SessionID (mg_session (f (obj m a))) = s_SessionID (sess m a)"
    and "s_Status (mg_session (f (obj m a))) = s_Status (sess m a)"
    and "mg_transport (obj m a) \<noteq> None \<longrightarrow> mg_transport (f (obj m a)) \<noteq> None"
  shows "mgr_inv (upd a f m)"
proof (cases "a < length (m_heap m)")
  case True
  with assms show ?thesis
    by (intro mgr_inv_frame [OF assms(1)]) (auto simp: obj_upd)
next
  case False
  then have "upd a f m = m" by (simp add: upd_def list_update_beyond)
  with assms show ?thesis by simp
qed

lemma mgr_inv_emit: "mgr_inv m \<Longrightarrow> (\<And>a. status_events a es = []) \<Longrightarrow> mgr_inv (emit es m)"
  by (rule mgr_inv_frame [where m = m]) auto

lemma mgr_inv_terminals:
  "mgr_inv m \<Longrightarrow> map_of ts \<subseteq>\<^sub>m map_of (m_terminals m) \<Longrightarrow> gm_wf ts \<Longrightarrow> mgr_inv (m\<lparr>m_terminals := ts\<rparr>)"
  by (rule mgr_inv_frame [where m = m]) auto

lemma mgr_inv_transition:
  assumes "mgr_inv m" "a < length (m_heap m)" "allowed (s_Status (sess m a)) st"
    and "st = StatusOpen \<Longrightarrow> mg_transport (obj m a) \<noteq> None"
  shows "mgr_inv (transition a st r m)"
proof -
  let ?m = "transition a st r m"
  have ev: "status_events b (m_trace ?m) = status_events b (m_trace m) @
      (if b = a then [\<lparr>ev_SessionID = s_SessionID (sess m a), ev_Status = st,
         ev_Previous = s_Status (sess m a),
         ev_Reason = s_CloseReason (stamp_reason r ((sess m a)\<lparr>s_Status := st\<rparr>)),
         ev_CreatedAt = s_CreatedAt (sess m a)\<rparr>] else [])" for b
    by (simp add: transition_def Let_def)
  note life = mgr_inv_life [OF assms(1)] and wf = mgr_inv_wf [OF assms(1)]
  have "mgr_wf ?m"
  proof (rule mgr_wfI)
    fix c b assume "map_of (m_terminals ?m) c = Some b"
    then have "b < length (m_heap m) \<and> s_SessionID (sess m b) = c"
      by (intro mgr_wf_lookup [OF wf(1)]) simp
    then show "b < length (m_heap ?m)" "s_SessionID (sess ?m b) = c"
      using assms(2) by (auto simp: obj_transition)
  qed (simp add: wf)
  then show ?thesis
  proof (rule mgr_invI)
    fix b assume b: "b < length (m_heap ?m)"
    then show "chain StatusOpening (status_events b (m_trace ?m)) (s_Status (sess ?m b))"
      using assms(2,3) life(1) [of b] by (auto simp: ev obj_transition chain_append)
    assume "s_Status (sess ?m b) = StatusOpen"
    then show "mg_transport (obj ?m b) \<noteq> None"
      using b assms(2,4) mgr_inv_open [OF assms(1), of b] by (auto simp: obj_transition split: if_splits)
  next
    fix b assume "\<not> b < length (m_heap ?m)"
    then show "status_events b (m_trace ?m) = []"
      using assms(2) life(2) [of b] by (auto simp: ev)
  qed
qed

lemma mgr_inv_setStatus:
  assumes "mgr_inv m" "a < length (m_heap m)" "st \<in> {StatusOpen, StatusClosed, StatusError}"
    and "st = StatusOpen \<Longrightarrow> mg_transport (obj m a) \<noteq> None"
  shows "mgr_inv (setStatus a st r m)"
  using assms by (cases "s_Status (sess m a)") (auto simp: setStatus_def Let_def intro!: mgr_inv_transition)

lemma mgr_inv_beginClosing:
  "mgr_inv m \<Longrightarrow> a < length (m_heap m) \<Longrightarrow> mgr_inv (snd (beginClosing a r m))"
  by (cases "s_Status (sess m a)") (auto simp: beginClosing_def Let_def intro!: mgr_inv_transition)

lemma mgr_inv_removeEntry:
  assumes "mgr_inv m"
  shows "mgr_inv (removeEntry sid m)"
proof (cases "map_of (m_terminals m) sid")
  case (Some a)
  have "mgr_inv (upd a (\<lambda>mg. mg\<lparr>mg_output := ob_Clear (mg_output mg)\<rparr>) m)"
    using assms by (rule mgr_inv_upd) simp_all
  then have "mgr_inv ((upd a (\<lambda>mg. mg\<lparr>mg_output := ob_Clear (mg_output mg)\<rparr>) m)
      \<lparr>m_terminals := AList.delete sid (m_terminals m)\<rparr>)"
    using assms by (intro mgr_inv_terminals) (auto simp: map_le_def gomap_simps)
  with Some show ?thesis by (simp add: removeEntry_def mgr_inv_emit)
qed (simp add: removeEntry_def assms)

lemma mgr_inv_adopt: "mgr_inv m \<Longrightarrow> mgr_inv (snd (adopt a outcome m))"
  by (auto simp: adopt_def Let_def split: sum.splits intro!: mgr_inv_upd)

lemma mgr_inv_touch: "mgr_inv m \<Longrightarrow> mgr_inv (touch now a m)"
  by (simp add: touch_def mgr_inv_upd)

lemma mgr_inv_pump_data: "mgr_inv m \<Longrightarrow> mgr_inv (pump_data now a d m)"
  by (auto simp: pump_data_def Let_def intro!: mgr_inv_emit mgr_inv_touch mgr_inv_upd)

lemma mgr_inv_clear_fold:
  "mgr_inv m \<Longrightarrow>
     mgr_inv (fold (\<lambda>e. upd (snd e) (\<lambda>mg. mg\<lparr>mg_output := ob_Clear (mg_output mg)\<rparr>)) es m)"
  by (induction es arbitrary: m) (simp_all add: mgr_inv_upd)

lemma clear_fold_fields [simp]:
  fixes es :: "(string \<times> nat) list"
  defines "c \<equiv> fold (\<lambda>e. upd (snd e) (\<lambda>mg. mg\<lparr>mg_output := ob_Clear (mg_output mg)\<rparr>)) es"
  shows "m_terminals (c m) = m_terminals m" "m_trace (c m) = m_trace m"
    "m_destroyed (c m) = m_destroyed m" "length (m_heap (c m)) = length (m_heap m)"
  unfolding c_def by (induction es arbitrary: m) simp_all

lemma mgr_inv_RemoveForAccount: "mgr_inv m \<Longrightarrow> mgr_inv (snd (RemoveForAccount acc m))"
  by (auto simp: RemoveForAccount_def Let_def mgr_inv_clear_fold map_le_def gm_get_filter
      intro!: mgr_inv_emit mgr_inv_terminals split: option.splits if_splits)

lemma mgr_inv_register:
  assumes "mgr_inv m" "register (new_session sid now ep tr) m = Inr (a, m')"
  shows "mgr_inv m'"
proof -
  let ?s = "new_session sid now ep tr"
  have s: "s_SessionID ?s = sid" "s_Status ?s = StatusOpening"
    by (simp_all add: new_session_def Let_def)
  obtain mg where m': "m' = m\<lparr>m_heap := m_heap m @ [mg],
      m_terminals := AList.update sid (length (m_heap m)) (m_terminals m)\<rparr>" and mg: "mg_session mg = ?s"
    using assms(2) s by (auto simp: register_def Let_def split: if_splits)
  note wf = mgr_inv_wf [OF assms(1)]
  have "mgr_wf m'"
  proof (rule mgr_wfI)
    show "gm_wf (m_terminals m')" using wf(2) by (auto simp: m')
    fix c b assume "map_of (m_terminals m') c = Some b"
    then show "b < length (m_heap m')" "s_SessionID (sess m' b) = c"
      using mgr_wf_lookup [OF wf(1), of c b] mg s
      by (auto simp: m' gomap_simps nth_append split: if_splits)
  qed
  then show ?thesis
    using mgr_inv_life [OF assms(1)] mgr_inv_open [OF assms(1)] s mg
    by (intro mgr_invI) (auto simp: m' nth_append less_Suc_eq)
qed

lemma mgr_inv_config:
  "mgr_inv m \<Longrightarrow> mgr_inv (mark_destroyed m)" "mgr_inv m \<Longrightarrow> mgr_inv (SetIdleTimeout d m)"
  "mgr_inv m \<Longrightarrow> mgr_inv (snd (SubscribeStatus m))" "mgr_inv m \<Longrightarrow> mgr_inv (snd (SubscribeOutput m))"
  "mgr_inv m \<Longrightarrow> mgr_inv (snd (SubscribeRemoved m))" "mgr_inv m \<Longrightarrow> mgr_inv (UnsubscribeStatus i m)"
  "mgr_inv m \<Longrightarrow> mgr_inv (UnsubscribeOutput i m)" "mgr_inv m \<Longrightarrow> mgr_inv (UnsubscribeRemoved i m)"
  by (auto intro!: mgr_inv_frame [where m = m] simp: mark_destroyed_def SetIdleTimeout_def SubscribeStatus_def SubscribeOutput_def
      SubscribeRemoved_def UnsubscribeStatus_def UnsubscribeOutput_def UnsubscribeRemoved_def)

lemma mgr_inv_step: "mgr_step m m' \<Longrightarrow> mgr_inv m \<Longrightarrow> mgr_inv m'"
proof (induction rule: mgr_step.induct)
  case (register sid now ep tr m a m')
  then show ?case by (blast intro: mgr_inv_register)
next
  case (finalize a m st r)
  then show ?case by (auto intro!: mgr_inv_setStatus)
next
  case (transport_io es m)
  then show ?case by (auto intro!: mgr_inv_emit)
next
  case (open_session a m)
  then show ?case by (auto intro!: mgr_inv_setStatus)
qed (simp_all add: mgr_inv_adopt mgr_inv_touch mgr_inv_pump_data mgr_inv_removeEntry pump_exit_def
    mgr_inv_RemoveForAccount mgr_inv_beginClosing mgr_inv_upd mgr_inv_config)

lemma mgr_inv_reachable: "mgr_reachable m \<Longrightarrow> mgr_inv m"
  by (induction rule: mgr_reachable.induct) (auto intro: mgr_inv_New mgr_inv_step)

section \<open>Every operation is a sequence of steps\<close>

abbreviation mgr_steps :: "manager \<Rightarrow> manager \<Rightarrow> bool" where
  "mgr_steps \<equiv> mgr_step\<^sup>*\<^sup>*"

lemma mgr_steps_reachable: "mgr_steps m m' \<Longrightarrow> mgr_reachable m \<Longrightarrow> mgr_reachable m'"
  by (induction rule: rtranclp_induct) (auto intro: mgr_reachable.step)

lemma mgr_steps_inv: "mgr_steps m m' \<Longrightarrow> mgr_inv m \<Longrightarrow> mgr_inv m'"
  by (induction rule: rtranclp_induct) (auto intro: mgr_inv_step)

text \<open>What a section leaves alone, as rewrite rules for the composed operations.\<close>

lemma setStatus_fields [simp]:
  "m_terminals (setStatus a st r m) = m_terminals m" "m_destroyed (setStatus a st r m) = m_destroyed m"
  "length (m_heap (setStatus a st r m)) = length (m_heap m)"
  by (simp_all add: setStatus_def Let_def)

lemma pump_data_fields [simp]:
  "m_terminals (pump_data now a d m) = m_terminals m" "m_destroyed (pump_data now a d m) = m_destroyed m"
  "length (m_heap (pump_data now a d m)) = length (m_heap m)"
  by (simp_all add: pump_data_def Let_def touch_def)

lemma pump_exit_fields [simp]:
  "m_terminals (pump_exit a m) = m_terminals m" "m_destroyed (pump_exit a m) = m_destroyed m"
  "length (m_heap (pump_exit a m)) = length (m_heap m)"
  by (simp_all add: pump_exit_def)

lemma pump_fields [simp]:
  "m_terminals (pump a evs m) = m_terminals m" "m_destroyed (pump a evs m) = m_destroyed m"
  "length (m_heap (pump a evs m)) = length (m_heap m)"
  by (induction a evs m rule: pump.induct) simp_all

lemma Close_join_fields [simp]:
  "m_terminals (Close_join a j m) = m_terminals m" "m_destroyed (Close_join a j m) = m_destroyed m"
  "length (m_heap (Close_join a j m)) = length (m_heap m)"
  by (simp_all add: Close_join_def split: join.split)

lemma removeEntry_fields [simp]:
  "m_destroyed (removeEntry sid m) = m_destroyed m"
  "length (m_heap (removeEntry sid m)) = length (m_heap m)"
  "m_terminals (removeEntry sid m) =
     (case map_of (m_terminals m) sid of None \<Rightarrow> m_terminals m | Some a \<Rightarrow> AList.delete sid (m_terminals m))"
  by (simp_all add: removeEntry_def split: option.split)

lemma beginClosing_fields [simp]:
  "m_terminals (snd (beginClosing a r m)) = m_terminals m"
  "m_destroyed (snd (beginClosing a r m)) = m_destroyed m"
  "length (m_heap (snd (beginClosing a r m))) = length (m_heap m)"
  by (simp_all add: beginClosing_def Let_def)

lemma adopt_fields [simp]:
  "m_terminals (snd (adopt a outcome m)) = m_terminals m"
  "m_destroyed (snd (adopt a outcome m)) = m_destroyed m"
  "length (m_heap (snd (adopt a outcome m))) = length (m_heap m)"
  by (simp_all add: adopt_def Let_def split: sum.split)

lemma pump_steps: "a < length (m_heap m) \<Longrightarrow> mgr_steps m (pump a evs m)"
proof (induction a evs m rule: pump.induct)
  case (4 a now d evs m)
  have "mgr_step m (pump_data now a d m)" using 4(2) by (rule mgr_step.pump_output)
  with 4 show ?case by (auto intro: converse_rtranclp_into_rtranclp)
qed (auto intro!: r_into_rtranclp mgr_step.finalize)

lemma Close_join_steps: "a < length (m_heap m) \<Longrightarrow> mgr_steps m (Close_join a j m)"
proof (cases j)
  case (Joined evs)
  moreover assume "a < length (m_heap m)"
  ultimately show ?thesis
    by (auto simp: Close_join_def intro!: rtranclp.rtrancl_into_rtrancl [OF pump_steps] mgr_step.pump_exit)
next
  case TimedOut
  moreover assume "a < length (m_heap m)"
  ultimately show ?thesis by (auto simp: Close_join_def intro!: mgr_step.abandon)
qed

lemma finalize_steps:
  assumes "a < length (m_heap m)"
  shows "mgr_steps m (removeEntry sid (setStatus a StatusClosed r m))"
proof -
  have "mgr_step m (setStatus a StatusClosed r m)"
    using assms by (intro mgr_step.finalize) simp_all
  moreover have "mgr_step (setStatus a StatusClosed r m) (removeEntry sid (setStatus a StatusClosed r m))"
    by (rule mgr_step.remove_entry)
  ultimately show ?thesis by (meson r_into_rtranclp rtranclp.rtrancl_into_rtrancl)
qed

lemma Close_steps:
  assumes "mgr_wf m"
  shows "mgr_steps m (Close sid reason j m)"
proof (cases "map_of (m_terminals m) sid")
  case (Some a)
  then have a: "a < length (m_heap m)" using mgr_wf_lookup [OF assms] by blast
  obtain begun m1 where b: "beginClosing a reason m = (begun, m1)" by (cases "beginClosing a reason m")
  have s1: "mgr_step m m1" using mgr_step.begin_closing [OF a, of reason] b by simp
  have a1: "a < length (m_heap m1)" using a b by (metis beginClosing_fields(3) snd_conv)
  show ?thesis
  proof (cases "begun \<and> mg_transport (obj m1 a) \<noteq> None")
    case False
    have "mgr_step m1 (emit [CancelSetup a] m1)" by (intro mgr_step.transport_io) simp
    with False s1 Some b show ?thesis
      by (auto simp: Close_def intro: rtranclp.rtrancl_into_rtrancl r_into_rtranclp split: option.splits)
  next
    case True
    then obtain t where t: "mg_transport (obj m1 a) = Some t" by auto
    let ?m2 = "emit [TransportClose t] m1"
    let ?m3 = "Close_join a j ?m2"
    have "mgr_step m1 ?m2" by (intro mgr_step.transport_io) simp
    moreover have "mgr_steps ?m2 ?m3" using a1 by (intro Close_join_steps) simp
    moreover have "mgr_steps ?m3 (removeEntry sid (setStatus a StatusClosed reason ?m3))"
      using a1 by (intro finalize_steps) simp
    ultimately have "mgr_steps m (removeEntry sid (setStatus a StatusClosed reason ?m3))"
      using s1 by (meson converse_rtranclp_into_rtranclp rtranclp_trans)
    with True t Some b show ?thesis by (simp add: Close_def)
  qed
qed (simp add: Close_def)

lemma closeAll_steps: "mgr_inv m \<Longrightarrow> mgr_steps m (closeAll sids reason j m)"
proof (induction sids arbitrary: m)
  case (Cons sid sids)
  have "mgr_steps m (Close sid reason (j sid) m)" using Cons.prems by (intro Close_steps) simp
  with Cons show ?case by (auto intro: rtranclp_trans mgr_steps_inv)
qed simp

lemma Create_finish_steps:
  assumes "a < length (m_heap m)"
  shows "mgr_steps m (snd (Create_finish a sid epID outcome m))"
proof -
  obtain ab m1 where ad: "adopt a outcome m = (ab, m1)" by (cases "adopt a outcome m")
  have s1: "mgr_step m m1" using mgr_step.adopt [OF assms, of outcome] ad by simp
  have a1: "a < length (m_heap m1)" using assms ad by (metis adopt_fields(3) snd_conv)
  have fin: "mgr_steps m' (removeEntry sid (setStatus a StatusClosed r m'))"
    if "length (m_heap m') = length (m_heap m1)" for m' r
    using a1 that by (intro finalize_steps) simp
  show ?thesis
  proof (cases outcome)
    case (Inl err)
    with fin [of m1] s1 ad show ?thesis
      by (simp add: Create_finish_def converse_rtranclp_into_rtranclp)
  next
    case (Inr t)
    show ?thesis
    proof (cases ab)
      case True
      have "mgr_step m1 (emit [TransportClose t] m1)" by (intro mgr_step.transport_io) simp
      with True Inr fin [of "emit [TransportClose t] m1"] s1 ad show ?thesis
        by (simp add: Create_finish_def converse_rtranclp_into_rtranclp)
    next
      case False
      with Inr ad assms have "mg_transport (obj m1 a) \<noteq> None"
        by (auto simp: adopt_def Let_def obj_upd split: if_splits)
      then have "mgr_step m1 (setStatus a StatusOpen NoReason m1)"
        using a1 by (intro mgr_step.open_session)
      with False Inr ad s1 show ?thesis
        by (auto simp: Create_finish_def Let_def intro: rtranclp.rtrancl_into_rtrancl r_into_rtranclp)
    qed
  qed
qed

section \<open>What steps never change\<close>

definition same_identity :: "session \<Rightarrow> session \<Rightarrow> bool" where
  "same_identity s s' \<longleftrightarrow>
     s_SessionID s' = s_SessionID s \<and> s_AccountID s' = s_AccountID s \<and> s_EndpointID s' = s_EndpointID s
     \<and> s_Source s' = s_Source s \<and> s_OwnerClientID s' = s_OwnerClientID s \<and> s_CreatedAt s' = s_CreatedAt s"

definition extends :: "manager \<Rightarrow> manager \<Rightarrow> bool" where
  "extends m m' \<longleftrightarrow>
     length (m_heap m) \<le> length (m_heap m')
     \<and> (\<forall>b < length (m_heap m). same_identity (sess m b) (sess m' b))
     \<and> (\<exists>es. m_trace m' = m_trace m @ es)"

lemma same_identity_refl [simp]: "same_identity s s"
  by (simp add: same_identity_def)

lemma same_identity_trans: "same_identity s t \<Longrightarrow> same_identity t u \<Longrightarrow> same_identity s u"
  by (simp add: same_identity_def)

lemma extends_refl [simp]: "extends m m"
  by (simp add: extends_def)

lemma extends_trans:
  assumes "extends m m'" "extends m' m''"
  shows "extends m m''"
proof -
  from assms have "same_identity (sess m b) (sess m'' b)" if "b < length (m_heap m)" for b
    using that by (meson extends_def order_less_le_trans same_identity_trans)
  with assms show ?thesis by (auto simp: extends_def)
qed

lemma extends_upd: "same_identity (sess m a) (mg_session (f (obj m a))) \<Longrightarrow> extends m (upd a f m)"
  by (cases "a < length (m_heap m)") (auto simp: extends_def obj_upd upd_def list_update_beyond nth_list_update)

lemma extends_emit [simp]: "extends m (emit es m)"
  by (simp add: extends_def)

lemma extends_terminals [simp]: "extends m (m'\<lparr>m_terminals := ts\<rparr>) \<longleftrightarrow> extends m m'"
  by (simp add: extends_def)

lemma extends_transition: "extends m (transition a st r m)"
  unfolding transition_def Let_def
  by (rule extends_trans [OF extends_upd extends_emit]) (simp add: same_identity_def)

lemma extends_setStatus: "extends m (setStatus a st r m)"
  by (simp add: setStatus_def Let_def extends_transition)

lemma extends_pump_data: "extends m (pump_data now a d m)"
proof -
  have t: "extends m (touch now a m)" for m
    by (simp add: touch_def extends_upd same_identity_def)
  have u: "extends m (upd a (\<lambda>mg. mg\<lparr>mg_output := ob_Append d (mg_output mg)\<rparr>) m)"
    by (rule extends_upd) simp
  show ?thesis
    using extends_trans [OF extends_trans [OF u t] extends_emit]
    by (simp add: pump_data_def Let_def)
qed

lemma extends_clear_fold:
  "extends m (fold (\<lambda>e. upd (snd e) (\<lambda>mg. mg\<lparr>mg_output := ob_Clear (mg_output mg)\<rparr>)) es m)"
proof (induction es arbitrary: m)
  case (Cons e es)
  have "extends m (upd (snd e) (\<lambda>mg. mg\<lparr>mg_output := ob_Clear (mg_output mg)\<rparr>) m)"
    by (rule extends_upd) simp
  with Cons show ?case by (auto intro: extends_trans)
qed simp

lemma extends_removeEntry: "extends m (removeEntry sid m)"
  unfolding removeEntry_def
  by (auto split: option.split intro!: extends_trans [OF _ extends_emit] extends_upd)

lemma extends_step: "mgr_step m m' \<Longrightarrow> extends m m'"
proof (induction rule: mgr_step.induct)
  case (register sid now ep tr m a m')
  then show ?case by (auto simp: register_def Let_def extends_def nth_append split: if_splits)
next
  case (adopt a m outcome)
  show ?case
    by (auto simp: adopt_def Let_def split: sum.split intro!: extends_upd extends_trans [OF extends_upd extends_upd])
next
  case (purge m acc)
  show ?case
    by (auto simp: RemoveForAccount_def Let_def intro!: extends_trans [OF _ extends_emit] extends_clear_fold)
qed (auto simp: extends_setStatus extends_transition extends_pump_data extends_removeEntry
    beginClosing_def Let_def pump_exit_def touch_def same_identity_def intro!: extends_upd,
    auto simp: extends_def mark_destroyed_def SetIdleTimeout_def SubscribeStatus_def
      SubscribeOutput_def SubscribeRemoved_def UnsubscribeStatus_def UnsubscribeOutput_def
      UnsubscribeRemoved_def)

lemma extends_steps: "mgr_steps m m' \<Longrightarrow> extends m m'"
  by (induction rule: rtranclp_induct) (auto intro: extends_trans extends_step)

end
