(* ===== verification/Terminal_Properties.thy ===== *)
theory Terminal_Properties
  imports Terminal_Lifecycle
begin

text \<open>
  What the session registry guarantees: the lifecycle of a session under every interleaving,
  removal hooks, shutdown, the race between connection set-up and close, explicit close, the
  idle sweep and the teardown of a deleted account.
\<close>

section \<open>Operations stay within the reachable states\<close>

lemma Create_steps:
  assumes "\<And>m. mgr_steps m (env m)"
  shows "mgr_steps m (snd (Create sid now ep acc tr outcome env m))"
proof (cases "Create_begin sid now ep acc tr m")
  case (Inr am)
  obtain a m1 where am: "am = (a, m1)" by (cases am)
  then have reg: "register (new_session sid now ep tr) m = Inr (a, m1)"
    using Inr by (auto simp: Create_begin_def split: if_splits)
  then have "mgr_step m m1" by (rule mgr_step.register)
  moreover have "a < length (m_heap m1)"
    using reg by (auto simp: register_def Let_def split: if_splits)
  then have "a < length (m_heap (env m1))"
    using extends_steps [OF assms, of m1] by (simp add: extends_def)
  then have "mgr_steps (env m1) (snd (Create_finish a sid (er_ID ep) outcome (env m1)))"
    by (rule Create_finish_steps)
  ultimately show ?thesis
    using Inr am assms [of m1]
    by (auto simp: Create_def intro: converse_rtranclp_into_rtranclp rtranclp_trans)
qed (simp add: Create_def)

lemma Close_reachable: "mgr_reachable m \<Longrightarrow> mgr_reachable (Close sid reason j m)"
  using Close_steps mgr_inv_reachable mgr_inv_wf(1) mgr_steps_reachable by blast

lemma Create_reachable:
  "mgr_reachable m \<Longrightarrow> mgr_reachable (snd (Create sid now ep acc tr outcome (\<lambda>m. m) m))"
  by (rule mgr_steps_reachable [OF Create_steps]) simp_all

lemma closeAll_reachable: "mgr_reachable m \<Longrightarrow> mgr_reachable (closeAll sids reason j m)"
  using closeAll_steps mgr_inv_reachable mgr_steps_reachable by blast

text \<open>A concrete endpoint and trigger for the witnesses.\<close>

definition ex_ep :: endpoint_ref where
  "ex_ep = \<lparr>er_ID = ''ep1'', er_Label = ''box'', er_AccountID = ''acc1'', er_Host = ''h'', er_Port = 22,
     er_Username = ''u'', er_UserVerification = ''required'', er_AgentForward = False\<rparr>"

definition ex_trigger :: trigger where
  "ex_trigger = \<lparr>t_Kind = SourceMCP, t_SourceIP = [], t_Reason = ''r'', t_OwnerClientID = ''c1'',
     t_MCPClientName = [], t_MCPClientVer = []\<rparr>"

definition ex_open :: manager where
  "ex_open = snd (Create ''s1'' 0 ex_ep ''acc1'' ex_trigger (Inr 7) (\<lambda>m. m) (NewManager 0))"

lemma ex_open_reachable: "mgr_reachable ex_open"
  unfolding ex_open_def by (rule Create_reachable) (rule mgr_reachable.start)

lemmas mgr_eval = ex_open_def ex_ep_def ex_trigger_def NewManager_def Create_def Create_begin_def
  new_session_def register_def Create_finish_def adopt_def upd_def emit_def setStatus_def
  transition_def stamp_reason_def Close_def beginClosing_def Close_join_def pump_exit_def
  reasonOr_def removeEntry_def pump_data_def touch_def ob_New_def ob_Clear_def

section \<open>The lifecycle under every interleaving\<close>



text \<open>
  No write reaches a missing transport. In every reachable state \<open>SendInput\<close> either reports
  that the session is unknown or not open, or it writes to an adopted transport.
\<close>

theorem SendInput_has_transport:
  assumes "mgr_reachable m"
  shows "fst (SendInput now writeOk sid input m) \<noteq> Inl NilTransport"
proof (cases "map_of (m_terminals m) sid")
  case (Some a)
  have inv: "mgr_inv m" by (rule mgr_inv_reachable [OF assms])
  have "a < length (m_heap m)" using mgr_wf_lookup [OF mgr_inv_wf(1) [OF inv] Some] by simp
  then have "\<exists>t. mg_transport (obj m a) = Some t" if "s_Status (sess m a) = StatusOpen"
    using mgr_inv_open [OF inv _ that] by blast
  with Some show ?thesis by (cases "s_Status (sess m a) = StatusOpen") (auto simp: SendInput_def Let_def split: if_splits)
qed (simp add: SendInput_def)

theorem SendInput_has_transport_witness:
  "fst (SendInput 5 True ''s1'' ''ls'' ex_open) = Inr ()
   \<and> fst (SendInput 5 True ''s1'' ''ls'' ex_open) \<noteq> Inl NilTransport"
  using SendInput_has_transport [OF ex_open_reachable, of 5 True "''s1''" "''ls''"]
  by (simp add: mgr_eval SendInput_def)

section \<open>Removal hooks\<close>

fun removed_count :: "string \<Rightarrow> effect list \<Rightarrow> nat" where
  "removed_count sid [] = 0"
| "removed_count sid (RemovedHook subs s # es) = (if s = sid then 1 else 0) + removed_count sid es"
| "removed_count sid (_ # es) = removed_count sid es"

definition registrations :: "string \<Rightarrow> manager \<Rightarrow> nat" where
  "registrations sid m = length (filter (\<lambda>s. s = sid) (map (\<lambda>mg. s_SessionID (mg_session mg)) (m_heap m)))"

definition removed_inv :: "string \<Rightarrow> manager \<Rightarrow> bool" where
  "removed_inv sid m \<longleftrightarrow>
     removed_count sid (m_trace m) + (if map_of (m_terminals m) sid = None then 0 else 1)
       \<le> registrations sid m"

lemma removed_count_append [simp]:
  "removed_count sid (es @ fs) = removed_count sid es + removed_count sid fs"
  by (induction sid es rule: removed_count.induct) auto

lemma removed_count_transport [simp]: "\<forall>e \<in> set es. transport_call e \<Longrightarrow> removed_count sid es = 0"
  by (induction sid es rule: removed_count.induct) auto

lemma removed_count_purge:
  "removed_count sid (map (\<lambda>e. RemovedHook (f e) (fst e)) es) = length (filter (\<lambda>e. fst e = sid) es)"
  by (induction es) auto

lemma registrations_upd [simp]:
  assumes "s_SessionID (mg_session (f (obj m a))) = s_SessionID (sess m a)"
  shows "registrations sid (upd a f m) = registrations sid m"
proof -
  have "map (\<lambda>mg. s_SessionID (mg_session mg)) (m_heap (upd a f m))
      = map (\<lambda>mg. s_SessionID (mg_session mg)) (m_heap m)"
    using assms by (cases "a < length (m_heap m)") (auto simp: upd_def map_update list_update_same_conv
        list_update_beyond)
  then show ?thesis by (simp add: registrations_def)
qed

lemma registrations_heap: "m_heap m' = m_heap m \<Longrightarrow> registrations sid m' = registrations sid m"
  by (simp add: registrations_def)

lemma removed_inv_frame:
  "removed_inv sid m \<Longrightarrow> removed_count sid (m_trace m') = removed_count sid (m_trace m) \<Longrightarrow>
     m_terminals m' = m_terminals m \<Longrightarrow> registrations sid m' = registrations sid m \<Longrightarrow> removed_inv sid m'"
  by (simp add: removed_inv_def)

lemma transition_removed [simp]:
  "removed_count sid (m_trace (transition a st r m)) = removed_count sid (m_trace m)"
  "registrations sid (transition a st r m) = registrations sid m"
  by (simp_all add: transition_def Let_def registrations_heap [OF emit_fields(1)])

lemma removed_inv_removeEntry:
  assumes "removed_inv sid m"
  shows "removed_inv sid (removeEntry c m)"
proof (cases "map_of (m_terminals m) c")
  case (Some a)
  let ?u = "upd a (\<lambda>mg. mg\<lparr>mg_output := ob_Clear (mg_output mg)\<rparr>) m"
  have "registrations sid (removeEntry c m) = registrations sid ?u"
    using Some by (intro registrations_heap) (simp add: removeEntry_def)
  also have "\<dots> = registrations sid m" by (rule registrations_upd) simp
  finally show ?thesis
    using assms Some by (auto simp: removed_inv_def removeEntry_def gomap_simps)
qed (simp add: removeEntry_def assms)

lemma removed_inv_purge:
  assumes "removed_inv sid m" "gm_wf (m_terminals m)"
  shows "removed_inv sid (snd (RemoveForAccount acc m))"
proof -
  let ?gone = "filter (purgeable acc m) (m_terminals m)"
  have reg: "registrations sid (fold (\<lambda>e. upd (snd e) (\<lambda>mg. mg\<lparr>mg_output := ob_Clear (mg_output mg)\<rparr>)) es m)
      = registrations sid m" for es :: "(string \<times> nat) list"
    by (induction es arbitrary: m) simp_all
  have one: "length (filter (\<lambda>e. fst e = sid) (filter P ts))
      + (if map_of (filter (\<lambda>e. \<not> P e) ts) sid = None then 0 else 1)
      = (if map_of ts sid = None then 0 else 1)" if "gm_wf ts" for P and ts :: "(string \<times> nat) list"
    using that
  proof (induction ts)
    case (Cons e ts)
    show ?case
    proof (cases "fst e = sid")
      case True
      with Cons.prems have no: "sid \<notin> fst ` set ts" by auto
      then have "filter (\<lambda>e. fst e = sid) (filter P ts) = []" "map_of (filter (\<lambda>e. \<not> P e) ts) sid = None"
        by (force simp: filter_empty_conv map_of_eq_None_iff)+
      with True show ?thesis by (cases e) simp
    next
      case False
      with Cons.IH Cons.prems show ?thesis by (cases e) (auto simp del: not_None_eq split: if_splits)
    qed
  qed simp
  let ?m = "snd (RemoveForAccount acc m)"
  have "removed_count sid (m_trace ?m) = removed_count sid (m_trace m) + length (filter (\<lambda>e. fst e = sid) ?gone)"
    "m_terminals ?m = filter (\<lambda>e. \<not> purgeable acc m e) (m_terminals m)"
    by (simp_all add: RemoveForAccount_def Let_def removed_count_purge)
  moreover have "registrations sid ?m = registrations sid m"
    using reg [of ?gone] by (simp add: RemoveForAccount_def Let_def registrations_def)
  ultimately show ?thesis
    using assms(1) one [OF assms(2), of "purgeable acc m"] unfolding removed_inv_def by simp
qed


lemma removed_inv_step:
  assumes "mgr_step m m'" "mgr_inv m" "removed_inv sid m"
  shows "removed_inv sid m'"
  using assms
proof (induction rule: mgr_step.induct)
  case (register c now ep tr m a m')
  then show ?case
    by (auto simp: removed_inv_def register_def Let_def registrations_def gomap_simps new_session_def
        split: if_splits)
next
  case (remove_entry m c)
  then show ?case by (blast intro: removed_inv_removeEntry)
next
  case (purge m acc)
  then show ?case by (simp add: removed_inv_purge)
next
  case (adopt a m outcome)
  then show ?case
    by (auto simp: adopt_def Let_def split: sum.split intro!: removed_inv_frame [OF adopt(3)])
next
  case (pump_output a m now d)
  then show ?case
    by (auto simp: pump_data_def Let_def touch_def registrations_heap [OF emit_fields(1)]
        intro!: removed_inv_frame [OF pump_output(3)])
qed (auto simp: setStatus_def beginClosing_def Let_def pump_exit_def touch_def elim!: removed_inv_frame,
    auto simp: removed_inv_def registrations_def mark_destroyed_def SetIdleTimeout_def SubscribeStatus_def
      SubscribeOutput_def SubscribeRemoved_def UnsubscribeStatus_def UnsubscribeOutput_def
      UnsubscribeRemoved_def)

lemma removed_inv_reachable: "mgr_reachable m \<Longrightarrow> removed_inv sid m"
proof (induction rule: mgr_reachable.induct)
  case (start n)
  show ?case by (simp add: removed_inv_def NewManager_def registrations_def)
next
  case (step m m')
  then show ?case by (blast intro: removed_inv_step mgr_inv_reachable)
qed

text \<open>
  The removed hook fires at most once for each registration of a session, and not while the
  last registration is still in the registry, whichever of an explicit close, a failed set-up and
  an account purge removes it and however they interleave.
\<close>

theorem removed_hook_once:
  assumes "mgr_reachable m"
  shows "removed_count sid (m_trace m) + (if map_of (m_terminals m) sid = None then 0 else 1)
    \<le> registrations sid m"
  using removed_inv_reachable [OF assms] by (simp add: removed_inv_def)

theorem removed_hook_once_witness:
  "let m = Close ''s1'' CloseClientUI (Joined []) ex_open
   in registrations ''s1'' m = Suc 0 \<and> removed_count ''s1'' (m_trace m) = Suc 0
      \<and> removed_count ''s1'' (m_trace m) + (if map_of (m_terminals m) ''s1'' = None then 0 else 1)
          \<le> registrations ''s1'' m"
  using removed_hook_once [OF Close_reachable [OF ex_open_reachable], of "''s1''" "''s1''" CloseClientUI "Joined []"]
  by (simp add: mgr_eval registrations_def)

section \<open>Shutdown\<close>

lemma destroyed_step:
  "mgr_step m m' \<Longrightarrow> m_destroyed m \<Longrightarrow>
     m_destroyed m' \<and> length (m_heap m') = length (m_heap m) \<and> fst ` set (m_terminals m') \<subseteq> fst ` set (m_terminals m)"
proof (induction rule: mgr_step.induct)
  case (register c now ep tr m a m')
  then show ?case by (simp add: register_def)
next
  case (remove_entry m c)
  then show ?case by (auto simp: gm_keyset_delete split: option.splits)
next
  case (purge m acc)
  then show ?case by (auto simp: RemoveForAccount_def Let_def)
qed (simp_all add: touch_def mark_destroyed_def SetIdleTimeout_def SubscribeStatus_def
      SubscribeOutput_def SubscribeRemoved_def UnsubscribeStatus_def UnsubscribeOutput_def
      UnsubscribeRemoved_def)

text \<open>
  After the destroyed flag is set, whatever the goroutines still running do, no session is
  ever registered again: the registry only shrinks, and a \<open>Create\<close> for the caller's own endpoint
  is refused with the shutdown error and leaves the state alone.
\<close>

theorem shutdown_final:
  assumes "m_destroyed m" and "mgr_steps m m'"
  shows "length (m_heap m') = length (m_heap m)
    \<and> fst ` set (m_terminals m') \<subseteq> fst ` set (m_terminals m)
    \<and> Create sid now ep (er_AccountID ep) tr outcome env m' = (Inl ShuttingDown, m')"
proof -
  from assms(2,1) have "m_destroyed m' \<and> length (m_heap m') = length (m_heap m)
      \<and> fst ` set (m_terminals m') \<subseteq> fst ` set (m_terminals m)"
  proof (induction rule: rtranclp_induct)
    case (step y z)
    then have "m_destroyed y" by blast
    from destroyed_step [OF step(2) this] step show ?case by auto
  qed simp
  then show ?thesis by (simp add: Create_def Create_begin_def register_def)
qed

theorem shutdown_final_witness:
  "let m = mark_destroyed ex_open; m' = Close ''s1'' CloseShutdown TimedOut m
   in m_destroyed m \<and> mgr_steps m m'
      \<and> Create ''s2'' 9 ex_ep (er_AccountID ex_ep) ex_trigger (Inr 8) (\<lambda>m. m) m' = (Inl ShuttingDown, m')"
proof -
  let ?m = "mark_destroyed ex_open"
  have "mgr_wf ?m" using mgr_inv_config(1) [OF mgr_inv_reachable [OF ex_open_reachable]] by simp
  then have steps: "mgr_steps ?m (Close ''s1'' CloseShutdown TimedOut ?m)" by (rule Close_steps)
  have d: "m_destroyed ?m" by (simp add: mark_destroyed_def)
  show ?thesis
    using shutdown_final [OF d steps, of "''s2''" 9 ex_ep ex_trigger "Inr 8" "\<lambda>m. m"] d steps
    by (simp add: Let_def)
qed

end
