(* ===== verification/Terminal_Teardown.thy ===== *)
theory Terminal_Teardown
  imports Terminal_Properties
begin

text \<open>
  How sessions of the registry end: the race between connection set-up and close, the complete
  effect of an explicit close, the idle sweep, and the teardown of a deleted account.
\<close>

section \<open>What an operation leaves alone\<close>

lemma obj_upd_other [simp]: "b \<noteq> a \<Longrightarrow> obj (upd a f m) b = obj m b"
  by (simp add: upd_def)

lemma obj_transition_other [simp]: "b \<noteq> a \<Longrightarrow> obj (transition a st r m) b = obj m b"
  by (simp add: transition_def Let_def)

lemma obj_setStatus_other [simp]: "b \<noteq> a \<Longrightarrow> obj (setStatus a st r m) b = obj m b"
  by (simp add: setStatus_def Let_def)

lemma obj_pump_data_other [simp]: "b \<noteq> a \<Longrightarrow> obj (pump_data now a d m) b = obj m b"
  by (simp add: pump_data_def touch_def Let_def)

lemma obj_pump_other [simp]: "b \<noteq> a \<Longrightarrow> obj (pump a evs m) b = obj m b"
  by (induction a evs m rule: pump.induct) simp_all

lemma obj_Close_join_other [simp]: "b \<noteq> a \<Longrightarrow> obj (Close_join a j m) b = obj m b"
  by (simp add: Close_join_def pump_exit_def split: join.split)

lemma obj_removeEntry_other:
  "map_of (m_terminals m) sid \<noteq> Some b \<Longrightarrow> obj (removeEntry sid m) b = obj m b"
  by (auto simp: removeEntry_def split: option.split)

lemma obj_beginClosing_other [simp]: "b \<noteq> a \<Longrightarrow> obj (snd (beginClosing a r m)) b = obj m b"
  by (simp add: beginClosing_def Let_def)

lemma sess_upd_same: "mg_session (f (obj m a)) = sess m a \<Longrightarrow> sess (upd a f m) b = sess m b"
  by (cases "a < length (m_heap m)"; cases "b = a") (auto simp: upd_def list_update_beyond)

lemma sess_removeEntry [simp]: "sess (removeEntry sid m) b = sess m b"
  by (simp add: removeEntry_def sess_upd_same split: option.split)

lemma Close_other:
  assumes "map_of (m_terminals m) sid \<noteq> Some b"
  shows "obj (Close sid reason j m) b = obj m b"
proof (cases "map_of (m_terminals m) sid")
  case (Some a)
  obtain begun m1 where b: "beginClosing a reason m = (begun, m1)" by (cases "beginClosing a reason m")
  have m1: "obj m1 b = obj m b" "m_terminals m1 = m_terminals m"
    using obj_beginClosing_other [of b a reason m] beginClosing_fields(1) [of a reason m] assms Some b
    by (simp_all del: obj_beginClosing_other beginClosing_fields)
  with assms Some b show ?thesis
    by (auto simp: Close_def obj_removeEntry_other split: option.split)
qed (simp add: Close_def)

lemma Close_get_other:
  assumes "c \<noteq> sid"
  shows "map_of (m_terminals (Close sid reason j m)) c = map_of (m_terminals m) c"
proof (cases "map_of (m_terminals m) sid")
  case (Some a)
  obtain begun m1 where b: "beginClosing a reason m = (begun, m1)" by (cases "beginClosing a reason m")
  have m1: "m_terminals m1 = m_terminals m"
    using beginClosing_fields(1) [of a reason m] b by (simp del: beginClosing_fields)
  with assms Some b show ?thesis
    by (auto simp: Close_def gomap_simps split: option.split)
qed (simp add: Close_def)

lemma finalized:
  assumes "a < length (m_heap m)"
  shows "s_Status (sess (setStatus a StatusClosed r m) a) \<in> {StatusClosed, StatusError}"
  using assms by (cases "s_Status (sess m a)") (auto simp: setStatus_def Let_def obj_transition)

lemma transport_setStatus [simp]: "mg_transport (obj (setStatus a st r m) b) = mg_transport (obj m b)"
  by (cases "a < length (m_heap m)")
     (auto simp: setStatus_def Let_def transition_def upd_def nth_list_update list_update_beyond)

lemma abandoned_setStatus [simp]: "mg_abandoned (obj (setStatus a st r m) b) = mg_abandoned (obj m b)"
  by (cases "a < length (m_heap m)")
     (auto simp: setStatus_def Let_def transition_def upd_def nth_list_update list_update_beyond)

section \<open>Close\<close>

text \<open>The two outcomes of the first critical section of \<open>Close\<close>.\<close>

lemma beginClosing_begun:
  assumes "s_Status (sess m a) \<noteq> StatusClosed" "s_Status (sess m a) \<noteq> StatusClosing"
  shows "beginClosing a r m = (True, transition a StatusClosing r m)"
  using assms by (simp add: beginClosing_def Let_def)

lemma Close_full:
  assumes "map_of (m_terminals m) sid = Some a" "a < length (m_heap m)" "mg_transport (obj m a) = Some t"
    and "s_Status (sess m a) \<noteq> StatusClosed" "s_Status (sess m a) \<noteq> StatusClosing"
  shows "Close sid reason j m = removeEntry sid (setStatus a StatusClosed reason
      (Close_join a j (emit [TransportClose t] (transition a StatusClosing reason m))))"
  using assms by (simp add: Close_def beginClosing_begun obj_transition)

lemma Close_outcome:
  assumes "mgr_wf m" "map_of (m_terminals (Close sid reason j m)) sid = Some a"
  shows "map_of (m_terminals m) sid = Some a
    \<and> s_Status (sess (Close sid reason j m) a) \<in> {StatusClosing, StatusClosed}"
proof (cases "map_of (m_terminals m) sid")
  case (Some b)
  then have b: "b < length (m_heap m)" using mgr_wf_lookup [OF assms(1)] by blast
  show ?thesis
  proof (cases "s_Status (sess m b) = StatusClosed \<or> s_Status (sess m b) = StatusClosing")
    case True
    with Some have "Close sid reason j m = m" by (auto simp: Close_def beginClosing_def Let_def)
    with True Some assms show ?thesis by auto
  next
    case False
    show ?thesis
    proof (cases "mg_transport (obj m b)")
      case None
      with False Some b assms(2) show ?thesis
        by (auto simp: Close_def beginClosing_begun obj_transition split: if_splits)
    next
      case (Some t)
      have "Close sid reason j m = removeEntry sid (setStatus b StatusClosed reason
          (Close_join b j (emit [TransportClose t] (transition b StatusClosing reason m))))"
        using \<open>map_of (m_terminals m) sid = Some b\<close> b Some False by (intro Close_full) auto
      then have "map_of (m_terminals (Close sid reason j m)) sid = None"
        using \<open>map_of (m_terminals m) sid = Some b\<close> by (simp add: gomap_simps)
      with assms(2) show ?thesis by simp
    qed
  qed
qed (use assms in \<open>simp add: Close_def\<close>)

text \<open>An abandoned pump drops what it still reads.\<close>

lemma abandoned_drops: "mg_abandoned (obj m a) \<Longrightarrow> pump_data now a d m = m"
  by (simp add: pump_data_def)

lemma reason_setStatus:
  assumes "a < length (m_heap m)" "s_CloseReason (sess m a) \<noteq> NoReason"
  shows "s_CloseReason (sess (setStatus a st r m) a) = s_CloseReason (sess m a)"
  using assms by (simp add: setStatus_def Let_def obj_transition stamp_reason_def)

lemma reason_pump_data: "s_CloseReason (sess (pump_data now a d m) a) = s_CloseReason (sess m a)"
  by (cases "a < length (m_heap m)")
     (auto simp: pump_data_def touch_def Let_def upd_def list_update_beyond)

lemma reason_pump:
  "a < length (m_heap m) \<Longrightarrow> s_CloseReason (sess m a) \<noteq> NoReason \<Longrightarrow>
     s_CloseReason (sess (pump a evs m) a) = s_CloseReason (sess m a)"
  by (induction a evs m rule: pump.induct) (simp_all add: reason_setStatus reason_pump_data)

lemma reason_Close_join:
  "a < length (m_heap m) \<Longrightarrow> s_CloseReason (sess m a) \<noteq> NoReason \<Longrightarrow>
     s_CloseReason (sess (Close_join a j m) a) = s_CloseReason (sess m a)"
  by (auto simp: Close_join_def pump_exit_def obj_upd reason_pump split: join.split)

text \<open>
  Closing a live session completely ends it. The transport is closed, the session is gone
  from the registry in a terminal status, its retained output is released, and the reason of the
  first close is the one recorded. If the pump did not stop in time it is abandoned, and whatever
  it still reads from the transport never refills the released buffer.
\<close>

theorem Close_ends_session:
  assumes "mgr_reachable m" and "map_of (m_terminals m) sid = Some a"
    and "mg_transport (obj m a) = Some t"
    and "s_Status (sess m a) = StatusOpen \<or> s_Status (sess m a) = StatusError"
    and "reason \<noteq> NoReason"
  shows "GetSession sid (Close sid reason j m) = None
    \<and> TransportClose t \<in> set (m_trace (Close sid reason j m))
    \<and> s_Status (sess (Close sid reason j m) a) \<in> {StatusClosed, StatusError}
    \<and> ob_buf (mg_output (obj (Close sid reason j m) a)) = []
    \<and> s_CloseReason (sess (Close sid reason j m) a) = reasonOr a reason m
    \<and> (j = TimedOut \<longrightarrow> pump_data now a d (Close sid reason j m) = Close sid reason j m)"
proof -
  have a: "a < length (m_heap m)"
    using mgr_wf_lookup [OF mgr_inv_wf(1) [OF mgr_inv_reachable [OF assms(1)]] assms(2)] by simp
  let ?m1 = "emit [TransportClose t] (transition a StatusClosing reason m)"
  let ?m2 = "Close_join a j ?m1"
  let ?m3 = "setStatus a StatusClosed reason ?m2"
  have cl: "Close sid reason j m = removeEntry sid ?m3"
    using assms(2-4) a by (intro Close_full) auto
  have tm: "map_of (m_terminals ?m3) sid = Some a" using assms(2) by simp
  have len: "a < length (m_heap ?m1)" "a < length (m_heap ?m2)" "a < length (m_heap ?m3)" using a by simp_all
  have "extends ?m1 (removeEntry sid ?m3)"
    using extends_steps [OF rtranclp_trans [OF Close_join_steps [OF len(1), of j] finalize_steps]] a by simp
  then have tc: "TransportClose t \<in> set (m_trace (removeEntry sid ?m3))"
    by (auto simp: extends_def)
  have r1: "s_CloseReason (sess ?m1 a) = reasonOr a reason m" "reasonOr a reason m \<noteq> NoReason"
    using a assms(5) by (auto simp: obj_transition stamp_reason_def reasonOr_def)
  have r3: "s_CloseReason (sess ?m3 a) = reasonOr a reason m"
    using r1 len by (simp add: reason_setStatus reason_Close_join)
  have buf: "ob_buf (mg_output (obj (removeEntry sid ?m3) a)) = []"
    using tm len(3) by (simp add: removeEntry_def obj_upd ob_Clear_def)
  have ab: "mg_abandoned (obj (removeEntry sid ?m3) a)" if "j = TimedOut"
    using tm len that by (simp add: removeEntry_def obj_upd Close_join_def)
  show ?thesis
    unfolding cl using tc buf r3 tm abandoned_drops [OF ab] finalized [OF len(2), of reason]
    by (auto simp: GetSession_def gomap_simps)
qed

theorem Close_ends_session_witness:
  "let m = Close ''s1'' CloseClientUI TimedOut ex_open
   in GetSession ''s1'' m = None \<and> TransportClose 7 \<in> set (m_trace m)
      \<and> pump_data 3 0 [65] m = m"
proof -
  have "map_of (m_terminals ex_open) ''s1'' = Some 0" "mg_transport (obj ex_open 0) = Some 7"
    "s_Status (sess ex_open 0) = StatusOpen \<or> s_Status (sess ex_open 0) = StatusError"
    by (simp_all add: mgr_eval)
  from Close_ends_session [OF ex_open_reachable this, of CloseClientUI TimedOut 3 "[65]"]
  show ?thesis by (simp add: Let_def)
qed


section \<open>Sweeps\<close>

text \<open>
  What closing a list of sessions does: nothing outside the list is touched, and whatever of the
  list is still registered afterwards is closing (a session in set-up, which its own \<open>Create\<close>
  finalizes) or closed.
\<close>

lemma closeAll_other:
  "mgr_inv m \<Longrightarrow> \<forall>sid \<in> set sids. map_of (m_terminals m) sid \<noteq> Some b \<Longrightarrow>
     obj (closeAll sids reason j m) b = obj m b"
proof (induction sids arbitrary: m)
  case (Cons sid sids)
  let ?m = "Close sid reason (j sid) m"
  have inv: "mgr_inv ?m" using Cons.prems(1) Close_steps mgr_inv_wf(1) mgr_steps_inv by blast
  have "map_of (m_terminals ?m) c \<noteq> Some b" if "c \<in> set sids" for c
  proof (cases "c = sid")
    case True
    then show ?thesis
      using Cons.prems Close_outcome [OF mgr_inv_wf(1) [OF Cons.prems(1)], of sid reason "j sid" b] by auto
  next
    case False
    with Cons.prems that show ?thesis by (simp add: Close_get_other)
  qed
  with Cons.IH [OF inv] Cons.prems show ?case by (simp add: Close_other)
qed simp

lemma closeAll_get_other:
  "sid \<notin> set sids \<Longrightarrow> map_of (m_terminals (closeAll sids reason j m)) sid = map_of (m_terminals m) sid"
  by (induction sids arbitrary: m) (auto simp: Close_get_other)

lemma closeAll_outcome:
  "mgr_inv m \<Longrightarrow> map_of (m_terminals (closeAll sids reason j m)) sid = Some a \<Longrightarrow>
     map_of (m_terminals m) sid = Some a \<and>
     (sid \<in> set sids \<longrightarrow> s_Status (sess (closeAll sids reason j m) a) \<in> {StatusClosing, StatusClosed, StatusError})"
proof (induction sids arbitrary: m)
  case (Cons c sids)
  let ?m = "Close c reason (j c) m"
  have inv: "mgr_inv ?m" using Cons.prems(1) Close_steps mgr_inv_wf(1) mgr_steps_inv by blast
  note IH = Cons.IH [OF inv] and wf = mgr_inv_wf(1) [OF Cons.prems(1)]
  have get: "map_of (m_terminals ?m) sid = Some a" using IH Cons.prems(2) by simp
  show ?case
  proof (cases "sid = c")
    case False
    with get IH Cons.prems show ?thesis by (simp add: Close_get_other)
  next
    case True
    from Close_outcome [OF wf get [unfolded True]]
    have m: "map_of (m_terminals m) sid = Some a" and st: "s_Status (sess ?m a) \<in> {StatusClosing, StatusClosed}"
      using True by auto
    have "s_Status (sess (closeAll sids reason j ?m) a) \<in> {StatusClosing, StatusClosed, StatusError}"
    proof (cases "sid \<in> set sids")
      case True
      with IH Cons.prems show ?thesis by simp
    next
      case False
      have "map_of (m_terminals ?m) x \<noteq> Some a" if "x \<in> set sids" for x
        using False that mgr_wf_lookup [OF mgr_inv_wf(1) [OF inv]] get by metis
      then have "obj (closeAll sids reason j ?m) a = obj ?m a"
        by (intro closeAll_other [OF inv]) blast
      with st show ?thesis by auto
    qed
    with m show ?thesis by simp
  qed
qed simp

lemma in_select_ids:
  "gm_wf (m_terminals m) \<Longrightarrow>
     sid \<in> set (select_ids P m) \<longleftrightarrow> (\<exists>a. map_of (m_terminals m) sid = Some a \<and> P (sess m a))"
  by (force simp: select_ids_def gm_get_Some_iff)

text \<open>An account's (or any predicate's) selection closes no object outside it.\<close>

lemma closeAll_select_other:
  assumes "mgr_inv m" "map_of (m_terminals m) sid = Some a" "\<not> P (sess m a)"
  shows "map_of (m_terminals (closeAll (select_ids P m) reason j m)) sid = Some a
    \<and> obj (closeAll (select_ids P m) reason j m) a = obj m a"
proof -
  note wf = mgr_inv_wf [OF assms(1)]
  have "sid \<notin> set (select_ids P m)" using assms wf(2) by (simp add: in_select_ids)
  moreover have "map_of (m_terminals m) c \<noteq> Some a" if "c \<in> set (select_ids P m)" for c
    using that assms(3) wf(2) by (auto simp: in_select_ids)
  ultimately show ?thesis
    using assms by (simp add: closeAll_get_other closeAll_other)
qed

text \<open>
  The idle sweep closes exactly the idle sessions. With a positive timeout, every session
  that is still open after a sweep had activity within the timeout; a session that was not open
  or not idle keeps its registry entry and is not modified at all; and a non-positive timeout
  disables the sweep.
\<close>

theorem SweepIdle_exact:
  assumes "mgr_reachable m"
  shows "(0 < m_idleTimeout m \<longrightarrow> map_of (m_terminals (SweepIdle now j m)) sid = Some a \<longrightarrow>
            s_Status (sess (SweepIdle now j m) a) = StatusOpen \<longrightarrow>
            now - s_LastActivityAt (sess (SweepIdle now j m) a) \<le> m_idleTimeout m)
    \<and> (map_of (m_terminals m) sid = Some a \<longrightarrow>
        s_Status (sess m a) \<noteq> StatusOpen \<or> now - s_LastActivityAt (sess m a) \<le> m_idleTimeout m \<longrightarrow>
        map_of (m_terminals (SweepIdle now j m)) sid = Some a \<and> obj (SweepIdle now j m) a = obj m a)
    \<and> (m_idleTimeout m \<le> 0 \<longrightarrow> SweepIdle now j m = m)"
proof -
  let ?P = "\<lambda>s. s_Status s = StatusOpen \<and> now - s_LastActivityAt s > m_idleTimeout m"
  have inv: "mgr_inv m" by (rule mgr_inv_reachable [OF assms])
  have keep: "map_of (m_terminals (SweepIdle now j m)) sid = Some a \<and> obj (SweepIdle now j m) a = obj m a"
    if "map_of (m_terminals m) sid = Some a" "\<not> ?P (sess m a)"
    using closeAll_select_other [OF inv that(1), of ?P] that by (auto simp: SweepIdle_def)
  have "\<not> ?P (sess (SweepIdle now j m) a)"
    if pos: "0 < m_idleTimeout m" and get: "map_of (m_terminals (SweepIdle now j m)) sid = Some a"
  proof
    assume p: "?P (sess (SweepIdle now j m) a)"
    have sw: "SweepIdle now j m = closeAll (select_ids ?P m) CloseIdleTimeout j m"
      using pos by (simp add: SweepIdle_def)
    note out = closeAll_outcome [OF inv get [unfolded sw]]
    show False
    proof (cases "sid \<in> set (select_ids ?P m)")
      case True
      with out p sw show False by auto
    next
      case False
      with out have "\<not> ?P (sess m a)" using mgr_inv_wf(2) [OF inv] by (simp add: in_select_ids)
      with keep out p show False by auto
    qed
  qed
  with keep show ?thesis by (auto simp: SweepIdle_def)
qed

theorem SweepIdle_exact_witness:
  "GetSession ''s1'' (SweepIdle (30 * 60000000000 + 1) (\<lambda>_. TimedOut) ex_open) = None
   \<and> obj (SweepIdle 7 (\<lambda>_. TimedOut) ex_open) 0 = obj ex_open 0"
proof -
  have "map_of (m_terminals ex_open) ''s1'' = Some 0" "s_LastActivityAt (sess ex_open 0) = 0"
    "m_idleTimeout ex_open = 30 * 60000000000"
    by (simp_all add: mgr_eval)
  then have "obj (SweepIdle 7 (\<lambda>_. TimedOut) ex_open) 0 = obj ex_open 0"
    using SweepIdle_exact [OF ex_open_reachable, of 7 "\<lambda>_. TimedOut" "''s1''" 0] by simp
  moreover have "GetSession ''s1'' (SweepIdle (30 * 60000000000 + 1) (\<lambda>_. TimedOut) ex_open) = None"
    by (simp add: SweepIdle_def select_ids_def GetSession_def mgr_eval)
  ultimately show ?thesis by simp
qed


section \<open>Deleting an account\<close>

lemma sess_clear_fold [simp]:
  fixes es :: "(string \<times> nat) list"
  shows "sess (fold (\<lambda>e. upd (snd e) (\<lambda>mg. mg\<lparr>mg_output := ob_Clear (mg_output mg)\<rparr>)) es m) b = sess m b"
  by (induction es arbitrary: m) (simp_all add: sess_upd_same)

lemma obj_clear_fold_other:
  fixes es :: "(string \<times> nat) list"
  shows "b \<notin> snd ` set es \<Longrightarrow>
    obj (fold (\<lambda>e. upd (snd e) (\<lambda>mg. mg\<lparr>mg_output := ob_Clear (mg_output mg)\<rparr>)) es m) b = obj m b"
  by (induction es arbitrary: m) auto

lemma RemoveForAccount_effect:
  assumes "gm_wf (m_terminals m)"
  shows "map_of (m_terminals (snd (RemoveForAccount acc m))) sid = Some a \<longleftrightarrow>
      map_of (m_terminals m) sid = Some a \<and> \<not> purgeable acc m (sid, a)"
    and "sess (snd (RemoveForAccount acc m)) b = sess m b"
    and "s_AccountID (sess m b) \<noteq> acc \<Longrightarrow> obj (snd (RemoveForAccount acc m)) b = obj m b"
  using assms
  by (auto simp: RemoveForAccount_def Let_def gm_get_filter purgeable_def
      intro!: obj_clear_fold_other split: option.splits if_splits)

text \<open>The teardown as account deletion runs it: close, then purge what is retained.\<close>

definition teardown_account :: "string \<Rightarrow> (string \<Rightarrow> join) \<Rightarrow> manager \<Rightarrow> manager" where
  "teardown_account acc j m =
     snd (RemoveForAccount acc (snd (CloseAllForAccount acc CloseAccountDeleted j m)))"

lemma account_steps:
  assumes "mgr_inv m" "map_of (m_terminals (closeAll sids reason j m)) sid = Some a"
  shows "s_AccountID (sess (closeAll sids reason j m) a) = s_AccountID (sess m a)"
proof -
  from closeAll_outcome [OF assms] have "map_of (m_terminals m) sid = Some a" by blast
  with mgr_wf_lookup [OF mgr_inv_wf(1) [OF assms(1)]] have "a < length (m_heap m)" by blast
  with extends_steps [OF closeAll_steps [OF assms(1)]] show ?thesis
    by (simp add: extends_def same_identity_def)
qed

text \<open>
  Deleting an account leaves nothing of it in the registry, except sessions whose connection
  is still being set up: these are marked closing (their own \<open>Create\<close> removes them), so no
  session of the account is open and no terminal output of a finished one stays readable. Sessions
  of other accounts are not touched.
\<close>

theorem account_teardown:
  assumes "mgr_reachable m"
  shows "(map_of (m_terminals (teardown_account acc j m)) sid = Some a \<longrightarrow>
            s_AccountID (sess (teardown_account acc j m) a) = acc \<longrightarrow>
            s_Status (sess (teardown_account acc j m) a) = StatusClosing)
    \<and> (map_of (m_terminals m) sid = Some a \<longrightarrow> s_AccountID (sess m a) \<noteq> acc \<longrightarrow>
        map_of (m_terminals (teardown_account acc j m)) sid = Some a
        \<and> obj (teardown_account acc j m) a = obj m a)"
proof -
  let ?P = "\<lambda>s. s_AccountID s = acc \<and> s_Status s \<noteq> StatusClosed"
  let ?c = "closeAll (select_ids ?P m) CloseAccountDeleted j m"
  have inv: "mgr_inv m" by (rule mgr_inv_reachable [OF assms])
  have invc: "mgr_inv ?c" using closeAll_steps [OF inv] inv mgr_steps_inv by blast
  have td: "teardown_account acc j m = snd (RemoveForAccount acc ?c)"
    by (simp add: teardown_account_def CloseAllForAccount_def Let_def)
  note eff = RemoveForAccount_effect [OF mgr_inv_wf(2) [OF invc]]
  have "s_Status (sess ?c a) \<in> {StatusClosing, StatusClosed, StatusError}"
    if "map_of (m_terminals ?c) sid = Some a" "s_AccountID (sess ?c a) = acc"
  proof (cases "sid \<in> set (select_ids ?P m)")
    case True
    then show ?thesis using closeAll_outcome [OF inv that(1)] by simp
  next
    case False
    have m: "map_of (m_terminals m) sid = Some a" using closeAll_outcome [OF inv that(1)] by simp
    have "s_AccountID (sess m a) = acc" using that account_steps [OF inv that(1)] by simp
    with False m have "s_Status (sess m a) = StatusClosed"
      using mgr_inv_wf(2) [OF inv] by (simp add: in_select_ids)
    with closeAll_select_other [OF inv m, of ?P] show ?thesis by simp
  qed
  moreover have "map_of (m_terminals ?c) sid = Some a \<and> obj ?c a = obj m a"
    if "map_of (m_terminals m) sid = Some a" "s_AccountID (sess m a) \<noteq> acc"
    using closeAll_select_other [OF inv that(1), of ?P] that(2) by simp
  ultimately show ?thesis
    unfolding td using eff by (auto simp: purgeable_def)
qed

theorem account_teardown_witness:
  "map_of (m_terminals ex_open) ''s1'' = Some 0
   \<and> obj (teardown_account ''acc2'' (\<lambda>_. TimedOut) ex_open) 0 = obj ex_open 0
   \<and> m_terminals (teardown_account ''acc1'' (\<lambda>_. TimedOut) ex_open) = []"
proof -
  have "map_of (m_terminals ex_open) ''s1'' = Some 0" "s_AccountID (sess ex_open 0) = ''acc1''"
    by (simp_all add: mgr_eval)
  then show ?thesis
    using account_teardown [OF ex_open_reachable, of "''acc2''" "\<lambda>_. TimedOut" "''s1''" 0]
    by (simp add: teardown_account_def CloseAllForAccount_def RemoveForAccount_def select_ids_def mgr_eval)
qed

section \<open>Connection set-up racing a close\<close>

text \<open>
  C13: a connected transport is never leaked. Whatever other goroutines do while the connection
  is being set up, a \<open>Create\<close> whose factory returned the transport \<open>t\<close> ends in one of two ways:
  it returns an open session that has adopted \<open>t\<close>, or (a close raced it) it closes \<open>t\<close> itself,
  reports an error, and the session is out of the registry in a terminal status.
\<close>

theorem Create_no_leak:
  assumes beg: "Create_begin sid now ep acc tr m = Inr (a, m0)"
    and env: "mgr_steps m0 (env m0)"
  shows "case Create sid now ep acc tr (Inr t) env m of
      (Inr s, m') \<Rightarrow> s_Status s = StatusOpen \<and> s = sess m' a \<and> mg_transport (obj m' a) = Some t
    | (Inl e, m') \<Rightarrow> TransportClose t \<in> set (m_trace m') \<and> map_of (m_terminals m') sid = None
        \<and> s_Status (sess m' a) \<in> {StatusClosed, StatusError}"
proof -
  have "a < length (m_heap m0)"
    using beg by (auto simp: Create_begin_def register_def Let_def split: if_splits)
  then have a: "a < length (m_heap (env m0))"
    using extends_steps [OF env] by (simp add: extends_def)
  let ?m1 = "snd (adopt a (Inr t) (env m0))"
  show ?thesis
  proof (cases "s_Status (sess (env m0) a) = StatusOpening")
    case True
    with a have m1: "s_Status (sess ?m1 a) = StatusOpening" "mg_transport (obj ?m1 a) = Some t"
      "fst (adopt a (Inr t) (env m0)) = False" "a < length (m_heap ?m1)"
      by (simp_all add: adopt_def Let_def obj_upd)
    then have "s_Status (sess (setStatus a StatusOpen NoReason ?m1) a) = StatusOpen"
      by (simp add: setStatus_def Let_def obj_transition)
    with m1 beg show ?thesis
      by (simp add: Create_def Create_finish_def case_prod_beta Let_def)
  next
    case False
    let ?m2 = "emit [TransportClose t] ?m1"
    have "fst (adopt a (Inr t) (env m0))" using False by (simp add: adopt_def Let_def)
    then have cr: "Create sid now ep acc tr (Inr t) env m =
        (Inl (ClosedDuringSetup (s_CloseReason (sess ?m1 a))),
         removeEntry sid (setStatus a StatusClosed NoReason ?m2))"
      using beg by (simp add: Create_def Create_finish_def case_prod_beta)
    have len: "a < length (m_heap ?m2)" using a by simp
    then have "extends ?m2 (removeEntry sid (setStatus a StatusClosed NoReason ?m2))"
      using extends_steps [OF finalize_steps] by blast
    then have "TransportClose t \<in> set (m_trace (removeEntry sid (setStatus a StatusClosed NoReason ?m2)))"
      by (auto simp: extends_def)
    moreover have "map_of (m_terminals (removeEntry sid (setStatus a StatusClosed NoReason ?m2))) sid = None"
      by (simp add: gomap_simps split: option.split)
    ultimately show ?thesis
      unfolding cr using finalized [OF len, of NoReason] by simp
  qed
qed

definition ex_setup :: manager where
  "ex_setup = (NewManager 0)\<lparr>m_heap := [\<lparr>mg_session = new_session ''s1'' 0 ex_ep ex_trigger,
     mg_transport = None, mg_output = ob_New 0, mg_pumpDone = False, mg_abandoned = False,
     mg_cancelSetup = True\<rparr>], m_terminals := [(''s1'', 0)]\<rparr>"

theorem Create_no_leak_witness:
  "case Create ''s1'' 0 ex_ep ''acc1'' ex_trigger (Inr 7) (Close ''s1'' CloseClientUI TimedOut) (NewManager 0) of
     (Inr s, m') \<Rightarrow> False
   | (Inl e, m') \<Rightarrow> e = ClosedDuringSetup CloseClientUI \<and> TransportClose 7 \<in> set (m_trace m')"
proof -
  have beg: "Create_begin ''s1'' 0 ex_ep ''acc1'' ex_trigger (NewManager 0) = Inr (0, ex_setup)"
    by (simp add: mgr_eval ex_setup_def)
  have "mgr_step (NewManager 0) ex_setup"
    by (rule mgr_step.register [of "''s1''" 0 ex_ep ex_trigger _ 0]) (simp add: mgr_eval ex_setup_def)
  then have "mgr_wf ex_setup"
    using mgr_inv_step mgr_inv_New mgr_inv_wf(1) by blast
  then have "mgr_steps ex_setup (Close ''s1'' CloseClientUI TimedOut ex_setup)" by (rule Close_steps)
  from Create_no_leak [where env = "Close ''s1'' CloseClientUI TimedOut" and t = 7, OF beg this]
  show ?thesis by (simp add: mgr_eval)
qed

end
