(* ===== verification/Signing.thy ===== *)
theory Signing
  imports Prelude "HOL-Library.Monad_Syntax"
begin

text \<open>
  \<open>src/internal/signing/signing.go\<close>: the signing vocabulary and the conversion of a browser's
  WebAuthn assertion into an SSH \<open>PROTOCOL.u2f\<close> signature.

  Two decoders are parameters: the ASN.1 reader of \<open>golang.org/x/crypto/cryptobyte\<close>
  (\<open>read_ecdsa\<close>: the two integers of a DER signature) and the \<open>origin\<close> member that
  \<open>encoding/json\<close> finds in \<open>clientDataJSON\<close> (\<open>json_origin\<close>, empty when there is none). What is
  proved holds for every choice of them.
\<close>

section \<open>Types\<close>

record sign_request =
  sr_CredentialID :: string
  sr_DataToSign :: "byte list"
  sr_RpID :: string
  sr_UserVerification :: string
  sr_PasskeyLabel :: string
  sr_ConnectionID :: string

record sign_response =
  rs_AuthenticatorData :: "byte list"
  rs_Signature :: "byte list"
  rs_ClientDataJSON :: "byte list"
  rs_ActionID :: string

record ssh_signature =
  sg_Format :: string
  sg_Blob :: "byte list"
  sg_Rest :: "byte list"

datatype sign_error = AuthDataTooShort | InvalidASN1

definition WebAuthnSKAlgo :: string where
  "WebAuthnSKAlgo = ''webauthn-sk-ecdsa-sha2-nistp256@openssh.com''"

section \<open>Operations\<close>

definition AuthDataFlagUV :: byte where
  "AuthDataFlagUV = 4"

definition IsUserVerified :: "byte list \<Rightarrow> bool" where
  "IsUserVerified authData \<longleftrightarrow> length authData \<ge> 33 \<and> and (authData ! 32) AuthDataFlagUV \<noteq> 0"

text \<open>\<open>binary.BigEndian.AppendUint32\<close> and \<open>Uint32\<close>; a length is converted to \<open>uint32\<close> first.\<close>

definition be32 :: "32 word \<Rightarrow> byte list" where
  "be32 w = [ucast (drop_bit 24 w), ucast (drop_bit 16 w), ucast (drop_bit 8 w), ucast w]"

definition read_be32 :: "byte list \<Rightarrow> 32 word" where
  "read_be32 bs =
     or (or (push_bit 24 (ucast (bs ! 0))) (push_bit 16 (ucast (bs ! 1))))
        (or (push_bit 8 (ucast (bs ! 2))) (ucast (bs ! 3)))"

definition appendSSHString :: "byte list \<Rightarrow> byte list \<Rightarrow> byte list" where
  "appendSSHString dst s = dst @ be32 (of_nat (length s)) @ s"

text \<open>\<open>big.Int.Bytes\<close>: the big-endian magnitude without leading zeros.\<close>

fun nat_bytes_acc :: "nat \<Rightarrow> byte list \<Rightarrow> byte list" where
  "nat_bytes_acc n acc = (if n = 0 then acc else nat_bytes_acc (n div 256) (of_nat (n mod 256) # acc))"

declare nat_bytes_acc.simps [simp del]

definition big_Bytes :: "int \<Rightarrow> byte list" where
  "big_Bytes v = nat_bytes_acc (nat \<bar>v\<bar>) []"

definition mpint :: "int \<Rightarrow> byte list" where
  "mpint v =
     (let b = big_Bytes v;
          b = (if b \<noteq> [] \<and> and (hd b) 0x80 \<noteq> 0 then 0 # b else b)
      in appendSSHString [] b)"

text \<open>Strings as their UTF-8 bytes; the model's strings hold one byte per character.\<close>

definition bytes_of :: "string \<Rightarrow> byte list" where
  "bytes_of s = map (\<lambda>c. of_char c) s"

definition parseECDSASignature ::
  "(byte list \<Rightarrow> (int \<times> int) option) \<Rightarrow> byte list \<Rightarrow> sign_error + int \<times> int"
where
  "parseECDSASignature read_ecdsa der =
     (case read_ecdsa der of None \<Rightarrow> Inl InvalidASN1 | Some rs \<Rightarrow> Inr rs)"

definition BuildSSHSignature ::
  "(byte list \<Rightarrow> (int \<times> int) option) \<Rightarrow> (byte list \<Rightarrow> string) \<Rightarrow> sign_response \<Rightarrow>
   sign_error + ssh_signature"
where
  "BuildSSHSignature read_ecdsa json_origin resp =
     (let ad = rs_AuthenticatorData resp in
      if length ad < 37 then Inl AuthDataTooShort
      else case parseECDSASignature read_ecdsa (rs_Signature resp) of
             Inl e \<Rightarrow> Inl e
           | Inr (r, s) \<Rightarrow>
               let flags = ad ! 32;
                   counter = read_be32 (take 4 (drop 33 ad));
                   origin = json_origin (rs_ClientDataJSON resp);
                   blob = mpint r @ mpint s;
                   rest = [flags] @ be32 counter;
                   rest = appendSSHString rest (bytes_of origin);
                   rest = appendSSHString rest (rs_ClientDataJSON resp);
                   rest = appendSSHString rest []
               in Inr \<lparr>sg_Format = WebAuthnSKAlgo, sg_Blob = blob, sg_Rest = rest\<rparr>)"

section \<open>Reading the wire format back\<close>

text \<open>
  The reader of the other side, as RFC 4251 defines the encodings: a string is a 32-bit length
  and that many bytes; an mpint is a string holding a two's complement number.
\<close>

definition get_string :: "byte list \<Rightarrow> (byte list \<times> byte list) option" where
  "get_string bs =
     (if length bs < 4 then None
      else let n = unat (read_be32 (take 4 bs)); rest = drop 4 bs
           in if length rest < n then None else Some (take n rest, drop n rest))"

fun be_value :: "byte list \<Rightarrow> nat" where
  "be_value [] = 0"
| "be_value (b # bs) = unat b * 256 ^ length bs + be_value bs"

definition mpint_value :: "byte list \<Rightarrow> int" where
  "mpint_value bs =
     (if bs \<noteq> [] \<and> and (hd bs) 0x80 \<noteq> 0 then int (be_value bs) - 256 ^ length bs else int (be_value bs))"

lemma be32_length [simp]: "length (be32 w) = 4"
  by (simp add: be32_def)

lemma read_be32_append: "length xs = 4 \<Longrightarrow> read_be32 (take 4 (xs @ ys)) = read_be32 xs"
  by simp

lemma read_be32_be32 [simp]: "read_be32 (be32 w) = w"
proof -
  have "bit (read_be32 (be32 w)) n = bit w n" if "n < 32" for n
  proof -
    consider "n < 8" | "8 \<le> n" "n < 16" | "16 \<le> n" "n < 24" | "24 \<le> n" using that by linarith
    then show ?thesis
      using that by cases (auto simp: read_be32_def be32_def bit_simps)
  qed
  then show ?thesis by (intro bit_word_eqI) simp
qed

lemma get_string_append:
  assumes "length s < 2 ^ 32"
  shows "get_string (be32 (of_nat (length s)) @ s @ rest) = Some (s, rest)"
  using assms by (simp add: get_string_def Let_def unat_of_nat take_bit_nat_eq_self_iff)


lemma be_value_append: "be_value (xs @ ys) = be_value xs * 256 ^ length ys + be_value ys"
  by (induction xs) (simp_all add: power_add algebra_simps)

lemma be_value_nat_bytes: "be_value (nat_bytes_acc n acc) = n * 256 ^ length acc + be_value acc"
proof (induction n arbitrary: acc rule: less_induct)
  case (less n)
  show ?case
  proof (cases "n = 0")
    case True
    then show ?thesis by (simp add: nat_bytes_acc.simps)
  next
    case False
    have "unat (of_nat (n mod 256) :: byte) = n mod 256"
      by (simp add: unat_of_nat take_bit_nat_eq_self_iff)
    moreover have "n div 256 * 256 ^ Suc k + n mod 256 * 256 ^ k = n * 256 ^ k" for k
    proof -
      have "n * 256 ^ k = (n div 256 * 256 + n mod 256) * 256 ^ k"
        by (simp only: div_mult_mod_eq)
      then show ?thesis by (simp only: add_mult_distrib power_Suc mult.assoc)
    qed
    ultimately show ?thesis
      using False less.IH [of "n div 256" "of_nat (n mod 256) # acc"]
      by (subst nat_bytes_acc.simps) (simp flip: add.assoc)
  qed
qed

lemma be_value_big_Bytes: "int (be_value (big_Bytes v)) = \<bar>v\<bar>"
  by (simp add: big_Bytes_def be_value_nat_bytes)

lemma get_mpint:
  assumes "length (big_Bytes v) < 2 ^ 32 - 1"
  shows "\<exists>b. get_string (mpint v @ rest) = Some (b, rest) \<and> mpint_value b = \<bar>v\<bar>"
proof -
  let ?b = "big_Bytes v"
  let ?c = "if ?b \<noteq> [] \<and> and (hd ?b) 0x80 \<noteq> 0 then 0 # ?b else ?b"
  have len: "length ?c < 2 ^ 32" using assms by simp
  have "mpint_value ?c = \<bar>v\<bar>"
    using be_value_big_Bytes [of v] by (auto simp: mpint_value_def)
  moreover have "mpint v @ rest = be32 (of_nat (length ?c)) @ ?c @ rest"
    by (simp add: mpint_def appendSSHString_def Let_def)
  ultimately show ?thesis using get_string_append [OF len, of rest] by metis
qed

text \<open>The verifier's view of a signature: numbers, flags, counter, origin, client data, extensions.\<close>

definition decode_sk ::
  "ssh_signature \<Rightarrow> (int \<times> int \<times> byte \<times> 32 word \<times> byte list \<times> byte list \<times> byte list) option"
where
  "decode_sk sg =
     do { (r, b1) \<leftarrow> get_string (sg_Blob sg);
          (s, b2) \<leftarrow> get_string b1;
          (origin, r1) \<leftarrow> get_string (drop 5 (sg_Rest sg));
          (cdj, r2) \<leftarrow> get_string r1;
          (ext, r3) \<leftarrow> get_string r2;
          if b2 \<noteq> [] \<or> r3 \<noteq> [] then None
          else Some (mpint_value r, mpint_value s, hd (sg_Rest sg),
                     read_be32 (take 4 (tl (sg_Rest sg))), origin, cdj, ext) }"

lemma decode_skI:
  assumes "get_string (sg_Blob sg) = Some (x, b1)" "get_string b1 = Some (y, [])"
    and "sg_Rest sg = f # be32 c @ rest" "get_string rest = Some (origin, r1)"
    and "get_string r1 = Some (cdj, r2)" "get_string r2 = Some (ext, [])"
  shows "decode_sk sg = Some (mpint_value x, mpint_value y, f, c, origin, cdj, ext)"
  using assms by (simp add: decode_sk_def)

text \<open>
  C39: the SSH signature built from a browser assertion carries the assertion. A verifier that
  parses the blob and the trailing fields reads back the two ECDSA numbers as non-negative
  mpints, the authenticator's flags and counter, the origin, the client data verbatim and empty
  extensions, with no byte left over.
\<close>

theorem BuildSSHSignature_decodes:
  assumes "37 \<le> length (rs_AuthenticatorData resp)"
    and "read_ecdsa (rs_Signature resp) = Some (r, s)"
    and "length (big_Bytes r) < 2 ^ 32 - 1" and "length (big_Bytes s) < 2 ^ 32 - 1"
    and "length (json_origin (rs_ClientDataJSON resp)) < 2 ^ 32"
    and "length (rs_ClientDataJSON resp) < 2 ^ 32"
  shows "\<exists>sg. BuildSSHSignature read_ecdsa json_origin resp = Inr sg \<and> sg_Format sg = WebAuthnSKAlgo
    \<and> decode_sk sg = Some (\<bar>r\<bar>, \<bar>s\<bar>, rs_AuthenticatorData resp ! 32,
         read_be32 (take 4 (drop 33 (rs_AuthenticatorData resp))),
         bytes_of (json_origin (rs_ClientDataJSON resp)), rs_ClientDataJSON resp, [])"
proof -
  let ?ad = "rs_AuthenticatorData resp"
  let ?origin = "bytes_of (json_origin (rs_ClientDataJSON resp))"
  let ?cdj = "rs_ClientDataJSON resp"
  let ?counter = "read_be32 (take 4 (drop 33 ?ad))"
  let ?sg = "\<lparr>sg_Format = WebAuthnSKAlgo, sg_Blob = mpint r @ mpint s,
    sg_Rest = (?ad ! 32) # be32 ?counter @ be32 (of_nat (length ?origin)) @ ?origin @
       be32 (of_nat (length ?cdj)) @ ?cdj @ be32 (of_nat (length ([] :: byte list))) @ [] @ []\<rparr>"
  have b: "BuildSSHSignature read_ecdsa json_origin resp = Inr ?sg"
    using assms(1,2)
    by (simp add: BuildSSHSignature_def parseECDSASignature_def appendSSHString_def Let_def)
  have lens: "length ?origin < 2 ^ 32" "length ([] :: byte list) < 2 ^ 32"
    using assms(5) by (simp_all add: bytes_of_def)
  obtain br bs where r: "get_string (mpint r @ mpint s) = Some (br, mpint s)" "mpint_value br = \<bar>r\<bar>"
    and s: "get_string (mpint s) = Some (bs, [])" "mpint_value bs = \<bar>s\<bar>"
    using get_mpint [OF assms(3), of "mpint s"] get_mpint [OF assms(4), of "[]"] by auto
  have "decode_sk ?sg = Some (mpint_value br, mpint_value bs, ?ad ! 32, ?counter, ?origin, ?cdj, [])"
  proof (rule decode_skI [OF _ s(1) _ get_string_append [OF lens(1)] get_string_append [OF assms(6)]
      get_string_append [OF lens(2)]])
  qed (use r in simp_all)
  with b r(2) s(2) show ?thesis by auto
qed


text \<open>A concrete assertion: user verified, counter 7, origin and client data present.\<close>

definition ex_resp :: sign_response where
  "ex_resp = \<lparr>rs_AuthenticatorData = replicate 32 0 @ [5, 0, 0, 0, 7], rs_Signature = [48],
     rs_ClientDataJSON = [123, 125], rs_ActionID = []\<rparr>"

theorem BuildSSHSignature_decodes_witness:
  "\<exists>sg. BuildSSHSignature (\<lambda>_. Some (200, 3)) (\<lambda>_. ''https://h'') ex_resp = Inr sg
     \<and> decode_sk sg = Some (200, 3, 5, 7, bytes_of ''https://h'', [123, 125], [])"
proof -
  have "read_be32 (take 4 (drop 33 (rs_AuthenticatorData ex_resp))) = 7"
    "rs_AuthenticatorData ex_resp ! 32 = 5"
    by (simp_all add: ex_resp_def read_be32_def nth_append)
  moreover have "big_Bytes 200 = [200]" "big_Bytes 3 = [3]"
    by (simp_all add: big_Bytes_def nat_bytes_acc.simps)
  ultimately show ?thesis
    using BuildSSHSignature_decodes [of ex_resp "\<lambda>_. Some (200, 3)" 200 3 "\<lambda>_. ''https://h''"]
    by (auto simp: ex_resp_def)
qed

end
