(* ===== verification/Approval_Store.thy ===== *)
theory Approval_Store
  imports Signing
begin

text \<open>
  \<open>src/internal/approval/store.go\<close>: the registry of pending human approvals.

  An action's closures \<open>resolveSign\<close>, \<open>resolveKey\<close> and \<open>reject\<close> are represented by whether they
  are set; a call of one is an effect of the trace that names the action. Every operation reads
  the clock under the lock (\<open>now\<close>) and once more for the event it emits (\<open>at\<close>). All changes of
  the map and of an action's status happen in one critical section per operation, so a sequence
  of operations is a linearisation of concurrent callers.
\<close>

section \<open>Types\<close>

datatype action_type = TypeWebAuthnSign | TypeKeyApprove

datatype act_status = ActPending | ActCompleted | ActExpired | ActDenied

record host_key_info =
  hk_Type :: string
  hk_Fingerprint :: string
  hk_Status :: string

record sign_context =
  cx_Source :: string
  cx_EndpointLabel :: string
  cx_EndpointAddress :: string
  cx_SessionID :: string
  cx_SourceIP :: string
  cx_ClientHostname :: string
  cx_ClientOS :: string
  cx_ClientVersion :: string
  cx_HostKey :: "host_key_info option"
  cx_TriggerKind :: string
  cx_MCPReason :: string
  cx_MCPClientName :: string
  cx_MCPClientVer :: string

record create_params =
  cp_AccountID :: string
  cp_Type :: action_type
  cp_Context :: sign_context
  cp_RedirectTo :: string
  cp_ConnectionID :: string
  cp_CredentialID :: string
  cp_Challenge :: string
  cp_RpID :: string
  cp_PasskeyLabel :: string
  cp_UserVerification :: string
  cp_KeyLabel :: string
  cp_KeyFingerprint :: string
  cp_ResolveSign :: bool
  cp_ResolveKey :: bool
  cp_Reject :: bool

record action =
  a_ID :: string
  a_AccountID :: string
  a_Type :: action_type
  a_Status :: act_status
  a_CreatedAt :: time
  a_ExpiresAt :: time
  a_Context :: sign_context
  a_RedirectTo :: string
  a_ConnectionID :: string
  a_CredentialID :: string
  a_Challenge :: string
  a_RpID :: string
  a_PasskeyLabel :: string
  a_UserVerification :: string
  a_KeyLabel :: string
  a_KeyFingerprint :: string
  a_resolveSign :: bool
  a_resolveKey :: bool
  a_reject :: bool

datatype act_outcome = OutcomeApproved | OutcomeDenied | OutcomeExpired | OutcomeCancelled

datatype approval_error = ErrDenied | ErrExpired | ErrCancelled

record resolved_event =
  re_Action :: action
  re_Outcome :: act_outcome
  re_ResolvedAt :: time
  re_CancelReason :: string

datatype act_effect =
    CreatedHook nat action
  | ResolvedHook nat resolved_event
  | CallResolveSign string sign_response
  | CallResolveKey string
  | CallReject string approval_error

record approval_store =
  as_actions :: "(string, action) gomap"
  as_createdSubs :: nat
  as_resolvedSubs :: nat
  as_trace :: "act_effect list"

record claim_result =
  cr_Won :: bool
  cr_Found :: bool
  cr_Status :: "act_status option"

definition ActionTTL :: duration where
  "ActionTTL = 60 * Second"

definition cleanupGrace :: duration where
  "cleanupGrace = 120 * Second"

section \<open>The wire shape of a context\<close>

definition host_key_json :: "host_key_info \<Rightarrow> json" where
  "host_key_json hk = JObj [(''type'', JStr (hk_Type hk)), (''fingerprint'', JStr (hk_Fingerprint hk)),
     (''status'', JStr (hk_Status hk))]"

definition Context_MarshalJSON :: "sign_context \<Rightarrow> json" where
  "Context_MarshalJSON c =
     (let m = [(''source'', JStr (cx_Source c))];
          m = put_nonempty ''endpointLabel'' (cx_EndpointLabel c) m;
          m = put_nonempty ''endpointAddress'' (cx_EndpointAddress c) m;
          m = put_nonempty ''sessionId'' (cx_SessionID c) m;
          m = (case cx_HostKey c of None \<Rightarrow> m | Some hk \<Rightarrow> AList.update ''hostKey'' (host_key_json hk) m)
      in if cx_Source c = ''endpoint-auth''
         then let tr = [(''kind'', JStr (cx_TriggerKind c))];
                  tr = put_nonempty ''sourceIp'' (cx_SourceIP c) tr;
                  tr = (if cx_TriggerKind c = ''mcp''
                        then put_nonempty ''mcpClientVersion'' (cx_MCPClientVer c)
                               (put_nonempty ''mcpClientName'' (cx_MCPClientName c)
                                 (put_nonempty ''reason'' (cx_MCPReason c) tr))
                        else tr)
              in JObj (AList.update ''trigger'' (JObj tr) m)
         else JObj (put_nonempty ''clientVersion'' (cx_ClientVersion c)
                     (put_nonempty ''clientOs'' (cx_ClientOS c)
                       (put_nonempty ''clientHostname'' (cx_ClientHostname c)
                         (put_nonempty ''sourceIp'' (cx_SourceIP c) m)))))"

section \<open>Operations\<close>

definition NewStore :: approval_store where
  "NewStore = \<lparr>as_actions = [], as_createdSubs = 0, as_resolvedSubs = 0, as_trace = []\<rparr>"

definition as_emit :: "act_effect list \<Rightarrow> approval_store \<Rightarrow> approval_store" where
  "as_emit es s = s\<lparr>as_trace := as_trace s @ es\<rparr>"

definition OnCreated :: "approval_store \<Rightarrow> approval_store" where
  "OnCreated s = s\<lparr>as_createdSubs := Suc (as_createdSubs s)\<rparr>"

definition OnResolved :: "approval_store \<Rightarrow> approval_store" where
  "OnResolved s = s\<lparr>as_resolvedSubs := Suc (as_resolvedSubs s)\<rparr>"

definition new_action :: "string \<Rightarrow> time \<Rightarrow> create_params \<Rightarrow> action" where
  "new_action aid now p =
     \<lparr>a_ID = aid, a_AccountID = cp_AccountID p, a_Type = cp_Type p, a_Status = ActPending,
      a_CreatedAt = now, a_ExpiresAt = now + ActionTTL, a_Context = cp_Context p,
      a_RedirectTo = cp_RedirectTo p, a_ConnectionID = cp_ConnectionID p,
      a_CredentialID = cp_CredentialID p, a_Challenge = cp_Challenge p, a_RpID = cp_RpID p,
      a_PasskeyLabel = cp_PasskeyLabel p, a_UserVerification = cp_UserVerification p,
      a_KeyLabel = cp_KeyLabel p, a_KeyFingerprint = cp_KeyFingerprint p,
      a_resolveSign = cp_ResolveSign p, a_resolveKey = cp_ResolveKey p, a_reject = cp_Reject p\<rparr>"

definition as_Create :: "string \<Rightarrow> time \<Rightarrow> create_params \<Rightarrow> approval_store \<Rightarrow> action \<times> approval_store" where
  "as_Create newID now p s =
     (let a = new_action newID now p
      in (a, as_emit (map (\<lambda>i. CreatedHook i a) [0..<as_createdSubs s])
               (s\<lparr>as_actions := AList.update newID a (as_actions s)\<rparr>)))"

definition as_Get :: "string \<Rightarrow> approval_store \<Rightarrow> action option" where
  "as_Get aid s = map_of (as_actions s) aid"

definition emitResolved :: "time \<Rightarrow> action \<Rightarrow> act_outcome \<Rightarrow> string \<Rightarrow> approval_store \<Rightarrow> approval_store" where
  "emitResolved at a outcome cancelReason s =
     (let ev = \<lparr>re_Action = a, re_Outcome = outcome, re_ResolvedAt = at, re_CancelReason = cancelReason\<rparr>
      in as_emit (map (\<lambda>i. ResolvedHook i ev) [0..<as_resolvedSubs s]) s)"

definition as_reject :: "action \<Rightarrow> approval_error \<Rightarrow> approval_store \<Rightarrow> approval_store" where
  "as_reject a e s = (if a_reject a then as_emit [CallReject (a_ID a) e] s else s)"

text \<open>
  The claim. \<open>typ = None\<close> is the empty action type of the source. The action is returned with
  the status it was moved to.
\<close>

definition takePending ::
  "time \<Rightarrow> time \<Rightarrow> string \<Rightarrow> action_type option \<Rightarrow> act_status \<Rightarrow> approval_store \<Rightarrow>
   action option \<times> claim_result \<times> approval_store"
where
  "takePending now at aid typ to s =
     (case map_of (as_actions s) aid of
        None \<Rightarrow> (None, \<lparr>cr_Won = False, cr_Found = False, cr_Status = None\<rparr>, s)
      | Some a \<Rightarrow>
          if typ \<noteq> None \<and> typ \<noteq> Some (a_Type a)
          then (None, \<lparr>cr_Won = False, cr_Found = False, cr_Status = None\<rparr>, s)
          else if a_Status a = ActPending \<and> \<not> a_ExpiresAt a > now
          then let a = a\<lparr>a_Status := ActExpired\<rparr>;
                   s = s\<lparr>as_actions := AList.update aid a (as_actions s)\<rparr>
               in (None, \<lparr>cr_Won = False, cr_Found = True, cr_Status = Some ActExpired\<rparr>,
                   emitResolved at a OutcomeExpired [] (as_reject a ErrExpired s))
          else if a_Status a \<noteq> ActPending
          then (None, \<lparr>cr_Won = False, cr_Found = True, cr_Status = Some (a_Status a)\<rparr>, s)
          else let a = a\<lparr>a_Status := to\<rparr>
               in (Some a, \<lparr>cr_Won = True, cr_Found = True, cr_Status = Some to\<rparr>,
                   s\<lparr>as_actions := AList.update aid a (as_actions s)\<rparr>))"

definition as_ResolveSign ::
  "time \<Rightarrow> time \<Rightarrow> string \<Rightarrow> sign_response \<Rightarrow> approval_store \<Rightarrow> claim_result \<times> approval_store"
where
  "as_ResolveSign now at aid resp s =
     (case takePending now at aid (Some TypeWebAuthnSign) ActCompleted s of
        (None, res, s) \<Rightarrow> (res, s)
      | (Some a, res, s) \<Rightarrow>
          let resp = resp\<lparr>rs_ActionID := a_ID a\<rparr>;
              s = (if a_resolveSign a then as_emit [CallResolveSign (a_ID a) resp] s else s)
          in (res, emitResolved at a OutcomeApproved [] s))"

definition as_ResolveKey :: "time \<Rightarrow> time \<Rightarrow> string \<Rightarrow> approval_store \<Rightarrow> claim_result \<times> approval_store" where
  "as_ResolveKey now at aid s =
     (case takePending now at aid (Some TypeKeyApprove) ActCompleted s of
        (None, res, s) \<Rightarrow> (res, s)
      | (Some a, res, s) \<Rightarrow>
          let s = (if a_resolveKey a then as_emit [CallResolveKey (a_ID a)] s else s)
          in (res, emitResolved at a OutcomeApproved [] s))"

definition as_Deny :: "time \<Rightarrow> time \<Rightarrow> string \<Rightarrow> approval_store \<Rightarrow> claim_result \<times> approval_store" where
  "as_Deny now at aid s =
     (case takePending now at aid None ActDenied s of
        (None, res, s) \<Rightarrow> (res, s)
      | (Some a, res, s) \<Rightarrow> (res, emitResolved at a OutcomeDenied [] (as_reject a ErrDenied s)))"

definition cancellable :: "string \<Rightarrow> action \<Rightarrow> bool" where
  "cancellable connectionID a \<longleftrightarrow> a_Status a = ActPending \<and> a_ConnectionID a = connectionID"

definition as_CancelForConnection ::
  "time \<Rightarrow> string \<Rightarrow> string \<Rightarrow> approval_store \<Rightarrow> action list \<times> approval_store"
where
  "as_CancelForConnection at connectionID reason s =
     (let deny = (\<lambda>a. a\<lparr>a_Status := ActDenied\<rparr>);
          cancelled = map (deny \<circ> snd) (filter (cancellable connectionID \<circ> snd) (as_actions s));
          s = s\<lparr>as_actions := map (\<lambda>(k, a). (k, if cancellable connectionID a then deny a else a))
                                  (as_actions s)\<rparr>
      in (cancelled,
          fold (\<lambda>a s. emitResolved at a OutcomeCancelled reason (as_reject a ErrCancelled s)) cancelled s))"

definition overdue :: "time \<Rightarrow> action \<Rightarrow> bool" where
  "overdue now a \<longleftrightarrow> a_Status a = ActPending \<and> \<not> a_ExpiresAt a > now"

text \<open>One iteration of the sweep's loop: expire, then drop what is past the grace window.\<close>

definition sweep_action :: "time \<Rightarrow> action \<Rightarrow> action" where
  "sweep_action now a = (if overdue now a then a\<lparr>a_Status := ActExpired\<rparr> else a)"

definition sweep_drops :: "time \<Rightarrow> action \<Rightarrow> bool" where
  "sweep_drops now a \<longleftrightarrow> a_Status a \<noteq> ActPending \<and> now - a_ExpiresAt a > cleanupGrace"

definition as_Sweep :: "time \<Rightarrow> time \<Rightarrow> approval_store \<Rightarrow> approval_store" where
  "as_Sweep now at s =
     (let expired = map (sweep_action now \<circ> snd) (filter (overdue now \<circ> snd) (as_actions s));
          s = s\<lparr>as_actions := filter (\<lambda>(k, a). \<not> sweep_drops now a)
                                (map (\<lambda>(k, a). (k, sweep_action now a)) (as_actions s))\<rparr>
      in fold (\<lambda>a s. emitResolved at a OutcomeExpired [] (as_reject a ErrExpired s)) expired s)"

end
