(* ===== verification/Single_Claims.thy ===== *)
theory Single_Claims
  imports Prelude
begin

text \<open>
  The contract of a store whose entries can be claimed once: pending approvals and passkey
  invitations are instances. The client's guarantee, that of all concurrent claims on an entry at
  most one succeeds, is proved here for any such store.
\<close>

section \<open>The claim contract\<close>

text \<open>Successful claims on \<open>k\<close> along a sequence of operations.\<close>

fun win_count :: "('op \<Rightarrow> 's \<Rightarrow> 's) \<Rightarrow> ('op \<Rightarrow> 's \<Rightarrow> 'k \<Rightarrow> bool) \<Rightarrow> 'k \<Rightarrow> 'op list \<Rightarrow> 's \<Rightarrow> nat" where
  "win_count step wins k [] s = 0"
| "win_count step wins k (op # ops) s =
     (if wins op s k then 1 else 0) + win_count step wins k ops (step op s)"

text \<open>
  What the callers of a store of single-use entries rely on: only an open entry can be won, winning closes it, and a closed
  entry is reopened by nothing but its creation.
\<close>

locale claim_registry =
  fixes open_for :: "'s \<Rightarrow> 'k \<Rightarrow> bool"
    and step :: "'op \<Rightarrow> 's \<Rightarrow> 's"
    and wins :: "'op \<Rightarrow> 's \<Rightarrow> 'k \<Rightarrow> bool"
    and creates :: "'op \<Rightarrow> 'k \<Rightarrow> bool"
  assumes wins_open: "wins op s k \<Longrightarrow> open_for s k"
    and wins_closes: "wins op s k \<Longrightarrow> \<not> open_for (step op s) k"
    and stays_closed: "\<not> open_for s k \<Longrightarrow> \<not> creates op k \<Longrightarrow> \<not> open_for (step op s) k"
begin

lemma no_win_closed:
  "\<not> open_for s k \<Longrightarrow> \<forall>op \<in> set ops. \<not> creates op k \<Longrightarrow> win_count step wins k ops s = 0"
proof (induction ops arbitrary: s)
  case (Cons op ops)
  then show ?case using wins_open stays_closed by auto
qed simp

lemma single_winner: "\<forall>op \<in> set ops. \<not> creates op k \<Longrightarrow> win_count step wins k ops s \<le> 1"
proof (induction ops arbitrary: s)
  case (Cons op ops)
  have "win_count step wins k ops (step op s) = 0" if "wins op s k"
    using that Cons.prems no_win_closed wins_closes by simp
  with Cons show ?case by auto
qed simp

end

end
