(* ===== verification/Approval_Properties.thy ===== *)
theory Approval_Properties
  imports Approval_Store Single_Claims
begin

text \<open>
  What the approval registry guarantees: a request has one winner, its waiter is answered exactly
  once, and no approval lands after the deadline, for every sequence of operations.
\<close>

section \<open>Histories\<close>

datatype act_op =
    OpCreate string time create_params
  | OpSign time time string sign_response
  | OpKey time time string
  | OpDeny time time string
  | OpCancel time string string
  | OpSweep time time
  | OpOnCreated
  | OpOnResolved

fun act_step :: "act_op \<Rightarrow> approval_store \<Rightarrow> approval_store" where
  "act_step (OpCreate aid now p) s = snd (as_Create aid now p s)"
| "act_step (OpSign now at aid resp) s = snd (as_ResolveSign now at aid resp s)"
| "act_step (OpKey now at aid) s = snd (as_ResolveKey now at aid s)"
| "act_step (OpDeny now at aid) s = snd (as_Deny now at aid s)"
| "act_step (OpCancel at conn reason) s = snd (as_CancelForConnection at conn reason s)"
| "act_step (OpSweep now at) s = as_Sweep now at s"
| "act_step OpOnCreated s = OnCreated s"
| "act_step OpOnResolved s = OnResolved s"

fun act_won :: "act_op \<Rightarrow> approval_store \<Rightarrow> string \<Rightarrow> bool" where
  "act_won (OpSign now at aid resp) s k = (aid = k \<and> cr_Won (fst (as_ResolveSign now at aid resp s)))"
| "act_won (OpKey now at aid) s k = (aid = k \<and> cr_Won (fst (as_ResolveKey now at aid s)))"
| "act_won (OpDeny now at aid) s k = (aid = k \<and> cr_Won (fst (as_Deny now at aid s)))"
| "act_won _ s k = False"

fun act_creates :: "act_op \<Rightarrow> string \<Rightarrow> bool" where
  "act_creates (OpCreate aid now p) k = (aid = k)"
| "act_creates _ k = False"

definition as_pending :: "approval_store \<Rightarrow> string \<Rightarrow> bool" where
  "as_pending s k \<longleftrightarrow> (case as_Get k s of None \<Rightarrow> False | Some a \<Rightarrow> a_Status a = ActPending)"

fun created_ids :: "act_op list \<Rightarrow> string list" where
  "created_ids [] = []"
| "created_ids (OpCreate aid now p # ops) = aid # created_ids ops"
| "created_ids (_ # ops) = created_ids ops"

abbreviation act_run :: "act_op list \<Rightarrow> approval_store \<Rightarrow> approval_store" where
  "act_run ops s \<equiv> fold act_step ops s"

section \<open>Frames\<close>

lemma as_emit_fields [simp]:
  "as_actions (as_emit es s) = as_actions s" "as_trace (as_emit es s) = as_trace s @ es"
  "as_resolvedSubs (as_emit es s) = as_resolvedSubs s" "as_createdSubs (as_emit es s) = as_createdSubs s"
  by (simp_all add: as_emit_def)

lemma emitResolved_actions [simp]: "as_actions (emitResolved at a o' r s) = as_actions s"
  by (simp add: emitResolved_def Let_def)

lemma as_reject_actions [simp]: "as_actions (as_reject a e s) = as_actions s"
  by (simp add: as_reject_def)

lemma fold_emit_actions [simp]:
  "as_actions (fold (\<lambda>a s. emitResolved at a o' r (as_reject a e s)) as s) = as_actions s"
  by (induction as arbitrary: s) simp_all

text \<open>Where a successful claim leaves the store.\<close>

lemma takePending_cases:
  obtains (absent) "takePending now at aid typ to s = (None, \<lparr>cr_Won = False, cr_Found = False, cr_Status = None\<rparr>, s)"
      "map_of (as_actions s) aid = None \<or> (\<exists>a. map_of (as_actions s) aid = Some a \<and> typ \<noteq> None \<and> typ \<noteq> Some (a_Type a))"
  | (late) a where "map_of (as_actions s) aid = Some a" "overdue now a"
      "takePending now at aid typ to s =
        (None, \<lparr>cr_Won = False, cr_Found = True, cr_Status = Some ActExpired\<rparr>,
         emitResolved at (a\<lparr>a_Status := ActExpired\<rparr>) OutcomeExpired []
           (as_reject (a\<lparr>a_Status := ActExpired\<rparr>) ErrExpired
             (s\<lparr>as_actions := AList.update aid (a\<lparr>a_Status := ActExpired\<rparr>) (as_actions s)\<rparr>)))"
  | (done_before) a where "map_of (as_actions s) aid = Some a" "a_Status a \<noteq> ActPending"
      "takePending now at aid typ to s = (None, \<lparr>cr_Won = False, cr_Found = True, cr_Status = Some (a_Status a)\<rparr>, s)"
  | (won) a where "map_of (as_actions s) aid = Some a" "a_Status a = ActPending" "now < a_ExpiresAt a"
      "typ = None \<or> typ = Some (a_Type a)"
      "takePending now at aid typ to s =
        (Some (a\<lparr>a_Status := to\<rparr>), \<lparr>cr_Won = True, cr_Found = True, cr_Status = Some to\<rparr>,
         s\<lparr>as_actions := AList.update aid (a\<lparr>a_Status := to\<rparr>) (as_actions s)\<rparr>)"
proof (cases "map_of (as_actions s) aid")
  case None
  with absent show ?thesis by (simp add: takePending_def)
next
  case (Some a)
  show ?thesis
  proof (cases "typ \<noteq> None \<and> typ \<noteq> Some (a_Type a)")
    case True
    with Some absent show ?thesis by (simp add: takePending_def)
  next
    case tok: False
    consider "overdue now a" | "a_Status a \<noteq> ActPending" | "a_Status a = ActPending" "now < a_ExpiresAt a"
      by (auto simp: overdue_def)
    then show ?thesis
    proof cases
      case 1
      with Some tok late show ?thesis by (auto simp: takePending_def overdue_def Let_def)
    next
      case 2
      with Some tok done_before show ?thesis by (auto simp: takePending_def)
    next
      case 3
      with Some tok won show ?thesis by (auto simp: takePending_def Let_def)
    qed
  qed
qed


section \<open>Answers to the waiter\<close>

text \<open>The action whose waiter an effect answers, and how often a waiter was answered.\<close>

fun settles :: "act_effect \<Rightarrow> string option" where
  "settles (CallResolveSign aid r) = Some aid"
| "settles (CallResolveKey aid) = Some aid"
| "settles (CallReject aid e) = Some aid"
| "settles _ = None"

definition settle_count :: "string \<Rightarrow> approval_store \<Rightarrow> nat" where
  "settle_count k s = length (filter (\<lambda>e. settles e = Some k) (as_trace s))"

definition act_wf :: "approval_store \<Rightarrow> bool" where
  "act_wf s \<longleftrightarrow> gm_wf (as_actions s) \<and> (\<forall>e \<in> set (as_actions s). a_ID (snd e) = fst e)"

text \<open>The closures a waiter installs: a rejection and the resolution of its own kind.\<close>

definition act_ok :: "action \<Rightarrow> bool" where
  "act_ok a \<longleftrightarrow> a_reject a \<and> (case a_Type a of TypeWebAuthnSign \<Rightarrow> a_resolveSign a | TypeKeyApprove \<Rightarrow> a_resolveKey a)"

definition settled_step :: "string \<Rightarrow> approval_store \<Rightarrow> approval_store \<Rightarrow> bool" where
  "settled_step k s s' \<longleftrightarrow>
     (if as_pending s' k
      then as_pending s k \<and> as_Get k s' = as_Get k s \<and> settle_count k s' = settle_count k s
      else if as_pending s k
      then settle_count k s' \<le> Suc (settle_count k s)
           \<and> (\<forall>a. as_Get k s = Some a \<longrightarrow> act_ok a \<longrightarrow> settle_count k s' = Suc (settle_count k s))
      else settle_count k s' = settle_count k s)"

lemma act_wf_ID: "act_wf s \<Longrightarrow> map_of (as_actions s) k = Some a \<Longrightarrow> a_ID a = k"
  by (auto simp: act_wf_def dest: map_of_SomeD)

lemma settle_emit [simp]:
  "settle_count k (as_emit es s) = settle_count k s + length (filter (\<lambda>e. settles e = Some k) es)"
  by (simp add: settle_count_def)

lemma settle_hooks [simp]:
  "filter (\<lambda>e. settles e = Some k) (map (\<lambda>i. ResolvedHook i ev) is) = []"
  "filter (\<lambda>e. settles e = Some k) (map (\<lambda>i. CreatedHook i a) is) = []"
  by (induction "is") simp_all

lemma settle_emitResolved [simp]: "settle_count k (emitResolved at a o' r s) = settle_count k s"
  by (simp add: emitResolved_def Let_def)

lemma settle_reject [simp]:
  "settle_count k (as_reject a e s) = settle_count k s + (if a_reject a \<and> a_ID a = k then 1 else 0)"
  by (simp add: as_reject_def)

lemma settle_fold [simp]:
  "settle_count k (fold (\<lambda>a s. emitResolved at a o' r (as_reject a e s)) as s) =
     settle_count k s + length (filter (\<lambda>a. a_reject a \<and> a_ID a = k) as)"
  by (induction as arbitrary: s) simp_all

lemma settle_actions [simp]: "settle_count k (s\<lparr>as_actions := xs\<rparr>) = settle_count k s"
  by (simp add: settle_count_def)

lemma pending_iff:
  "as_pending s k \<longleftrightarrow> (\<exists>a. map_of (as_actions s) k = Some a \<and> a_Status a = ActPending)"
  by (simp add: as_pending_def as_Get_def split: option.split)

text \<open>Among the actions a loop collects, at most the one stored under a key carries its id.\<close>

lemma collected_count:
  assumes "gm_wf m" "\<forall>e \<in> set m. a_ID (snd e) = fst e"
    and "\<And>a. a_ID (f a) = a_ID a" "\<And>a. a_reject (f a) = a_reject a"
  shows "length (filter (\<lambda>a. a_reject a \<and> a_ID a = k) (map (f \<circ> snd) (filter (P \<circ> snd) m))) =
    (case map_of m k of None \<Rightarrow> 0 | Some a \<Rightarrow> if P a \<and> a_reject a then 1 else 0)"
  using assms(1,2)
proof (induction m)
  case (Cons e m)
  have "map_of m (fst e) = None" using Cons.prems(1) by (simp add: map_of_eq_None_iff)
  with Cons assms(3,4) show ?case by (cases e) (auto split: option.splits)
qed simp

lemma act_ok_status [simp]: "act_ok (a\<lparr>a_Status := st\<rparr>) = act_ok a"
  by (cases "a_Type a") (simp_all add: act_ok_def)

lemma settled_step_other:
  assumes "map_of (as_actions s') k = map_of (as_actions s) k" "settle_count k s' = settle_count k s"
  shows "settled_step k s s'"
  using assms by (simp add: settled_step_def as_pending_def as_Get_def)

text \<open>The three claims share one argument: what happens when the claim is won.\<close>

lemma claim_settled:
  assumes wf: "act_wf s"
    and cl: "claim = (case takePending now at aid t to s of
        (None, res, s') \<Rightarrow> (res, s') | (Some a, res, s') \<Rightarrow> (res, after a s'))"
    and ac: "\<And>a s'. as_actions (after a s') = as_actions s'"
    and cnt: "\<And>a s' k. settle_count k (after a s') \<le> settle_count k s' + (if a_ID a = k then 1 else 0)"
    and grow: "\<And>a s' k. settle_count k s' \<le> settle_count k (after a s')"
    and ok: "\<And>a s'. act_ok a \<Longrightarrow> t = None \<or> t = Some (a_Type a) \<Longrightarrow>
        settle_count (a_ID a) (after a s') = Suc (settle_count (a_ID a) s')"
    and to: "to \<noteq> ActPending"
  shows "settled_step k s (snd claim)"
proof (cases rule: takePending_cases [of now at aid t to s])
  case absent
  with cl show ?thesis by (simp add: settled_step_other)
next
  case (done_before a)
  with cl show ?thesis by (simp add: settled_step_other)
next
  case (late a)
  with act_wf_ID [OF wf late(1)] cl show ?thesis
    by (cases "k = aid")
       (auto simp: settled_step_other gomap_simps settled_step_def pending_iff as_Get_def overdue_def act_ok_def)
next
  case (won a)
  let ?s = "s\<lparr>as_actions := AList.update aid (a\<lparr>a_Status := to\<rparr>) (as_actions s)\<rparr>"
  have snd: "snd claim = after (a\<lparr>a_Status := to\<rparr>) ?s" using won cl by simp
  have aid: "a_ID a = aid" by (rule act_wf_ID [OF wf won(1)])
  show ?thesis
  proof (cases "k = aid")
    case True
    have "settle_count k (snd claim) = Suc (settle_count k s)" if "act_ok a"
      using ok [of "a\<lparr>a_Status := to\<rparr>" ?s] that won(4) aid True snd by simp
    with True cnt [of k "a\<lparr>a_Status := to\<rparr>" ?s] won to aid snd ac show ?thesis
      by (simp add: settled_step_def pending_iff as_Get_def gomap_simps)
  next
    case False
    with cnt [of k "a\<lparr>a_Status := to\<rparr>" ?s] grow [of k ?s "a\<lparr>a_Status := to\<rparr>"] aid ac snd
    show ?thesis by (intro settled_step_other) (simp_all add: gomap_simps)
  qed
qed

text \<open>The two loops share theirs: they settle exactly the pending actions that they collect.\<close>

lemma collect_settled:
  assumes cnt: "settle_count k s' = settle_count k s +
      (case map_of (as_actions s) k of None \<Rightarrow> 0 | Some a \<Rightarrow> if P a \<and> a_reject a then 1 else 0)"
    and pend: "\<And>a. P a \<Longrightarrow> a_Status a = ActPending"
    and none: "map_of (as_actions s) k = None \<Longrightarrow> map_of (as_actions s') k = None"
    and hit: "\<And>a. map_of (as_actions s) k = Some a \<Longrightarrow> P a \<Longrightarrow> \<not> as_pending s' k"
    and miss: "\<And>a. map_of (as_actions s) k = Some a \<Longrightarrow> \<not> P a \<Longrightarrow>
        map_of (as_actions s') k = Some a \<or> \<not> as_pending s' k \<and> a_Status a \<noteq> ActPending"
  shows "settled_step k s s'"
proof (cases "map_of (as_actions s) k")
  case None
  with cnt none show ?thesis by (intro settled_step_other) simp_all
next
  case (Some a)
  show ?thesis
  proof (cases "P a")
    case True
    then have "as_pending s k" using Some pend by (simp add: pending_iff)
    with True Some hit cnt show ?thesis by (auto simp: settled_step_def as_Get_def act_ok_def)
  next
    case False
    with Some miss cnt show ?thesis by (auto simp: settled_step_def as_Get_def pending_iff)
  qed
qed

lemma cancel_settled:
  assumes "act_wf s"
  shows "settled_step k s (snd (as_CancelForConnection at conn reason s))"
proof (rule collect_settled [where P = "cancellable conn"])
  have "length (filter (\<lambda>a. a_reject a \<and> a_ID a = k)
      (map ((\<lambda>a. a\<lparr>a_Status := ActDenied\<rparr>) \<circ> snd) (filter (cancellable conn \<circ> snd) (as_actions s)))) =
    (case map_of (as_actions s) k of None \<Rightarrow> 0 | Some a \<Rightarrow> if cancellable conn a \<and> a_reject a then 1 else 0)"
    using assms by (intro collected_count) (auto simp: act_wf_def)
  then show "settle_count k (snd (as_CancelForConnection at conn reason s)) = settle_count k s +
      (case map_of (as_actions s) k of None \<Rightarrow> 0 | Some a \<Rightarrow> if cancellable conn a \<and> a_reject a then 1 else 0)"
    by (simp add: as_CancelForConnection_def Let_def)
qed (auto simp: as_CancelForConnection_def Let_def pending_iff gm_get_map_snd cancellable_def)

lemma sweep_get:
  "act_wf s \<Longrightarrow> map_of (as_actions (as_Sweep now at s)) k =
     (case map_of (as_actions s) k of None \<Rightarrow> None
      | Some a \<Rightarrow> if sweep_drops now (sweep_action now a) then None else Some (sweep_action now a))"
proof -
  assume "act_wf s"
  then have "gm_wf (map (\<lambda>(k, a). (k, sweep_action now a)) (as_actions s))"
    by (simp add: act_wf_def case_prod_beta comp_def)
  then show ?thesis
    by (simp add: as_Sweep_def Let_def gm_get_filter gm_get_map_snd split: option.split)
qed

lemma sweep_settled:
  assumes "act_wf s"
  shows "settled_step k s (as_Sweep now at s)"
proof -
  have "length (filter (\<lambda>a. a_reject a \<and> a_ID a = k)
      (map (sweep_action now \<circ> snd) (filter (overdue now \<circ> snd) (as_actions s)))) =
    (case map_of (as_actions s) k of None \<Rightarrow> 0 | Some a \<Rightarrow> if overdue now a \<and> a_reject a then 1 else 0)"
    using assms by (intro collected_count) (auto simp: act_wf_def sweep_action_def)
  then have "settle_count k (as_Sweep now at s) = settle_count k s +
      (case map_of (as_actions s) k of None \<Rightarrow> 0 | Some a \<Rightarrow> if overdue now a \<and> a_reject a then 1 else 0)"
    by (simp add: as_Sweep_def Let_def)
  then show ?thesis
  proof (rule collect_settled [where P = "overdue now"])
    show "a_Status a = ActPending" if "overdue now a" for a using that by (simp add: overdue_def)
  next
    assume "map_of (as_actions s) k = None"
    then show "map_of (as_actions (as_Sweep now at s)) k = None" by (simp add: sweep_get [OF assms])
  next
    fix a assume "map_of (as_actions s) k = Some a" "overdue now a"
    then show "\<not> as_pending (as_Sweep now at s) k"
      by (simp add: pending_iff sweep_get [OF assms] sweep_action_def)
  next
    fix a assume "map_of (as_actions s) k = Some a" "\<not> overdue now a"
    then show "map_of (as_actions (as_Sweep now at s)) k = Some a
        \<or> \<not> as_pending (as_Sweep now at s) k \<and> a_Status a \<noteq> ActPending"
      by (simp add: pending_iff sweep_get [OF assms] sweep_action_def sweep_drops_def)
  qed
qed


section \<open>Every operation\<close>

text \<open>What a won claim does after the critical section.\<close>

definition answer_sign :: "time \<Rightarrow> sign_response \<Rightarrow> action \<Rightarrow> approval_store \<Rightarrow> approval_store" where
  "answer_sign at resp a s = emitResolved at a OutcomeApproved []
     (if a_resolveSign a then as_emit [CallResolveSign (a_ID a) (resp\<lparr>rs_ActionID := a_ID a\<rparr>)] s else s)"

definition answer_key :: "time \<Rightarrow> action \<Rightarrow> approval_store \<Rightarrow> approval_store" where
  "answer_key at a s = emitResolved at a OutcomeApproved []
     (if a_resolveKey a then as_emit [CallResolveKey (a_ID a)] s else s)"

definition answer_deny :: "time \<Rightarrow> action \<Rightarrow> approval_store \<Rightarrow> approval_store" where
  "answer_deny at a s = emitResolved at a OutcomeDenied [] (as_reject a ErrDenied s)"

lemmas answer_defs = answer_sign_def answer_key_def answer_deny_def

lemma claim_forms:
  "as_ResolveSign now at aid resp s = (case takePending now at aid (Some TypeWebAuthnSign) ActCompleted s of
     (None, res, s') \<Rightarrow> (res, s') | (Some a, res, s') \<Rightarrow> (res, answer_sign at resp a s'))"
  "as_ResolveKey now at aid s = (case takePending now at aid (Some TypeKeyApprove) ActCompleted s of
     (None, res, s') \<Rightarrow> (res, s') | (Some a, res, s') \<Rightarrow> (res, answer_key at a s'))"
  "as_Deny now at aid s = (case takePending now at aid None ActDenied s of
     (None, res, s') \<Rightarrow> (res, s') | (Some a, res, s') \<Rightarrow> (res, answer_deny at a s'))"
  by (simp_all add: as_ResolveSign_def as_ResolveKey_def as_Deny_def answer_defs Let_def split: prod.split option.split)

lemma answer_actions [simp]:
  "as_actions (answer_sign at resp a s) = as_actions s" "as_actions (answer_key at a s) = as_actions s"
  "as_actions (answer_deny at a s) = as_actions s"
  by (simp_all add: answer_defs)

lemma act_step_settled:
  assumes "act_wf s" "\<not> act_creates op k"
  shows "settled_step k s (act_step op s)"
proof (cases op)
  case (OpCreate aid now p)
  with assms(2) show ?thesis
    by (intro settled_step_other) (simp_all add: as_Create_def Let_def gomap_simps)
next
  case (OpSign now at aid resp)
  have "settled_step k s (snd (as_ResolveSign now at aid resp s))"
    by (rule claim_settled [OF assms(1) claim_forms(1)]) (auto simp: answer_defs act_ok_def)
  with OpSign show ?thesis by simp
next
  case (OpKey now at aid)
  have "settled_step k s (snd (as_ResolveKey now at aid s))"
    by (rule claim_settled [OF assms(1) claim_forms(2)]) (auto simp: answer_defs act_ok_def)
  with OpKey show ?thesis by simp
next
  case (OpDeny now at aid)
  have "settled_step k s (snd (as_Deny now at aid s))"
    by (rule claim_settled [OF assms(1) claim_forms(3)]) (auto simp: answer_defs act_ok_def)
  with OpDeny show ?thesis by simp
next
  case OpOnCreated
  then show ?thesis by (intro settled_step_other) (simp_all add: OnCreated_def settle_count_def)
next
  case OpOnResolved
  then show ?thesis by (intro settled_step_other) (simp_all add: OnResolved_def settle_count_def)
qed (simp_all add: assms(1) cancel_settled sweep_settled)

lemma new_action_fields [simp]:
  "a_ID (new_action aid now p) = aid" "a_Status (new_action aid now p) = ActPending"
  "a_ExpiresAt (new_action aid now p) = now + ActionTTL" "a_Type (new_action aid now p) = cp_Type p"
  "a_reject (new_action aid now p) = cp_Reject p" "a_resolveSign (new_action aid now p) = cp_ResolveSign p"
  "a_resolveKey (new_action aid now p) = cp_ResolveKey p"
  by (simp_all add: new_action_def)

lemma act_wf_New [simp]: "act_wf NewStore"
  by (simp add: act_wf_def NewStore_def)

lemma act_wf_update:
  assumes "act_wf s" "a_ID a = aid" "as_actions s' = AList.update aid a (as_actions s)"
  shows "act_wf s'"
  using assms gm_set_update [of aid a "as_actions s"] by (fastforce simp: act_wf_def)

lemma act_wf_cong: "act_wf s \<Longrightarrow> as_actions s' = as_actions s \<Longrightarrow> act_wf s'"
  by (simp add: act_wf_def)

lemma act_wf_claim:
  assumes wf: "act_wf s"
    and cl: "claim = (case takePending now at aid t to s of
        (None, res, s') \<Rightarrow> (res, s') | (Some a, res, s') \<Rightarrow> (res, after a s'))"
    and ac: "\<And>a s'. as_actions (after a s') = as_actions s'"
  shows "act_wf (snd claim)"
proof (cases rule: takePending_cases [of now at aid t to s])
  case (late a)
  then show ?thesis using wf cl act_wf_ID [OF wf late(1)]
    by (intro act_wf_update [OF wf, of "a\<lparr>a_Status := ActExpired\<rparr>" aid]) simp_all
next
  case (won a)
  then show ?thesis using wf cl ac act_wf_ID [OF wf won(1)]
    by (intro act_wf_update [OF wf, of "a\<lparr>a_Status := to\<rparr>" aid]) simp_all
qed (use wf cl in simp_all)

lemma act_wf_step: "act_wf s \<Longrightarrow> act_wf (act_step op s)"
proof (induction op s rule: act_step.induct)
  case (1 aid now p s)
  then show ?case
    by (rule act_wf_update [of s "new_action aid now p" aid]) (simp_all add: as_Create_def Let_def)
next
  case (2 now at aid resp s)
  then show ?case using act_wf_claim [OF _ claim_forms(1)] by simp
next
  case (3 now at aid s)
  then show ?case using act_wf_claim [OF _ claim_forms(2)] by simp
next
  case (4 now at aid s)
  then show ?case using act_wf_claim [OF _ claim_forms(3)] by simp
next
  case (5 at conn reason s)
  then show ?case
    by (auto simp: act_wf_def as_CancelForConnection_def Let_def case_prod_beta comp_def)
next
  case (6 now at s)
  have "gm_wf (map (\<lambda>(k, a). (k, sweep_action now a)) (as_actions s))"
    using 6 by (simp add: act_wf_def case_prod_beta comp_def)
  with 6 show ?case
    by (auto simp: act_wf_def as_Sweep_def Let_def sweep_action_def intro!: gm_wf_filter)
qed (simp_all add: act_wf_def OnCreated_def OnResolved_def)

lemma act_wf_run: "act_wf s \<Longrightarrow> act_wf (act_run ops s)"
  by (induction ops arbitrary: s) (simp_all add: act_wf_step)


section \<open>One winner\<close>

lemma won_cases:
  assumes cl: "claim = (case takePending now at aid t to s of
        (None, res, s') \<Rightarrow> (res, s') | (Some a, res, s') \<Rightarrow> (res, after a s'))"
    and ac: "\<And>a s'. as_actions (after a s') = as_actions s'"
    and won: "cr_Won (fst claim)" and to: "to \<noteq> ActPending"
  shows "as_pending s aid \<and> \<not> as_pending (snd claim) aid
    \<and> (\<exists>a. map_of (as_actions s) aid = Some a \<and> now < a_ExpiresAt a \<and> (t = None \<or> t = Some (a_Type a)))"
proof (cases rule: takePending_cases [of now at aid t to s])
  case w: (won a)
  with cl ac to show ?thesis by (auto simp: pending_iff gomap_simps)
qed (use cl won in auto)

lemmas won_sign = won_cases [OF claim_forms(1) answer_actions(1) _ act_status.distinct(2)]
lemmas won_key = won_cases [OF claim_forms(2) answer_actions(2) _ act_status.distinct(2)]
lemmas won_deny = won_cases [OF claim_forms(3) answer_actions(3) _ act_status.distinct(6)]

lemma act_won_effect: "act_won op s k \<Longrightarrow> as_pending s k \<and> \<not> as_pending (act_step op s) k"
  by (cases op) (use won_sign won_key won_deny in auto)

text \<open>A well-formed store is what the contract is about; the interpretation quantifies over it.\<close>

definition act_step_wf :: "act_op \<Rightarrow> approval_store \<Rightarrow> approval_store" where
  "act_step_wf op s = (if act_wf s then act_step op s else s)"

definition act_open :: "approval_store \<Rightarrow> string \<Rightarrow> bool" where
  "act_open s k \<longleftrightarrow> act_wf s \<and> as_pending s k"

definition act_wins :: "act_op \<Rightarrow> approval_store \<Rightarrow> string \<Rightarrow> bool" where
  "act_wins op s k \<longleftrightarrow> act_wf s \<and> act_won op s k"

interpretation ac: claim_registry act_open act_step_wf act_wins act_creates
proof
  fix op s k
  assume "act_wins op s k"
  then show "act_open s k" "\<not> act_open (act_step_wf op s) k"
    using act_won_effect [of op s k] by (simp_all add: act_wins_def act_open_def act_step_wf_def)
next
  fix op s k
  assume "\<not> act_open s k" "\<not> act_creates op k"
  then show "\<not> act_open (act_step_wf op s) k"
    using act_step_settled [of s op k] by (auto simp: act_open_def act_step_wf_def settled_step_def)
qed

lemma win_count_wf: "act_wf s \<Longrightarrow> win_count act_step_wf act_wins k ops s = win_count act_step act_won k ops s"
  by (induction ops arbitrary: s) (simp_all add: act_wins_def act_step_wf_def act_wf_step)

text \<open>
  One winner. However approvals, denials, cancellations and sweeps of a request interleave,
  once it is created at most one of the claims on it succeeds.
\<close>

theorem claim_single_winner:
  assumes "act_wf s" and "k \<notin> set (created_ids ops)"
  shows "win_count act_step act_won k ops s \<le> 1"
proof -
  have "\<not> act_creates op k" if "op \<in> set ops" for op
    using assms(2) that by (induction ops rule: created_ids.induct) auto
  then have "win_count act_step_wf act_wins k ops s \<le> 1" by (intro ac.single_winner) blast
  then show ?thesis by (simp only: win_count_wf [OF assms(1)])
qed

text \<open>A concrete request with all its closures.\<close>

definition ex_params :: create_params where
  "ex_params = \<lparr>cp_AccountID = ''acc1'', cp_Type = TypeKeyApprove,
     cp_Context = \<lparr>cx_Source = ''agent-proxy'', cx_EndpointLabel = [], cx_EndpointAddress = [],
       cx_SessionID = [], cx_SourceIP = [], cx_ClientHostname = [], cx_ClientOS = [], cx_ClientVersion = [],
       cx_HostKey = None, cx_TriggerKind = [], cx_MCPReason = [], cx_MCPClientName = [], cx_MCPClientVer = []\<rparr>,
     cp_RedirectTo = [], cp_ConnectionID = ''conn1'', cp_CredentialID = [], cp_Challenge = [], cp_RpID = [],
     cp_PasskeyLabel = [], cp_UserVerification = [], cp_KeyLabel = ''k'', cp_KeyFingerprint = ''f'',
     cp_ResolveSign = False, cp_ResolveKey = True, cp_Reject = True\<rparr>"

lemmas act_eval = as_Create_def as_ResolveKey_def as_ResolveSign_def as_Deny_def takePending_def Let_def
  new_action_def emitResolved_def as_reject_def as_emit_def NewStore_def ActionTTL_def ex_params_def
  as_Sweep_def as_CancelForConnection_def overdue_def sweep_action_def sweep_drops_def cleanupGrace_def
  cancellable_def

theorem claim_single_winner_witness:
  "let s = act_step (OpCreate ''a1'' 0 ex_params) NewStore; ops = [OpDeny 5 5 ''a1'', OpKey 6 6 ''a1'']
   in win_count act_step act_won ''a1'' ops s = Suc 0 \<and> win_count act_step act_won ''a1'' ops s \<le> 1"
proof -
  let ?s = "act_step (OpCreate ''a1'' 0 ex_params) NewStore"
  have "act_wf ?s" by (intro act_wf_step) simp
  then have "win_count act_step act_won ''a1'' [OpDeny 5 5 ''a1'', OpKey 6 6 ''a1''] ?s \<le> 1"
    by (rule claim_single_winner) simp
  moreover have "win_count act_step act_won ''a1'' [OpDeny 5 5 ''a1'', OpKey 6 6 ''a1''] ?s = Suc 0"
    by (simp add: act_eval)
  ultimately show ?thesis by simp
qed


section \<open>Every waiter is answered exactly once\<close>

definition act_hist :: "string set \<Rightarrow> approval_store \<Rightarrow> bool" where
  "act_hist seen s \<longleftrightarrow> act_wf s \<and>
     (\<forall>k. settle_count k s \<le> 1 \<and> (as_pending s k \<longrightarrow> settle_count k s = 0)
          \<and> (k \<notin> seen \<longrightarrow> settle_count k s = 0 \<and> \<not> as_pending s k))"

lemma act_hist_New: "act_hist {} NewStore"
  by (simp add: act_hist_def settle_count_def pending_iff NewStore_def act_wf_def)

lemma created_ids_Cons: "set (created_ids (op # ops)) = {k. act_creates op k} \<union> set (created_ids ops)"
  by (cases op) auto

lemma created_ids_append [simp]: "created_ids (ops @ ops') = created_ids ops @ created_ids ops'"
  by (induction ops rule: created_ids.induct) auto

lemma act_hist_step:
  assumes "act_hist seen s" "\<And>k. act_creates op k \<Longrightarrow> k \<notin> seen"
  shows "act_hist ({k. act_creates op k} \<union> seen) (act_step op s)"
proof -
  let ?s = "act_step op s"
  have wf: "act_wf s" using assms(1) by (simp add: act_hist_def)
  have "settle_count k ?s \<le> 1 \<and> (as_pending ?s k \<longrightarrow> settle_count k ?s = 0)
      \<and> (k \<notin> {k. act_creates op k} \<union> seen \<longrightarrow> settle_count k ?s = 0 \<and> \<not> as_pending ?s k)" for k
  proof (cases "act_creates op k")
    case False
    with act_step_settled [OF wf False] assms(1) show ?thesis
      by (auto simp: settled_step_def act_hist_def split: if_splits)
  next
    case True
    then obtain now p where "op = OpCreate k now p" by (cases op) auto
    with assms True show ?thesis by (auto simp: act_hist_def as_Create_def Let_def)
  qed
  then show ?thesis using act_wf_step [OF wf] by (simp add: act_hist_def)
qed

lemma act_hist_run:
  "act_hist seen s \<Longrightarrow> distinct (created_ids ops) \<Longrightarrow> set (created_ids ops) \<inter> seen = {} \<Longrightarrow>
     act_hist (seen \<union> set (created_ids ops)) (act_run ops s)"
proof (induction ops arbitrary: s seen)
  case (Cons op ops)
  have h: "act_hist ({k. act_creates op k} \<union> seen) (act_step op s)"
    using Cons.prems created_ids_Cons [of op ops] by (intro act_hist_step) auto
  have "set (created_ids ops) \<inter> ({k. act_creates op k} \<union> seen) = {}"
    using Cons.prems created_ids_Cons [of op ops] by (cases op) auto
  moreover have "distinct (created_ids ops)" using Cons.prems(2) by (cases op) auto
  ultimately show ?case
    using Cons.IH [OF h] created_ids_Cons [of op ops] by (simp add: Un_ac)
qed simp

text \<open>
  C2: a waiter is answered at most once. With distinct request ids, no history of creations,
  approvals, denials, cancellations and sweeps calls the closures of a request twice: what one
  caller resolved, no other resolves or rejects again.
\<close>

theorem answered_at_most_once:
  assumes "distinct (created_ids ops)"
  shows "settle_count k (act_run ops NewStore) \<le> 1"
  using act_hist_run [OF act_hist_New assms] by (simp add: act_hist_def)

theorem answered_at_most_once_witness:
  "let s = act_run [OpCreate ''a1'' 0 ex_params, OpCancel 3 ''conn1'' ''gone'', OpKey 4 4 ''a1''] NewStore
   in settle_count ''a1'' s = Suc 0 \<and> settle_count ''a1'' s \<le> 1"
  using answered_at_most_once
    [of "[OpCreate ''a1'' 0 ex_params, OpCancel 3 ''conn1'' ''gone'', OpKey 4 4 ''a1'']" "''a1''"]
  by (simp add: act_eval settle_count_def)

definition params_ok :: "create_params \<Rightarrow> bool" where
  "params_ok p \<longleftrightarrow> cp_Reject p \<and>
     (case cp_Type p of TypeWebAuthnSign \<Rightarrow> cp_ResolveSign p | TypeKeyApprove \<Rightarrow> cp_ResolveKey p)"

text \<open>Waiting with no answer yet, or answered once and no longer pending.\<close>

definition waits_or_answered :: "string \<Rightarrow> action \<Rightarrow> approval_store \<Rightarrow> bool" where
  "waits_or_answered k a s \<longleftrightarrow>
     act_wf s \<and> (if as_pending s k then as_Get k s = Some a \<and> settle_count k s = 0 else settle_count k s = 1)"

lemma waits_step:
  assumes "waits_or_answered k a s" "act_ok a" "\<not> act_creates op k"
  shows "waits_or_answered k a (act_step op s)"
  using assms act_step_settled [of s op k] act_wf_step
  by (auto simp: waits_or_answered_def settled_step_def split: if_splits)

lemma waits_run:
  "waits_or_answered k a s \<Longrightarrow> act_ok a \<Longrightarrow> k \<notin> set (created_ids ops) \<Longrightarrow> waits_or_answered k a (act_run ops s)"
proof (induction ops arbitrary: s)
  case (Cons op ops)
  then have "\<not> act_creates op k" "k \<notin> set (created_ids ops)" using created_ids_Cons [of op ops] by auto
  with Cons show ?case by (simp add: waits_step)
qed simp

text \<open>
  No waiter is stranded. A request created at time \<open>t\<close> with its closures set has been answered
  exactly once when a sweep runs at or after its deadline, whatever happened in between: an
  approval, a denial, a cancelled connection, or nothing at all.
\<close>

theorem answered_by_deadline:
  assumes "distinct (created_ids (ops @ OpCreate k t p # ops'))" and "params_ok p" and "t + ActionTTL \<le> now"
  shows "settle_count k (act_run (ops @ OpCreate k t p # ops' @ [OpSweep now at]) NewStore) = 1"
proof -
  let ?a = "new_action k t p" and ?s0 = "act_run ops NewStore"
  have hist: "act_hist (set (created_ids ops)) ?s0"
    using act_hist_run [OF act_hist_New, of ops] assms(1) by simp
  then have s0: "act_wf ?s0" "settle_count k ?s0 = 0" using assms(1) by (auto simp: act_hist_def)
  have ok: "act_ok ?a" using assms(2) by (cases "cp_Type p") (simp_all add: act_ok_def params_ok_def)
  have "waits_or_answered k ?a (act_step (OpCreate k t p) ?s0)"
    using act_wf_step [OF s0(1), of "OpCreate k t p"] s0(2)
    by (simp add: waits_or_answered_def as_Create_def Let_def pending_iff as_Get_def gomap_simps)
  then have w: "waits_or_answered k ?a (act_run ops' (act_step (OpCreate k t p) ?s0))"
    using ok assms(1) by (intro waits_run) simp_all
  let ?s1 = "act_run ops' (act_step (OpCreate k t p) ?s0)"
  have "waits_or_answered k ?a (act_step (OpSweep now at) ?s1)" by (rule waits_step [OF w ok]) simp
  moreover have "\<not> as_pending (as_Sweep now at ?s1) k"
    using w assms(3) sweep_get [of ?s1 now at k]
    by (auto simp: waits_or_answered_def pending_iff as_Get_def sweep_action_def overdue_def
        split: option.splits if_splits)
  ultimately show ?thesis by (simp add: waits_or_answered_def)
qed

theorem answered_by_deadline_witness:
  "settle_count ''a1'' (act_run ([] @ OpCreate ''a1'' 0 ex_params # [] @ [OpSweep (60 * 1000000000) 60]) NewStore) = 1"
  by (rule answered_by_deadline) (simp_all add: params_ok_def ex_params_def ActionTTL_def)

section \<open>No approval after the deadline\<close>

fun approves :: "act_effect \<Rightarrow> string option" where
  "approves (CallResolveSign aid r) = Some aid"
| "approves (CallResolveKey aid) = Some aid"
| "approves _ = None"

definition approve_count :: "string \<Rightarrow> approval_store \<Rightarrow> nat" where
  "approve_count k s = length (filter (\<lambda>e. approves e = Some k) (as_trace s))"

fun op_now :: "act_op \<Rightarrow> time option" where
  "op_now (OpSign now at aid resp) = Some now"
| "op_now (OpKey now at aid) = Some now"
| "op_now _ = None"

lemma approve_emit [simp]:
  "approve_count k (as_emit es s) = approve_count k s + length (filter (\<lambda>e. approves e = Some k) es)"
  "approve_count k (s\<lparr>as_actions := xs\<rparr>) = approve_count k s"
  "approve_count k (OnCreated s) = approve_count k s" "approve_count k (OnResolved s) = approve_count k s"
  by (simp_all add: approve_count_def OnCreated_def OnResolved_def)

lemma approve_hooks [simp]:
  "filter (\<lambda>e. approves e = Some k) (map (\<lambda>i. ResolvedHook i ev) is) = []"
  "filter (\<lambda>e. approves e = Some k) (map (\<lambda>i. CreatedHook i a) is) = []"
  by (induction "is") simp_all

lemma approve_reject [simp]:
  "approve_count k (emitResolved at a o' r s) = approve_count k s"
  "approve_count k (as_reject a e s) = approve_count k s"
  by (simp_all add: emitResolved_def as_reject_def Let_def)

lemma approve_fold [simp]:
  "approve_count k (fold (\<lambda>a s. emitResolved at a o' r (as_reject a e s)) as s) = approve_count k s"
  by (induction as arbitrary: s) simp_all

lemma approve_claim:
  assumes "act_wf s"
    and cl: "claim = (case takePending now at aid t to s of
        (None, res, s') \<Rightarrow> (res, s') | (Some a, res, s') \<Rightarrow> (res, after a s'))"
    and ap: "\<And>a s' k. a_ID a \<noteq> k \<Longrightarrow> approve_count k (after a s') = approve_count k s'"
    and ch: "approve_count k (snd claim) \<noteq> approve_count k s"
  shows "cr_Won (fst claim) \<and> k = aid"
proof (cases rule: takePending_cases [of now at aid t to s])
  case (won a)
  have "approve_count k (snd claim) = approve_count k s" if "k \<noteq> aid"
    using won cl that act_wf_ID [OF assms(1) won(1)] by (simp add: ap)
  with won cl ch show ?thesis by auto
qed (use cl ch in auto)

lemma approve_deny: "approve_count k (snd (as_Deny now at aid s)) = approve_count k s"
  by (rule takePending_cases [of now at aid None ActDenied s]) (simp_all add: claim_forms answer_defs)

text \<open>
  C3: no approval after the deadline. An operation that runs the approval closure of a request
  found it pending in the registry, and the clock it read under the lock was strictly before the
  request's expiry; no other operation than a sign or key resolution approves anything.
\<close>

theorem approval_before_deadline:
  assumes "act_wf s" and "approve_count k (act_step op s) \<noteq> approve_count k s"
  shows "\<exists>now a. op_now op = Some now \<and> as_Get k s = Some a \<and> a_Status a = ActPending \<and> now < a_ExpiresAt a"
proof (cases op)
  case (OpSign now at aid resp)
  then have "cr_Won (fst (as_ResolveSign now at aid resp s)) \<and> k = aid"
    using assms by (intro approve_claim [OF assms(1) claim_forms(1)]) (simp_all add: answer_defs)
  with OpSign won_sign [of now at aid resp s] show ?thesis by (auto simp: pending_iff as_Get_def)
next
  case (OpKey now at aid)
  then have "cr_Won (fst (as_ResolveKey now at aid s)) \<and> k = aid"
    using assms by (intro approve_claim [OF assms(1) claim_forms(2)]) (simp_all add: answer_defs)
  with OpKey won_key [of now at aid s] show ?thesis by (auto simp: pending_iff as_Get_def)
next
  case (OpDeny now at aid)
  with assms(2) show ?thesis by (simp add: approve_deny)
qed (use assms in \<open>simp_all add: as_Create_def as_CancelForConnection_def as_Sweep_def Let_def\<close>)


theorem approval_before_deadline_witness:
  "let s = act_step (OpCreate ''a1'' 0 ex_params) NewStore; op = OpKey 5 5 ''a1''
   in approve_count ''a1'' (act_step op s) \<noteq> approve_count ''a1'' s
      \<and> (\<exists>now a. op_now op = Some now \<and> as_Get ''a1'' s = Some a \<and> a_Status a = ActPending \<and> now < a_ExpiresAt a)"
proof -
  let ?s = "act_step (OpCreate ''a1'' 0 ex_params) NewStore" and ?op = "OpKey 5 5 ''a1''"
  have "act_wf ?s" by (intro act_wf_step) simp
  moreover have "approve_count ''a1'' (act_step ?op ?s) \<noteq> approve_count ''a1'' ?s"
    by (simp add: act_eval approve_count_def)
  ultimately show ?thesis
    using approval_before_deadline [of ?s "''a1''" ?op] by (simp only: Let_def simp_thms)
qed

end
