(* ===== verification/Base64.thy ===== *)
theory Base64
  imports Prelude
begin

text \<open>
  What the sources use of Go's \<open>encoding/base64\<close>: \<open>StdEncoding\<close> (padded), \<open>RawStdEncoding\<close> and
  \<open>RawURLEncoding\<close> (unpadded), none of them strict. The decoder ignores line breaks, refuses any
  other character outside the alphabet, and drops the unused bits of the last group.
\<close>

definition std_alphabet :: string where
  "std_alphabet = ''ABCDEFGHIJKLMNOPQRSTUVWXYZabcdefghijklmnopqrstuvwxyz0123456789+/''"

definition url_alphabet :: string where
  "url_alphabet = ''ABCDEFGHIJKLMNOPQRSTUVWXYZabcdefghijklmnopqrstuvwxyz0123456789-_''"

section \<open>Groups of six bits\<close>

text \<open>The sextets of a byte string; a last incomplete group is filled with zero bits.\<close>

fun sextets :: "byte list \<Rightarrow> nat list" where
  "sextets [] = []"
| "sextets [a] = [unat a div 4, unat a mod 4 * 16]"
| "sextets [a, b] = [unat a div 4, unat a mod 4 * 16 + unat b div 16, unat b mod 16 * 4]"
| "sextets (a # b # c # bs) =
     (unat a div 4) # (unat a mod 4 * 16 + unat b div 16) # (unat b mod 16 * 4 + unat c div 64)
       # (unat c mod 64) # sextets bs"

fun unsextets :: "nat list \<Rightarrow> byte list option" where
  "unsextets [] = Some []"
| "unsextets [p] = None"
| "unsextets [p, q] = Some [of_nat (p * 4 + q div 16)]"
| "unsextets [p, q, r] = Some [of_nat (p * 4 + q div 16), of_nat (q mod 16 * 16 + r div 4)]"
| "unsextets (p # q # r # s # xs) =
     map_option (\<lambda>bs. of_nat (p * 4 + q div 16) # of_nat (q mod 16 * 16 + r div 4)
       # of_nat (r mod 4 * 64 + s) # bs) (unsextets xs)"

lemma unsextets_sextets: "unsextets (sextets bs) = Some bs"
proof (induction bs rule: sextets.induct)
  case (2 a)
  have "unat a div 4 * 4 + unat a mod 4 * 16 div 16 = unat a" by simp
  then show ?case by (simp del: div_mult_self_is_m)
next
  case (3 a b)
  have "unat b < 256" using byte_unat_less [of b] by simp
  then have b: "unat b div 16 < 16" by (simp add: div_less_iff_less_mult)
  have "unat a div 4 * 4 + (unat a mod 4 * 16 + unat b div 16) div 16 = unat a"
    using b by simp
  moreover have "(unat a mod 4 * 16 + unat b div 16) mod 16 * 16 + unat b mod 16 * 4 div 4 = unat b"
    using b by simp
  ultimately show ?case by simp
next
  case (4 a b c bs)
  have "unat b < 256" "unat c < 256" using byte_unat_less [of b] byte_unat_less [of c] by simp_all
  then have b: "unat b div 16 < 16" and c: "unat c div 64 < 4" by (simp_all add: div_less_iff_less_mult)
  have "unat a div 4 * 4 + (unat a mod 4 * 16 + unat b div 16) div 16 = unat a" using b by simp
  moreover have "(unat a mod 4 * 16 + unat b div 16) mod 16 * 16 + (unat b mod 16 * 4 + unat c div 64) div 4 = unat b"
    using b c by simp
  moreover have "(unat b mod 16 * 4 + unat c div 64) mod 4 * 64 + unat c mod 64 = unat c" using c by simp
  ultimately show ?case using 4 by simp
qed simp

lemma sextets_bound: "\<forall>x \<in> set (sextets bs). x < 64"
proof (induction bs rule: sextets.induct)
  case (2 a)
  have "unat a < 256" using byte_unat_less [of a] by simp
  then show ?case by (auto simp: div_less_iff_less_mult)
next
  case (3 a b)
  have "unat a < 256" "unat b < 256" using byte_unat_less [of a] byte_unat_less [of b] by simp_all
  then have "unat a div 4 < 64" "unat b div 16 < 16" by (simp_all add: div_less_iff_less_mult)
  then show ?case by auto
next
  case (4 a b c bs)
  have "unat a < 256" "unat b < 256" "unat c < 256"
    using byte_unat_less [of a] byte_unat_less [of b] byte_unat_less [of c] by simp_all
  then have "unat a div 4 < 64" "unat b div 16 < 16" "unat c div 64 < 4"
    by (simp_all add: div_less_iff_less_mult)
  with 4 show ?case by auto
qed simp

section \<open>Encoding and decoding\<close>

definition enc_chars :: "string \<Rightarrow> byte list \<Rightarrow> string" where
  "enc_chars alphabet bs = map (\<lambda>i. alphabet ! i) (sextets bs)"

fun index_of :: "char \<Rightarrow> string \<Rightarrow> nat option" where
  "index_of c [] = None"
| "index_of c (x # xs) = (if x = c then Some 0 else map_option Suc (index_of c xs))"

fun sequence :: "'a option list \<Rightarrow> 'a list option" where
  "sequence [] = Some []"
| "sequence (None # xs) = None"
| "sequence (Some x # xs) = map_option (Cons x) (sequence xs)"

definition not_newline :: "char \<Rightarrow> bool" where
  "not_newline c \<longleftrightarrow> c \<noteq> CHR 0x0A \<and> c \<noteq> CHR 0x0D"

definition raw_decode :: "string \<Rightarrow> string \<Rightarrow> byte list option" where
  "raw_decode alphabet s =
     Option.bind (sequence (map (\<lambda>c. index_of c alphabet) (filter not_newline s))) unsextets"

definition RawURL_Encode :: "byte list \<Rightarrow> string" where
  "RawURL_Encode bs = enc_chars url_alphabet bs"

definition RawURL_Decode :: "string \<Rightarrow> byte list option" where
  "RawURL_Decode s = raw_decode url_alphabet s"

definition RawStd_Decode :: "string \<Rightarrow> byte list option" where
  "RawStd_Decode s = raw_decode std_alphabet s"

definition padding :: "byte list \<Rightarrow> string" where
  "padding bs = (if length bs mod 3 = 1 then ''=='' else if length bs mod 3 = 2 then ''='' else [])"

definition Std_Encode :: "byte list \<Rightarrow> string" where
  "Std_Encode bs = enc_chars std_alphabet bs @ padding bs"

text \<open>The padded decoder: complete groups of four, the last of which may end in padding.\<close>

definition strip_padding :: "string \<Rightarrow> string option" where
  "strip_padding s =
     (if length s mod 4 \<noteq> 0 then None
      else if 2 \<le> length s \<and> drop (length s - 2) s = ''=='' then Some (take (length s - 2) s)
      else if s \<noteq> [] \<and> last s = CHR ''='' then Some (butlast s)
      else Some s)"

definition Std_Decode :: "string \<Rightarrow> byte list option" where
  "Std_Decode s = Option.bind (strip_padding (filter not_newline s)) (raw_decode std_alphabet)"

lemma sequence_Some [simp]: "sequence (map Some xs) = Some xs"
  by (induction xs) simp_all

lemma index_of_nth: "distinct xs \<Longrightarrow> i < length xs \<Longrightarrow> index_of (xs ! i) xs = Some i"
proof (induction xs arbitrary: i)
  case (Cons x xs)
  then show ?case by (cases i) auto
qed simp

lemma raw_decode_enc:
  assumes "distinct alphabet" "length alphabet = 64" "\<forall>c \<in> set alphabet. not_newline c"
  shows "raw_decode alphabet (enc_chars alphabet bs) = Some bs"
proof -
  have in_al: "alphabet ! i \<in> set alphabet" if "i \<in> set (sextets bs)" for i
    using that sextets_bound [of bs] assms(2) by auto
  then have "filter not_newline (enc_chars alphabet bs) = enc_chars alphabet bs"
    using assms(3) by (auto simp: enc_chars_def filter_id_conv)
  moreover have "map (\<lambda>c. index_of c alphabet) (enc_chars alphabet bs) = map Some (sextets bs)"
    using sextets_bound [of bs] assms by (simp add: enc_chars_def index_of_nth)
  ultimately show ?thesis by (simp add: raw_decode_def unsextets_sextets)
qed

lemma alphabet_facts:
  "distinct std_alphabet" "length std_alphabet = 64" "\<forall>c \<in> set std_alphabet. not_newline c"
  "distinct url_alphabet" "length url_alphabet = 64" "\<forall>c \<in> set url_alphabet. not_newline c"
  by code_simp+

lemma RawURL_roundtrip: "RawURL_Decode (RawURL_Encode bs) = Some bs"
  by (simp add: RawURL_Decode_def RawURL_Encode_def raw_decode_enc alphabet_facts)


lemma length_sextets:
  "length (sextets bs) = 4 * (length bs div 3) + (if length bs mod 3 = 0 then 0 else Suc (length bs mod 3))"
proof (induction bs rule: sextets.induct)
  case (4 a b c bs)
  have l: "length (a # b # c # bs) = length bs + 3" by simp
  have "(length bs + 3) div 3 = Suc (length bs div 3)" "(length bs + 3) mod 3 = length bs mod 3"
    by simp_all
  with 4 show ?case unfolding l by simp
qed simp_all

lemma enc_chars_plain: "c \<in> set (enc_chars std_alphabet bs) \<Longrightarrow> c \<noteq> CHR ''='' \<and> not_newline c"
proof -
  assume "c \<in> set (enc_chars std_alphabet bs)"
  then obtain i where "i < 64" "c = std_alphabet ! i"
    using sextets_bound [of bs] by (auto simp: enc_chars_def)
  then have "c \<in> set std_alphabet" using alphabet_facts(2) by simp
  moreover have "\<forall>c \<in> set std_alphabet. c \<noteq> CHR ''='' \<and> not_newline c" by code_simp
  ultimately show ?thesis by blast
qed

lemma strip_padding_Std: "strip_padding (Std_Encode bs) = Some (enc_chars std_alphabet bs)"
proof -
  let ?e = "enc_chars std_alphabet bs"
  have len: "length ?e = 4 * (length bs div 3) + (if length bs mod 3 = 0 then 0 else Suc (length bs mod 3))"
    by (simp add: enc_chars_def length_sextets)
  have no_eq: "c \<noteq> CHR ''=''" if "c \<in> set ?e" for c using that enc_chars_plain by blast
  consider "length bs mod 3 = 0" | "length bs mod 3 = 1" | "length bs mod 3 = 2" by linarith
  then show ?thesis
  proof cases
    case 1
    have "last ?e \<noteq> CHR ''=''" if "?e \<noteq> []" using that no_eq last_in_set by blast
    moreover have "drop (length ?e - 2) ?e \<noteq> ''==''"
      using no_eq by (metis in_set_dropD list.set_intros(1))
    ultimately show ?thesis using 1 len by (auto simp: Std_Encode_def padding_def strip_padding_def)
  next
    case 2
    with len have "length (?e @ ''=='') mod 4 = 0" by simp
    with 2 show ?thesis by (simp add: Std_Encode_def padding_def strip_padding_def)
  next
    case 3
    with len have l: "length (?e @ ''='') mod 4 = 0" by simp
    have "?e \<noteq> []" using 3 len by auto
    then obtain es c where e: "?e = es @ [c]" by (metis rev_exhaust)
    then have "c \<noteq> CHR ''=''" using no_eq by simp
    with 3 l e show ?thesis by (simp add: Std_Encode_def padding_def strip_padding_def butlast_append)
  qed
qed

lemma Std_roundtrip: "Std_Decode (Std_Encode bs) = Some bs"
proof -
  have "filter not_newline (Std_Encode bs) = Std_Encode bs"
    by (auto simp: Std_Encode_def padding_def not_newline_def filter_id_conv dest: enc_chars_plain)
  then show ?thesis
    by (simp add: Std_Decode_def strip_padding_Std raw_decode_enc alphabet_facts)
qed

end
