(* ===== verification/Http_Errors.thy ===== *)
theory Http_Errors
  imports Prelude
begin

text \<open>
  \<open>src/internal/apierr/apierr.go\<close>: the error envelopes of the HTTP surfaces. A response is its
  status and the JSON value of its body.
\<close>

type_synonym http_resp = "int \<times> json"

definition apierr_Write :: "int \<Rightarrow> string \<Rightarrow> http_resp" where
  "apierr_Write status msg = (status, JObj [(''error'', JStr msg)])"

definition WriteNotified :: "int \<Rightarrow> string \<Rightarrow> string \<Rightarrow> http_resp" where
  "WriteNotified status msg notificationID =
     (status, JObj [(''error'', JStr msg), (''notificationId'', JStr notificationID)])"

definition WriteCode :: "int \<Rightarrow> string \<Rightarrow> string \<Rightarrow> http_resp" where
  "WriteCode status msg code = (status, JObj [(''error'', JStr msg), (''code'', JStr code)])"

definition WriteOAuth :: "int \<Rightarrow> string \<Rightarrow> string \<Rightarrow> http_resp" where
  "WriteOAuth status code desc = (status, JObj [(''error'', JStr code), (''error_description'', JStr desc)])"

end
