(* ===== verification/Approval_Broker.thy ===== *)
theory Approval_Broker
  imports Approval_Properties Base64 Http_Errors
begin

text \<open>
  \<open>src/internal/approval/broker.go\<close>, \<open>approval/wschannel.go\<close> and \<open>src/internal/rest/actions.go\<close>:
  the waiting side of a sign request, the browser notification, and the HTTP handlers through
  which a human answers.

  \<open>RequestSign\<close> and \<open>RequestKeyApproval\<close> are split at their \<open>select\<close>: the first half creates the
  action and notifies the channels, the second half is what follows the wake-up. Which
  \<open>select\<close> cases are ready (\<open>sign_ready\<close>, \<open>key_ready\<close>) is determined by the closures the store has called and by the
  request's context. In the handlers, \<open>env\<close> stands for what other callers do between the
  look-up and the claim.
\<close>

section \<open>Broker\<close>

datatype ch_effect = ChNotify nat action string | ChResolved nat action

record broker =
  br_store :: approval_store
  br_channels :: nat
  br_trace :: "ch_effect list"

record key_approval =
  ka_AccountID :: string
  ka_KeyLabel :: string
  ka_KeyFingerprint :: string
  ka_ConnectionID :: string
  ka_Context :: sign_context
  ka_RedirectTo :: string

datatype broker_error = Rejected approval_error | ContextDone

text \<open>The case a \<open>select\<close> takes: the result channel, the error channel, or the context.\<close>

datatype 'r wake = WakeResult 'r | WakeReject approval_error | WakeCtx

definition NewBroker :: "approval_store \<Rightarrow> nat \<Rightarrow> broker" where
  "NewBroker store channels = \<lparr>br_store = store, br_channels = channels, br_trace = []\<rparr>"

definition orDefault :: "string \<Rightarrow> string \<Rightarrow> string" where
  "orDefault s def = (if s = [] then def else s)"

definition notify_all :: "action \<Rightarrow> string \<Rightarrow> broker \<Rightarrow> broker" where
  "notify_all a deepLink b = b\<lparr>br_trace := br_trace b @ map (\<lambda>i. ChNotify i a deepLink) [0..<br_channels b]\<rparr>"

definition notifyResolved :: "action \<Rightarrow> broker \<Rightarrow> broker" where
  "notifyResolved a b = b\<lparr>br_trace := br_trace b @ map (\<lambda>i. ChResolved i a) [0..<br_channels b]\<rparr>"

definition sign_params :: "string \<Rightarrow> sign_request \<Rightarrow> sign_context \<Rightarrow> string \<Rightarrow> create_params" where
  "sign_params accountID req actionCtx redirectTo =
     \<lparr>cp_AccountID = accountID, cp_Type = TypeWebAuthnSign, cp_Context = actionCtx,
      cp_RedirectTo = redirectTo, cp_ConnectionID = sr_ConnectionID req,
      cp_CredentialID = sr_CredentialID req, cp_Challenge = Std_Encode (sr_DataToSign req),
      cp_RpID = sr_RpID req, cp_PasskeyLabel = sr_PasskeyLabel req,
      cp_UserVerification = orDefault (sr_UserVerification req) ''required'',
      cp_KeyLabel = [], cp_KeyFingerprint = [],
      cp_ResolveSign = True, cp_ResolveKey = False, cp_Reject = True\<rparr>"

definition RequestSign_begin ::
  "string \<Rightarrow> time \<Rightarrow> string \<Rightarrow> string \<Rightarrow> sign_request \<Rightarrow> sign_context \<Rightarrow> string \<Rightarrow> broker \<Rightarrow> action \<times> broker"
where
  "RequestSign_begin newID now baseURL accountID req actionCtx redirectTo b =
     (let (a, s) = as_Create newID now (sign_params accountID req actionCtx redirectTo) (br_store b);
          deepLink = baseURL @ ''/sign/'' @ a_ID a
      in (a, notify_all a deepLink (b\<lparr>br_store := s\<rparr>)))"

fun RequestSign_finish :: "action \<Rightarrow> sign_response wake \<Rightarrow> broker \<Rightarrow> (broker_error + sign_response) \<times> broker" where
  "RequestSign_finish a (WakeResult r) b = (Inr r, notifyResolved a b)"
| "RequestSign_finish a (WakeReject e) b = (Inl (Rejected e), notifyResolved a b)"
| "RequestSign_finish a WakeCtx b = (Inl ContextDone, b)"

definition key_params :: "key_approval \<Rightarrow> create_params" where
  "key_params p =
     \<lparr>cp_AccountID = ka_AccountID p, cp_Type = TypeKeyApprove, cp_Context = ka_Context p,
      cp_RedirectTo = ka_RedirectTo p, cp_ConnectionID = ka_ConnectionID p, cp_CredentialID = [],
      cp_Challenge = [], cp_RpID = [], cp_PasskeyLabel = [], cp_UserVerification = [],
      cp_KeyLabel = ka_KeyLabel p, cp_KeyFingerprint = ka_KeyFingerprint p,
      cp_ResolveSign = False, cp_ResolveKey = True, cp_Reject = True\<rparr>"

definition RequestKeyApproval_begin ::
  "string \<Rightarrow> time \<Rightarrow> string \<Rightarrow> key_approval \<Rightarrow> broker \<Rightarrow> action \<times> broker"
where
  "RequestKeyApproval_begin newID now baseURL p b =
     (let (a, s) = as_Create newID now (key_params p) (br_store b);
          deepLink = baseURL @ ''/sign/'' @ a_ID a
      in (a, notify_all a deepLink (b\<lparr>br_store := s\<rparr>)))"

text \<open>The action id is returned on every path.\<close>

fun RequestKeyApproval_finish :: "action \<Rightarrow> unit wake \<Rightarrow> broker \<Rightarrow> (string \<times> broker_error option) \<times> broker" where
  "RequestKeyApproval_finish a (WakeResult _) b = ((a_ID a, None), notifyResolved a b)"
| "RequestKeyApproval_finish a (WakeReject e) b = ((a_ID a, Some (Rejected e)), notifyResolved a b)"
| "RequestKeyApproval_finish a WakeCtx b = ((a_ID a, Some ContextDone), b)"

definition Broker_CancelForConnection :: "time \<Rightarrow> string \<Rightarrow> string \<Rightarrow> broker \<Rightarrow> nat \<times> broker" where
  "Broker_CancelForConnection at connectionID reason b =
     (let (cancelled, s) = as_CancelForConnection at connectionID reason (br_store b)
      in (length cancelled, fold notifyResolved cancelled (b\<lparr>br_store := s\<rparr>)))"

text \<open>
  When a case is ready on the store's account: the result channel once the store called the
  resolution closure, the error channel once it called the rejection closure.
\<close>

fun sign_ready :: "string \<Rightarrow> approval_store \<Rightarrow> sign_response wake \<Rightarrow> bool" where
  "sign_ready k s (WakeResult r) = (CallResolveSign k r \<in> set (as_trace s))"
| "sign_ready k s (WakeReject e) = (CallReject k e \<in> set (as_trace s))"
| "sign_ready k s WakeCtx = False"

fun key_ready :: "string \<Rightarrow> approval_store \<Rightarrow> unit wake \<Rightarrow> bool" where
  "key_ready k s (WakeResult _) = (CallResolveKey k \<in> set (as_trace s))"
| "key_ready k s (WakeReject e) = (CallReject k e \<in> set (as_trace s))"
| "key_ready k s WakeCtx = False"

section \<open>Browser notification\<close>

definition put_hostkey :: "host_key_info option \<Rightarrow> (string, json) gomap \<Rightarrow> (string, json) gomap" where
  "put_hostkey hk m = (case hk of None \<Rightarrow> m | Some k \<Rightarrow> AList.update ''hostKey'' (host_key_json k) m)"

definition type_str :: "action_type \<Rightarrow> string" where
  "type_str t = (case t of TypeWebAuthnSign \<Rightarrow> ''webauthn-sign'' | TypeKeyApprove \<Rightarrow> ''key-approve'')"

text \<open>The account a message goes to and its payload.\<close>

definition WSChannel_Notify :: "action \<Rightarrow> string \<Rightarrow> string \<times> json" where
  "WSChannel_Notify a deepLink =
     (let c = a_Context a;
          payload = [(''type'', JStr ''sign:request''), (''actionId'', JStr (a_ID a)),
                     (''actionType'', JStr (type_str (a_Type a))), (''deepLink'', JStr deepLink),
                     (''source'', JStr (cx_Source c))];
          payload = put_nonempty ''endpointLabel'' (cx_EndpointLabel c) payload;
          payload = put_nonempty ''endpointAddress'' (cx_EndpointAddress c) payload;
          payload = put_hostkey (cx_HostKey c) payload;
          payload = (case a_Type a of
              TypeWebAuthnSign \<Rightarrow>
                AList.update ''rpId'' (JStr (a_RpID a))
                  (AList.update ''challenge'' (JStr (a_Challenge a))
                    (AList.update ''credentialId'' (JStr (a_CredentialID a))
                      (AList.update ''passkeyLabel'' (JStr (a_PasskeyLabel a)) payload)))
            | TypeKeyApprove \<Rightarrow>
                AList.update ''keyFingerprint'' (JStr (a_KeyFingerprint a))
                  (AList.update ''keyLabel'' (JStr (a_KeyLabel a)) payload))
      in (a_AccountID a, JObj payload))"

definition WSChannel_Resolved :: "action \<Rightarrow> string \<times> json" where
  "WSChannel_Resolved a =
     (a_AccountID a, JObj [(''type'', JStr ''sign:resolved''), (''actionId'', JStr (a_ID a))])"

section \<open>HTTP handlers\<close>

definition writeErr :: "int \<Rightarrow> string \<Rightarrow> http_resp" where
  "writeErr status msg = apierr_Write status msg"

definition status_str :: "act_status \<Rightarrow> string" where
  "status_str st = (case st of ActPending \<Rightarrow> ''pending'' | ActCompleted \<Rightarrow> ''completed''
     | ActExpired \<Rightarrow> ''expired'' | ActDenied \<Rightarrow> ''denied'')"

definition act_lookup :: "string \<Rightarrow> string \<Rightarrow> approval_store \<Rightarrow> http_resp + action" where
  "act_lookup accountID actionId s =
     (case as_Get actionId s of
        None \<Rightarrow> Inl (writeErr 404 ''Action not found'')
      | Some a \<Rightarrow> if a_AccountID a \<noteq> accountID then Inl (writeErr 403 ''Access denied'') else Inr a)"

definition writeClaimConflict :: "claim_result \<Rightarrow> http_resp" where
  "writeClaimConflict res =
     (if \<not> cr_Found res then writeErr 404 ''Action not found''
      else writeErr 409 (''Action is already '' @ (case cr_Status res of None \<Rightarrow> [] | Some st \<Rightarrow> status_str st)))"

definition jsonString :: "json \<Rightarrow> string" where
  "jsonString raw = (case raw of JStr s \<Rightarrow> s | _ \<Rightarrow> [])"

definition b64urlField :: "(string, json) gomap \<Rightarrow> string \<Rightarrow> byte list option" where
  "b64urlField body key =
     (case map_of body key of
        None \<Rightarrow> None
      | Some raw \<Rightarrow> if jsonString raw = [] then None else RawURL_Decode (jsonString raw))"

definition rawStringField :: "(string, json) gomap \<Rightarrow> string \<Rightarrow> byte list option" where
  "rawStringField body key =
     (case map_of body key of
        None \<Rightarrow> None
      | Some raw \<Rightarrow> if jsonString raw = [] then None else Some (bytes_of (jsonString raw)))"

definition actionView :: "action \<Rightarrow> json" where
  "actionView a =
     (let v = [(''id'', JStr (a_ID a)), (''accountId'', JStr (a_AccountID a)),
               (''type'', JStr (type_str (a_Type a))), (''status'', JStr (status_str (a_Status a))),
               (''createdAt'', JNum (a_CreatedAt a div Millisecond)),
               (''expiresAt'', JNum (a_ExpiresAt a div Millisecond)),
               (''context'', Context_MarshalJSON (a_Context a))];
          v = put_nonempty ''redirectTo'' (a_RedirectTo a) v;
          v = (case a_Type a of
              TypeWebAuthnSign \<Rightarrow>
                put_nonempty ''passkeyLabel'' (a_PasskeyLabel a)
                  (AList.update ''userVerification'' (JStr (a_UserVerification a))
                    (AList.update ''rpId'' (JStr (a_RpID a))
                      (AList.update ''challenge'' (JStr (a_Challenge a))
                        (AList.update ''credentialId'' (JStr (a_CredentialID a)) v))))
            | TypeKeyApprove \<Rightarrow>
                AList.update ''keyFingerprint'' (JStr (a_KeyFingerprint a))
                  (AList.update ''keyLabel'' (JStr (a_KeyLabel a)) v))
      in JObj v)"

definition actions_get :: "string \<Rightarrow> string \<Rightarrow> approval_store \<Rightarrow> http_resp" where
  "actions_get accountID actionId s =
     (case act_lookup accountID actionId s of Inl e \<Rightarrow> e | Inr a \<Rightarrow> (200, actionView a))"

text \<open>The assertion of the request body, after all checks that precede the claim.\<close>

definition sign_body :: "action \<Rightarrow> (string, json) gomap \<Rightarrow> http_resp + sign_response" where
  "sign_body a body =
     (case (b64urlField body ''authenticatorData'', b64urlField body ''signature'',
            rawStringField body ''clientDataJSON'') of
        (Some authData, Some sig, Some cdj) \<Rightarrow>
          if a_UserVerification a = ''required'' \<and> \<not> IsUserVerified authData
          then Inl (writeErr 400 ''User verification required'')
          else Inr \<lparr>rs_AuthenticatorData = authData, rs_Signature = sig, rs_ClientDataJSON = cdj,
                    rs_ActionID = []\<rparr>
      | _ \<Rightarrow> Inl (writeErr 400 ''Missing required fields: authenticatorData, signature, clientDataJSON''))"

definition actions_resolve ::
  "time \<Rightarrow> time \<Rightarrow> string \<Rightarrow> string \<Rightarrow> (string, json) gomap \<Rightarrow> (approval_store \<Rightarrow> approval_store) \<Rightarrow>
   approval_store \<Rightarrow> http_resp \<times> approval_store"
where
  "actions_resolve now at accountID actionId body env s =
     (case act_lookup accountID actionId s of
        Inl e \<Rightarrow> (e, s)
      | Inr a \<Rightarrow>
          let s = env s; granted = (200, JObj [(''redirectTo'', JStr (a_RedirectTo a))]) in
          if a_Status a \<noteq> ActPending
          then (writeErr 409 (''Action is already '' @ status_str (a_Status a)), s)
          else case a_Type a of
                 TypeWebAuthnSign \<Rightarrow>
                   (case sign_body a body of
                      Inl e \<Rightarrow> (e, s)
                    | Inr resp \<Rightarrow>
                        let (res, s) = as_ResolveSign now at (a_ID a) resp s
                        in if cr_Won res then (granted, s) else (writeClaimConflict res, s))
               | TypeKeyApprove \<Rightarrow>
                   (let (res, s) = as_ResolveKey now at (a_ID a) s
                    in if cr_Won res then (granted, s) else (writeClaimConflict res, s)))"

definition actions_deny ::
  "time \<Rightarrow> time \<Rightarrow> string \<Rightarrow> string \<Rightarrow> (approval_store \<Rightarrow> approval_store) \<Rightarrow> approval_store \<Rightarrow>
   http_resp \<times> approval_store"
where
  "actions_deny now at accountID actionId env s =
     (case act_lookup accountID actionId s of
        Inl e \<Rightarrow> (e, s)
      | Inr a \<Rightarrow>
          let (res, s) = as_Deny now at (a_ID a) (env s) in
          (if cr_Won res \<or> (cr_Found res \<and> (cr_Status res = Some ActDenied \<or> cr_Status res = Some ActExpired))
           then (200, JObj [(''status'', JStr (case cr_Status res of None \<Rightarrow> [] | Some st \<Rightarrow> status_str st))])
           else writeClaimConflict res,
           s))"


section \<open>Properties of the request\<close>

text \<open>
  A sign request reaches the browser of the requesting account unchanged. The pending action
  and the notification carry the credential and a challenge that decodes to exactly the bytes to
  be signed, the user-verification policy defaults to \<open>required\<close>, and the message is addressed to
  the account that requested the signature.
\<close>

theorem sign_request_faithful:
  fixes req :: sign_request and b :: broker and newID baseURL accountID redirectTo :: string and now :: time
    and cx :: sign_context
  defines "a \<equiv> fst (RequestSign_begin newID now baseURL accountID req cx redirectTo b)"
  shows "Std_Decode (a_Challenge a) = Some (sr_DataToSign req)
    \<and> a_AccountID a = accountID \<and> a_ID a = newID \<and> a_ExpiresAt a = now + ActionTTL
    \<and> a_UserVerification a = (if sr_UserVerification req = [] then ''required'' else sr_UserVerification req)
    \<and> (\<exists>payload. WSChannel_Notify a link = (accountID, JObj payload)
        \<and> map_of payload ''challenge'' = Some (JStr (Std_Encode (sr_DataToSign req)))
        \<and> map_of payload ''credentialId'' = Some (JStr (sr_CredentialID req))
        \<and> map_of payload ''actionId'' = Some (JStr newID)
        \<and> map_of payload ''actionType'' = Some (JStr ''webauthn-sign''))"
proof -
  have a: "a = new_action newID now (sign_params accountID req cx redirectTo)"
    by (simp add: a_def RequestSign_begin_def as_Create_def Let_def)
  have "\<exists>payload. WSChannel_Notify a link = (accountID, JObj payload)
      \<and> map_of payload ''challenge'' = Some (JStr (Std_Encode (sr_DataToSign req)))
      \<and> map_of payload ''credentialId'' = Some (JStr (sr_CredentialID req))
      \<and> map_of payload ''actionId'' = Some (JStr newID)
      \<and> map_of payload ''actionType'' = Some (JStr ''webauthn-sign'')"
    unfolding a WSChannel_Notify_def
    by (simp add: new_action_def sign_params_def type_str_def put_hostkey_def gomap_simps Let_def
        split: option.split)
  then show ?thesis
    by (simp add: a new_action_def sign_params_def orDefault_def Std_roundtrip)
qed

lemma resolve_key_origin:
  assumes "act_wf s" "CallResolveKey k \<in> set (as_trace (act_step op s))"
  shows "CallResolveKey k \<in> set (as_trace s) \<or> (\<exists>a. as_Get k s = Some a \<and> a_Status a = ActPending \<and> a_Type a = TypeKeyApprove)"
proof -
  have em: "CallResolveKey k \<in> set (as_trace (emitResolved at a o' r s)) \<longleftrightarrow> CallResolveKey k \<in> set (as_trace s)"
    "CallResolveKey k \<in> set (as_trace (as_reject a e s)) \<longleftrightarrow> CallResolveKey k \<in> set (as_trace s)" for at a o' r s e
    by (auto simp: emitResolved_def as_reject_def Let_def)
  have fo: "CallResolveKey k \<in> set (as_trace (fold (\<lambda>a s. emitResolved at a o' r (as_reject a e s)) as s))
      \<longleftrightarrow> CallResolveKey k \<in> set (as_trace s)" for at o' r e as s
    by (induction as arbitrary: s) (simp_all add: em)
  show ?thesis
  proof (cases op)
    case (OpKey now at aid)
    show ?thesis
    proof (cases rule: takePending_cases [of now at aid "Some TypeKeyApprove" ActCompleted s])
      case (won a)
      with OpKey assms act_wf_ID [OF assms(1) won(1)] show ?thesis
        by (auto simp: claim_forms answer_defs em as_Get_def split: if_splits)
    qed (use OpKey assms in \<open>auto simp: claim_forms em\<close>)
  next
    case (OpSign now at aid resp)
    with assms(2) show ?thesis
      by (cases rule: takePending_cases [of now at aid "Some TypeWebAuthnSign" ActCompleted s])
         (auto simp: claim_forms answer_defs em split: if_splits)
  next
    case (OpDeny now at aid)
    with assms(2) show ?thesis
      by (cases rule: takePending_cases [of now at aid None ActDenied s])
         (auto simp: claim_forms answer_defs em split: if_splits)
  qed (use assms(2) in \<open>auto simp: as_Create_def as_CancelForConnection_def as_Sweep_def fo Let_def
      OnCreated_def OnResolved_def\<close>)
qed


lemma sign_waits_run:
  assumes "waits_or_answered k a s" "act_ok a" "a_Type a = TypeWebAuthnSign" "k \<notin> set (created_ids ops)"
    and "CallResolveKey k \<notin> set (as_trace s)"
  shows "CallResolveKey k \<notin> set (as_trace (act_run ops s))"
  using assms(1,4,5)
proof (induction ops arbitrary: s)
  case (Cons op ops)
  then have nc: "\<not> act_creates op k" "k \<notin> set (created_ids ops)" using created_ids_Cons [of op ops] by auto
  have "CallResolveKey k \<notin> set (as_trace (act_step op s))"
    using Cons.prems assms(3) resolve_key_origin [of s k op]
    by (auto simp: waits_or_answered_def as_pending_def split: if_splits option.splits)
  moreover have "waits_or_answered k a (act_step op s)"
    using Cons.prems nc assms(2) by (intro waits_step)
  ultimately show ?case using Cons.IH nc by simp
qed simp

lemma unique_answer:
  assumes "settle_count k s = 1" "CallResolveKey k \<notin> set (as_trace s)"
  shows "\<exists>!w. sign_ready k s w"
proof -
  from assms(1) obtain e where e: "filter (\<lambda>e. settles e = Some k) (as_trace s) = [e]"
    by (auto simp: settle_count_def length_Suc_conv)
  then have "{x \<in> set (as_trace s). settles x = Some k} = {e}" by (simp flip: set_filter)
  then have only: "x \<in> set (as_trace s) \<and> settles x = Some k \<longleftrightarrow> x = e" for x by blast
  then have "settles e = Some k" "e \<noteq> CallResolveKey k" using assms(2) by auto
  then consider r where "e = CallResolveSign k r" | x where "e = CallReject k x" by (cases e) auto
  then show ?thesis
  proof cases
    case 1
    with only show ?thesis
      by (intro ex1I [of _ "WakeResult r"], force, elim sign_ready.elims(2), force, force)
  next
    case 2
    with only show ?thesis
      by (intro ex1I [of _ "WakeReject x"], force, elim sign_ready.elims(2), force, force)
  qed
qed

text \<open>
  C14: a signer never waits forever. After \<open>RequestSign\<close> registered its request with a fresh id,
  and whatever happened until a sweep at or after the deadline, exactly one case of the signer's
  \<open>select\<close> is ready: one assertion, or one rejection, never both and never none.
\<close>

theorem sign_request_unblocks:
  fixes newID baseURL accountID redirectTo :: string and t :: time and b :: broker and req :: sign_request and cx :: sign_context
  assumes "br_store b = act_run ops NewStore" and "distinct (created_ids ops)"
    and "newID \<notin> set (created_ids ops)" and "newID \<notin> set (created_ids ops')" and "t + ActionTTL \<le> now"
  defines "b1 \<equiv> snd (RequestSign_begin newID t baseURL accountID req cx redirectTo b)"
  shows "\<exists>!w. sign_ready newID (act_run (ops' @ [OpSweep now at]) (br_store b1)) w"
proof -
  let ?p = "sign_params accountID req cx redirectTo"
  let ?a = "new_action newID t ?p"
  have st: "br_store b1 = act_step (OpCreate newID t ?p) (br_store b)"
    by (simp add: b1_def RequestSign_begin_def notify_all_def as_Create_def Let_def)
  have hist: "act_hist (set (created_ids ops)) (br_store b)"
    using act_hist_run [OF act_hist_New assms(2)] assms(1) by simp
  then have s0: "act_wf (br_store b)" "settle_count newID (br_store b) = 0"
    using assms(3) by (auto simp: act_hist_def)
  have ok: "act_ok ?a" "a_Type ?a = TypeWebAuthnSign" by (simp_all add: act_ok_def sign_params_def new_action_def)
  have w: "waits_or_answered newID ?a (br_store b1)"
    using act_wf_step [OF s0(1), of "OpCreate newID t ?p"] s0(2)
    by (simp add: st waits_or_answered_def as_Create_def Let_def pending_iff as_Get_def gomap_simps)
  have "CallResolveKey newID \<notin> set (as_trace (br_store b))"
    using s0(2) by (auto simp: settle_count_def filter_empty_conv)
  then have nk: "CallResolveKey newID \<notin> set (as_trace (br_store b1))"
    by (auto simp: st as_Create_def Let_def)
  let ?s = "act_run ops' (br_store b1)"
  have w': "waits_or_answered newID ?a ?s" using w ok(1) assms(4) by (rule waits_run)
  have "\<not> as_pending (as_Sweep now at ?s) newID"
    using w' assms(5) sweep_get [of ?s now at newID]
    by (auto simp: waits_or_answered_def pending_iff as_Get_def sweep_action_def overdue_def
        split: option.splits if_splits)
  moreover have "waits_or_answered newID ?a (act_step (OpSweep now at) ?s)"
    by (rule waits_step [OF w' ok(1)]) simp
  ultimately have "settle_count newID (act_run (ops' @ [OpSweep now at]) (br_store b1)) = 1"
    by (simp add: waits_or_answered_def)
  moreover have "CallResolveKey newID \<notin> set (as_trace (act_run (ops' @ [OpSweep now at]) (br_store b1)))"
    by (rule sign_waits_run [OF w ok]) (use assms(4) nk in simp_all)
  ultimately show ?thesis by (rule unique_answer)
qed

definition ex_req :: sign_request where
  "ex_req = \<lparr>sr_CredentialID = ''cred'', sr_DataToSign = [1, 2, 3], sr_RpID = ''rp'', sr_UserVerification = [],
     sr_PasskeyLabel = ''p'', sr_ConnectionID = ''conn1''\<rparr>"

theorem sign_request_unblocks_witness:
  "\<exists>!w. sign_ready ''a2'' (act_run ([OpDeny 7 7 ''a2''] @ [OpSweep (61 * 1000000000) 0])
     (br_store (snd (RequestSign_begin ''a2'' 5 ''https://h'' ''acc1'' ex_req (cp_Context ex_params) []
        (NewBroker (act_run [OpCreate ''a1'' 0 ex_params] NewStore) 2))))) w"
  by (rule sign_request_unblocks [where ops = "[OpCreate ''a1'' 0 ex_params]"])
     (simp_all add: NewBroker_def ActionTTL_def)


section \<open>Properties of the handlers\<close>

lemma act_lookup_Inr:
  "act_lookup accountID actionId s = Inr a \<longleftrightarrow> as_Get actionId s = Some a \<and> a_AccountID a = accountID"
  by (auto simp: act_lookup_def split: option.splits)

lemma sign_body_Inr:
  "sign_body a body = Inr resp \<Longrightarrow>
     b64urlField body ''authenticatorData'' = Some (rs_AuthenticatorData resp)
     \<and> (a_UserVerification a = ''required'' \<longrightarrow> IsUserVerified (rs_AuthenticatorData resp))"
  by (auto simp: sign_body_def split: option.splits if_splits)

text \<open>
  C4: only its owner approves a request. If the resolve handler makes the store run an approval,
  then the request is the one named in the URL, it belongs to the authenticated account, it is
  pending and before its deadline when claimed, the handler answers 200, and a request that
  demands user verification is approved only with an assertion whose user-verified flag is set.
\<close>

theorem resolve_only_by_owner:
  assumes "act_wf s" and "act_wf (env s)"
    and "approve_count k (snd (actions_resolve now at accountID actionId body env s)) \<noteq> approve_count k (env s)"
    and "approve_count k (env s) = approve_count k s"
  shows "k = actionId \<and> fst (fst (actions_resolve now at accountID actionId body env s)) = 200
    \<and> (\<exists>a. as_Get actionId s = Some a \<and> a_AccountID a = accountID
        \<and> (a_Type a = TypeWebAuthnSign \<and> a_UserVerification a = ''required'' \<longrightarrow>
            (\<exists>authData. b64urlField body ''authenticatorData'' = Some authData \<and> IsUserVerified authData)))
    \<and> (\<exists>a. as_Get actionId (env s) = Some a \<and> a_Status a = ActPending \<and> now < a_ExpiresAt a)"
proof -
  obtain a where lk: "act_lookup accountID actionId s = Inr a"
    using assms(3,4) by (cases "act_lookup accountID actionId s") (auto simp: actions_resolve_def)
  then have get: "as_Get actionId s = Some a" "a_AccountID a = accountID" by (simp_all add: act_lookup_Inr)
  have aid: "a_ID a = actionId" using act_wf_ID [OF assms(1)] get(1) by (simp add: as_Get_def)
  have pend: "a_Status a = ActPending"
    using assms(3) lk by (auto simp: actions_resolve_def Let_def split: if_splits)
  show ?thesis
  proof (cases "a_Type a")
    case TypeKeyApprove
    let ?r = "as_ResolveKey now at actionId (env s)"
    have "snd (actions_resolve now at accountID actionId body env s) = snd ?r"
      using lk pend aid TypeKeyApprove by (simp add: actions_resolve_def Let_def case_prod_beta)
    then have won: "cr_Won (fst ?r) \<and> k = actionId"
      using assms(3) by (intro approve_claim [OF assms(2) claim_forms(2)]) (simp_all add: answer_defs)
    with lk pend aid TypeKeyApprove get won_key [of now at actionId "env s"] show ?thesis
      by (auto simp: actions_resolve_def Let_def case_prod_beta pending_iff as_Get_def)
  next
    case TypeWebAuthnSign
    obtain resp where body: "sign_body a body = Inr resp"
      using assms(3) lk pend TypeWebAuthnSign
      by (cases "sign_body a body") (auto simp: actions_resolve_def Let_def)
    let ?r = "as_ResolveSign now at actionId resp (env s)"
    have "snd (actions_resolve now at accountID actionId body env s) = snd ?r"
      using lk pend aid TypeWebAuthnSign body by (simp add: actions_resolve_def Let_def case_prod_beta)
    then have won: "cr_Won (fst ?r) \<and> k = actionId"
      using assms(3) by (intro approve_claim [OF assms(2) claim_forms(1)]) (simp_all add: answer_defs)
    with lk pend aid TypeWebAuthnSign get body won_sign [of now at actionId resp "env s"] sign_body_Inr [OF body]
    show ?thesis
      by (auto simp: actions_resolve_def Let_def case_prod_beta pending_iff as_Get_def)
  qed
qed

theorem resolve_only_by_owner_witness:
  "let s = act_step (OpCreate ''a1'' 0 ex_params) NewStore;
       r = actions_resolve 5 5 ''acc1'' ''a1'' [] (\<lambda>s. s) s
   in approve_count ''a1'' (snd r) \<noteq> approve_count ''a1'' s \<and> fst (fst r) = 200"
proof -
  let ?s = "act_step (OpCreate ''a1'' 0 ex_params) NewStore"
  have wf: "act_wf ?s" by (intro act_wf_step) simp
  have "approve_count ''a1'' (snd (actions_resolve 5 5 ''acc1'' ''a1'' [] (\<lambda>s. s) ?s)) \<noteq> approve_count ''a1'' ?s"
    by (simp add: act_eval approve_count_def actions_resolve_def act_lookup_def as_Get_def)
  with resolve_only_by_owner [of ?s "\<lambda>s. s" "''a1''" 5 5 "''acc1''" "''a1''" "[]"] wf
  show ?thesis by (simp only: Let_def simp_thms)
qed

lemma deny_status:
  assumes "as_Deny now at aid s = (res, s')"
  shows "if cr_Found res
    then \<exists>a. as_Get aid s' = Some a \<and> cr_Status res = Some (a_Status a) \<and> a_Status a \<noteq> ActPending
           \<and> (cr_Won res \<longrightarrow> a_Status a = ActDenied)
    else as_Get aid s' = None \<and> \<not> cr_Won res"
  using assms
  by (cases rule: takePending_cases [of now at aid None ActDenied s])
     (auto simp: claim_forms as_Get_def gomap_simps)

text \<open>
  A denial reports only what the store asserts. When the deny handler answers 200, the
  request is denied or expired in the store, under the very status the response names; a 409 is
  given only for a request that was really approved, so a denier is never told that an approved
  signature was denied.
\<close>

theorem deny_reports_truth:
  assumes "act_wf s"
  shows "(fst (actions_deny now at accountID actionId env s) = (200, JObj [(''status'', JStr x)]) \<longrightarrow>
            (\<exists>a. as_Get actionId (snd (actions_deny now at accountID actionId env s)) = Some a
               \<and> status_str (a_Status a) = x \<and> a_Status a \<in> {ActDenied, ActExpired}))
    \<and> (fst (fst (actions_deny now at accountID actionId env s)) = 409 \<longrightarrow>
            (\<exists>a. as_Get actionId (snd (actions_deny now at accountID actionId env s)) = Some a
               \<and> a_Status a = ActCompleted))"
proof (cases "act_lookup accountID actionId s")
  case (Inl e)
  then have "e = writeErr 404 ''Action not found'' \<or> e = writeErr 403 ''Access denied''"
    by (auto simp: act_lookup_def split: option.splits if_splits)
  with Inl show ?thesis by (auto simp: actions_deny_def writeErr_def apierr_Write_def)
next
  case (Inr a)
  then have aid: "a_ID a = actionId"
    using act_wf_ID [OF assms] by (auto simp: act_lookup_Inr as_Get_def)
  obtain res s' where d: "as_Deny now at actionId (env s) = (res, s')" by (cases "as_Deny now at actionId (env s)")
  from deny_status [OF d] Inr aid d show ?thesis
    by (auto simp: actions_deny_def writeClaimConflict_def writeErr_def apierr_Write_def split: if_splits)
       (metis act_status.exhaust)+
qed

theorem deny_reports_truth_witness:
  "let s = act_run [OpCreate ''a1'' 0 ex_params, OpKey 5 5 ''a1''] NewStore
   in fst (fst (actions_deny 6 6 ''acc1'' ''a1'' (\<lambda>s. s) s)) = 409
      \<and> (\<exists>a. as_Get ''a1'' (snd (actions_deny 6 6 ''acc1'' ''a1'' (\<lambda>s. s) s)) = Some a \<and> a_Status a = ActCompleted)"
proof -
  let ?s = "act_run [OpCreate ''a1'' 0 ex_params, OpKey 5 5 ''a1''] NewStore"
  have "act_wf ?s" by (intro act_wf_run) simp
  moreover have "fst (fst (actions_deny 6 6 ''acc1'' ''a1'' (\<lambda>s. s) ?s)) = 409"
    by (simp add: act_eval actions_deny_def act_lookup_def as_Get_def writeClaimConflict_def writeErr_def apierr_Write_def)
  ultimately show ?thesis
    using deny_reports_truth [of ?s 6 6 "''acc1''" "''a1''" "\<lambda>s. s"] by (simp only: Let_def simp_thms)
qed

end
