(* ===== verification/Ephemeral_Store.thy ===== *)
theory Ephemeral_Store
  imports Prelude
begin

text \<open>
  \<open>src/internal/ephemeral/store.go\<close>: the generic TTL map behind the WebAuthn challenges, the
  step-up tokens and the bearer-introspection cache. The state keeps the map, the insertion
  order used for FIFO eviction, the default lifetime and the capacity (not positive:
  unbounded). Every operation that reads the clock takes the instant as its first argument.
  The locale \<open>ttl_store\<close> is the contract the client components rely on; it is interpreted on
  this store at the end of the theory.
\<close>

section \<open>State and operations\<close>

datatype 'v entry = Entry (entry_value: 'v) (expiresAt: time)

record ('k, 'v) eph_store =
  eph_m :: "('k, 'v entry) gomap"
  eph_order :: "'k list"
  eph_ttl :: duration
  eph_cap :: int

definition eph_New :: "duration \<Rightarrow> int \<Rightarrow> ('k, 'v) eph_store" where
  "eph_New ttl capacity = \<lparr>eph_m = [], eph_order = [], eph_ttl = ttl, eph_cap = capacity\<rparr>"

definition eph_deleteLocked :: "'k \<Rightarrow> ('k, 'v) eph_store \<Rightarrow> ('k, 'v) eph_store" where
  "eph_deleteLocked k s =
     (case map_of (eph_m s) k of
        None \<Rightarrow> s
      | Some _ \<Rightarrow> s\<lparr>eph_m := AList.delete k (eph_m s), eph_order := remove1 k (eph_order s)\<rparr>)"

text \<open>The eviction loop pops keys off the order until one of them was still mapped.\<close>

fun eph_evict_loop :: "'k list \<Rightarrow> ('k, 'v entry) gomap \<Rightarrow> 'k list \<times> ('k, 'v entry) gomap" where
  "eph_evict_loop [] m = ([], m)"
| "eph_evict_loop (k # ks) m =
     (case map_of m k of
        None \<Rightarrow> eph_evict_loop ks m
      | Some _ \<Rightarrow> (ks, AList.delete k m))"

definition eph_evictOldestLocked :: "('k, 'v) eph_store \<Rightarrow> ('k, 'v) eph_store" where
  "eph_evictOldestLocked s =
     (let (order', m') = eph_evict_loop (eph_order s) (eph_m s)
      in s\<lparr>eph_m := m', eph_order := order'\<rparr>)"

text \<open>The first guard of \<open>PutTTL\<close>: at capacity, a new key evicts the oldest insertion.\<close>

definition eph_make_room :: "'k \<Rightarrow> ('k, 'v) eph_store \<Rightarrow> ('k, 'v) eph_store" where
  "eph_make_room k s =
     (if map_of (eph_m s) k = None \<and> 0 < eph_cap s \<and> eph_cap s \<le> int (length (eph_m s))
      then eph_evictOldestLocked s else s)"

definition eph_PutTTL :: "time \<Rightarrow> 'k \<Rightarrow> 'v \<Rightarrow> duration \<Rightarrow> ('k, 'v) eph_store \<Rightarrow> ('k, 'v) eph_store"
where
  "eph_PutTTL now k v ttl s =
     (let ttl = (if ttl \<le> 0 then eph_ttl s else ttl);
          s = eph_make_room k s;
          s = (if map_of (eph_m s) k = None then s\<lparr>eph_order := eph_order s @ [k]\<rparr> else s)
      in s\<lparr>eph_m := AList.update k (Entry v (now + ttl)) (eph_m s)\<rparr>)"

definition eph_Put :: "time \<Rightarrow> 'k \<Rightarrow> 'v \<Rightarrow> ('k, 'v) eph_store \<Rightarrow> ('k, 'v) eph_store" where
  "eph_Put now k v s = eph_PutTTL now k v (eph_ttl s) s"

definition eph_Get :: "time \<Rightarrow> 'k \<Rightarrow> ('k, 'v) eph_store \<Rightarrow> 'v option \<times> ('k, 'v) eph_store" where
  "eph_Get now k s =
     (case map_of (eph_m s) k of
        None \<Rightarrow> (None, s)
      | Some e \<Rightarrow>
          if \<not> expiresAt e > now then (None, eph_deleteLocked k s)
          else (Some (entry_value e), s))"

definition eph_Consume :: "time \<Rightarrow> 'k \<Rightarrow> ('k, 'v) eph_store \<Rightarrow> 'v option \<times> ('k, 'v) eph_store"
where
  "eph_Consume now k s =
     (case map_of (eph_m s) k of
        None \<Rightarrow> (None, s)
      | Some e \<Rightarrow>
          (if \<not> expiresAt e > now then None else Some (entry_value e), eph_deleteLocked k s))"

definition eph_Delete :: "'k \<Rightarrow> ('k, 'v) eph_store \<Rightarrow> ('k, 'v) eph_store" where
  "eph_Delete k s = eph_deleteLocked k s"

definition eph_Len :: "('k, 'v) eph_store \<Rightarrow> nat" where
  "eph_Len s = length (eph_m s)"

text \<open>The sweep loop over the order: expired keys leave the map, mapped ones are kept.\<close>

fun eph_sweep_loop :: "time \<Rightarrow> 'k list \<Rightarrow> ('k, 'v entry) gomap \<Rightarrow> 'k list \<times> ('k, 'v entry) gomap"
where
  "eph_sweep_loop now [] m = ([], m)"
| "eph_sweep_loop now (k # ks) m =
     (case map_of m k of
        None \<Rightarrow> eph_sweep_loop now ks m
      | Some e \<Rightarrow>
          if \<not> expiresAt e > now then eph_sweep_loop now ks (AList.delete k m)
          else (let (kept, m') = eph_sweep_loop now ks m in (k # kept, m')))"

definition eph_Sweep :: "time \<Rightarrow> ('k, 'v) eph_store \<Rightarrow> ('k, 'v) eph_store" where
  "eph_Sweep now s =
     (let (kept, m') = eph_sweep_loop now (eph_order s) (eph_m s)
      in s\<lparr>eph_m := m', eph_order := kept\<rparr>)"

declare eph_New_def [store_defs] eph_deleteLocked_def [store_defs] eph_Delete_def [store_defs]
  eph_Get_def [store_defs] eph_Consume_def [store_defs] eph_Put_def [store_defs]

section \<open>Invariant\<close>

text \<open>
  The order lists exactly the mapped keys, each once, and a positive capacity bounds the map.
\<close>

definition eph_inv :: "('k, 'v) eph_store \<Rightarrow> bool" where
  "eph_inv s \<longleftrightarrow>
     gm_wf (eph_m s) \<and> distinct (eph_order s) \<and> set (eph_order s) = fst ` set (eph_m s) \<and>
     (0 < eph_cap s \<longrightarrow> int (length (eph_m s)) \<le> eph_cap s)"

text \<open>What a reader at instant \<open>now\<close> can obtain for a key.\<close>

definition eph_live :: "time \<Rightarrow> ('k, 'v) eph_store \<Rightarrow> 'k \<Rightarrow> 'v option" where
  "eph_live now s k =
     (case map_of (eph_m s) k of
        None \<Rightarrow> None
      | Some e \<Rightarrow> if now < expiresAt e then Some (entry_value e) else None)"

lemma eph_inv_New: "eph_inv (eph_New ttl capacity)"
  by (simp add: eph_inv_def eph_New_def)

lemma eph_inv_deleteLocked: "eph_inv s \<Longrightarrow> eph_inv (eph_deleteLocked k s)"
  by (auto simp: eph_inv_def eph_deleteLocked_def gomap_simps set_remove1_eq
      dest: gm_key_of_get split: option.splits)

lemma eph_live_deleteLocked: "eph_live t (eph_deleteLocked k s) = (eph_live t s)(k := None)"
  by (auto simp: eph_live_def eph_deleteLocked_def gomap_simps fun_eq_iff split: option.splits)

lemma eph_deleteLocked_params [simp]:
  "eph_ttl (eph_deleteLocked k s) = eph_ttl s" "eph_cap (eph_deleteLocked k s) = eph_cap s"
  by (auto simp: eph_deleteLocked_def split: option.splits)

subsection \<open>Eviction\<close>

text \<open>Under the invariant the loop drops the head of the order and its map entry.\<close>

lemma eph_evictOldest_eq:
  assumes "eph_inv s"
  shows "eph_evictOldestLocked s =
    (case eph_order s of
       [] \<Rightarrow> s
     | k # ks \<Rightarrow> s\<lparr>eph_m := AList.delete k (eph_m s), eph_order := ks\<rparr>)"
proof (cases "eph_order s")
  case Nil
  then show ?thesis by (simp add: eph_evictOldestLocked_def)
next
  case (Cons k ks)
  with assms have "k \<in> fst ` set (eph_m s)"
    by (auto simp: eph_inv_def)
  then obtain e where "map_of (eph_m s) k = Some e"
    by (auto simp: gm_get_ex)
  with Cons show ?thesis by (simp add: eph_evictOldestLocked_def)
qed

lemma eph_evictOldest_inv:
  assumes "eph_inv s"
  shows "eph_inv (eph_evictOldestLocked s)"
proof (cases "eph_order s")
  case Nil
  with assms show ?thesis by (simp add: eph_evictOldest_eq)
next
  case (Cons k ks)
  with assms have "set ks = fst ` set (eph_m s) - {k}"
    unfolding eph_inv_def by (metis Diff_insert_absorb distinct.simps(2) list.simps(15))
  moreover have "length (AList.delete k (eph_m s)) \<le> length (eph_m s)"
    by (rule gm_length_delete_le)
  ultimately show ?thesis
    using assms Cons by (auto simp: eph_evictOldest_eq eph_inv_def gomap_simps)
qed

lemma eph_evictOldest_length:
  assumes "eph_inv s" and "eph_m s \<noteq> []"
  shows "length (eph_m (eph_evictOldestLocked s)) = length (eph_m s) - 1"
proof -
  from assms obtain k ks where "eph_order s = k # ks"
    by (cases "eph_order s") (auto simp: eph_inv_def)
  with assms show ?thesis
    by (auto simp: eph_evictOldest_eq eph_inv_def gomap_simps)
qed

lemma eph_evictOldest_live:
  assumes "eph_inv s" and "eph_live t (eph_evictOldestLocked s) k = Some v"
  shows "eph_live t s k = Some v"
  using assms
  by (auto simp: eph_evictOldest_eq eph_live_def gomap_simps split: list.splits option.splits if_splits)

lemma eph_evictOldest_params [simp]:
  "eph_ttl (eph_evictOldestLocked s) = eph_ttl s" "eph_cap (eph_evictOldestLocked s) = eph_cap s"
  by (simp_all add: eph_evictOldestLocked_def split: prod.split)

subsection \<open>Insertion\<close>

lemma eph_make_room_params [simp]:
  "eph_ttl (eph_make_room k s) = eph_ttl s" "eph_cap (eph_make_room k s) = eph_cap s"
  by (simp_all add: eph_make_room_def)

lemma eph_make_room_inv: "eph_inv s \<Longrightarrow> eph_inv (eph_make_room k s)"
  by (simp add: eph_make_room_def eph_evictOldest_inv)

lemma eph_make_room_live:
  "eph_inv s \<Longrightarrow> eph_live t (eph_make_room k s) k' = Some v \<Longrightarrow> eph_live t s k' = Some v"
  by (auto simp: eph_make_room_def dest: eph_evictOldest_live split: if_splits)

lemma eph_make_room_space:
  assumes "eph_inv s" "map_of (eph_m (eph_make_room k s)) k = None" "0 < eph_cap s"
  shows "int (length (eph_m (eph_make_room k s))) < eph_cap s"
proof (cases "map_of (eph_m s) k = None \<and> eph_cap s \<le> int (length (eph_m s))")
  case True
  then have "eph_m s \<noteq> []" using assms(3) by auto
  with assms True show ?thesis
    by (auto simp: eph_make_room_def eph_evictOldest_length eph_inv_def)
next
  case False
  with assms show ?thesis by (auto simp: eph_make_room_def)
qed

lemma eph_PutTTL_fields:
  "eph_m (eph_PutTTL now k v ttl s) =
     AList.update k (Entry v (now + (if ttl \<le> 0 then eph_ttl s else ttl))) (eph_m (eph_make_room k s))"
  "eph_order (eph_PutTTL now k v ttl s) =
     eph_order (eph_make_room k s) @ (if map_of (eph_m (eph_make_room k s)) k = None then [k] else [])"
  "eph_ttl (eph_PutTTL now k v ttl s) = eph_ttl s"
  "eph_cap (eph_PutTTL now k v ttl s) = eph_cap s"
  by (simp_all add: eph_PutTTL_def Let_def)

lemma eph_inv_PutTTL:
  assumes "eph_inv s"
  shows "eph_inv (eph_PutTTL now k v ttl s)"
  using eph_make_room_inv [OF assms, of k] eph_make_room_space [OF assms, of k]
  by (auto simp: eph_inv_def eph_PutTTL_fields gomap_simps gm_get_None dest: gm_key_of_get)

lemma eph_PutTTL_live_same:
  "eph_live t (eph_PutTTL now k v ttl s) k =
     (if t < now + (if ttl \<le> 0 then eph_ttl s else ttl) then Some v else None)"
  by (simp add: eph_live_def eph_PutTTL_fields gomap_simps)

lemma eph_PutTTL_live_make_room:
  "k' \<noteq> k \<Longrightarrow> eph_live t (eph_PutTTL now k v ttl s) k' = eph_live t (eph_make_room k s) k'"
  by (simp add: eph_live_def eph_PutTTL_fields gomap_simps)

lemma eph_PutTTL_live_other:
  assumes "eph_inv s" "k' \<noteq> k" "eph_live t (eph_PutTTL now k v ttl s) k' = Some w"
  shows "eph_live t s k' = Some w"
  using assms by (auto simp: eph_PutTTL_live_make_room dest: eph_make_room_live)

text \<open>Without a capacity nothing is evicted.\<close>

lemma eph_PutTTL_live_unbounded:
  assumes "eph_cap s \<le> 0"
  shows "eph_live t (eph_PutTTL now k v ttl s) =
    (eph_live t s)(k := if t < now + (if ttl \<le> 0 then eph_ttl s else ttl) then Some v else None)"
proof -
  have "eph_make_room k s = s" using assms by (simp add: eph_make_room_def)
  then show ?thesis
    by (auto simp: fun_eq_iff eph_PutTTL_live_same eph_PutTTL_live_make_room)
qed

subsection \<open>Sweeping\<close>

lemma eph_sweep_loop_get:
  "map_of (snd (eph_sweep_loop now ks m)) k =
     (if k \<in> set ks
      then (case map_of m k of None \<Rightarrow> None | Some e \<Rightarrow> if now < expiresAt e then Some e else None)
      else map_of m k)"
  by (induction now ks m rule: eph_sweep_loop.induct)
    (auto simp: gomap_simps split: option.splits prod.splits)

lemma eph_sweep_loop_kept:
  "distinct ks \<Longrightarrow>
     fst (eph_sweep_loop now ks m) =
       filter (\<lambda>k. case map_of m k of None \<Rightarrow> False | Some e \<Rightarrow> now < expiresAt e) ks"
proof (induction now ks m rule: eph_sweep_loop.induct)
  case (2 now k ks m)
  then have "filter (\<lambda>k'. case map_of (AList.delete k m) k' of None \<Rightarrow> False | Some e \<Rightarrow> now < expiresAt e) ks
    = filter (\<lambda>k'. case map_of m k' of None \<Rightarrow> False | Some e \<Rightarrow> now < expiresAt e) ks"
    by (intro filter_cong) (auto simp: gomap_simps)
  with 2 show ?case by (auto split: option.splits prod.splits)
qed simp

lemma eph_sweep_loop_wf: "gm_wf m \<Longrightarrow> gm_wf (snd (eph_sweep_loop now ks m))"
  by (induction now ks m rule: eph_sweep_loop.induct)
    (auto split: option.splits prod.splits)

lemma eph_sweep_loop_length: "length (snd (eph_sweep_loop now ks m)) \<le> length m"
proof (induction now ks m rule: eph_sweep_loop.induct)
  case (2 now k ks m)
  then show ?case
    using gm_length_delete_le [of k m] by (fastforce split: option.splits prod.splits)
qed simp

lemma eph_inv_Sweep:
  assumes "eph_inv s"
  shows "eph_inv (eph_Sweep now s)"
proof -
  let ?m = "snd (eph_sweep_loop now (eph_order s) (eph_m s))"
  let ?ks = "fst (eph_sweep_loop now (eph_order s) (eph_m s))"
  have keys: "set ?ks = fst ` set ?m"
  proof (rule set_eqI)
    fix k
    show "k \<in> set ?ks \<longleftrightarrow> k \<in> fst ` set ?m"
      using assms
      by (auto simp: gm_get_ex eph_sweep_loop_get eph_sweep_loop_kept eph_inv_def
          simp del: image_iff split: option.splits if_splits dest: gm_key_of_get)
  qed
  moreover have "distinct ?ks"
    using assms by (simp add: eph_sweep_loop_kept eph_inv_def)
  moreover have "gm_wf ?m"
    using assms by (intro eph_sweep_loop_wf) (simp add: eph_inv_def)
  moreover have "length ?m \<le> length (eph_m s)"
    by (rule eph_sweep_loop_length)
  ultimately show ?thesis
    using assms by (simp add: eph_Sweep_def eph_inv_def case_prod_beta) linarith
qed

lemma eph_Sweep_params [simp]:
  "eph_ttl (eph_Sweep now s) = eph_ttl s" "eph_cap (eph_Sweep now s) = eph_cap s"
  by (simp_all add: eph_Sweep_def split: prod.split)

lemma eph_Sweep_live:
  assumes "eph_inv s" "now \<le> t"
  shows "eph_live t (eph_Sweep now s) = eph_live t s"
proof
  fix k
  show "eph_live t (eph_Sweep now s) k = eph_live t s k"
    using assms eph_sweep_loop_get [of now "eph_order s" "eph_m s" k]
    by (auto simp: eph_Sweep_def eph_live_def eph_inv_def split: prod.splits option.splits if_splits
        dest: gm_key_of_get)
qed

subsection \<open>Lookup and consumption\<close>

lemma eph_Get_result: "fst (eph_Get now k s) = eph_live now s k"
  by (auto simp: eph_Get_def eph_live_def split: option.splits)

lemma eph_Get_live:
  assumes "now \<le> t"
  shows "eph_live t (snd (eph_Get now k s)) = eph_live t s"
proof (cases "map_of (eph_m s) k")
  case None
  then show ?thesis by (simp add: eph_Get_def)
next
  case (Some e)
  then have "eph_live t s k = None" if "\<not> now < expiresAt e"
    using that assms by (simp add: eph_live_def)
  with Some show ?thesis by (simp add: eph_Get_def eph_live_deleteLocked fun_upd_idem)
qed

lemma eph_Get_sub: "eph_live t (snd (eph_Get now k c)) k' = Some p \<Longrightarrow> eph_live t c k' = Some p"
  by (auto simp: eph_Get_def eph_live_deleteLocked split: option.splits if_splits)

lemma eph_Get_ttl [simp]: "eph_ttl (snd (eph_Get now k c)) = eph_ttl c"
  by (simp add: eph_Get_def split: option.split)

lemma eph_Consume_result: "fst (eph_Consume now k s) = eph_live now s k"
  by (auto simp: eph_Consume_def eph_live_def split: option.splits)

lemma eph_Consume_live: "eph_live t (snd (eph_Consume now k s)) = (eph_live t s)(k := None)"
proof (cases "map_of (eph_m s) k")
  case None
  then have "eph_live t s k = None" by (simp add: eph_live_def)
  with None show ?thesis by (simp add: eph_Consume_def fun_upd_idem)
qed (simp add: eph_Consume_def eph_live_deleteLocked)

lemma eph_inv_Get: "eph_inv s \<Longrightarrow> eph_inv (snd (eph_Get now k s))"
  by (auto simp: eph_Get_def eph_inv_deleteLocked split: option.splits)

lemma eph_inv_Consume: "eph_inv s \<Longrightarrow> eph_inv (snd (eph_Consume now k s))"
  by (auto simp: eph_Consume_def eph_inv_deleteLocked split: option.splits)

lemma eph_live_antimono: "t \<le> t' \<Longrightarrow> eph_live t' s k = Some v \<Longrightarrow> eph_live t s k = Some v"
  by (auto simp: eph_live_def split: option.splits if_splits)

lemma eph_live_New [simp]: "eph_live t (eph_New ttl capacity) k = None"
  by (simp add: eph_live_def eph_New_def)

section \<open>The contract of a TTL store\<close>

text \<open>
  What the client components rely on. \<open>live t s k\<close> is what a reader at instant \<open>t\<close> obtains.
  An insertion may evict other keys, but never invents or changes a value.
\<close>

locale ttl_store =
  fixes put :: "time \<Rightarrow> 'k \<Rightarrow> 'v \<Rightarrow> 's \<Rightarrow> 's"
    and get :: "time \<Rightarrow> 'k \<Rightarrow> 's \<Rightarrow> 'v option \<times> 's"
    and consume :: "time \<Rightarrow> 'k \<Rightarrow> 's \<Rightarrow> 'v option \<times> 's"
    and delete :: "'k \<Rightarrow> 's \<Rightarrow> 's"
    and sweep :: "time \<Rightarrow> 's \<Rightarrow> 's"
    and lifetime :: "'s \<Rightarrow> duration"
    and live :: "time \<Rightarrow> 's \<Rightarrow> 'k \<Rightarrow> 'v option"
    and invar :: "'s \<Rightarrow> bool"
  assumes get_result: "invar s \<Longrightarrow> fst (get now k s) = live now s k"
    and get_live: "invar s \<Longrightarrow> now \<le> t \<Longrightarrow> live t (snd (get now k s)) = live t s"
    and consume_result: "invar s \<Longrightarrow> fst (consume now k s) = live now s k"
    and consume_live: "invar s \<Longrightarrow> live t (snd (consume now k s)) = (live t s)(k := None)"
    and delete_live: "invar s \<Longrightarrow> live t (delete k s) = (live t s)(k := None)"
    and sweep_live: "invar s \<Longrightarrow> now \<le> t \<Longrightarrow> live t (sweep now s) = live t s"
    and put_live_same:
      "invar s \<Longrightarrow> live t (put now k v s) k = (if t < now + lifetime s then Some v else None)"
    and put_live_other:
      "invar s \<Longrightarrow> k' \<noteq> k \<Longrightarrow> live t (put now k v s) k' = Some w \<Longrightarrow> live t s k' = Some w"
    and live_antimono: "t \<le> t' \<Longrightarrow> live t' s k = Some v \<Longrightarrow> live t s k = Some v"
    and invar_put: "invar s \<Longrightarrow> invar (put now k v s)"
    and invar_get: "invar s \<Longrightarrow> invar (snd (get now k s))"
    and invar_consume: "invar s \<Longrightarrow> invar (snd (consume now k s))"
    and invar_delete: "invar s \<Longrightarrow> invar (delete k s)"
    and invar_sweep: "invar s \<Longrightarrow> invar (sweep now s)"
begin

lemmas invars = invar_put invar_get invar_consume invar_delete invar_sweep

text \<open>A value is obtainable right after its insertion, and consumable exactly once.\<close>

lemma consume_after_put:
  "invar s \<Longrightarrow> fst (consume t k (put now k v s)) = (if t < now + lifetime s then Some v else None)"
  by (simp add: consume_result put_live_same invar_put)

lemma consume_twice: "invar s \<Longrightarrow> fst (consume t' k (snd (consume t k s))) = None"
  by (simp add: consume_result consume_live invar_consume)

lemma get_after_consume: "invar s \<Longrightarrow> fst (get t' k (snd (consume t k s))) = None"
  by (simp add: get_result consume_live invar_consume)

text \<open>A key that nobody can read any more stays unreadable until it is inserted again.\<close>

lemma absent_put:
  "invar s \<Longrightarrow> k' \<noteq> k \<Longrightarrow> live t s k = None \<Longrightarrow> live t (put now k' v s) k = None"
  by (metis not_None_eq put_live_other)

lemma absent_consume: "invar s \<Longrightarrow> live t s k = None \<Longrightarrow> live t (snd (consume now k' s)) k = None"
  by (simp add: consume_live)

lemma absent_delete: "invar s \<Longrightarrow> live t s k = None \<Longrightarrow> live t (delete k' s) k = None"
  by (simp add: delete_live)

text \<open>Nothing is obtainable after its lifetime.\<close>

lemma get_expired:
  "invar s \<Longrightarrow> now + lifetime s \<le> t \<Longrightarrow> fst (get t k (put now k v s)) = None"
  by (simp add: get_result put_live_same invar_put)

end

interpretation eph: ttl_store eph_Put eph_Get eph_Consume eph_Delete eph_Sweep eph_ttl eph_live eph_inv
proof (unfold_locales, goal_cases)
  case (7 s t now k v)
  show ?case by (simp add: eph_Put_def eph_PutTTL_live_same)
next
  case (8 s k' k t now v w)
  then show ?case by (auto simp: eph_Put_def dest: eph_PutTTL_live_other)
next
  case (9 t t' s k v)
  then show ?case by (rule eph_live_antimono)
qed (simp_all add: eph_Get_result eph_Get_live eph_Consume_result eph_Consume_live eph_Delete_def
    eph_live_deleteLocked eph_Sweep_live eph_Put_def eph_inv_PutTTL eph_inv_Get eph_inv_Consume
    eph_inv_deleteLocked eph_inv_Sweep)

section \<open>Histories of operations\<close>

datatype ('k, 'v) eph_op = OpPut 'k 'v duration | OpGet 'k | OpConsume 'k | OpDelete 'k | OpSweep

fun eph_apply :: "time \<Rightarrow> ('k, 'v) eph_op \<Rightarrow> ('k, 'v) eph_store \<Rightarrow> ('k, 'v) eph_store" where
  "eph_apply now (OpPut k v ttl) s = eph_PutTTL now k v ttl s"
| "eph_apply now (OpGet k) s = snd (eph_Get now k s)"
| "eph_apply now (OpConsume k) s = snd (eph_Consume now k s)"
| "eph_apply now (OpDelete k) s = eph_Delete k s"
| "eph_apply now OpSweep s = eph_Sweep now s"

fun eph_run :: "(time \<times> ('k, 'v) eph_op) list \<Rightarrow> ('k, 'v) eph_store \<Rightarrow> ('k, 'v) eph_store" where
  "eph_run [] s = s"
| "eph_run ((now, x) # h) s = eph_run h (eph_apply now x s)"

fun puts :: "('k, 'v) eph_op \<Rightarrow> 'k \<Rightarrow> bool" where
  "puts (OpPut k v ttl) k' = (k = k')"
| "puts _ k' = False"

fun nondecreasing_from :: "time \<Rightarrow> (time \<times> 'x) list \<Rightarrow> bool" where
  "nondecreasing_from t [] = True"
| "nondecreasing_from t ((now, x) # h) = (t \<le> now \<and> nondecreasing_from now h)"

lemma eph_inv_apply: "eph_inv s \<Longrightarrow> eph_inv (eph_apply now x s)"
  by (cases x)
    (auto simp: eph_inv_PutTTL eph.invar_get eph.invar_consume eph.invar_delete eph.invar_sweep)

lemma eph_inv_run: "eph_inv s \<Longrightarrow> eph_inv (eph_run h s)"
  by (induction h s rule: eph_run.induct) (auto simp: eph_inv_apply)

lemma eph_ttl_cap_apply [simp]:
  "eph_ttl (eph_apply now x s) = eph_ttl s" "eph_cap (eph_apply now x s) = eph_cap s"
  by (cases x; auto simp: eph_PutTTL_fields eph_Get_def eph_Consume_def eph_Delete_def
      split: option.splits)+

lemma eph_ttl_cap_run [simp]: "eph_ttl (eph_run h s) = eph_ttl s" "eph_cap (eph_run h s) = eph_cap s"
  by (induction h s rule: eph_run.induct) auto

text \<open>An unmapped key stays unmapped while nobody inserts it.\<close>

lemma eph_unmapped_apply:
  assumes "eph_inv s" "map_of (eph_m s) k = None" "\<not> puts x k"
  shows "map_of (eph_m (eph_apply now x s)) k = None"
proof (cases x)
  case (OpPut k' v ttl)
  have "map_of (eph_m (eph_make_room k' s)) k = None"
    using assms(1,2) by (auto simp: eph_make_room_def eph_evictOldest_eq gomap_simps split: list.splits)
  with OpPut assms(3) show ?thesis by (auto simp: eph_PutTTL_fields gomap_simps)
next
  case OpSweep
  with assms show ?thesis
    by (simp add: eph_Sweep_def case_prod_beta eph_sweep_loop_get)
qed (use assms in \<open>auto simp: eph_Get_def eph_Consume_def eph_Delete_def eph_deleteLocked_def
       gomap_simps split: option.splits\<close>)

lemma eph_unmapped_run:
  "eph_inv s \<Longrightarrow> map_of (eph_m s) k = None \<Longrightarrow> \<forall>(now, x) \<in> set h. \<not> puts x k \<Longrightarrow>
     map_of (eph_m (eph_run h s)) k = None"
  by (induction h s rule: eph_run.induct) (auto simp: eph_inv_apply eph_unmapped_apply)

lemma eph_unmapped_Consume: "map_of (eph_m (snd (eph_Consume now k s))) k = None"
  by (auto simp: eph_Consume_def eph_deleteLocked_def gomap_simps split: option.splits)

text \<open>
  Whatever operations run on a store (at any instants, in any order), the insertion order
  lists exactly the mapped keys, each once, and a positive capacity is never exceeded.
\<close>

theorem eph_history_invariant:
  "eph_inv (eph_run h (eph_New ttl capacity))
   \<and> (0 < capacity \<longrightarrow> int (eph_Len (eph_run h (eph_New ttl capacity))) \<le> capacity)"
proof -
  have "eph_inv (eph_run h (eph_New ttl capacity))"
    by (intro eph_inv_run eph_inv_New)
  moreover have "eph_cap (eph_run h (eph_New ttl capacity)) = capacity"
    by (simp add: eph_New_def)
  ultimately show ?thesis by (simp add: eph_inv_def eph_Len_def)
qed

text \<open>
  The witness: three insertions into a store of capacity two leave two entries, and the oldest
  insertion is the one that went.
\<close>

theorem eph_history_invariant_witness:
  "let s = eph_run [(0, OpPut ''a'' (10::nat) 0), (1, OpPut ''b'' 20 0), (2, OpPut ''c'' 30 0)] (eph_New 5 2)
   in eph_inv s \<and> int (eph_Len s) \<le> 2 \<and> eph_order s = [''b'', ''c'']"
  using eph_history_invariant
    [of "[(0, OpPut ''a'' (10::nat) 0), (1, OpPut ''b'' 20 0), (2, OpPut ''c'' 30 0)]" 5 2]
  by (simp add: eph_New_def eph_PutTTL_def eph_make_room_def eph_evictOldestLocked_def)

text \<open>
  Single use. Once a key has been consumed, no later \<open>Consume\<close> or \<open>Get\<close> obtains a value for
  it, whatever operations happen in between, unless the key is inserted again.
\<close>

theorem eph_consume_single_use:
  assumes "eph_inv s" and "\<forall>(now, x) \<in> set h. \<not> puts x k"
  shows "fst (eph_Consume t' k (eph_run h (snd (eph_Consume t k s)))) = None
    \<and> fst (eph_Get t' k (eph_run h (snd (eph_Consume t k s)))) = None"
proof -
  have "map_of (eph_m (eph_run h (snd (eph_Consume t k s)))) k = None"
    using assms by (intro eph_unmapped_run eph_inv_Consume eph_unmapped_Consume)
  then show ?thesis by (simp add: eph_Consume_def eph_Get_def)
qed

theorem eph_consume_single_use_witness:
  "fst (eph_Consume 3 ''k'' (eph_Put 0 ''k'' (7::nat) (eph_New 90 0))) = Some 7
   \<and> fst (eph_Consume 5 ''k'' (eph_run [(4, OpPut ''l'' 8 0), (4, OpSweep)]
       (snd (eph_Consume 3 ''k'' (eph_Put 0 ''k'' (7::nat) (eph_New 90 0)))))) = None"
proof -
  have inv: "eph_inv (eph_Put 0 ''k'' (7::nat) (eph_New 90 0))"
    by (intro eph.invar_put eph_inv_New)
  show ?thesis
    using eph_consume_single_use [OF inv, of "[(4, OpPut ''l'' 8 0), (4, OpSweep)]" "''k''" 5 3]
      eph.consume_after_put [OF eph_inv_New, of 3 "''k''" 0 "7::nat" 90 0]
    by (simp add: eph_New_def)
qed

subsection \<open>Refinement of a map of values with deadlines\<close>

text \<open>
  The abstract store: a partial function from keys to a value and its deadline. It keeps no
  order, never sweeps and forgets a key only when it is consumed or deleted.
\<close>

type_synonym ('k, 'v) deadline_map = "'k \<Rightarrow> ('v \<times> time) option"

fun spec_apply :: "duration \<Rightarrow> time \<Rightarrow> ('k, 'v) eph_op \<Rightarrow> ('k, 'v) deadline_map \<Rightarrow> ('k, 'v) deadline_map"
where
  "spec_apply d now (OpPut k v ttl) f = f(k \<mapsto> (v, now + (if ttl \<le> 0 then d else ttl)))"
| "spec_apply d now (OpConsume k) f = f(k := None)"
| "spec_apply d now (OpDelete k) f = f(k := None)"
| "spec_apply d now (OpGet k) f = f"
| "spec_apply d now OpSweep f = f"

fun spec_run :: "duration \<Rightarrow> (time \<times> ('k, 'v) eph_op) list \<Rightarrow> ('k, 'v) deadline_map \<Rightarrow> ('k, 'v) deadline_map"
where
  "spec_run d [] f = f"
| "spec_run d ((now, x) # h) f = spec_run d h (spec_apply d now x f)"

definition spec_live :: "time \<Rightarrow> ('k, 'v) deadline_map \<Rightarrow> 'k \<Rightarrow> 'v option" where
  "spec_live t f k = (case f k of None \<Rightarrow> None | Some (v, e) \<Rightarrow> if t < e then Some v else None)"

lemma eph_refines_step:
  assumes "eph_inv s" "eph_cap s \<le> 0" "now \<le> t" "eph_live t s = spec_live t f"
  shows "eph_live t (eph_apply now x s) = spec_live t (spec_apply (eph_ttl s) now x f)"
  using assms
  by (cases x)
    (auto simp: eph_PutTTL_live_unbounded eph.get_live eph.consume_live eph.delete_live
      eph.sweep_live spec_live_def fun_eq_iff)

lemma eph_refines_run:
  "eph_inv s \<Longrightarrow> eph_cap s \<le> 0 \<Longrightarrow> \<forall>(now, x) \<in> set h. now \<le> t \<Longrightarrow> eph_live t s = spec_live t f \<Longrightarrow>
     eph_live t (eph_run h s) = spec_live t (spec_run (eph_ttl s) h f)"
  by (induction h s arbitrary: f rule: eph_run.induct) (auto simp: eph_inv_apply eph_refines_step)

text \<open>
  Refinement. A store without a capacity, after any history of operations performed at
  instants up to \<open>t\<close>, answers every \<open>Get\<close> at \<open>t\<close> exactly as the abstract map of deadlines does,
  whatever was swept or lazily dropped in between.
\<close>

theorem eph_unbounded_refines_deadline_map:
  assumes "capacity \<le> 0" and "\<forall>(now, x) \<in> set h. now \<le> t"
  shows "fst (eph_Get t k (eph_run h (eph_New ttl capacity)))
    = spec_live t (spec_run ttl h Map.empty) k"
proof -
  have "eph_live t (eph_run h (eph_New ttl capacity))
      = spec_live t (spec_run (eph_ttl (eph_New ttl capacity)) h Map.empty)"
    using eph_refines_run [OF eph_inv_New [of ttl capacity] _ assms(2), where f = Map.empty] assms(1)
    by (simp add: eph_New_def spec_live_def eph_live_def fun_eq_iff)
  then show ?thesis by (simp add: eph_Get_result eph_New_def)
qed

theorem eph_unbounded_refines_deadline_map_witness:
  "fst (eph_Get 9 (1::nat) (eph_run [(0, OpPut 1 (7::nat) 0), (3, OpSweep), (4, OpPut 1 8 20)] (eph_New 5 0)))
    = Some 8"
  using eph_unbounded_refines_deadline_map
    [of 0 "[(0, OpPut 1 (7::nat) 0), (3, OpSweep), (4, OpPut 1 8 20)]" 9 "1::nat" 5]
  by (simp add: spec_live_def)

text \<open>
  FIFO eviction. Inserting a new key into a full store removes exactly the oldest insertion:
  every other key keeps its value and the new key is readable.
\<close>

theorem eph_evicts_oldest:
  assumes "eph_inv s" "0 < eph_cap s" "int (eph_Len s) = eph_cap s" "k \<notin> set (eph_order s)"
    and "eph_order s = old # ks" "t < now + eph_ttl s"
  shows "eph_order (eph_Put now k v s) = ks @ [k]
    \<and> fst (eph_Get t old (eph_Put now k v s)) = None
    \<and> fst (eph_Get t k (eph_Put now k v s)) = Some v
    \<and> (\<forall>k' \<in> set ks. fst (eph_Get t k' (eph_Put now k v s)) = fst (eph_Get t k' s))"
proof -
  have k: "map_of (eph_m s) k = None"
    using assms(1,4) by (simp add: gm_get_None eph_inv_def)
  have room: "eph_make_room k s = s\<lparr>eph_m := AList.delete old (eph_m s), eph_order := ks\<rparr>"
    using assms(1-3,5) k by (simp add: eph_make_room_def eph_Len_def eph_evictOldest_eq)
  have "old \<noteq> k" "k \<notin> set ks" "old \<notin> set ks" "distinct ks"
    using assms(1,4,5) by (auto simp: eph_inv_def)
  then show ?thesis
    using assms(6) k room
    by (auto simp: eph_Put_def eph_Get_result eph_PutTTL_live_same eph_PutTTL_live_make_room
        eph_PutTTL_fields eph_live_def gomap_simps)
qed

theorem eph_evicts_oldest_witness:
  "eph_order (eph_Put 2 3 (30::nat) (eph_run [(0, OpPut (1::nat) 10 0), (1, OpPut 2 20 0)] (eph_New 5 2))) = [2, 3]"
proof -
  let ?s = "eph_run [(0, OpPut (1::nat) (10::nat) 0), (1, OpPut 2 20 0)] (eph_New 5 2)"
  have inv: "eph_inv ?s" by (intro eph_inv_run eph_inv_New)
  have ev: "eph_cap ?s = 2" "eph_ttl ?s = 5" "int (eph_Len ?s) = 2" "eph_order ?s = [1, 2]"
    by (simp_all add: eph_New_def eph_PutTTL_def eph_make_room_def eph_Len_def)
  show ?thesis
    using eph_evicts_oldest [OF inv, of 3 1 "[2]" 3 2 30] ev by simp
qed

end
