(* ===== verification/Bearer_Gate.thy ===== *)
theory Bearer_Gate
  imports Ephemeral_Store Go_Strings
begin

text \<open>
  \<open>src/internal/auth/gate.go\<close>, \<open>auth/principal.go\<close> and \<open>src/internal/hydra/resolver.go\<close>: the
  bearer gate in front of every authenticated surface, and the resolver that turns a token into a
  principal with a cache of positive answers.

  The answer of Hydra's introspection endpoint (third-party) is an argument of the resolver call;
  \<open>None\<close> is an unreachable or failing endpoint. A request is the parts the gate reads. What the
  gate decides is a value: pass on (with the principal it attached, if any) or refuse.
\<close>

section \<open>Principals and introspection\<close>

record principal =
  p_AccountID :: string
  p_ClientID :: string
  p_Scopes :: "string list"

fun has_scope :: "string list \<Rightarrow> string \<Rightarrow> bool" where
  "has_scope [] s = False"
| "has_scope (sc # scs) s = (if sc = s then True else has_scope scs s)"

definition HasScope :: "principal \<Rightarrow> string \<Rightarrow> bool" where
  "HasScope p s = has_scope (p_Scopes p) s"

lemma HasScope_iff [simp]: "HasScope p s \<longleftrightarrow> s \<in> set (p_Scopes p)"
proof -
  have "has_scope scs s \<longleftrightarrow> s \<in> set scs" for scs by (induction scs) auto
  then show ?thesis by (simp add: HasScope_def)
qed

record introspection =
  in_Active :: bool
  in_Scope :: string
  in_ClientID :: string
  in_Sub :: string
  in_TokenUse :: string

section \<open>Resolver\<close>

type_synonym token_cache = "(string, principal) eph_store option"

definition maxCacheEntries :: int where
  "maxCacheEntries = 2048"

definition NewResolver :: "duration \<Rightarrow> token_cache" where
  "NewResolver cacheTTL = (if cacheTTL > 0 then Some (eph_New cacheTTL maxCacheEntries) else None)"

text \<open>The principal an introspection answer authorizes, if any.\<close>

definition introspected :: "introspection option \<Rightarrow> principal option" where
  "introspected ins =
     (case ins of
        None \<Rightarrow> None
      | Some i \<Rightarrow>
          if \<not> in_Active i \<or> in_Sub i = [] \<or> in_TokenUse i \<noteq> ''access_token'' then None
          else Some \<lparr>p_AccountID = in_Sub i, p_ClientID = in_ClientID i, p_Scopes = string_fields (in_Scope i)\<rparr>)"

text \<open>One call: the clock is read at the look-up (\<open>now\<close>) and again at the insertion (\<open>at\<close>).\<close>

definition cache_lookup :: "time \<Rightarrow> string \<Rightarrow> token_cache \<Rightarrow> principal option \<times> token_cache" where
  "cache_lookup now token cache =
     (case cache of
        None \<Rightarrow> (None, None)
      | Some c \<Rightarrow> (case eph_Get now token c of (r, c) \<Rightarrow> (r, Some c)))"

definition Resolve ::
  "time \<Rightarrow> time \<Rightarrow> introspection option \<Rightarrow> string \<Rightarrow> token_cache \<Rightarrow> principal option \<times> token_cache"
where
  "Resolve now at ins token cache =
     (case cache_lookup now token cache of
        (Some p, cache) \<Rightarrow> (Some p, cache)
      | (None, cache) \<Rightarrow>
          (case introspected ins of
             None \<Rightarrow> (None, cache)
           | Some p \<Rightarrow> (Some p, map_option (eph_Put at token p) cache)))"

section \<open>Gate\<close>

definition UIScope :: string where "UIScope = ''ui''"
definition McpScope :: string where "McpScope = ''mcp''"
definition AgentScope :: string where "AgentScope = ''agent''"
definition WSBearerSubprotocol :: string where "WSBearerSubprotocol = ''shellwatch.bearer''"
definition WellKnownProtectedResource :: string where
  "WellKnownProtectedResource = ''/.well-known/oauth-protected-resource''"

definition BearerPaths :: "(string, string) gomap" where
  "BearerPaths = [(''mcp'', ''/mcp''), (''agent'', ''/agent-proxy'')]"

definition ResourceMetadataPath :: "string \<Rightarrow> string" where
  "ResourceMetadataPath scope =
     WellKnownProtectedResource @ (case map_of BearerPaths scope of None \<Rightarrow> [] | Some p \<Rightarrow> p)"

definition exemptExact :: "string list" where
  "exemptExact = [''/health'', ''/api/version'', ''/config.js'', ''/manifest.json'', ''/api/auth/register'',
     ''/api/auth/register/options'', ''/api/auth/passkey-status'']"

definition exemptPrefixes :: "string list" where
  "exemptPrefixes = [''/api/hydra/'', ''/api/passkey-invite/'', ''/passkey-invite/'', ''/.well-known/'', ''/_app/'']"

definition isExempt :: "string \<Rightarrow> bool" where
  "isExempt path \<longleftrightarrow> path \<in> set exemptExact \<or> list_ex (has_prefix path) exemptPrefixes"

definition requiredScope :: "string \<Rightarrow> bool \<Rightarrow> string" where
  "requiredScope path agentProxyEnabled =
     (if path = ''/mcp'' \<or> has_prefix path ''/mcp/'' then McpScope
      else if agentProxyEnabled \<and> (path = ''/agent-proxy'' \<or> has_prefix path ''/agent-proxy/'') then AgentScope
      else if path = ''/ws'' then UIScope
      else if has_prefix path ''/api/'' then UIScope
      else [])"

record gate_req =
  gr_Path :: string
  gr_Authorization :: string
  gr_WSProtocol :: string

definition extractToken :: "gate_req \<Rightarrow> string \<Rightarrow> string" where
  "extractToken r path =
     (if has_prefix (gr_Authorization r) ''Bearer '' then drop (length ''Bearer '') (gr_Authorization r)
      else if path = ''/ws'' \<and> gr_WSProtocol r \<noteq> []
      then let parts = map trim_space (split_on CHR '','' (gr_WSProtocol r))
           in if length parts \<ge> 2 \<and> parts ! 0 = WSBearerSubprotocol \<and> parts ! 1 \<noteq> [] then parts ! 1 else []
      else [])"

datatype refusal = Missing | Invalid | Scope

text \<open>The challenge header and status of a refusal.\<close>

definition www_authenticate :: "string \<Rightarrow> string \<Rightarrow> refusal \<Rightarrow> string" where
  "www_authenticate externalURL scope kind =
     (let parts = [''Bearer realm=\"shellwatch\"''];
          parts = (if scope = McpScope \<or> scope = AgentScope
                   then parts @ [''resource_metadata=\"'' @ trim_right_char CHR ''/'' externalURL
                                   @ ResourceMetadataPath scope @ ''\"'', ''scope=\"'' @ scope @ ''\"'']
                   else parts);
          parts = (if kind = Invalid then parts @ [''error=\"invalid_token\"''] else parts);
          parts = (if kind = Scope then parts @ [''error=\"insufficient_scope\"''] else parts)
      in join_with '', '' parts)"

datatype gate_result =
    Next "principal option"
  | Refuse int string string

definition send401 :: "string \<Rightarrow> string \<Rightarrow> string \<Rightarrow> refusal \<Rightarrow> gate_result" where
  "send401 externalURL scope message kind =
     Refuse (if kind = Scope then 403 else 401) (www_authenticate externalURL scope kind) message"

text \<open>
  The gate. The second component is the account whose activity \<open>TouchLastUsed\<close> records, the
  third the resolver's state after the call.
\<close>

definition Gate ::
  "(string \<Rightarrow> 's \<Rightarrow> principal option \<times> 's) \<Rightarrow> string \<Rightarrow> bool \<Rightarrow> gate_req \<Rightarrow> 's \<Rightarrow>
   gate_result \<times> string option \<times> 's"
where
  "Gate resolve externalURL agentProxyEnabled r s =
     (let path = gr_Path r in
      if isExempt path then (Next None, None, s)
      else let scope = requiredScope path agentProxyEnabled in
           if scope = [] then (Next None, None, s)
           else let token = extractToken r path in
                if token = [] then (send401 externalURL scope ''Access token required'' Missing, None, s)
                else case resolve token s of
                       (None, s) \<Rightarrow> (send401 externalURL scope ''Invalid or expired access token'' Invalid, None, s)
                     | (Some p, s) \<Rightarrow>
                         if \<not> HasScope p scope
                         then (send401 externalURL scope (''Token lacks '' @ [CHR 0x27] @ scope @ [CHR 0x27] @ '' scope'') Scope, None, s)
                         else (Next (Some p), Some (p_AccountID p), s))"


section \<open>Properties of the gate\<close>

lemma mcp_not_exempt: "path = ''/mcp'' \<or> has_prefix path ''/mcp/'' \<Longrightarrow> \<not> isExempt path"
  by (auto simp: isExempt_def exemptExact_def exemptPrefixes_def has_prefix_iff)

lemma ws_not_exempt: "\<not> isExempt ''/ws''"
  by (simp add: isExempt_def exemptExact_def exemptPrefixes_def has_prefix_def)

lemma Gate_Next:
  assumes "Gate resolve ext ap r s = (Next pr, touched, s')" "\<not> isExempt (gr_Path r)"
    and "requiredScope (gr_Path r) ap \<noteq> []"
  shows "\<exists>p. pr = Some p \<and> touched = Some (p_AccountID p) \<and> requiredScope (gr_Path r) ap \<in> set (p_Scopes p)
    \<and> extractToken r (gr_Path r) \<noteq> [] \<and> resolve (extractToken r (gr_Path r)) s = (Some p, s')"
  using assms
  by (auto simp: Gate_def Let_def send401_def split: if_splits prod.splits option.splits)


definition ex_principal :: principal where
  "ex_principal = \<lparr>p_AccountID = ''acc1'', p_ClientID = ''c1'', p_Scopes = [''ui'']\<rparr>"


section \<open>Properties of the resolver\<close>

text \<open>A call of the resolver: its two clock readings, the introspection answer and the token.\<close>

type_synonym resolver_call = "time \<times> time \<times> introspection option \<times> string"

fun resolve_call :: "resolver_call \<Rightarrow> token_cache \<Rightarrow> token_cache" where
  "resolve_call (now, at, ins, token) cache = snd (Resolve now at ins token cache)"

definition justified :: "duration \<Rightarrow> resolver_call set \<Rightarrow> time \<Rightarrow> string \<Rightarrow> principal \<Rightarrow> bool" where
  "justified ttl calls t token p \<longleftrightarrow>
     (\<exists>now at ins. (now, at, ins, token) \<in> calls \<and> introspected ins = Some p \<and> t < at + ttl)"

definition cache_ok :: "duration \<Rightarrow> resolver_call set \<Rightarrow> token_cache \<Rightarrow> bool" where
  "cache_ok ttl calls cache \<longleftrightarrow>
     (case cache of
        None \<Rightarrow> True
      | Some c \<Rightarrow> eph_inv c \<and> eph_ttl c = ttl \<and>
                  (\<forall>t k p. eph_live t c k = Some p \<longrightarrow> justified ttl calls t k p))"

lemma justified_mono: "justified ttl A t k p \<Longrightarrow> A \<subseteq> B \<Longrightarrow> justified ttl B t k p"
  by (auto simp: justified_def)

lemma cache_ok_lookup:
  assumes "cache_ok ttl calls cache"
  shows "cache_ok ttl calls (snd (cache_lookup now token cache))"
  using assms eph_inv_Get eph_Get_sub
  by (fastforce simp: cache_ok_def cache_lookup_def case_prod_beta split: option.splits)

lemma cache_ok_put:
  assumes "cache_ok ttl calls cache" "introspected ins = Some p"
  shows "cache_ok ttl (insert (now, at, ins, token) calls) (map_option (eph_Put at token p) cache)"
proof (cases cache)
  case (Some c)
  with assms have inv: "eph_inv c" "eph_ttl c = ttl" by (simp_all add: cache_ok_def)
  have "justified ttl (insert (now, at, ins, token) calls) t k q"
    if live: "eph_live t (eph_Put at token p c) k = Some q" for t k q
  proof (cases "k = token")
    case True
    with live inv eph.put_live_same [OF inv(1), of t at token p] assms(2)
    show ?thesis by (auto simp: justified_def split: if_splits)
  next
    case False
    with live inv eph.put_live_other have "eph_live t c k = Some q" by metis
    with assms Some show ?thesis by (auto simp: cache_ok_def intro: justified_mono)
  qed
  moreover have "eph_ttl (eph_Put at token p c) = ttl" using inv(2) by (simp add: eph_Put_def eph_PutTTL_fields)
  ultimately show ?thesis using Some inv eph.invar_put by (simp add: cache_ok_def)
qed (simp add: cache_ok_def)

lemma cache_ok_Resolve:
  assumes "cache_ok ttl calls cache"
  shows "cache_ok ttl (insert (now, at, ins, token) calls) (snd (Resolve now at ins token cache))"
proof -
  obtain r c where l: "cache_lookup now token cache = (r, c)" by (cases "cache_lookup now token cache")
  then have c: "cache_ok ttl calls c" using cache_ok_lookup [OF assms, of now token] by simp
  then have "cache_ok ttl (insert (now, at, ins, token) calls) c"
    by (auto simp: cache_ok_def split: option.splits intro: justified_mono)
  with l c show ?thesis by (auto simp: Resolve_def cache_ok_put split: option.splits)
qed

lemma cache_ok_run: "cache_ok ttl seen cache \<Longrightarrow> cache_ok ttl (seen \<union> set calls) (fold resolve_call calls cache)"
proof (induction calls arbitrary: seen cache)
  case (Cons call calls)
  obtain now at ins token where c: "call = (now, at, ins, token)" by (cases call)
  with Cons.IH [OF cache_ok_Resolve [OF Cons.prems, of now at ins token]] show ?case by simp
qed simp

lemma eph_New_ttl [simp]: "eph_ttl (eph_New ttl cap) = ttl"
  by (simp add: eph_New_def)

lemma cache_ok_New: "cache_ok ttl {} (NewResolver ttl)"
  by (simp add: cache_ok_def NewResolver_def eph_inv_New)

text \<open>What an introspection answer must say for a principal: the specification of \<open>introspected\<close>.\<close>

definition vouches :: "introspection option \<Rightarrow> principal \<Rightarrow> bool" where
  "vouches ins p \<longleftrightarrow>
     (\<exists>i. ins = Some i \<and> in_Active i \<and> in_TokenUse i = ''access_token'' \<and> in_Sub i \<noteq> []
        \<and> p_AccountID p = in_Sub i \<and> p_ClientID p = in_ClientID i \<and> p_Scopes p = string_fields (in_Scope i))"

lemma introspected_vouches: "introspected ins = Some p \<longleftrightarrow> vouches ins p"
  by (cases ins; cases p) (auto simp: introspected_def vouches_def)

text \<open>
  C32: the resolver fails closed and forgets. After any history of calls, a principal is returned
  for a token only if the introspection of this very call, or that of an earlier call for the same
  token whose cache entry is younger than the cache lifetime, reported an active access token with
  that subject, client and scope. A revoked token is therefore refused at the latest one cache
  lifetime after its last positive introspection, and without a cache at once.
\<close>

theorem resolver_justified:
  assumes "fst (Resolve now at ins token (fold resolve_call calls (NewResolver ttl))) = Some p"
  shows "vouches ins p
    \<or> (0 < ttl \<and> (\<exists>now' at' ins'. (now', at', ins', token) \<in> set calls \<and> vouches ins' p
         \<and> now < at' + ttl))"
proof -
  let ?c = "fold resolve_call calls (NewResolver ttl)"
  have ok: "cache_ok ttl (set calls) ?c" using cache_ok_run [OF cache_ok_New] by simp
  show ?thesis
  proof (cases "fst (cache_lookup now token ?c)")
    case None
    then obtain c where "cache_lookup now token ?c = (None, c)" by (metis prod.collapse)
    with assms show ?thesis by (auto simp: Resolve_def introspected_vouches split: option.splits)
  next
    case (Some q)
    then have "q = p" using assms by (auto simp: Resolve_def split: prod.splits)
    from Some obtain c where c: "?c = Some c" "fst (eph_Get now token c) = Some q"
      by (auto simp: cache_lookup_def case_prod_beta split: option.splits)
    then have "justified ttl (set calls) now token p"
      using ok \<open>q = p\<close> by (auto simp: cache_ok_def eph_Get_result)
    moreover have "0 < ttl"
    proof (rule ccontr)
      assume "\<not> 0 < ttl"
      then have "NewResolver ttl = None" by (simp add: NewResolver_def)
      moreover have "fold resolve_call calls None = None"
        by (induction calls) (auto simp: Resolve_def cache_lookup_def split: option.splits)
      ultimately show False using c by simp
    qed
    ultimately show ?thesis by (auto simp: justified_def introspected_vouches)
  qed
qed


definition ex_ins :: introspection where
  "ex_ins = \<lparr>in_Active = True, in_Scope = ''ui'', in_ClientID = ''c1'', in_Sub = ''acc1'', in_TokenUse = ''access_token''\<rparr>"

theorem resolver_justified_witness:
  "let cache = fold resolve_call [(0, 1, Some ex_ins, ''tok'')] (NewResolver 30)
   in fst (Resolve 20 20 None ''tok'' cache) = introspected (Some ex_ins)
      \<and> fst (Resolve 31 31 None ''tok'' cache) = None
      \<and> (\<exists>now' at' ins'. (now', at', ins', ''tok'') \<in> set [(0 :: time, 1 :: time, Some ex_ins, ''tok'')]
           \<and> vouches ins' (the (introspected (Some ex_ins))) \<and> 20 < at' + 30)"
proof -
  let ?calls = "[(0, 1, Some ex_ins, ''tok'')]"
  let ?cache = "fold resolve_call ?calls (NewResolver 30)"
  obtain p where p: "introspected (Some ex_ins) = Some p" by (simp add: introspected_def ex_ins_def)
  have c: "?cache = Some (eph_Put 1 ''tok'' p (eph_New 30 maxCacheEntries))"
    using p by (simp add: NewResolver_def Resolve_def cache_lookup_def eph_Get_def eph_New_def)
  have inv: "eph_inv (eph_New 30 maxCacheEntries :: (string, principal) eph_store)" by (rule eph_inv_New)
  have r: "fst (Resolve t t None ''tok'' ?cache) = (if t < 31 then Some p else None)" for t
    unfolding c using eph.put_live_same [OF inv, of t 1 "''tok''" p]
    by (auto simp: Resolve_def cache_lookup_def introspected_def eph_Get_result case_prod_beta split: option.splits)
  then have "fst (Resolve 20 20 None ''tok'' ?cache) = Some p" by simp
  from resolver_justified [OF this] have "\<exists>now' at' ins'. (now', at', ins', ''tok'') \<in> set ?calls \<and> vouches ins' p \<and> (20 :: time) < at' + 30"
    by (auto simp: vouches_def)
  with r p show ?thesis by simp
qed

end
