(* ===== verification/Webauthn_Tokens.thy ===== *)
theory Webauthn_Tokens
  imports Bearer_Gate Single_Claims Http_Errors
begin

text \<open>
  \<open>src/internal/webauthn/challenge.go\<close>, \<open>stepup.go\<close> and \<open>invite.go\<close>: purpose-bound challenges,
  step-up tokens with the middleware that demands them, and passkey invitations. Challenges and
  step-up tokens live in the store of \<open>Ephemeral_Store\<close>; what is proved about them rests on the
  contract \<open>ttl_store\<close> that the store satisfies.
\<close>

section \<open>Challenges\<close>

definition PurposeLogin :: string where "PurposeLogin = ''auth:login''"
definition PurposeSelfRegister :: string where "PurposeSelfRegister = ''auth:register''"
definition PurposeRegisterInAccount :: string where "PurposeRegisterInAccount = ''register:in_account''"
definition PurposeRegisterInvite :: string where "PurposeRegisterInvite = ''register:invite''"

definition challengeTTL :: duration where "challengeTTL = 5 * Minute"
definition challengeCap :: int where "challengeCap = 10000"

record challenge_entry =
  ce_challenge :: string
  ce_purpose :: string

type_synonym challenge_store = "(string, challenge_entry) eph_store"

definition NewChallengeStore :: challenge_store where
  "NewChallengeStore = eph_New challengeTTL challengeCap"

definition ch_Store :: "time \<Rightarrow> string \<Rightarrow> string \<Rightarrow> string \<Rightarrow> challenge_store \<Rightarrow> challenge_store" where
  "ch_Store now challengeID challenge purpose c =
     eph_Put now challengeID \<lparr>ce_challenge = challenge, ce_purpose = purpose\<rparr> c"

definition ch_Consume :: "time \<Rightarrow> string \<Rightarrow> string \<Rightarrow> challenge_store \<Rightarrow> string \<times> challenge_store" where
  "ch_Consume now challengeID expectedPurpose c =
     (case eph_Consume now challengeID c of
        (None, c) \<Rightarrow> ([], c)
      | (Some e, c) \<Rightarrow> (if ce_purpose e \<noteq> expectedPurpose then [] else ce_challenge e, c))"

section \<open>Step-up tokens\<close>

definition ActionToPurpose :: "(string, string) gomap" where
  "ActionToPurpose =
     [(''register_passkey'', ''stepup:register_passkey''), (''revoke_passkey'', ''stepup:revoke_passkey''),
      (''confirm_passkey'', ''stepup:confirm_passkey''), (''revoke_session'', ''stepup:revoke_session''),
      (''revoke_all_sessions'', ''stepup:revoke_all_sessions''), (''reset_host_key'', ''stepup:reset_host_key''),
      (''pin_host_key'', ''stepup:pin_host_key'')]"

definition IsStepUpAction :: "string \<Rightarrow> bool" where
  "IsStepUpAction s \<longleftrightarrow> map_of ActionToPurpose s \<noteq> None"

definition stepUpTTL :: duration where "stepUpTTL = 90 * Second"

record stepup_entry =
  se_accountID :: string
  se_action :: string
  se_expiresAt :: time

type_synonym stepup_store = "(string, stepup_entry) eph_store"

definition NewStepUpStore :: stepup_store where
  "NewStepUpStore = eph_New stepUpTTL 0"

text \<open>The clock is read for the returned expiry (\<open>now\<close>) and again by the store (\<open>at\<close>).\<close>

definition su_Mint :: "time \<Rightarrow> time \<Rightarrow> string \<Rightarrow> string \<Rightarrow> string \<Rightarrow> stepup_store \<Rightarrow> time \<times> stepup_store" where
  "su_Mint now at token accountID action s =
     (let exp = now + stepUpTTL
      in (exp, eph_Put at token \<lparr>se_accountID = accountID, se_action = action, se_expiresAt = exp\<rparr> s))"

datatype consume_reason = ReasonOK | ReasonMissing | ReasonExpired | ReasonWrongAction | ReasonWrongAccount

definition su_Consume :: "time \<Rightarrow> string \<Rightarrow> string \<Rightarrow> string \<Rightarrow> stepup_store \<Rightarrow> consume_reason \<times> stepup_store"
where
  "su_Consume now token accountID action s =
     (if token = [] then (ReasonMissing, s)
      else case eph_Consume now token s of
             (None, s) \<Rightarrow> (ReasonMissing, s)
           | (Some e, s) \<Rightarrow>
               (if se_accountID e \<noteq> accountID then ReasonWrongAccount
                else if se_action e \<noteq> action then ReasonWrongAction
                else ReasonOK, s))"

definition stepUpErrorCode :: "consume_reason \<Rightarrow> string" where
  "stepUpErrorCode r = (case r of ReasonMissing \<Rightarrow> ''stepup_required'' | ReasonExpired \<Rightarrow> ''stepup_expired''
     | ReasonWrongAction \<Rightarrow> ''stepup_wrong_action'' | ReasonWrongAccount \<Rightarrow> ''stepup_wrong_account'' | ReasonOK \<Rightarrow> [])"

definition stepUpErrorMessage :: "consume_reason \<Rightarrow> string" where
  "stepUpErrorMessage r = (case r of ReasonMissing \<Rightarrow> ''Step-up authentication required''
     | ReasonExpired \<Rightarrow> ''Step-up token expired'' | ReasonWrongAction \<Rightarrow> ''Step-up token not valid for this action''
     | ReasonWrongAccount \<Rightarrow> ''Step-up token not valid for this account'' | ReasonOK \<Rightarrow> [])"

text \<open>The middleware: \<open>None\<close> hands the request on, \<open>Some\<close> is the 401 it answers.\<close>

definition RequireStepUp ::
  "string \<Rightarrow> time \<Rightarrow> principal option \<Rightarrow> string \<Rightarrow> stepup_store \<Rightarrow> http_resp option \<times> stepup_store"
where
  "RequireStepUp action now pr header s =
     (case pr of
        None \<Rightarrow> (Some (apierr_Write 401 ''unauthenticated''), s)
      | Some p \<Rightarrow>
          (case su_Consume now header (p_AccountID p) action s of
             (reason, s) \<Rightarrow>
               (if reason \<noteq> ReasonOK
                then Some (WriteCode 401 (stepUpErrorMessage reason) (stepUpErrorCode reason))
                else None, s)))"

section \<open>Invitations\<close>

definition inviteTTL :: duration where "inviteTTL = 5 * Minute"

record invite_slot =
  is_AccountID :: string
  is_Token :: string
  is_ExpiresAt :: time
  is_CreatedAt :: time

type_synonym invite_store = "(string, invite_slot) gomap"

definition NewInviteStore :: invite_store where
  "NewInviteStore = []"

definition inv_Create :: "time \<Rightarrow> string \<Rightarrow> string \<Rightarrow> invite_store \<Rightarrow> invite_slot \<times> invite_store" where
  "inv_Create now accountID token s =
     (let slot = \<lparr>is_AccountID = accountID, is_Token = token, is_ExpiresAt = now + inviteTTL, is_CreatedAt = now\<rparr>
      in (slot, AList.update accountID slot s))"

definition inv_FindForAccount :: "time \<Rightarrow> string \<Rightarrow> invite_store \<Rightarrow> invite_slot option \<times> invite_store" where
  "inv_FindForAccount now accountID s =
     (case map_of s accountID of
        None \<Rightarrow> (None, s)
      | Some slot \<Rightarrow>
          if \<not> is_ExpiresAt slot > now then (None, AList.delete accountID s) else (Some slot, s))"

text \<open>The loop over the slots: expired ones met on the way are deleted, a match ends it.\<close>

fun inv_find_loop :: "time \<Rightarrow> string \<Rightarrow> (string \<times> invite_slot) list \<Rightarrow> invite_store \<Rightarrow> invite_slot option \<times> invite_store"
where
  "inv_find_loop now token [] s = (None, s)"
| "inv_find_loop now token ((acc, slot) # slots) s =
     (if \<not> is_ExpiresAt slot > now then inv_find_loop now token slots (AList.delete acc s)
      else if is_Token slot = token then (Some slot, s)
      else inv_find_loop now token slots s)"

definition inv_FindByToken :: "time \<Rightarrow> string \<Rightarrow> invite_store \<Rightarrow> invite_slot option \<times> invite_store" where
  "inv_FindByToken now token s = inv_find_loop now token s s"

definition inv_ConsumeIfTokenMatches :: "string \<Rightarrow> string \<Rightarrow> invite_store \<Rightarrow> bool \<times> invite_store" where
  "inv_ConsumeIfTokenMatches accountID token s =
     (case map_of s accountID of
        None \<Rightarrow> (False, s)
      | Some slot \<Rightarrow> if is_Token slot \<noteq> token then (False, s) else (True, AList.delete accountID s))"

section \<open>Properties of tokens\<close>

text \<open>
  What the two clients need of the store beyond \<open>ttl_store\<close>: a sweep only removes. A bound on
  what readers can obtain for a key is then kept by every operation that does not insert it.
\<close>

locale token_store = ttl_store +
  assumes sweep_sub: "invar s \<Longrightarrow> live t (sweep now s) k = Some v \<Longrightarrow> live t s k = Some v"
begin

lemma bound_put:
  "invar s \<Longrightarrow> k' \<noteq> k \<Longrightarrow> \<forall>t v. live t s k = Some v \<longrightarrow> Q t v \<Longrightarrow>
     \<forall>t v. live t (put now k' w s) k = Some v \<longrightarrow> Q t v"
  by (metis put_live_other)

lemma bound_consume:
  "invar s \<Longrightarrow> \<forall>t v. live t s k = Some v \<longrightarrow> Q t v \<Longrightarrow>
     \<forall>t v. live t (snd (consume now k' s)) k = Some v \<longrightarrow> Q t v"
  by (auto simp: consume_live)

lemma bound_sweep:
  "invar s \<Longrightarrow> \<forall>t v. live t s k = Some v \<longrightarrow> Q t v \<Longrightarrow>
     \<forall>t v. live t (sweep now s) k = Some v \<longrightarrow> Q t v"
  using sweep_sub by blast

lemma bound_inserted:
  "invar s \<Longrightarrow> \<forall>t v. live t (put now k w s) k = Some v \<longrightarrow> v = w \<and> t < now + lifetime s"
  by (simp add: put_live_same)

lemma bound_consumed: "invar s \<Longrightarrow> \<forall>t v. live t (snd (consume now k s)) k = Some v \<longrightarrow> False"
  by (simp add: consume_live)

lemmas bounds = bound_put bound_consume bound_sweep

end

lemma eph_sweep_loop_sub:
  "map_of (snd (eph_sweep_loop now ks m)) k = Some e \<Longrightarrow> map_of m k = Some e"
  by (induction now ks m rule: eph_sweep_loop.induct)
     (auto simp: gomap_simps Let_def case_prod_beta split: option.splits if_splits)

interpretation tok: token_store eph_Put eph_Get eph_Consume eph_Delete eph_Sweep eph_ttl eph_live eph_inv
proof
  fix s :: "('a, 'b) eph_store" and t now k v
  assume "eph_live t (eph_Sweep now s) k = Some v"
  then show "eph_live t s k = Some v"
    using eph_sweep_loop_sub [of now "eph_order s" "eph_m s" k]
    by (auto simp: eph_live_def eph_Sweep_def case_prod_beta split: option.splits if_splits)
qed

subsection \<open>Step-up\<close>

datatype su_op = SuMint time time string string string | SuConsume time string string string | SuSweep time

fun su_step :: "su_op \<Rightarrow> stepup_store \<Rightarrow> stepup_store" where
  "su_step (SuMint now at token acc act) s = snd (su_Mint now at token acc act s)"
| "su_step (SuConsume now token acc act) s = snd (su_Consume now token acc act s)"
| "su_step (SuSweep now) s = eph_Sweep now s"

fun minted :: "su_op list \<Rightarrow> string list" where
  "minted [] = []"
| "minted (SuMint now at token acc act # ops) = token # minted ops"
| "minted (_ # ops) = minted ops"

lemma su_store_forms:
  "snd (su_Mint now at token acc act s) =
     eph_Put at token \<lparr>se_accountID = acc, se_action = act, se_expiresAt = now + stepUpTTL\<rparr> s"
  "snd (su_Consume now token acc act s) = (if token = [] then s else snd (eph_Consume now token s))"
  "snd (RequireStepUp act now pr header s) =
     (case pr of None \<Rightarrow> s | Some p \<Rightarrow> snd (su_Consume now header (p_AccountID p) act s))"
  by (simp_all add: su_Mint_def su_Consume_def RequireStepUp_def Let_def case_prod_beta split: option.split prod.split)

lemma su_step_ok: "eph_inv s \<and> eph_ttl s = d \<Longrightarrow> eph_inv (su_step op s) \<and> eph_ttl (su_step op s) = d"
  by (cases op)
     (auto simp: su_store_forms eph.invars eph_Put_def eph_PutTTL_fields eph_Consume_def eph_inv_PutTTL
       eph_inv_deleteLocked split: option.splits)

lemma su_run_ok: "eph_inv s \<and> eph_ttl s = d \<Longrightarrow> eph_inv (fold su_step ops s) \<and> eph_ttl (fold su_step ops s) = d"
  by (induction ops arbitrary: s) (simp_all add: su_step_ok)

lemma su_run_bound:
  "eph_inv s \<Longrightarrow> k \<notin> set (minted ops) \<Longrightarrow> \<forall>t v. eph_live t s k = Some v \<longrightarrow> Q t v \<Longrightarrow>
     \<forall>t v. eph_live t (fold su_step ops s) k = Some v \<longrightarrow> Q t v"
proof (induction ops arbitrary: s)
  case (Cons op ops)
  have inv: "eph_inv (su_step op s)" using su_step_ok [of s "eph_ttl s" op] Cons.prems(1) by simp
  have "k \<notin> set (minted ops)" using Cons.prems(2) by (cases op) auto
  moreover have "\<forall>t v. eph_live t (su_step op s) k = Some v \<longrightarrow> Q t v"
  proof (cases op)
    case (SuMint now at token acc act)
    with Cons.prems have "token \<noteq> k" by auto
    with SuMint tok.bound_put [OF Cons.prems(1) this Cons.prems(3)] show ?thesis by (simp add: su_store_forms)
  next
    case (SuConsume now token acc act)
    with Cons.prems(3) tok.bound_consume [OF Cons.prems(1,3), of now token] show ?thesis
      by (simp add: su_store_forms)
  next
    case (SuSweep now)
    with tok.bound_sweep [OF Cons.prems(1,3), of now] show ?thesis by simp
  qed
  ultimately show ?case using Cons.IH [OF inv] by simp
qed simp

lemma RequireStepUp_pass:
  "fst (RequireStepUp act now (Some p) tok s) = None \<longleftrightarrow>
     tok \<noteq> [] \<and> (\<exists>e. eph_live now s tok = Some e \<and> se_accountID e = p_AccountID p \<and> se_action e = act)"
  using eph_Consume_result [of now tok s]
  by (auto simp: RequireStepUp_def su_Consume_def case_prod_beta split: option.splits prod.splits)

text \<open>
  A step-up token opens one door, once, for ninety seconds. Whatever else was minted, consumed
  or swept before and after, a token minted for an account and an action lets through only a
  request of that account for that action, before its lifetime ends; and once it let a request
  through, it never lets another one through until it is minted again.
\<close>

theorem stepup_token_bound:
  assumes "fst (RequireStepUp act' t (Some p) tk
      (fold su_step ops (snd (su_Mint now at tk acc act (fold su_step ops0 NewStepUpStore))))) = None"
    and "tk \<notin> set (minted ops)" and "tk \<notin> set (minted ops2)"
  shows "p_AccountID p = acc \<and> act' = act \<and> t < at + stepUpTTL
    \<and> fst (RequireStepUp act2 t2 (Some p2) tk (fold su_step ops2
        (snd (RequireStepUp act' t (Some p) tk
          (fold su_step ops (snd (su_Mint now at tk acc act (fold su_step ops0 NewStepUpStore)))))))) \<noteq> None"
proof -
  let ?s0 = "fold su_step ops0 NewStepUpStore"
  let ?s1 = "fold su_step ops (snd (su_Mint now at tk acc act ?s0))"
  have ok0: "eph_inv ?s0" "eph_ttl ?s0 = stepUpTTL"
    using su_run_ok [of NewStepUpStore stepUpTTL ops0] by (simp_all add: NewStepUpStore_def eph_inv_New)
  have inv1: "eph_inv (snd (su_Mint now at tk acc act ?s0))"
    using ok0 by (simp add: su_store_forms eph.invars)
  have "\<forall>u v. eph_live u (snd (su_Mint now at tk acc act ?s0)) tk = Some v \<longrightarrow>
      v = \<lparr>se_accountID = acc, se_action = act, se_expiresAt = now + stepUpTTL\<rparr> \<and> u < at + stepUpTTL"
    using tok.bound_inserted [OF ok0(1)] ok0(2) by (simp add: su_store_forms)
  note bound = su_run_bound [OF inv1 assms(2) this]
  from assms(1) obtain e where e: "eph_live t ?s1 tk = Some e" "se_accountID e = p_AccountID p" "se_action e = act'"
    and ne: "tk \<noteq> []" by (auto simp: RequireStepUp_pass)
  with bound have "e = \<lparr>se_accountID = acc, se_action = act, se_expiresAt = now + stepUpTTL\<rparr>" "t < at + stepUpTTL"
    by blast+
  with e ne have first: "p_AccountID p = acc \<and> act' = act \<and> t < at + stepUpTTL" "tk \<noteq> []" by auto
  have inv2: "eph_inv ?s1" using su_run_ok [of "snd (su_Mint now at tk acc act ?s0)" _ ops] inv1 by simp
  have "\<forall>u v. eph_live u (snd (RequireStepUp act' t (Some p) tk ?s1)) tk = Some v \<longrightarrow> False"
    using tok.bound_consumed [OF inv2] first(2) by (simp add: su_store_forms)
  moreover have "eph_inv (snd (RequireStepUp act' t (Some p) tk ?s1))"
    using inv2 first(2) by (simp add: su_store_forms eph.invars)
  ultimately have "eph_live t2 (fold su_step ops2 (snd (RequireStepUp act' t (Some p) tk ?s1))) tk = None"
    using su_run_bound [of _ tk ops2 "\<lambda>_ _. False"] assms(3) by (metis not_None_eq)
  then show ?thesis using first(1) by (simp add: RequireStepUp_pass)
qed

theorem stepup_token_bound_witness:
  "let s1 = snd (su_Mint 0 0 ''tk'' ''acc1'' ''pin_host_key'' NewStepUpStore);
       s2 = snd (RequireStepUp ''pin_host_key'' 5 (Some ex_principal) ''tk'' s1)
   in fst (RequireStepUp ''pin_host_key'' 5 (Some ex_principal) ''tk'' s1) = None
      \<and> fst (RequireStepUp ''pin_host_key'' 6 (Some ex_principal) ''tk'' s2) \<noteq> None"
proof -
  let ?s1 = "fold su_step [] (snd (su_Mint 0 0 ''tk'' ''acc1'' ''pin_host_key'' (fold su_step [] NewStepUpStore)))"
  have pass: "fst (RequireStepUp ''pin_host_key'' 5 (Some ex_principal) ''tk'' ?s1) = None"
    by (simp add: RequireStepUp_pass su_store_forms eph_Put_def eph_PutTTL_live_same NewStepUpStore_def
        stepUpTTL_def ex_principal_def)
  from stepup_token_bound [OF pass, of "[]" "''pin_host_key''" 6 ex_principal] pass
  show ?thesis by simp
qed


subsection \<open>Challenges\<close>

text \<open>The store's own histories cover everything the challenge store does to it.\<close>

lemma eph_run_bound:
  "eph_inv s \<Longrightarrow> \<forall>(now, x) \<in> set h. \<not> puts x k \<Longrightarrow> \<forall>t v. eph_live t s k = Some v \<longrightarrow> Q t v \<Longrightarrow>
     \<forall>t v. eph_live t (eph_run h s) k = Some v \<longrightarrow> Q t v"
proof (induction h s rule: eph_run.induct)
  case (2 now x h s)
  have "\<forall>t v. eph_live t (eph_apply now x s) k = Some v \<longrightarrow> Q t v"
  proof (cases x)
    case (OpPut k' v ttl)
    with 2 have "k' \<noteq> k" by auto
    then have "eph_live t s k = Some w" if "eph_live t (eph_apply now x s) k = Some w" for t w
      using that OpPut eph_PutTTL_live_other [OF 2(2), of k k' t now v ttl w] by simp
    with 2(4) show ?thesis by blast
  next
    case (OpGet k')
    then have "eph_live t s k = Some w" if "eph_live t (eph_apply now x s) k = Some w" for t w
      using that eph_Get_sub [of t now k' s k w] by simp
    with 2(4) show ?thesis by blast
  next
    case (OpConsume k')
    with tok.bound_consume [OF 2(2,4), of now k'] show ?thesis by simp
  next
    case (OpDelete k')
    with 2 show ?thesis by (auto simp: eph.delete_live)
  next
    case OpSweep
    with tok.bound_sweep [OF 2(2,4), of now] show ?thesis by simp
  qed
  with 2 show ?case by (simp add: eph_inv_apply)
qed simp

lemma ch_Consume_result:
  "fst (ch_Consume t k purp c) = (case eph_live t c k of None \<Rightarrow> [] | Some e \<Rightarrow>
     if ce_purpose e = purp then ce_challenge e else [])"
  "snd (ch_Consume t k purp c) = snd (eph_Consume t k c)"
  by (simp_all add: ch_Consume_def case_prod_beta flip: eph_Consume_result split: option.split)

text \<open>
  A challenge is good for one ceremony of one kind. What a consumer obtains for a challenge id
  is the challenge stored last under it, only for the purpose it was stored for and within its
  lifetime; and whatever the first attempt asked for, right purpose or wrong, no later attempt
  obtains anything under the id until it is stored again.
\<close>

theorem challenge_purpose_bound:
  assumes "fst (ch_Consume t k purp' (eph_run h (ch_Store now k chal purp (eph_run h0 NewChallengeStore)))) \<noteq> []"
    and "\<forall>(t, x) \<in> set h. \<not> puts x k" and "\<forall>(t, x) \<in> set h'. \<not> puts x k"
  shows "purp' = purp \<and> t < now + challengeTTL
    \<and> fst (ch_Consume t k purp' (eph_run h (ch_Store now k chal purp (eph_run h0 NewChallengeStore)))) = chal
    \<and> fst (ch_Consume t2 k purp2 (eph_run h' (snd (ch_Consume t1 k purp1
        (eph_run h (ch_Store now k chal purp (eph_run h0 NewChallengeStore))))))) = []"
proof -
  let ?s0 = "eph_run h0 NewChallengeStore" and ?e = "\<lparr>ce_challenge = chal, ce_purpose = purp\<rparr>"
  let ?s1 = "eph_run h (ch_Store now k chal purp ?s0)"
  have inv0: "eph_inv ?s0" "eph_ttl ?s0 = challengeTTL"
    by (simp_all add: NewChallengeStore_def eph_inv_run eph_inv_New)
  have inv1: "eph_inv (ch_Store now k chal purp ?s0)" using inv0 by (simp add: ch_Store_def eph.invars)
  have "\<forall>t v. eph_live t (ch_Store now k chal purp ?s0) k = Some v \<longrightarrow> v = ?e \<and> t < now + challengeTTL"
    using tok.bound_inserted [OF inv0(1)] inv0(2) by (simp add: ch_Store_def)
  note bound = eph_run_bound [OF inv1 assms(2) this]
  from assms(1) obtain e where e: "eph_live t ?s1 k = Some e" "ce_purpose e = purp'"
    by (auto simp: ch_Consume_result split: option.splits if_splits)
  with bound have "e = ?e" "t < now + challengeTTL" by blast+
  moreover have "eph_inv (snd (ch_Consume t1 k purp1 ?s1))"
    using inv1 by (simp add: ch_Consume_result eph.invars eph_inv_run)
  then have "\<forall>t v. eph_live t (eph_run h' (snd (ch_Consume t1 k purp1 ?s1))) k = Some v \<longrightarrow> False"
    by (rule eph_run_bound [OF _ assms(3)])
       (use tok.bound_consumed [OF eph_inv_run [OF inv1]] in \<open>simp add: ch_Consume_result\<close>)
  ultimately show ?thesis
    using e by (auto simp: ch_Consume_result split: option.splits)
qed

theorem challenge_purpose_bound_witness:
  "let s = ch_Store 0 ''id'' ''chal'' PurposeLogin NewChallengeStore
   in fst (ch_Consume 5 ''id'' PurposeLogin s) = ''chal''
      \<and> fst (ch_Consume 7 ''id'' PurposeLogin (snd (ch_Consume 6 ''id'' PurposeRegisterInvite s))) = []"
proof -
  let ?s = "eph_run [] (ch_Store 0 ''id'' ''chal'' PurposeLogin (eph_run [] NewChallengeStore))"
  have "fst (ch_Consume 5 ''id'' PurposeLogin ?s) \<noteq> []"
    by (simp add: ch_Consume_result ch_Store_def eph_Put_def eph_PutTTL_live_same NewChallengeStore_def challengeTTL_def)
  from challenge_purpose_bound [OF this, of "[]" 7 PurposeLogin 6 PurposeRegisterInvite]
  show ?thesis by simp
qed

section \<open>Properties of invitations\<close>

datatype inv_op =
    InvCreate time string string
  | InvFindForAccount time string
  | InvFindByToken time string
  | InvConsume string string

fun inv_step :: "inv_op \<Rightarrow> invite_store \<Rightarrow> invite_store" where
  "inv_step (InvCreate now acc token) s = snd (inv_Create now acc token s)"
| "inv_step (InvFindForAccount now acc) s = snd (inv_FindForAccount now acc s)"
| "inv_step (InvFindByToken now token) s = snd (inv_FindByToken now token s)"
| "inv_step (InvConsume acc token) s = snd (inv_ConsumeIfTokenMatches acc token s)"

fun inv_wins :: "inv_op \<Rightarrow> invite_store \<Rightarrow> string \<times> string \<Rightarrow> bool" where
  "inv_wins (InvConsume acc token) s k = (k = (acc, token) \<and> fst (inv_ConsumeIfTokenMatches acc token s))"
| "inv_wins _ s k = False"

fun inv_creates :: "inv_op \<Rightarrow> string \<times> string \<Rightarrow> bool" where
  "inv_creates (InvCreate now acc token) k = (k = (acc, token))"
| "inv_creates _ k = False"

definition inv_open :: "invite_store \<Rightarrow> string \<times> string \<Rightarrow> bool" where
  "inv_open s k \<longleftrightarrow> (case map_of s (fst k) of None \<Rightarrow> False | Some slot \<Rightarrow> is_Token slot = snd k)"

lemma inv_find_loop_sub:
  "map_of (snd (inv_find_loop now token slots s)) acc = Some slot \<Longrightarrow> map_of s acc = Some slot"
  by (induction now token slots s rule: inv_find_loop.induct) (auto simp: gomap_simps split: if_splits)

lemma inv_consume_forms:
  "fst (inv_ConsumeIfTokenMatches acc token s) = inv_open s (acc, token)"
  "snd (inv_ConsumeIfTokenMatches acc token s) = (if inv_open s (acc, token) then AList.delete acc s else s)"
  by (simp_all add: inv_ConsumeIfTokenMatches_def inv_open_def split: option.split)

interpretation inv: claim_registry inv_open inv_step inv_wins inv_creates
proof
  fix op s k
  assume "inv_wins op s k"
  then show "inv_open s k" "\<not> inv_open (inv_step op s) k"
    by (cases op; simp add: inv_consume_forms inv_open_def gomap_simps)+
next
  fix op s k
  assume closed: "\<not> inv_open s k" "\<not> inv_creates op k"
  show "\<not> inv_open (inv_step op s) k"
  proof (cases op)
    case (InvFindByToken now token)
    with closed show ?thesis
      by (auto simp: inv_open_def inv_FindByToken_def dest: inv_find_loop_sub split: option.splits)
  qed (use closed in \<open>auto simp: inv_open_def inv_Create_def inv_FindForAccount_def inv_consume_forms gomap_simps
      Let_def split: option.splits if_splits\<close>)
qed

text \<open>
  An invitation is redeemed at most once. However look-ups, expiries, superseding invitations
  and redemptions interleave, of all redemptions of an account's token at most one succeeds until
  that token is issued again.
\<close>

theorem invite_single_use:
  assumes "\<forall>op \<in> set ops. \<not> inv_creates op (acc, token)"
  shows "win_count inv_step inv_wins (acc, token) ops s \<le> 1"
  using assms by (rule inv.single_winner)

theorem invite_single_use_witness:
  "win_count inv_step inv_wins (''acc1'', ''t1'') [InvConsume ''acc1'' ''t1'', InvConsume ''acc1'' ''t1'']
     (snd (inv_Create 0 ''acc1'' ''t1'' NewInviteStore)) \<le> 1
   \<and> fst (inv_ConsumeIfTokenMatches ''acc1'' ''t1'' (snd (inv_Create 0 ''acc1'' ''t1'' NewInviteStore)))"
  using invite_single_use [of "[InvConsume ''acc1'' ''t1'', InvConsume ''acc1'' ''t1'']" "''acc1''" "''t1''"
      "snd (inv_Create 0 ''acc1'' ''t1'' NewInviteStore)"]
  by (simp add: inv_Create_def NewInviteStore_def inv_ConsumeIfTokenMatches_def Let_def)

lemma inv_find_loop_result:
  "fst (inv_find_loop now token slots s) = map_option snd (find (\<lambda>e. now < is_ExpiresAt (snd e) \<and> is_Token (snd e) = token) slots)"
  by (induction now token slots s rule: inv_find_loop.induct) auto

text \<open>
  A superseded invitation is dead and harmless. After an account's new invitation was issued,
  redeeming the old token fails and leaves the new slot in place; the token look-up answers a
  token exactly when a live slot holds it.
\<close>

theorem invite_superseded:
  assumes "token \<noteq> token'"
  shows "fst (inv_ConsumeIfTokenMatches acc token (snd (inv_Create now acc token' s))) = False
    \<and> snd (inv_ConsumeIfTokenMatches acc token (snd (inv_Create now acc token' s))) = snd (inv_Create now acc token' s)
    \<and> (fst (inv_FindByToken t tk s) = None \<longleftrightarrow>
        \<not> (\<exists>e \<in> set s. t < is_ExpiresAt (snd e) \<and> is_Token (snd e) = tk))
    \<and> (\<forall>slot. fst (inv_FindByToken t tk s) = Some slot \<longrightarrow> t < is_ExpiresAt slot \<and> is_Token slot = tk)"
proof -
  have "t < is_ExpiresAt slot \<and> is_Token slot = tk" if "fst (inv_FindByToken t tk s) = Some slot" for slot
  proof -
    from that obtain e where "find (\<lambda>e. t < is_ExpiresAt (snd e) \<and> is_Token (snd e) = tk) s = Some e" "slot = snd e"
      by (auto simp: inv_FindByToken_def inv_find_loop_result)
    then show ?thesis by (auto simp: find_Some_iff)
  qed
  moreover have "fst (inv_FindByToken t tk s) = None \<longleftrightarrow>
      \<not> (\<exists>e \<in> set s. t < is_ExpiresAt (snd e) \<and> is_Token (snd e) = tk)"
    by (force simp: inv_FindByToken_def inv_find_loop_result find_None_iff)
  ultimately show ?thesis
    using assms by (simp add: inv_consume_forms inv_open_def inv_Create_def Let_def gomap_simps)
qed

theorem invite_superseded_witness:
  "fst (inv_ConsumeIfTokenMatches ''acc1'' ''t1'' (snd (inv_Create 0 ''acc1'' ''t2'' NewInviteStore))) = False"
  using invite_superseded [of "''t1''" "''t2''" "''acc1''" 0 NewInviteStore] by simp

end
