(* ===== verification/Go_Net.thy ===== *)
theory Go_Net
  imports Go_Strings
begin

text \<open>
  What the sources use of Go's \<open>net\<close> package: \<open>ParseIP\<close>, \<open>ParseCIDR\<close>, \<open>IP.To4\<close>, \<open>IPNet.Contains\<close>
  and \<open>SplitHostPort\<close>. Addresses and masks are byte lists of length 4 or 16, as in Go.
\<close>

section \<open>Numbers\<close>

definition digit_val :: "char \<Rightarrow> nat option" where
  "digit_val c = (let n = of_char c :: nat in if 48 \<le> n \<and> n \<le> 57 then Some (n - 48) else None)"

definition hex_val :: "char \<Rightarrow> nat option" where
  "hex_val c =
     (let n = of_char c :: nat in
      if 48 \<le> n \<and> n \<le> 57 then Some (n - 48)
      else if 97 \<le> n \<and> n \<le> 102 then Some (n - 87)
      else if 65 \<le> n \<and> n \<le> 70 then Some (n - 55)
      else None)"

text \<open>The digits a string starts with, their value, and the rest.\<close>

fun dtoi_from :: "nat \<Rightarrow> string \<Rightarrow> nat \<times> string" where
  "dtoi_from acc [] = (acc, [])"
| "dtoi_from acc (c # cs) = (case digit_val c of None \<Rightarrow> (acc, c # cs) | Some d \<Rightarrow> dtoi_from (acc * 10 + d) cs)"

text \<open>\<open>strconv.Atoi\<close>: an optional sign and decimal digits, in the range of \<open>int\<close>.\<close>

definition Atoi :: "string \<Rightarrow> int option" where
  "Atoi s =
     (let neg = (s \<noteq> [] \<and> hd s = CHR ''-'');
          ds = (if s \<noteq> [] \<and> (hd s = CHR ''-'' \<or> hd s = CHR ''+'') then tl s else s)
      in case dtoi_from 0 ds of
           (n, rest) \<Rightarrow>
             if ds = [] \<or> rest \<noteq> [] then None
             else let i = (if neg then - int n else int n) in if in_i64 i then Some i else None)"

lemma dtoi_from_append:
  "dtoi_from a xs = (b, []) \<Longrightarrow> dtoi_from a (xs @ ys) = dtoi_from b ys"
  by (induction xs arbitrary: a) (auto split: option.splits)

lemma digit_val_digit: "d < 10 \<Longrightarrow> digit_val (char_of (48 + d)) = Some d"
  by (simp add: digit_val_def Let_def)

lemma dtoi_digits: "dtoi_from 0 (dec_digits n) = (n, [])"
proof (induction n rule: dec_digits.induct)
  case (1 n)
  show ?case
  proof (cases "n < 10")
    case True
    then show ?thesis by (subst dec_digits.simps) (simp add: digit_val_digit)
  next
    case False
    with 1 have "dtoi_from 0 (dec_digits (n div 10)) = (n div 10, [])" by simp
    from dtoi_from_append [OF this, of "[char_of (48 + n mod 10)]"] False show ?thesis
      by (subst dec_digits.simps) (simp add: digit_val_digit)
  qed
qed

lemma dec_digits_digits: "c \<in> set (dec_digits n) \<Longrightarrow> digit_val c \<noteq> None"
proof (induction n rule: dec_digits.induct)
  case (1 n)
  have "digit_val (char_of (48 + n mod 10)) \<noteq> None" by (simp add: digit_val_digit)
  with 1 show ?case by (cases "n < 10") (subst (asm) (2) dec_digits.simps, auto simp: digit_val_digit)+
qed

lemma dec_digits_nonempty [simp]: "dec_digits n \<noteq> []"
  by (subst dec_digits.simps) simp

section \<open>Addresses\<close>

text \<open>A decimal octet: digits only, no leading zero, at most 255.\<close>

definition octet :: "string \<Rightarrow> byte option" where
  "octet s =
     (if s = [] \<or> (length s > 1 \<and> hd s = CHR ''0'') \<or> length s > 3 then None
      else case dtoi_from 0 s of
             (n, []) \<Rightarrow> if n \<le> 255 then Some (of_nat n) else None
           | _ \<Rightarrow> None)"

definition parse_v4 :: "string \<Rightarrow> byte list option" where
  "parse_v4 s =
     (case map octet (split_on CHR ''.'' s) of
        [Some a, Some b, Some c, Some d] \<Rightarrow> Some [a, b, c, d]
      | _ \<Rightarrow> None)"

text \<open>The hexadecimal digits a string starts with: how many, their value, the rest.\<close>

fun hex_from :: "nat \<Rightarrow> nat \<Rightarrow> string \<Rightarrow> nat \<times> nat \<times> string" where
  "hex_from n acc [] = (n, acc, [])"
| "hex_from n acc (c # cs) =
     (case hex_val c of None \<Rightarrow> (n, acc, c # cs) | Some d \<Rightarrow> hex_from (Suc n) (acc * 16 + d) cs)"

text \<open>
  The field loop of an IPv6 address. \<open>acc\<close> holds the bytes read so far, \<open>ell\<close> the position of
  \<open>::\<close> once seen; the fuel bounds the number of fields (at most eight of two bytes fit).
\<close>

fun v6_fields :: "nat \<Rightarrow> byte list \<Rightarrow> nat option \<Rightarrow> string \<Rightarrow> (byte list \<times> nat option) option" where
  "v6_fields 0 acc ell s = (if s = [] then Some (acc, ell) else None)"
| "v6_fields (Suc f) acc ell s =
     (case hex_from 0 0 s of (n, v, rest) \<Rightarrow>
        if n = 0 \<or> n > 4 then None
        else if rest \<noteq> [] \<and> hd rest = CHR ''.''
        then if (ell = None \<and> length acc \<noteq> 12) \<or> length acc + 4 > 16 then None
             else map_option (\<lambda>b. (acc @ b, ell)) (parse_v4 s)
        else let acc = acc @ [of_nat (v div 256), of_nat (v mod 256)] in
             case rest of
               [] \<Rightarrow> Some (acc, ell)
             | c # cs \<Rightarrow>
                 if c \<noteq> CHR '':'' \<or> cs = [] then None
                 else if hd cs = CHR '':''
                 then if ell \<noteq> None then None
                      else if tl cs = [] then Some (acc, Some (length acc))
                      else v6_fields f acc (Some (length acc)) (tl cs)
                 else v6_fields f acc ell cs)"

definition v6_expand :: "byte list \<times> nat option \<Rightarrow> byte list option" where
  "v6_expand r =
     (case r of (acc, ell) \<Rightarrow>
        if length acc < 16
        then (case ell of None \<Rightarrow> None
                | Some e \<Rightarrow> Some (take e acc @ replicate (16 - length acc) 0 @ drop e acc))
        else if ell \<noteq> None then None else Some acc)"

definition parse_v6 :: "string \<Rightarrow> byte list option" where
  "parse_v6 s =
     (if CHR ''%'' \<in> set s then None
      else if has_prefix s ''::''
      then if drop 2 s = [] then Some (replicate 16 0)
           else Option.bind (v6_fields 8 [] (Some 0) (drop 2 s)) v6_expand
      else Option.bind (v6_fields 8 [] None s) v6_expand)"

text \<open>The first of the characters \<open>. : %\<close> decides; the family is kept for \<open>ParseCIDR\<close>.\<close>

datatype addr = V4 "byte list" | V6 "byte list"

definition parse_addr :: "string \<Rightarrow> addr option" where
  "parse_addr s =
     (case find (\<lambda>c. c = CHR ''.'' \<or> c = CHR '':'' \<or> c = CHR ''%'') s of
        None \<Rightarrow> None
      | Some c \<Rightarrow>
          if c = CHR ''.'' then map_option V4 (parse_v4 s)
          else if c = CHR '':'' then map_option V6 (parse_v6 s)
          else None)"

definition v4_in_v6 :: "byte list" where
  "v4_in_v6 = replicate 10 0 @ [0xFF, 0xFF]"

fun as16 :: "addr \<Rightarrow> byte list" where
  "as16 (V4 b) = v4_in_v6 @ b"
| "as16 (V6 b) = b"

definition ParseIP :: "string \<Rightarrow> byte list option" where
  "ParseIP s = map_option as16 (parse_addr s)"

definition To4 :: "byte list \<Rightarrow> byte list option" where
  "To4 ip =
     (if length ip = 4 then Some ip
      else if length ip = 16 \<and> take 12 ip = v4_in_v6 then Some (drop 12 ip)
      else None)"

section \<open>Networks\<close>

text \<open>A network: its address and its mask.\<close>

type_synonym ipnet = "byte list \<times> byte list"

definition CIDRMask :: "nat \<Rightarrow> nat \<Rightarrow> byte list" where
  "CIDRMask ones bits =
     map (\<lambda>i. if 8 * i + 8 \<le> ones then 0xFF
              else if ones \<le> 8 * i then 0
              else not (mask (8 - (ones - 8 * i)))) [0..<bits div 8]"

definition apply_mask :: "byte list \<Rightarrow> byte list \<Rightarrow> byte list option" where
  "apply_mask ip m =
     (let ip = (if length m = 4 \<and> length ip = 16 \<and> take 12 ip = v4_in_v6 then drop 12 ip else ip)
      in if length ip \<noteq> length m then None else Some (map2 and ip m))"

fun cut_at :: "char \<Rightarrow> string \<Rightarrow> (string \<times> string) option" where
  "cut_at c [] = None"
| "cut_at c (x # xs) = (if x = c then Some ([], xs) else map_option (\<lambda>(a, b). (x # a, b)) (cut_at c xs))"

definition bit_len :: "addr \<Rightarrow> nat" where
  "bit_len a = (case a of V4 _ \<Rightarrow> 32 | V6 _ \<Rightarrow> 128)"

definition ParseCIDR :: "string \<Rightarrow> ipnet option" where
  "ParseCIDR s =
     (case cut_at CHR ''/'' s of
        None \<Rightarrow> None
      | Some (a, m) \<Rightarrow>
          (case parse_addr a of
             None \<Rightarrow> None
           | Some ad \<Rightarrow>
               (case dtoi_from 0 m of (n, rest) \<Rightarrow>
                  if m = [] \<or> rest \<noteq> [] \<or> n > bit_len ad then None
                  else let mk = CIDRMask n (bit_len ad)
                       in map_option (\<lambda>ip. (ip, mk)) (apply_mask (as16 ad) mk))))"

definition net_number :: "ipnet \<Rightarrow> (byte list \<times> byte list) option" where
  "net_number n =
     (let ip = (case To4 (fst n) of Some x \<Rightarrow> x | None \<Rightarrow> fst n); m = snd n in
      if length ip \<noteq> 4 \<and> length ip \<noteq> 16 then None
      else if length m = 4 then if length ip \<noteq> 4 then None else Some (ip, m)
      else if length m = 16 then Some (ip, if length ip = 4 then drop 12 m else m)
      else None)"

definition Contains :: "ipnet \<Rightarrow> byte list \<Rightarrow> bool" where
  "Contains n ip =
     (case net_number n of
        None \<Rightarrow> False
      | Some (nn, m) \<Rightarrow>
          let ip = (case To4 ip of Some x \<Rightarrow> x | None \<Rightarrow> ip)
          in length ip = length nn \<and> map2 and nn m = map2 and ip m)"

section \<open>Host and port\<close>

definition last_index :: "char \<Rightarrow> string \<Rightarrow> nat option" where
  "last_index c s = (if c \<in> set s then Some (length s - 1 - length (takeWhile (\<lambda>x. x \<noteq> c) (rev s))) else None)"

definition index_byte_of :: "char \<Rightarrow> string \<Rightarrow> nat option" where
  "index_byte_of c s = (if c \<in> set s then Some (length (takeWhile (\<lambda>x. x \<noteq> c) s)) else None)"

text \<open>The host part, \<open>None\<close> for the errors of \<open>SplitHostPort\<close>.\<close>

definition SplitHost :: "string \<Rightarrow> string option" where
  "SplitHost hostport =
     (case last_index CHR '':'' hostport of
        None \<Rightarrow> None
      | Some i \<Rightarrow>
          if hd hostport = CHR ''[''
          then (case index_byte_of CHR '']'' hostport of
                  None \<Rightarrow> None
                | Some e \<Rightarrow>
                    if e + 1 \<noteq> i \<or> CHR ''['' \<in> set (drop 1 hostport) \<or> CHR '']'' \<in> set (drop (e + 1) hostport)
                    then None else Some (take (e - 1) (drop 1 hostport)))
          else if CHR '':'' \<in> set (take i hostport) \<or> CHR ''['' \<in> set hostport \<or> CHR '']'' \<in> set hostport
          then None else Some (take i hostport))"

end
