(* ===== verification/Real_IP.thy ===== *)
theory Real_IP
  imports Go_Net Http_Errors
begin

text \<open>
  \<open>src/internal/realip/realip.go\<close> and \<open>src/internal/auth/ipallowlist.go\<close>: the client address
  behind trusted proxies, and the network allowlist in front of the MCP surface. A request is its
  socket peer (\<open>RemoteAddr\<close>), its \<open>X-Forwarded-For\<close> header lines, and the address the middleware
  stored in its context (empty when it did not run).
\<close>

section \<open>Resolver\<close>

record ip_resolver =
  ir_trustAll :: bool
  ir_nets :: "ipnet list"

record ip_request =
  iq_RemoteAddr :: string
  iq_XForwardedFor :: "string list"
  iq_context :: string

text \<open>The configuration value: a boolean, a comma-separated string, or a list.\<close>

datatype trust_proxy = TrustBool bool | TrustString string | TrustList "string list" | TrustOther

definition presets :: "(string, string list) gomap" where
  "presets = [(''loopback'', [''127.0.0.0/8'', ''::1/128'']),
     (''linklocal'', [''169.254.0.0/16'', ''fe80::/10'']),
     (''uniquelocal'', [''10.0.0.0/8'', ''172.16.0.0/12'', ''192.168.0.0/16'', ''fc00::/7''])]"

definition add_cidrs :: "string list \<Rightarrow> ip_resolver \<Rightarrow> ip_resolver" where
  "add_cidrs cidrs r = r\<lparr>ir_nets := ir_nets r @ List.map_filter ParseCIDR cidrs\<rparr>"

definition addEntry :: "string \<Rightarrow> ip_resolver \<Rightarrow> ip_resolver" where
  "addEntry entry r =
     (if entry = [] then r
      else case map_of presets entry of
             Some cidrs \<Rightarrow> add_cidrs cidrs r
           | None \<Rightarrow>
               (case ParseCIDR entry of
                  Some n \<Rightarrow> r\<lparr>ir_nets := ir_nets r @ [n]\<rparr>
                | None \<Rightarrow>
                    (case ParseIP entry of
                       None \<Rightarrow> r
                     | Some ip \<Rightarrow>
                         let bits = (if To4 ip = None then 128 else 32)
                         in r\<lparr>ir_nets := ir_nets r @ [(ip, CIDRMask bits bits)]\<rparr>)))"

definition ir_New :: "trust_proxy \<Rightarrow> ip_resolver" where
  "ir_New trustProxy =
     (let r = \<lparr>ir_trustAll = False, ir_nets = []\<rparr> in
      case trustProxy of
        TrustBool v \<Rightarrow> r\<lparr>ir_trustAll := v\<rparr>
      | TrustString v \<Rightarrow> fold (\<lambda>part. addEntry (trim_space part)) (split_on CHR '','' v) r
      | TrustList vs \<Rightarrow> fold (\<lambda>s. addEntry (trim_space s)) vs r
      | TrustOther \<Rightarrow> r)"

definition ip_stripZone :: "string \<Rightarrow> string" where
  "ip_stripZone ip = takeWhile (\<lambda>c. c \<noteq> CHR ''%'') ip"

definition trusted :: "ip_resolver \<Rightarrow> string \<Rightarrow> bool" where
  "trusted r ip \<longleftrightarrow>
     ir_trustAll r \<or>
     (case ParseIP (ip_stripZone ip) of None \<Rightarrow> False | Some p \<Rightarrow> list_ex (\<lambda>n. Contains n p) (ir_nets r))"

definition remoteHost :: "ip_request \<Rightarrow> string" where
  "remoteHost req = (case SplitHost (iq_RemoteAddr req) of None \<Rightarrow> iq_RemoteAddr req | Some h \<Rightarrow> h)"

definition forwardedChain :: "ip_request \<Rightarrow> string list" where
  "forwardedChain req =
     concat (map (\<lambda>h. filter (\<lambda>p. p \<noteq> []) (map trim_space (split_on CHR '','' h))) (iq_XForwardedFor req))"

text \<open>The walk over the forwarded chain, from its right end.\<close>

fun walk :: "ip_resolver \<Rightarrow> string \<Rightarrow> string list \<Rightarrow> string" where
  "walk r current [] = current"
| "walk r current (hop # hops) = (if \<not> trusted r current then current else walk r hop hops)"

definition ClientIP :: "ip_resolver \<Rightarrow> ip_request \<Rightarrow> string" where
  "ClientIP r req =
     (let peer = remoteHost req; xff = forwardedChain req in
      if \<not> ir_trustAll r \<and> ir_nets r = [] then peer else walk r peer (rev xff))"

definition ip_Middleware :: "ip_resolver \<Rightarrow> ip_request \<Rightarrow> ip_request" where
  "ip_Middleware r req = req\<lparr>iq_context := ClientIP r req\<rparr>"

definition FromRequest :: "ip_request \<Rightarrow> string" where
  "FromRequest req = (if iq_context req \<noteq> [] then iq_context req else remoteHost req)"

section \<open>Allowlist\<close>

definition NewIPChecker :: "string list \<Rightarrow> ipnet list" where
  "NewIPChecker allowedNetworks = List.map_filter ParseCIDR allowedNetworks"

fun stripZone :: "string \<Rightarrow> string" where
  "stripZone [] = []"
| "stripZone (c # cs) = (if c = CHR ''%'' then [] else c # stripZone cs)"

definition Allowed :: "ipnet list \<Rightarrow> string \<Rightarrow> bool" where
  "Allowed nets ip =
     (case ParseIP (stripZone ip) of None \<Rightarrow> False | Some p \<Rightarrow> list_ex (\<lambda>n. Contains n p) nets)"

text \<open>\<open>None\<close> hands the request on.\<close>

definition allowlist_Middleware :: "ipnet list \<Rightarrow> ip_request \<Rightarrow> http_resp option" where
  "allowlist_Middleware nets req =
     (if \<not> Allowed nets (FromRequest req) then Some (apierr_Write 403 ''Forbidden'') else None)"

section \<open>Properties\<close>

text \<open>
  The specification of the walk: with the hops written from the server outwards, the client is the
  first hop that is not trusted, or the outermost one if all are.
\<close>

lemma walk_spec:
  "walk r peer hops = (case find (\<lambda>h. \<not> trusted r h) (peer # hops) of Some h \<Rightarrow> h | None \<Rightarrow> last (peer # hops))"
  by (induction hops arbitrary: peer) (auto split: option.split)

lemma find_append: "find P (xs @ ys) = (case find P xs of Some x \<Rightarrow> Some x | None \<Rightarrow> find P ys)"
  by (induction xs) auto

lemma stripZone_eq: "stripZone s = takeWhile (\<lambda>c. c \<noteq> CHR ''%'') s"
  by (induction s) auto

lemma ClientIP_spec:
  assumes "ir_trustAll r \<or> ir_nets r \<noteq> []"
  shows "ClientIP r req = (case find (\<lambda>h. \<not> trusted r h) (remoteHost req # rev (forwardedChain req)) of
     Some h \<Rightarrow> h | None \<Rightarrow> last (remoteHost req # rev (forwardedChain req)))"
  using assms by (auto simp: ClientIP_def Let_def walk_spec)

text \<open>
  The client address cannot be forged past the first untrusted hop. For every configuration,
  the result is the hop nearest to the server that is not a trusted proxy (the outermost hop when
  all are trusted). If that hop is untrusted, then entries put in front of the ones seen, that is
  anything the client itself sends, do not change the result; and a peer that is not trusted is
  itself the result whatever the header says.
\<close>

theorem client_ip_unforgeable:
  fixes req req' :: ip_request
  assumes "\<not> trusted r (ClientIP r req)"
    and "iq_RemoteAddr req' = iq_RemoteAddr req" and "forwardedChain req' = forged @ forwardedChain req"
  shows "ClientIP r req' = ClientIP r req
    \<and> (\<not> trusted r (remoteHost req) \<longrightarrow> ClientIP r req = remoteHost req)"
proof (cases "ir_trustAll r \<or> ir_nets r \<noteq> []")
  case False
  with assms(2) show ?thesis by (simp add: ClientIP_def remoteHost_def split: option.split)
next
  case True
  let ?P = "\<lambda>h. \<not> trusted r h" and ?hops = "remoteHost req # rev (forwardedChain req)"
  have "find ?P ?hops \<noteq> None"
  proof
    assume "find ?P ?hops = None"
    moreover from this have "\<forall>h \<in> set ?hops. trusted r h" by (metis (no_types, lifting) find_None_iff)
    ultimately have "ClientIP r req = last ?hops" "\<forall>h \<in> set ?hops. trusted r h"
      by (simp_all only: ClientIP_spec [OF True] option.case)
    moreover have "last ?hops \<in> set ?hops" by (rule last_in_set) (rule list.distinct(2))
    ultimately show False using assms(1) by metis
  qed
  then obtain h where h: "find ?P ?hops = Some h" by auto
  have "remoteHost req' # rev (forwardedChain req') = ?hops @ rev forged"
    using assms(2,3) by (simp add: remoteHost_def split: option.split)
  then have "find ?P (remoteHost req' # rev (forwardedChain req')) = Some h"
    using h by (simp only: find_append option.case)
  then have "ClientIP r req' = h" by (simp only: ClientIP_spec [OF True] option.case)
  moreover have "ClientIP r req = h" using h by (simp only: ClientIP_spec [OF True] option.case)
  ultimately show ?thesis using h by auto
qed

text \<open>A proxy on the loopback interface, and a client that forges a header line.\<close>

definition ex_resolver :: ip_resolver where
  "ex_resolver = ir_New (TrustString ''loopback'')"

definition ex_ipreq :: ip_request where
  "ex_ipreq = \<lparr>iq_RemoteAddr = ''127.0.0.1:5000'', iq_XForwardedFor = [''203.0.113.9''], iq_context = []\<rparr>"

lemma ex_client: "ClientIP ex_resolver ex_ipreq = ''203.0.113.9''" "\<not> trusted ex_resolver ''203.0.113.9''"
  by code_simp+

theorem client_ip_unforgeable_witness:
  "ClientIP ex_resolver (ex_ipreq\<lparr>iq_XForwardedFor := [''127.0.0.1, 203.0.113.9'']\<rparr>) = ''203.0.113.9''"
proof -
  have "forwardedChain (ex_ipreq\<lparr>iq_XForwardedFor := [''127.0.0.1, 203.0.113.9'']\<rparr>)
      = [''127.0.0.1''] @ forwardedChain ex_ipreq" by code_simp
  then show ?thesis
    using client_ip_unforgeable [of ex_resolver ex_ipreq "ex_ipreq\<lparr>iq_XForwardedFor := [''127.0.0.1, 203.0.113.9'']\<rparr>"
        "[''127.0.0.1'']"] ex_client by simp
qed

text \<open>
  The MCP allowlist decides on the real client. Behind the resolver's middleware, a request
  whose socket peer is not a trusted proxy is let through exactly when the peer itself lies in an
  allowed network: no header the client sends can get it past the check, or lock it out.
\<close>

theorem allowlist_sound:
  assumes "\<not> trusted r (remoteHost req)" and "remoteHost req \<noteq> []"
  shows "allowlist_Middleware nets (ip_Middleware r req) = None \<longleftrightarrow>
    (\<exists>p n. ParseIP (stripZone (remoteHost req)) = Some p \<and> n \<in> set nets \<and> Contains n p)"
proof -
  have "ClientIP r req = remoteHost req" using assms(1) by (cases "rev (forwardedChain req)") (auto simp: ClientIP_def Let_def)
  then have "FromRequest (ip_Middleware r req) = remoteHost req"
    using assms(2) by (simp add: FromRequest_def ip_Middleware_def)
  then show ?thesis
    by (auto simp: allowlist_Middleware_def Allowed_def list_ex_iff split: option.splits)
qed

theorem allowlist_sound_witness:
  "allowlist_Middleware (NewIPChecker [''127.0.0.1/32'', ''::1/128'']) (ip_Middleware ex_resolver
     \<lparr>iq_RemoteAddr = ''203.0.113.9:4000'', iq_XForwardedFor = [''127.0.0.1''], iq_context = []\<rparr>) \<noteq> None"
proof -
  let ?req = "\<lparr>iq_RemoteAddr = ''203.0.113.9:4000'', iq_XForwardedFor = [''127.0.0.1''], iq_context = []\<rparr>"
  have "remoteHost ?req = ''203.0.113.9''" by code_simp
  moreover have "\<not> list_ex (\<lambda>n. Contains n (the (ParseIP (stripZone ''203.0.113.9''))))
      (NewIPChecker [''127.0.0.1/32'', ''::1/128''])" by code_simp
  ultimately show ?thesis
    using allowlist_sound [of ex_resolver ?req] ex_client(2) by (auto simp: list_ex_iff)
qed

end
