(* ===== verification/Rate_Limit.thy ===== *)
theory Rate_Limit
  imports Real_IP
begin

text \<open>
  \<open>src/internal/ratelimit/ratelimit.go\<close>: the fixed-window limiter of the unauthenticated surfaces.
  When the limiter is full it evicts an arbitrary bucket; which one Go's map iteration yields is
  the argument \<open>victim\<close>. The zero value of \<open>lastPrune\<close> is \<open>None\<close>: every instant is more than a
  second later.
\<close>

section \<open>Limiter\<close>

definition maxBuckets :: nat where
  "maxBuckets = 5000"

record bucket =
  b_count :: int
  b_start :: time

record limiter =
  l_max :: int
  l_window :: duration
  l_buckets :: "(string, bucket) gomap"
  l_lastPrune :: "time option"

definition rl_New :: "int \<Rightarrow> duration \<Rightarrow> limiter" where
  "rl_New mx window = \<lparr>l_max = mx, l_window = window, l_buckets = [], l_lastPrune = None\<rparr>"

text \<open>Making room at capacity: prune expired buckets at most once a second, then evict one.\<close>

definition prune :: "time \<Rightarrow> limiter \<Rightarrow> limiter" where
  "prune now l =
     (if (case l_lastPrune l of None \<Rightarrow> True | Some t \<Rightarrow> now - t \<ge> Second)
      then l\<lparr>l_lastPrune := Some now,
             l_buckets := filter (\<lambda>(k, old). \<not> now - b_start old \<ge> l_window l) (l_buckets l)\<rparr>
      else l)"

definition make_room :: "((string, bucket) gomap \<Rightarrow> string) \<Rightarrow> time \<Rightarrow> limiter \<Rightarrow> limiter" where
  "make_room victim now l =
     (let l = prune now l in
      if length (l_buckets l) \<ge> maxBuckets
      then l\<lparr>l_buckets := AList.delete (victim (l_buckets l)) (l_buckets l)\<rparr> else l)"

definition Allow ::
  "((string, bucket) gomap \<Rightarrow> string) \<Rightarrow> time \<Rightarrow> string \<Rightarrow> limiter \<Rightarrow> (bool \<times> int \<times> duration) \<times> limiter"
where
  "Allow victim now key l =
     (if l_max l \<le> 0 then ((True, 0, 0), l)
      else
        let old = map_of (l_buckets l) key;
            fresh = (case old of None \<Rightarrow> True | Some b \<Rightarrow> now - b_start b \<ge> l_window l);
            l = (if old = None \<and> length (l_buckets l) \<ge> maxBuckets then make_room victim now l else l);
            b = (if fresh then \<lparr>b_count = 0, b_start = now\<rparr> else the old);
            b = b\<lparr>b_count := b_count b + 1\<rparr>;
            l = l\<lparr>l_buckets := AList.update key b (l_buckets l)\<rparr>;
            remaining = max 0 (l_max l - b_count b)
        in ((b_count b \<le> l_max l, remaining, l_window l - (now - b_start b)), l))"

section \<open>Rules\<close>

record rule =
  r_Method :: string
  r_Path :: string
  r_Prefix :: bool
  r_Limiter :: limiter

definition rule_matches :: "string \<Rightarrow> string \<Rightarrow> rule \<Rightarrow> bool" where
  "rule_matches meth path r \<longleftrightarrow>
     meth = r_Method r \<and>
     (if r_Prefix r then length path > length (r_Path r) \<and> take (length (r_Path r)) path = r_Path r
      else path = r_Path r)"

text \<open>Half away from zero, as \<open>Duration.Round\<close> does for the non-negative resets.\<close>

definition round_to :: "duration \<Rightarrow> duration \<Rightarrow> int" where
  "round_to unit d = (d + unit div 2) div unit"

fun nat_digits :: "nat \<Rightarrow> string" where
  "nat_digits n = (if n < 10 then [char_of (48 + n)] else nat_digits (n div 10) @ [char_of (48 + n mod 10)])"

declare nat_digits.simps [simp del]

definition humanDuration :: "duration \<Rightarrow> string" where
  "humanDuration d =
     (if d \<ge> Minute
      then let mins = round_to Minute d in if mins \<le> 1 then ''1 minute'' else nat_digits (nat mins) @ '' minutes''
      else let secs = round_to Second d in if secs \<le> 1 then ''1 second'' else nat_digits (nat secs) @ '' seconds'')"

record rl_headers =
  h_Limit :: int
  h_Remaining :: int
  h_Reset :: int

datatype rl_result = RlNext "rl_headers option" | RlTooMany rl_headers string

text \<open>The first matching rule is charged; its limiter is updated in place.\<close>

fun rl_Middleware ::
  "((string, bucket) gomap \<Rightarrow> string) \<Rightarrow> time \<Rightarrow> string \<Rightarrow> string \<Rightarrow> ip_request \<Rightarrow> rule list \<Rightarrow>
   rl_result \<times> rule list"
where
  "rl_Middleware victim now meth path req [] = (RlNext None, [])"
| "rl_Middleware victim now meth path req (r # rules) =
     (if \<not> rule_matches meth path r
      then (case rl_Middleware victim now meth path req rules of (res, rules) \<Rightarrow> (res, r # rules))
      else case Allow victim now (FromRequest req) (r_Limiter r) of
             ((ok, remaining, reset), l) \<Rightarrow>
               let hs = \<lparr>h_Limit = l_max l, h_Remaining = remaining, h_Reset = round_to Second reset\<rparr>
               in (if \<not> ok
                   then RlTooMany hs (''Rate limit exceeded, retry in '' @ humanDuration reset)
                   else RlNext (Some hs),
                   r\<lparr>r_Limiter := l\<rparr> # rules))"

section \<open>Properties\<close>

definition rl_inv :: "limiter \<Rightarrow> bool" where
  "rl_inv l \<longleftrightarrow> gm_wf (l_buckets l) \<and> length (l_buckets l) \<le> maxBuckets"

definition picks :: "((string, bucket) gomap \<Rightarrow> string) \<Rightarrow> bool" where
  "picks victim \<longleftrightarrow> (\<forall>m. m \<noteq> [] \<longrightarrow> victim m \<in> fst ` set m)"

lemma prune_wf: "gm_wf (l_buckets l) \<Longrightarrow> gm_wf (l_buckets (prune now l))"
  by (auto simp: prune_def split: option.splits)

lemma prune_length: "length (l_buckets (prune now l)) \<le> length (l_buckets l)"
  by (simp add: prune_def)

lemma make_room_space:
  assumes "picks victim" "rl_inv l"
  shows "gm_wf (l_buckets (make_room victim now l)) \<and> length (l_buckets (make_room victim now l)) < maxBuckets"
proof -
  let ?m = "l_buckets (prune now l)"
  have wf: "gm_wf ?m" using assms(2) by (simp add: rl_inv_def prune_wf)
  have len: "length ?m \<le> maxBuckets" using assms(2) prune_length [of now l] by (simp add: rl_inv_def)
  have "length (AList.delete (victim ?m) ?m) < maxBuckets" if "maxBuckets \<le> length ?m"
  proof -
    have "?m \<noteq> []" using that by (auto simp: maxBuckets_def)
    then have "victim ?m \<in> fst ` set ?m" using assms(1) by (simp add: picks_def)
    then show ?thesis using wf len that by (simp add: gm_length_delete maxBuckets_def)
  qed
  with wf show ?thesis by (auto simp: make_room_def Let_def)
qed

lemma rl_inv_Allow:
  assumes "picks victim" "rl_inv l"
  shows "rl_inv (snd (Allow victim now key l))"
proof (cases "map_of (l_buckets l) key = None \<and> maxBuckets \<le> length (l_buckets l)")
  case True
  with make_room_space [OF assms, of now] assms(2) show ?thesis
    by (auto simp: Allow_def Let_def rl_inv_def gm_length_update)
next
  case False
  with assms(2) show ?thesis
    by (auto simp: Allow_def Let_def rl_inv_def gm_length_update gm_get_None split: option.splits)
qed

text \<open>
  The limiter's memory is bounded. Whatever addresses hit it, at whatever times, and whichever
  entries the eviction picks, it never holds more than 5000 buckets.
\<close>

theorem limiter_bounded:
  assumes "picks victim"
  shows "length (l_buckets (fold (\<lambda>(now, key) l. snd (Allow victim now key l)) calls (rl_New mx window))) \<le> 5000"
proof -
  have "rl_inv (fold (\<lambda>(now, key) l. snd (Allow victim now key l)) calls l)" if "rl_inv l" for l
    using that by (induction calls arbitrary: l) (auto simp: rl_inv_Allow [OF assms])
  from this [of "rl_New mx window"] show ?thesis by (simp add: rl_inv_def rl_New_def maxBuckets_def)
qed

theorem limiter_bounded_witness:
  "length (l_buckets (fold (\<lambda>(now, key) l. snd (Allow (fst \<circ> hd) now key l)) [(0, ''a''), (1, ''b'')] (rl_New 3 60))) \<le> 5000"
  by (rule limiter_bounded) (simp add: picks_def)

text \<open>The hits of a key that a sequence of calls lets through.\<close>

fun allowed_hits ::
  "((string, bucket) gomap \<Rightarrow> string) \<Rightarrow> string \<Rightarrow> (time \<times> string) list \<Rightarrow> limiter \<Rightarrow> nat"
where
  "allowed_hits victim k [] l = 0"
| "allowed_hits victim k ((now, key) # calls) l =
     (if key = k \<and> fst (fst (Allow victim now key l)) then 1 else 0)
       + allowed_hits victim k calls (snd (Allow victim now key l))"

lemma Allow_params [simp]:
  "l_max (snd (Allow victim now key l)) = l_max l" "l_window (snd (Allow victim now key l)) = l_window l"
  by (simp_all add: Allow_def Let_def make_room_def prune_def split: option.split)

text \<open>As long as fewer than the maximum of addresses is around, no bucket is evicted.\<close>

lemma Allow_no_evict:
  assumes "gm_wf (l_buckets l)" "finite K" "card K \<le> maxBuckets" "fst ` set (l_buckets l) \<subseteq> K" "key \<in> K" "0 < l_max l"
  shows "l_buckets (snd (Allow victim now key l)) = AList.update key
      (case map_of (l_buckets l) key of
         None \<Rightarrow> \<lparr>b_count = 1, b_start = now\<rparr>
       | Some b \<Rightarrow> if l_window l \<le> now - b_start b then \<lparr>b_count = 1, b_start = now\<rparr>
                    else b\<lparr>b_count := b_count b + 1\<rparr>) (l_buckets l)"
proof -
  have "\<not> maxBuckets \<le> length (l_buckets l)" if "map_of (l_buckets l) key = None"
  proof -
    have "fst ` set (l_buckets l) \<subset> K" using that assms(4,5) by (auto simp: gm_get_None)
    then have "card (fst ` set (l_buckets l)) < card K" using assms(2) by (rule psubset_card_mono [rotated])
    then show ?thesis using assms(1,3) by (simp add: gm_length_card)
  qed
  with assms(6) show ?thesis by (auto simp: Allow_def Let_def split: option.split)
qed

lemma hits_in_window:
  assumes "finite K" "card K \<le> maxBuckets"
  shows "gm_wf (l_buckets l) \<Longrightarrow> fst ` set (l_buckets l) \<subseteq> K \<Longrightarrow> snd ` set calls \<subseteq> K \<Longrightarrow> 0 < l_max l \<Longrightarrow>
     map_of (l_buckets l) k = Some b \<Longrightarrow> \<forall>(now, key) \<in> set calls. now - b_start b < l_window l \<Longrightarrow>
     allowed_hits victim k calls l \<le> nat (l_max l - b_count b)"
proof (induction calls arbitrary: l b)
  case (Cons call calls)
  obtain now key where c: "call = (now, key)" by (cases call)
  let ?l = "snd (Allow victim now key l)"
  have bk: "l_buckets ?l = AList.update key
      (case map_of (l_buckets l) key of
         None \<Rightarrow> \<lparr>b_count = 1, b_start = now\<rparr>
       | Some b \<Rightarrow> if l_window l \<le> now - b_start b then \<lparr>b_count = 1, b_start = now\<rparr>
                    else b\<lparr>b_count := b_count b + 1\<rparr>) (l_buckets l)"
    using Cons.prems assms c by (intro Allow_no_evict) auto
  have wf: "gm_wf (l_buckets ?l)" "fst ` set (l_buckets ?l) \<subseteq> K"
    using Cons.prems c by (auto simp: bk gm_keyset_update)
  show ?case
  proof (cases "key = k")
    case True
    have "now - b_start b < l_window l" using Cons.prems c by auto
    then have get: "map_of (l_buckets ?l) k = Some (b\<lparr>b_count := b_count b + 1\<rparr>)"
      and ok: "fst (fst (Allow victim now key l)) \<longleftrightarrow> b_count b + 1 \<le> l_max l"
      using True Cons.prems by (auto simp: bk gomap_simps Allow_def Let_def)
    have "allowed_hits victim k calls ?l \<le> nat (l_max ?l - b_count (b\<lparr>b_count := b_count b + 1\<rparr>))"
      by (rule Cons.IH) (use Cons.prems c wf get in auto)
    with c True ok show ?thesis by auto
  next
    case False
    have "map_of (l_buckets ?l) k = Some b" using False Cons.prems by (simp add: bk gomap_simps)
    then have "allowed_hits victim k calls ?l \<le> nat (l_max ?l - b_count b)"
      by (intro Cons.IH) (use Cons.prems c wf in auto)
    with c False show ?thesis by simp
  qed
qed simp


definition quota :: "string \<Rightarrow> limiter \<Rightarrow> nat" where
  "quota k l = (case map_of (l_buckets l) k of
     None \<Rightarrow> nat (l_max l) | Some b \<Rightarrow> nat (l_max l - b_count b) + nat (l_max l))"

lemma hits_any:
  assumes "finite K" "card K \<le> maxBuckets"
  shows "gm_wf (l_buckets l) \<Longrightarrow> fst ` set (l_buckets l) \<subseteq> K \<Longrightarrow> snd ` set calls \<subseteq> K \<Longrightarrow> 0 < l_max l \<Longrightarrow>
     \<forall>(now, key) \<in> set calls. t0 \<le> now \<and> now < t0 + l_window l \<Longrightarrow>
     allowed_hits victim k calls l \<le> quota k l"
proof (induction calls arbitrary: l)
  case (Cons call calls)
  obtain now key where c: "call = (now, key)" by (cases call)
  let ?l = "snd (Allow victim now key l)"
  let ?b = "case map_of (l_buckets l) key of
         None \<Rightarrow> \<lparr>b_count = 1, b_start = now\<rparr>
       | Some b \<Rightarrow> if l_window l \<le> now - b_start b then \<lparr>b_count = 1, b_start = now\<rparr>
                    else b\<lparr>b_count := b_count b + 1\<rparr>"
  have bk: "l_buckets ?l = AList.update key ?b (l_buckets l)"
    using Cons.prems assms c by (intro Allow_no_evict) auto
  have wf: "gm_wf (l_buckets ?l)" "fst ` set (l_buckets ?l) \<subseteq> K"
    using Cons.prems c by (auto simp: bk gm_keyset_update)
  have rest: "snd ` set calls \<subseteq> K" "\<forall>(now, key) \<in> set calls. t0 \<le> now \<and> now < t0 + l_window l"
    using Cons.prems by auto
  have ih: "allowed_hits victim k calls ?l \<le> quota k ?l" using Cons.prems wf rest by (intro Cons.IH) simp_all
  consider "key \<noteq> k" | "key = k" "?b = \<lparr>b_count = 1, b_start = now\<rparr>"
    | b where "key = k" "map_of (l_buckets l) k = Some b" "?b = b\<lparr>b_count := b_count b + 1\<rparr>" "now - b_start b < l_window l"
    by (cases "map_of (l_buckets l) key") force+
  then show ?case
  proof cases
    case 1
    with ih c show ?thesis by (simp add: quota_def bk gomap_simps split: option.splits)
  next
    case 2
    have get: "map_of (l_buckets ?l) k = Some \<lparr>b_count = 1, b_start = now\<rparr>"
      by (simp only: bk gm_get_update 2(2)) (simp add: 2(1))
    have "allowed_hits victim k calls ?l \<le> nat (l_max ?l - b_count \<lparr>b_count = 1, b_start = now\<rparr>)"
      by (rule hits_in_window [OF assms wf rest(1) _ get]) (use Cons.prems c rest(2) in auto)
    moreover have "nat (l_max l) \<le> quota k l" by (simp add: quota_def split: option.split)
    ultimately show ?thesis using c 2(1) Cons.prems(4) by auto
  next
    case (3 b)
    then have ok: "fst (fst (Allow victim now key l)) \<longleftrightarrow> b_count b + 1 \<le> l_max l"
      using Cons.prems(4) by (simp add: Allow_def Let_def)
    have "map_of (l_buckets ?l) k = Some (b\<lparr>b_count := b_count b + 1\<rparr>)"
      by (simp only: bk gm_get_update 3(3)) (simp add: 3(1))
    then have "quota k ?l = nat (l_max l - (b_count b + 1)) + nat (l_max l)" by (simp add: quota_def)
    with ih 3 c ok show ?thesis by (auto simp: quota_def)
  qed
qed simp

text \<open>
  The limit holds. While at most 5000 addresses are active, an address gets through in any
  span no longer than the window at most the limit if it starts without a bucket, and at most what
  its running window has left plus the limit otherwise, however the hits of others interleave.
\<close>

theorem window_quota:
  assumes "finite K" and "card K \<le> 5000" and "gm_wf (l_buckets l)" and "fst ` set (l_buckets l) \<subseteq> K"
    and "snd ` set calls \<subseteq> K" and "0 < l_max l"
    and "\<forall>(now, key) \<in> set calls. t0 \<le> now \<and> now < t0 + l_window l"
  shows "allowed_hits victim k calls l \<le>
    (case map_of (l_buckets l) k of
       None \<Rightarrow> nat (l_max l) | Some b \<Rightarrow> nat (l_max l - b_count b) + nat (l_max l))"
  using hits_any [of K l calls t0 victim k] assms by (simp add: quota_def maxBuckets_def)

theorem window_quota_witness:
  "allowed_hits (fst \<circ> hd) ''a'' [(0, ''a''), (1, ''a''), (2, ''b''), (3, ''a'')] (rl_New 2 60) = 2
   \<and> allowed_hits (fst \<circ> hd) ''a'' [(0, ''a''), (1, ''a''), (2, ''b''), (3, ''a'')] (rl_New 2 60) \<le> 2"
proof -
  have "allowed_hits (fst \<circ> hd) ''a'' [(0, ''a''), (1, ''a''), (2, ''b''), (3, ''a'')] (rl_New 2 60) = 2"
    by code_simp
  moreover have "allowed_hits (fst \<circ> hd) ''a'' [(0, ''a''), (1, ''a''), (2, ''b''), (3, ''a'')] (rl_New 2 60)
      \<le> (case map_of (l_buckets (rl_New 2 60)) ''a'' of
           None \<Rightarrow> nat (l_max (rl_New 2 60))
         | Some b \<Rightarrow> nat (l_max (rl_New 2 60) - b_count b) + nat (l_max (rl_New 2 60)))"
    by (rule window_quota [where K = "{''a'', ''b''}" and ?t0.0 = 0]) (simp_all add: rl_New_def)
  ultimately show ?thesis by simp
qed

end
