(* ===== verification/Credential_Store.thy ===== *)
theory Credential_Store
  imports Go_Strings "HOL-Library.Char_ord" "HOL-Library.List_Lexorder" "HOL-Library.Product_Lexorder"
begin

text \<open>
  \<open>src/internal/store/credentials.go\<close>, \<open>credentials_mgmt.go\<close>, \<open>accounts.go\<close> and \<open>account_admin.go\<close>
  with the statements of \<open>gen/credentials.sql.go\<close> and \<open>gen/accounts.sql.go\<close>: accounts, the admin
  singleton and the passkeys.

  Tables are keyed by their primary key, nullable columns are options. A statement is atomic; the
  arguments \<open>flt\<close> say which statements the driver fails, and a failed statement changes nothing. A
  transaction (\<open>WithTx\<close>) that returns an error leaves the database as it was. \<open>now\<close> is the formatted
  clock reading. \<open>Accounts.Delete\<close> also deletes the account's endpoints, which are rows of another
  theory; the tables whose rows go with the account by \<open>ON DELETE CASCADE\<close> are not part of this one.
\<close>

section \<open>Tables\<close>

record account_row =
  ac_name :: string
  ac_enabled :: int
  ac_max_sessions :: int
  ac_last_used_at :: "string option"
  ac_created_at :: string
  ac_updated_at :: string
  ac_show_demo :: int

record cred_row =
  wc_account_id :: string
  wc_credential_id :: string
  wc_public_key :: "byte list"
  wc_counter :: int
  wc_transports :: "string list option"
  wc_label :: string
  wc_public_key_openssh :: "string option"
  wc_revoked :: int
  wc_created_at :: string
  wc_last_used_at :: "string option"
  wc_state :: string

record id_db =
  id_accounts :: "(string, account_row) gomap"
  id_admin :: "string option"
  id_creds :: "(string, cred_row) gomap"

datatype store_error = StoreDriver | StoreConstraint

definition CredentialStateActive :: string where "CredentialStateActive = ''active''"

definition CredentialStatePendingConfirmation :: string where
  "CredentialStatePendingConfirmation = ''pending_confirmation''"

text \<open>The predicate \<open>revoked = 0 AND state = 'active'\<close>.\<close>

definition active_row :: "cred_row \<Rightarrow> bool" where
  "active_row r \<longleftrightarrow> wc_revoked r = 0 \<and> wc_state r = ''active''"

section \<open>Statements\<close>

definition HasPasskeys :: "id_db \<Rightarrow> bool" where
  "HasPasskeys db \<longleftrightarrow> id_creds db \<noteq> []"

definition FindCredentialByCredentialID :: "string \<Rightarrow> id_db \<Rightarrow> (string \<times> cred_row) option" where
  "FindCredentialByCredentialID cid db = find (\<lambda>(k, r). wc_credential_id r = cid) (id_creds db)"

definition FindCredentialByIDAndAccount :: "string \<Rightarrow> string \<Rightarrow> id_db \<Rightarrow> cred_row option" where
  "FindCredentialByIDAndAccount rid accountID db =
     (case map_of (id_creds db) rid of
        None \<Rightarrow> None
      | Some r \<Rightarrow> if wc_account_id r = accountID then Some r else None)"

definition rows_of :: "string \<Rightarrow> id_db \<Rightarrow> (string \<times> cred_row) list" where
  "rows_of accountID db = filter (\<lambda>(k, r). wc_account_id r = accountID) (id_creds db)"

definition CountActiveCredentials :: "string \<Rightarrow> id_db \<Rightarrow> nat" where
  "CountActiveCredentials accountID db = length (filter (active_row \<circ> snd) (rows_of accountID db))"

definition ListActiveCredentialIDsForAccount :: "string \<Rightarrow> id_db \<Rightarrow> string list" where
  "ListActiveCredentialIDsForAccount accountID db =
     map (wc_credential_id \<circ> snd) (filter (\<lambda>(k, r). wc_revoked r = 0) (rows_of accountID db))"

definition ListAllActiveCredentialIDs :: "id_db \<Rightarrow> string list" where
  "ListAllActiveCredentialIDs db = map (wc_credential_id \<circ> snd) (filter (active_row \<circ> snd) (id_creds db))"

definition ListActiveCredentialLabelsForAccount :: "string \<Rightarrow> id_db \<Rightarrow> string list" where
  "ListActiveCredentialLabelsForAccount accountID db = map (wc_label \<circ> snd) (rows_of accountID db)"

definition ListActiveCredentialsForAuth :: "string \<Rightarrow> id_db \<Rightarrow> (string \<times> cred_row) list" where
  "ListActiveCredentialsForAuth accountID db = filter (active_row \<circ> snd) (rows_of accountID db)"

definition ListCredentialsForAccountFull :: "string \<Rightarrow> id_db \<Rightarrow> (string \<times> cred_row) list" where
  "ListCredentialsForAccountFull accountID db = rows_of accountID db"

definition ExportActiveCredentials :: "string \<Rightarrow> id_db \<Rightarrow> (string \<times> cred_row) list" where
  "ExportActiveCredentials accountID db = filter (active_row \<circ> snd) (rows_of accountID db)"

definition LabelConflictExists :: "string \<Rightarrow> string \<Rightarrow> string \<Rightarrow> id_db \<Rightarrow> bool" where
  "LabelConflictExists accountID label exceptID db =
     list_ex (\<lambda>(k, r). wc_label r = label \<and> k \<noteq> exceptID) (rows_of accountID db)"

text \<open>The insert fails on a used id, a used credential id and an unknown account.\<close>

definition InsertCredential :: "string \<Rightarrow> cred_row \<Rightarrow> id_db \<Rightarrow> store_error option \<times> id_db" where
  "InsertCredential rid r db =
     (if map_of (id_creds db) rid \<noteq> None \<or> FindCredentialByCredentialID (wc_credential_id r) db \<noteq> None
         \<or> map_of (id_accounts db) (wc_account_id r) = None
      then (Some StoreConstraint, db)
      else (None, db\<lparr>id_creds := AList.update rid r (id_creds db)\<rparr>))"

definition update_cred :: "string \<Rightarrow> (cred_row \<Rightarrow> bool) \<Rightarrow> (cred_row \<Rightarrow> cred_row) \<Rightarrow> id_db \<Rightarrow> id_db" where
  "update_cred rid c f db =
     (case map_of (id_creds db) rid of
        None \<Rightarrow> db
      | Some r \<Rightarrow> if c r then db\<lparr>id_creds := AList.update rid (f r) (id_creds db)\<rparr> else db)"

definition RevokeCredentialByID :: "string \<Rightarrow> id_db \<Rightarrow> id_db" where
  "RevokeCredentialByID rid = update_cred rid (\<lambda>_. True) (\<lambda>r. r\<lparr>wc_revoked := 1\<rparr>)"

definition SetCredentialState :: "string \<Rightarrow> string \<Rightarrow> id_db \<Rightarrow> id_db" where
  "SetCredentialState state rid = update_cred rid (\<lambda>_. True) (\<lambda>r. r\<lparr>wc_state := state\<rparr>)"

definition UpdateCredentialCounter :: "int \<Rightarrow> string option \<Rightarrow> string \<Rightarrow> id_db \<Rightarrow> id_db" where
  "UpdateCredentialCounter counter lastUsed rid =
     update_cred rid (\<lambda>_. True) (\<lambda>r. r\<lparr>wc_counter := counter, wc_last_used_at := lastUsed\<rparr>)"

definition UpdateCredentialLabel :: "string \<Rightarrow> string \<Rightarrow> string \<Rightarrow> id_db \<Rightarrow> id_db" where
  "UpdateCredentialLabel label rid accountID =
     update_cred rid (\<lambda>r. wc_account_id r = accountID) (\<lambda>r. r\<lparr>wc_label := label\<rparr>)"

definition GetAccount :: "string \<Rightarrow> id_db \<Rightarrow> account_row option" where
  "GetAccount aid db = map_of (id_accounts db) aid"

definition GetAdminAccountID :: "id_db \<Rightarrow> string option" where
  "GetAdminAccountID db = id_admin db"

definition ListAllAccounts :: "id_db \<Rightarrow> (string \<times> account_row) list" where
  "ListAllAccounts db = sort_key (\<lambda>(k, r). (ac_created_at r, k)) (id_accounts db)"

definition update_account :: "string \<Rightarrow> (account_row \<Rightarrow> account_row) \<Rightarrow> id_db \<Rightarrow> id_db" where
  "update_account aid f db =
     (case map_of (id_accounts db) aid of
        None \<Rightarrow> db
      | Some r \<Rightarrow> db\<lparr>id_accounts := AList.update aid (f r) (id_accounts db)\<rparr>)"

definition TouchAccountLastUsed :: "string option \<Rightarrow> string \<Rightarrow> id_db \<Rightarrow> id_db" where
  "TouchAccountLastUsed ts aid = update_account aid (\<lambda>r. r\<lparr>ac_last_used_at := ts\<rparr>)"

definition UpdateAccountName :: "string \<Rightarrow> string \<Rightarrow> string \<Rightarrow> id_db \<Rightarrow> id_db" where
  "UpdateAccountName name now aid = update_account aid (\<lambda>r. r\<lparr>ac_name := name, ac_updated_at := now\<rparr>)"

definition UpdateAccountShowDemo :: "int \<Rightarrow> string \<Rightarrow> string \<Rightarrow> id_db \<Rightarrow> id_db" where
  "UpdateAccountShowDemo v now aid = update_account aid (\<lambda>r. r\<lparr>ac_show_demo := v, ac_updated_at := now\<rparr>)"

section \<open>Credentials\<close>

record decoded_credential =
  dc_CredentialID :: string
  dc_PublicKeyCOSE :: "byte list"
  dc_Counter :: "32 word"
  dc_Transports :: "string list"
  dc_BaseLabel :: string
  dc_AuthorizedKeysEntry :: string

record found_credential =
  fc_RowID :: string
  fc_AccountID :: string
  fc_CredentialID :: string
  fc_PublicKeyCOSE :: "byte list"
  fc_Counter :: "32 word"
  fc_Revoked :: bool
  fc_State :: string

record pending_credential =
  pc_RowID :: string
  pc_State :: string
  pc_Revoked :: bool

record inserted =
  in_ID :: string
  in_Label :: string

definition cs_HasPasskeys :: "bool \<Rightarrow> id_db \<Rightarrow> store_error + bool" where
  "cs_HasPasskeys flt db = (if flt then Inl StoreDriver else Inr (HasPasskeys db))"

definition ActiveCredentialIDs :: "bool \<Rightarrow> string \<Rightarrow> id_db \<Rightarrow> store_error + string list" where
  "ActiveCredentialIDs flt accountID db =
     (if flt then Inl StoreDriver else Inr (ListActiveCredentialIDsForAccount accountID db))"

definition AllActiveCredentialIDs :: "bool \<Rightarrow> id_db \<Rightarrow> store_error + string list" where
  "AllActiveCredentialIDs flt db = (if flt then Inl StoreDriver else Inr (ListAllActiveCredentialIDs db))"

record auth_credential =
  au_RowID :: string
  au_CredentialID :: string
  au_PublicKeyOpenSSH :: string
  au_Label :: string

definition ActiveCredentialsForAuth :: "bool \<Rightarrow> string \<Rightarrow> id_db \<Rightarrow> store_error + auth_credential list" where
  "ActiveCredentialsForAuth flt accountID db =
     (if flt then Inl StoreDriver
      else Inr (List.map_filter (\<lambda>(k, r). map_option
        (\<lambda>line. \<lparr>au_RowID = k, au_CredentialID = wc_credential_id r, au_PublicKeyOpenSSH = line, au_Label = wc_label r\<rparr>)
        (wc_public_key_openssh r)) (ListActiveCredentialsForAuth accountID db)))"

definition FindByCredentialID :: "bool \<Rightarrow> string \<Rightarrow> id_db \<Rightarrow> store_error + found_credential option" where
  "FindByCredentialID flt credentialID db =
     (if flt then Inl StoreDriver
      else Inr (map_option (\<lambda>(k, r). \<lparr>fc_RowID = k, fc_AccountID = wc_account_id r, fc_CredentialID = wc_credential_id r,
                  fc_PublicKeyCOSE = wc_public_key r, fc_Counter = of_int (wc_counter r),
                  fc_Revoked = wc_revoked r \<noteq> 0, fc_State = wc_state r\<rparr>)
                (FindCredentialByCredentialID credentialID db)))"

definition cs_FindForAccount :: "bool \<Rightarrow> string \<Rightarrow> string \<Rightarrow> id_db \<Rightarrow> store_error + pending_credential option" where
  "cs_FindForAccount flt rid accountID db =
     (if flt then Inl StoreDriver
      else Inr (map_option (\<lambda>r. \<lparr>pc_RowID = rid, pc_State = wc_state r, pc_Revoked = wc_revoked r \<noteq> 0\<rparr>)
                (FindCredentialByIDAndAccount rid accountID db)))"

definition SetState :: "bool \<Rightarrow> string \<Rightarrow> string \<Rightarrow> id_db \<Rightarrow> store_error option \<times> id_db" where
  "SetState flt rid state db =
     (if flt then (Some StoreDriver, db) else (None, SetCredentialState state rid db))"

definition AccountName :: "bool \<Rightarrow> string \<Rightarrow> id_db \<Rightarrow> string" where
  "AccountName flt accountID db =
     (if flt then [] else case GetAccount accountID db of None \<Rightarrow> [] | Some a \<Rightarrow> ac_name a)"

definition UpdateCounter :: "bool \<Rightarrow> string \<Rightarrow> string \<Rightarrow> 32 word \<Rightarrow> id_db \<Rightarrow> store_error option \<times> id_db" where
  "UpdateCounter flt now rid counter db =
     (if flt then (Some StoreDriver, db) else (None, UpdateCredentialCounter (uint counter) (Some now) rid db))"

text \<open>
  \<open>dedupeLabel\<close>: the loop has no bound in the code; \<open>None\<close> would be a run that never ends.
\<close>

definition label_candidate :: "string \<Rightarrow> nat \<Rightarrow> string" where
  "label_candidate base suffix = base @ '' ('' @ Itoa (int suffix) @ '')''"

partial_function (option) dedupe_loop :: "string list \<Rightarrow> string \<Rightarrow> nat \<Rightarrow> string option" where
  "dedupe_loop seen base suffix =
     (let candidate = label_candidate base suffix in
      if candidate \<notin> set seen then Some candidate else dedupe_loop seen base (suffix + 1))"

definition dedupeLabel :: "string list \<Rightarrow> string \<Rightarrow> string option" where
  "dedupeLabel labels base = (if base \<notin> set labels then Some base else dedupe_loop labels base 2)"

definition nonempty_opt :: "string \<Rightarrow> string option" where
  "nonempty_opt s = (if s = [] then None else Some s)"

text \<open>\<open>flt1\<close> and \<open>flt2\<close>: the label query and the insert.\<close>

definition insertTx ::
  "bool \<Rightarrow> bool \<Rightarrow> string \<Rightarrow> string \<Rightarrow> decoded_credential \<Rightarrow> string \<Rightarrow> string \<Rightarrow> id_db \<Rightarrow> (store_error + inserted) \<times> id_db"
where
  "insertTx flt1 flt2 now accountID dec state rid db =
     (if flt1 then (Inl StoreDriver, db)
      else case dedupeLabel (ListActiveCredentialLabelsForAccount accountID db) (dc_BaseLabel dec) of
             None \<Rightarrow> (Inl StoreDriver, db)
           | Some label \<Rightarrow>
               if flt2 then (Inl StoreDriver, db)
               else (case InsertCredential rid
                       \<lparr>wc_account_id = accountID, wc_credential_id = dc_CredentialID dec, wc_public_key = dc_PublicKeyCOSE dec,
                        wc_counter = uint (dc_Counter dec), wc_transports = Some (dc_Transports dec), wc_label = label,
                        wc_public_key_openssh = nonempty_opt (dc_AuthorizedKeysEntry dec), wc_revoked = 0,
                        wc_created_at = now, wc_last_used_at = None, wc_state = state\<rparr> db of
                       (Some e, db) \<Rightarrow> (Inl e, db)
                     | (None, db) \<Rightarrow> (Inr \<lparr>in_ID = rid, in_Label = label\<rparr>, db)))"

definition cs_Insert ::
  "bool \<Rightarrow> bool \<Rightarrow> string \<Rightarrow> string \<Rightarrow> decoded_credential \<Rightarrow> string \<Rightarrow> string \<Rightarrow> id_db \<Rightarrow> (store_error + inserted) \<times> id_db"
where
  "cs_Insert = insertTx"

section \<open>Self-registration\<close>

record self_register_result =
  sr_AccountID :: string
  sr_CredentialRowID :: string
  sr_Label :: string

record self_register_params =
  sp_Name :: string
  sp_Credential :: decoded_credential
  sp_SelfRegEnabled :: bool
  sp_NewAccountID :: string
  sp_NewCredID :: string

text \<open>
  \<open>WithTx\<close>: an error of the body, of \<open>BeginTx\<close> or of \<open>Commit\<close> rolls every change of the body back.
\<close>

definition WithTx ::
  "bool \<Rightarrow> bool \<Rightarrow> (id_db \<Rightarrow> (store_error + 'a) \<times> id_db) \<Rightarrow> id_db \<Rightarrow> (store_error + 'a) \<times> id_db"
where
  "WithTx fltBegin fltCommit body db =
     (if fltBegin then (Inl StoreDriver, db)
      else case body db of
             (Inl e, _) \<Rightarrow> (Inl e, db)
           | (Inr v, db') \<Rightarrow> if fltCommit then (Inl StoreDriver, db) else (Inr v, db'))"

record tx_faults =
  tf_begin :: bool
  tf_commit :: bool
  tf_has :: bool
  tf_admin :: bool
  tf_account :: bool
  tf_singleton :: bool
  tf_labels :: bool
  tf_insert :: bool

definition insert_account :: "bool \<Rightarrow> string \<Rightarrow> string \<Rightarrow> string \<Rightarrow> id_db \<Rightarrow> store_error option \<times> id_db" where
  "insert_account flt now aid name db =
     (if flt then (Some StoreDriver, db)
      else if map_of (id_accounts db) aid \<noteq> None then (Some StoreConstraint, db)
      else (None, db\<lparr>id_accounts := AList.update aid
        \<lparr>ac_name = name, ac_enabled = 1, ac_max_sessions = 5, ac_last_used_at = Some now, ac_created_at = now,
         ac_updated_at = now, ac_show_demo = 1\<rparr> (id_accounts db)\<rparr>))"

definition insert_admin :: "bool \<Rightarrow> string \<Rightarrow> id_db \<Rightarrow> store_error option \<times> id_db" where
  "insert_admin flt aid db =
     (if flt then (Some StoreDriver, db)
      else (None, if id_admin db = None then db\<lparr>id_admin := Some aid\<rparr> else db))"

text \<open>The choice of the account: the seeded admin while nobody has a passkey, a new account otherwise.\<close>

definition self_register_account ::
  "tx_faults \<Rightarrow> string \<Rightarrow> self_register_params \<Rightarrow> bool \<Rightarrow> id_db \<Rightarrow> (store_error + string) \<times> id_db"
where
  "self_register_account flt now p bootstrapped db =
     (let admin = (if tf_admin flt then None else GetAdminAccountID db) in
      case (if bootstrapped then None else admin) of
        Some adminID \<Rightarrow> (Inr adminID, db)
      | None \<Rightarrow>
          (case insert_account (tf_account flt) now (sp_NewAccountID p) (sp_Name p) db of
             (Some e, db) \<Rightarrow> (Inl e, db)
           | (None, db) \<Rightarrow>
               (case (if admin = None then insert_admin (tf_singleton flt) (sp_NewAccountID p) db else (None, db)) of
                  (Some e, db) \<Rightarrow> (Inl e, db)
                | (None, db) \<Rightarrow> (Inr (sp_NewAccountID p), db))))"

definition SelfRegister ::
  "tx_faults \<Rightarrow> string \<Rightarrow> self_register_params \<Rightarrow> id_db \<Rightarrow> (store_error + self_register_result option) \<times> id_db"
where
  "SelfRegister flt now p =
     WithTx (tf_begin flt) (tf_commit flt) (\<lambda>db.
       if tf_has flt then (Inl StoreDriver, db)
       else let bootstrapped = HasPasskeys db in
            if \<not> sp_SelfRegEnabled p \<and> bootstrapped then (Inr None, db)
            else case self_register_account flt now p bootstrapped db of
                   (Inl e, db) \<Rightarrow> (Inl e, db)
                 | (Inr accountID, db) \<Rightarrow>
                     (case insertTx (tf_labels flt) (tf_insert flt) now accountID (sp_Credential p) CredentialStateActive
                             (sp_NewCredID p) db of
                        (Inl e, db) \<Rightarrow> (Inl e, db)
                      | (Inr ins, db) \<Rightarrow>
                          (Inr (Some \<lparr>sr_AccountID = accountID, sr_CredentialRowID = in_ID ins, sr_Label = in_Label ins\<rparr>), db)))"

section \<open>Management\<close>

definition ListForAccountFull :: "bool \<Rightarrow> string \<Rightarrow> id_db \<Rightarrow> store_error + (string \<times> cred_row) list" where
  "ListForAccountFull flt accountID db =
     (if flt then Inl StoreDriver else Inr (ListCredentialsForAccountFull accountID db))"

definition LabelConflict :: "bool \<Rightarrow> string \<Rightarrow> string \<Rightarrow> string \<Rightarrow> id_db \<Rightarrow> store_error + bool" where
  "LabelConflict flt accountID label exceptID db =
     (if flt then Inl StoreDriver else Inr (LabelConflictExists accountID label exceptID db))"

definition SetLabel :: "bool \<Rightarrow> string \<Rightarrow> string \<Rightarrow> string \<Rightarrow> id_db \<Rightarrow> store_error option \<times> id_db" where
  "SetLabel flt rid accountID label db =
     (if flt then (Some StoreDriver, db) else (None, UpdateCredentialLabel label rid accountID db))"

definition cs_Revoke :: "bool \<Rightarrow> string \<Rightarrow> id_db \<Rightarrow> store_error option \<times> id_db" where
  "cs_Revoke flt rid db = (if flt then (Some StoreDriver, db) else (None, RevokeCredentialByID rid db))"

definition ActiveCount :: "bool \<Rightarrow> string \<Rightarrow> id_db \<Rightarrow> store_error + nat" where
  "ActiveCount flt accountID db = (if flt then Inl StoreDriver else Inr (CountActiveCredentials accountID db))"

record seed_passkey =
  sd_CredentialID :: string
  sd_PublicKeyHex :: string
  sd_Counter :: int
  sd_Transports :: "string list"
  sd_Label :: string

definition ExportSeed :: "bool \<Rightarrow> string \<Rightarrow> id_db \<Rightarrow> store_error + seed_passkey list" where
  "ExportSeed flt accountID db =
     (if flt then Inl StoreDriver
      else Inr (map (\<lambda>(k, r). \<lparr>sd_CredentialID = wc_credential_id r, sd_PublicKeyHex = hex_encode (wc_public_key r),
                 sd_Counter = wc_counter r,
                 sd_Transports = (case wc_transports r of None \<Rightarrow> [] | Some ts \<Rightarrow> ts), sd_Label = wc_label r\<rparr>)
               (ExportActiveCredentials accountID db)))"

section \<open>Accounts\<close>

definition MaxSessions :: "bool \<Rightarrow> string \<Rightarrow> id_db \<Rightarrow> int option" where
  "MaxSessions flt accountID db = (if flt then None else map_option ac_max_sessions (GetAccount accountID db))"

definition adminID :: "bool \<Rightarrow> id_db \<Rightarrow> string" where
  "adminID flt db = (if flt then [] else case GetAdminAccountID db of None \<Rightarrow> [] | Some a \<Rightarrow> a)"

definition IsAdmin :: "bool \<Rightarrow> string \<Rightarrow> id_db \<Rightarrow> bool" where
  "IsAdmin flt accountID db \<longleftrightarrow> accountID \<noteq> [] \<and> adminID flt db = accountID"

record account =
  at_ID :: string
  at_Name :: string
  at_IsAdmin :: bool
  at_Enabled :: bool
  at_MaxSessions :: int
  at_LastUsedAt :: "string option"
  at_CreatedAt :: string
  at_ShowDemoEndpoints :: bool

definition accounts_Get :: "bool \<Rightarrow> bool \<Rightarrow> string \<Rightarrow> id_db \<Rightarrow> store_error + account option" where
  "accounts_Get flt flt2 accountID db =
     (if flt then Inl StoreDriver
      else Inr (map_option (\<lambda>r. \<lparr>at_ID = accountID, at_Name = ac_name r, at_IsAdmin = (accountID = adminID flt2 db),
                  at_Enabled = ac_enabled r \<noteq> 0, at_MaxSessions = ac_max_sessions r, at_LastUsedAt = ac_last_used_at r,
                  at_CreatedAt = ac_created_at r, at_ShowDemoEndpoints = ac_show_demo r \<noteq> 0\<rparr>) (GetAccount accountID db)))"

definition accounts_List :: "bool \<Rightarrow> bool \<Rightarrow> id_db \<Rightarrow> store_error + account list" where
  "accounts_List flt flt2 db =
     (if flt then Inl StoreDriver
      else Inr (map (\<lambda>(k, r). \<lparr>at_ID = k, at_Name = ac_name r, at_IsAdmin = (k = adminID flt2 db),
                  at_Enabled = ac_enabled r \<noteq> 0, at_MaxSessions = ac_max_sessions r, at_LastUsedAt = ac_last_used_at r,
                  at_CreatedAt = ac_created_at r, at_ShowDemoEndpoints = False\<rparr>) (ListAllAccounts db)))"

definition UpdateSelf ::
  "bool \<Rightarrow> bool \<Rightarrow> string \<Rightarrow> string option \<Rightarrow> bool option \<Rightarrow> string \<Rightarrow> id_db \<Rightarrow> store_error option \<times> id_db"
where
  "UpdateSelf flt1 flt2 accountID name showDemo now db =
     (case (case name of
              None \<Rightarrow> (None, db)
            | Some n \<Rightarrow> if flt1 then (Some StoreDriver, db) else (None, UpdateAccountName n now accountID db)) of
        (Some e, db) \<Rightarrow> (Some e, db)
      | (None, db) \<Rightarrow>
          (case showDemo of
             None \<Rightarrow> (None, db)
           | Some b \<Rightarrow> if flt2 then (Some StoreDriver, db)
                      else (None, UpdateAccountShowDemo (if b then 1 else 0) now accountID db)))"

text \<open>
  The deletes of one transaction; \<open>blocked\<close> says that a row of another table still refers to the
  account. The admin singleton refers to its account, so the admin cannot be deleted.
\<close>

record delete_faults =
  df_begin :: bool
  df_commit :: bool
  df_creds :: bool
  df_endpoints :: bool
  df_account :: bool

definition accounts_Delete :: "delete_faults \<Rightarrow> bool \<Rightarrow> string \<Rightarrow> id_db \<Rightarrow> (store_error + unit) \<times> id_db" where
  "accounts_Delete flt blocked accountID =
     WithTx (df_begin flt) (df_commit flt) (\<lambda>db.
       if df_creds flt then (Inl StoreDriver, db)
       else let db = db\<lparr>id_creds := filter (\<lambda>(k, r). wc_account_id r \<noteq> accountID) (id_creds db)\<rparr> in
            if df_endpoints flt \<or> df_account flt then (Inl StoreDriver, db)
            else if blocked \<or> id_admin db = Some accountID then (Inl StoreConstraint, db)
            else (Inr (), db\<lparr>id_accounts := AList.delete accountID (id_accounts db)\<rparr>))"

end
