(* ===== verification/Sign_Agent.thy ===== *)
theory Sign_Agent
  imports Approval_Broker Go_Strings
begin

text \<open>
  \<open>src/internal/signagent/agent.go\<close>: the read-only SSH agent whose every signature is routed
  through the approval broker.

  A signer is the public side of a file key and whether it can sign with a chosen algorithm; the
  cryptography of \<open>golang.org/x/crypto/ssh\<close> (the signature itself, the fingerprint), the two
  decoders of \<open>Signing\<close>, and the broker's blocking answers are the functions of an \<open>agent_env\<close>. A
  signing call returns its result together with the prompts it raised.
\<close>

section \<open>Types\<close>

record pub_key =
  pk_type :: string
  pk_blob :: "byte list"

record ssh_signer =
  sn_pub :: pub_key
  sn_algorithms :: bool

record identity =
  id_Signer :: "ssh_signer option"
  id_PublicKey :: "pub_key option"
  id_IsPasskey :: bool
  id_CredentialID :: string
  id_Label :: string
  id_RpID :: string

record sign_agent =
  ag_identities :: "identity list"
  ag_accountID :: string
  ag_connectionID :: string
  ag_actionCtx :: sign_context
  ag_redirectTo :: string

record agent_key =
  ak_Format :: string
  ak_Blob :: "byte list"
  ak_Comment :: string

text \<open>\<open>NilSigner\<close> is the nil dereference of a file identity that carries no signer.\<close>

datatype prompt = PromptSign string sign_request sign_context string | PromptKey key_approval

datatype agent_error =
    KeyNotFound
  | CannotSignWith string string
  | NilSigner
  | BrokerRefused broker_error
  | BadAssertion sign_error
  | CryptoFailed
  | ReadOnly
  | ExtensionUnsupported

record agent_env =
  ev_requestSign :: "string \<Rightarrow> sign_request \<Rightarrow> sign_context \<Rightarrow> string \<Rightarrow> broker_error + sign_response"
  ev_requestKey :: "key_approval \<Rightarrow> string \<times> broker_error option"
  ev_sign :: "ssh_signer \<Rightarrow> string \<Rightarrow> byte list \<Rightarrow> ssh_signature option"
  ev_fingerprint :: "byte list \<Rightarrow> string"
  ev_read_ecdsa :: "byte list \<Rightarrow> (int \<times> int) option"
  ev_json_origin :: "byte list \<Rightarrow> string"

definition KeyAlgoRSA :: string where "KeyAlgoRSA = ''ssh-rsa''"
definition KeyAlgoRSASHA256 :: string where "KeyAlgoRSASHA256 = ''rsa-sha2-256''"
definition KeyAlgoRSASHA512 :: string where "KeyAlgoRSASHA512 = ''rsa-sha2-512''"

section \<open>Key matching\<close>

definition sk_algo :: string where
  "sk_algo = ''sk-ecdsa-sha2-nistp256@openssh.com''"

definition canonicalizeSK :: "byte list \<Rightarrow> byte list" where
  "canonicalizeSK blob =
     (if length blob < 4 then blob
      else let typeLen = unat (read_be32 (take 4 blob)) in
           if typeLen + 4 > length blob then blob
           else if take typeLen (drop 4 blob) \<noteq> bytes_of WebAuthnSKAlgo then blob
           else be32 (of_nat (length sk_algo)) @ bytes_of sk_algo @ drop (4 + typeLen) blob)"

definition id_pub :: "identity \<Rightarrow> pub_key option" where
  "id_pub i = (case id_PublicKey i of Some p \<Rightarrow> Some p | None \<Rightarrow> map_option sn_pub (id_Signer i))"

definition id_matches :: "byte list \<Rightarrow> identity \<Rightarrow> bool" where
  "id_matches want i =
     (case id_pub i of
        None \<Rightarrow> False
      | Some p \<Rightarrow> pk_blob p = want \<or> (id_IsPasskey i \<and> canonicalizeSK (pk_blob p) = canonicalizeSK want))"

fun agent_match :: "byte list \<Rightarrow> identity list \<Rightarrow> identity option" where
  "agent_match want [] = None"
| "agent_match want (i # is) = (if id_matches want i then Some i else agent_match want is)"

section \<open>Operations\<close>

definition agent_List :: "sign_agent \<Rightarrow> agent_key list" where
  "agent_List a =
     List.map_filter (\<lambda>i. map_option (\<lambda>p. \<lparr>ak_Format = pk_type p, ak_Blob = pk_blob p, ak_Comment = id_Label i\<rparr>)
       (id_pub i)) (ag_identities a)"

definition passkey_request :: "sign_agent \<Rightarrow> identity \<Rightarrow> byte list \<Rightarrow> sign_request" where
  "passkey_request a i data =
     \<lparr>sr_CredentialID = id_CredentialID i, sr_DataToSign = data, sr_RpID = id_RpID i, sr_UserVerification = [],
      sr_PasskeyLabel = id_Label i, sr_ConnectionID = ag_connectionID a\<rparr>"

definition file_request :: "agent_env \<Rightarrow> sign_agent \<Rightarrow> identity \<Rightarrow> ssh_signer \<Rightarrow> key_approval" where
  "file_request ev a i s =
     \<lparr>ka_AccountID = ag_accountID a, ka_KeyLabel = id_Label i,
      ka_KeyFingerprint = ev_fingerprint ev (pk_blob (sn_pub s)), ka_ConnectionID = ag_connectionID a,
      ka_Context = ag_actionCtx a, ka_RedirectTo = ag_redirectTo a\<rparr>"

text \<open>The passkey branch: one prompt, then the conversion of the assertion.\<close>

definition sign_passkey ::
  "agent_env \<Rightarrow> sign_agent \<Rightarrow> identity \<Rightarrow> byte list \<Rightarrow> (agent_error + ssh_signature) \<times> prompt list"
where
  "sign_passkey ev a i data =
     (let req = passkey_request a i data
      in (case ev_requestSign ev (ag_accountID a) req (ag_actionCtx a) (ag_redirectTo a) of
            Inl e \<Rightarrow> Inl (BrokerRefused e)
          | Inr resp \<Rightarrow>
              (case BuildSSHSignature (ev_read_ecdsa ev) (ev_json_origin ev) resp of
                 Inl e \<Rightarrow> Inl (BadAssertion e)
               | Inr sg \<Rightarrow> Inr sg),
          [PromptSign (ag_accountID a) req (ag_actionCtx a) (ag_redirectTo a)]))"

text \<open>The file-key branch; \<open>algorithm\<close> is empty when the key signs with its sole algorithm.\<close>

definition sign_file ::
  "agent_env \<Rightarrow> sign_agent \<Rightarrow> identity \<Rightarrow> ssh_signer \<Rightarrow> byte list \<Rightarrow> string \<Rightarrow>
   (agent_error + ssh_signature) \<times> prompt list"
where
  "sign_file ev a i s data algorithm =
     (let req = file_request ev a i s
      in (case snd (ev_requestKey ev req) of
            Some e \<Rightarrow> Inl (BrokerRefused e)
          | None \<Rightarrow> (case ev_sign ev s algorithm data of None \<Rightarrow> Inl CryptoFailed | Some sg \<Rightarrow> Inr sg),
          [PromptKey req]))"

definition agent_sign ::
  "agent_env \<Rightarrow> sign_agent \<Rightarrow> byte list \<Rightarrow> byte list \<Rightarrow> string \<Rightarrow> (agent_error + ssh_signature) \<times> prompt list"
where
  "agent_sign ev a key data algorithm =
     (case agent_match key (ag_identities a) of
        None \<Rightarrow> (Inl KeyNotFound, [])
      | Some i \<Rightarrow>
          if id_IsPasskey i then sign_passkey ev a i data
          else case id_Signer i of
                 None \<Rightarrow> (Inl NilSigner, [])
               | Some s \<Rightarrow>
                   if algorithm \<noteq> [] \<and> pk_type (sn_pub s) = KeyAlgoRSA
                   then if \<not> sn_algorithms s then (Inl (CannotSignWith (id_Label i) algorithm), [])
                        else sign_file ev a i s data algorithm
                   else sign_file ev a i s data [])"

definition agent_Sign ::
  "agent_env \<Rightarrow> sign_agent \<Rightarrow> byte list \<Rightarrow> byte list \<Rightarrow> (agent_error + ssh_signature) \<times> prompt list"
where
  "agent_Sign ev a key data = agent_sign ev a key data []"

text \<open>The flag values are those of the SSH agent protocol.\<close>

definition SignWithFlags ::
  "agent_env \<Rightarrow> sign_agent \<Rightarrow> byte list \<Rightarrow> byte list \<Rightarrow> 32 word \<Rightarrow> (agent_error + ssh_signature) \<times> prompt list"
where
  "SignWithFlags ev a key data flags =
     agent_sign ev a key data
       (if and flags 4 \<noteq> 0 then KeyAlgoRSASHA512 else if and flags 2 \<noteq> 0 then KeyAlgoRSASHA256 else [])"

datatype agent_admin = Add | Remove | RemoveAll | Lock | Unlock | Signers | Extension

fun agent_refuses :: "agent_admin \<Rightarrow> agent_error" where
  "agent_refuses Extension = ExtensionUnsupported"
| "agent_refuses _ = ReadOnly"

definition PasskeyIdentity :: "string \<Rightarrow> string \<Rightarrow> string \<Rightarrow> string \<Rightarrow> identity option" where
  "PasskeyIdentity line credentialID label rpID =
     (case string_fields line of
        _ # f1 # _ \<Rightarrow>
          (case Std_Decode f1 of
             None \<Rightarrow> None
           | Some blob \<Rightarrow>
               Some \<lparr>id_Signer = None, id_PublicKey = Some \<lparr>pk_type = WebAuthnSKAlgo, pk_blob = blob\<rparr>,
                     id_IsPasskey = True, id_CredentialID = credentialID, id_Label = label, id_RpID = rpID\<rparr>)
      | _ \<Rightarrow> None)"

section \<open>Properties\<close>

lemma agent_match_Some: "agent_match want is = Some i \<Longrightarrow> i \<in> set is \<and> id_matches want i"
  by (induction "is") (auto split: if_splits)

text \<open>
  C8: no signature without a human. If a signing request yields a signature, then exactly one
  prompt was raised, for the agent's own account, and it was granted: for a passkey the signature
  is built from the assertion given for exactly these bytes, for a file key it is made by the
  matched identity's signer after the approval. A request for an unknown key, or one the signer
  cannot satisfy, raises no prompt at all.
\<close>

theorem sign_needs_approval:
  assumes "agent_sign ev a key data algorithm = (r, prompts)"
  shows "(\<forall>sg. r = Inr sg \<longrightarrow>
      (\<exists>i \<in> set (ag_identities a). id_matches key i \<and>
        ((\<exists>req resp. prompts = [PromptSign (ag_accountID a) req (ag_actionCtx a) (ag_redirectTo a)]
            \<and> sr_DataToSign req = data \<and> sr_CredentialID req = id_CredentialID i
            \<and> ev_requestSign ev (ag_accountID a) req (ag_actionCtx a) (ag_redirectTo a) = Inr resp
            \<and> BuildSSHSignature (ev_read_ecdsa ev) (ev_json_origin ev) resp = Inr sg)
       \<or> (\<exists>s req alg. prompts = [PromptKey req] \<and> ka_AccountID req = ag_accountID a
            \<and> snd (ev_requestKey ev req) = None \<and> id_Signer i = Some s \<and> ev_sign ev s alg data = Some sg))))
    \<and> (r \<in> {Inl KeyNotFound, Inl NilSigner} \<or> (\<exists>l al. r = Inl (CannotSignWith l al)) \<longrightarrow> prompts = [])"
proof (cases "agent_match key (ag_identities a)")
  case None
  with assms show ?thesis by (auto simp: agent_sign_def)
next
  case (Some i)
  note m = agent_match_Some [OF Some]
  show ?thesis
  proof (cases "id_IsPasskey i")
    case True
    with assms Some have "sign_passkey ev a i data = (r, prompts)" by (simp add: agent_sign_def)
    with m show ?thesis
      by (auto simp: sign_passkey_def passkey_request_def Let_def split: sum.splits)
  next
    case False
    show ?thesis
    proof (cases "id_Signer i")
      case None
      with assms Some False show ?thesis by (auto simp: agent_sign_def)
    next
      case s: (Some s)
      have "r = Inl (CannotSignWith (id_Label i) algorithm) \<and> prompts = []
          \<or> (\<exists>alg. sign_file ev a i s data alg = (r, prompts))"
        using assms Some False s by (auto simp: agent_sign_def split: if_splits)
      with m s show ?thesis
        by (auto simp: sign_file_def file_request_def Let_def split: option.splits)
    qed
  qed
qed

definition ex_env :: agent_env where
  "ex_env = \<lparr>ev_requestSign = \<lambda>_ _ _ _. Inl ContextDone, ev_requestKey = \<lambda>_. (''act-1'', None),
    ev_sign = \<lambda>s alg data. Some \<lparr>sg_Format = alg, sg_Blob = data, sg_Rest = []\<rparr>,
    ev_fingerprint = \<lambda>_. ''SHA256:x'', ev_read_ecdsa = \<lambda>_. None, ev_json_origin = \<lambda>_. []\<rparr>"

definition ex_identity :: identity where
  "ex_identity = \<lparr>id_Signer = Some \<lparr>sn_pub = \<lparr>pk_type = KeyAlgoRSA, pk_blob = [1, 2]\<rparr>, sn_algorithms = True\<rparr>,
    id_PublicKey = None, id_IsPasskey = False, id_CredentialID = [], id_Label = ''file key'', id_RpID = []\<rparr>"

definition ex_agent :: sign_agent where
  "ex_agent = \<lparr>ag_identities = [ex_identity], ag_accountID = ''acct'', ag_connectionID = ''conn'',
    ag_actionCtx = cp_Context ex_params, ag_redirectTo = []\<rparr>"

theorem sign_needs_approval_witness:
  "\<exists>sg prompts. agent_sign ex_env ex_agent [1, 2] [7] KeyAlgoRSASHA256 = (Inr sg, prompts)
     \<and> prompts = [PromptKey (file_request ex_env ex_agent ex_identity (the (id_Signer ex_identity)))]
     \<and> (\<exists>i \<in> set (ag_identities ex_agent). id_matches [1, 2] i)"
proof -
  let ?sg = "\<lparr>sg_Format = KeyAlgoRSASHA256, sg_Blob = [7], sg_Rest = []\<rparr>"
  let ?p = "[PromptKey (file_request ex_env ex_agent ex_identity (the (id_Signer ex_identity)))]"
  have run: "agent_sign ex_env ex_agent [1, 2] [7] KeyAlgoRSASHA256 = (Inr ?sg, ?p)"
    by (simp add: agent_sign_def ex_agent_def ex_identity_def ex_env_def id_matches_def id_pub_def sign_file_def
        KeyAlgoRSASHA256_def Let_def)
  with sign_needs_approval [OF run] show ?thesis by blast
qed

end
