(* ===== verification/Sanitize.thy ===== *)
theory Sanitize
  imports Prelude
begin

text \<open>
  \<open>src/internal/util/sanitize.go\<close>: cleaning of strings a client reports about itself before they
  reach an approval prompt. Go's \<open>range\<close> over a string decodes UTF-8 (an invalid byte is the
  replacement rune of width one) and \<open>WriteRune\<close> encodes it again; both are modelled on byte
  values.
\<close>

section \<open>UTF-8\<close>

definition cont :: "nat \<Rightarrow> nat \<Rightarrow> nat \<Rightarrow> bool" where
  "cont lo hi b \<longleftrightarrow> lo \<le> b \<and> b \<le> hi"

definition rune_error :: nat where
  "rune_error = 0xFFFD"

text \<open>The rune a non-empty byte string starts with, and its width.\<close>

fun decode_rune :: "nat list \<Rightarrow> nat \<times> nat" where
  "decode_rune [] = (rune_error, 0)"
| "decode_rune (a # bs) =
     (if a < 0x80 then (a, 1)
      else case bs of
        [] \<Rightarrow> (rune_error, 1)
      | b # cs \<Rightarrow>
          if 0xC2 \<le> a \<and> a \<le> 0xDF
          then if cont 0x80 0xBF b then ((a - 0xC0) * 64 + (b - 0x80), 2) else (rune_error, 1)
          else (case cs of
            [] \<Rightarrow> (rune_error, 1)
          | c # ds \<Rightarrow>
              if 0xE0 \<le> a \<and> a \<le> 0xEF
              then if cont (if a = 0xE0 then 0xA0 else 0x80) (if a = 0xED then 0x9F else 0xBF) b \<and> cont 0x80 0xBF c
                   then ((a - 0xE0) * 4096 + (b - 0x80) * 64 + (c - 0x80), 3) else (rune_error, 1)
              else (case ds of
                [] \<Rightarrow> (rune_error, 1)
              | d # _ \<Rightarrow>
                  if 0xF0 \<le> a \<and> a \<le> 0xF4
                     \<and> cont (if a = 0xF0 then 0x90 else 0x80) (if a = 0xF4 then 0x8F else 0xBF) b
                     \<and> cont 0x80 0xBF c \<and> cont 0x80 0xBF d
                  then ((a - 0xF0) * 262144 + (b - 0x80) * 4096 + (c - 0x80) * 64 + (d - 0x80), 4)
                  else (rune_error, 1))))"

definition encode_rune :: "nat \<Rightarrow> nat list" where
  "encode_rune r =
     (if r < 0x80 then [r]
      else if r < 0x800 then [0xC0 + r div 64, 0x80 + r mod 64]
      else if (0xD800 \<le> r \<and> r \<le> 0xDFFF) \<or> 0x10FFFF < r then [0xEF, 0xBF, 0xBD]
      else if r < 0x10000 then [0xE0 + r div 4096, 0x80 + r div 64 mod 64, 0x80 + r mod 64]
      else [0xF0 + r div 262144, 0x80 + r div 4096 mod 64, 0x80 + r div 64 mod 64, 0x80 + r mod 64])"

lemma decode_width: "bs \<noteq> [] \<Longrightarrow> 0 < snd (decode_rune bs)"
  by (cases bs rule: decode_rune.cases) (simp_all split: list.split)

section \<open>SanitizeClientReported\<close>

definition ClientHeaderMaxLen :: nat where
  "ClientHeaderMaxLen = 128"

text \<open>The loop: \<open>out\<close> is what the builder holds.\<close>

function sanitize_loop :: "nat list \<Rightarrow> nat list \<Rightarrow> nat list" where
  "sanitize_loop raw out =
     (if raw = [] then out
      else let (r, w) = decode_rune raw; rest = drop w raw in
           if r \<le> 0x1F \<or> r = 0x7F then sanitize_loop rest out
           else let out = out @ encode_rune r
                in if length out \<ge> ClientHeaderMaxLen then out else sanitize_loop rest out)"
  by auto
termination
proof (relation "measure (\<lambda>(raw, out). length raw)")
  fix raw out :: "nat list" and x r w rest
  assume "raw \<noteq> []" "x = decode_rune raw" "(r, w) = x" "rest = drop w raw"
  moreover have "0 < w" using decode_width [of raw] calculation by (metis snd_conv)
  ultimately show "((rest, out), raw, out) \<in> measure (\<lambda>(raw, out). length raw)"
    by (cases raw) auto
next
  fix raw out :: "nat list" and x r w rest xa
  assume "raw \<noteq> []" "x = decode_rune raw" "(r, w) = x" "rest = drop w raw"
  moreover have "0 < w" using decode_width [of raw] calculation by (metis snd_conv)
  ultimately show "((rest, xa), raw, out) \<in> measure (\<lambda>(raw, out). length raw)"
    by (cases raw) auto
qed simp

declare sanitize_loop.simps [simp del]

definition SanitizeClientReported :: "string \<Rightarrow> string" where
  "SanitizeClientReported raw =
     (let out = sanitize_loop (map of_char raw) []
      in map char_of (if length out > ClientHeaderMaxLen then take ClientHeaderMaxLen out else out))"

section \<open>Properties\<close>

definition printable :: "nat \<Rightarrow> bool" where
  "printable b \<longleftrightarrow> 0x1F < b \<and> b \<noteq> 0x7F \<and> b < 256"

lemma encode_printable:
  assumes "\<not> (r \<le> 0x1F \<or> r = 0x7F)"
  shows "\<forall>b \<in> set (encode_rune r). printable b"
proof -
  have "r div 64 < 32" if "r < 0x800" using that by (simp add: div_less_iff_less_mult)
  moreover have "r div 4096 < 16" if "r < 0x10000" using that by (simp add: div_less_iff_less_mult)
  moreover have "r div 262144 \<le> 4" if "r \<le> 0x10FFFF" using div_le_mono [OF that, of 262144] by simp
  moreover have "x mod 64 < 64" for x :: nat by simp
  ultimately show ?thesis using assms by (auto simp: encode_rune_def printable_def add.commute)
qed

lemma sanitize_loop_printable:
  "\<forall>b \<in> set out. printable b \<Longrightarrow> \<forall>b \<in> set (sanitize_loop raw out). printable b"
proof (induction raw out rule: sanitize_loop.induct)
  case (1 raw out)
  show ?case
  proof (cases "raw = []")
    case True
    with 1 show ?thesis by (simp add: sanitize_loop.simps)
  next
    case False
    obtain r w where d: "decode_rune raw = (r, w)" by (cases "decode_rune raw")
    show ?thesis
    proof (cases "r \<le> 0x1F \<or> r = 0x7F")
      case True
      with 1 False d show ?thesis by (subst sanitize_loop.simps) (simp add: Let_def)
    next
      case ok: False
      have "\<forall>b \<in> set (out @ encode_rune r). printable b" using 1(3) encode_printable [OF ok] by auto
      with 1(2) False d ok show ?thesis by (subst sanitize_loop.simps) (auto simp: Let_def)
    qed
  qed
qed

text \<open>Clean ASCII text.\<close>

lemma sanitize_loop_ascii:
  "\<forall>b \<in> set raw. 0x1F < b \<and> b < 0x7F \<Longrightarrow> length out + length raw \<le> ClientHeaderMaxLen \<Longrightarrow>
     length out < ClientHeaderMaxLen \<or> raw = [] \<Longrightarrow> sanitize_loop raw out = out @ raw"
proof (induction raw arbitrary: out)
  case Nil
  then show ?case by (simp add: sanitize_loop.simps)
next
  case (Cons b raw)
  then have "b < 0x80" "\<not> (b \<le> 0x1F \<or> b = 0x7F)" by auto
  with Cons show ?case
    by (cases raw; subst sanitize_loop.simps) (auto simp: Let_def encode_rune_def)
qed


lemma sanitized_printable:
  "\<forall>c \<in> set (SanitizeClientReported raw). 0x1F < (of_char c :: nat) \<and> (of_char c :: nat) \<noteq> 0x7F"
proof -
  let ?out = "sanitize_loop (map of_char raw) []"
  have "\<forall>b \<in> set ?out. printable b" by (rule sanitize_loop_printable) simp
  then have "\<forall>b \<in> set (if length ?out > ClientHeaderMaxLen then take ClientHeaderMaxLen ?out else ?out). printable b"
    by (auto dest: in_set_takeD)
  then show ?thesis by (fastforce simp: SanitizeClientReported_def Let_def printable_def)
qed

text \<open>
  What reaches the approval prompt is short and free of control characters. For every reported
  string the result has at most 128 bytes, none of which is an ASCII control character or DEL; and
  a plain printable ASCII string of at most 128 bytes is passed on unchanged.
\<close>

theorem sanitize_clean:
  "length (SanitizeClientReported raw) \<le> 128
   \<and> (\<forall>c \<in> set (SanitizeClientReported raw). 0x1F < (of_char c :: nat) \<and> (of_char c :: nat) \<noteq> 0x7F)
   \<and> (length raw \<le> 128 \<and> (\<forall>c \<in> set raw. 0x1F < (of_char c :: nat) \<and> (of_char c :: nat) < 0x7F) \<longrightarrow>
        SanitizeClientReported raw = raw)"
proof -
  let ?out = "sanitize_loop (map of_char raw) []"
  note sanitized_printable [of raw]
  moreover have "length (SanitizeClientReported raw) \<le> 128"
    by (simp add: SanitizeClientReported_def Let_def ClientHeaderMaxLen_def)
  moreover have "SanitizeClientReported raw = raw"
    if "length raw \<le> 128" "\<forall>c \<in> set raw. 0x1F < (of_char c :: nat) \<and> (of_char c :: nat) < 0x7F"
  proof -
    have "?out = [] @ map of_char raw"
      using that by (intro sanitize_loop_ascii) (auto simp: ClientHeaderMaxLen_def)
    with that(1) show ?thesis by (simp add: SanitizeClientReported_def ClientHeaderMaxLen_def comp_def)
  qed
  ultimately show ?thesis by blast
qed

theorem sanitize_clean_witness: "SanitizeClientReported ''laptop-7'' = ''laptop-7''"
  using sanitize_clean [of "''laptop-7''"] by simp

lemma sanitize_loop_as:
  "length out + n < ClientHeaderMaxLen \<Longrightarrow>
     sanitize_loop (replicate n 97 @ rest) out = sanitize_loop rest (out @ replicate n 97)"
proof (induction n arbitrary: out)
  case (Suc n)
  then show ?case
    using Suc.IH [of "out @ [97]"]
    by (subst sanitize_loop.simps) (simp add: Let_def encode_rune_def)
qed simp

lemma char_vals: "char_of (97 :: nat) = CHR ''a''" "char_of (195 :: nat) = CHR 0xC3" "char_of (239 :: nat) = CHR 0xEF"
  by code_simp+

text \<open>A prefix of 127 letters fills the builder up to one byte below the limit.\<close>

lemma sanitize_after_127:
  assumes "map of_char tl_bytes = bs" "bs \<noteq> []" "\<not> (fst (decode_rune bs) \<le> 0x1F \<or> fst (decode_rune bs) = 0x7F)"
    and "encode_rune (fst (decode_rune bs)) = x # y # xs"
  shows "SanitizeClientReported (replicate 127 CHR ''a'' @ tl_bytes) = replicate 127 CHR ''a'' @ [char_of x]"
proof -
  have "sanitize_loop (replicate 127 97 @ bs) [] = sanitize_loop bs (replicate 127 97)"
    using sanitize_loop_as [of "[]" 127 bs] by (simp add: ClientHeaderMaxLen_def)
  also have "\<dots> = replicate 127 97 @ x # y # xs"
    using assms by (subst sanitize_loop.simps) (simp add: Let_def case_prod_beta ClientHeaderMaxLen_def)
  finally show ?thesis
    using assms(1) by (simp add: SanitizeClientReported_def Let_def ClientHeaderMaxLen_def char_vals)
qed

text \<open>
  The cleaning is not idempotent. A two-byte rune that straddles the limit is cut in half, and a
  second pass replaces the dangling lead byte by (the first byte of) the replacement character.
\<close>

theorem sanitize_not_idempotent:
  "SanitizeClientReported (SanitizeClientReported (replicate 127 CHR ''a'' @ [CHR 0xC3, CHR 0xA9]))
     \<noteq> SanitizeClientReported (replicate 127 CHR ''a'' @ [CHR 0xC3, CHR 0xA9])"
proof -
  have "SanitizeClientReported (replicate 127 CHR ''a'' @ [CHR 0xC3, CHR 0xA9]) = replicate 127 CHR ''a'' @ [CHR 0xC3]"
    by (subst sanitize_after_127 [where bs = "[0xC3, 0xA9]" and x = "0xC3" and y = "0xA9" and xs = "[]"])
       (simp_all add: cont_def encode_rune_def char_vals)
  moreover have "SanitizeClientReported (replicate 127 CHR ''a'' @ [CHR 0xC3]) = replicate 127 CHR ''a'' @ [CHR 0xEF]"
    by (subst sanitize_after_127 [where bs = "[0xC3]" and x = "0xEF" and y = "0xBF" and xs = "[0xBD]"])
       (simp_all add: rune_error_def encode_rune_def char_vals)
  ultimately show ?thesis by simp
qed

end
