(* ===== verification/Agent_Proxy.thy ===== *)
theory Agent_Proxy
  imports Credential_Store Sign_Agent Sanitize Real_IP Bearer_Gate
begin

text \<open>
  \<open>src/internal/agentproxy\<close>: the bridge that runs the SSH agent protocol over a WebSocket.

  \<open>framing.go\<close>: a \<open>ws_rw\<close> is the adapter with the messages its socket has still to deliver and the
  ones it has sent; \<open>fails k\<close> says whether the socket refuses the write of message \<open>k\<close>. Lengths are
  kept in 32 bits where the code keeps them there, so the loop of \<open>Write\<close> is a partial function:
  the properties show when it returns.

  \<open>route.go\<close>: the handler, with the protocol server of \<open>golang.org/x/crypto\<close> and the credential
  and key-file lookups as parameters.
\<close>

section \<open>Framing\<close>

datatype ws_type = MessageText | MessageBinary

record ws_rw =
  wr_in :: "(ws_type \<times> byte list) list"
  wr_readBuf :: "byte list"
  wr_writeBuf :: "byte list"
  wr_sent :: "byte list list"
  wr_closed :: "int option"

definition newWSReadWriter :: "(ws_type \<times> byte list) list \<Rightarrow> ws_rw" where
  "newWSReadWriter ins = \<lparr>wr_in = ins, wr_readBuf = [], wr_writeBuf = [], wr_sent = [], wr_closed = None\<rparr>"

datatype read_error = ReadFailed | ReadEOF

text \<open>The socket's read fails once no message is left; \<open>k\<close> is the length of the caller's buffer.\<close>

function ws_Read :: "nat \<Rightarrow> ws_rw \<Rightarrow> (read_error + byte list) \<times> ws_rw" where
  "ws_Read k c =
     (if wr_readBuf c \<noteq> []
      then (Inr (take k (wr_readBuf c)), c\<lparr>wr_readBuf := drop k (wr_readBuf c)\<rparr>)
      else case wr_in c of
             [] \<Rightarrow> (Inl ReadFailed, c)
           | (t, d) # ins \<Rightarrow>
               if t \<noteq> MessageBinary then (Inl ReadEOF, c\<lparr>wr_in := ins, wr_closed := Some 4002\<rparr>)
               else ws_Read k (c\<lparr>wr_in := ins, wr_readBuf := d\<rparr>))"
  by auto
termination by (relation "measure (\<lambda>(k, c). length (wr_in c))") auto

declare ws_Read.simps [simp del]

partial_function (option) write_loop :: "(nat \<Rightarrow> bool) \<Rightarrow> ws_rw \<Rightarrow> (bool \<times> ws_rw) option" where
  "write_loop fails c =
     (if length (wr_writeBuf c) < 4 then Some (True, c)
      else let n = read_be32 (take 4 (wr_writeBuf c)) in
           if of_nat (length (wr_writeBuf c) - 4) < n then Some (True, c)
           else if fails (length (wr_sent c)) then Some (False, c)
           else write_loop fails
                  (c\<lparr>wr_sent := wr_sent c @ [take (unat (4 + n)) (wr_writeBuf c)],
                     wr_writeBuf := drop (unat (4 + n)) (wr_writeBuf c)\<rparr>))"

definition ws_Write :: "(nat \<Rightarrow> bool) \<Rightarrow> byte list \<Rightarrow> ws_rw \<Rightarrow> (nat option \<times> ws_rw) option" where
  "ws_Write fails p c =
     map_option (\<lambda>(ok, c). (if ok then Some (length p) else None, c))
       (write_loop fails (c\<lparr>wr_writeBuf := wr_writeBuf c @ p\<rparr>))"

section \<open>The route\<close>

definition file_identity :: "ssh_signer \<Rightarrow> identity" where
  "file_identity s =
     \<lparr>id_Signer = Some s, id_PublicKey = None, id_IsPasskey = False, id_CredentialID = [],
      id_Label = ''file key'', id_RpID = []\<rparr>"

text \<open>
  \<open>fileKeys\<close> is absent when no source is configured; its inner \<open>None\<close> is a failed listing, which
  the code ignores, whereas a failed credential lookup is an error.
\<close>

definition buildIdentities ::
  "ssh_signer list option option \<Rightarrow> (string \<Rightarrow> auth_credential list option) \<Rightarrow> string \<Rightarrow> string \<Rightarrow>
   identity list option"
where
  "buildIdentities fileKeys credentials rpID accountID =
     (let files = (case fileKeys of Some (Some signers) \<Rightarrow> map file_identity signers | _ \<Rightarrow> [])
      in case credentials accountID of
           None \<Rightarrow> None
         | Some creds \<Rightarrow>
             Some (files @ List.map_filter
               (\<lambda>c. PasskeyIdentity (au_PublicKeyOpenSSH c) (au_CredentialID c) (au_Label c) rpID) creds))"

record proxy_request =
  pr_principal :: "principal option"
  pr_ip :: ip_request
  pr_header :: "string \<Rightarrow> string"

definition proxy_ctx :: "proxy_request \<Rightarrow> sign_context" where
  "proxy_ctx r =
     \<lparr>cx_Source = ''agent-proxy'', cx_EndpointLabel = [], cx_EndpointAddress = [], cx_SessionID = [],
      cx_SourceIP = FromRequest (pr_ip r),
      cx_ClientHostname = SanitizeClientReported (pr_header r ''X-ShellWatch-Hostname''),
      cx_ClientOS = SanitizeClientReported (pr_header r ''X-ShellWatch-OS''),
      cx_ClientVersion = SanitizeClientReported (pr_header r ''X-ShellWatch-Version''),
      cx_HostKey = None, cx_TriggerKind = [], cx_MCPReason = [], cx_MCPClientName = [], cx_MCPClientVer = []\<rparr>"

datatype proxy_result = ProxyRefused http_resp | ProxyNotUpgraded | ProxyClosed int string

record proxy_deps =
  pd_Credentials :: "string \<Rightarrow> auth_credential list option"
  pd_FileKeys :: "ssh_signer list option option"
  pd_RpID :: string
  pd_NewConnectionID :: "string option"

definition proxy_connID :: "proxy_deps \<Rightarrow> string" where
  "proxy_connID d = (case pd_NewConnectionID d of None \<Rightarrow> ''conn'' | Some c \<Rightarrow> c)"

text \<open>
  \<open>accepted\<close> is the outcome of the upgrade, \<open>serve a b\<close> the broker as the agent protocol session
  of agent \<open>a\<close> (with whatever else ran meanwhile) leaves it, \<open>at\<close> the clock at the disconnect.
\<close>

definition proxy_Handler ::
  "proxy_deps \<Rightarrow> (sign_agent \<Rightarrow> broker \<Rightarrow> broker) \<Rightarrow> time \<Rightarrow> bool \<Rightarrow> proxy_request \<Rightarrow> broker \<Rightarrow>
   proxy_result \<times> broker"
where
  "proxy_Handler d serve at accepted r b =
     (case pr_principal r of
        None \<Rightarrow> (ProxyRefused (apierr_Write 401 ''unauthenticated''), b)
      | Some p \<Rightarrow>
          if \<not> accepted then (ProxyNotUpgraded, b)
          else case buildIdentities (pd_FileKeys d) (pd_Credentials d) (pd_RpID d) (p_AccountID p) of
                 None \<Rightarrow> (ProxyClosed 1011 ''identity lookup failed'', b)
               | Some identities \<Rightarrow>
                   let connID = proxy_connID d;
                       ba = \<lparr>ag_identities = identities, ag_accountID = p_AccountID p, ag_connectionID = connID,
                             ag_actionCtx = proxy_ctx r, ag_redirectTo = []\<rparr>
                   in (ProxyClosed 1000 [],
                       snd (Broker_CancelForConnection at connID ''agent-proxy connection closed'' (serve ba b))))"

section \<open>Frames\<close>

definition agent_frame :: "byte list \<Rightarrow> byte list" where
  "agent_frame p = be32 (of_nat (length p)) @ p"

definition small :: "byte list \<Rightarrow> bool" where
  "small p \<longleftrightarrow> length p < 2 ^ 31 - 4"

lemma unat_len32: "n < 2 ^ 32 \<Longrightarrow> unat (of_nat n :: 32 word) = n"
  by (simp add: unsigned_of_nat take_bit_nat_eq_self)

lemma less_len32: "m < 2 ^ 32 \<Longrightarrow> n < 2 ^ 32 \<Longrightarrow> (of_nat m :: 32 word) < of_nat n \<longleftrightarrow> m < n"
  by (simp add: word_less_nat_alt unat_len32)

lemma frame_head: "read_be32 (take 4 (agent_frame p @ rest)) = of_nat (length p)"
  by (simp add: agent_frame_def)

lemma frame_length [simp]: "length (agent_frame p) = length p + 4"
  by (simp add: agent_frame_def)

text \<open>One iteration sends exactly the frame at the head of the buffer.\<close>

lemma write_loop_frame:
  assumes "wr_writeBuf c = agent_frame p @ rest" "small p" "length (wr_writeBuf c) < 2 ^ 32"
    "\<not> fails (length (wr_sent c))"
  shows "write_loop fails c
    = write_loop fails (c\<lparr>wr_sent := wr_sent c @ [agent_frame p], wr_writeBuf := rest\<rparr>)"
proof -
  have n: "read_be32 (take 4 (wr_writeBuf c)) = of_nat (length p)" using assms(1) frame_head by simp
  have k: "unat (4 + of_nat (length p) :: 32 word) = length p + 4"
    using assms(2) unat_len32 [of "length p + 4"] by (simp add: small_def add.commute)
  have "\<not> (of_nat (length (wr_writeBuf c) - 4) :: 32 word) < of_nat (length p)"
    using assms less_len32 [of "length (wr_writeBuf c) - 4" "length p"] by (simp add: small_def)
  with assms n k show ?thesis by (subst write_loop.simps) (simp add: Let_def)
qed

text \<open>A buffer that is a proper prefix of a frame is kept.\<close>

lemma write_loop_partial:
  assumes "wr_writeBuf c @ ahead = agent_frame p" "ahead \<noteq> []" "small p"
  shows "write_loop fails c = Some (True, c)"
proof (cases "length (wr_writeBuf c) < 4")
  case True
  then show ?thesis by (subst write_loop.simps) simp
next
  case False
  have "take 4 (wr_writeBuf c) = take 4 (agent_frame p)"
    using False arg_cong [OF assms(1), of "take 4"] by simp
  then have n: "read_be32 (take 4 (wr_writeBuf c)) = of_nat (length p)"
    using frame_head [of p "[]"] by simp
  have len: "length (wr_writeBuf c) < length p + 4"
    using arg_cong [OF assms(1), of length] assms(2) by (cases ahead) auto
  with False assms(3) have "(of_nat (length (wr_writeBuf c) - 4) :: 32 word) < of_nat (length p)"
    by (subst less_len32) (auto simp: small_def)
  with False n show ?thesis by (subst write_loop.simps) (simp add: Let_def)
qed

text \<open>The buffer holds no complete frame of the stream that is still to be sent.\<close>

definition between :: "byte list \<Rightarrow> byte list \<Rightarrow> byte list list \<Rightarrow> bool" where
  "between buf ahead ps \<longleftrightarrow> buf @ ahead = concat (map agent_frame ps)
     \<and> (buf = [] \<or> (\<exists>p qs m. ps = p # qs \<and> buf @ m = agent_frame p \<and> m \<noteq> []))"

lemma write_loop_stream:
  assumes "wr_writeBuf c @ ahead = concat (map agent_frame ps)" "list_all small ps"
    "length (wr_writeBuf c) < 2 ^ 32" "\<And>k. \<not> fails k"
  shows "\<exists>done left c'. ps = done @ left \<and> write_loop fails c = Some (True, c')
    \<and> wr_sent c' = wr_sent c @ map agent_frame done \<and> between (wr_writeBuf c') ahead left"
  using assms(1-3)
proof (induction ps arbitrary: c)
  case Nil
  then have "wr_writeBuf c = []" "ahead = []" by simp_all
  then show ?case by (subst write_loop.simps) (simp add: between_def)
next
  case (Cons p ps)
  show ?case
  proof (cases "length (wr_writeBuf c) < length (agent_frame p)")
    case True
    let ?m = "drop (length (wr_writeBuf c)) (agent_frame p)"
    have *: "wr_writeBuf c @ ?m = agent_frame p"
      using arg_cong [OF Cons.prems(1), of "take (length (wr_writeBuf c))"] True
      by (metis append_eq_conv_conj append_take_drop_id concat.simps(2) less_imp_le list.simps(9) take_append
          append.right_neutral diff_is_0_eq' take_0)
    have "write_loop fails c = Some (True, c)"
      by (rule write_loop_partial [OF *]) (use True Cons.prems in simp_all)
    moreover have "between (wr_writeBuf c) ahead (p # ps)"
      unfolding between_def using * True Cons.prems(1) by (metis drop_eq_Nil linorder_not_le)
    ultimately show ?thesis by (intro exI [of _ "[]"] exI [of _ "p # ps"] exI [of _ c]) simp
  next
    case False
    let ?rest = "drop (length (agent_frame p)) (wr_writeBuf c)"
    let ?c = "c\<lparr>wr_sent := wr_sent c @ [agent_frame p], wr_writeBuf := ?rest\<rparr>"
    have buf: "wr_writeBuf c = agent_frame p @ ?rest"
      using arg_cong [OF Cons.prems(1), of "take (length (agent_frame p))"] False
      by (metis append_eq_conv_conj append_take_drop_id concat.simps(2) linorder_not_less list.simps(9) take_append
          append.right_neutral diff_is_0_eq' take_0)
    with Cons.prems(1) have rest: "?rest @ ahead = concat (map agent_frame ps)"
      by (metis append.assoc append_same_eq concat.simps(2) list.simps(9) same_append_eq)
    have "write_loop fails c = write_loop fails ?c"
      by (rule write_loop_frame [OF buf]) (use Cons.prems assms(4) in simp_all)
    moreover have IH: "\<exists>d l c'. ps = d @ l \<and> write_loop fails ?c = Some (True, c')
      \<and> wr_sent c' = wr_sent ?c @ map agent_frame d \<and> between (wr_writeBuf c') ahead l"
      by (rule Cons.IH) (use rest Cons.prems in simp_all)
    moreover obtain d l c' where "ps = d @ l" "write_loop fails ?c = Some (True, c')"
      "wr_sent c' = wr_sent ?c @ map agent_frame d" "between (wr_writeBuf c') ahead l"
      using IH by blast
    ultimately show ?thesis by (intro exI [of _ "p # d"] exI [of _ l] exI [of _ c']) simp
  qed
qed

text \<open>The writes of a session, one after the other; the result is whether all returned.\<close>

fun write_all :: "(nat \<Rightarrow> bool) \<Rightarrow> byte list list \<Rightarrow> ws_rw \<Rightarrow> ws_rw option" where
  "write_all fails [] c = Some c"
| "write_all fails (p # ps) c =
     (case ws_Write fails p c of Some (Some _, c) \<Rightarrow> write_all fails ps c | _ \<Rightarrow> None)"

lemma between_small:
  assumes "between buf ahead ps" "list_all small ps"
  shows "length buf < 2 ^ 31"
proof -
  have "length buf \<le> length p + 4" if "buf @ m = agent_frame p" for m p
    using arg_cong [OF that, of length] by simp
  with assms show ?thesis by (fastforce simp: between_def small_def)
qed

lemma write_all_stream:
  assumes "between (wr_writeBuf c) (concat chunks) ps" "list_all small ps"
    "list_all (\<lambda>ch. length ch \<le> 2 ^ 31) chunks" "\<And>k. \<not> fails k"
  shows "\<exists>c'. write_all fails chunks c = Some c' \<and> wr_sent c' = wr_sent c @ map agent_frame ps
    \<and> wr_writeBuf c' = []"
  using assms(1-3)
proof (induction chunks arbitrary: c ps)
  case Nil
  then have "wr_writeBuf c = concat (map agent_frame ps)" by (simp add: between_def)
  moreover have "ps = []"
  proof (rule ccontr)
    assume "ps \<noteq> []"
    then obtain p qs where "ps = p # qs" by (cases ps) auto
    with calculation have long: "length (agent_frame p) \<le> length (wr_writeBuf c)" by simp
    then have "wr_writeBuf c \<noteq> []" by auto
    with Nil.prems(1) \<open>ps = p # qs\<close> obtain m where "wr_writeBuf c @ m = agent_frame p" "m \<noteq> []"
      by (auto simp: between_def)
    then have "length (wr_writeBuf c) + length m = length p + 4" by (metis frame_length length_append)
    with long \<open>m \<noteq> []\<close> show False by (cases m) simp_all
  qed
  ultimately show ?case by simp
next
  case (Cons ch chunks)
  let ?c = "c\<lparr>wr_writeBuf := wr_writeBuf c @ ch\<rparr>"
  have "length (wr_writeBuf c @ ch) < 2 ^ 32"
    using between_small [OF Cons.prems(1,2)] Cons.prems(3) by simp
  then have "\<exists>d l c'. ps = d @ l \<and> write_loop fails ?c = Some (True, c')
      \<and> wr_sent c' = wr_sent ?c @ map agent_frame d \<and> between (wr_writeBuf c') (concat chunks) l"
    using Cons.prems(1,2) assms(4) by (intro write_loop_stream) (simp_all add: between_def)
  then obtain d l c' where split: "ps = d @ l" and w: "write_loop fails ?c = Some (True, c')"
    and sent: "wr_sent c' = wr_sent ?c @ map agent_frame d" and b: "between (wr_writeBuf c') (concat chunks) l"
    by blast
  have "write_all fails (ch # chunks) c = write_all fails chunks c'" using w by (simp add: ws_Write_def)
  with Cons.IH [OF b] Cons.prems split sent show ?case by auto
qed

text \<open>
  One WebSocket message per agent frame. However the protocol server chunks what it writes,
  if the bytes are a sequence of agent frames then every write returns, the messages sent are
  exactly these frames in order, and nothing is left in the buffer; frames are below two
  gigabytes, far above what the protocol allows, so the 32-bit arithmetic of the loop is exact.
\<close>

theorem frames_one_message_each:
  assumes "concat chunks = concat (map agent_frame ps)"
    and "\<forall>p \<in> set ps. length p < 2 ^ 31 - 4" "\<forall>ch \<in> set chunks. length ch \<le> 2 ^ 31"
    and "\<And>k. \<not> fails k"
  shows "\<exists>c. write_all fails chunks (newWSReadWriter ins) = Some c \<and> wr_sent c = map agent_frame ps
    \<and> wr_writeBuf c = []"
proof -
  have "between (wr_writeBuf (newWSReadWriter ins)) (concat chunks) ps"
    using assms(1) by (simp add: between_def newWSReadWriter_def)
  from write_all_stream [OF this _ _ assms(4)] assms(2,3) show ?thesis
    by (simp add: list_all_iff small_def newWSReadWriter_def)
qed

theorem frames_one_message_each_witness:
  "\<exists>c. write_all (\<lambda>_. False) [[0, 0], [0, 1, 9, 0, 0, 0], [0]] (newWSReadWriter []) = Some c
     \<and> wr_sent c = [[0, 0, 0, 1, 9], [0, 0, 0, 0]]"
proof -
  have "be32 0 = [0, 0, 0, 0]" "be32 1 = [0, 0, 0, 1]" by (simp_all add: be32_def)
  then have f: "map agent_frame [[9], []] = [[0, 0, 0, 1, 9], [0, 0, 0, 0]]" by (simp add: agent_frame_def)
  have "\<exists>c. write_all (\<lambda>_. False) [[0, 0], [0, 1, 9, 0, 0, 0], [0]] (newWSReadWriter []) = Some c
     \<and> wr_sent c = map agent_frame [[9], []] \<and> wr_writeBuf c = []"
    by (rule frames_one_message_each) (use f in simp_all)
  with f show ?thesis by auto
qed

text \<open>Reads hand over the bytes of the binary messages in order, without loss.\<close>

fun unread :: "(ws_type \<times> byte list) list \<Rightarrow> byte list" where
  "unread [] = []"
| "unread ((t, d) # ins) = (if t = MessageBinary then d @ unread ins else [])"

lemma ws_Read_stream:
  "ws_Read k c = (Inr d, c') \<Longrightarrow> 0 < k \<Longrightarrow>
     d \<noteq> [] \<and> length d \<le> k \<and> wr_readBuf c @ unread (wr_in c) = d @ wr_readBuf c' @ unread (wr_in c')"
proof (induction k c rule: ws_Read.induct)
  case (1 k c)
  show ?case
  proof (cases "wr_readBuf c = [] \<and> (\<exists>b ins. wr_in c = (MessageBinary, b) # ins)")
    case True
    then obtain b ins where e: "wr_readBuf c = []" "wr_in c = (MessageBinary, b) # ins" by blast
    with 1(2) have "ws_Read k (c\<lparr>wr_in := ins, wr_readBuf := b\<rparr>) = (Inr d, c')"
      by (subst (asm) ws_Read.simps) simp
    from 1(1) [OF _ _ _ _ this 1(3)] e show ?thesis by simp
  next
    case False
    with 1(2,3) show ?thesis
      by (subst (asm) ws_Read.simps) (auto split: if_splits list.splits)
  qed
qed

section \<open>The route's properties\<close>

lemma notifyResolved_store: "br_store (fold notifyResolved as b) = br_store b"
  by (induction "as" arbitrary: b) (simp_all add: notifyResolved_def)

lemma Cancel_actions:
  "as_actions (br_store (snd (Broker_CancelForConnection at conn reason b)))
   = map (\<lambda>(k, a). (k, if cancellable conn a then a\<lparr>a_Status := ActDenied\<rparr> else a)) (as_actions (br_store b))"
  by (simp add: Broker_CancelForConnection_def as_CancelForConnection_def notifyResolved_store Let_def split: prod.split)

lemma Cancel_get:
  "map_of (as_actions (br_store (snd (Broker_CancelForConnection at conn reason b)))) k
   = map_option (\<lambda>a. if cancellable conn a then a\<lparr>a_Status := ActDenied\<rparr> else a) (map_of (as_actions (br_store b)) k)"
  by (simp add: Cancel_actions gm_get_map_snd)

lemma Cancel_cases:
  assumes "map_of (as_actions (br_store (snd (Broker_CancelForConnection at conn reason b)))) k = Some a"
  shows "(a_ConnectionID a = conn \<longrightarrow> a_Status a \<noteq> ActPending)
    \<and> (a_ConnectionID a \<noteq> conn \<longrightarrow> map_of (as_actions (br_store b)) k = Some a)"
proof -
  obtain z where z: "map_of (as_actions (br_store b)) k = Some z"
    and a: "a = (if cancellable conn z then z\<lparr>a_Status := ActDenied\<rparr> else z)"
    using assms by (auto simp: Cancel_get)
  then show ?thesis by (cases "cancellable conn z") (auto simp: cancellable_def)
qed

lemma PasskeyIdentity_fields:
  "PasskeyIdentity l cid lab rp = Some i \<Longrightarrow> id_IsPasskey i \<and> id_CredentialID i = cid \<and> id_RpID i = rp"
  by (auto simp: PasskeyIdentity_def split: list.splits option.splits)

lemma buildIdentities_sound:
  assumes "buildIdentities fk creds rp acc = Some ids" "i \<in> set ids"
  shows "(\<exists>signers s. fk = Some (Some signers) \<and> s \<in> set signers \<and> i = file_identity s)
    \<or> (\<exists>cs c. creds acc = Some cs \<and> c \<in> set cs \<and> id_IsPasskey i \<and> id_CredentialID i = au_CredentialID c
          \<and> id_RpID i = rp)"
proof -
  obtain cs where cs: "creds acc = Some cs" using assms(1) by (auto simp: buildIdentities_def Let_def split: option.splits)
  then consider signers where "fk = Some (Some signers)" "i \<in> file_identity ` set signers"
    | c where "c \<in> set cs" "PasskeyIdentity (au_PublicKeyOpenSSH c) (au_CredentialID c) (au_Label c) rp = Some i"
    using assms by (force simp: buildIdentities_def Let_def map_filter_def split: option.splits)
  then show ?thesis
  proof cases
    case 1
    then show ?thesis by blast
  next
    case 2
    with cs show ?thesis using PasskeyIdentity_fields by blast
  qed
qed

text \<open>
  A proxied agent acts for its caller only and leaves nothing behind. When the handler serves
  a connection, the agent it builds is bound to the caller's account, offers only the configured
  file keys and that account's own passkeys, and shows the approver client strings without control
  characters; when the connection ends, no action raised by it is still pending and every action of
  another connection is as the session left it. When it does not serve, the broker is untouched.
\<close>

theorem proxy_scoped_and_clean:
  assumes "proxy_Handler d serve at accepted r b = (res, b')"
  shows "(\<exists>p ba. pr_principal r = Some p \<and> accepted \<and> ag_accountID ba = p_AccountID p
      \<and> ag_connectionID ba = proxy_connID d
      \<and> (\<forall>i \<in> set (ag_identities ba).
            (\<exists>signers s. pd_FileKeys d = Some (Some signers) \<and> s \<in> set signers \<and> i = file_identity s)
          \<or> (\<exists>creds c. pd_Credentials d (p_AccountID p) = Some creds \<and> c \<in> set creds
                \<and> id_IsPasskey i \<and> id_CredentialID i = au_CredentialID c \<and> id_RpID i = pd_RpID d))
      \<and> (\<forall>ch \<in> set (cx_ClientHostname (ag_actionCtx ba)). 0x1F < (of_char ch :: nat) \<and> (of_char ch :: nat) \<noteq> 0x7F)
      \<and> (\<forall>k a. map_of (as_actions (br_store b')) k = Some a \<longrightarrow>
            (a_ConnectionID a = proxy_connID d \<longrightarrow> a_Status a \<noteq> ActPending)
          \<and> (a_ConnectionID a \<noteq> proxy_connID d \<longrightarrow> map_of (as_actions (br_store (serve ba b))) k = Some a)))
    \<or> (b' = b \<and> (pr_principal r = None \<or> \<not> accepted
          \<or> (\<exists>p. pr_principal r = Some p \<and> pd_Credentials d (p_AccountID p) = None)))"
proof -
  consider (none) "pr_principal r = None" | (refused) "\<not> accepted"
    | (nocreds) p where "pr_principal r = Some p" "accepted" "pd_Credentials d (p_AccountID p) = None"
    | (served) p creds where "pr_principal r = Some p" "accepted" "pd_Credentials d (p_AccountID p) = Some creds"
    by (cases "pr_principal r"; cases accepted) auto
  then show ?thesis
  proof cases
    case none
    with assms show ?thesis by (simp add: proxy_Handler_def)
  next
    case refused
    with assms show ?thesis by (simp add: proxy_Handler_def split: option.splits)
  next
    case nocreds
    with assms show ?thesis by (simp add: proxy_Handler_def buildIdentities_def Let_def)
  next
    case served
    define ids where "ids = the (buildIdentities (pd_FileKeys d) (pd_Credentials d) (pd_RpID d) (p_AccountID p))"
    define ba where "ba = \<lparr>ag_identities = ids, ag_accountID = p_AccountID p, ag_connectionID = proxy_connID d,
      ag_actionCtx = proxy_ctx r, ag_redirectTo = []\<rparr>"
    have b': "b' = snd (Broker_CancelForConnection at (proxy_connID d) ''agent-proxy connection closed'' (serve ba b))"
      using assms served by (simp add: proxy_Handler_def buildIdentities_def Let_def ba_def ids_def)
    have "buildIdentities (pd_FileKeys d) (pd_Credentials d) (pd_RpID d) (p_AccountID p) = Some ids"
      using served by (simp add: ids_def buildIdentities_def Let_def)
    note ids = buildIdentities_sound [OF this]
    have clean: "\<forall>ch \<in> set (cx_ClientHostname (ag_actionCtx ba)). 0x1F < (of_char ch :: nat) \<and> (of_char ch :: nat) \<noteq> 0x7F"
      by (simp add: ba_def proxy_ctx_def sanitized_printable)
    have "\<forall>k a. map_of (as_actions (br_store b')) k = Some a \<longrightarrow>
            (a_ConnectionID a = proxy_connID d \<longrightarrow> a_Status a \<noteq> ActPending)
          \<and> (a_ConnectionID a \<noteq> proxy_connID d \<longrightarrow> map_of (as_actions (br_store (serve ba b))) k = Some a)"
      unfolding b' using Cancel_cases by blast
    with served ids clean show ?thesis
      by (intro disjI1 exI [of _ p] exI [of _ ba]) (simp add: ba_def)
  qed
qed

definition ex_deps :: proxy_deps where
  "ex_deps = \<lparr>pd_Credentials = \<lambda>_. Some [], pd_FileKeys = None, pd_RpID = ''h'', pd_NewConnectionID = Some ''conn1''\<rparr>"

definition ex_prequest :: proxy_request where
  "ex_prequest = \<lparr>pr_principal = Some ex_principal, pr_ip = ex_ipreq, pr_header = \<lambda>_. []\<rparr>"

definition ex_serve :: "sign_agent \<Rightarrow> broker \<Rightarrow> broker" where
  "ex_serve ba b = b\<lparr>br_store := act_run [OpCreate ''a1'' 0 ex_params] NewStore\<rparr>"

theorem proxy_scoped_and_clean_witness:
  "\<exists>res b' a. proxy_Handler ex_deps ex_serve 9 True ex_prequest (NewBroker NewStore 1) = (res, b')
     \<and> map_of (as_actions (br_store b')) ''a1'' = Some a \<and> a_ConnectionID a = ''conn1'' \<and> a_Status a \<noteq> ActPending"
proof -
  obtain res b' where h: "proxy_Handler ex_deps ex_serve 9 True ex_prequest (NewBroker NewStore 1) = (res, b')"
    by (meson surj_pair)
  have "\<exists>ba b. b' = snd (Broker_CancelForConnection 9 ''conn1'' ''agent-proxy connection closed'' (ex_serve ba b))"
    using h by (auto simp: proxy_Handler_def buildIdentities_def ex_deps_def ex_prequest_def proxy_connID_def Let_def)
  then obtain ba b where b': "b' = snd (Broker_CancelForConnection 9 ''conn1'' ''agent-proxy connection closed'' (ex_serve ba b))"
    by blast
  have "\<exists>a. map_of (as_actions (br_store (ex_serve ba b))) ''a1'' = Some a \<and> a_ConnectionID a = ''conn1''"
    by (simp add: ex_serve_def act_eval)
  then obtain a where a: "map_of (as_actions (br_store b')) ''a1'' = Some a" "a_ConnectionID a = ''conn1''"
    by (auto simp: b' Cancel_get)
  with h proxy_scoped_and_clean [OF h] show ?thesis by (fastforce simp: ex_deps_def ex_prequest_def proxy_connID_def)
qed

end
