(* ===== verification/Endpoint_Store.thy ===== *)
theory Endpoint_Store
  imports Prelude "HOL-Library.Char_ord" "HOL-Library.List_Lexorder" "HOL-Library.Product_Lexorder"
begin

text \<open>
  \<open>src/internal/store/endpoints.go\<close> and the statements it runs
  (\<open>src/internal/store/gen/endpoints.sql.go\<close>): the endpoints table with its pinned host keys.

  The table is keyed by its primary key; a row has the columns of the schema, a nullable column is
  an option. A statement is atomic (the pool holds a single connection), so an operation is a
  function of the database. The driver may fail any statement: \<open>flt\<close> arguments say which do, and a
  failed statement changes nothing. \<open>now\<close> is the formatted clock reading.
\<close>

section \<open>Tables\<close>

record endpoint_row =
  er_account_id :: string
  er_label :: string
  er_host :: string
  er_port :: int
  er_username :: string
  er_enabled :: int
  er_created_at :: string
  er_updated_at :: string
  er_user_verification :: string
  er_description :: "string option"
  er_agent_forward :: int
  er_host_key_type :: "string option"
  er_host_key :: "byte list option"
  er_host_key_fingerprint :: "string option"
  er_host_key_pinned_at :: "string option"
  er_host_key_pinned_by :: "string option"

record sw_db =
  db_accounts :: "(string, int) gomap"
  db_endpoints :: "(string, endpoint_row) gomap"

datatype db_error = DriverError | ConstraintError | ErrHostKeyPinned | ErrEndpointAddressChanged | EndpointNotFound

text \<open>\<open>UPDATE endpoints SET f WHERE id = ? AND c\<close>, with the number of rows it changed.\<close>

definition update_rows ::
  "string \<Rightarrow> (endpoint_row \<Rightarrow> bool) \<Rightarrow> (endpoint_row \<Rightarrow> endpoint_row) \<Rightarrow> sw_db \<Rightarrow> nat \<times> sw_db"
where
  "update_rows eid c f db =
     (case map_of (db_endpoints db) eid of
        None \<Rightarrow> (0, db)
      | Some r \<Rightarrow> if c r then (1, db\<lparr>db_endpoints := AList.update eid (f r) (db_endpoints db)\<rparr>) else (0, db))"

section \<open>Endpoints\<close>

record host_key_pin =
  hp_Type :: string
  hp_Fingerprint :: string
  hp_PinnedAt :: string
  hp_PinnedBy :: string

record host_key_record =
  hr_Type :: string
  hr_Key :: "byte list option"
  hr_Fingerprint :: string

record endpoint =
  se_ID :: string
  se_AccountID :: string
  se_Label :: string
  se_Host :: string
  se_Port :: int
  se_Username :: string
  se_UserVerification :: string
  se_Description :: "string option"
  se_AgentForward :: bool
  se_HostKey :: "host_key_pin option"

record pin_params =
  pp_ID :: string
  pp_Host :: string
  pp_Port :: int
  pp_Record :: host_key_record
  pp_PinnedBy :: string

definition str_of :: "string option \<Rightarrow> string" where
  "str_of v = (case v of None \<Rightarrow> [] | Some s \<Rightarrow> s)"

definition nz :: "string \<Rightarrow> string option" where
  "nz s = (if s = [] then None else Some s)"

definition boolInt :: "bool \<Rightarrow> int" where
  "boolInt b = (if b then 1 else 0)"

definition fromRow :: "string \<Rightarrow> endpoint_row \<Rightarrow> endpoint" where
  "fromRow eid r =
     \<lparr>se_ID = eid, se_AccountID = er_account_id r, se_Label = er_label r, se_Host = er_host r, se_Port = er_port r,
      se_Username = er_username r, se_UserVerification = er_user_verification r,
      se_Description = er_description r, se_AgentForward = er_agent_forward r \<noteq> 0,
      se_HostKey = map_option (\<lambda>fp. \<lparr>hp_Type = str_of (er_host_key_type r), hp_Fingerprint = fp,
          hp_PinnedAt = str_of (er_host_key_pinned_at r), hp_PinnedBy = str_of (er_host_key_pinned_by r)\<rparr>)
        (er_host_key_fingerprint r)\<rparr>"

definition ListEndpointsForAccount :: "string \<Rightarrow> sw_db \<Rightarrow> (string \<times> endpoint_row) list" where
  "ListEndpointsForAccount accountID db =
     sort_key (\<lambda>(eid, r). (er_created_at r, eid))
       (filter (\<lambda>(eid, r). er_account_id r = accountID \<and> er_enabled r = 1) (db_endpoints db))"

definition es_ListForAccount :: "bool \<Rightarrow> string \<Rightarrow> sw_db \<Rightarrow> db_error + endpoint list" where
  "es_ListForAccount flt accountID db =
     (if flt then Inl DriverError else Inr (map (\<lambda>(eid, r). fromRow eid r) (ListEndpointsForAccount accountID db)))"

definition GetEndpointForAccount :: "string \<Rightarrow> string \<Rightarrow> sw_db \<Rightarrow> endpoint_row option" where
  "GetEndpointForAccount eid accountID db =
     (case map_of (db_endpoints db) eid of
        None \<Rightarrow> None
      | Some r \<Rightarrow> if er_account_id r = accountID then Some r else None)"

definition es_GetForAccount :: "bool \<Rightarrow> string \<Rightarrow> string \<Rightarrow> sw_db \<Rightarrow> db_error + endpoint option" where
  "es_GetForAccount flt eid accountID db =
     (if flt then Inl DriverError else Inr (map_option (fromRow eid) (GetEndpointForAccount eid accountID db)))"

text \<open>The insert fails on a used id (primary key) and on an unknown account (foreign key).\<close>

definition InsertEndpoint :: "string \<Rightarrow> endpoint \<Rightarrow> sw_db \<Rightarrow> db_error option \<times> sw_db" where
  "InsertEndpoint now ep db =
     (if map_of (db_endpoints db) (se_ID ep) \<noteq> None \<or> map_of (db_accounts db) (se_AccountID ep) = None
      then (Some ConstraintError, db)
      else (None, db\<lparr>db_endpoints := AList.update (se_ID ep)
        \<lparr>er_account_id = se_AccountID ep, er_label = se_Label ep, er_host = se_Host ep, er_port = se_Port ep,
         er_username = se_Username ep, er_enabled = 1, er_created_at = now, er_updated_at = now,
         er_user_verification = se_UserVerification ep, er_description = se_Description ep,
         er_agent_forward = boolInt (se_AgentForward ep), er_host_key_type = None, er_host_key = None,
         er_host_key_fingerprint = None, er_host_key_pinned_at = None, er_host_key_pinned_by = None\<rparr>
        (db_endpoints db)\<rparr>))"

definition es_Create :: "bool \<Rightarrow> string \<Rightarrow> endpoint \<Rightarrow> sw_db \<Rightarrow> db_error option \<times> sw_db" where
  "es_Create flt now ep db = (if flt then (Some DriverError, db) else InsertEndpoint now ep db)"

text \<open>The \<open>CASE\<close> expressions read the row before the update.\<close>

definition UpdateEndpoint :: "string \<Rightarrow> endpoint \<Rightarrow> sw_db \<Rightarrow> nat \<times> sw_db" where
  "UpdateEndpoint now ep =
     update_rows (se_ID ep) (\<lambda>r. er_account_id r = se_AccountID ep)
       (\<lambda>r. let same = er_host r = se_Host ep \<and> er_port r = se_Port ep
            in r\<lparr>er_host_key_type := if same then er_host_key_type r else None,
                 er_host_key := if same then er_host_key r else None,
                 er_host_key_fingerprint := if same then er_host_key_fingerprint r else None,
                 er_host_key_pinned_at := if same then er_host_key_pinned_at r else None,
                 er_host_key_pinned_by := if same then er_host_key_pinned_by r else None,
                 er_label := se_Label ep, er_host := se_Host ep, er_port := se_Port ep,
                 er_username := se_Username ep, er_user_verification := se_UserVerification ep,
                 er_description := se_Description ep, er_agent_forward := boolInt (se_AgentForward ep),
                 er_updated_at := now\<rparr>)"

definition es_Update :: "bool \<Rightarrow> string \<Rightarrow> endpoint \<Rightarrow> sw_db \<Rightarrow> (db_error + bool) \<times> sw_db" where
  "es_Update flt now ep db =
     (if flt then (Inl DriverError, db) else let (n, db) = UpdateEndpoint now ep db in (Inr (n > 0), db))"

definition DeleteEndpointForAccount :: "string \<Rightarrow> string \<Rightarrow> string \<Rightarrow> sw_db \<Rightarrow> nat \<times> sw_db" where
  "DeleteEndpointForAccount now eid accountID =
     update_rows eid (\<lambda>r. er_account_id r = accountID) (\<lambda>r. r\<lparr>er_enabled := 0, er_updated_at := now\<rparr>)"

definition es_Delete :: "bool \<Rightarrow> string \<Rightarrow> string \<Rightarrow> string \<Rightarrow> sw_db \<Rightarrow> (db_error + bool) \<times> sw_db" where
  "es_Delete flt now eid accountID db =
     (if flt then (Inl DriverError, db)
      else let (n, db) = DeleteEndpointForAccount now eid accountID db in (Inr (n > 0), db))"

definition GetEndpointHostKey :: "string \<Rightarrow> sw_db \<Rightarrow> endpoint_row option" where
  "GetEndpointHostKey eid db = map_of (db_endpoints db) eid"

definition es_GetHostKey :: "bool \<Rightarrow> string \<Rightarrow> sw_db \<Rightarrow> db_error + host_key_record option" where
  "es_GetHostKey flt eid db =
     (if flt then Inl DriverError
      else case GetEndpointHostKey eid db of
             None \<Rightarrow> Inr None
           | Some r \<Rightarrow>
               (case er_host_key_fingerprint r of
                  None \<Rightarrow> Inr None
                | Some fp \<Rightarrow> Inr (Some \<lparr>hr_Type = str_of (er_host_key_type r), hr_Key = er_host_key r,
                                       hr_Fingerprint = fp\<rparr>)))"

definition PinEndpointHostKey :: "string \<Rightarrow> pin_params \<Rightarrow> sw_db \<Rightarrow> nat \<times> sw_db" where
  "PinEndpointHostKey now p =
     update_rows (pp_ID p)
       (\<lambda>r. er_host_key_fingerprint r = None \<and> er_host r = pp_Host p \<and> er_port r = pp_Port p)
       (\<lambda>r. r\<lparr>er_host_key_type := nz (hr_Type (pp_Record p)), er_host_key := hr_Key (pp_Record p),
             er_host_key_fingerprint := Some (hr_Fingerprint (pp_Record p)),
             er_host_key_pinned_at := Some now, er_host_key_pinned_by := nz (pp_PinnedBy p),
             er_updated_at := now\<rparr>)"

text \<open>\<open>flt\<close> fails the compare-and-set, \<open>flt2\<close> the read that tells the reasons apart.\<close>

definition es_PinHostKey :: "bool \<Rightarrow> bool \<Rightarrow> string \<Rightarrow> pin_params \<Rightarrow> sw_db \<Rightarrow> db_error option \<times> sw_db" where
  "es_PinHostKey flt flt2 now p db =
     (if flt then (Some DriverError, db)
      else let (n, db) = PinEndpointHostKey now p db in
           if n > 0 then (None, db)
           else if flt2 then (Some DriverError, db)
           else case GetEndpointHostKey (pp_ID p) db of
                  None \<Rightarrow> (Some EndpointNotFound, db)
                | Some r \<Rightarrow>
                    if er_host r \<noteq> pp_Host p \<or> er_port r \<noteq> pp_Port p then (Some ErrEndpointAddressChanged, db)
                    else if er_host_key_fingerprint r = Some (hr_Fingerprint (pp_Record p)) then (None, db)
                    else (Some ErrHostKeyPinned, db))"

definition ClearEndpointHostKey :: "string \<Rightarrow> string \<Rightarrow> string \<Rightarrow> sw_db \<Rightarrow> nat \<times> sw_db" where
  "ClearEndpointHostKey now eid accountID =
     update_rows eid (\<lambda>r. er_account_id r = accountID \<and> er_host_key_fingerprint r \<noteq> None)
       (\<lambda>r. r\<lparr>er_host_key_type := None, er_host_key := None, er_host_key_fingerprint := None,
             er_host_key_pinned_at := None, er_host_key_pinned_by := None, er_updated_at := now\<rparr>)"

definition es_ClearHostKey :: "bool \<Rightarrow> string \<Rightarrow> string \<Rightarrow> string \<Rightarrow> sw_db \<Rightarrow> (db_error + bool) \<times> sw_db" where
  "es_ClearHostKey flt now eid accountID db =
     (if flt then (Inl DriverError, db)
      else let (n, db) = ClearEndpointHostKey now eid accountID db in (Inr (n > 0), db))"

definition ListEndpointsByAddress ::
  "string \<Rightarrow> string \<Rightarrow> int \<Rightarrow> string \<Rightarrow> sw_db \<Rightarrow> (string \<times> string option) list"
where
  "ListEndpointsByAddress accountID host port username db =
     map (\<lambda>(eid, r). (eid, er_host_key_fingerprint r))
       (filter (\<lambda>(eid, r). er_account_id r = accountID \<and> er_host r = host \<and> er_port r = port
          \<and> er_username r = username \<and> er_enabled r = 1) (db_endpoints db))"

definition es_ListByAddress ::
  "bool \<Rightarrow> string \<Rightarrow> string \<Rightarrow> int \<Rightarrow> string \<Rightarrow> sw_db \<Rightarrow> db_error + (string \<times> string) list"
where
  "es_ListByAddress flt accountID host port username db =
     (if flt then Inl DriverError
      else Inr (map (\<lambda>(eid, fp). (eid, str_of fp)) (ListEndpointsByAddress accountID host port username db)))"

text \<open>On an error (also a missing account row) the code still returns the zero value.\<close>

definition ShowDemoEndpoints :: "bool \<Rightarrow> string \<Rightarrow> sw_db \<Rightarrow> bool \<times> db_error option" where
  "ShowDemoEndpoints flt accountID db =
     (if flt then (False, Some DriverError)
      else case map_of (db_accounts db) accountID of
             None \<Rightarrow> (False, Some DriverError)
           | Some v \<Rightarrow> (v \<noteq> 0, None))"

section \<open>Histories\<close>

datatype ep_op =
    EpCreate bool string endpoint
  | EpUpdate bool string endpoint
  | EpDelete bool string string string
  | EpPin bool bool string pin_params
  | EpClear bool string string string

fun ep_step :: "ep_op \<Rightarrow> sw_db \<Rightarrow> sw_db" where
  "ep_step (EpCreate flt now ep) db = snd (es_Create flt now ep db)"
| "ep_step (EpUpdate flt now ep) db = snd (es_Update flt now ep db)"
| "ep_step (EpDelete flt now eid acc) db = snd (es_Delete flt now eid acc db)"
| "ep_step (EpPin flt flt2 now p) db = snd (es_PinHostKey flt flt2 now p db)"
| "ep_step (EpClear flt now eid acc) db = snd (es_ClearHostKey flt now eid acc db)"

definition ep_run :: "ep_op list \<Rightarrow> sw_db \<Rightarrow> sw_db" where
  "ep_run ops db = fold ep_step ops db"

lemma ep_run_simps [simp]: "ep_run [] db = db" "ep_run (op # ops) db = ep_run ops (ep_step op db)"
  "ep_run (ops @ [op]) db = ep_step op (ep_run ops db)"
  by (simp_all add: ep_run_def)

text \<open>The account on whose behalf an operation runs; a pin write is by id only.\<close>

fun op_account :: "ep_op \<Rightarrow> string option" where
  "op_account (EpCreate _ _ ep) = Some (se_AccountID ep)"
| "op_account (EpUpdate _ _ ep) = Some (se_AccountID ep)"
| "op_account (EpDelete _ _ _ acc) = Some acc"
| "op_account (EpClear _ _ _ acc) = Some acc"
| "op_account (EpPin _ _ _ _) = None"

abbreviation row_of :: "sw_db \<Rightarrow> string \<Rightarrow> endpoint_row option" where
  "row_of db eid \<equiv> map_of (db_endpoints db) eid"

definition row_addr :: "endpoint_row \<Rightarrow> string \<times> int" where
  "row_addr r = (er_host r, er_port r)"

definition row_pin :: "endpoint_row \<Rightarrow> (byte list option \<times> string) option" where
  "row_pin r = map_option (\<lambda>fp. (er_host_key r, fp)) (er_host_key_fingerprint r)"

lemma update_rows_get:
  "row_of (snd (update_rows eid c f db)) k =
     (if k = eid then map_option (\<lambda>r. if c r then f r else r) (row_of db k) else row_of db k)"
  by (simp add: update_rows_def gomap_simps split: option.split)

lemma update_rows_Some:
  "row_of db k = Some r \<Longrightarrow>
     row_of (snd (update_rows eid c f db)) k = Some (if k = eid \<and> c r then f r else r)"
  by (auto simp: update_rows_def gomap_simps split: option.split)

lemma update_rows_count:
  "fst (update_rows eid c f db) > 0 \<longleftrightarrow> (\<exists>r. row_of db eid = Some r \<and> c r)"
  by (simp add: update_rows_def split: option.split)

lemma update_rows_none: "fst (update_rows eid c f db) = 0 \<Longrightarrow> snd (update_rows eid c f db) = db"
  by (auto simp: update_rows_def split: option.splits if_splits)

lemma update_rows_wf: "gm_wf (db_endpoints db) \<Longrightarrow> gm_wf (db_endpoints (snd (update_rows eid c f db)))"
  by (simp add: update_rows_def distinct_update split: option.split)

lemma es_PinHostKey_db: "snd (es_PinHostKey flt flt2 now p db) = (if flt then db else snd (PinEndpointHostKey now p db))"
  by (auto simp: es_PinHostKey_def case_prod_beta Let_def split: option.split)

lemmas ep_dbs = es_PinHostKey_db es_Create_def InsertEndpoint_def es_Update_def es_Delete_def es_ClearHostKey_def
  case_prod_beta Let_def UpdateEndpoint_def DeleteEndpointForAccount_def PinEndpointHostKey_def
  ClearEndpointHostKey_def

lemma ep_step_wf: "gm_wf (db_endpoints db) \<Longrightarrow> gm_wf (db_endpoints (ep_step op db))"
  by (cases op) (auto simp: ep_dbs update_rows_wf distinct_update)

text \<open>What one operation may do to the row of one endpoint.\<close>

lemma ep_step_row:
  assumes "row_of db k = Some r"
  shows "\<exists>r'. row_of (ep_step op db) k = Some r' \<and> er_account_id r' = er_account_id r
    \<and> (row_pin r' = row_pin r \<and> row_addr r' = row_addr r
      \<or> row_pin r' = None \<and> op_account op = Some (er_account_id r)
          \<and> (row_addr r' \<noteq> row_addr r \<or> (\<exists>flt now. op = EpClear flt now k (er_account_id r)))
      \<or> row_pin r = None \<and> row_addr r' = row_addr r
          \<and> (\<exists>flt2 now p. op = EpPin False flt2 now p \<and> pp_ID p = k \<and> (pp_Host p, pp_Port p) = row_addr r
               \<and> row_pin r' = Some (hr_Key (pp_Record p), hr_Fingerprint (pp_Record p))))"
proof (cases op)
  case (EpCreate flt now ep)
  with assms show ?thesis by (auto simp: ep_dbs gomap_simps)
next
  case (EpUpdate flt now ep)
  show ?thesis
  proof (cases "\<not> flt \<and> k = se_ID ep \<and> er_account_id r = se_AccountID ep")
    case True
    with EpUpdate assms show ?thesis
      by (cases "er_host r = se_Host ep \<and> er_port r = se_Port ep")
         (auto simp: ep_dbs update_rows_Some row_addr_def row_pin_def)
  next
    case False
    with EpUpdate assms show ?thesis by (auto simp: ep_dbs update_rows_Some)
  qed
next
  case (EpDelete flt now eid acc)
  with assms show ?thesis by (auto simp: ep_dbs update_rows_Some row_addr_def row_pin_def)
next
  case (EpPin flt flt2 now p)
  with assms show ?thesis by (auto simp: ep_dbs update_rows_Some row_addr_def row_pin_def)
next
  case (EpClear flt now eid acc)
  with assms show ?thesis by (auto simp: ep_dbs update_rows_Some row_addr_def row_pin_def)
qed

lemma ep_step_fresh:
  assumes "row_of db k = None" "row_of (ep_step op db) k = Some r'"
  shows "row_pin r' = None \<and> op_account op = Some (er_account_id r')"
  using assms by (cases op) (auto simp: ep_dbs update_rows_get gomap_simps row_pin_def split: if_splits)

section \<open>Properties\<close>

text \<open>
  C7: a pinned host key is never replaced. Whatever operation runs on the endpoint store, an
  endpoint whose host key is pinned keeps its row, and either keeps that very pin at the same
  address or becomes unpinned; it becomes unpinned only through an operation of its own account
  that clears the pin or moves the endpoint to another address.
\<close>

theorem pin_never_replaced:
  assumes "row_of db k = Some r" "row_pin r = Some pin"
  shows "\<exists>r'. row_of (ep_step op db) k = Some r' \<and>
    (row_pin r' = Some pin \<and> row_addr r' = row_addr r
     \<or> row_pin r' = None \<and> op_account op = Some (er_account_id r)
         \<and> (row_addr r' \<noteq> row_addr r \<or> (\<exists>flt now. op = EpClear flt now k (er_account_id r))))"
  using ep_step_row [OF assms(1), of op] assms(2) by auto

definition ex_row_ep :: endpoint where
  "ex_row_ep = \<lparr>se_ID = ''e1'', se_AccountID = ''acc'', se_Label = ''Box'', se_Host = ''h.example'', se_Port = 22,
     se_Username = ''u'', se_UserVerification = ''required'', se_Description = None, se_AgentForward = True,
     se_HostKey = None\<rparr>"

definition ex_pin :: pin_params where
  "ex_pin = \<lparr>pp_ID = ''e1'', pp_Host = ''h.example'', pp_Port = 22,
     pp_Record = \<lparr>hr_Type = ''ssh-ed25519'', hr_Key = Some [1, 2, 3], hr_Fingerprint = ''SHA256:aaa''\<rparr>,
     pp_PinnedBy = ''cred-1''\<rparr>"

definition ex_db :: sw_db where
  "ex_db = ep_run [EpCreate False ''t0'' ex_row_ep, EpPin False False ''t1'' ex_pin]
     \<lparr>db_accounts = [(''acc'', 1)], db_endpoints = []\<rparr>"

lemma ex_db_row:
  "\<exists>r. row_of ex_db ''e1'' = Some r \<and> row_pin r = Some (Some [1, 2, 3], ''SHA256:aaa'')
     \<and> row_addr r = (''h.example'', 22) \<and> er_account_id r = ''acc''"
  by (simp add: ex_db_def ep_dbs update_rows_def ex_pin_def ex_row_ep_def row_pin_def row_addr_def)

theorem pin_never_replaced_witness:
  "\<exists>r'. row_of (ep_step (EpPin False False ''t2'' (ex_pin\<lparr>pp_Record :=
      \<lparr>hr_Type = ''ssh-ed25519'', hr_Key = Some [9], hr_Fingerprint = ''SHA256:bbb''\<rparr>\<rparr>)) ex_db) ''e1'' = Some r'
    \<and> row_pin r' = Some (Some [1, 2, 3], ''SHA256:aaa'')"
proof -
  obtain r where r: "row_of ex_db ''e1'' = Some r" "row_pin r = Some (Some [1, 2, 3], ''SHA256:aaa'')"
    using ex_db_row by blast
  from pin_never_replaced [OF r] show ?thesis by fastforce
qed

text \<open>
  C6: a pin vouches for the endpoint's current address. In every database that a history of
  operations produces from one without endpoints, a pinned key was written by an approved pin for
  exactly this endpoint id, this key, and the host and port the endpoint has now: no approval that
  outlived an address change, and no update, ever leaves a key on an address it was not observed at.
\<close>

theorem pin_vouches_for_address:
  assumes "db_endpoints db0 = []" "row_of (ep_run ops db0) k = Some r" "row_pin r = Some pin"
  shows "\<exists>flt2 now p. EpPin False flt2 now p \<in> set ops \<and> pp_ID p = k \<and> (pp_Host p, pp_Port p) = row_addr r
    \<and> pin = (hr_Key (pp_Record p), hr_Fingerprint (pp_Record p))"
  using assms(2,3)
proof (induction ops arbitrary: r rule: rev_induct)
  case Nil
  then show ?case using assms(1) by simp
next
  case (snoc op ops)
  show ?case
  proof (cases "row_of (ep_run ops db0) k")
    case None
    with ep_step_fresh [OF this] snoc.prems show ?thesis by simp
  next
    case (Some r0)
    then consider "row_pin r0 = Some pin" "row_addr r0 = row_addr r"
      | flt2 now p where "op = EpPin False flt2 now p" "pp_ID p = k" "(pp_Host p, pp_Port p) = row_addr r"
          "pin = (hr_Key (pp_Record p), hr_Fingerprint (pp_Record p))"
      using ep_step_row [OF Some, of op] snoc.prems by auto
    then show ?thesis
    proof cases
      case 1
      from snoc.IH [OF Some 1(1)] 1(2) show ?thesis by auto
    next
      case 2
      then show ?thesis by auto
    qed
  qed
qed

theorem pin_vouches_for_address_witness:
  "\<exists>r. row_of ex_db ''e1'' = Some r \<and> row_pin r \<noteq> None
     \<and> (\<exists>flt2 now p. EpPin False flt2 now p \<in> set [EpCreate False ''t0'' ex_row_ep, EpPin False False ''t1'' ex_pin]
          \<and> (pp_Host p, pp_Port p) = row_addr r)"
proof -
  obtain r pin where r: "row_of ex_db ''e1'' = Some r" "row_pin r = Some pin" using ex_db_row by blast
  from pin_vouches_for_address [OF _ r(1) [unfolded ex_db_def] r(2)] r show ?thesis by fastforce
qed

lemma es_PinHostKey_failed: "es_PinHostKey flt flt2 now p db = (Some e, db') \<Longrightarrow> db' = db"
  using update_rows_none
  by (force simp: es_PinHostKey_def PinEndpointHostKey_def case_prod_beta Let_def split: if_splits option.splits)

lemma es_PinHostKey_ok:
  assumes "es_PinHostKey flt flt2 now p db = (None, db')"
  shows "\<exists>r. row_of db' (pp_ID p) = Some r \<and> row_addr r = (pp_Host p, pp_Port p)
    \<and> er_host_key_fingerprint r = Some (hr_Fingerprint (pp_Record p))"
  using assms
  by (auto simp: es_PinHostKey_def PinEndpointHostKey_def GetEndpointHostKey_def update_rows_def row_addr_def
      gomap_simps split: if_splits option.splits)

lemma es_PinHostKey_kept:
  assumes "row_of db k = Some r" "er_host_key_fingerprint r \<noteq> None"
  shows "row_of (snd (es_PinHostKey flt flt2 now p db)) k = Some r"
  using assms by (auto simp: es_PinHostKey_db PinEndpointHostKey_def update_rows_Some)

text \<open>
  The outcome of a pin write, on every branch. Without a driver fault the write succeeds
  exactly when the endpoint exists at the observed address and is unpinned or already pinned to the
  same fingerprint; it then carries that fingerprint. Otherwise the error names the reason (no such
  endpoint, moved, pinned to another key) and the database is unchanged; so is it on a fault.
\<close>

theorem PinHostKey_outcome:
  assumes "es_PinHostKey flt flt2 now p db = (e, db')"
  shows "(e \<noteq> None \<longrightarrow> db' = db)
    \<and> (e = None \<longrightarrow> (\<exists>r. row_of db' (pp_ID p) = Some r \<and> row_addr r = (pp_Host p, pp_Port p)
          \<and> er_host_key_fingerprint r = Some (hr_Fingerprint (pp_Record p))))
    \<and> (\<not> flt \<and> \<not> flt2 \<longrightarrow> e =
         (case row_of db (pp_ID p) of
            None \<Rightarrow> Some EndpointNotFound
          | Some r \<Rightarrow> if row_addr r \<noteq> (pp_Host p, pp_Port p) then Some ErrEndpointAddressChanged
                      else if er_host_key_fingerprint r \<in> {None, Some (hr_Fingerprint (pp_Record p))} then None
                      else Some ErrHostKeyPinned))"
proof -
  have "e = (case row_of db (pp_ID p) of
            None \<Rightarrow> Some EndpointNotFound
          | Some r \<Rightarrow> if row_addr r \<noteq> (pp_Host p, pp_Port p) then Some ErrEndpointAddressChanged
                      else if er_host_key_fingerprint r \<in> {None, Some (hr_Fingerprint (pp_Record p))} then None
                      else Some ErrHostKeyPinned)" if "\<not> flt" "\<not> flt2"
    using assms that
    by (auto simp: es_PinHostKey_def PinEndpointHostKey_def GetEndpointHostKey_def update_rows_def row_addr_def
        split: if_splits option.splits)
  then show ?thesis using assms es_PinHostKey_failed es_PinHostKey_ok by blast
qed

theorem PinHostKey_outcome_witness:
  "fst (es_PinHostKey False False ''t2'' (ex_pin\<lparr>pp_Host := ''old.example''\<rparr>) ex_db) = Some ErrEndpointAddressChanged
   \<and> snd (es_PinHostKey False False ''t2'' (ex_pin\<lparr>pp_Host := ''old.example''\<rparr>) ex_db) = ex_db"
proof -
  let ?p = "ex_pin\<lparr>pp_Host := ''old.example''\<rparr>"
  obtain e db' where run: "es_PinHostKey False False ''t2'' ?p ex_db = (e, db')" by (meson surj_pair)
  obtain r where "row_of ex_db ''e1'' = Some r" "row_addr r = (''h.example'', 22)" using ex_db_row by blast
  with PinHostKey_outcome [OF run] run show ?thesis by (simp add: ex_pin_def)
qed

text \<open>
  Endpoints are isolated by account. An operation that runs for one account leaves every
  endpoint of every other account exactly as it was, and cannot make one appear there.
\<close>

theorem endpoint_account_isolation:
  assumes "op_account op = Some acc"
  shows "(\<forall>r. row_of db k = Some r \<and> er_account_id r \<noteq> acc \<longrightarrow> row_of (ep_step op db) k = Some r)
    \<and> (\<forall>r'. row_of (ep_step op db) k = Some r' \<and> er_account_id r' \<noteq> acc \<longrightarrow> row_of db k = Some r')"
proof -
  have keep: "row_of (ep_step op db) k = Some r" if "row_of db k = Some r" "er_account_id r \<noteq> acc" for r
    using assms that by (cases op) (auto simp: ep_dbs update_rows_Some gomap_simps)
  have "row_of db k = Some r'" if r': "row_of (ep_step op db) k = Some r'" "er_account_id r' \<noteq> acc" for r'
  proof (cases "row_of db k")
    case None
    with ep_step_fresh [OF None r'(1)] assms r'(2) show ?thesis by simp
  next
    case (Some r)
    with ep_step_row [OF Some, of op] r' keep [OF Some] show ?thesis by auto
  qed
  with keep show ?thesis by blast
qed

theorem endpoint_account_isolation_witness:
  "\<exists>r. row_of ex_db ''e1'' = Some r \<and> row_of (ep_step (EpClear False ''t3'' ''e1'' ''other'') ex_db) ''e1'' = Some r"
proof -
  obtain r where r: "row_of ex_db ''e1'' = Some r" "er_account_id r = ''acc''" using ex_db_row by blast
  have "op_account (EpClear False ''t3'' ''e1'' ''other'') = Some ''other''" by simp
  note iso = endpoint_account_isolation [OF this, of ex_db "''e1''"]
  have "row_of (ep_step (EpClear False ''t3'' ''e1'' ''other'') ex_db) ''e1'' = Some r"
    using conjunct1 [OF iso, THEN spec, of r] r by simp
  with r(1) show ?thesis by blast
qed

end
