(* ===== verification/Host_Key.thy ===== *)
theory Host_Key
  imports Sign_Agent
begin

text \<open>
  Host-key pinning on the dialling side: \<open>src/internal/sshx/hostkey.go\<close>, the signers of
  \<open>webauthn_signer.go\<close> and \<open>filekey_signer.go\<close>, and the decisions of \<open>Connect\<close> in \<open>transport.go\<close>.

  The pin store is the Go interface \<open>HostKeys\<close>: its two operations are arguments of every
  definition that calls it, and its contract is the locale \<open>pin_store\<close>. A connection is the list of
  things that happen on it (key exchanges, signing attempts, changes made to the pin store by
  others), in the order in which they happen; \<open>golang.org/x/crypto/ssh\<close> decides that order and
  whether the handshake succeeds. \<open>fpr\<close> is its fingerprint function.
\<close>

section \<open>The connection's record\<close>

record observed_key =
  ok_Type :: string
  ok_Key :: "byte list"
  ok_Fingerprint :: string

record pinned_key =
  pn_Type :: string
  pn_Key :: "byte list option"
  pn_Fingerprint :: string

record pin_request =
  pq_EndpointID :: string
  pq_Host :: string
  pq_Port :: int
  pq_Observed :: observed_key
  pq_PinnedBy :: string
  pq_ActionID :: string

datatype hk_status = HostKeyUnseen | HostKeyNew | HostKeyKnown

record hk_state =
  hs_status :: hk_status
  hs_observed :: observed_key
  hs_pinned :: bool
  hs_dialHost :: string
  hs_dialPort :: int

definition new_hk_state :: hk_state where
  "new_hk_state = \<lparr>hs_status = HostKeyUnseen, hs_observed = \<lparr>ok_Type = [], ok_Key = [], ok_Fingerprint = []\<rparr>,
     hs_pinned = False, hs_dialHost = [], hs_dialPort = 0\<rparr>"

definition observe :: "hk_status \<Rightarrow> observed_key \<Rightarrow> hk_state \<Rightarrow> hk_state" where
  "observe status key st = st\<lparr>hs_status := status, hs_observed := key\<rparr>"

definition setDialAddress :: "string \<Rightarrow> int \<Rightarrow> hk_state \<Rightarrow> hk_state" where
  "setDialAddress host port st = st\<lparr>hs_dialHost := host, hs_dialPort := port\<rparr>"

definition dialAddress :: "hk_state \<Rightarrow> string \<times> int" where
  "dialAddress st = (hs_dialHost st, hs_dialPort st)"

definition MarkPinned :: "hk_state \<Rightarrow> hk_state" where
  "MarkPinned st = st\<lparr>hs_pinned := True\<rparr>"

definition Snapshot :: "hk_state \<Rightarrow> hk_status \<times> observed_key \<times> bool" where
  "Snapshot st = (hs_status st, hs_observed st, hs_pinned st)"

record mismatch =
  mm_EndpointID :: string
  mm_ObservedKeyType :: string
  mm_ObservedFingerprint :: string
  mm_PinnedFingerprint :: string

definition pin_key_len :: "pinned_key \<Rightarrow> nat" where
  "pin_key_len p = (case pn_Key p of None \<Rightarrow> 0 | Some k \<Rightarrow> length k)"

text \<open>\<open>parse\<close> is \<open>ssh.ParsePublicKey\<close>, reduced to the type of the key.\<close>

definition hostKeyAlgorithmsFor :: "(byte list \<Rightarrow> string option) \<Rightarrow> pinned_key option \<Rightarrow> string list" where
  "hostKeyAlgorithmsFor parse pin =
     (case pin of
        None \<Rightarrow> []
      | Some p \<Rightarrow>
          (case pn_Key p of
             None \<Rightarrow> []
           | Some k \<Rightarrow>
               if k = [] then []
               else case parse k of
                      None \<Rightarrow> []
                    | Some t \<Rightarrow> if t = KeyAlgoRSA then [KeyAlgoRSASHA512, KeyAlgoRSASHA256, KeyAlgoRSA] else [t]))"

definition observed_of :: "(byte list \<Rightarrow> string) \<Rightarrow> pub_key \<Rightarrow> observed_key" where
  "observed_of fpr key = \<lparr>ok_Type = pk_type key, ok_Key = pk_blob key, ok_Fingerprint = fpr (pk_blob key)\<rparr>"

definition pin_match :: "pinned_key \<Rightarrow> observed_key \<Rightarrow> bool" where
  "pin_match p ob = (if pin_key_len p > 0 then pn_Key p = Some (ok_Key ob) else pn_Fingerprint p = ok_Fingerprint ob)"

definition hostKeyCallback ::
  "(byte list \<Rightarrow> string) \<Rightarrow> string \<Rightarrow> pinned_key option \<Rightarrow> pub_key \<Rightarrow> hk_state \<Rightarrow> mismatch + hk_state"
where
  "hostKeyCallback fpr endpointID pin key st =
     (let ob = observed_of fpr key;
          mism = (\<lambda>fp. \<lparr>mm_EndpointID = endpointID, mm_ObservedKeyType = ok_Type ob,
                        mm_ObservedFingerprint = ok_Fingerprint ob, mm_PinnedFingerprint = fp\<rparr>);
          (status, prev, _) = Snapshot st
      in if status \<noteq> HostKeyUnseen
         then if ok_Key prev \<noteq> ok_Key ob then Inl (mism (ok_Fingerprint prev)) else Inr st
         else case pin of
                None \<Rightarrow> Inr (observe HostKeyNew ob st)
              | Some p \<Rightarrow> if \<not> pin_match p ob then Inl (mism (pn_Fingerprint p)) else Inr (observe HostKeyKnown ob st))"

section \<open>Signers\<close>

text \<open>A missing \<open>HostKeyState\<close> or pin store is \<open>None\<close>.\<close>

definition withHostKeyContext :: "sign_context \<Rightarrow> hk_state option \<Rightarrow> sign_context \<times> observed_key option" where
  "withHostKeyContext actionCtx state =
     (case state of
        None \<Rightarrow> (actionCtx, None)
      | Some st \<Rightarrow>
          let (status, observed, pinned) = Snapshot st in
          if status = HostKeyUnseen then (actionCtx, None)
          else let new = status = HostKeyNew \<and> \<not> pinned
               in (actionCtx\<lparr>cx_HostKey := Some \<lparr>hk_Type = ok_Type observed, hk_Fingerprint = ok_Fingerprint observed,
                     hk_Status = (if new then ''new'' else ''known'')\<rparr>\<rparr>,
                   if new then Some observed else None))"

datatype 'e sign_fail = SfBroker broker_error | SfNoPinStore | SfPin 'e | SfAssertion sign_error | SfCrypto

definition pinAfterApproval ::
  "(pin_request \<Rightarrow> 's \<Rightarrow> 'e option \<times> 's) option \<Rightarrow> string \<Rightarrow> observed_key option \<Rightarrow> string \<Rightarrow> string \<Rightarrow>
   hk_state \<times> 's \<Rightarrow> 'e sign_fail option \<times> hk_state \<times> 's"
where
  "pinAfterApproval hostKeys endpointID provisional pinnedBy actionID sts =
     (case (provisional, sts) of
        (None, _) \<Rightarrow> (None, sts)
      | (Some ob, (st, s)) \<Rightarrow>
          (case hostKeys of
             None \<Rightarrow> (Some SfNoPinStore, sts)
           | Some pin \<Rightarrow>
               let (host, port) = dialAddress st in
               (case pin \<lparr>pq_EndpointID = endpointID, pq_Host = host, pq_Port = port, pq_Observed = ob,
                          pq_PinnedBy = pinnedBy, pq_ActionID = actionID\<rparr> s of
                  (Some e, s) \<Rightarrow> (Some (SfPin e), st, s)
                | (None, s) \<Rightarrow> (None, MarkPinned st, s))))"

record web_signer =
  wb_AccountID :: string
  wb_CredentialID :: string
  wb_RpID :: string
  wb_UVPolicy :: string
  wb_PasskeyLabel :: string
  wb_ConnectionID :: string
  wb_ActionCtx :: sign_context
  wb_RedirectTo :: string
  wb_EndpointID :: string

definition web_request :: "web_signer \<Rightarrow> byte list \<Rightarrow> sign_request" where
  "web_request w data =
     \<lparr>sr_CredentialID = wb_CredentialID w, sr_DataToSign = data, sr_RpID = wb_RpID w,
      sr_UserVerification = wb_UVPolicy w, sr_PasskeyLabel = wb_PasskeyLabel w, sr_ConnectionID = wb_ConnectionID w\<rparr>"

definition web_Sign ::
  "agent_env \<Rightarrow> (pin_request \<Rightarrow> 's \<Rightarrow> 'e option \<times> 's) option \<Rightarrow> web_signer \<Rightarrow> byte list \<Rightarrow> hk_state \<times> 's \<Rightarrow>
   ('e sign_fail + ssh_signature) \<times> hk_state \<times> 's"
where
  "web_Sign ev hostKeys w data sts =
     (let (actionCtx, provisional) = withHostKeyContext (wb_ActionCtx w) (Some (fst sts)) in
      case ev_requestSign ev (wb_AccountID w) (web_request w data) actionCtx (wb_RedirectTo w) of
        Inl e \<Rightarrow> (Inl (SfBroker e), sts)
      | Inr resp \<Rightarrow>
          (case pinAfterApproval hostKeys (wb_EndpointID w) provisional (wb_CredentialID w) (rs_ActionID resp) sts of
             (Some e, sts) \<Rightarrow> (Inl e, sts)
           | (None, sts) \<Rightarrow>
               (case BuildSSHSignature (ev_read_ecdsa ev) (ev_json_origin ev) resp of
                  Inl e \<Rightarrow> (Inl (SfAssertion e), sts)
                | Inr sg \<Rightarrow> (Inr sg, sts))))"

record file_signer =
  fl_signer :: ssh_signer
  fl_accountID :: string
  fl_label :: string
  fl_connectionID :: string
  fl_actionCtx :: sign_context
  fl_redirectTo :: string
  fl_endpointID :: string

definition file_approval :: "agent_env \<Rightarrow> file_signer \<Rightarrow> sign_context \<Rightarrow> key_approval" where
  "file_approval ev f actionCtx =
     \<lparr>ka_AccountID = fl_accountID f, ka_KeyLabel = fl_label f,
      ka_KeyFingerprint = ev_fingerprint ev (pk_blob (sn_pub (fl_signer f))),
      ka_ConnectionID = fl_connectionID f, ka_Context = actionCtx, ka_RedirectTo = fl_redirectTo f\<rparr>"

definition file_approve ::
  "agent_env \<Rightarrow> (pin_request \<Rightarrow> 's \<Rightarrow> 'e option \<times> 's) option \<Rightarrow> file_signer \<Rightarrow> hk_state \<times> 's \<Rightarrow>
   'e sign_fail option \<times> hk_state \<times> 's"
where
  "file_approve ev hostKeys f sts =
     (let (actionCtx, provisional) = withHostKeyContext (fl_actionCtx f) (Some (fst sts)) in
      case ev_requestKey ev (file_approval ev f actionCtx) of
        (_, Some e) \<Rightarrow> (Some (SfBroker e), sts)
      | (actionID, None) \<Rightarrow>
          pinAfterApproval hostKeys (fl_endpointID f) provisional (''file-key:'' @ fl_label f) actionID sts)"

definition file_Sign ::
  "agent_env \<Rightarrow> (pin_request \<Rightarrow> 's \<Rightarrow> 'e option \<times> 's) option \<Rightarrow> file_signer \<Rightarrow> byte list \<Rightarrow> string \<Rightarrow> hk_state \<times> 's \<Rightarrow>
   ('e sign_fail + ssh_signature) \<times> hk_state \<times> 's"
where
  "file_Sign ev hostKeys f data algorithm sts =
     (case file_approve ev hostKeys f sts of
        (Some e, sts) \<Rightarrow> (Inl e, sts)
      | (None, sts) \<Rightarrow>
          (case ev_sign ev (fl_signer f) algorithm data of None \<Rightarrow> (Inl SfCrypto, sts) | Some sg \<Rightarrow> (Inr sg, sts)))"

section \<open>Connect\<close>

text \<open>
  What happens on one connection. A signing attempt carries the answers the human and the
  cryptography give to it and the pin store's behaviour in it (\<open>'g\<close>); \<open>Elsewhere\<close> is a change of the
  pin store that other goroutines make.
\<close>

datatype ('g, 's) conn_event =
    KeyExchange pub_key
  | SignWeb 'g agent_env web_signer "byte list"
  | SignFile 'g agent_env file_signer "byte list" string
  | Elsewhere 's

fun conn_step ::
  "(byte list \<Rightarrow> string) \<Rightarrow> ('g \<Rightarrow> pin_request \<Rightarrow> 's \<Rightarrow> 'e option \<times> 's) \<Rightarrow> string \<Rightarrow> pinned_key option \<Rightarrow>
   ('g, 's) conn_event \<Rightarrow> hk_state \<times> 's \<Rightarrow> mismatch option \<times> hk_state \<times> 's"
where
  "conn_step fpr Pin eid pin (KeyExchange key) (st, s) =
     (case hostKeyCallback fpr eid pin key st of Inl m \<Rightarrow> (Some m, st, s) | Inr st \<Rightarrow> (None, st, s))"
| "conn_step fpr Pin eid pin (SignWeb g ev w data) sts = (None, snd (web_Sign ev (Some (Pin g)) w data sts))"
| "conn_step fpr Pin eid pin (SignFile g ev f data alg) sts = (None, snd (file_Sign ev (Some (Pin g)) f data alg sts))"
| "conn_step fpr Pin eid pin (Elsewhere s') (st, s) = (None, st, s')"

text \<open>A mismatch aborts the connection; a failed signing attempt does not.\<close>

fun conn_run ::
  "(byte list \<Rightarrow> string) \<Rightarrow> ('g \<Rightarrow> pin_request \<Rightarrow> 's \<Rightarrow> 'e option \<times> 's) \<Rightarrow> string \<Rightarrow> pinned_key option \<Rightarrow>
   ('g, 's) conn_event list \<Rightarrow> hk_state \<times> 's \<Rightarrow> mismatch option \<times> hk_state \<times> 's"
where
  "conn_run fpr Pin eid pin [] sts = (None, sts)"
| "conn_run fpr Pin eid pin (ev # evs) sts =
     (case conn_step fpr Pin eid pin ev sts of
        (Some m, sts) \<Rightarrow> (Some m, sts)
      | (None, sts) \<Rightarrow> conn_run fpr Pin eid pin evs sts)"

datatype setup_fail = FailSession | FailPty | FailStdin | FailStdout | FailStderr | FailShell

datatype 'e connect_error =
    HostKeysRequired
  | LookupFailed 'e
  | DialFailed
  | HandshakeMismatch mismatch
  | HandshakeFailed bool
  | NotPinned string string
  | SetupFailed setup_fail

record connect_params =
  ct_Host :: string
  ct_Port :: int
  ct_EndpointID :: string

text \<open>
  \<open>dialled\<close> is the outcome of the TCP dial, \<open>evs\<close> what happens during the handshake, \<open>authed\<close> its
  verdict, \<open>setup\<close> the first call that fails of those that open the shell. The flag of
  \<open>HandshakeFailed\<close> is the hint that the host is not trusted yet.
\<close>

definition Connect ::
  "(byte list \<Rightarrow> string) \<Rightarrow>
   (('f \<Rightarrow> string \<Rightarrow> 's \<Rightarrow> 'e + pinned_key option) \<times> ('g \<Rightarrow> pin_request \<Rightarrow> 's \<Rightarrow> 'e option \<times> 's)) option \<Rightarrow>
   'f \<Rightarrow> connect_params \<Rightarrow> bool \<Rightarrow> ('g, 's) conn_event list \<Rightarrow> bool \<Rightarrow> setup_fail option \<Rightarrow> hk_state \<Rightarrow> 's \<Rightarrow>
   ('e connect_error + unit) \<times> hk_state \<times> 's"
where
  "Connect fpr hostKeys flt p dialled evs authed setup state s =
     (case hostKeys of
        None \<Rightarrow> (Inl HostKeysRequired, state, s)
      | Some (Lookup, Pin) \<Rightarrow>
          let st = setDialAddress (ct_Host p) (ct_Port p) state in
          (case Lookup flt (ct_EndpointID p) s of
             Inl e \<Rightarrow> (Inl (LookupFailed e), st, s)
           | Inr pin \<Rightarrow>
               if \<not> dialled then (Inl DialFailed, st, s)
               else case conn_run fpr Pin (ct_EndpointID p) pin evs (st, s) of
                      (Some m, st, s) \<Rightarrow> (Inl (HandshakeMismatch m), st, s)
                    | (None, st, s) \<Rightarrow>
                        let (status, observed, pinned) = Snapshot st; provisional = status = HostKeyNew \<and> \<not> pinned in
                        if \<not> authed then (Inl (HandshakeFailed provisional), st, s)
                        else if provisional then (Inl (NotPinned (ok_Fingerprint observed) (ok_Type observed)), st, s)
                        else (case setup of Some f \<Rightarrow> (Inl (SetupFailed f), st, s) | None \<Rightarrow> (Inr (), st, s))))"

section \<open>The pin store's contract\<close>

text \<open>
  What \<open>HostKeys\<close> promises: a lookup reports the stored pin, a successful pin leaves the observed
  fingerprint stored, a failed one changes nothing, and no pin is ever overwritten.
\<close>

locale pin_store =
  fixes Lookup :: "'f \<Rightarrow> string \<Rightarrow> 's \<Rightarrow> 'e + pinned_key option"
    and Pin :: "'g \<Rightarrow> pin_request \<Rightarrow> 's \<Rightarrow> 'e option \<times> 's"
    and pin_of :: "'s \<Rightarrow> string \<Rightarrow> pinned_key option"
  assumes lookup_sound: "Lookup flt eid s = Inr pp \<Longrightarrow> pp = pin_of s eid"
    and pin_stored: "Pin g q s = (None, s') \<Longrightarrow>
      \<exists>p. pin_of s' (pq_EndpointID q) = Some p \<and> pn_Fingerprint p = ok_Fingerprint (pq_Observed q)"
    and pin_failed: "Pin g q s = (Some e, s') \<Longrightarrow> s' = s"
    and pin_kept: "pin_of s eid = Some p \<Longrightarrow> pin_of (snd (Pin g q s)) eid = Some p"

text \<open>The approval a signing attempt collected while it showed the host key \<open>ob\<close> as new.\<close>

definition shows_new :: "observed_key \<Rightarrow> sign_context \<Rightarrow> bool" where
  "shows_new ob ctx \<longleftrightarrow>
     cx_HostKey ctx = Some \<lparr>hk_Type = ok_Type ob, hk_Fingerprint = ok_Fingerprint ob, hk_Status = ''new''\<rparr>"

fun approved_new :: "observed_key \<Rightarrow> ('g, 's) conn_event \<Rightarrow> bool" where
  "approved_new ob (SignWeb g ev w data) = (\<exists>ctx resp. shows_new ob ctx
     \<and> ev_requestSign ev (wb_AccountID w) (web_request w data) ctx (wb_RedirectTo w) = Inr resp)"
| "approved_new ob (SignFile g ev f data alg) = (\<exists>ctx. shows_new ob ctx
     \<and> snd (ev_requestKey ev (file_approval ev f ctx)) = None)"
| "approved_new ob _ = False"

fun for_endpoint :: "string \<Rightarrow> ('g, 's) conn_event \<Rightarrow> bool" where
  "for_endpoint eid (SignWeb g ev w data) = (wb_EndpointID w = eid)"
| "for_endpoint eid (SignFile g ev f data alg) = (fl_endpointID f = eid)"
| "for_endpoint eid _ = True"

lemma pinAfterApproval_cases:
  assumes "pinAfterApproval (Some pin) eid prov by' aid (st, s) = (r, st', s')"
  obtains (kept) "st' = st" "r = None \<longrightarrow> prov = None"
  | (pinned) ob q where "prov = Some ob" "st' = MarkPinned st" "r = None" "pin q s = (None, s')"
      "pq_EndpointID q = eid" "pq_Observed q = ob" "(pq_Host q, pq_Port q) = dialAddress st"
  using assms
  by (auto simp: pinAfterApproval_def Let_def dialAddress_def split: option.splits prod.splits)

lemma context_provisional:
  assumes "withHostKeyContext ctx (Some st) = (ctx', Some ob)"
  shows "hs_status st = HostKeyNew \<and> \<not> hs_pinned st \<and> ob = hs_observed st \<and> shows_new ob ctx'"
  using assms by (auto simp: withHostKeyContext_def Snapshot_def shows_new_def Let_def split: if_splits)

text \<open>What a signing attempt can do to the connection's record.\<close>

definition pins_now :: "(pin_request \<Rightarrow> 's \<Rightarrow> 'e option \<times> 's) \<Rightarrow> string \<Rightarrow> hk_state \<Rightarrow> 's \<Rightarrow> hk_state \<Rightarrow> 's \<Rightarrow> bool" where
  "pins_now pin eid st s st' s' \<longleftrightarrow> hs_status st = HostKeyNew \<and> \<not> hs_pinned st \<and> st' = MarkPinned st
     \<and> (\<exists>q. pin q s = (None, s') \<and> pq_EndpointID q = eid \<and> pq_Observed q = hs_observed st
          \<and> (pq_Host q, pq_Port q) = dialAddress st)"

lemma web_Sign_effect:
  assumes "web_Sign ev (Some (Pin g)) w data (st, s) = (r, st', s')"
  shows "st' = st \<or> (pins_now (Pin g) (wb_EndpointID w) st s st' s' \<and> approved_new (hs_observed st) (SignWeb g ev w data))"
proof -
  obtain ctx prov where c: "withHostKeyContext (wb_ActionCtx w) (Some st) = (ctx, prov)" by (meson surj_pair)
  show ?thesis
  proof (cases "ev_requestSign ev (wb_AccountID w) (web_request w data) ctx (wb_RedirectTo w)")
    case (Inl e)
    with assms c show ?thesis by (simp add: web_Sign_def)
  next
    case (Inr resp)
    obtain r' st1 s1 where p: "pinAfterApproval (Some (Pin g)) (wb_EndpointID w) prov (wb_CredentialID w)
        (rs_ActionID resp) (st, s) = (r', st1, s1)" by (meson prod_cases3)
    have "st' = st1" "s' = s1"
      using assms c Inr p by (auto simp: web_Sign_def split: option.splits sum.splits)
    with p show ?thesis
    proof (cases rule: pinAfterApproval_cases)
      case (pinned ob q)
      with context_provisional [of _ st ctx ob] c Inr \<open>st' = st1\<close> \<open>s' = s1\<close> show ?thesis
        by (auto simp: pins_now_def)
    qed simp
  qed
qed

lemma file_Sign_effect:
  assumes "file_Sign ev (Some (Pin g)) f data alg (st, s) = (r, st', s')"
  shows "st' = st \<or> (pins_now (Pin g) (fl_endpointID f) st s st' s' \<and> approved_new (hs_observed st) (SignFile g ev f data alg))"
proof -
  obtain ctx prov where c: "withHostKeyContext (fl_actionCtx f) (Some st) = (ctx, prov)" by (meson surj_pair)
  obtain aid e where k: "ev_requestKey ev (file_approval ev f ctx) = (aid, e)" by (meson surj_pair)
  show ?thesis
  proof (cases e)
    case (Some x)
    with assms c k show ?thesis by (simp add: file_Sign_def file_approve_def)
  next
    case None
    obtain r' st1 s1 where p: "pinAfterApproval (Some (Pin g)) (fl_endpointID f) prov (''file-key:'' @ fl_label f)
        aid (st, s) = (r', st1, s1)" by (meson prod_cases3)
    have "st' = st1" "s' = s1"
      using assms c k None p by (auto simp: file_Sign_def file_approve_def split: option.splits)
    with p show ?thesis
    proof (cases rule: pinAfterApproval_cases)
      case (pinned ob q)
      with context_provisional [of _ st ctx ob] c have "pins_now (Pin g) (fl_endpointID f) st s st' s'"
        "shows_new (hs_observed st) ctx" using \<open>st' = st1\<close> \<open>s' = s1\<close> by (auto simp: pins_now_def)
      with k None show ?thesis by (metis approved_new.simps(2) snd_conv)
    qed simp
  qed
qed

lemma conn_run_snoc:
  "conn_run fpr Pin eid pin (evs @ [ev]) sts =
     (case conn_run fpr Pin eid pin evs sts of
        (Some m, sts) \<Rightarrow> (Some m, sts)
      | (None, sts) \<Rightarrow> conn_step fpr Pin eid pin ev sts)"
  by (induction evs arbitrary: sts) (auto split: option.splits prod.splits)

text \<open>
  The evidence for a provisional key: at some moment of the connection an approval that showed the
  key as new was granted, and right after it the store held its fingerprint for the endpoint.
\<close>

definition vouched ::
  "('g \<Rightarrow> pin_request \<Rightarrow> 's \<Rightarrow> 'e option \<times> 's) \<Rightarrow> ('s \<Rightarrow> string \<Rightarrow> pinned_key option) \<Rightarrow> (byte list \<Rightarrow> string) \<Rightarrow> string \<Rightarrow>
   ('g, 's) conn_event list \<Rightarrow> hk_state \<times> 's \<Rightarrow> observed_key \<Rightarrow> bool"
where
  "vouched Pin pin_of fpr eid evs sts ob \<longleftrightarrow>
     (\<exists>pre ev post st s p. evs = pre @ ev # post \<and> approved_new ob ev
        \<and> conn_run fpr Pin eid None (pre @ [ev]) sts = (None, st, s)
        \<and> pin_of s eid = Some p \<and> pn_Fingerprint p = ok_Fingerprint ob)"

lemma vouched_snoc: "vouched Pin pin_of fpr eid evs sts ob \<Longrightarrow> vouched Pin pin_of fpr eid (evs @ [ev]) sts ob"
  by (fastforce simp: vouched_def)

context pin_store
begin

definition trust_inv ::
  "(byte list \<Rightarrow> string) \<Rightarrow> string \<Rightarrow> pinned_key option \<Rightarrow> ('g, 's) conn_event list \<Rightarrow> hk_state \<times> 's \<Rightarrow> hk_state \<Rightarrow> bool"
where
  "trust_inv fpr eid pin evs sts0 st \<longleftrightarrow>
     (\<forall>key. KeyExchange key \<in> set evs \<longrightarrow> hs_status st \<noteq> HostKeyUnseen \<and> pk_blob key = ok_Key (hs_observed st))
     \<and> (hs_status st \<noteq> HostKeyUnseen \<longrightarrow> ok_Fingerprint (hs_observed st) = fpr (ok_Key (hs_observed st)))
     \<and> (hs_status st = HostKeyKnown \<longrightarrow> (\<exists>p. pin = Some p \<and> pin_match p (hs_observed st)))
     \<and> (hs_status st = HostKeyNew \<longrightarrow> pin = None)
     \<and> (hs_pinned st \<longrightarrow> hs_status st = HostKeyNew \<and> vouched Pin pin_of fpr eid evs sts0 (hs_observed st))"

lemma trust_inv_kex:
  assumes "trust_inv fpr eid pin evs sts0 st" "hostKeyCallback fpr eid pin key st = Inr st'"
  shows "trust_inv fpr eid pin (evs @ [KeyExchange key]) sts0 st'"
proof (cases "hs_status st = HostKeyUnseen")
  case True
  with assms(1) have "\<not> hs_pinned st" "\<forall>key. KeyExchange key \<notin> set evs" by (auto simp: trust_inv_def)
  with assms(2) True show ?thesis
    by (auto simp: trust_inv_def hostKeyCallback_def observed_of_def observe_def Snapshot_def Let_def
        split: option.splits if_splits)
next
  case False
  with assms(2) have "st' = st" "pk_blob key = ok_Key (hs_observed st)"
    by (auto simp: hostKeyCallback_def observed_of_def Snapshot_def Let_def split: if_splits)
  with assms(1) False show ?thesis by (auto simp: trust_inv_def vouched_snoc)
qed

lemma trust_inv_same:
  assumes "trust_inv fpr eid pin evs sts0 st" "\<forall>key. ev \<noteq> KeyExchange key"
  shows "trust_inv fpr eid pin (evs @ [ev]) sts0 st"
  using assms by (auto simp: trust_inv_def vouched_snoc)

lemma trust_inv_pin:
  assumes inv: "trust_inv fpr eid pin evs sts0 st" and run: "conn_run fpr Pin eid pin evs sts0 = (None, st, s)"
    and step: "conn_step fpr Pin eid pin ev (st, s) = (None, st', s')" and ev: "\<forall>key. ev \<noteq> KeyExchange key"
    and pins: "pins_now (Pin g) eid st s st' s'" and ok: "approved_new (hs_observed st) ev"
  shows "trust_inv fpr eid pin (evs @ [ev]) sts0 st'"
proof -
  from pins have new: "hs_status st = HostKeyNew" "st' = MarkPinned st" by (simp_all add: pins_now_def)
  with inv have "pin = None" by (simp add: trust_inv_def)
  from pins obtain p where p: "pin_of s' eid = Some p" "pn_Fingerprint p = ok_Fingerprint (hs_observed st)"
    using pin_stored unfolding pins_now_def by metis
  have "conn_run fpr Pin eid None (evs @ [ev]) sts0 = (None, st', s')"
    using run step \<open>pin = None\<close> by (simp add: conn_run_snoc)
  with p ok have "vouched Pin pin_of fpr eid (evs @ [ev]) sts0 (hs_observed st)"
    unfolding vouched_def by blast
  with inv new ev show ?thesis by (auto simp: trust_inv_def MarkPinned_def)
qed

lemma trust_inv_run:
  assumes "conn_run fpr Pin eid pin evs (st0, s0) = (None, st, s)"
    and "hs_status st0 = HostKeyUnseen" "\<not> hs_pinned st0" "list_all (for_endpoint eid) evs"
  shows "trust_inv fpr eid pin evs (st0, s0) st"
  using assms(1,4)
proof (induction evs arbitrary: st s rule: rev_induct)
  case Nil
  with assms(2,3) show ?case by (simp add: trust_inv_def)
next
  case (snoc ev evs)
  obtain st1 s1 where run: "conn_run fpr Pin eid pin evs (st0, s0) = (None, st1, s1)"
    and step: "conn_step fpr Pin eid pin ev (st1, s1) = (None, st, s)"
    using snoc.prems(1) by (auto simp: conn_run_snoc split: prod.splits option.splits)
  from snoc run have inv: "trust_inv fpr eid pin evs (st0, s0) st1" by simp
  show ?case
  proof (cases ev)
    case (KeyExchange key)
    with step have "hostKeyCallback fpr eid pin key st1 = Inr st" by (auto split: sum.splits)
    with trust_inv_kex [OF inv] KeyExchange show ?thesis by simp
  next
    case (SignWeb g ev' w data)
    then have "st = st1 \<or> (pins_now (Pin g) eid st1 s1 st s \<and> approved_new (hs_observed st1) ev)"
      using web_Sign_effect [of ev' Pin g w data st1 s1 _ st s] step snoc.prems(2)
      by (cases "web_Sign ev' (Some (Pin g)) w data (st1, s1)") auto
    with trust_inv_same [OF inv] trust_inv_pin [OF inv run step] SignWeb show ?thesis by blast
  next
    case (SignFile g ev' f data alg)
    then have "st = st1 \<or> (pins_now (Pin g) eid st1 s1 st s \<and> approved_new (hs_observed st1) ev)"
      using file_Sign_effect [of ev' Pin g f data alg st1 s1 _ st s] step snoc.prems(2)
      by (cases "file_Sign ev' (Some (Pin g)) f data alg (st1, s1)") auto
    with trust_inv_same [OF inv] trust_inv_pin [OF inv run step] SignFile show ?thesis by blast
  next
    case (Elsewhere s')
    with step trust_inv_same [OF inv] show ?thesis by auto
  qed
qed

text \<open>The trust decision of an established connection.\<close>

lemma established_trusted:
  assumes "Connect fpr (Some (Lookup, Pin)) flt p dialled evs authed setup new_hk_state s0 = (Inr (), st, s)"
    and "list_all (for_endpoint (ct_EndpointID p)) evs" "KeyExchange key \<in> set evs"
  shows "(\<forall>key'. KeyExchange key' \<in> set evs \<longrightarrow> pk_blob key' = pk_blob key)
    \<and> ((\<exists>pin. pin_of s0 (ct_EndpointID p) = Some pin \<and> pin_match pin (hs_observed st))
       \<or> pin_of s0 (ct_EndpointID p) = None
         \<and> vouched Pin pin_of fpr (ct_EndpointID p) evs (setDialAddress (ct_Host p) (ct_Port p) new_hk_state, s0) (hs_observed st))
    \<and> ok_Key (hs_observed st) = pk_blob key \<and> ok_Fingerprint (hs_observed st) = fpr (pk_blob key)"
proof -
  let ?st0 = "setDialAddress (ct_Host p) (ct_Port p) new_hk_state"
  obtain pin where lk: "Lookup flt (ct_EndpointID p) s0 = Inr pin"
    and run: "conn_run fpr Pin (ct_EndpointID p) pin evs (?st0, s0) = (None, st, s)"
    and ok: "\<not> (hs_status st = HostKeyNew \<and> \<not> hs_pinned st)"
    using assms(1) by (auto simp: Connect_def Let_def Snapshot_def split: sum.splits if_splits prod.splits option.splits)
  have inv: "trust_inv fpr (ct_EndpointID p) pin evs (?st0, s0) st"
    by (rule trust_inv_run [OF run]) (simp_all add: setDialAddress_def new_hk_state_def assms(2))
  with assms(3) have st: "hs_status st \<noteq> HostKeyUnseen" "ok_Key (hs_observed st) = pk_blob key"
    by (auto simp: trust_inv_def)
  have "pin = pin_of s0 (ct_EndpointID p)" by (rule lookup_sound [OF lk])
  with inv st ok show ?thesis by (cases "hs_status st") (auto simp: trust_inv_def)
qed

end

end
