(* ===== verification/Endpoint_Service.thy ===== *)
theory Endpoint_Service
  imports Endpoint_Store Base64 Go_Strings Terminal_Manager Host_Key
begin

text \<open>
  The endpoints an account sees: \<open>src/internal/demo/demo.go\<close> (virtual endpoints from the
  configuration, with their own pins), \<open>src/internal/endpointsvc/endpointsvc.go\<close> (own and demo
  endpoints merged), and \<open>src/internal/hostkeys/hostkeys.go\<close>, the pin store of both, which is
  shown to meet the contract of \<open>Host_Key\<close>.

  The SHA-256 of the standard library, the fingerprint function and the parser of authorized-keys
  lines of \<open>golang.org/x/crypto\<close> are parameters.
\<close>

section \<open>Demo endpoints\<close>

record seed_endpoint =
  sd_Label :: string
  sd_Host :: string
  sd_Port :: int
  sd_Username :: string
  sd_AgentForward :: "bool option"
  sd_Description :: "string option"
  sd_HostKey :: "host_key_record option"

record demo_key =
  dk_Type :: string
  dk_Key :: "byte list option"
  dk_Fingerprint :: string
  dk_PinnedBy :: string

record demo =
  dm_endpoints :: "seed_endpoint list"
  dm_pins :: "(string, demo_key) gomap"

definition IDPrefix :: string where
  "IDPrefix = ''demo:''"

definition IsID :: "string \<Rightarrow> bool" where
  "IsID eid \<longleftrightarrow> length eid \<ge> length IDPrefix \<and> take (length IDPrefix) eid = IDPrefix"

definition bakedInHostKeys :: "(string, string) gomap" where
  "bakedInHostKeys = []"

definition AgentForwardEnabled :: "seed_endpoint \<Rightarrow> bool" where
  "AgentForwardEnabled e = (case sd_AgentForward e of None \<Rightarrow> True | Some b \<Rightarrow> b)"

definition stableID :: "(string \<Rightarrow> byte list) \<Rightarrow> string \<Rightarrow> int \<Rightarrow> string \<Rightarrow> string" where
  "stableID sha256 host port username =
     IDPrefix @ take 12 (RawURL_Encode (sha256 (host @ '' '' @ Itoa port @ '' '' @ username)))"

definition seed_id :: "(string \<Rightarrow> byte list) \<Rightarrow> seed_endpoint \<Rightarrow> string" where
  "seed_id sha256 e = stableID sha256 (sd_Host e) (sd_Port e) (sd_Username e)"

text \<open>One iteration of the loop of \<open>NewService\<close>: a configured key, else a baked-in one, else none.\<close>

definition demo_seed ::
  "(string \<Rightarrow> byte list) \<Rightarrow> (string \<Rightarrow> pub_key option) \<Rightarrow> (byte list \<Rightarrow> string) \<Rightarrow> seed_endpoint \<Rightarrow>
   (string, demo_key) gomap \<Rightarrow> (string, demo_key) gomap"
where
  "demo_seed sha256 parse fpr e pins =
     (case sd_HostKey e of
        Some hk \<Rightarrow> AList.update (seed_id sha256 e)
          \<lparr>dk_Type = hr_Type hk, dk_Key = hr_Key hk, dk_Fingerprint = hr_Fingerprint hk, dk_PinnedBy = ''config''\<rparr> pins
      | None \<Rightarrow>
          (case map_of bakedInHostKeys (sd_Host e) of
             None \<Rightarrow> pins
           | Some line \<Rightarrow>
               (case parse line of
                  None \<Rightarrow> pins
                | Some key \<Rightarrow> AList.update (seed_id sha256 e)
                    \<lparr>dk_Type = pk_type key, dk_Key = Some (pk_blob key), dk_Fingerprint = fpr (pk_blob key),
                     dk_PinnedBy = ''demo''\<rparr> pins)))"

definition demo_NewService ::
  "(string \<Rightarrow> byte list) \<Rightarrow> (string \<Rightarrow> pub_key option) \<Rightarrow> (byte list \<Rightarrow> string) \<Rightarrow> seed_endpoint list \<Rightarrow> demo"
where
  "demo_NewService sha256 parse fpr eps =
     \<lparr>dm_endpoints = eps, dm_pins = fold (demo_seed sha256 parse fpr) eps []\<rparr>"

definition HostKeyFor :: "string \<Rightarrow> demo \<Rightarrow> demo_key option" where
  "HostKeyFor eid d = map_of (dm_pins d) eid"

definition demo_PinHostKey :: "string \<Rightarrow> demo_key \<Rightarrow> demo \<Rightarrow> db_error option \<times> demo" where
  "demo_PinHostKey eid hk d =
     (case map_of (dm_pins d) eid of
        Some existing \<Rightarrow> (if dk_Fingerprint existing = dk_Fingerprint hk then None else Some ErrHostKeyPinned, d)
      | None \<Rightarrow> (None, d\<lparr>dm_pins := AList.update eid hk (dm_pins d)\<rparr>))"

definition demo_List :: "(string \<Rightarrow> byte list) \<Rightarrow> string \<Rightarrow> demo \<Rightarrow> endpoint list" where
  "demo_List sha256 accountID d =
     map (\<lambda>e. \<lparr>se_ID = seed_id sha256 e, se_AccountID = accountID, se_Label = sd_Label e, se_Host = sd_Host e,
              se_Port = sd_Port e, se_Username = sd_Username e, se_UserVerification = ''required'',
              se_Description = sd_Description e, se_AgentForward = AgentForwardEnabled e,
              se_HostKey = map_option (\<lambda>hk. \<lparr>hp_Type = dk_Type hk, hp_Fingerprint = dk_Fingerprint hk,
                  hp_PinnedAt = [], hp_PinnedBy = dk_PinnedBy hk\<rparr>) (HostKeyFor (seed_id sha256 e) d)\<rparr>)
       (dm_endpoints d)"

definition demo_IsEmpty :: "demo \<Rightarrow> bool" where
  "demo_IsEmpty d \<longleftrightarrow> length (dm_endpoints d) = 0"

section \<open>The merged view\<close>

definition DescriptionMaxLen :: int where
  "DescriptionMaxLen = 1000"

definition UserVerificationValues :: "string list" where
  "UserVerificationValues = [''required'', ''preferred'', ''discouraged'']"

definition IsUserVerification :: "string \<Rightarrow> bool" where
  "IsUserVerification v \<longleftrightarrow> v \<in> set UserVerificationValues"

record svc_endpoint =
  sv_Endpoint :: endpoint
  sv_IsDemo :: bool

definition svc_ListForAccount ::
  "(string \<Rightarrow> byte list) \<Rightarrow> bool \<Rightarrow> bool \<Rightarrow> string \<Rightarrow> demo option \<Rightarrow> sw_db \<Rightarrow> db_error + svc_endpoint list"
where
  "svc_ListForAccount sha256 flt flt2 accountID dm db =
     (case es_ListForAccount flt accountID db of
        Inl e \<Rightarrow> Inl e
      | Inr own \<Rightarrow>
          Inr (map (\<lambda>e. \<lparr>sv_Endpoint = e, sv_IsDemo = False\<rparr>) own @
               (case dm of
                  Some d \<Rightarrow> if fst (ShowDemoEndpoints flt2 accountID db)
                            then map (\<lambda>e. \<lparr>sv_Endpoint = e, sv_IsDemo = True\<rparr>) (demo_List sha256 accountID d)
                            else []
                | None \<Rightarrow> [])))"

definition svc_GetForAccount ::
  "(string \<Rightarrow> byte list) \<Rightarrow> bool \<Rightarrow> string \<Rightarrow> string \<Rightarrow> demo option \<Rightarrow> sw_db \<Rightarrow> db_error + svc_endpoint option"
where
  "svc_GetForAccount sha256 flt eid accountID dm db =
     (if IsID eid
      then Inr (case dm of
             None \<Rightarrow> None
           | Some d \<Rightarrow> map_option (\<lambda>e. \<lparr>sv_Endpoint = e, sv_IsDemo = True\<rparr>)
                         (find (\<lambda>e. se_ID e = eid) (demo_List sha256 accountID d)))
      else case es_GetForAccount flt eid accountID db of
             Inl e \<Rightarrow> Inl e
           | Inr ep \<Rightarrow> Inr (map_option (\<lambda>e. \<lparr>sv_Endpoint = e, sv_IsDemo = False\<rparr>) ep))"

definition ref_of :: "endpoint \<Rightarrow> endpoint_ref" where
  "ref_of e = \<lparr>er_ID = se_ID e, er_Label = se_Label e, er_AccountID = se_AccountID e, er_Host = se_Host e,
     er_Port = se_Port e, er_Username = se_Username e, er_UserVerification = se_UserVerification e,
     er_AgentForward = se_AgentForward e\<rparr>"

definition RefForAccount ::
  "(string \<Rightarrow> byte list) \<Rightarrow> bool \<Rightarrow> string \<Rightarrow> string \<Rightarrow> demo option \<Rightarrow> sw_db \<Rightarrow> db_error + endpoint_ref option"
where
  "RefForAccount sha256 flt eid accountID dm db =
     (case svc_GetForAccount sha256 flt eid accountID dm db of
        Inl e \<Rightarrow> Inl e
      | Inr ep \<Rightarrow> Inr (map_option (ref_of \<circ> sv_Endpoint) ep))"

section \<open>The pin store\<close>

text \<open>\<open>pv_pinned\<close> records the calls of \<open>OnPinned\<close>.\<close>

record pin_service =
  pv_db :: sw_db
  pv_demo :: "demo option"
  pv_pinned :: "string list"

datatype pin_error = UnknownDemo string | StoreError db_error

definition hv_Lookup :: "bool \<Rightarrow> string \<Rightarrow> pin_service \<Rightarrow> pin_error + pinned_key option" where
  "hv_Lookup flt eid s =
     (if IsID eid
      then Inr (case pv_demo s of
             None \<Rightarrow> None
           | Some d \<Rightarrow> map_option (\<lambda>hk. \<lparr>pn_Type = dk_Type hk, pn_Key = dk_Key hk, pn_Fingerprint = dk_Fingerprint hk\<rparr>)
                         (HostKeyFor eid d))
      else case es_GetHostKey flt eid (pv_db s) of
             Inl e \<Rightarrow> Inl (StoreError e)
           | Inr rec \<Rightarrow> Inr (map_option (\<lambda>r. \<lparr>pn_Type = hr_Type r, pn_Key = hr_Key r, pn_Fingerprint = hr_Fingerprint r\<rparr>)
                              rec))"

definition store_pin :: "pin_request \<Rightarrow> pin_params" where
  "store_pin req =
     \<lparr>pp_ID = pq_EndpointID req, pp_Host = pq_Host req, pp_Port = pq_Port req,
      pp_Record = \<lparr>hr_Type = ok_Type (pq_Observed req), hr_Key = Some (ok_Key (pq_Observed req)),
        hr_Fingerprint = ok_Fingerprint (pq_Observed req)\<rparr>,
      pp_PinnedBy = pq_PinnedBy req\<rparr>"

text \<open>\<open>g\<close> holds the faults of the two statements and the formatted clock.\<close>

definition hv_Pin :: "bool \<times> bool \<times> string \<Rightarrow> pin_request \<Rightarrow> pin_service \<Rightarrow> pin_error option \<times> pin_service" where
  "hv_Pin g req s =
     (let (flt, flt2, now) = g; ob = pq_Observed req;
          done = (\<lambda>s. s\<lparr>pv_pinned := pv_pinned s @ [pq_ActionID req]\<rparr>)
      in if IsID (pq_EndpointID req)
         then (case pv_demo s of
                 None \<Rightarrow> (Some (UnknownDemo (pq_EndpointID req)), s)
               | Some d \<Rightarrow>
                   (case demo_PinHostKey (pq_EndpointID req)
                           \<lparr>dk_Type = ok_Type ob, dk_Key = Some (ok_Key ob), dk_Fingerprint = ok_Fingerprint ob,
                            dk_PinnedBy = pq_PinnedBy req\<rparr> d of
                      (Some e, d) \<Rightarrow> (Some (StoreError e), s\<lparr>pv_demo := Some d\<rparr>)
                    | (None, d) \<Rightarrow> (None, done (s\<lparr>pv_demo := Some d\<rparr>))))
         else (case es_PinHostKey flt flt2 now (store_pin req) (pv_db s) of
                 (Some e, db) \<Rightarrow> (Some (StoreError e), s\<lparr>pv_db := db\<rparr>)
               | (None, db) \<Rightarrow> (None, done (s\<lparr>pv_db := db\<rparr>))))"

text \<open>The pin of an endpoint as the two stores hold it.\<close>

definition pin_of :: "pin_service \<Rightarrow> string \<Rightarrow> pinned_key option" where
  "pin_of s eid =
     (if IsID eid
      then Option.bind (pv_demo s) (\<lambda>d. map_option (\<lambda>hk. \<lparr>pn_Type = dk_Type hk, pn_Key = dk_Key hk,
             pn_Fingerprint = dk_Fingerprint hk\<rparr>) (map_of (dm_pins d) eid))
      else Option.bind (row_of (pv_db s) eid) (\<lambda>r. map_option (\<lambda>fp. \<lparr>pn_Type = str_of (er_host_key_type r),
             pn_Key = er_host_key r, pn_Fingerprint = fp\<rparr>) (er_host_key_fingerprint r)))"

text \<open>A reference resolved for an account names that account and the id asked for.\<close>

lemma RefForAccount_owned:
  assumes "RefForAccount sha256 flt eid accountID dm db = Inr (Some ref)"
  shows "er_ID ref = eid \<and> er_AccountID ref = accountID
    \<and> (\<not> IsID eid \<longrightarrow> (\<exists>r. row_of db eid = Some r \<and> er_account_id r = accountID))"
proof (cases "IsID eid")
  case True
  then obtain d e where "dm = Some d" and f: "find (\<lambda>e. se_ID e = eid) (demo_List sha256 accountID d) = Some e"
    and ref: "ref = ref_of e"
    using assms by (auto simp: RefForAccount_def svc_GetForAccount_def split: option.splits)
  from f have "e \<in> set (demo_List sha256 accountID d)" "se_ID e = eid" by (auto simp: find_Some_iff)
  with ref True show ?thesis by (auto simp: demo_List_def ref_of_def)
next
  case False
  with assms show ?thesis
    by (auto simp: RefForAccount_def svc_GetForAccount_def es_GetForAccount_def GetEndpointForAccount_def ref_of_def
        fromRow_def split: if_splits option.splits)
qed

section \<open>The service meets the contract\<close>

lemma hv_lookup_sound: "hv_Lookup flt eid s = Inr pp \<Longrightarrow> pp = pin_of s eid"
  by (auto simp: hv_Lookup_def pin_of_def HostKeyFor_def es_GetHostKey_def GetEndpointHostKey_def
      split: if_splits option.splits)

lemma hv_pin_failed: "hv_Pin g q s = (Some e, s') \<Longrightarrow> s' = s"
  by (auto simp: hv_Pin_def demo_PinHostKey_def Let_def dest: es_PinHostKey_failed
      split: if_splits option.splits prod.splits)

lemma hv_pin_stored:
  assumes "hv_Pin g q s = (None, s')"
  shows "\<exists>p. pin_of s' (pq_EndpointID q) = Some p \<and> pn_Fingerprint p = ok_Fingerprint (pq_Observed q)"
proof (cases "IsID (pq_EndpointID q)")
  case True
  with assms show ?thesis
    by (auto simp: hv_Pin_def pin_of_def demo_PinHostKey_def Let_def gomap_simps split: if_splits option.splits prod.splits)
next
  case False
  obtain flt flt2 now where g: "g = (flt, flt2, now)" by (cases g) auto
  obtain db where "es_PinHostKey flt flt2 now (store_pin q) (pv_db s) = (None, db)" and db: "pv_db s' = db"
    using assms False g by (auto simp: hv_Pin_def Let_def split: option.splits prod.splits)
  from es_PinHostKey_ok [OF this(1)] db False show ?thesis by (auto simp: pin_of_def store_pin_def)
qed

lemma hv_pin_kept:
  assumes "pin_of s eid = Some p"
  shows "pin_of (snd (hv_Pin g q s)) eid = Some p"
proof (cases "IsID (pq_EndpointID q)")
  case True
  with assms show ?thesis
    by (cases "pv_demo s")
       (auto simp: hv_Pin_def pin_of_def demo_PinHostKey_def Let_def gomap_simps split: if_splits option.splits prod.splits)
next
  case False
  obtain flt flt2 now where g: "g = (flt, flt2, now)" by (cases g) auto
  have db: "pv_db (snd (hv_Pin g q s)) = snd (es_PinHostKey flt flt2 now (store_pin q) (pv_db s))"
    and dm: "pv_demo (snd (hv_Pin g q s)) = pv_demo s"
    using False g by (simp_all add: hv_Pin_def Let_def split: option.split prod.split)
  show ?thesis
  proof (cases "IsID eid")
    case True
    with assms dm show ?thesis by (simp add: pin_of_def)
  next
    case False
    with assms obtain r fp where r: "row_of (pv_db s) eid = Some r" "er_host_key_fingerprint r = Some fp"
      by (auto simp: pin_of_def bind_eq_Some_conv)
    with es_PinHostKey_kept [OF r(1)] db False assms show ?thesis by (simp add: pin_of_def)
  qed
qed

interpretation hv: pin_store hv_Lookup hv_Pin pin_of
  by unfold_locales (simp_all add: hv_lookup_sound hv_pin_stored hv_pin_failed hv_pin_kept)

section \<open>Properties\<close>

text \<open>
  C5: no session on an unvouched host. If \<open>Connect\<close> establishes a session then every key exchange
  of the connection presented one and the same host key, and that key either matches the pin the
  endpoint had before the dial, or the endpoint had none and, during this very connection, a human
  approved a signature on a prompt that showed this key's fingerprint as new, right after which the
  store held the fingerprint as the endpoint's pin. This covers servers that authenticate without
  any signature, re-keying, and concurrent changes of the store.
\<close>

theorem session_host_vouched:
  assumes "Connect fpr (Some (hv_Lookup, hv_Pin)) flt p dialled evs authed setup new_hk_state s0 = (Inr (), st, s)"
    and "list_all (for_endpoint (ct_EndpointID p)) evs" "KeyExchange key \<in> set evs"
  shows "(\<forall>key'. KeyExchange key' \<in> set evs \<longrightarrow> pk_blob key' = pk_blob key)
    \<and> ((\<exists>pin. pin_of s0 (ct_EndpointID p) = Some pin \<and> pin_match pin (hs_observed st))
       \<or> pin_of s0 (ct_EndpointID p) = None
         \<and> vouched hv_Pin pin_of fpr (ct_EndpointID p) evs
             (setDialAddress (ct_Host p) (ct_Port p) new_hk_state, s0) (hs_observed st))
    \<and> ok_Key (hs_observed st) = pk_blob key \<and> ok_Fingerprint (hs_observed st) = fpr (pk_blob key)"
  by (rule hv.established_trusted [OF assms])

definition ex_hostkey :: pub_key where
  "ex_hostkey = \<lparr>pk_type = ''ssh-ed25519'', pk_blob = [1, 2, 3]\<rparr>"

definition ex_fsigner :: file_signer where
  "ex_fsigner = \<lparr>fl_signer = \<lparr>sn_pub = \<lparr>pk_type = KeyAlgoRSA, pk_blob = [7]\<rparr>, sn_algorithms = True\<rparr>,
     fl_accountID = ''acc'', fl_label = ''k'', fl_connectionID = ''c1'', fl_actionCtx = cp_Context ex_params,
     fl_redirectTo = [], fl_endpointID = ''e1''\<rparr>"

definition ex_pins :: pin_service where
  "ex_pins = \<lparr>pv_db = ep_run [EpCreate False ''t0'' ex_row_ep] \<lparr>db_accounts = [(''acc'', 1)], db_endpoints = []\<rparr>,
     pv_demo = None, pv_pinned = []\<rparr>"

definition ex_events :: "(bool \<times> bool \<times> string, pin_service) conn_event list" where
  "ex_events = [KeyExchange ex_hostkey, SignFile (False, False, ''t1'') ex_env ex_fsigner [5] [], KeyExchange ex_hostkey]"

theorem session_host_vouched_witness:
  "\<exists>st s. Connect (\<lambda>_. ''SHA256:x'') (Some (hv_Lookup, hv_Pin)) False
       \<lparr>ct_Host = ''h.example'', ct_Port = 22, ct_EndpointID = ''e1''\<rparr> True ex_events True None new_hk_state ex_pins
       = (Inr (), st, s)
     \<and> ok_Key (hs_observed st) = [1, 2, 3]"
proof -
  let ?p = "\<lparr>ct_Host = ''h.example'', ct_Port = 22, ct_EndpointID = ''e1''\<rparr>"
  let ?r = "Connect (\<lambda>_. ''SHA256:x'') (Some (hv_Lookup, hv_Pin)) False ?p True ex_events True None new_hk_state ex_pins"
  have "fst ?r = Inr ()"
    by code_simp
  then obtain st s where run: "?r = (Inr (), st, s)" by (cases ?r) auto
  have "list_all (for_endpoint (ct_EndpointID ?p)) ex_events" "KeyExchange ex_hostkey \<in> set ex_events"
    by (simp_all add: ex_events_def ex_fsigner_def)
  from session_host_vouched [OF run this] run show ?thesis by (auto simp: ex_hostkey_def)
qed

end
