(* ===== verification/Agent_Session.thy ===== *)
theory Agent_Session
  imports Terminal_Teardown Endpoint_Service Sanitize
begin

text \<open>
  \<open>src/internal/agent/session.go\<close>: the sessions and endpoints one OAuth client of an account may
  touch. The session registry is the manager of \<open>Terminal_Manager\<close>, the endpoints are those of
  \<open>Endpoint_Service\<close>. What a client relies on in the registry is the locale \<open>session_registry\<close>.
\<close>

section \<open>Types\<close>

record agent_session =
  ax_accountID :: string
  ax_clientID :: string
  ax_sourceIP :: string
  ax_maxOwned :: int
  ax_clientName :: string
  ax_clientVer :: string

datatype agent_fail =
    AgStore db_error
  | AgUnknownEndpoint string
  | AgMaxSessions int
  | AgManager mgr_error
  | AgNotFound string
  | AgBadKey key_error
  | AgContext

record endpoint_info =
  ei_ID :: string
  ei_Label :: string
  ei_Host :: string
  ei_Port :: int
  ei_Username :: string
  ei_Description :: "string option"

text \<open>A \<open>None\<close> keeps the stored value; the description has its own flag, so that it can be cleared.\<close>

record endpoint_patch =
  pt_Label :: "string option"
  pt_Host :: "string option"
  pt_Port :: "int option"
  pt_Username :: "string option"
  pt_UserVerification :: "string option"
  pt_AgentForward :: "bool option"
  pt_Description :: "string option"
  pt_DescriptionSet :: bool

record host_key_event =
  he_Type :: string
  he_Source :: string
  he_AccountID :: string
  he_EndpointID :: string
  he_EndpointLabel :: string
  he_EndpointAddress :: string
  he_Fingerprint :: string
  he_PriorFingerprint :: string
  he_Reason :: string
  he_MCPClientName :: string
  he_MCPClientVersion :: string
  he_SourceIP :: string
  he_MCPReason :: string

section \<open>Operations\<close>

definition agent_New :: "string \<Rightarrow> string \<Rightarrow> string \<Rightarrow> int \<Rightarrow> agent_session" where
  "agent_New accountID clientID sourceIP maxOwned =
     \<lparr>ax_accountID = accountID, ax_clientID = clientID, ax_sourceIP = sourceIP,
      ax_maxOwned = (if maxOwned < 0 then 5 else maxOwned), ax_clientName = [], ax_clientVer = []\<rparr>"

definition SetClientInfo :: "string \<Rightarrow> string \<Rightarrow> agent_session \<Rightarrow> agent_session" where
  "SetClientInfo name version x =
     x\<lparr>ax_clientName := SanitizeClientReported name, ax_clientVer := SanitizeClientReported version\<rparr>"

definition agent_ListEndpoints ::
  "(string \<Rightarrow> byte list) \<Rightarrow> bool \<Rightarrow> bool \<Rightarrow> agent_session \<Rightarrow> demo option \<Rightarrow> sw_db \<Rightarrow> db_error + endpoint_info list"
where
  "agent_ListEndpoints sha256 flt flt2 x dm db =
     (case svc_ListForAccount sha256 flt flt2 (ax_accountID x) dm db of
        Inl e \<Rightarrow> Inl e
      | Inr merged \<Rightarrow> Inr (map (\<lambda>v. let e = sv_Endpoint v in
          \<lparr>ei_ID = se_ID e, ei_Label = se_Label e, ei_Host = se_Host e, ei_Port = se_Port e,
           ei_Username = se_Username e, ei_Description = se_Description e\<rparr>) merged))"

definition agent_GetEndpoint ::
  "(string \<Rightarrow> byte list) \<Rightarrow> bool \<Rightarrow> string \<Rightarrow> agent_session \<Rightarrow> demo option \<Rightarrow> sw_db \<Rightarrow> db_error + endpoint option"
where
  "agent_GetEndpoint sha256 flt eid x dm db =
     (case svc_GetForAccount sha256 flt eid (ax_accountID x) dm db of
        Inl e \<Rightarrow> Inl e
      | Inr ep \<Rightarrow> Inr (map_option sv_Endpoint ep))"

definition agent_CreateEndpoint ::
  "bool \<Rightarrow> string \<Rightarrow> endpoint \<Rightarrow> agent_session \<Rightarrow> sw_db \<Rightarrow> db_error option \<times> sw_db"
where
  "agent_CreateEndpoint flt now ep x db = es_Create flt now (ep\<lparr>se_AccountID := ax_accountID x\<rparr>) db"

definition apply_patch :: "endpoint_patch \<Rightarrow> endpoint \<Rightarrow> endpoint" where
  "apply_patch p e =
     (let get = (\<lambda>old new. case new of None \<Rightarrow> old | Some v \<Rightarrow> v) in
      e\<lparr>se_Label := get (se_Label e) (pt_Label p), se_Host := get (se_Host e) (pt_Host p),
        se_Port := (case pt_Port p of None \<Rightarrow> se_Port e | Some v \<Rightarrow> v),
        se_Username := get (se_Username e) (pt_Username p),
        se_UserVerification := get (se_UserVerification e) (pt_UserVerification p),
        se_AgentForward := (case pt_AgentForward p of None \<Rightarrow> se_AgentForward e | Some v \<Rightarrow> v),
        se_Description := (if pt_DescriptionSet p then pt_Description p else se_Description e)\<rparr>)"

definition cleared_event :: "agent_session \<Rightarrow> endpoint \<Rightarrow> string \<Rightarrow> host_key_event" where
  "cleared_event x e fp =
     \<lparr>he_Type = ''host-key-cleared'', he_Source = ''endpoint-admin'', he_AccountID = se_AccountID e,
      he_EndpointID = se_ID e, he_EndpointLabel = se_Label e,
      he_EndpointAddress = se_Username e @ ''@'' @ se_Host e @ '':'' @ Itoa (se_Port e),
      he_Fingerprint = fp, he_PriorFingerprint = [], he_Reason = ''endpoint host/port updated via MCP'',
      he_MCPClientName = ax_clientName x, he_MCPClientVersion = ax_clientVer x, he_SourceIP = ax_sourceIP x,
      he_MCPReason = []\<rparr>"

text \<open>The read, the merge, the write, and the audit events it records (\<open>audit\<close>: a recorder is wired).\<close>

definition agent_UpdateEndpoint ::
  "bool \<Rightarrow> bool \<Rightarrow> bool \<Rightarrow> string \<Rightarrow> string \<Rightarrow> endpoint_patch \<Rightarrow> agent_session \<Rightarrow> sw_db \<Rightarrow>
   (db_error + bool) \<times> host_key_event list \<times> sw_db"
where
  "agent_UpdateEndpoint flt flt2 audit now eid patch x db =
     (case es_GetForAccount flt eid (ax_accountID x) db of
        Inl e \<Rightarrow> (Inl e, [], db)
      | Inr None \<Rightarrow> (Inr False, [], db)
      | Inr (Some existing) \<Rightarrow>
          (let merged = apply_patch patch existing; (r, db) = es_Update flt2 now merged db in
           (r, (case (r, se_HostKey existing) of
                  (Inr True, Some pin) \<Rightarrow>
                    if audit \<and> (se_Host existing \<noteq> se_Host merged \<or> se_Port existing \<noteq> se_Port merged)
                    then [cleared_event x existing (hp_Fingerprint pin)] else []
                | _ \<Rightarrow> []), db)))"

definition agent_DeleteEndpoint ::
  "bool \<Rightarrow> string \<Rightarrow> string \<Rightarrow> agent_session \<Rightarrow> sw_db \<Rightarrow> (db_error + bool) \<times> sw_db"
where
  "agent_DeleteEndpoint flt now eid x db = es_Delete flt now eid (ax_accountID x) db"

definition ownsSession :: "agent_session \<Rightarrow> session option \<Rightarrow> bool" where
  "ownsSession x s =
     (case s of
        None \<Rightarrow> False
      | Some s \<Rightarrow> s_Source s = SourceMCP \<and> s_AccountID s = ax_accountID x \<and> s_OwnerClientID s = ax_clientID x)"

definition Owns :: "string \<Rightarrow> agent_session \<Rightarrow> manager \<Rightarrow> bool" where
  "Owns sid x m = ownsSession x (GetSession sid m)"

definition assertOwned :: "string \<Rightarrow> agent_session \<Rightarrow> manager \<Rightarrow> agent_fail option" where
  "assertOwned sid x m = (if \<not> Owns sid x m then Some (AgNotFound sid) else None)"

definition owned_live :: "agent_session \<Rightarrow> manager \<Rightarrow> int" where
  "owned_live x m = int (length (filter (\<lambda>s. ownsSession x (Some s) \<and> s_Status s \<noteq> StatusClosed
     \<and> s_Status s \<noteq> StatusError) (ListSessions m)))"

definition agent_trigger :: "agent_session \<Rightarrow> string \<Rightarrow> trigger" where
  "agent_trigger x reason =
     \<lparr>t_Kind = SourceMCP, t_SourceIP = ax_sourceIP x, t_Reason = reason, t_OwnerClientID = ax_clientID x,
      t_MCPClientName = ax_clientName x, t_MCPClientVer = ax_clientVer x\<rparr>"

text \<open>
  \<open>sid\<close> is the id the manager mints; \<open>between\<close> is what other goroutines do between the count and the
  registration, \<open>env\<close> what they do while the transport connects.
\<close>

definition agent_CreateSession ::
  "(string \<Rightarrow> byte list) \<Rightarrow> bool \<Rightarrow> demo option \<Rightarrow> sw_db \<Rightarrow> (manager \<Rightarrow> manager) \<Rightarrow> string \<Rightarrow> time \<Rightarrow> string + transport \<Rightarrow>
   (manager \<Rightarrow> manager) \<Rightarrow> string \<Rightarrow> string \<Rightarrow> agent_session \<Rightarrow> manager \<Rightarrow> (agent_fail + session) \<times> manager"
where
  "agent_CreateSession sha256 flt dm db between sid now outcome env endpointID reason x m =
     (case RefForAccount sha256 flt endpointID (ax_accountID x) dm db of
        Inl e \<Rightarrow> (Inl (AgStore e), m)
      | Inr None \<Rightarrow> (Inl (AgUnknownEndpoint endpointID), m)
      | Inr (Some ep) \<Rightarrow>
          if owned_live x m \<ge> ax_maxOwned x then (Inl (AgMaxSessions (ax_maxOwned x)), m)
          else (case Create sid now ep (ax_accountID x) (agent_trigger x reason) outcome env (between m) of
                  (Inl e, m) \<Rightarrow> (Inl (AgManager e), m)
                | (Inr s, m) \<Rightarrow> (Inr s, m)))"

definition agent_ListSessions :: "agent_session \<Rightarrow> manager \<Rightarrow> session list" where
  "agent_ListSessions x m = filter (\<lambda>s. ownsSession x (Some s)) (ListSessions m)"

definition agent_SendKeys ::
  "time \<Rightarrow> bool \<Rightarrow> string \<Rightarrow> string list \<Rightarrow> agent_session \<Rightarrow> manager \<Rightarrow> (agent_fail + unit) \<times> manager"
where
  "agent_SendKeys now writeOk sid keys x m =
     (case assertOwned sid x m of
        Some e \<Rightarrow> (Inl e, m)
      | None \<Rightarrow>
          (case ResolveKeys keys of
             Inl e \<Rightarrow> (Inl (AgBadKey e), m)
           | Inr data \<Rightarrow>
               (case SendInput now writeOk sid data m of
                  (Inl e, m) \<Rightarrow> (Inl (AgManager e), m)
                | (Inr _, m) \<Rightarrow> (Inr (), m))))"

text \<open>
  The long poll. A wait ends with a wake-up, the timer, or the caller's context; the manager is
  then in the state it has at that moment. A wake list that runs out is a wait that has not ended.
\<close>

datatype wait_end = Woken manager | TimerFired manager | ContextEnded

type_synonym read_outcome = "agent_fail + (runtime_panic + read_result)"

definition read_now :: "string \<Rightarrow> int \<Rightarrow> int \<Rightarrow> manager \<Rightarrow> read_outcome" where
  "read_now sid after lim m = (case ReadOutput sid after lim m of Inl e \<Rightarrow> Inl (AgManager e) | Inr r \<Rightarrow> Inr r)"

definition read_final :: "read_outcome \<Rightarrow> bool" where
  "read_final r = (case r of Inr (Inr res) \<Rightarrow> rr_Data res \<noteq> [] | _ \<Rightarrow> True)"

definition session_ended :: "string \<Rightarrow> manager \<Rightarrow> bool" where
  "session_ended sid m =
     (case GetSession sid m of
        None \<Rightarrow> True
      | Some s \<Rightarrow> s_Status s = StatusClosed \<or> s_Status s = StatusError)"

fun poll_loop :: "string \<Rightarrow> int \<Rightarrow> int \<Rightarrow> wait_end list \<Rightarrow> manager \<Rightarrow> read_outcome option" where
  "poll_loop sid after lim waits m =
     (let r = read_now sid after lim m in
      if read_final r then Some r
      else if session_ended sid m then Some r
      else case waits of
             [] \<Rightarrow> None
           | Woken m' # waits \<Rightarrow> poll_loop sid after lim waits m'
           | TimerFired m' # _ \<Rightarrow> Some (read_now sid after lim m')
           | ContextEnded # _ \<Rightarrow> Some (Inl AgContext))"

declare poll_loop.simps [simp del]

text \<open>\<open>m'\<close> is the manager when the subscriptions are in place.\<close>

definition agent_ReadOutput ::
  "string \<Rightarrow> int \<Rightarrow> int \<Rightarrow> duration \<Rightarrow> manager \<Rightarrow> wait_end list \<Rightarrow> agent_session \<Rightarrow> manager \<Rightarrow> read_outcome option"
where
  "agent_ReadOutput sid after lim wait m' waits x m =
     (case assertOwned sid x m of
        Some e \<Rightarrow> Some (Inl e)
      | None \<Rightarrow>
          (let r = read_now sid after lim m in
           if wait \<le> 0 \<or> read_final r then Some r
           else if session_ended sid m then Some r
           else poll_loop sid after lim waits m'))"

definition agent_CloseSession ::
  "string \<Rightarrow> join \<Rightarrow> agent_session \<Rightarrow> manager \<Rightarrow> agent_fail option \<times> manager"
where
  "agent_CloseSession sid j x m =
     (case assertOwned sid x m of
        Some e \<Rightarrow> (Some e, m)
      | None \<Rightarrow> (None, Close sid CloseClientMCP j m))"

section \<open>What a client relies on in the registry\<close>

text \<open>
  The operations on a registered session, and the promise that each of them touches that session
  only. The agent sessions here and the browser hub are clients of this contract.
\<close>

datatype reg_op = RegInput time bool string string | RegClose string close_reason join | RegResize bool string int int

fun reg_sid :: "reg_op \<Rightarrow> string" where
  "reg_sid (RegInput now ok sid data) = sid"
| "reg_sid (RegClose sid r j) = sid"
| "reg_sid (RegResize ok sid c r) = sid"

locale session_registry =
  fixes get :: "string \<Rightarrow> 'm \<Rightarrow> 'v option"
    and apply_op :: "reg_op \<Rightarrow> 'm \<Rightarrow> 'm"
    and good :: "'m \<Rightarrow> bool"
  assumes op_local: "good m \<Longrightarrow> sid \<noteq> reg_sid op \<Longrightarrow> get sid (apply_op op m) = get sid m"
    and op_good: "good m \<Longrightarrow> good (apply_op op m)"
begin

lemma ops_good: "good m \<Longrightarrow> good (fold apply_op ops m)"
  by (induction ops arbitrary: m) (simp_all add: op_good)

lemma ops_local: "good m \<Longrightarrow> sid \<notin> reg_sid ` set ops \<Longrightarrow> get sid (fold apply_op ops m) = get sid m"
  by (induction ops arbitrary: m) (simp_all add: op_local op_good)

end

fun reg_apply :: "reg_op \<Rightarrow> manager \<Rightarrow> manager" where
  "reg_apply (RegInput now ok sid data) m = snd (SendInput now ok sid data m)"
| "reg_apply (RegClose sid r j) m = Close sid r j m"
| "reg_apply (RegResize ok sid c r) m = snd (Resize ok sid c r m)"

lemma distinct_sids:
  assumes "mgr_inv m" "map_of (m_terminals m) sid = Some a" "map_of (m_terminals m) sid' = Some a"
  shows "sid = sid'"
  using mgr_wf_lookup [OF mgr_inv_wf(1) [OF assms(1)] assms(2)] mgr_wf_lookup [OF mgr_inv_wf(1) [OF assms(1)] assms(3)]
  by simp

lemma touch_terminals [simp]: "m_terminals (touch now a m) = m_terminals m"
  by (simp add: touch_def)

text \<open>The whole managed object of a session: its record, transport and retained output.\<close>

definition managed_of :: "string \<Rightarrow> manager \<Rightarrow> managed option" where
  "managed_of sid m = map_option (obj m) (map_of (m_terminals m) sid)"

lemma GetSession_managed: "GetSession sid m = map_option mg_session (managed_of sid m)"
  by (simp add: GetSession_def managed_of_def option.map_comp comp_def)

lemma SendInput_local:
  assumes "mgr_inv m" "sid' \<noteq> sid"
  shows "managed_of sid' (snd (SendInput now ok sid data m)) = managed_of sid' m"
proof (cases "map_of (m_terminals m) sid")
  case None
  then show ?thesis by (simp add: SendInput_def)
next
  case (Some a)
  have "\<And>b. map_of (m_terminals m) sid' = Some b \<Longrightarrow> b \<noteq> a" using distinct_sids [OF assms(1) Some] assms(2) by blast
  with Some show ?thesis
    by (cases "map_of (m_terminals m) sid'") (auto simp: SendInput_def managed_of_def touch_def Let_def split: option.split)
qed

lemma Close_local:
  assumes "mgr_inv m" "sid' \<noteq> sid"
  shows "managed_of sid' (Close sid r j m) = managed_of sid' m"
proof -
  have "map_of (m_terminals m) sid' = Some b \<Longrightarrow> obj (Close sid r j m) b = obj m b" for b
    using distinct_sids [OF assms(1)] assms(2) by (intro Close_other) blast
  then show ?thesis
    by (cases "map_of (m_terminals m) sid'") (simp_all add: managed_of_def Close_get_other [OF assms(2)])
qed

lemma Resize_local: "managed_of sid' (snd (Resize ok sid c r m)) = managed_of sid' m"
  by (simp add: Resize_def managed_of_def split: option.split)

lemma SendInput_inv: "mgr_inv m \<Longrightarrow> mgr_inv (snd (SendInput now ok sid data m))"
  by (auto simp: SendInput_def Let_def intro!: mgr_inv_touch mgr_inv_emit split: option.split)

lemma Resize_inv: "mgr_inv m \<Longrightarrow> mgr_inv (snd (Resize ok sid c r m))"
  by (auto simp: Resize_def intro!: mgr_inv_emit split: option.split)

lemma Close_inv: "mgr_inv m \<Longrightarrow> mgr_inv (Close sid r j m)"
  using Close_steps mgr_inv_wf(1) mgr_steps_inv by blast

interpretation sr: session_registry managed_of reg_apply mgr_inv
proof
  fix m sid op
  assume "mgr_inv m" "sid \<noteq> reg_sid op"
  then show "managed_of sid (reg_apply op m) = managed_of sid m"
    by (cases op) (simp_all add: SendInput_local Close_local Resize_local)
next
  fix m op
  assume "mgr_inv m"
  then show "mgr_inv (reg_apply op m)" by (cases op) (simp_all add: SendInput_inv Close_inv Resize_inv)
qed

text \<open>Creating a session appends at most one registry entry and leaves every other object alone.\<close>

lemma Create_shape:
  assumes "map_of (m_terminals m) sid = None" and m': "m' = snd (Create sid now ep acc tr outcome (\<lambda>m. m) m)"
  shows "(m_terminals m' = m_terminals m
      \<or> m_terminals m' = m_terminals m @ [(sid, length (m_heap m))]
        \<and> (\<exists>s. fst (Create sid now ep acc tr outcome (\<lambda>m. m) m) = Inr s))
    \<and> (\<forall>b < length (m_heap m). obj m' b = obj m b)"
proof (cases "Create_begin sid now ep acc tr m")
  case (Inl e)
  with m' show ?thesis by (simp add: Create_def)
next
  case (Inr am)
  obtain a m1 where am: "am = (a, m1)" by (cases am)
  have a: "a = length (m_heap m)" and ts: "m_terminals m1 = m_terminals m @ [(sid, a)]"
    and objs: "\<forall>b < length (m_heap m). obj m1 b = obj m b"
    using Inr am assms(1)
    by (auto simp: Create_begin_def register_def new_session_def Let_def nth_append gm_update_fresh split: if_splits)
  obtain ab m2 where ad: "adopt a outcome m1 = (ab, m2)" by (meson surj_pair)
  have m2: "m_terminals m2 = m_terminals m1" "\<forall>b. b \<noteq> a \<longrightarrow> obj m2 b = obj m1 b"
    using ad adopt_fields(1) [of a outcome m1]
    by (auto simp: adopt_def Let_def simp del: adopt_fields split: sum.splits if_splits)
  have del: "AList.delete sid (m_terminals m @ [(sid, a)]) = m_terminals m"
    using assms(1) by (rule gm_delete_last)
  show ?thesis
    using Inr am ad m' m2 ts objs a del assms(1)
    by (auto simp: Create_def Create_finish_def Let_def obj_removeEntry_other map_add_def split: sum.splits if_splits)
qed

section \<open>Histories of one agent\<close>

datatype agent_op =
    AgSend time bool string "string list"
  | AgClose string join
  | AgCreate bool "demo option" sw_db string time "string + transport" string string

fun agent_step :: "(string \<Rightarrow> byte list) \<Rightarrow> agent_session \<Rightarrow> agent_op \<Rightarrow> manager \<Rightarrow> manager" where
  "agent_step sha256 x (AgSend now ok sid keys) m = snd (agent_SendKeys now ok sid keys x m)"
| "agent_step sha256 x (AgClose sid j) m = snd (agent_CloseSession sid j x m)"
| "agent_step sha256 x (AgCreate flt dm db sid now outcome eid reason) m =
     snd (agent_CreateSession sha256 flt dm db (\<lambda>m. m) sid now outcome (\<lambda>m. m) eid reason x m)"

fun mints :: "agent_op \<Rightarrow> string list" where
  "mints (AgCreate flt dm db sid now outcome eid reason) = [sid]"
| "mints _ = []"

text \<open>Fresh ids: every id the manager mints is new to the registry.\<close>

fun fresh_ids :: "(string \<Rightarrow> byte list) \<Rightarrow> agent_session \<Rightarrow> agent_op list \<Rightarrow> manager \<Rightarrow> bool" where
  "fresh_ids sha256 x [] m = True"
| "fresh_ids sha256 x (op # ops) m =
     ((\<forall>sid \<in> set (mints op). map_of (m_terminals m) sid = None) \<and> fresh_ids sha256 x ops (agent_step sha256 x op m))"

lemma agent_touches_own:
  assumes "mints op = []"
  shows "agent_step sha256 x op m = m \<or> (\<exists>rop. agent_step sha256 x op m = reg_apply rop m \<and> Owns (reg_sid rop) x m)"
proof (cases op)
  case (AgSend now ok sid keys)
  show ?thesis
  proof (cases "Owns sid x m \<and> (\<exists>d. ResolveKeys keys = Inr d)")
    case True
    then obtain d where d: "ResolveKeys keys = Inr d" by blast
    have "snd (agent_SendKeys now ok sid keys x m) = snd (SendInput now ok sid d m)"
      using True d by (simp add: agent_SendKeys_def assertOwned_def split: prod.split sum.split)
    with AgSend True show ?thesis by (intro disjI2 exI [of _ "RegInput now ok sid d"]) simp
  next
    case False
    with AgSend show ?thesis by (auto simp: agent_SendKeys_def assertOwned_def split: sum.split)
  qed
next
  case (AgClose sid j)
  then show ?thesis
    by (cases "Owns sid x m") (auto simp: agent_CloseSession_def assertOwned_def intro!: exI [of _ "RegClose sid CloseClientMCP j"])
next
  case AgCreate
  with assms show ?thesis by simp
qed

lemma agent_create_cases:
  obtains (refused) "agent_step sha256 x (AgCreate flt dm db sid now outcome eid reason) m = m"
  | (created) ep where "owned_live x m < ax_maxOwned x"
      "RefForAccount sha256 flt eid (ax_accountID x) dm db = Inr (Some ep)"
      "agent_step sha256 x (AgCreate flt dm db sid now outcome eid reason) m =
        snd (Create sid now ep (ax_accountID x) (agent_trigger x reason) outcome (\<lambda>m. m) m)"
proof (cases "\<exists>ep. RefForAccount sha256 flt eid (ax_accountID x) dm db = Inr (Some ep) \<and> owned_live x m < ax_maxOwned x")
  case True
  then obtain ep where "RefForAccount sha256 flt eid (ax_accountID x) dm db = Inr (Some ep)"
    "owned_live x m < ax_maxOwned x" by blast
  moreover from this have "agent_step sha256 x (AgCreate flt dm db sid now outcome eid reason) m =
      snd (Create sid now ep (ax_accountID x) (agent_trigger x reason) outcome (\<lambda>m. m) m)"
    by (simp add: agent_CreateSession_def split: prod.split sum.split)
  ultimately show ?thesis using created by blast
next
  case False
  then have "agent_step sha256 x (AgCreate flt dm db sid now outcome eid reason) m = m"
    by (auto simp: agent_CreateSession_def split: sum.split option.split)
  then show ?thesis by (rule refused)
qed

lemma agent_step_inv: "mgr_inv m \<Longrightarrow> mgr_inv (agent_step sha256 x op m)"
proof (cases "mints op = []")
  case True
  assume "mgr_inv m"
  with agent_touches_own [OF True, of sha256 x m] sr.op_good show ?thesis by auto
next
  case False
  assume inv: "mgr_inv m"
  from False obtain flt dm db sid now outcome eid reason where op: "op = AgCreate flt dm db sid now outcome eid reason"
    by (cases op) auto
  show ?thesis
    by (cases rule: agent_create_cases [of sha256 x flt dm db sid now outcome eid reason m])
       (use inv op mgr_steps_inv [OF Create_steps inv] in auto)
qed

lemma agent_step_foreign:
  assumes "mgr_inv m" "managed_of sid m = Some mg" "\<not> ownsSession x (Some (mg_session mg))"
    and "\<forall>i \<in> set (mints op). map_of (m_terminals m) i = None"
  shows "managed_of sid (agent_step sha256 x op m) = Some mg"
proof (cases "mints op = []")
  case True
  have "\<not> Owns sid x m" using assms(2,3) by (simp add: Owns_def GetSession_managed)
  with agent_touches_own [OF True, of sha256 x m] sr.op_local [OF assms(1)] assms(2) show ?thesis by metis
next
  case False
  then obtain flt dm db i now outcome eid reason where op: "op = AgCreate flt dm db i now outcome eid reason"
    by (cases op) auto
  obtain b where b: "map_of (m_terminals m) sid = Some b" "obj m b = mg" using assms(2) by (auto simp: managed_of_def)
  then have "b < length (m_heap m)" using mgr_wf_lookup [OF mgr_inv_wf(1) [OF assms(1)]] by blast
  show ?thesis
  proof (cases rule: agent_create_cases [of sha256 x flt dm db i now outcome eid reason m])
    case refused
    with op assms(2) show ?thesis by simp
  next
    case (created ep)
    from assms(4) op have "map_of (m_terminals m) i = None" by simp
    from Create_shape [OF this created(3) [folded op]] b \<open>b < length (m_heap m)\<close> show ?thesis
      by (auto simp: managed_of_def map_add_def)
  qed
qed

lemma agent_run_foreign:
  assumes "mgr_inv m" "managed_of sid m = Some mg" "\<not> ownsSession x (Some (mg_session mg))" "fresh_ids sha256 x ops m"
  shows "mgr_inv (fold (agent_step sha256 x) ops m) \<and> managed_of sid (fold (agent_step sha256 x) ops m) = Some mg"
  using assms(1,2,4)
proof (induction ops arbitrary: m)
  case (Cons op ops)
  have "managed_of sid (agent_step sha256 x op m) = Some mg"
    by (rule agent_step_foreign [OF Cons.prems(1,2) assms(3)]) (use Cons.prems(3) in simp)
  with Cons show ?case by (simp add: agent_step_inv)
qed simp

section \<open>Properties\<close>

text \<open>
  Agents are isolated. Whatever sequence of keys, closes and session creations an agent issues,
  a session it does not own (another client's, another account's, or one opened in the browser)
  keeps its record, transport and output exactly, is never listed to the agent, and every attempt to
  read, type into or close it is answered as if it did not exist.
\<close>

theorem agent_isolation:
  assumes "mgr_reachable m" "managed_of sid m = Some mg" "\<not> ownsSession x (Some (mg_session mg))"
    and "fresh_ids sha256 x ops m" and m': "m' = fold (agent_step sha256 x) ops m"
  shows "managed_of sid m' = Some mg \<and> mg_session mg \<notin> set (agent_ListSessions x m')
    \<and> agent_ReadOutput sid after lim wait m'' waits x m' = Some (Inl (AgNotFound sid))
    \<and> agent_SendKeys now ok sid keys x m' = (Inl (AgNotFound sid), m')
    \<and> agent_CloseSession sid j x m' = (Some (AgNotFound sid), m')"
proof -
  have kept: "managed_of sid m' = Some mg"
    using agent_run_foreign [OF mgr_inv_reachable [OF assms(1)] assms(2-4)] m' by simp
  then have "assertOwned sid x m' = Some (AgNotFound sid)"
    using assms(3) by (simp add: assertOwned_def Owns_def GetSession_managed)
  with kept assms(3) show ?thesis
    by (simp add: agent_ListSessions_def agent_ReadOutput_def agent_SendKeys_def agent_CloseSession_def)
qed

definition ex_agent2 :: agent_session where
  "ex_agent2 = agent_New ''acc1'' ''c2'' [] (- 1)"

theorem agent_isolation_witness:
  "managed_of ''s1'' (fold (agent_step (\<lambda>_. []) ex_agent2) [AgClose ''s1'' TimedOut, AgSend 5 True ''s1'' [''Enter'']] ex_open)
     = managed_of ''s1'' ex_open
   \<and> managed_of ''s1'' ex_open \<noteq> None"
proof -
  obtain mg where mg: "managed_of ''s1'' ex_open = Some mg" "s_OwnerClientID (mg_session mg) = ''c1''"
    by (simp add: managed_of_def mgr_eval)
  have "fresh_ids (\<lambda>_. []) ex_agent2 [AgClose ''s1'' TimedOut, AgSend 5 True ''s1'' [''Enter'']] ex_open" by simp
  from agent_isolation [OF ex_open_reachable mg(1) _ this refl] mg show ?thesis
    by (simp add: ownsSession_def ex_agent2_def agent_New_def)
qed

text \<open>Creation moves the count of live owned sessions by at most one.\<close>

lemma owned_live_Create:
  assumes "mgr_inv m" "map_of (m_terminals m) sid = None"
  shows "owned_live x (snd (Create sid now ep acc tr outcome (\<lambda>m. m) m)) \<le> owned_live x m + 1"
proof -
  let ?m = "snd (Create sid now ep acc tr outcome (\<lambda>m. m) m)"
  have old: "map (\<lambda>e. sess ?m (snd e)) (m_terminals m) = map (\<lambda>e. sess m (snd e)) (m_terminals m)"
  proof (rule map_cong [OF refl])
    fix e
    assume "e \<in> set (m_terminals m)"
    then have "map_of (m_terminals m) (fst e) = Some (snd e)" using mgr_inv_wf(2) [OF assms(1)] by simp
    then have "snd e < length (m_heap m)" using mgr_wf_lookup [OF mgr_inv_wf(1) [OF assms(1)]] by blast
    with Create_shape [OF assms(2) refl, of now ep acc tr outcome] show "sess ?m (snd e) = sess m (snd e)" by simp
  qed
  from Create_shape [OF assms(2) refl, of now ep acc tr outcome]
  consider "m_terminals ?m = m_terminals m" | "m_terminals ?m = m_terminals m @ [(sid, length (m_heap m))]" by blast
  then show ?thesis by cases (simp_all add: owned_live_def ListSessions_def list_sessions_def old)
qed

text \<open>
  The session cap. As long as an agent's creations do not interleave, it never has more live
  sessions than its cap allows: from a state within the cap every creation leaves it within the cap,
  and at the cap a creation is refused with nothing changed. A cap of zero refuses every creation.
\<close>

theorem agent_cap:
  assumes "mgr_reachable m" "owned_live x m \<le> ax_maxOwned x" "map_of (m_terminals m) sid = None"
    and run: "agent_CreateSession sha256 flt dm db (\<lambda>m. m) sid now outcome (\<lambda>m. m) eid reason x m = (r, m')"
  shows "owned_live x m' \<le> ax_maxOwned x \<and> (owned_live x m = ax_maxOwned x \<longrightarrow> m' = m \<and> (\<exists>e. r = Inl e))"
proof -
  have m': "m' = agent_step sha256 x (AgCreate flt dm db sid now outcome eid reason) m" using run by simp
  have "owned_live x m' \<le> ax_maxOwned x"
  proof (cases rule: agent_create_cases [of sha256 x flt dm db sid now outcome eid reason m])
    case refused
    with m' assms(2) show ?thesis by simp
  next
    case (created ep)
    have "owned_live x m' \<le> owned_live x m + 1"
      unfolding m' created(3) by (rule owned_live_Create [OF mgr_inv_reachable [OF assms(1)] assms(3)])
    with created(1) show ?thesis by simp
  qed
  moreover have "m' = m \<and> (\<exists>e. r = Inl e)" if "owned_live x m = ax_maxOwned x"
    using run that by (auto simp: agent_CreateSession_def split: sum.splits option.splits)
  ultimately show ?thesis by blast
qed

definition ex_agent_db :: sw_db where
  "ex_agent_db = ep_run [EpCreate False ''t0'' ex_row_ep] \<lparr>db_accounts = [(''acc'', 1)], db_endpoints = []\<rparr>"

definition ex_agent1 :: agent_session where
  "ex_agent1 = agent_New ''acc'' ''c1'' [] 1"

definition ex_agent_create :: "string \<Rightarrow> (manager \<Rightarrow> manager) \<Rightarrow> manager \<Rightarrow> (agent_fail + session) \<times> manager" where
  "ex_agent_create sid between m =
     agent_CreateSession (\<lambda>_. []) False None ex_agent_db between sid 0 (Inr 7) (\<lambda>m. m) ''e1'' ''r'' ex_agent1 m"

theorem agent_cap_witness:
  "owned_live ex_agent1 (snd (ex_agent_create ''s1'' (\<lambda>m. m) (NewManager 0))) \<le> 1
   \<and> owned_live ex_agent1 (NewManager 0) = 0"
proof -
  obtain r m' where run: "ex_agent_create ''s1'' (\<lambda>m. m) (NewManager 0) = (r, m')" by (meson surj_pair)
  have start: "owned_live ex_agent1 (NewManager 0) = 0" "map_of (m_terminals (NewManager 0)) ''s1'' = None"
    by (simp_all add: owned_live_def ListSessions_def list_sessions_def NewManager_def)
  have "owned_live ex_agent1 m' \<le> ax_maxOwned ex_agent1"
    using agent_cap [OF mgr_reachable.start _ start(2) run [unfolded ex_agent_create_def]] start(1)
    by (simp add: ex_agent1_def agent_New_def)
  with run start show ?thesis by (simp add: ex_agent1_def agent_New_def)
qed

text \<open>
  The count and the registration are separate critical sections: two creations of one client whose
  counts both run before either registers exceed the cap.
\<close>

theorem agent_cap_interleaved:
  "owned_live ex_agent1 (snd (ex_agent_create ''s2'' (snd \<circ> ex_agent_create ''s1'' (\<lambda>m. m)) (NewManager 0))) = 2
   \<and> ax_maxOwned ex_agent1 = 1"
  by code_simp

end
