(* ===== verification/Ws_Hub.thy ===== *)
theory Ws_Hub
  imports Agent_Session
begin

text \<open>
  \<open>src/internal/ws\<close>: the browser hub. A connection keeps its attachment, control and offset maps and
  a bounded queue of outgoing frames (\<open>conn.go\<close>); the hub owns the connections and reacts to the
  manager's hooks (\<open>hub.go\<close>); client messages are routed by \<open>router.go\<close>.

  Every operation that holds \<open>flushMu\<close> or \<open>mu\<close> for its whole body is one function of the connection;
  a routed message is the sequence of such functions, and the manager each of them reads is an
  argument, since others change it in between. \<open>cn_sent\<close> holds the frames the writer has passed to
  the socket, so \<open>cn_sent @ cn_out\<close> is everything ever queued, in order. A frame is kept as the value
  from which the code marshals it (\<open>frame_json\<close>).
\<close>

section \<open>Frames\<close>

record list_entry =
  le_SessionID :: string
  le_EndpointID :: string
  le_Status :: status
  le_CreatedAt :: time
  le_Source :: source
  le_Mode :: string

datatype frame =
    FStatus string status
  | FMode string string
  | FOutput string "byte list" int bool
  | FClosed string
  | FError string
  | FSessions "list_entry list"
  | FPayload json

definition sess_status_str :: "status \<Rightarrow> string" where
  "sess_status_str st = (case st of StatusOpening \<Rightarrow> ''opening'' | StatusOpen \<Rightarrow> ''open'' | StatusClosing \<Rightarrow> ''closing''
     | StatusClosed \<Rightarrow> ''closed'' | StatusError \<Rightarrow> ''error'')"

definition source_str :: "source \<Rightarrow> string" where
  "source_str s = (case s of SourceUI \<Rightarrow> ''ui'' | SourceMCP \<Rightarrow> ''mcp'' | SourceSSH \<Rightarrow> ''ssh'')"

text \<open>\<open>fmt\<close> formats an instant, \<open>text\<close> converts output bytes to a JSON string.\<close>

fun frame_json :: "(time \<Rightarrow> string) \<Rightarrow> (byte list \<Rightarrow> string) \<Rightarrow> frame \<Rightarrow> json" where
  "frame_json fmt txt (FStatus sid st) =
     JObj [(''type'', JStr ''terminal:status''), (''sessionId'', JStr sid), (''status'', JStr (sess_status_str st))]"
| "frame_json fmt txt (FMode sid mode) =
     JObj [(''type'', JStr ''terminal:mode''), (''sessionId'', JStr sid), (''mode'', JStr mode)]"
| "frame_json fmt txt (FOutput sid d off reset) =
     JObj ([(''type'', JStr ''terminal:output''), (''sessionId'', JStr sid), (''data'', JStr (txt d)), (''offset'', JNum off)]
       @ (if reset then [(''reset'', JBool True)] else []))"
| "frame_json fmt txt (FClosed sid) = JObj [(''type'', JStr ''terminal:closed''), (''sessionId'', JStr sid)]"
| "frame_json fmt txt (FError msg) = JObj [(''type'', JStr ''error''), (''message'', JStr msg)]"
| "frame_json fmt txt (FSessions es) =
     JObj [(''type'', JStr ''sessions:changed''), (''sessions'', JArr (map (\<lambda>e.
       JObj [(''sessionId'', JStr (le_SessionID e)), (''endpointId'', JStr (le_EndpointID e)),
             (''status'', JStr (sess_status_str (le_Status e))), (''createdAt'', JStr (fmt (le_CreatedAt e))),
             (''source'', JStr (source_str (le_Source e))), (''mode'', JStr (le_Mode e))]) es))]"
| "frame_json fmt txt (FPayload j) = j"

section \<open>Connections\<close>

record conn =
  cn_accountID :: string
  cn_attached :: "(string, bool) gomap"
  cn_controlled :: "(string, bool) gomap"
  cn_lastOffset :: "(string, int) gomap"
  cn_out :: "frame list"
  cn_closed :: bool
  cn_sent :: "frame list"
  cn_closes :: "int list"

definition out_cap :: nat where
  "out_cap = 256"

definition newConn :: "string \<Rightarrow> conn" where
  "newConn accountID =
     \<lparr>cn_accountID = accountID, cn_attached = [], cn_controlled = [], cn_lastOffset = [], cn_out = [],
      cn_closed = False, cn_sent = [], cn_closes = []\<rparr>"

text \<open>One iteration of the writer: the next queued frame goes to the socket.\<close>

definition writer_step :: "conn \<Rightarrow> conn" where
  "writer_step c = (case cn_out c of [] \<Rightarrow> c | f # fs \<Rightarrow> c\<lparr>cn_out := fs, cn_sent := cn_sent c @ [f]\<rparr>)"

definition enqueueLocked :: "frame \<Rightarrow> conn \<Rightarrow> bool \<times> conn" where
  "enqueueLocked f c =
     (if cn_closed c then (True, c)
      else if length (cn_out c) < out_cap then (True, c\<lparr>cn_out := cn_out c @ [f]\<rparr>)
      else (False, c\<lparr>cn_closed := True\<rparr>))"

text \<open>1008 is the policy-violation status of an overflow, 1000 the normal closure.\<close>

definition ws_close :: "int \<Rightarrow> conn \<Rightarrow> conn" where
  "ws_close code c = c\<lparr>cn_closes := cn_closes c @ [code]\<rparr>"

definition enqueue :: "frame \<Rightarrow> conn \<Rightarrow> conn" where
  "enqueue f c = (let (ok, c) = enqueueLocked f c in if \<not> ok then ws_close 1008 c else c)"

definition sendError :: "string \<Rightarrow> conn \<Rightarrow> conn" where
  "sendError msg c = enqueue (FError msg) c"

definition conn_close :: "conn \<Rightarrow> conn" where
  "conn_close c = ws_close 1000 (if \<not> cn_closed c then c\<lparr>cn_closed := True\<rparr> else c)"

definition flag :: "(string, bool) gomap \<Rightarrow> string \<Rightarrow> bool" where
  "flag m sid = (case map_of m sid of None \<Rightarrow> False | Some b \<Rightarrow> b)"

definition isAttached :: "string \<Rightarrow> conn \<Rightarrow> bool" where
  "isAttached sid c = flag (cn_attached c) sid"

definition hasControl :: "string \<Rightarrow> conn \<Rightarrow> bool" where
  "hasControl sid c = flag (cn_controlled c) sid"

fun enqueue_frames :: "frame list \<Rightarrow> conn \<Rightarrow> bool \<times> conn" where
  "enqueue_frames [] c = (True, c)"
| "enqueue_frames (f # fs) c =
     (let (ok, c) = enqueueLocked f c in if ok then enqueue_frames fs c else (False, c))"

definition attachWithCatchUp :: "string \<Rightarrow> bool \<Rightarrow> int \<Rightarrow> frame list \<Rightarrow> conn \<Rightarrow> conn" where
  "attachWithCatchUp sid control offset frames c =
     (let c = c\<lparr>cn_attached := AList.update sid True (cn_attached c),
                cn_controlled := (if control then AList.update sid True (cn_controlled c) else cn_controlled c),
                cn_lastOffset := AList.update sid offset (cn_lastOffset c)\<rparr>;
          (ok, c) = enqueue_frames frames c
      in if \<not> ok then ws_close 1008 c else c)"

definition detachLocked :: "string \<Rightarrow> conn \<Rightarrow> bool \<times> conn" where
  "detachLocked sid c =
     (isAttached sid c,
      c\<lparr>cn_attached := AList.delete sid (cn_attached c), cn_controlled := AList.delete sid (cn_controlled c),
        cn_lastOffset := AList.delete sid (cn_lastOffset c)\<rparr>)"

definition conn_detach :: "string \<Rightarrow> conn \<Rightarrow> conn" where
  "conn_detach sid c = snd (detachLocked sid c)"

definition conn_takeControl :: "string \<Rightarrow> conn \<Rightarrow> conn" where
  "conn_takeControl sid c = c\<lparr>cn_controlled := AList.update sid True (cn_controlled c)\<rparr>"

definition conn_releaseControl :: "string \<Rightarrow> conn \<Rightarrow> conn" where
  "conn_releaseControl sid c = c\<lparr>cn_controlled := AList.delete sid (cn_controlled c)\<rparr>"

definition last_offset :: "string \<Rightarrow> conn \<Rightarrow> int" where
  "last_offset sid c = (case map_of (cn_lastOffset c) sid of None \<Rightarrow> 0 | Some off \<Rightarrow> off)"

definition flushLocked :: "manager \<Rightarrow> string \<Rightarrow> conn \<Rightarrow> conn" where
  "flushLocked m sid c =
     (if \<not> isAttached sid c then c
      else case ReadOutputFrom sid (Some (last_offset sid c)) m of
             Inl _ \<Rightarrow> c
           | Inr res \<Rightarrow>
               if fr_Data res = [] \<and> \<not> fr_Reset res then c
               else enqueue (FOutput sid (fr_Data res) (fr_Offset res) (fr_Reset res))
                      (c\<lparr>cn_lastOffset := AList.update sid (fr_Offset res) (cn_lastOffset c)\<rparr>))"

definition flushOutput :: "manager \<Rightarrow> string \<Rightarrow> conn \<Rightarrow> conn" where
  "flushOutput m sid c = flushLocked m sid c"

definition conn_closeSession :: "manager \<Rightarrow> string \<Rightarrow> conn \<Rightarrow> conn" where
  "conn_closeSession m sid c =
     (let (attached, c) = detachLocked sid (flushLocked m sid c)
      in if attached then enqueue (FClosed sid) c else c)"

section \<open>The hub\<close>

text \<open>Connections are identified by address.\<close>

type_synonym hub = "(nat, conn) gomap"

definition hub_add :: "nat \<Rightarrow> conn \<Rightarrow> hub \<Rightarrow> hub" where
  "hub_add i c h = AList.update i c h"

definition hub_remove :: "nat \<Rightarrow> hub \<Rightarrow> hub" where
  "hub_remove i h = AList.delete i h"

definition on_conns :: "(conn \<Rightarrow> conn) \<Rightarrow> hub \<Rightarrow> hub" where
  "on_conns f h = map (\<lambda>(i, c). (i, f c)) h"

definition onRemoved :: "manager \<Rightarrow> string \<Rightarrow> hub \<Rightarrow> hub" where
  "onRemoved m sid = on_conns (\<lambda>c. if isAttached sid c then conn_closeSession m sid c else c)"

definition SendToAccount :: "string \<Rightarrow> json \<Rightarrow> hub \<Rightarrow> hub" where
  "SendToAccount accountID msg = on_conns (\<lambda>c. if cn_accountID c = accountID then enqueue (FPayload msg) c else c)"

definition sessionList :: "manager \<Rightarrow> conn \<Rightarrow> frame" where
  "sessionList m c =
     FSessions (map (\<lambda>s. \<lparr>le_SessionID = s_SessionID s, le_EndpointID = s_EndpointID s, le_Status = s_Status s,
         le_CreatedAt = s_CreatedAt s, le_Source = s_Source s,
         le_Mode = (if hasControl (s_SessionID s) c then ''control'' else ''observer'')\<rparr>)
       (ListForAccount (cn_accountID c) m))"

definition onStatusChange :: "manager \<Rightarrow> status_event \<Rightarrow> hub \<Rightarrow> hub" where
  "onStatusChange m ev = on_conns (\<lambda>c.
     let c = (if ev_Status ev = StatusClosed \<or> ev_Status ev = StatusError
              then conn_closeSession m (ev_SessionID ev) c else c)
     in enqueue (sessionList m c) c)"

definition onOutput :: "manager \<Rightarrow> string \<Rightarrow> hub \<Rightarrow> hub" where
  "onOutput m sid = on_conns (\<lambda>c. if isAttached sid c then flushOutput m sid c else c)"

section \<open>Routing\<close>

record client_message =
  ms_Type :: string
  ms_SessionID :: string
  ms_Data :: string
  ms_Cols :: int
  ms_Rows :: int
  ms_AfterOffset :: "int option"

text \<open>\<open>decode\<close> is \<open>json.Unmarshal\<close> into the message type.\<close>

definition parseClientMessage :: "(byte list \<Rightarrow> client_message option) \<Rightarrow> byte list \<Rightarrow> client_message option" where
  "parseClientMessage decode raw =
     (case decode raw of None \<Rightarrow> None | Some m \<Rightarrow> if ms_Type m = [] then None else Some m)"

definition not_found :: "string \<Rightarrow> string" where
  "not_found sid = ''Session not found: '' @ sid"

definition attach_frames :: "string \<Rightarrow> session \<Rightarrow> string \<Rightarrow> from_result \<Rightarrow> frame list" where
  "attach_frames sid s mode b =
     [FStatus sid (s_Status s), FMode sid mode]
     @ (if fr_Data b \<noteq> [] \<or> fr_Reset b then [FOutput sid (fr_Data b) (fr_Offset b) (fr_Reset b)] else [])"

text \<open>\<open>env\<close> is what others do to the manager between two of the critical sections of an attach.\<close>

definition hub_attach :: "(manager \<Rightarrow> manager) \<Rightarrow> client_message \<Rightarrow> conn \<Rightarrow> manager \<Rightarrow> conn \<times> manager" where
  "hub_attach env msg c m =
     (let sid = ms_SessionID msg in
      case GetSession sid m of
        None \<Rightarrow> (sendError (not_found sid) c, m)
      | Some s \<Rightarrow>
          if s_AccountID s \<noteq> cn_accountID c then (sendError (not_found sid) c, m)
          else let control = s_Source s = SourceUI;
                   mode = (if control \<or> hasControl sid c then ''control'' else ''observer'');
                   m = env m
               in (case ReadOutputFrom sid (ms_AfterOffset msg) m of
                     Inl _ \<Rightarrow> (sendError (not_found sid) c, m)
                   | Inr b \<Rightarrow>
                       let c = attachWithCatchUp sid control (fr_Offset b) (attach_frames sid s mode b) c;
                           m = env m; c = flushOutput m sid c;
                           m = env m
                       in if GetSession sid m = None then let m = env m in (conn_closeSession m sid c, m)
                          else (c, m)))"

definition reason_str :: "close_reason \<Rightarrow> string" where
  "reason_str r = (case r of NoReason \<Rightarrow> [] | CloseClientUI \<Rightarrow> ''client.ui'' | CloseClientMCP \<Rightarrow> ''client.mcp''
     | CloseClientWS \<Rightarrow> ''client.ws'' | CloseAgentDisconnect \<Rightarrow> ''agent-disconnect'' | CloseIdleTimeout \<Rightarrow> ''idle-timeout''
     | CloseAccountDeleted \<Rightarrow> ''account-deleted'' | CloseServerHangup \<Rightarrow> ''server-hangup''
     | CloseTransportError \<Rightarrow> ''transport-error'' | CloseShutdown \<Rightarrow> ''shutdown'')"

text \<open>\<open>io\<close> is the text of an error of the transport.\<close>

definition mgr_error_str :: "string \<Rightarrow> mgr_error \<Rightarrow> string" where
  "mgr_error_str io e = (case e of
       UnknownEndpoint eid \<Rightarrow> ''unknown endpoint: '' @ eid
     | ShuttingDown \<Rightarrow> ''server is shutting down''
     | ConnectFailed eid err \<Rightarrow> ''Failed to connect to '' @ eid @ '': '' @ err
     | ClosedDuringSetup r \<Rightarrow> ''session was closed during connection setup ('' @ reason_str r @ '')''
     | TerminalNotFound sid \<Rightarrow> ''terminal '' @ sid @ '' not found''
     | NotOpen sid st \<Rightarrow> ''terminal '' @ sid @ '' is not open (status: '' @ sess_status_str st @ '')''
     | _ \<Rightarrow> io)"

definition hub_input :: "string \<Rightarrow> time \<Rightarrow> bool \<Rightarrow> client_message \<Rightarrow> conn \<Rightarrow> manager \<Rightarrow> conn \<times> manager" where
  "hub_input io now writeOk msg c m =
     (let sid = ms_SessionID msg in
      if \<not> isAttached sid c then (sendError (''Session not attached: '' @ sid) c, m)
      else if \<not> hasControl sid c then (sendError ''Observer mode: take control first to send input'' c, m)
      else case SendInput now writeOk sid (ms_Data msg) m of
             (Inl e, m) \<Rightarrow> (sendError (mgr_error_str io e) c, m)
           | (Inr _, m) \<Rightarrow> (c, m))"

definition hub_resize :: "bool \<Rightarrow> client_message \<Rightarrow> conn \<Rightarrow> manager \<Rightarrow> conn \<times> manager" where
  "hub_resize resizeOk msg c m =
     (let sid = ms_SessionID msg in
      if \<not> isAttached sid c \<or> \<not> hasControl sid c then (c, m)
      else (c, snd (Resize resizeOk sid (ms_Cols msg) (ms_Rows msg) m)))"

definition hub_closeSession :: "join \<Rightarrow> client_message \<Rightarrow> conn \<Rightarrow> manager \<Rightarrow> conn \<times> manager" where
  "hub_closeSession j msg c m =
     (let sid = ms_SessionID msg in
      case GetSession sid m of
        None \<Rightarrow> (sendError (not_found sid) c, m)
      | Some s \<Rightarrow>
          if s_AccountID s \<noteq> cn_accountID c then (sendError (not_found sid) c, m)
          else (c, Close sid CloseClientWS j m))"

definition hub_takeControl :: "manager \<Rightarrow> client_message \<Rightarrow> conn \<Rightarrow> conn" where
  "hub_takeControl m msg c =
     (let sid = ms_SessionID msg in
      case GetSession sid m of
        None \<Rightarrow> sendError (not_found sid) c
      | Some s \<Rightarrow>
          if s_AccountID s \<noteq> cn_accountID c then sendError (not_found sid) c
          else enqueue (FMode sid ''control'') (conn_takeControl sid c))"

definition hub_releaseControl :: "client_message \<Rightarrow> conn \<Rightarrow> conn" where
  "hub_releaseControl msg c =
     (let sid = ms_SessionID msg in
      if \<not> isAttached sid c then c else enqueue (FMode sid ''observer'') (conn_releaseControl sid c))"

text \<open>A received message with what the environment does while it is handled.\<close>

record inbound =
  ib_raw :: "byte list"
  ib_now :: time
  ib_ok :: bool
  ib_io :: string
  ib_join :: join
  ib_env :: "manager \<Rightarrow> manager"

definition hub_route :: "inbound \<Rightarrow> client_message \<Rightarrow> conn \<Rightarrow> manager \<Rightarrow> conn \<times> manager" where
  "hub_route i msg c m =
     (if ms_Type msg = ''terminal:attach'' then hub_attach (ib_env i) msg c m
      else if ms_Type msg = ''terminal:detach'' then (conn_detach (ms_SessionID msg) c, m)
      else if ms_Type msg = ''terminal:input'' then hub_input (ib_io i) (ib_now i) (ib_ok i) msg c m
      else if ms_Type msg = ''terminal:resize'' then hub_resize (ib_ok i) msg c m
      else if ms_Type msg = ''terminal:close'' then hub_closeSession (ib_join i) msg c m
      else if ms_Type msg = ''terminal:take-control'' then (hub_takeControl m msg c, m)
      else if ms_Type msg = ''terminal:release-control'' then (hub_releaseControl msg c, m)
      else (c, m))"

text \<open>The loop of \<open>Serve\<close> over the messages of one connection; the end of the list is the failed read.\<close>

fun serve_loop :: "(byte list \<Rightarrow> client_message option) \<Rightarrow> inbound list \<Rightarrow> conn \<Rightarrow> manager \<Rightarrow> conn \<times> manager" where
  "serve_loop decode [] c m = (conn_close c, m)"
| "serve_loop decode (i # ins) c m =
     (case parseClientMessage decode (ib_raw i) of
        None \<Rightarrow> serve_loop decode ins (enqueue (FError ''Invalid message format'') c) m
      | Some msg \<Rightarrow> (case hub_route i msg c m of (c, m) \<Rightarrow> serve_loop decode ins c m))"

definition hub_Serve :: "(byte list \<Rightarrow> client_message option) \<Rightarrow> string \<Rightarrow> inbound list \<Rightarrow> manager \<Rightarrow> conn \<times> manager" where
  "hub_Serve decode accountID ins m =
     (let c = newConn accountID in serve_loop decode ins (enqueue (sessionList m c) c) m)"

section \<open>Connection histories\<close>

datatype conn_op =
    CAttach string bool int "frame list"
  | CDetach string
  | CFlush manager string
  | CClose manager string
  | CEnqueue frame
  | CTake string
  | CRelease string
  | CWriter
  | CEnd

fun conn_apply :: "conn_op \<Rightarrow> conn \<Rightarrow> conn" where
  "conn_apply (CAttach sid control off fs) c = attachWithCatchUp sid control off fs c"
| "conn_apply (CDetach sid) c = conn_detach sid c"
| "conn_apply (CFlush m sid) c = flushLocked m sid c"
| "conn_apply (CClose m sid) c = conn_closeSession m sid c"
| "conn_apply (CEnqueue f) c = enqueue f c"
| "conn_apply (CTake sid) c = conn_takeControl sid c"
| "conn_apply (CRelease sid) c = conn_releaseControl sid c"
| "conn_apply CWriter c = writer_step c"
| "conn_apply CEnd c = conn_close c"

text \<open>Frames that do not belong to a session's stream, and the shape of a catch-up.\<close>

fun aside :: "frame \<Rightarrow> bool" where
  "aside (FStatus sid st) = False"
| "aside (FOutput sid d off r) = False"
| "aside (FClosed sid) = False"
| "aside _ = True"

fun op_ok :: "conn_op \<Rightarrow> bool" where
  "op_ok (CAttach sid control off fs) = (\<exists>s mode b. fs = attach_frames sid s mode b)"
| "op_ok (CEnqueue f) = aside f"
| "op_ok _ = True"

text \<open>Every routed message is a history of such operations.\<close>

lemma route_is_history: "\<exists>ops. fst (hub_route i msg c m) = fold conn_apply ops c \<and> list_all op_ok ops"
proof -
  have err: "\<exists>ops. sendError t c = fold conn_apply ops c \<and> list_all op_ok ops" for t
    by (rule exI [of _ "[CEnqueue (FError t)]"]) (simp add: sendError_def)
  have none: "\<exists>ops. c = fold conn_apply ops c \<and> list_all op_ok ops"
    by (rule exI [of _ "[]"]) simp
  have att: "\<exists>ops. fst (hub_attach env msg c m) = fold conn_apply ops c \<and> list_all op_ok ops" for env
  proof (cases "GetSession (ms_SessionID msg) m")
    case None
    with err show ?thesis by (simp add: hub_attach_def)
  next
    case (Some s)
    let ?sid = "ms_SessionID msg" and ?control = "s_Source s = SourceUI"
    let ?mode = "if ?control \<or> hasControl ?sid c then ''control'' else ''observer''"
    show ?thesis
    proof (cases "s_AccountID s \<noteq> cn_accountID c \<or> (\<exists>e. ReadOutputFrom ?sid (ms_AfterOffset msg) (env m) = Inl e)")
      case True
      with Some err show ?thesis by (auto simp: hub_attach_def Let_def)
    next
      case False
      then obtain b where b: "ReadOutputFrom ?sid (ms_AfterOffset msg) (env m) = Inr b" and acc: "s_AccountID s = cn_accountID c"
        by (metis sum.exhaust)
      let ?ops = "[CAttach ?sid ?control (fr_Offset b) (attach_frames ?sid s ?mode b), CFlush (env (env m)) ?sid]"
      have "fst (hub_attach env msg c m) = fold conn_apply ?ops c
          \<or> fst (hub_attach env msg c m) = fold conn_apply (?ops @ [CClose (env (env (env (env m)))) ?sid]) c"
        using Some b acc by (simp add: hub_attach_def flushOutput_def Let_def)
      moreover have "list_all op_ok ?ops" "list_all op_ok (?ops @ [CClose (env (env (env (env m)))) ?sid])" by auto
      ultimately show ?thesis by blast
    qed
  qed
  have take: "\<exists>ops. hub_takeControl m msg c = fold conn_apply ops c \<and> list_all op_ok ops"
    using err exI [of "\<lambda>ops. _ = fold conn_apply ops c \<and> list_all op_ok ops"
        "[CTake (ms_SessionID msg), CEnqueue (FMode (ms_SessionID msg) ''control'')]"]
    by (simp add: hub_takeControl_def Let_def split: option.split)
  have rel: "\<exists>ops. hub_releaseControl msg c = fold conn_apply ops c \<and> list_all op_ok ops"
    using none exI [of "\<lambda>ops. _ = fold conn_apply ops c \<and> list_all op_ok ops"
        "[CRelease (ms_SessionID msg), CEnqueue (FMode (ms_SessionID msg) ''observer'')]"]
    by (simp add: hub_releaseControl_def Let_def)
  have det: "\<exists>ops. conn_detach (ms_SessionID msg) c = fold conn_apply ops c \<and> list_all op_ok ops"
    by (rule exI [of _ "[CDetach (ms_SessionID msg)]"]) simp
  have inp: "\<exists>ops. fst (hub_input io now ok msg c m) = fold conn_apply ops c \<and> list_all op_ok ops" for io now ok
    using err none by (auto simp: hub_input_def Let_def split: prod.split sum.split)
  have res: "\<exists>ops. fst (hub_resize ok msg c m) = fold conn_apply ops c \<and> list_all op_ok ops" for ok
    using none by (simp add: hub_resize_def Let_def)
  have clo: "\<exists>ops. fst (hub_closeSession j msg c m) = fold conn_apply ops c \<and> list_all op_ok ops" for j
    using err none by (auto simp: hub_closeSession_def Let_def split: option.split)
  from none att take rel det inp res clo show ?thesis by (simp add: hub_route_def)
qed

end
