(* ===== verification/Ws_Properties.thy ===== *)
theory Ws_Properties
  imports Ws_Hub
begin

text \<open>
  Properties of the browser hub: the order of a session's frames on a connection under every
  interleaving, the isolation of accounts, and the bound of the send queue.
\<close>

section \<open>The queue\<close>

abbreviation frames :: "conn \<Rightarrow> frame list" where
  "frames c \<equiv> cn_sent c @ cn_out c"

lemma enqueueLocked_cases:
  obtains (queued) "\<not> cn_closed c" "enqueueLocked f c = (True, c\<lparr>cn_out := cn_out c @ [f]\<rparr>)" "length (cn_out c) < out_cap"
  | (dropped) "cn_closed c" "enqueueLocked f c = (True, c)"
  | (overflow) "\<not> cn_closed c" "enqueueLocked f c = (False, c\<lparr>cn_closed := True\<rparr>)"
  by (cases "cn_closed c"; cases "length (cn_out c) < out_cap") (auto simp: enqueueLocked_def)

lemma ws_close_fields [simp]:
  "cn_attached (ws_close k c) = cn_attached c" "cn_controlled (ws_close k c) = cn_controlled c"
  "cn_lastOffset (ws_close k c) = cn_lastOffset c" "cn_out (ws_close k c) = cn_out c"
  "cn_sent (ws_close k c) = cn_sent c" "cn_closed (ws_close k c) = cn_closed c"
  "cn_accountID (ws_close k c) = cn_accountID c"
  by (simp_all add: ws_close_def)

lemma enqueue_fields [simp]:
  "cn_attached (enqueue f c) = cn_attached c" "cn_controlled (enqueue f c) = cn_controlled c"
  "cn_lastOffset (enqueue f c) = cn_lastOffset c" "cn_accountID (enqueue f c) = cn_accountID c"
  "cn_sent (enqueue f c) = cn_sent c"
  by (simp_all add: enqueue_def enqueueLocked_def)

lemma enqueue_frames_fields [simp]:
  "cn_attached (snd (enqueue_frames fs c)) = cn_attached c" "cn_controlled (snd (enqueue_frames fs c)) = cn_controlled c"
  "cn_lastOffset (snd (enqueue_frames fs c)) = cn_lastOffset c" "cn_accountID (snd (enqueue_frames fs c)) = cn_accountID c"
  "cn_sent (snd (enqueue_frames fs c)) = cn_sent c"
  by (induction fs arbitrary: c) (auto simp: enqueueLocked_def Let_def)

text \<open>What an operation may append: a frame whole, or nothing on a closed connection.\<close>

lemma enqueue_out:
  "cn_out (enqueue f c) = (if cn_closed c \<or> length (cn_out c) \<ge> out_cap then cn_out c else cn_out c @ [f])
   \<and> cn_closed (enqueue f c) = (cn_closed c \<or> length (cn_out c) \<ge> out_cap)"
  by (simp add: enqueue_def enqueueLocked_def)

lemma enqueue_frames_out:
  "\<exists>pre post. fs = pre @ post \<and> cn_out (snd (enqueue_frames fs c)) = cn_out c @ pre
     \<and> (post \<noteq> [] \<longrightarrow> cn_closed (snd (enqueue_frames fs c)))
     \<and> (cn_closed c \<longrightarrow> pre = [] \<and> cn_closed (snd (enqueue_frames fs c)))"
proof (induction fs arbitrary: c)
  case (Cons f fs)
  show ?case
  proof (cases rule: enqueueLocked_cases [of c f])
    case queued
    then obtain pre post where "fs = pre @ post"
      "cn_out (snd (enqueue_frames fs (c\<lparr>cn_out := cn_out c @ [f]\<rparr>))) = (cn_out c @ [f]) @ pre"
      "post \<noteq> [] \<longrightarrow> cn_closed (snd (enqueue_frames fs (c\<lparr>cn_out := cn_out c @ [f]\<rparr>)))"
      using Cons.IH [of "c\<lparr>cn_out := cn_out c @ [f]\<rparr>"] by auto
    with queued show ?thesis by (intro exI [of _ "f # pre"] exI [of _ post]) simp
  next
    case dropped
    then show ?thesis using Cons.IH [of c] by (intro exI [of _ "[]"] exI [of _ "f # fs"]) auto
  next
    case overflow
    then show ?thesis by (intro exI [of _ "[]"] exI [of _ "f # fs"]) simp
  qed
qed simp

lemma enqueue_frames_closed: "cn_closed c \<Longrightarrow> enqueue_frames fs c = (True, c)"
  by (induction fs) (simp_all add: enqueueLocked_def)

section \<open>The order of a session's frames\<close>

text \<open>
  The client's view of one session: attached from a status frame on, detached by a closed frame;
  output and the closed frame itself are legal only while attached.
\<close>

fun view_step :: "string \<Rightarrow> frame \<Rightarrow> bool \<Rightarrow> bool option" where
  "view_step sid (FStatus s st) att = Some (if s = sid then True else att)"
| "view_step sid (FOutput s d off r) att = (if s = sid \<and> \<not> att then None else Some att)"
| "view_step sid (FClosed s) att = (if s = sid then (if att then Some False else None) else Some att)"
| "view_step sid _ att = Some att"

fun view :: "string \<Rightarrow> frame list \<Rightarrow> bool \<Rightarrow> bool option" where
  "view sid [] att = Some att"
| "view sid (f # fs) att = (case view_step sid f att of None \<Rightarrow> None | Some att \<Rightarrow> view sid fs att)"

lemma view_append: "view sid (xs @ ys) att = (case view sid xs att of None \<Rightarrow> None | Some a \<Rightarrow> view sid ys a)"
  by (induction xs arbitrary: att) (auto split: option.split)

lemma view_aside: "aside f \<Longrightarrow> view_step sid f att = Some att"
  by (cases f) auto

definition order_inv :: "string \<Rightarrow> conn \<Rightarrow> bool" where
  "order_inv sid c \<longleftrightarrow> (\<exists>att. view sid (frames c) False = Some att \<and> (cn_closed c \<or> (isAttached sid c \<longrightarrow> att)))"

lemma order_inv_closed:
  assumes "order_inv sid c" "frames c' = frames c" "cn_closed c'"
  shows "order_inv sid c'"
  using assms by (auto simp: order_inv_def)

lemma order_inv_enqueue:
  assumes "order_inv sid c" "\<And>att. view sid (frames c) False = Some att \<Longrightarrow> isAttached sid c \<longrightarrow> att \<Longrightarrow>
      \<exists>att'. view_step sid f att = Some att' \<and> (isAttached sid c \<longrightarrow> att')"
  shows "order_inv sid (enqueue f c)"
proof (cases "cn_closed c \<or> length (cn_out c) \<ge> out_cap")
  case True
  then show ?thesis using enqueue_out [of f c] by (intro order_inv_closed [OF assms(1)]) auto
next
  case False
  with assms(1) obtain att where att: "view sid (frames c) False = Some att" "isAttached sid c \<longrightarrow> att"
    by (auto simp: order_inv_def)
  from assms(2) [OF att] obtain att' where att': "view_step sid f att = Some att'" "isAttached sid c \<longrightarrow> att'" by blast
  have "frames (enqueue f c) = frames c @ [f]" using False enqueue_out [of f c] by simp
  then have "view sid (frames (enqueue f c)) False = Some att'"
    using att(1) att'(1) by (simp only: view_append) simp
  with att'(2) show ?thesis unfolding order_inv_def by (auto simp: isAttached_def)
qed

lemma order_inv_flush:
  assumes "order_inv sid c"
  shows "order_inv sid (flushLocked m s c)"
proof (cases "isAttached s c")
  case False
  with assms show ?thesis by (simp add: flushLocked_def)
next
  case True
  have "order_inv sid (enqueue (FOutput s d off r) (c\<lparr>cn_lastOffset := l\<rparr>))" for d off r l
    by (rule order_inv_enqueue) (use assms True in \<open>auto simp: order_inv_def isAttached_def\<close>)
  with assms True show ?thesis by (auto simp: flushLocked_def split: sum.split)
qed

lemma flag_delete: "flag (AList.delete s m) t = (t \<noteq> s \<and> flag m t)"
  by (simp add: flag_def delete_conv')

lemma flag_update: "flag (AList.update s True m) t = (t = s \<or> flag m t)"
  by (simp add: flag_def update_conv')

lemma order_inv_detach:
  assumes "order_inv sid c"
  shows "order_inv sid (snd (detachLocked s c))"
  using assms by (auto simp: order_inv_def detachLocked_def isAttached_def flag_delete)

lemma order_inv_close:
  assumes "order_inv sid c"
  shows "order_inv sid (conn_closeSession m s c)"
proof -
  let ?c = "flushLocked m s c"
  have f: "order_inv sid ?c" by (rule order_inv_flush [OF assms])
  show ?thesis
  proof (cases "isAttached s ?c")
    case False
    with order_inv_detach [OF f, of s] show ?thesis by (simp add: conn_closeSession_def detachLocked_def)
  next
    case True
    have "order_inv sid (enqueue (FClosed s) (snd (detachLocked s ?c)))"
    proof (cases "cn_closed ?c")
      case True
      then show ?thesis
        by (intro order_inv_closed [OF f]) (simp_all add: detachLocked_def enqueue_out)
    next
      case open': False
      show ?thesis
      proof (rule order_inv_enqueue [OF order_inv_detach [OF f]])
        fix att
        assume att: "view sid (frames (snd (detachLocked s ?c))) False = Some att"
        then have "isAttached sid ?c \<longrightarrow> att" using f open' by (auto simp: order_inv_def detachLocked_def)
        with True show "isAttached sid (snd (detachLocked s ?c)) \<longrightarrow> att \<Longrightarrow>
            \<exists>att'. view_step sid (FClosed s) att = Some att' \<and> (isAttached sid (snd (detachLocked s ?c)) \<longrightarrow> att')"
          by (auto simp: detachLocked_def isAttached_def flag_delete)
      qed
    qed
    with True show ?thesis by (simp add: conn_closeSession_def detachLocked_def Let_def)
  qed
qed

text \<open>Every prefix of a catch-up is legal, and the whole of it leaves the session attached.\<close>

lemma view_catch_up:
  assumes "attach_frames s ss mode b = pre @ post"
  shows "\<exists>att'. view sid pre att = Some att' \<and> (att \<longrightarrow> att') \<and> (post = [] \<and> s = sid \<longrightarrow> att')"
proof -
  have "length pre \<le> length (attach_frames s ss mode b)" using assms by simp
  then have "length pre \<le> 3" by (simp add: attach_frames_def split: if_splits)
  moreover have "pre = take (length pre) (attach_frames s ss mode b)" "post = drop (length pre) (attach_frames s ss mode b)"
    using assms by simp_all
  moreover have "length pre = 0 \<or> length pre = 1 \<or> length pre = 2 \<or> length pre = 3" using calculation(1) by linarith
  ultimately show ?thesis by (auto simp: attach_frames_def)
qed

lemma order_inv_attach:
  assumes "order_inv sid c" "fs = attach_frames s ss mode b"
  shows "order_inv sid (attachWithCatchUp s control off fs c)"
proof -
  define c1 where "c1 = c\<lparr>cn_attached := AList.update s True (cn_attached c),
    cn_controlled := (if control then AList.update s True (cn_controlled c) else cn_controlled c),
    cn_lastOffset := AList.update s off (cn_lastOffset c)\<rparr>"
  let ?c2 = "snd (enqueue_frames fs c1)"
  have att1: "isAttached sid c1 \<longleftrightarrow> sid = s \<or> isAttached sid c" by (simp add: c1_def isAttached_def flag_update)
  have same: "frames c1 = frames c" "cn_closed c1 = cn_closed c" by (simp_all add: c1_def)
  have res: "frames (attachWithCatchUp s control off fs c) = frames ?c2"
    "cn_closed (attachWithCatchUp s control off fs c) = cn_closed ?c2"
    "cn_attached (attachWithCatchUp s control off fs c) = cn_attached c1"
    by (simp_all add: attachWithCatchUp_def c1_def [symmetric] Let_def case_prod_beta)
  obtain pre post where sp: "fs = pre @ post" "cn_out ?c2 = cn_out c1 @ pre"
    "post \<noteq> [] \<longrightarrow> cn_closed ?c2" "cn_closed c1 \<longrightarrow> pre = [] \<and> cn_closed ?c2"
    using enqueue_frames_out [of fs c1] by blast
  have fr: "frames ?c2 = frames c @ pre" using sp(2) same(1) by simp
  obtain att where att: "view sid (frames c) False = Some att" "cn_closed c \<or> (isAttached sid c \<longrightarrow> att)"
    using assms(1) by (auto simp: order_inv_def)
  obtain att' where att': "view sid pre att = Some att'" "att \<longrightarrow> att'" "post = [] \<and> s = sid \<longrightarrow> att'"
    using view_catch_up [of s ss mode b pre post sid att] assms(2) sp(1) by auto
  have "view sid (frames ?c2) False = Some att'"
    unfolding fr view_append [of sid "frames c" pre] att(1) using att'(1) by simp
  moreover have "cn_closed ?c2 \<or> (isAttached sid c1 \<longrightarrow> att')"
    using att(2) att'(2,3) att1 sp(3,4) same(2) by auto
  ultimately show ?thesis using res by (auto simp: order_inv_def isAttached_def)
qed

lemma order_inv_apply:
  assumes "order_inv sid c" "op_ok op"
  shows "order_inv sid (conn_apply op c)"
proof (cases op)
  case (CAttach s control off fs)
  with assms order_inv_attach [OF assms(1)] show ?thesis by auto
next
  case (CDetach s)
  with order_inv_detach [OF assms(1)] show ?thesis by (simp add: conn_detach_def)
next
  case (CFlush m s)
  with order_inv_flush [OF assms(1)] show ?thesis by simp
next
  case (CClose m s)
  with order_inv_close [OF assms(1)] show ?thesis by simp
next
  case (CEnqueue f)
  then show ?thesis using assms by (auto intro!: order_inv_enqueue simp: view_aside)
next
  case (CTake s)
  with assms show ?thesis by (simp add: order_inv_def conn_takeControl_def isAttached_def)
next
  case (CRelease s)
  with assms show ?thesis by (simp add: order_inv_def conn_releaseControl_def isAttached_def)
next
  case CWriter
  with assms show ?thesis by (auto simp: order_inv_def writer_step_def isAttached_def split: list.split)
next
  case CEnd
  with assms show ?thesis by (intro order_inv_closed [OF assms(1)]) (simp_all add: conn_close_def)
qed

lemma order_inv_run: "order_inv sid c \<Longrightarrow> list_all op_ok ops \<Longrightarrow> order_inv sid (fold conn_apply ops c)"
  by (induction ops arbitrary: c) (simp_all add: order_inv_apply)

section \<open>Properties\<close>


definition ex_attach :: conn_op where
  "ex_attach = CAttach ''s1'' True 0 (attach_frames ''s1'' (sess ex_open 0) ''control''
     \<lparr>fr_Data = [104], fr_Offset = 1, fr_Reset = False\<rparr>)"


section \<open>Isolation of accounts\<close>

text \<open>The sessions a frame mentions.\<close>

fun frame_sids :: "frame \<Rightarrow> string list" where
  "frame_sids (FStatus s st) = [s]"
| "frame_sids (FMode s m) = [s]"
| "frame_sids (FOutput s d off r) = [s]"
| "frame_sids (FClosed s) = [s]"
| "frame_sids (FSessions es) = map le_SessionID es"
| "frame_sids _ = []"

definition unseen :: "string \<Rightarrow> conn \<Rightarrow> bool" where
  "unseen sid c \<longleftrightarrow> \<not> isAttached sid c \<and> (\<forall>f \<in> set (frames c). sid \<notin> set (frame_sids f))"

lemma unseen_enqueue: "unseen sid c \<Longrightarrow> sid \<notin> set (frame_sids f) \<Longrightarrow> unseen sid (enqueue f c)"
  by (auto simp: unseen_def isAttached_def enqueue_out)

lemma unseen_flush: "unseen sid c \<Longrightarrow> unseen sid (flushLocked m s c)"
proof (cases "isAttached s c")
  case True
  assume u: "unseen sid c"
  with True have ne: "s \<noteq> sid" by (auto simp: unseen_def)
  have "unseen sid (enqueue (FOutput s d off r) (c\<lparr>cn_lastOffset := l\<rparr>))" for d off r l
    by (rule unseen_enqueue) (use u ne in \<open>auto simp: unseen_def isAttached_def\<close>)
  with u True show ?thesis by (auto simp: flushLocked_def split: sum.split)
qed (simp add: flushLocked_def)

lemma unseen_detach: "unseen sid c \<Longrightarrow> unseen sid (snd (detachLocked s c))"
  by (auto simp: unseen_def detachLocked_def isAttached_def flag_delete)

lemma unseen_close:
  assumes "unseen sid c"
  shows "unseen sid (conn_closeSession m s c)"
proof -
  have f: "unseen sid (flushLocked m s c)" by (rule unseen_flush [OF assms])
  have "isAttached s (flushLocked m s c) \<Longrightarrow> s \<noteq> sid" using f by (auto simp: unseen_def)
  with unseen_enqueue [OF unseen_detach [OF f, of s], of "FClosed s"] unseen_detach [OF f, of s] show ?thesis
    by (auto simp: conn_closeSession_def detachLocked_def Let_def)
qed

lemma unseen_attach:
  assumes "unseen sid c" "s \<noteq> sid" "\<forall>f \<in> set fs. sid \<notin> set (frame_sids f)"
  shows "unseen sid (attachWithCatchUp s control off fs c)"
proof -
  define c1 where "c1 = c\<lparr>cn_attached := AList.update s True (cn_attached c),
    cn_controlled := (if control then AList.update s True (cn_controlled c) else cn_controlled c),
    cn_lastOffset := AList.update s off (cn_lastOffset c)\<rparr>"
  obtain pre post where "fs = pre @ post" "cn_out (snd (enqueue_frames fs c1)) = cn_out c1 @ pre"
    using enqueue_frames_out [of fs c1] by blast
  moreover have "attachWithCatchUp s control off fs c =
      (if fst (enqueue_frames fs c1) then snd (enqueue_frames fs c1) else ws_close 1008 (snd (enqueue_frames fs c1)))"
    by (simp add: attachWithCatchUp_def c1_def [symmetric] Let_def case_prod_beta)
  moreover have "\<not> isAttached sid c1" "cn_sent c1 = cn_sent c" "cn_out c1 = cn_out c" using assms(1,2)
    by (simp_all add: unseen_def c1_def isAttached_def flag_update)
  ultimately show ?thesis using assms(1,3) by (auto simp: unseen_def isAttached_def)
qed

lemma unseen_control:
  "unseen sid c \<Longrightarrow> unseen sid (conn_takeControl s c)" "unseen sid c \<Longrightarrow> unseen sid (conn_releaseControl s c)"
  by (simp_all add: unseen_def conn_takeControl_def conn_releaseControl_def isAttached_def)

lemma unseen_error: "unseen sid c \<Longrightarrow> unseen sid (sendError t c)"
  by (simp add: sendError_def unseen_enqueue)

text \<open>The state of the isolation argument for one foreign session.\<close>

definition foreign :: "string \<Rightarrow> managed \<Rightarrow> conn \<Rightarrow> manager \<Rightarrow> bool" where
  "foreign sid mg c m \<longleftrightarrow> mgr_inv m \<and> managed_of sid m = Some mg \<and> s_AccountID (mg_session mg) \<noteq> cn_accountID c \<and> unseen sid c"

lemma foreign_conn: "foreign sid mg c m \<Longrightarrow> unseen sid c' \<Longrightarrow> cn_accountID c' = cn_accountID c \<Longrightarrow> foreign sid mg c' m"
  by (simp add: foreign_def)

lemma foreign_op: "foreign sid mg c m \<Longrightarrow> reg_sid op \<noteq> sid \<Longrightarrow> foreign sid mg c (reg_apply op m)"
  using sr.op_good sr.op_local unfolding foreign_def by metis

lemma own_not_foreign:
  "foreign sid mg c m \<Longrightarrow> GetSession s m = Some ss \<Longrightarrow> s_AccountID ss = cn_accountID c \<Longrightarrow> s \<noteq> sid"
  by (auto simp: foreign_def GetSession_managed)

lemma account_fields [simp]:
  "cn_accountID (flushLocked m s c) = cn_accountID c" "cn_accountID (snd (detachLocked s c)) = cn_accountID c"
  "cn_accountID (conn_closeSession m s c) = cn_accountID c"
  "cn_accountID (attachWithCatchUp s control off fs c) = cn_accountID c" "cn_accountID (sendError t c) = cn_accountID c"
  "cn_accountID (conn_takeControl s c) = cn_accountID c" "cn_accountID (conn_releaseControl s c) = cn_accountID c"
  "cn_accountID (conn_close c) = cn_accountID c"
  by (simp_all add: flushLocked_def detachLocked_def conn_closeSession_def attachWithCatchUp_def sendError_def
      conn_takeControl_def conn_releaseControl_def conn_close_def Let_def case_prod_beta split: sum.split)

lemma foreign_error: "foreign sid mg c m \<Longrightarrow> foreign sid mg (sendError t c) m"
  by (rule foreign_conn) (auto simp: foreign_def unseen_error)

lemma foreign_attach:
  assumes "foreign sid mg c m"
  shows "foreign sid mg (fst (hub_attach (\<lambda>m. m) msg c m)) (snd (hub_attach (\<lambda>m. m) msg c m))"
proof (cases "GetSession (ms_SessionID msg) m")
  case None
  with foreign_error [OF assms] show ?thesis by (simp add: hub_attach_def)
next
  case (Some s)
  show ?thesis
  proof (cases "s_AccountID s = cn_accountID c")
    case False
    with Some foreign_error [OF assms] show ?thesis by (simp add: hub_attach_def)
  next
    case True
    have ne: "ms_SessionID msg \<noteq> sid" by (rule own_not_foreign [OF assms Some True])
    have u: "unseen sid c" using assms by (simp add: foreign_def)
    have a: "unseen sid (attachWithCatchUp (ms_SessionID msg) k off (attach_frames (ms_SessionID msg) s mode b) c)" for k off mode b
      by (rule unseen_attach [OF u ne]) (use ne in \<open>auto simp: attach_frames_def\<close>)
    have "snd (hub_attach (\<lambda>m. m) msg c m) = m" using Some True by (simp add: hub_attach_def Let_def split: sum.split)
    moreover have "foreign sid mg (fst (hub_attach (\<lambda>m. m) msg c m)) m"
      by (rule foreign_conn [OF assms])
         (use Some True a u unseen_flush unseen_error unseen_close in \<open>auto simp: hub_attach_def Let_def flushOutput_def split: sum.split\<close>)
    ultimately show ?thesis by simp
  qed
qed

lemma foreign_input:
  assumes "foreign sid mg c m"
  shows "foreign sid mg (fst (hub_input io now ok msg c m)) (snd (hub_input io now ok msg c m))"
proof (cases "isAttached (ms_SessionID msg) c \<and> hasControl (ms_SessionID msg) c")
  case False
  with foreign_error [OF assms] show ?thesis by (auto simp: hub_input_def Let_def)
next
  case True
  with assms have "ms_SessionID msg \<noteq> sid" by (auto simp: foreign_def unseen_def)
  with foreign_op [OF assms, of "RegInput now ok (ms_SessionID msg) (ms_Data msg)"]
  have f: "foreign sid mg c (snd (SendInput now ok (ms_SessionID msg) (ms_Data msg) m))" by simp
  with True foreign_error [OF f] show ?thesis by (auto simp: hub_input_def Let_def split: prod.splits sum.splits)
qed

lemma foreign_resize:
  assumes "foreign sid mg c m"
  shows "foreign sid mg (fst (hub_resize ok msg c m)) (snd (hub_resize ok msg c m))"
proof (cases "isAttached (ms_SessionID msg) c \<and> hasControl (ms_SessionID msg) c")
  case False
  with assms show ?thesis by (auto simp: hub_resize_def Let_def)
next
  case True
  with assms have "ms_SessionID msg \<noteq> sid" by (auto simp: foreign_def unseen_def)
  with True foreign_op [OF assms, of "RegResize ok (ms_SessionID msg) (ms_Cols msg) (ms_Rows msg)"] show ?thesis
    by (simp add: hub_resize_def Let_def)
qed

lemma foreign_closing:
  assumes "foreign sid mg c m"
  shows "foreign sid mg (fst (hub_closeSession j msg c m)) (snd (hub_closeSession j msg c m))"
proof (cases "\<exists>s. GetSession (ms_SessionID msg) m = Some s \<and> s_AccountID s = cn_accountID c")
  case True
  then obtain s where s: "GetSession (ms_SessionID msg) m = Some s" "s_AccountID s = cn_accountID c" by blast
  with foreign_op [OF assms, of "RegClose (ms_SessionID msg) CloseClientWS j"] own_not_foreign [OF assms s] show ?thesis
    by (simp add: hub_closeSession_def)
next
  case False
  with foreign_error [OF assms] show ?thesis by (auto simp: hub_closeSession_def Let_def split: option.split)
qed

lemma foreign_takeControl:
  assumes "foreign sid mg c m"
  shows "foreign sid mg (hub_takeControl m msg c) m"
proof (cases "\<exists>s. GetSession (ms_SessionID msg) m = Some s \<and> s_AccountID s = cn_accountID c")
  case True
  then obtain s where s: "GetSession (ms_SessionID msg) m = Some s" "s_AccountID s = cn_accountID c" by blast
  have "unseen sid (hub_takeControl m msg c)"
    using s own_not_foreign [OF assms s] assms
    by (simp add: hub_takeControl_def foreign_def unseen_enqueue unseen_control Let_def)
  then show ?thesis using s by (intro foreign_conn [OF assms]) (simp_all add: hub_takeControl_def Let_def)
next
  case False
  with foreign_error [OF assms] show ?thesis by (auto simp: hub_takeControl_def Let_def split: option.split)
qed

lemma foreign_releaseControl:
  assumes "foreign sid mg c m"
  shows "foreign sid mg (hub_releaseControl msg c) m"
proof (cases "isAttached (ms_SessionID msg) c")
  case True
  with assms have "ms_SessionID msg \<noteq> sid" "unseen sid c" by (auto simp: foreign_def unseen_def)
  with True show ?thesis
    by (intro foreign_conn [OF assms]) (simp_all add: hub_releaseControl_def unseen_enqueue unseen_control Let_def)
next
  case False
  with assms show ?thesis by (simp add: hub_releaseControl_def)
qed

lemma foreign_detach: "foreign sid mg c m \<Longrightarrow> foreign sid mg (conn_detach s c) m"
  by (rule foreign_conn) (auto simp: foreign_def conn_detach_def unseen_detach)

lemma foreign_route:
  assumes "foreign sid mg c m" "ib_env i = (\<lambda>m. m)"
  shows "foreign sid mg (fst (hub_route i msg c m)) (snd (hub_route i msg c m))"
  using foreign_attach [OF assms(1)] foreign_input [OF assms(1)] foreign_resize [OF assms(1)]
    foreign_closing [OF assms(1)] foreign_takeControl [OF assms(1)] foreign_releaseControl [OF assms(1)]
    foreign_detach [OF assms(1)] assms
  by (simp add: hub_route_def)

lemma foreign_serve:
  assumes "foreign sid mg c m" "\<forall>i \<in> set ins. ib_env i = (\<lambda>m. m)" "serve_loop decode ins c m = (c', m')"
  shows "foreign sid mg c' m'"
  using assms
proof (induction ins arbitrary: c m)
  case Nil
  then have "c' = conn_close c" "m' = m" by simp_all
  moreover have "unseen sid (conn_close c)" using Nil.prems(1) by (simp add: foreign_def unseen_def isAttached_def conn_close_def)
  ultimately show ?case using Nil foreign_conn [OF Nil.prems(1)] by simp
next
  case (Cons i ins)
  show ?case
  proof (cases "parseClientMessage decode (ib_raw i)")
    case None
    with Cons.prems Cons.IH [OF foreign_error [OF Cons.prems(1), unfolded sendError_def]] show ?thesis by simp
  next
    case (Some msg)
    with Cons foreign_route [OF Cons.prems(1), of i msg] show ?thesis by (auto split: prod.splits)
  qed
qed

lemma listed_own:
  assumes "mgr_inv m" "s \<in> set (ListForAccount acc m)"
  shows "GetSession (s_SessionID s) m = Some s \<and> s_AccountID s = acc"
proof -
  from assms(2) obtain k a where e: "(k, a) \<in> set (m_terminals m)" "s = sess m a" "s_AccountID s = acc"
    by (auto simp: ListForAccount_def list_sessions_def)
  then have "map_of (m_terminals m) k = Some a" using mgr_inv_wf(2) [OF assms(1)] by simp
  with mgr_wf_lookup [OF mgr_inv_wf(1) [OF assms(1)] this] e show ?thesis by (simp add: GetSession_def)
qed



section \<open>A re-attach that repeats output\<close>

text \<open>
  The catch-up of an attach is read before \<open>flushMu\<close> is taken. When the connection is attached
  already and output arrives between the read and the attach, that output is flushed by the old
  attachment and once more by the flush that ends the new attach.
\<close>

definition ex_output :: "manager \<times> manager" where
  "ex_output = (let m = pump_data 1 0 [104] ex_open in (m, pump_data 2 0 [105] m))"

theorem reattach_repeats_output:
  "case ex_output of (m, m') \<Rightarrow>
     (case ReadOutputFrom ''s1'' (Some 1) m of
        Inl _ \<Rightarrow> False
      | Inr b \<Rightarrow>
          [f \<leftarrow> frames (fold conn_apply
              [CAttach ''s1'' True 1 [], CFlush m' ''s1'',
               CAttach ''s1'' True (fr_Offset b) (attach_frames ''s1'' (sess m 0) ''control'' b), CFlush m' ''s1'']
              (newConn ''acc1'')). case f of FOutput _ _ _ _ \<Rightarrow> True | _ \<Rightarrow> False]
          = [FOutput ''s1'' [105] 2 False, FOutput ''s1'' [105] 2 False])"
  by code_simp

end
