(* ===== verification/Cimd.thy ===== *)
theory Cimd
  imports Go_Strings
begin

text \<open>
  \<open>src/internal/hydra/cimd.go\<close>: Client ID Metadata Documents, the pure layer. The rules for a
  Client Identifier URL, the validation of a metadata document against the registration policy, the
  matching of redirect URIs and the scope allowlist.

  \<open>url.Parse\<close> and \<open>regexp.Compile\<close> are arguments (\<open>parse\<close>, \<open>compile\<close>): the theorems hold for every
  parser and every matcher. A parsed URL is the record of what the code reads of it, its
  fields and the results of its methods.
\<close>

section \<open>Errors\<close>

text \<open>One constructor per \<open>fmt.Errorf\<close>, with the values its message shows.\<close>

datatype cimd_error =
    ClientIDRequired | ClientIDTooLong | ClientIDNotURL | ClientIDNotHTTPS | ClientIDUserinfo
  | ClientIDNoHost | ClientIDFragment | ClientIDQuery | ClientIDNoPath | ClientIDDotSegment
  | ClientIDNotNormalized | DocClientIDMismatch | DocHasSecret | JwksRequired
  | AuthMethodUnsupported string | NotHTTPSURL string | ClientNameRequired | NoRedirectURIs
  | RedirectNotAbsolute string | RedirectNotAllowed string | GrantTypeUnsupported string
  | ResponseTypeUnsupported string | ScopeNotSubset "string list"
  | HostBlocked | HostNotAllowed | MetadataUnavailable | MetadataStatus int | MetadataNotJSON
  | MetadataTooLarge | MetadataBadJSON | RedirectNotRegistered | RegistrationFailed

section \<open>Client Identifier URLs\<close>

record url =
  u_Scheme :: string
  u_User :: bool
  u_Host :: string
  u_Hostname :: string
  u_Opaque :: string
  u_Path :: string
  u_EscapedPath :: string
  u_RawQuery :: string
  u_ForceQuery :: bool
  u_Fragment :: string
  u_RawFragment :: string
  u_String :: string

type_synonym url_parser = "string \<Rightarrow> url option"

definition maxClientIDLen :: nat where
  "maxClientIDLen = 255"

definition IsClientIDURL :: "string \<Rightarrow> bool" where
  "IsClientIDURL clientID = has_prefix clientID ''https://''"

definition ValidateClientIDURL :: "url_parser \<Rightarrow> string \<Rightarrow> cimd_error + url" where
  "ValidateClientIDURL parse clientID =
     (if clientID = [] then Inl ClientIDRequired
      else if length clientID > maxClientIDLen then Inl ClientIDTooLong
      else case parse clientID of
             None \<Rightarrow> Inl ClientIDNotURL
           | Some u \<Rightarrow>
               if u_Scheme u \<noteq> ''https'' then Inl ClientIDNotHTTPS
               else if u_User u then Inl ClientIDUserinfo
               else if u_Hostname u = [] then Inl ClientIDNoHost
               else if u_Fragment u \<noteq> [] \<or> u_RawFragment u \<noteq> [] \<or> CHR ''#'' \<in> set clientID then Inl ClientIDFragment
               else if u_RawQuery u \<noteq> [] \<or> u_ForceQuery u \<or> CHR ''?'' \<in> set clientID then Inl ClientIDQuery
               else if u_Path u = [] \<or> u_Path u = ''/'' then Inl ClientIDNoPath
               else if list_ex (\<lambda>seg. seg = ''.'' \<or> seg = ''..'') (split_on CHR ''/'' (u_EscapedPath u))
               then Inl ClientIDDotSegment
               else if u_String u \<noteq> clientID then Inl ClientIDNotNormalized
               else Inr u)"

section \<open>Documents and policy\<close>

record client_metadata =
  cm_ClientID :: string
  cm_ClientName :: string
  cm_RedirectURIs :: "string list"
  cm_GrantTypes :: "string list"
  cm_ResponseTypes :: "string list"
  cm_Scope :: string
  cm_TokenEndpointAuthMethod :: string
  cm_JwksURI :: string
  cm_Jwks :: "(string, json) gomap"
  cm_LogoURI :: string
  cm_ClientURI :: string
  cm_PolicyURI :: string
  cm_TosURI :: string
  cm_ApplicationType :: string
  cm_SoftwareID :: string
  cm_SoftwareVersion :: string
  cm_SoftwareStatement :: string
  cm_ClientSecret :: string
  cm_ClientSecretExpiresAt :: "int option"
  cm_Contacts :: "string list"

record client_policy =
  cp_RedirectURIPatterns :: "(string \<Rightarrow> bool) list"
  cp_AllowedScopes :: "(string, bool) gomap"

definition scope_set :: "(string, bool) gomap \<Rightarrow> string \<Rightarrow> bool" where
  "scope_set m s \<longleftrightarrow> map_of m s = Some True"

text \<open>The loop that fills \<open>AllowedScopes\<close>.\<close>

definition allow_scopes :: "bool \<Rightarrow> string list \<Rightarrow> (string, bool) gomap" where
  "allow_scopes agentProxyEnabled scopes =
     fold (\<lambda>s m. if s = ''agent'' \<and> \<not> agentProxyEnabled then m else AList.update s True m) scopes []"

definition NewClientPolicy ::
  "(string \<Rightarrow> (string \<Rightarrow> bool) option) \<Rightarrow> string list \<Rightarrow> string list \<Rightarrow> bool \<Rightarrow> client_policy"
where
  "NewClientPolicy compile patterns scopes agentProxyEnabled =
     \<lparr>cp_RedirectURIPatterns = List.map_filter compile patterns,
      cp_AllowedScopes = allow_scopes agentProxyEnabled scopes\<rparr>"

definition setOf :: "string list \<Rightarrow> (string, bool) gomap" where
  "setOf scopes = fold (\<lambda>s. AList.update s True) scopes []"

definition map_keys :: "(string, bool) gomap \<Rightarrow> string list" where
  "map_keys m = gm_keys m"

definition matchAny :: "(string \<Rightarrow> bool) list \<Rightarrow> string \<Rightarrow> bool" where
  "matchAny patterns s = list_ex (\<lambda>re. re s) patterns"

definition isLoopbackHost :: "string \<Rightarrow> bool" where
  "isLoopbackHost host \<longleftrightarrow> host = ''127.0.0.1'' \<or> host = ''::1''"

text \<open>One round of the loop over the registered URIs.\<close>

definition redirect_matches :: "url_parser \<Rightarrow> string \<Rightarrow> url \<Rightarrow> string \<Rightarrow> bool" where
  "redirect_matches parse requested req reg =
     (reg = requested
      \<or> (case parse reg of
           None \<Rightarrow> False
         | Some u \<Rightarrow>
             isLoopbackHost (u_Hostname u) \<and> isLoopbackHost (u_Hostname req)
             \<and> u_Scheme u = u_Scheme req \<and> u_Hostname u = u_Hostname req
             \<and> u_EscapedPath u = u_EscapedPath req \<and> u_RawQuery u = u_RawQuery req))"

definition MatchRedirectURI :: "url_parser \<Rightarrow> string list \<Rightarrow> string \<Rightarrow> bool" where
  "MatchRedirectURI parse registered requested =
     (case parse requested of None \<Rightarrow> False | Some req \<Rightarrow> list_ex (redirect_matches parse requested req) registered)"

definition requireHTTPSURL :: "url_parser \<Rightarrow> string \<Rightarrow> string \<Rightarrow> cimd_error option" where
  "requireHTTPSURL parse raw field =
     (case parse raw of
        None \<Rightarrow> Some (NotHTTPSURL field)
      | Some u \<Rightarrow> if u_Scheme u \<noteq> ''https'' \<or> u_Host u = [] then Some (NotHTTPSURL field) else None)"

definition isAbsoluteURI :: "url_parser \<Rightarrow> string \<Rightarrow> bool" where
  "isAbsoluteURI parse raw =
     (case parse raw of None \<Rightarrow> False | Some u \<Rightarrow> u_Scheme u \<noteq> [] \<and> (u_Host u \<noteq> [] \<or> u_Opaque u \<noteq> []))"

section \<open>Validation of a document\<close>

text \<open>A loop that stops at the first error.\<close>

fun first_error :: "('a \<Rightarrow> 'e option) \<Rightarrow> 'a list \<Rightarrow> 'e option" where
  "first_error f [] = None"
| "first_error f (x # xs) = (case f x of Some e \<Rightarrow> Some e | None \<Rightarrow> first_error f xs)"

lemma first_error_None [simp]: "first_error f xs = None \<longleftrightarrow> (\<forall>x \<in> set xs. f x = None)"
  by (induction xs) (auto split: option.splits)

definition authMethodNone :: string where "authMethodNone = ''none''"

definition authMethodPrivateKeyJWT :: string where "authMethodPrivateKeyJWT = ''private_key_jwt''"

text \<open>The \<open>switch\<close> on the authentication method; the default fills in \<open>none\<close>.\<close>

definition check_auth_method :: "client_metadata \<Rightarrow> cimd_error + client_metadata" where
  "check_auth_method doc =
     (let m = cm_TokenEndpointAuthMethod doc in
      if m = [] then Inr (doc\<lparr>cm_TokenEndpointAuthMethod := authMethodNone\<rparr>)
      else if m = authMethodNone then Inr doc
      else if m = authMethodPrivateKeyJWT
      then if cm_JwksURI doc = [] \<and> cm_Jwks doc = [] then Inl JwksRequired else Inr doc
      else Inl (AuthMethodUnsupported m))"

definition check_uris :: "url_parser \<Rightarrow> client_metadata \<Rightarrow> cimd_error option" where
  "check_uris parse doc =
     (case (if cm_JwksURI doc \<noteq> [] then requireHTTPSURL parse (cm_JwksURI doc) ''jwks_uri'' else None) of
        Some e \<Rightarrow> Some e
      | None \<Rightarrow>
          first_error (\<lambda>(field, raw). if raw = [] then None else requireHTTPSURL parse raw field)
            [(''client_uri'', cm_ClientURI doc), (''logo_uri'', cm_LogoURI doc),
             (''policy_uri'', cm_PolicyURI doc), (''tos_uri'', cm_TosURI doc)])"

definition check_redirects :: "url_parser \<Rightarrow> client_policy \<Rightarrow> client_metadata \<Rightarrow> cimd_error option" where
  "check_redirects parse policy doc =
     (if cm_RedirectURIs doc = [] then Some NoRedirectURIs
      else first_error (\<lambda>uri. if \<not> isAbsoluteURI parse uri then Some (RedirectNotAbsolute uri)
                              else if \<not> matchAny (cp_RedirectURIPatterns policy) uri
                              then Some (RedirectNotAllowed uri) else None) (cm_RedirectURIs doc))"

text \<open>\<open>if len(x) == 0 { x = default }\<close>.\<close>

definition default_to :: "'a list \<Rightarrow> 'a list \<Rightarrow> 'a list" where
  "default_to dflt xs = (if xs = [] then dflt else xs)"

definition check_types :: "client_metadata \<Rightarrow> cimd_error + client_metadata" where
  "check_types doc =
     (let doc = doc\<lparr>cm_GrantTypes := default_to [''authorization_code'', ''refresh_token''] (cm_GrantTypes doc)\<rparr> in
      case first_error (\<lambda>gt. if gt \<noteq> ''authorization_code'' \<and> gt \<noteq> ''refresh_token''
                             then Some (GrantTypeUnsupported gt) else None) (cm_GrantTypes doc) of
        Some e \<Rightarrow> Inl e
      | None \<Rightarrow>
          let doc = doc\<lparr>cm_ResponseTypes := default_to [''code''] (cm_ResponseTypes doc)\<rparr> in
          (case first_error (\<lambda>rt. if rt \<noteq> ''code'' then Some (ResponseTypeUnsupported rt) else None)
                  (cm_ResponseTypes doc) of
             Some e \<Rightarrow> Inl e
           | None \<Rightarrow> Inr doc))"

definition ValidateDocument ::
  "url_parser \<Rightarrow> client_metadata \<Rightarrow> string \<Rightarrow> client_policy \<Rightarrow> cimd_error + client_metadata"
where
  "ValidateDocument parse doc clientIDURL policy =
     (if cm_ClientID doc \<noteq> clientIDURL then Inl DocClientIDMismatch
      else if cm_ClientSecret doc \<noteq> [] \<or> cm_ClientSecretExpiresAt doc \<noteq> None then Inl DocHasSecret
      else case check_auth_method doc of
             Inl e \<Rightarrow> Inl e
           | Inr doc \<Rightarrow>
               (case check_uris parse doc of
                  Some e \<Rightarrow> Inl e
                | None \<Rightarrow>
                    if trim_space (cm_ClientName doc) = [] then Inl ClientNameRequired
                    else case check_redirects parse policy doc of
                           Some e \<Rightarrow> Inl e
                         | None \<Rightarrow> check_types doc))"

definition GrantedScope :: "string \<Rightarrow> (string, bool) gomap \<Rightarrow> cimd_error + string list" where
  "GrantedScope requested allowed =
     (let want = (if trim_space requested \<noteq> [] then string_fields (trim_space requested) else [''mcp'']);
          granted = filter (\<lambda>s. s \<noteq> ''offline_access'' \<and> scope_set allowed s) want
      in if granted = [] then Inl (ScopeNotSubset (map_keys allowed)) else Inr (granted @ [''offline_access'']))"

section \<open>What a validated document guarantees\<close>

text \<open>The specification: the promises of the draft and of the registration policy.\<close>

definition doc_valid :: "url_parser \<Rightarrow> client_policy \<Rightarrow> string \<Rightarrow> client_metadata \<Rightarrow> bool" where
  "doc_valid parse policy clientIDURL d \<longleftrightarrow>
     cm_ClientID d = clientIDURL \<and> cm_ClientSecret d = [] \<and> cm_ClientSecretExpiresAt d = None
     \<and> (cm_TokenEndpointAuthMethod d = ''none''
        \<or> cm_TokenEndpointAuthMethod d = ''private_key_jwt'' \<and> (cm_JwksURI d \<noteq> [] \<or> cm_Jwks d \<noteq> []))
     \<and> (\<forall>raw \<in> {cm_JwksURI d, cm_ClientURI d, cm_LogoURI d, cm_PolicyURI d, cm_TosURI d}.
          raw = [] \<or> (\<exists>u. parse raw = Some u \<and> u_Scheme u = ''https'' \<and> u_Host u \<noteq> []))
     \<and> trim_space (cm_ClientName d) \<noteq> [] \<and> cm_RedirectURIs d \<noteq> []
     \<and> (\<forall>uri \<in> set (cm_RedirectURIs d). isAbsoluteURI parse uri \<and> (\<exists>re \<in> set (cp_RedirectURIPatterns policy). re uri))
     \<and> set (cm_GrantTypes d) \<subseteq> {''authorization_code'', ''refresh_token''} \<and> cm_GrantTypes d \<noteq> []
     \<and> set (cm_ResponseTypes d) = {''code''}"

lemma requireHTTPSURL_None:
  "requireHTTPSURL parse raw field = None \<longleftrightarrow> (\<exists>u. parse raw = Some u \<and> u_Scheme u = ''https'' \<and> u_Host u \<noteq> [])"
  by (auto simp: requireHTTPSURL_def split: option.splits)

lemma check_uris_None:
  "check_uris parse d = None \<longleftrightarrow>
     (\<forall>raw \<in> {cm_JwksURI d, cm_ClientURI d, cm_LogoURI d, cm_PolicyURI d, cm_TosURI d}.
        raw = [] \<or> (\<exists>u. parse raw = Some u \<and> u_Scheme u = ''https'' \<and> u_Host u \<noteq> []))"
proof -
  have "(case (if P then X else None) of Some e \<Rightarrow> Some e | None \<Rightarrow> Y) = None \<longleftrightarrow> (\<not> P \<or> X = None) \<and> Y = None"
    and "(if P then None else X) = None \<longleftrightarrow> P \<or> X = None" for P and X Y :: "cimd_error option"
    by (simp_all split: option.split)
  then show ?thesis
    by (simp only: check_uris_def first_error_None requireHTTPSURL_None list.set ball_simps prod.case simp_thms
        not_not conj_assoc)
qed

lemma check_redirects_None:
  "check_redirects parse policy d = None \<longleftrightarrow>
     cm_RedirectURIs d \<noteq> []
     \<and> (\<forall>uri \<in> set (cm_RedirectURIs d). isAbsoluteURI parse uri \<and> (\<exists>re \<in> set (cp_RedirectURIPatterns policy). re uri))"
proof -
  have "(if \<not> a then Some x else if \<not> b then Some y else None) = None \<longleftrightarrow> a \<and> b" for a b and x y :: cimd_error
    by simp
  then show ?thesis by (simp add: check_redirects_def matchAny_def list_ex_iff)
qed

lemma set_singleton: "xs \<noteq> [] \<Longrightarrow> \<forall>x \<in> set xs. x = c \<Longrightarrow> set xs = {c}"
  by (cases xs) auto

lemma check_types_Inr:
  assumes "check_types d = Inr d'"
  obtains gts rts where "d' = d\<lparr>cm_GrantTypes := gts, cm_ResponseTypes := rts\<rparr>"
    "set gts \<subseteq> {''authorization_code'', ''refresh_token''}" "gts \<noteq> []" "set rts = {''code''}"
proof -
  let ?gts = "default_to [''authorization_code'', ''refresh_token''] (cm_GrantTypes d)"
  let ?rts = "default_to [''code''] (cm_ResponseTypes d)"
  have e: "(if P then Some x else None) = None \<longleftrightarrow> \<not> P" for P and x :: cimd_error by simp
  let ?fg = "\<lambda>gt. if gt \<noteq> ''authorization_code'' \<and> gt \<noteq> ''refresh_token'' then Some (GrantTypeUnsupported gt) else None"
  let ?fr = "\<lambda>rt. if rt \<noteq> ''code'' then Some (ResponseTypeUnsupported rt) else None"
  have c: "check_types d = (case first_error ?fg ?gts of Some e \<Rightarrow> Inl e
      | None \<Rightarrow> (case first_error ?fr ?rts of Some e \<Rightarrow> Inl e
               | None \<Rightarrow> Inr (d\<lparr>cm_GrantTypes := ?gts, cm_ResponseTypes := ?rts\<rparr>)))"
    unfolding check_types_def Let_def by (simp cong: option.case_cong)
  have fg: "first_error ?fg ?gts = None" using assms unfolding c by (cases "first_error ?fg ?gts") simp_all
  have fr: "first_error ?fr ?rts = None"
    using assms unfolding c fg option.case by (cases "first_error ?fr ?rts") simp_all
  have d': "d' = d\<lparr>cm_GrantTypes := ?gts, cm_ResponseTypes := ?rts\<rparr>"
    using assms unfolding c fg fr option.case by simp
  have ok: "\<forall>gt \<in> set ?gts. gt = ''authorization_code'' \<or> gt = ''refresh_token''" "\<forall>rt \<in> set ?rts. rt = ''code''"
    using fg fr unfolding first_error_None e by (simp_all only: de_Morgan_conj not_not)
  have "?gts \<noteq> []" "?rts \<noteq> []" by (simp_all add: default_to_def)
  moreover have "set ?gts \<subseteq> {''authorization_code'', ''refresh_token''}"
    using ok(1) by (simp only: subset_eq insert_iff empty_iff simp_thms)
  ultimately show ?thesis using that [OF d'] set_singleton [OF _ ok(2)] by (simp only: simp_thms)
qed

lemma check_auth_method_Inr:
  assumes "check_auth_method d = Inr d'"
  obtains m where "d' = d\<lparr>cm_TokenEndpointAuthMethod := m\<rparr>"
    "m = ''none'' \<or> m = ''private_key_jwt'' \<and> (cm_JwksURI d \<noteq> [] \<or> cm_Jwks d \<noteq> [])"
proof -
  let ?m = "if cm_TokenEndpointAuthMethod d = [] then ''none'' else cm_TokenEndpointAuthMethod d"
  from assms have "d' = d\<lparr>cm_TokenEndpointAuthMethod := ?m\<rparr>"
    and "?m = ''none'' \<or> ?m = ''private_key_jwt'' \<and> (cm_JwksURI d \<noteq> [] \<or> cm_Jwks d \<noteq> [])"
    by (auto simp: check_auth_method_def Let_def authMethodNone_def authMethodPrivateKeyJWT_def split: if_split_asm)
  then show ?thesis by (rule that)
qed

lemma ValidateDocument_valid:
  assumes "ValidateDocument parse doc clientIDURL policy = Inr d"
  shows "doc_valid parse policy clientIDURL d"
proof -
  from assms obtain d1 where d1: "check_auth_method doc = Inr d1" "check_uris parse d1 = None"
    "trim_space (cm_ClientName d1) \<noteq> []" "check_redirects parse policy d1 = None" "check_types d1 = Inr d"
    and doc: "cm_ClientID doc = clientIDURL" "cm_ClientSecret doc = []" "cm_ClientSecretExpiresAt doc = None"
    by (auto simp: ValidateDocument_def split: if_split_asm sum.split_asm option.split_asm)
  obtain m where m: "d1 = doc\<lparr>cm_TokenEndpointAuthMethod := m\<rparr>"
    "m = ''none'' \<or> m = ''private_key_jwt'' \<and> (cm_JwksURI doc \<noteq> [] \<or> cm_Jwks doc \<noteq> [])"
    by (rule check_auth_method_Inr [OF d1(1)])
  obtain gts rts where t: "d = d1\<lparr>cm_GrantTypes := gts, cm_ResponseTypes := rts\<rparr>"
    "set gts \<subseteq> {''authorization_code'', ''refresh_token''}" "gts \<noteq> []" "set rts = {''code''}"
    by (rule check_types_Inr [OF d1(5)])
  from d1(2-4) doc m t show ?thesis
    unfolding doc_valid_def check_uris_None check_redirects_None by simp
qed

end
