(* ===== verification/Netip.thy ===== *)
theory Netip
  imports Go_Net
begin

text \<open>
  What the sources use of Go's \<open>net/netip\<close>: addresses with an optional IPv6 zone, their
  classification, and prefixes. Unlike \<open>net.ParseIP\<close>, \<open>ParseAddr\<close> keeps the family and accepts a
  zone (\<open>fe80::1%eth0\<close>).
\<close>

section \<open>Addresses\<close>

text \<open>The zero \<open>Addr\<close>, an IPv4 address, and an IPv6 address with its zone (empty if none).\<close>

datatype netip_addr = AddrZero | Addr4 "byte list" | Addr6 "byte list" string

definition ParseAddr6 :: "string \<Rightarrow> netip_addr option" where
  "ParseAddr6 s =
     (case cut_at CHR ''%'' s of
        None \<Rightarrow> map_option (\<lambda>b. Addr6 b []) (parse_v6 s)
      | Some (a, zone) \<Rightarrow> if zone = [] then None else map_option (\<lambda>b. Addr6 b zone) (parse_v6 a))"

definition ParseAddr :: "string \<Rightarrow> netip_addr option" where
  "ParseAddr s =
     (case find (\<lambda>c. c = CHR ''.'' \<or> c = CHR '':'' \<or> c = CHR ''%'') s of
        None \<Rightarrow> None
      | Some c \<Rightarrow>
          if c = CHR ''.'' then map_option Addr4 (parse_v4 s)
          else if c = CHR '':'' then ParseAddr6 s
          else None)"

fun addr_Is4 :: "netip_addr \<Rightarrow> bool" where
  "addr_Is4 (Addr4 _) = True"
| "addr_Is4 _ = False"

definition addr_IsValid :: "netip_addr \<Rightarrow> bool" where
  "addr_IsValid a \<longleftrightarrow> a \<noteq> AddrZero"

fun addr_hasZone :: "netip_addr \<Rightarrow> bool" where
  "addr_hasZone (Addr6 _ z) = (z \<noteq> [])"
| "addr_hasZone _ = False"

fun addr_Unmap :: "netip_addr \<Rightarrow> netip_addr" where
  "addr_Unmap (Addr6 b z) = (if take 12 b = v4_in_v6 then Addr4 (drop 12 b) else Addr6 b z)"
| "addr_Unmap a = a"

section \<open>Classification\<close>

text \<open>The first 16-bit group of an IPv6 address (\<open>v6u16(0)\<close>).\<close>

definition v6u16_0 :: "byte list \<Rightarrow> 16 word" where
  "v6u16_0 b = of_nat (256 * unat (b ! 0) + unat (b ! 1))"

fun addr_IsLoopback :: "netip_addr \<Rightarrow> bool" where
  "addr_IsLoopback (Addr4 b) = (b ! 0 = 127)"
| "addr_IsLoopback (Addr6 b _) = (b = replicate 15 0 @ [1])"
| "addr_IsLoopback AddrZero = False"

text \<open>\<open>IsUnspecified\<close> compares whole addresses, the zone included.\<close>

definition addr_IsUnspecified :: "netip_addr \<Rightarrow> bool" where
  "addr_IsUnspecified a \<longleftrightarrow> a = Addr4 (replicate 4 0) \<or> a = Addr6 (replicate 16 0) []"

fun addr_IsPrivate :: "netip_addr \<Rightarrow> bool" where
  "addr_IsPrivate (Addr4 b) =
     (b ! 0 = 10 \<or> (b ! 0 = 172 \<and> and (b ! 1) 0xF0 = 16) \<or> (b ! 0 = 192 \<and> b ! 1 = 168))"
| "addr_IsPrivate (Addr6 b _) = (and (b ! 0) 0xFE = 0xFC)"
| "addr_IsPrivate AddrZero = False"

fun addr_IsLinkLocalUnicast :: "netip_addr \<Rightarrow> bool" where
  "addr_IsLinkLocalUnicast (Addr4 b) = (b ! 0 = 169 \<and> b ! 1 = 254)"
| "addr_IsLinkLocalUnicast (Addr6 b _) = (and (v6u16_0 b) 0xFFC0 = 0xFE80)"
| "addr_IsLinkLocalUnicast AddrZero = False"

fun addr_IsLinkLocalMulticast :: "netip_addr \<Rightarrow> bool" where
  "addr_IsLinkLocalMulticast (Addr4 b) = (b ! 0 = 224 \<and> b ! 1 = 0 \<and> b ! 2 = 0)"
| "addr_IsLinkLocalMulticast (Addr6 b _) = (and (v6u16_0 b) 0xFF0F = 0xFF02)"
| "addr_IsLinkLocalMulticast AddrZero = False"

fun addr_IsMulticast :: "netip_addr \<Rightarrow> bool" where
  "addr_IsMulticast (Addr4 b) = (and (b ! 0) 0xF0 = 0xE0)"
| "addr_IsMulticast (Addr6 b _) = (b ! 0 = 0xFF)"
| "addr_IsMulticast AddrZero = False"

fun addr_IsInterfaceLocalMulticast :: "netip_addr \<Rightarrow> bool" where
  "addr_IsInterfaceLocalMulticast (Addr6 b _) = (and (v6u16_0 b) 0xFF0F = 0xFF01)"
| "addr_IsInterfaceLocalMulticast _ = False"

section \<open>Prefixes\<close>

type_synonym netip_prefix = "netip_addr \<times> nat"

text \<open>The bytes of an address as one number, most significant byte first.\<close>

definition bytes_nat :: "byte list \<Rightarrow> nat" where
  "bytes_nat b = foldl (\<lambda>n x. 256 * n + unat x) 0 b"

definition ParsePrefix :: "string \<Rightarrow> netip_prefix option" where
  "ParsePrefix s =
     (case last_index CHR ''/'' s of
        None \<Rightarrow> None
      | Some i \<Rightarrow>
          let m = drop (Suc i) s in
          (case ParseAddr (take i s) of
             None \<Rightarrow> None
           | Some a \<Rightarrow>
               if addr_hasZone a \<or> m = [] \<or> (length m > 1 \<and> (digit_val (hd m) = None \<or> hd m = CHR ''0'')) then None
               else (case dtoi_from 0 m of (n, rest) \<Rightarrow>
                       if rest \<noteq> [] \<or> n > (if addr_Is4 a then 32 else 128) then None else Some (a, n))))"

definition MustParsePrefix :: "string \<Rightarrow> netip_prefix" where
  "MustParsePrefix s = (case ParsePrefix s of Some p \<Rightarrow> p | None \<Rightarrow> (AddrZero, 0))"

text \<open>A prefix contains an address of its family, without a zone, that agrees on its first bits.\<close>

fun prefix_Contains :: "netip_prefix \<Rightarrow> netip_addr \<Rightarrow> bool" where
  "prefix_Contains (Addr4 p, n) (Addr4 b) = (bytes_nat b div 2 ^ (32 - n) = bytes_nat p div 2 ^ (32 - n))"
| "prefix_Contains (Addr6 p _, n) (Addr6 b z) = (z = [] \<and> bytes_nat b div 2 ^ (128 - n) = bytes_nat p div 2 ^ (128 - n))"
| "prefix_Contains _ _ = False"

section \<open>Numbers and masks\<close>

fun addr_wf :: "netip_addr \<Rightarrow> bool" where
  "addr_wf (Addr4 b) = (length b = 4)"
| "addr_wf (Addr6 b _) = (length b = 16)"
| "addr_wf AddrZero = False"

lemma unat_and_not_mask: "unat (and x (not (mask n)) :: 'a :: len word) = 2 ^ n * (unat x div 2 ^ n)"
proof -
  have "and x (not (mask n)) = push_bit n (drop_bit n x)"
    by (rule bit_word_eqI) (auto simp: bit_simps)
  then have "unat (and x (not (mask n))) = take_bit LENGTH('a) (push_bit n (drop_bit n (unat x)))"
    by (simp only: unsigned_push_bit_eq unsigned_drop_bit_eq take_bit_nat_eq_self [OF unsigned_less])
  then have "unat (and x (not (mask n))) = take_bit LENGTH('a) (2 ^ n * (unat x div 2 ^ n))"
    by (simp only: push_bit_eq_mult drop_bit_eq_div mult.commute)
  also have "2 ^ n * (unat x div 2 ^ n) < 2 ^ LENGTH('a)"
    by (rule order_le_less_trans [OF times_div_less_eq_dividend unsigned_less])
  then have "take_bit LENGTH('a) (2 ^ n * (unat x div 2 ^ n)) = 2 ^ n * (unat x div 2 ^ n)"
    by (rule take_bit_nat_eq_self)
  finally show ?thesis .
qed

lemma and_mask_eq_iff:
  "and x (not (mask n)) = (y :: 'a :: len word) \<longleftrightarrow> unat y = 2 ^ n * (unat x div 2 ^ n)"
  by (metis unat_and_not_mask word_unat_eq_iff)

lemma byte_and_F0: "and (x :: byte) 0xF0 = y \<longleftrightarrow> unat y = 16 * (unat x div 16)"
proof -
  have "(0xF0 :: byte) = not (mask 4)" by code_simp
  then show ?thesis using and_mask_eq_iff [of x 4 y] by simp
qed

lemma byte_and_FE: "and (x :: byte) 0xFE = y \<longleftrightarrow> unat y = 2 * (unat x div 2)"
proof -
  have "(0xFE :: byte) = not (mask 1)" by code_simp
  then show ?thesis using and_mask_eq_iff [of x 1 y] by (simp only: power_one_right)
qed

lemma word_and_FFC0: "and (x :: 16 word) 0xFFC0 = y \<longleftrightarrow> unat y = 64 * (unat x div 64)"
proof -
  have "(0xFFC0 :: 16 word) = not (mask 6)" by code_simp
  then show ?thesis using and_mask_eq_iff [of x 6 y] by simp
qed

section \<open>Evaluating the parsers\<close>

text \<open>
  Kernel evaluation of the parsers: digits by cases, the field loop at a numeral fuel.
\<close>

lemma hex_vals:
  "hex_val CHR ''0'' = Some 0" "hex_val CHR ''1'' = Some 1" "hex_val CHR ''2'' = Some 2" "hex_val CHR
  ''3'' = Some 3" "hex_val CHR ''4'' = Some 4" "hex_val CHR ''5'' = Some 5" "hex_val CHR
  ''6'' = Some 6" "hex_val CHR ''7'' = Some 7" "hex_val CHR ''8'' = Some 8" "hex_val CHR
  ''9'' = Some 9" "hex_val CHR ''a'' = Some 10" "hex_val CHR ''b'' = Some 11" "hex_val CHR
  ''c'' = Some 12" "hex_val CHR ''d'' = Some 13" "hex_val CHR ''e'' = Some 14" "hex_val CHR
  ''f'' = Some 15"
  "hex_val CHR '':'' = None" "hex_val CHR ''.'' = None"
  by code_simp+

lemma digit_vals:
  "digit_val CHR ''0'' = Some 0" "digit_val CHR ''1'' = Some 1" "digit_val CHR ''2'' = Some 2"
  "digit_val CHR ''3'' = Some 3" "digit_val CHR ''4'' = Some 4" "digit_val CHR ''5'' = Some 5"
  "digit_val CHR ''6'' = Some 6" "digit_val CHR ''7'' = Some 7" "digit_val CHR ''8'' = Some 8"
  "digit_val CHR ''9'' = Some 9"
  by code_simp+

lemmas v6_fields_numeral = v6_fields.simps(2) [of "pred_numeral k" for k, folded numeral_eq_Suc]

lemmas addr_eval =
  hex_vals digit_vals v6_fields_numeral parse_v6_def has_prefix_def v6_expand_def ParseAddr_def ParseAddr6_def
  parse_v4_def octet_def last_index_def

section \<open>Parsed addresses are well formed\<close>

lemma parse_v4_length: "parse_v4 s = Some b \<Longrightarrow> length b = 4"
  by (auto simp: parse_v4_def split: list.splits option.splits)

lemma v6_fields_length:
  "v6_fields f acc ell s = Some (acc', ell') \<Longrightarrow> length acc + 2 * f \<le> 16 \<Longrightarrow> length acc' \<le> 16"
proof (induction f arbitrary: acc ell s)
  case (Suc f)
  obtain n v rest where h: "hex_from 0 0 s = (n, v, rest)" by (metis prod_cases3)
  let ?acc = "acc @ [of_nat (v div 256), of_nat (v mod 256)]"
  have IH: "v6_fields f ?acc l s' = Some (acc', ell') \<Longrightarrow> length acc' \<le> 16" for l s'
    using Suc.IH [of ?acc l s'] Suc.prems(2) by simp
  have v4: "length b = 4" if "parse_v4 s = Some b" for b using that by (rule parse_v4_length)
  show ?case
    using Suc.prems h by (auto simp: Let_def dest: IH v4 split: if_split_asm list.split_asm)
qed (auto split: if_splits)

lemma v6_expand_length: "v6_expand (acc, ell) = Some b \<Longrightarrow> length acc \<le> 16 \<Longrightarrow> length b = 16"
  by (auto simp: v6_expand_def split: if_splits option.splits)

lemma parse_v6_length:
  assumes "parse_v6 s = Some b"
  shows "length b = 16"
proof -
  have "length b = 16" if "Option.bind (v6_fields 8 [] ell s') v6_expand = Some b" for ell s'
    using that v6_fields_length [of 8 "[]" ell s'] v6_expand_length
    by (cases "v6_fields 8 [] ell s'") auto
  with assms show ?thesis by (auto simp: parse_v6_def split: if_splits)
qed

lemma ParseAddr_wf: "ParseAddr s = Some a \<Longrightarrow> addr_wf a"
  by (auto simp: ParseAddr_def ParseAddr6_def parse_v4_length parse_v6_length split: option.splits if_splits)

end
