(* ===== verification/Cimd_Fetch.thy ===== *)
theory Cimd_Fetch
  imports Cimd Netip Ephemeral_Store
begin

text \<open>
  \<open>src/internal/hydra/cimd_fetch.go\<close>: retrieval of metadata documents. The dial-time guard against
  special-use destinations, the hardened exchange, and the document cache.

  What the environment decides is an argument: the record \<open>cimd_env\<close> holds the standard library's
  parsers, \<open>attempts\<close> the addresses the dialer tries with what the peer answers at each. A step of
  the dialer is refused by \<open>Control\<close> before a connection is made.
\<close>

section \<open>The dial guard\<close>

definition specialUsePrefixes :: "netip_prefix list" where
  "specialUsePrefixes = map MustParsePrefix
     [''0.0.0.0/8'', ''100.64.0.0/10'', ''192.0.0.0/24'', ''192.0.2.0/24'', ''192.88.99.0/24'',
      ''198.18.0.0/15'', ''198.51.100.0/24'', ''203.0.113.0/24'', ''240.0.0.0/4'',
      ''255.255.255.255/32'', ''::/128'', ''64:ff9b::/96'', ''100::/64'', ''2001::/23'',
      ''2001:db8::/32'', ''2002::/16'']"

definition isSpecialUse :: "netip_addr \<Rightarrow> bool" where
  "isSpecialUse addr =
     (let addr = addr_Unmap addr in
      \<not> addr_IsValid addr
      \<or> addr_IsLoopback addr \<or> addr_IsUnspecified addr \<or> addr_IsPrivate addr
      \<or> addr_IsLinkLocalUnicast addr \<or> addr_IsLinkLocalMulticast addr
      \<or> addr_IsMulticast addr \<or> addr_IsInterfaceLocalMulticast addr
      \<or> list_ex (\<lambda>p. addr_Is4 (fst p) = addr_Is4 addr \<and> prefix_Contains p addr) specialUsePrefixes)"

datatype dial_error = NonTCP string | Unparseable string | NonLiteral string | SpecialUse netip_addr

definition checkDialAddress :: "bool \<Rightarrow> string \<Rightarrow> string \<Rightarrow> dial_error option" where
  "checkDialAddress allowLoopback network address =
     (if \<not> has_prefix network ''tcp'' then Some (NonTCP network)
      else case SplitHost address of
             None \<Rightarrow> Some (Unparseable address)
           | Some host \<Rightarrow>
               (case ParseAddr host of
                  None \<Rightarrow> Some (NonLiteral host)
                | Some addr \<Rightarrow>
                    if isSpecialUse addr \<and> \<not> (allowLoopback \<and> addr_IsLoopback (addr_Unmap addr))
                    then Some (SpecialUse addr) else None))"

section \<open>Cache lifetimes\<close>

text \<open>\<open>Time.Sub\<close> saturates.\<close>

definition time_Sub :: "time \<Rightarrow> time \<Rightarrow> duration" where
  "time_Sub t u = max (- (2 ^ 63)) (min (2 ^ 63 - 1) (t - u))"

fun parse_max_age_parts :: "string list \<Rightarrow> int option" where
  "parse_max_age_parts [] = None"
| "parse_max_age_parts (part # parts) =
     (let part = trim_space part in
      if \<not> has_prefix part ''max-age='' then parse_max_age_parts parts
      else case Atoi (drop (length ''max-age='') part) of
             None \<Rightarrow> None
           | Some secs \<Rightarrow> if secs < 0 then None else Some secs)"

definition parseMaxAge :: "string \<Rightarrow> int option" where
  "parseMaxAge cc = parse_max_age_parts (split_on CHR '','' cc)"

record cimd_env =
  ce_parse :: url_parser
  ce_lower :: "string \<Rightarrow> string"
  ce_decode :: "string \<Rightarrow> client_metadata option"
  ce_parseTime :: "string \<Rightarrow> time option"

record http_response =
  rs_StatusCode :: int
  rs_ContentType :: string
  rs_CacheControl :: string
  rs_Expires :: string
  rs_Location :: bool
  rs_Body :: string
  rs_BodyErr :: bool

definition cacheTTL :: "cimd_env \<Rightarrow> duration \<Rightarrow> duration \<Rightarrow> time \<Rightarrow> http_response \<Rightarrow> duration" where
  "cacheTTL env cacheMin cacheMax now h =
     (let cc = ce_lower env (rs_CacheControl h) in
      if contains_str cc ''no-store'' \<or> contains_str cc ''no-cache'' then cacheMin
      else let ttl = (if contains_str cc ''max-age=''
                      then (case parseMaxAge cc of Some secs \<Rightarrow> i64 (secs * Second) | None \<Rightarrow> cacheMin)
                      else if rs_Expires h \<noteq> []
                      then (case ce_parseTime env (rs_Expires h) of Some t \<Rightarrow> time_Sub t now | None \<Rightarrow> cacheMin)
                      else cacheMin)
           in if ttl < cacheMin then cacheMin else if ttl > cacheMax then cacheMax else ttl)"

section \<open>The fetcher\<close>

definition cimdMaxBody :: nat where "cimdMaxBody = 5 * 1024"

definition cimdCacheCap :: int where "cimdCacheCap = 512"

record fetcher_params =
  fp_AllowLoopback :: bool
  fp_AllowedHosts :: "string list"
  fp_BlockedHosts :: "string list"
  fp_CacheMin :: duration
  fp_CacheMax :: duration

record cached_document =
  cd_Doc :: client_metadata
  cd_FetchedAt :: time

record fetcher =
  fe_params :: fetcher_params
  fe_cache :: "(string, cached_document) eph_store"
  fe_blocked :: "(string, bool) gomap"
  fe_allowed :: "(string, bool) gomap"

definition lowerSet :: "cimd_env \<Rightarrow> string list \<Rightarrow> (string, bool) gomap" where
  "lowerSet env xs =
     fold (\<lambda>s m. let s = ce_lower env (trim_space s) in if s \<noteq> [] then AList.update s True m else m) xs []"

definition NewFetcher :: "cimd_env \<Rightarrow> fetcher_params \<Rightarrow> fetcher" where
  "NewFetcher env p =
     (let p = p\<lparr>fp_CacheMin := if fp_CacheMin p \<le> 0 then 5 * Minute else fp_CacheMin p,
               fp_CacheMax := if fp_CacheMax p \<le> 0 then 24 * 60 * Minute else fp_CacheMax p\<rparr>
      in \<lparr>fe_params = p, fe_cache = eph_New (fp_CacheMax p) cimdCacheCap,
          fe_blocked = lowerSet env (fp_BlockedHosts p), fe_allowed = lowerSet env (fp_AllowedHosts p)\<rparr>)"

definition isJSONContentType :: "cimd_env \<Rightarrow> string \<Rightarrow> bool" where
  "isJSONContentType env ct =
     (let mediaType = ce_lower env (trim_space (hd (split_on CHR '';'' ct))) in
      mediaType = ''application/json''
      \<or> (has_prefix mediaType ''application/'' \<and> has_suffix mediaType ''+json''))"

text \<open>
  \<open>f.http.Do\<close>: the dialer tries the resolved addresses, \<open>Control\<close> vets each before the connection,
  and the first that connects and answers gives the response; a redirect is an error
  (\<open>CheckRedirect\<close>).
\<close>

type_synonym attempt = "string \<times> string \<times> http_response option"

definition http_Do :: "fetcher \<Rightarrow> attempt list \<Rightarrow> http_response option" where
  "http_Do f attempts =
     (case find (\<lambda>(network, address, out).
                   checkDialAddress (fp_AllowLoopback (fe_params f)) network address = None \<and> out \<noteq> None) attempts of
        Some (network, address, Some r) \<Rightarrow>
          if rs_StatusCode r \<in> {301, 302, 303, 307, 308} \<and> rs_Location r then None else Some r
      | _ \<Rightarrow> None)"

text \<open>\<open>io.ReadAll\<close> of a \<open>LimitReader\<close>: the limit ends the read before the peer's failure shows.\<close>

definition read_limited :: "nat \<Rightarrow> http_response \<Rightarrow> string option" where
  "read_limited limit r =
     (if length (rs_Body r) \<ge> limit then Some (take limit (rs_Body r))
      else if rs_BodyErr r then None else Some (rs_Body r))"

definition read_document ::
  "cimd_env \<Rightarrow> fetcher \<Rightarrow> time \<Rightarrow> string \<Rightarrow> client_policy \<Rightarrow> http_response \<Rightarrow> cimd_error + client_metadata \<times> duration"
where
  "read_document env f now clientIDURL policy res =
     (if rs_StatusCode res \<noteq> 200 then Inl (MetadataStatus (rs_StatusCode res))
      else if \<not> isJSONContentType env (rs_ContentType res) then Inl MetadataNotJSON
      else case read_limited (cimdMaxBody + 1) res of
             None \<Rightarrow> Inl MetadataUnavailable
           | Some body \<Rightarrow>
               if length body > cimdMaxBody then Inl MetadataTooLarge
               else case ce_decode env body of
                      None \<Rightarrow> Inl MetadataBadJSON
                    | Some doc \<Rightarrow>
                        (case ValidateDocument (ce_parse env) doc clientIDURL policy of
                           Inl e \<Rightarrow> Inl e
                         | Inr doc \<Rightarrow>
                             Inr (doc, cacheTTL env (fp_CacheMin (fe_params f)) (fp_CacheMax (fe_params f)) now res)))"

definition fetchUncached ::
  "cimd_env \<Rightarrow> fetcher \<Rightarrow> time \<Rightarrow> attempt list \<Rightarrow> string \<Rightarrow> client_policy \<Rightarrow> cimd_error + client_metadata \<times> duration"
where
  "fetchUncached env f now attempts clientIDURL policy =
     (case ValidateClientIDURL (ce_parse env) clientIDURL of
        Inl e \<Rightarrow> Inl e
      | Inr u \<Rightarrow>
          let host = ce_lower env (u_Hostname u) in
          if scope_set (fe_blocked f) host then Inl HostBlocked
          else if fe_allowed f \<noteq> [] \<and> \<not> scope_set (fe_allowed f) host then Inl HostNotAllowed
          else case http_Do f attempts of
                 None \<Rightarrow> Inl MetadataUnavailable
               | Some res \<Rightarrow> read_document env f now clientIDURL policy res)"

text \<open>
  \<open>Fetch\<close> consists of a cache lookup and, on a miss, the retrieval followed by the insertion; other
  goroutines (\<open>others\<close>) may use the cache between the two.
\<close>

definition fetch_get :: "time \<Rightarrow> string \<Rightarrow> fetcher \<Rightarrow> cached_document option \<times> fetcher" where
  "fetch_get now clientIDURL f = (let (hit, c) = eph_Get now clientIDURL (fe_cache f) in (hit, f\<lparr>fe_cache := c\<rparr>))"

definition fetch_put :: "time \<Rightarrow> time \<Rightarrow> string \<Rightarrow> client_metadata \<Rightarrow> duration \<Rightarrow> fetcher \<Rightarrow> fetcher" where
  "fetch_put fetchedAt at clientIDURL doc ttl f =
     f\<lparr>fe_cache := eph_PutTTL at clientIDURL \<lparr>cd_Doc = doc, cd_FetchedAt = fetchedAt\<rparr> ttl (fe_cache f)\<rparr>"

record fetch_times =
  ft_get :: time
  ft_ttl :: time
  ft_fetched :: time
  ft_put :: time

definition Fetch ::
  "cimd_env \<Rightarrow> fetch_times \<Rightarrow> attempt list \<Rightarrow> (fetcher \<Rightarrow> fetcher) \<Rightarrow> string \<Rightarrow> client_policy \<Rightarrow> fetcher \<Rightarrow>
   (cimd_error + client_metadata \<times> bool) \<times> fetcher"
where
  "Fetch env ts attempts others clientIDURL policy f =
     (case fetch_get (ft_get ts) clientIDURL f of
        (Some hit, f) \<Rightarrow> (Inr (cd_Doc hit, True), f)
      | (None, f) \<Rightarrow>
          let f = others f in
          (case fetchUncached env f (ft_ttl ts) attempts clientIDURL policy of
             Inl e \<Rightarrow> (Inl e, f)
           | Inr (doc, ttl) \<Rightarrow> (Inr (doc, False), fetch_put (ft_fetched ts) (ft_put ts) clientIDURL doc ttl f)))"

definition Invalidate :: "string \<Rightarrow> fetcher \<Rightarrow> fetcher" where
  "Invalidate clientIDURL f = f\<lparr>fe_cache := eph_Delete clientIDURL (fe_cache f)\<rparr>"

end
