(* ===== verification/Cimd_Guard.thy ===== *)
theory Cimd_Guard
  imports Cimd_Fetch
begin

text \<open>
  The dial guard of \<open>src/internal/hydra/cimd_fetch.go\<close> against a reference table of address ranges.
  The code classifies an address by byte tests, masks and prefixes; the reference is the list of the
  intervals of the IANA special-purpose registries, on the address as one number.
\<close>

section \<open>The reference tables\<close>

definition v4num :: "nat \<Rightarrow> nat \<Rightarrow> nat \<Rightarrow> nat \<Rightarrow> nat" where
  "v4num a b c d = 256 * (256 * (256 * a + b) + c) + d"

text \<open>First and last address of each special-use block.\<close>

definition special4 :: "(nat \<times> nat) list" where
  "special4 =
     [(v4num 0 0 0 0, v4num 0 255 255 255), (v4num 10 0 0 0, v4num 10 255 255 255),
      (v4num 100 64 0 0, v4num 100 127 255 255), (v4num 127 0 0 0, v4num 127 255 255 255),
      (v4num 169 254 0 0, v4num 169 254 255 255), (v4num 172 16 0 0, v4num 172 31 255 255),
      (v4num 192 0 0 0, v4num 192 0 0 255), (v4num 192 0 2 0, v4num 192 0 2 255),
      (v4num 192 88 99 0, v4num 192 88 99 255), (v4num 192 168 0 0, v4num 192 168 255 255),
      (v4num 198 18 0 0, v4num 198 19 255 255), (v4num 198 51 100 0, v4num 198 51 100 255),
      (v4num 203 0 113 0, v4num 203 0 113 255), (v4num 224 0 0 0, v4num 239 255 255 255),
      (v4num 240 0 0 0, v4num 255 255 255 255)]"

text \<open>An IPv6 block by its prefix, the value of its first bits.\<close>

definition v6block :: "nat \<Rightarrow> nat \<Rightarrow> nat \<times> nat" where
  "v6block bits v = (v * 2 ^ (128 - bits), v * 2 ^ (128 - bits) + (2 ^ (128 - bits) - 1))"

definition special6 :: "(nat \<times> nat) list" where
  "special6 =
     [v6block 128 0, v6block 128 1, v6block 96 0x64FF9B0000000000000000, v6block 64 0x100000000000000,
      v6block 23 0x100080, v6block 32 0x20010DB8, v6block 16 0x2002, v6block 7 0x7E,
      v6block 10 0x3FA, v6block 8 0xFF]"

definition within :: "nat \<Rightarrow> nat \<Rightarrow> nat \<Rightarrow> bool" where
  "within lo hi n \<longleftrightarrow> lo \<le> n \<and> n \<le> hi"

definition in_ranges :: "(nat \<times> nat) list \<Rightarrow> nat \<Rightarrow> bool" where
  "in_ranges rs n = list_ex (\<lambda>(lo, hi). within lo hi n) rs"

text \<open>An IPv4-mapped address is judged by the IPv4 table.\<close>

fun special_ref :: "netip_addr \<Rightarrow> bool" where
  "special_ref (Addr4 b) = in_ranges special4 (bytes_nat b)"
| "special_ref (Addr6 b _) =
     (if bytes_nat b div 2 ^ 32 = 0xFFFF then in_ranges special4 (bytes_nat b mod 2 ^ 32)
      else in_ranges special6 (bytes_nat b))"
| "special_ref AddrZero = True"

section \<open>Bytes and numbers\<close>

lemma foldl_bytes:
  "foldl (\<lambda>n x. 256 * n + unat x) k (b :: byte list) =
     k * 256 ^ length b + foldl (\<lambda>n x. 256 * n + unat x) 0 b"
proof (induction b arbitrary: k)
  case (Cons x b)
  show ?case using Cons.IH [of "256 * k + unat x"] Cons.IH [of "unat x"] by (simp add: algebra_simps)
qed simp

lemma bytes_nat_Nil [simp]: "bytes_nat [] = 0"
  by (simp add: bytes_nat_def)

lemma bytes_nat_Cons [simp]: "bytes_nat (x # b) = unat x * 256 ^ length b + bytes_nat b"
  using foldl_bytes [of "unat x" b] by (simp add: bytes_nat_def)

lemma bytes_nat_zeros [simp]: "bytes_nat (replicate k 0) = 0"
  by (induction k) simp_all

lemma bytes_nat_append: "bytes_nat (xs @ ys) = bytes_nat xs * 256 ^ length ys + bytes_nat ys"
  by (induction xs) (simp_all add: algebra_simps power_add)

lemma bytes_nat_less: "bytes_nat b < 256 ^ length b"
proof (induction b)
  case (Cons x b)
  have "unat x * 256 ^ length b \<le> 255 * 256 ^ length b"
    using byte_unat_less [of x] by (intro mult_le_mono1) simp
  with Cons show ?case unfolding bytes_nat_Cons length_Cons power_Suc by linarith
qed simp

lemma bytes_nat_div: "bytes_nat (xs @ ys) div 256 ^ length ys = bytes_nat xs"
  by (simp add: bytes_nat_append bytes_nat_less div_add1_eq)

lemma bytes_nat_mod: "bytes_nat (xs @ ys) mod 256 ^ length ys = bytes_nat ys"
  by (simp add: bytes_nat_append bytes_nat_less)

lemma bytes_nat_inject: "length xs = length ys \<Longrightarrow> bytes_nat xs = bytes_nat ys \<longleftrightarrow> xs = ys"
proof (induction xs ys rule: list_induct2)
  case (Cons x xs y ys)
  have "x = y \<and> xs = ys" if eq: "bytes_nat (x # xs) = bytes_nat (y # ys)"
  proof -
    have "bytes_nat ([x] @ xs) div 256 ^ length xs = bytes_nat ([y] @ ys) div 256 ^ length ys"
      "bytes_nat ([x] @ xs) mod 256 ^ length xs = bytes_nat ([y] @ ys) mod 256 ^ length ys"
      using eq Cons.hyps by (simp_all only: append_Cons append_Nil)
    then have "bytes_nat [x] = bytes_nat [y]" "bytes_nat xs = bytes_nat ys"
      by (simp_all only: bytes_nat_div bytes_nat_mod)
    with Cons.IH show ?thesis by (simp add: unsigned_word_eqI)
  qed
  then show ?case by auto
qed simp

lemma specialUsePrefixes_eq:
  "specialUsePrefixes =
     [(Addr4 [0, 0, 0, 0], 8), (Addr4 [100, 64, 0, 0], 10), (Addr4 [192, 0, 0, 0], 24), (Addr4 [192, 0, 2, 0], 24),
      (Addr4 [192, 88, 99, 0], 24), (Addr4 [198, 18, 0, 0], 15), (Addr4 [198, 51, 100, 0], 24),
      (Addr4 [203, 0, 113, 0], 24), (Addr4 [240, 0, 0, 0], 4), (Addr4 [255, 255, 255, 255], 32),
      (Addr6 (replicate 16 0) [], 128), (Addr6 ([0, 0x64, 0xFF, 0x9B] @ replicate 12 0) [], 96),
      (Addr6 ([1, 0] @ replicate 14 0) [], 64), (Addr6 ([0x20, 1] @ replicate 14 0) [], 23),
      (Addr6 ([0x20, 1, 0x0D, 0xB8] @ replicate 12 0) [], 32), (Addr6 ([0x20, 2] @ replicate 14 0) [], 16)]"
  unfolding specialUsePrefixes_def list.map
  by (simp add: MustParsePrefix_def ParsePrefix_def addr_eval)

section \<open>IPv4\<close>

lemma div_range: "0 < d \<Longrightarrow> n div d = c \<longleftrightarrow> within (c * d) (c * d + (d - 1)) n"
proof
  assume "0 < d" and c: "n div d = c"
  then show "within (c * d) (c * d + (d - 1)) n"
    using dividend_less_div_times [of d n] by (auto simp: within_def algebra_simps)
next
  assume "0 < d" "within (c * d) (c * d + (d - 1)) n"
  then show "n div d = c" by (intro div_nat_eqI) (auto simp: within_def algebra_simps)
qed

text \<open>The first bytes of an IPv4 address, from its number.\<close>

lemma v4_bytes:
  assumes "length b = 4"
  shows "unat (b ! 0) = bytes_nat b div 2 ^ 24" "256 * unat (b ! 0) + unat (b ! 1) = bytes_nat b div 2 ^ 16"
    "256 * (256 * unat (b ! 0) + unat (b ! 1)) + unat (b ! 2) = bytes_nat b div 2 ^ 8"
proof -
  obtain p q r s where b: "b = [p, q, r, s]" using assms by (auto simp: length_Suc_conv numeral_eq_Suc)
  show "unat (b ! 0) = bytes_nat b div 2 ^ 24" using bytes_nat_div [of "[p]" "[q, r, s]"] by (simp add: b)
  show "256 * unat (b ! 0) + unat (b ! 1) = bytes_nat b div 2 ^ 16"
    using bytes_nat_div [of "[p, q]" "[r, s]"] by (simp add: b)
  show "256 * (256 * unat (b ! 0) + unat (b ! 1)) + unat (b ! 2) = bytes_nat b div 2 ^ 8"
    using bytes_nat_div [of "[p, q, r]" "[s]"] by (simp add: b)
qed

lemma digit_pair:
  fixes a b a' b' :: nat
  assumes "b < 256" "b' < 256"
  shows "256 * a + b = 256 * a' + b' \<longleftrightarrow> a = a' \<and> b = b'"
proof
  assume eq: "256 * a + b = 256 * a' + b'"
  have "(256 * a + b) div 256 = a" "(256 * a + b) mod 256 = b" "(256 * a' + b') div 256 = a'" "(256 * a' + b') mod 256 = b'"
    using assms by simp_all
  with eq show "a = a' \<and> b = b'" by simp
qed simp

lemma special4_exact:
  assumes "length b = 4"
  shows "isSpecialUse (Addr4 b) \<longleftrightarrow> in_ranges special4 (bytes_nat b)"
proof -
  define n where "n = bytes_nat b"
  note v = v4_bytes [OF assms, folded n_def]
  have b1: "unat (b ! 1) < 256" and b2: "unat (b ! 2) < 256" by (rule byte_unat_less)+
  have zero: "b = replicate 4 0 \<longleftrightarrow> n = 0"
    using bytes_nat_inject [of b "replicate 4 0"] assms by (simp add: n_def)
  have eq: "b ! i = y \<longleftrightarrow> unat (b ! i) = unat y" for i and y :: byte by (rule word_unat_eq_iff)
  have P0: "b ! 0 = y \<longleftrightarrow> n div 2 ^ 24 = unat y" for y using v(1) by (simp add: eq)
  have P1: "b ! 0 = x \<and> b ! 1 = y \<longleftrightarrow> n div 2 ^ 16 = 256 * unat x + unat y" for x y
    unfolding eq v(2) [symmetric] using digit_pair [OF b1 byte_unat_less] by simp
  have P2: "b ! 0 = x \<and> b ! 1 = y \<and> b ! 2 = z \<longleftrightarrow> n div 2 ^ 8 = 256 * (256 * unat x + unat y) + unat z" for x y z
    unfolding eq v(3) [symmetric] digit_pair [OF b2 byte_unat_less] digit_pair [OF b1 byte_unat_less] by simp
  have Q: "b ! 0 = 172 \<and> and (b ! 1) 0xF0 = 16 \<longleftrightarrow> n div 2 ^ 16 div 16 = 16 * 172 + 1"
  proof -
    have "n div 2 ^ 16 div 16 = 16 * unat (b ! 0) + unat (b ! 1) div 16" unfolding v(2) [symmetric] by simp
    moreover have "unat (b ! 1) div 16 < 16" using b1 by simp
    moreover have "16 * a + q = 2753 \<longleftrightarrow> a = 172 \<and> q = 1" if "q < 16" for a q :: nat using that by presburger
    ultimately show ?thesis unfolding eq byte_and_F0 by simp
  qed
  have M: "and (b ! 0) 0xF0 = 0xE0 \<longleftrightarrow> n div 2 ^ 24 div 16 = 14"
    unfolding v(1) [symmetric] byte_and_F0 by simp
  have sub: "within 0 16777215 0" "n = 4294967295 \<Longrightarrow> within 4026531840 4294967295 n"
    "within 3758096384 3758096639 n \<Longrightarrow> within 3758096384 4026531839 n"
    by (simp_all add: within_def)
  show ?thesis
    unfolding isSpecialUse_def Let_def addr_Unmap.simps addr_IsLoopback.simps addr_IsUnspecified_def
      addr_IsPrivate.simps addr_IsLinkLocalUnicast.simps addr_IsLinkLocalMulticast.simps
      addr_IsMulticast.simps addr_IsInterfaceLocalMulticast.simps specialUsePrefixes_eq Q P2
    unfolding P1 unfolding P0 M
    using sub
    by (simp add: addr_IsValid_def zero n_def [symmetric] div_mult2_eq [symmetric] div_range in_ranges_def
        special4_def v4num_def) blast
qed

section \<open>IPv6\<close>

lemma v6_bytes:
  assumes "length b = 16"
  shows "unat (b ! 0) = bytes_nat b div 2 ^ 120" "unat (v6u16_0 b) = bytes_nat b div 2 ^ 112"
proof -
  obtain p b' where b': "b = p # b'" "length b' = 15" using assms by (auto simp: length_Suc_conv numeral_eq_Suc)
  then obtain q r where b: "b = p # q # r" "length r = 14" by (auto simp: length_Suc_conv numeral_eq_Suc)
  show "unat (b ! 0) = bytes_nat b div 2 ^ 120" using bytes_nat_div [of "[p]" b'] b' by simp
  have "256 * unat (b ! 0) + unat (b ! 1) = bytes_nat b div 2 ^ 112"
    using bytes_nat_div [of "[p, q]" r] b by simp
  moreover have "256 * unat (b ! 0) + unat (b ! 1) < 65536"
    using byte_unat_less [of "b ! 0"] byte_unat_less [of "b ! 1"] by simp
  ultimately show "unat (v6u16_0 b) = bytes_nat b div 2 ^ 112"
    by (simp add: v6u16_0_def unsigned_of_nat take_bit_nat_eq_self)
qed

lemma group_high_byte:
  assumes "and (v :: 16 word) 0xFF0F = y" "unat y div 256 = 255"
  shows "unat v div 256 = 255"
proof -
  have m: "drop_bit 8 (0xFF0F :: 16 word) = mask 8" by code_simp
  have "drop_bit 8 y = and (drop_bit 8 v) (mask 8)" unfolding assms(1) [symmetric] by (simp only: drop_bit_and m)
  also have "\<dots> = drop_bit 8 v"
    by (rule bit_word_eqI) (auto simp: bit_simps dest: bit_imp_le_length)
  finally have "unat (drop_bit 8 y) = unat (drop_bit 8 v)" by (rule arg_cong)
  moreover have "unat (drop_bit 8 w) = unat w div 256" for w :: "16 word"
    unfolding unsigned_drop_bit_eq take_bit_nat_eq_self [OF unsigned_less] by (simp add: drop_bit_eq_div)
  ultimately show ?thesis using assms(2) by (simp only:)
qed

lemma special6_exact:
  assumes "length b = 16" "take 12 b \<noteq> v4_in_v6"
  shows "isSpecialUse (Addr6 b []) \<longleftrightarrow> in_ranges special6 (bytes_nat b)"
proof -
  define n where "n = bytes_nat b"
  note v = v6_bytes [OF assms(1), folded n_def]
  have zero: "b = replicate 16 0 \<longleftrightarrow> n = 0" and one: "b = replicate 15 0 @ [1] \<longleftrightarrow> n = 1"
    using bytes_nat_inject [of b "replicate 16 0"] bytes_nat_inject [of b "replicate 15 0 @ [1]"] assms(1)
    by (simp_all add: n_def bytes_nat_append)
  have v112: "n div 2 ^ 112 div 256 = n div 2 ^ 120" by (simp add: div_mult2_eq [symmetric])
  have M: "b ! 0 = 0xFF \<longleftrightarrow> n div 2 ^ 120 = 255" using v(1) by (simp add: word_unat_eq_iff)
  have P: "and (b ! 0) 0xFE = 0xFC \<longleftrightarrow> n div 2 ^ 121 = 126"
    unfolding byte_and_FE v(1) by (simp add: div_mult2_eq [symmetric])
  have L: "and (v6u16_0 b) 0xFFC0 = 0xFE80 \<longleftrightarrow> n div 2 ^ 118 = 0x3FA"
    unfolding word_and_FFC0 v(2) by (simp add: div_mult2_eq [symmetric])
  have sub: "and (v6u16_0 b) 0xFF0F = 0xFF02 \<Longrightarrow> n div 2 ^ 120 = 255" "and (v6u16_0 b) 0xFF0F = 0xFF01 \<Longrightarrow> n div 2 ^ 120 = 255"
    unfolding v112 [symmetric] v(2) [symmetric] by (erule group_high_byte, simp)+
  have block: "bits \<le> 128 \<Longrightarrow> within (fst (v6block bits x)) (snd (v6block bits x)) n \<longleftrightarrow> n div 2 ^ (128 - bits) = x" for bits x
    by (simp add: v6block_def div_range)
  have spec: "in_ranges special6 n \<longleftrightarrow> n = 0 \<or> n = 1 \<or> n div 2 ^ 32 = 0x64FF9B0000000000000000
      \<or> n div 2 ^ 64 = 0x100000000000000 \<or> n div 2 ^ 105 = 0x100080 \<or> n div 2 ^ 96 = 0x20010DB8
      \<or> n div 2 ^ 112 = 0x2002 \<or> n div 2 ^ 121 = 126 \<or> n div 2 ^ 118 = 0x3FA \<or> n div 2 ^ 120 = 255"
    unfolding in_ranges_def special6_def list_ex_iff using block by (simp add: case_prod_beta)
  show ?thesis
    unfolding n_def [symmetric] spec isSpecialUse_def Let_def addr_Unmap.simps if_not_P [OF assms(2)] addr_IsLoopback.simps
      addr_IsUnspecified_def addr_IsPrivate.simps addr_IsLinkLocalUnicast.simps addr_IsLinkLocalMulticast.simps
      addr_IsMulticast.simps addr_IsInterfaceLocalMulticast.simps specialUsePrefixes_eq one P L M
    using sub by (simp add: addr_IsValid_def zero n_def [symmetric] bytes_nat_append) blast
qed

section \<open>The guard\<close>

lemma mapped_number:
  assumes "length b = 16"
  shows "take 12 b = v4_in_v6 \<longleftrightarrow> bytes_nat b div 2 ^ 32 = 0xFFFF" "bytes_nat (drop 12 b) = bytes_nat b mod 2 ^ 32"
proof -
  have b: "b = take 12 b @ drop 12 b" and l: "length (drop 12 b) = 4" "length (take 12 b) = 12" using assms by simp_all
  have "bytes_nat b div 2 ^ 32 = bytes_nat (take 12 b)" using bytes_nat_div [of "take 12 b" "drop 12 b"] l by simp
  moreover have "bytes_nat v4_in_v6 = 0xFFFF" by (simp add: v4_in_v6_def bytes_nat_append)
  moreover have "take 12 b = v4_in_v6 \<longleftrightarrow> bytes_nat (take 12 b) = bytes_nat v4_in_v6"
    using bytes_nat_inject [of "take 12 b" v4_in_v6] l by (simp add: v4_in_v6_def)
  ultimately show "take 12 b = v4_in_v6 \<longleftrightarrow> bytes_nat b div 2 ^ 32 = 0xFFFF" by simp
  show "bytes_nat (drop 12 b) = bytes_nat b mod 2 ^ 32" using bytes_nat_mod [of "take 12 b" "drop 12 b"] l by simp
qed

lemma isSpecialUse_ref:
  assumes "addr_wf a" "\<not> addr_hasZone a"
  shows "isSpecialUse a \<longleftrightarrow> special_ref a"
proof (cases a)
  case (Addr6 b z)
  then have l: "length b = 16" and z: "z = []" using assms by simp_all
  show ?thesis
  proof (cases "take 12 b = v4_in_v6")
    case True
    then have "isSpecialUse a \<longleftrightarrow> isSpecialUse (Addr4 (drop 12 b))" by (simp add: Addr6 isSpecialUse_def)
    with True special4_exact [of "drop 12 b"] l mapped_number [OF l] show ?thesis by (simp add: Addr6)
  next
    case False
    with special6_exact [OF l] mapped_number(1) [OF l] show ?thesis by (simp add: Addr6 z)
  qed
qed (use assms special4_exact in simp_all)



text \<open>
  A zone escapes the prefix tests: \<open>Prefix.Contains\<close> is false for every address with a zone, and
  \<open>IsUnspecified\<close> compares the zone. The NAT64 form of 127.0.0.1 and the unspecified address are
  refused without a zone and dialled with one.
\<close>

lemma replicate_numeral: "replicate (numeral k) x = x # replicate (pred_numeral k) x"
  by (simp add: numeral_eq_Suc)

theorem zone_escapes_guard:
  "checkDialAddress False ''tcp6'' ''[64:ff9b::7f00:1]:443'' \<noteq> None"
  "checkDialAddress False ''tcp6'' ''[64:ff9b::7f00:1%eth0]:443'' = None"
  "checkDialAddress False ''tcp6'' ''[::]:443'' \<noteq> None"
  "checkDialAddress False ''tcp6'' ''[::%eth0]:443'' = None"
  by (simp_all add: checkDialAddress_def SplitHost_def index_byte_of_def addr_eval isSpecialUse_def v4_in_v6_def
      addr_IsValid_def addr_IsUnspecified_def v6u16_0_def specialUsePrefixes_eq replicate_numeral)

end
