(* ===== verification/Cimd_Cache.thy ===== *)
theory Cimd_Cache
  imports Cimd_Guard
begin

text \<open>
  The document cache of \<open>src/internal/hydra/cimd_fetch.go\<close> under every interleaving of its calls:
  what it holds was obtained from its URL, through the dial guard, and is no older than \<open>CacheMax\<close>.
\<close>

section \<open>Histories of the cache\<close>

text \<open>
  The atomic steps of concurrent calls: a lookup, a retrieval with its insertion, an invalidation.
  Every interleaving of \<open>Fetch\<close> and \<open>Invalidate\<close> calls is a list of such steps.
\<close>

datatype fetch_step =
    StepGet time string
  | StepPut fetch_times "attempt list" string client_policy
  | StepInvalidate string

fun fetch_apply :: "cimd_env \<Rightarrow> fetch_step \<Rightarrow> fetcher \<Rightarrow> fetcher" where
  "fetch_apply env (StepGet now u) f = snd (fetch_get now u f)"
| "fetch_apply env (StepPut ts attempts u policy) f =
     (case fetchUncached env f (ft_ttl ts) attempts u policy of
        Inl _ \<Rightarrow> f
      | Inr (doc, ttl) \<Rightarrow> fetch_put (ft_fetched ts) (ft_put ts) u doc ttl f)"
| "fetch_apply env (StepInvalidate u) f = Invalidate u f"

lemma Fetch_history:
  "\<exists>steps. snd (Fetch env ts attempts (fold (fetch_apply env) between) u policy f) = fold (fetch_apply env) steps f"
proof (cases "fst (fetch_get (ft_get ts) u f)")
  case None
  let ?steps = "StepGet (ft_get ts) u # between @ [StepPut ts attempts u policy]"
  have "snd (Fetch env ts attempts (fold (fetch_apply env) between) u policy f) = fold (fetch_apply env) ?steps f"
    using None by (auto simp: Fetch_def Let_def case_prod_beta split: option.split sum.split)
  then show ?thesis by blast
next
  case (Some h)
  then have "snd (Fetch env ts attempts (fold (fetch_apply env) between) u policy f) = fold (fetch_apply env) [StepGet (ft_get ts) u] f"
    by (auto simp: Fetch_def case_prod_beta split: option.split)
  then show ?thesis by blast
qed

section \<open>Where a document comes from\<close>

text \<open>The host policy a Client Identifier URL passed.\<close>

definition host_allowed :: "cimd_env \<Rightarrow> fetcher_params \<Rightarrow> string \<Rightarrow> bool" where
  "host_allowed env p host \<longleftrightarrow>
     (\<forall>s \<in> set (fp_BlockedHosts p). ce_lower env (trim_space s) \<noteq> host)
     \<and> ((\<forall>s \<in> set (fp_AllowedHosts p). ce_lower env (trim_space s) = [])
        \<or> (\<exists>s \<in> set (fp_AllowedHosts p). ce_lower env (trim_space s) = host))"

text \<open>
  A document was obtained from its URL: the URL passed the rules and the host policy, the exchange
  went to a dialled address the guard let through, answered 200 with a body within the limit, and the
  document it carries is valid for this URL.
\<close>

definition obtained ::
  "cimd_env \<Rightarrow> fetcher_params \<Rightarrow> attempt list \<Rightarrow> string \<Rightarrow> client_policy \<Rightarrow> client_metadata \<Rightarrow> bool"
where
  "obtained env p attempts u policy doc \<longleftrightarrow>
     doc_valid (ce_parse env) policy u doc
     \<and> (\<exists>x. ValidateClientIDURL (ce_parse env) u = Inr x
          \<and> (ce_lower env (u_Hostname x) \<noteq> [] \<longrightarrow> host_allowed env p (ce_lower env (u_Hostname x))))
     \<and> (\<exists>network address r. (network, address, Some r) \<in> set attempts
          \<and> checkDialAddress (fp_AllowLoopback p) network address = None
          \<and> rs_StatusCode r = 200 \<and> length (rs_Body r) \<le> cimdMaxBody)"

lemma lowerSet_iff: "scope_set (lowerSet env xs) h \<longleftrightarrow> h \<noteq> [] \<and> (\<exists>s \<in> set xs. ce_lower env (trim_space s) = h)"
proof -
  have "scope_set (fold (\<lambda>s m. let s = ce_lower env (trim_space s) in if s \<noteq> [] then AList.update s True m else m) xs m) h
    \<longleftrightarrow> scope_set m h \<or> h \<noteq> [] \<and> (\<exists>s \<in> set xs. ce_lower env (trim_space s) = h)" for m
    by (induction xs arbitrary: m) (auto simp: scope_set_def gomap_simps Let_def)
  from this [of "[]"] show ?thesis by (simp add: lowerSet_def scope_set_def)
qed

lemma lowerSet_Nil: "lowerSet env xs = [] \<longleftrightarrow> (\<forall>s \<in> set xs. ce_lower env (trim_space s) = [])"
proof -
  have "AList.update k v m \<noteq> []" for k v and m :: "(string, bool) gomap" by (cases m) auto
  then have "fold (\<lambda>s m. let s = ce_lower env (trim_space s) in if s \<noteq> [] then AList.update s True m else m) xs m = []
    \<longleftrightarrow> m = [] \<and> (\<forall>s \<in> set xs. ce_lower env (trim_space s) = [])" for m
    by (induction xs arbitrary: m) (auto simp: Let_def)
  then show ?thesis by (simp add: lowerSet_def)
qed

lemma find_in_set: "find P xs = Some x \<Longrightarrow> x \<in> set xs \<and> P x"
  by (induction xs) (auto split: if_splits)

lemma http_Do_guarded:
  assumes "http_Do f attempts = Some r"
  shows "\<exists>network address. (network, address, Some r) \<in> set attempts
    \<and> checkDialAddress (fp_AllowLoopback (fe_params f)) network address = None"
  using assms by (auto simp: http_Do_def dest!: find_in_set split: option.splits prod.splits if_splits)

lemma cacheTTL_bounds:
  "cacheMin \<le> cacheMax \<Longrightarrow> cacheMin \<le> cacheTTL env cacheMin cacheMax now h \<and> cacheTTL env cacheMin cacheMax now h \<le> cacheMax"
  by (simp add: cacheTTL_def Let_def)

text \<open>What every step leaves alone: the parameters and the host lists.\<close>

definition fetcher_of :: "cimd_env \<Rightarrow> fetcher_params \<Rightarrow> fetcher \<Rightarrow> bool" where
  "fetcher_of env p f \<longleftrightarrow>
     fe_params f = p \<and> fe_blocked f = lowerSet env (fp_BlockedHosts p) \<and> fe_allowed f = lowerSet env (fp_AllowedHosts p)"

lemma fetchUncached_obtained:
  assumes "fetcher_of env p f" "fetchUncached env f now attempts u policy = Inr (doc, ttl)"
  shows "obtained env p attempts u policy doc"
    and "fp_CacheMin p \<le> fp_CacheMax p \<Longrightarrow> fp_CacheMin p \<le> ttl \<and> ttl \<le> fp_CacheMax p"
proof -
  from assms obtain x r where x: "ValidateClientIDURL (ce_parse env) u = Inr x"
    and b: "\<not> scope_set (fe_blocked f) (ce_lower env (u_Hostname x))"
      "fe_allowed f = [] \<or> scope_set (fe_allowed f) (ce_lower env (u_Hostname x))"
    and r: "http_Do f attempts = Some r" and d: "read_document env f now u policy r = Inr (doc, ttl)"
    by (auto simp: fetchUncached_def Let_def split: sum.splits if_splits option.splits)
  from b have "host_allowed env p (ce_lower env (u_Hostname x))" if "ce_lower env (u_Hostname x) \<noteq> []"
    using that assms(1) by (auto simp: host_allowed_def fetcher_of_def lowerSet_iff lowerSet_Nil)
  moreover from d obtain body doc0 where "rs_StatusCode r = 200" "read_limited (cimdMaxBody + 1) r = Some body"
    "length body \<le> cimdMaxBody" "ValidateDocument (ce_parse env) doc0 u policy = Inr doc"
    and ttl: "ttl = cacheTTL env (fp_CacheMin (fe_params f)) (fp_CacheMax (fe_params f)) now r"
    by (auto simp: read_document_def split: if_splits option.splits sum.splits)
  ultimately show "obtained env p attempts u policy doc"
    using x http_Do_guarded [OF r] assms(1) ValidateDocument_valid
    by (fastforce simp: obtained_def fetcher_of_def read_limited_def split: if_splits)
  show "fp_CacheMin p \<le> fp_CacheMax p \<Longrightarrow> fp_CacheMin p \<le> ttl \<and> ttl \<le> fp_CacheMax p"
    using assms(1) cacheTTL_bounds by (auto simp: ttl fetcher_of_def)
qed

section \<open>The cache holds only obtained documents\<close>

definition cache_vouched :: "cimd_env \<Rightarrow> fetcher_params \<Rightarrow> fetch_step set \<Rightarrow> fetcher \<Rightarrow> bool" where
  "cache_vouched env p steps f \<longleftrightarrow>
     fetcher_of env p f \<and> eph_inv (fe_cache f)
     \<and> (\<forall>t u c. eph_live t (fe_cache f) u = Some c \<longrightarrow>
          (\<exists>ts attempts policy. StepPut ts attempts u policy \<in> steps
             \<and> obtained env p attempts u policy (cd_Doc c) \<and> t < ft_put ts + fp_CacheMax p))"

lemma cache_vouched_mono: "cache_vouched env p steps f \<Longrightarrow> steps \<subseteq> steps' \<Longrightarrow> cache_vouched env p steps' f"
  unfolding cache_vouched_def by blast

lemma cache_vouched_put:
  assumes "cache_vouched env p steps f" "obtained env p attempts u policy doc" "0 < ttl" "ttl \<le> fp_CacheMax p"
    and "StepPut ts attempts u policy \<in> steps"
  shows "cache_vouched env p steps (fetch_put (ft_fetched ts) (ft_put ts) u doc ttl f)"
proof -
  have inv: "eph_inv (fe_cache f)" using assms(1) by (simp add: cache_vouched_def)
  have "\<exists>ts attempts policy. StepPut ts attempts k policy \<in> steps
      \<and> obtained env p attempts k policy (cd_Doc c) \<and> t < ft_put ts + fp_CacheMax p"
    if live: "eph_live t (fe_cache (fetch_put (ft_fetched ts) (ft_put ts) u doc ttl f)) k = Some c" for t k c
  proof (cases "k = u")
    case True
    with live assms(3) have "t < ft_put ts + ttl" "cd_Doc c = doc"
      by (auto simp: fetch_put_def eph_PutTTL_live_same split: if_splits)
    with True assms(2,4,5) show ?thesis by (intro exI [of _ ts] exI [of _ attempts] exI [of _ policy]) simp
  next
    case False
    with live have "eph_live t (fe_cache f) k = Some c"
      by (auto simp: fetch_put_def intro: eph_PutTTL_live_other [OF inv False])
    with assms(1) show ?thesis unfolding cache_vouched_def by blast
  qed
  with assms(1) eph_inv_PutTTL [OF inv] show ?thesis
    by (simp add: cache_vouched_def fetcher_of_def fetch_put_def)
qed

lemma eph_Delete_sub: "eph_live t (eph_Delete k c) k' = Some p \<Longrightarrow> eph_live t c k' = Some p"
  by (simp add: eph_Delete_def eph_live_deleteLocked split: if_splits)

lemma cache_vouched_shrink:
  assumes "cache_vouched env p steps f" "eph_inv c"
    and "\<And>t u d. eph_live t c u = Some d \<Longrightarrow> eph_live t (fe_cache f) u = Some d"
  shows "cache_vouched env p steps (f\<lparr>fe_cache := c\<rparr>)"
  using assms unfolding cache_vouched_def fetcher_of_def by simp

lemma cache_vouched_step:
  assumes "cache_vouched env p steps f" "0 < fp_CacheMin p" "fp_CacheMin p \<le> fp_CacheMax p"
  shows "cache_vouched env p (insert st steps) (fetch_apply env st f)"
proof -
  have mono: "cache_vouched env p (insert st steps) f" using assms(1) cache_vouched_mono by blast
  then have inv: "eph_inv (fe_cache f)" and fo: "fetcher_of env p f" by (simp_all add: cache_vouched_def)
  show ?thesis
  proof (cases st)
    case (StepGet now u)
    with cache_vouched_shrink [OF mono eph_inv_Get [OF inv] eph_Get_sub] show ?thesis
      by (simp add: fetch_get_def case_prod_beta)
  next
    case (StepPut ts attempts u policy)
    show ?thesis
    proof (cases "fetchUncached env f (ft_ttl ts) attempts u policy")
      case (Inr r)
      obtain doc ttl where r: "r = (doc, ttl)" by (cases r)
      note o = fetchUncached_obtained [OF fo Inr [unfolded r]]
      from assms(2,3) o(2) have "0 < ttl" "ttl \<le> fp_CacheMax p" by auto
      with cache_vouched_put [OF mono o(1) this, of ts] Inr r show ?thesis by (simp add: StepPut)
    qed (use mono StepPut in simp)
  next
    case (StepInvalidate u)
    with cache_vouched_shrink [OF mono eph_inv_deleteLocked [OF inv] eph_Delete_sub [unfolded eph_Delete_def]]
    show ?thesis by (simp add: Invalidate_def eph_Delete_def)
  qed
qed

lemma cache_vouched_run:
  assumes "cache_vouched env p seen f" "0 < fp_CacheMin p" "fp_CacheMin p \<le> fp_CacheMax p"
  shows "cache_vouched env p (seen \<union> set steps) (fold (fetch_apply env) steps f)"
  using assms(1)
proof (induction steps arbitrary: seen f)
  case (Cons st steps)
  from Cons.IH [OF cache_vouched_step [OF Cons.prems assms(2,3)]] show ?case by simp
qed simp

lemma cache_vouched_New:
  assumes "0 < fp_CacheMin p" "fp_CacheMin p \<le> fp_CacheMax p"
  shows "cache_vouched env p {} (NewFetcher env p)"
proof -
  have "NewFetcher env p = \<lparr>fe_params = p, fe_cache = eph_New (fp_CacheMax p) cimdCacheCap,
      fe_blocked = lowerSet env (fp_BlockedHosts p), fe_allowed = lowerSet env (fp_AllowedHosts p)\<rparr>"
    using assms by (simp add: NewFetcher_def Let_def)
  then show ?thesis by (simp add: cache_vouched_def fetcher_of_def eph_inv_New)
qed

section \<open>The property\<close>

lemma Fetch_vouched:
  assumes "0 < fp_CacheMin p" "fp_CacheMin p \<le> fp_CacheMax p"
    and "fst (Fetch env ts attempts (fold (fetch_apply env) between) u policy
           (fold (fetch_apply env) steps (NewFetcher env p))) = Inr (doc, hit)"
  shows "if hit
    then \<exists>ts' attempts' policy'. StepPut ts' attempts' u policy' \<in> set steps
           \<and> obtained env p attempts' u policy' doc \<and> ft_get ts < ft_put ts' + fp_CacheMax p
    else obtained env p attempts u policy doc"
proof -
  let ?f = "fold (fetch_apply env) steps (NewFetcher env p)"
  have ok: "cache_vouched env p (set steps) ?f"
    using cache_vouched_run [OF cache_vouched_New [OF assms(1,2)] assms(1,2)] by simp
  show ?thesis
  proof (cases "fst (fetch_get (ft_get ts) u ?f)")
    case (Some c)
    then have "eph_live (ft_get ts) (fe_cache ?f) u = Some c"
      by (simp add: fetch_get_def case_prod_beta eph_Get_result [symmetric])
    moreover have "doc = cd_Doc c" hit
      using assms(3) Some by (auto simp: Fetch_def case_prod_beta)
    ultimately show ?thesis using ok unfolding cache_vouched_def by simp
  next
    case None
    let ?g = "fold (fetch_apply env) (StepGet (ft_get ts) u # between) ?f"
    have "cache_vouched env p (set steps \<union> set (StepGet (ft_get ts) u # between)) ?g"
      using cache_vouched_run [OF ok assms(1,2)] .
    then have "fetcher_of env p ?g" by (simp add: cache_vouched_def)
    moreover from None assms(3) obtain ttl where "fetchUncached env ?g (ft_ttl ts) attempts u policy = Inr (doc, ttl)" "\<not> hit"
      by (auto simp: Fetch_def Let_def case_prod_beta split: sum.splits)
    ultimately show ?thesis using fetchUncached_obtained(1) by auto
  qed
qed

text \<open>
  Whatever interleaving of fetches and invalidations ran before, and whatever other calls run
  between the lookup and the retrieval, a document \<open>Fetch\<close> returns is valid for exactly the
  requested URL under the registration policy, and it was read from an address the dial guard let
  through, with status 200 and at most 5 KiB: in this very call, or, for a cache hit, in an earlier
  retrieval of the same URL less than \<open>CacheMax\<close> before. Errors and invalid documents are never
  served.
\<close>

theorem fetched_document_vouched:
  assumes "0 < fp_CacheMin p" "fp_CacheMin p \<le> fp_CacheMax p"
    and "fst (Fetch env ts attempts (fold (fetch_apply env) between) u policy
           (fold (fetch_apply env) steps (NewFetcher env p))) = Inr (doc, hit)"
  shows "if hit
    then \<exists>ts' attempts' policy'. StepPut ts' attempts' u policy' \<in> set steps
           \<and> obtained env p attempts' u policy' doc \<and> ft_get ts < ft_put ts' + fp_CacheMax p
    else obtained env p attempts u policy doc"
  using Fetch_vouched [OF assms] .

text \<open>A client at \<open>https://c.example/cimd\<close>, served from a public address.\<close>

definition ex_id :: string where "ex_id = ''https://c.example/cimd''"

definition ex_cb :: string where "ex_cb = ''http://127.0.0.1/cb''"

definition ex_url :: "string \<Rightarrow> string \<Rightarrow> string \<Rightarrow> string \<Rightarrow> url" where
  "ex_url scheme host path str =
     \<lparr>u_Scheme = scheme, u_User = False, u_Host = host, u_Hostname = host, u_Opaque = [], u_Path = path,
      u_EscapedPath = path, u_RawQuery = [], u_ForceQuery = False, u_Fragment = [], u_RawFragment = [], u_String = str\<rparr>"

definition ex_parse :: url_parser where
  "ex_parse s =
     (if s = ex_id then Some (ex_url ''https'' ''c.example'' ''/cimd'' ex_id)
      else if s = ex_cb then Some (ex_url ''http'' ''127.0.0.1'' ''/cb'' ex_cb) else None)"

definition ex_doc :: client_metadata where
  "ex_doc =
     \<lparr>cm_ClientID = ex_id, cm_ClientName = ''C'', cm_RedirectURIs = [ex_cb], cm_GrantTypes = [''authorization_code''],
      cm_ResponseTypes = [''code''], cm_Scope = ''mcp'', cm_TokenEndpointAuthMethod = ''none'', cm_JwksURI = [],
      cm_Jwks = [], cm_LogoURI = [], cm_ClientURI = [], cm_PolicyURI = [], cm_TosURI = [], cm_ApplicationType = [],
      cm_SoftwareID = [], cm_SoftwareVersion = [], cm_SoftwareStatement = [], cm_ClientSecret = [],
      cm_ClientSecretExpiresAt = None, cm_Contacts = []\<rparr>"

definition ex_cenv :: cimd_env where
  "ex_cenv = \<lparr>ce_parse = ex_parse, ce_lower = id, ce_decode = (\<lambda>s. if s = ''{}'' then Some ex_doc else None),
              ce_parseTime = (\<lambda>_. None)\<rparr>"

definition ex_policy :: client_policy where
  "ex_policy = \<lparr>cp_RedirectURIPatterns = [\<lambda>s. s = ex_cb], cp_AllowedScopes = [(''mcp'', True)]\<rparr>"

definition ex_fparams :: fetcher_params where
  "ex_fparams = \<lparr>fp_AllowLoopback = False, fp_AllowedHosts = [], fp_BlockedHosts = [''evil.example''],
                 fp_CacheMin = 300, fp_CacheMax = 86400\<rparr>"

definition ex_attempts :: "attempt list" where
  "ex_attempts =
     [(''tcp4'', ''93.184.216.34:443'',
       Some \<lparr>rs_StatusCode = 200, rs_ContentType = ''application/json'', rs_CacheControl = [], rs_Expires = [],
             rs_Location = False, rs_Body = ''{}'', rs_BodyErr = False\<rparr>)]"

definition ex_times :: fetch_times where
  "ex_times = \<lparr>ft_get = 0, ft_ttl = 1, ft_fetched = 2, ft_put = 3\<rparr>"

lemma ex_dial: "checkDialAddress False ''tcp4'' ''93.184.216.34:443'' = None"
  by (simp add: checkDialAddress_def SplitHost_def addr_eval isSpecialUse_def addr_IsValid_def addr_IsUnspecified_def
      replicate_numeral specialUsePrefixes_eq byte_and_F0)

lemma trim_space_plain:
  assumes "space_len space_runes s = 0" "space_len (map rev space_runes) (rev s) = 0"
  shows "trim_space s = s"
  using assms trim_left.simps [of space_runes s] trim_left.simps [of "map rev space_runes" "rev s"]
  by (simp add: trim_space_def)

lemma ex_trim:
  "trim_space ''C'' = ''C''" "trim_space ''application/json'' = ''application/json''" "trim_space ''mcp'' = ''mcp''"
  "trim_space ''evil.example'' = ''evil.example''"
  by (rule trim_space_plain; simp add: space_len_def space_runes_def has_prefix_def)+

lemma ex_valid: "ValidateDocument ex_parse ex_doc ex_id ex_policy = Inr ex_doc"
  by (simp add: ValidateDocument_def ex_doc_def check_auth_method_def authMethodNone_def check_uris_def ex_trim
      check_redirects_def ex_policy_def matchAny_def isAbsoluteURI_def ex_parse_def ex_url_def check_types_def
      default_to_def ex_id_def ex_cb_def Let_def)

lemma ex_id_valid: "ValidateClientIDURL ex_parse ex_id = Inr (ex_url ''https'' ''c.example'' ''/cimd'' ex_id)"
  by (simp add: ValidateClientIDURL_def ex_parse_def ex_url_def ex_id_def maxClientIDLen_def)

lemma ex_fetchUncached:
  assumes "fetcher_of ex_cenv ex_fparams f"
  shows "fetchUncached ex_cenv f now ex_attempts ex_id ex_policy = Inr (ex_doc, 300)"
  using assms
  by (simp add: fetchUncached_def ex_id_valid ex_cenv_def ex_url_def fetcher_of_def ex_fparams_def lowerSet_def
      scope_set_def ex_trim http_Do_def ex_attempts_def ex_dial read_document_def isJSONContentType_def read_limited_def
      cimdMaxBody_def ex_valid cacheTTL_def contains_str_def has_prefix_def Let_def)

lemma ex_fparams_ok: "0 < fp_CacheMin ex_fparams" "fp_CacheMin ex_fparams \<le> fp_CacheMax ex_fparams"
  by (simp_all add: ex_fparams_def)

lemma ex_Fetch:
  "fst (Fetch ex_cenv ex_times ex_attempts (fold (fetch_apply ex_cenv) []) ex_id ex_policy
          (fold (fetch_apply ex_cenv) [] (NewFetcher ex_cenv ex_fparams))) = Inr (ex_doc, False)"
proof -
  let ?f = "NewFetcher ex_cenv ex_fparams"
  note p = ex_fparams_ok
  have "cache_vouched ex_cenv ex_fparams {} ?f" by (rule cache_vouched_New [OF p])
  then have "cache_vouched ex_cenv ex_fparams {StepGet 0 ex_id} (snd (fetch_get 0 ex_id ?f))"
    using cache_vouched_step [OF _ p, of ex_cenv "{}" ?f "StepGet 0 ex_id"] by simp
  then have fo: "fetcher_of ex_cenv ex_fparams (snd (fetch_get 0 ex_id ?f))" by (simp add: cache_vouched_def)
  have "fst (fetch_get 0 ex_id ?f) = None"
    by (simp add: fetch_get_def case_prod_beta eph_Get_result NewFetcher_def Let_def)
  then show ?thesis
    using ex_fetchUncached [OF fo] by (simp add: Fetch_def case_prod_beta ex_times_def)
qed

theorem fetched_document_vouched_witness:
  "obtained ex_cenv ex_fparams ex_attempts ex_id ex_policy ex_doc"
  using fetched_document_vouched [OF ex_fparams_ok ex_Fetch] by simp

end
