(* ===== verification/Hydra_Admin.thy ===== *)
theory Hydra_Admin
  imports Go_Strings
begin

text \<open>
  \<open>src/internal/hydra/types.go\<close> and \<open>admin.go\<close>: the admin API client. Hydra itself is not part of the
  program: \<open>hy_srv\<close> answers a request, given all requests sent before, in any way at all, so the
  theorems hold whatever Hydra and its other clients do. Every call is threaded through the list
  of the requests sent so far, which is the effect of the program on Hydra. The decoders of
  the response bodies are arguments too. \<open>http.NewRequest\<close> fails only on a malformed base URL, which is
  one of the transport errors.
\<close>

section \<open>Types\<close>

record oauth2_client =
  oc_ClientID :: string
  oc_ClientName :: string
  oc_ClientSecret :: string
  oc_GrantTypes :: "string list"
  oc_ResponseTypes :: "string list"
  oc_Scope :: string
  oc_RedirectURIs :: "string list"
  oc_TokenEndpointAuthMethod :: string
  oc_JwksURI :: string
  oc_Jwks :: "(string, json) gomap"
  oc_ClientURI :: string
  oc_Metadata :: "(string, json) gomap option"
  oc_CreatedAt :: string

definition zero_client :: oauth2_client where
  "zero_client = \<lparr>oc_ClientID = [], oc_ClientName = [], oc_ClientSecret = [], oc_GrantTypes = [], oc_ResponseTypes = [],
     oc_Scope = [], oc_RedirectURIs = [], oc_TokenEndpointAuthMethod = [], oc_JwksURI = [], oc_Jwks = [],
     oc_ClientURI = [], oc_Metadata = None, oc_CreatedAt = []\<rparr>"

record accept_login =
  al_Subject :: string
  al_Remember :: bool
  al_RememberFor :: int
  al_Context :: "(string, json) gomap"

record login_request =
  lr_Challenge :: string
  lr_Skip :: bool
  lr_Subject :: string

record consent_request =
  cr_Challenge :: string
  cr_Skip :: bool
  cr_Subject :: string
  cr_Client :: oauth2_client
  cr_RequestedScope :: "string list"
  cr_RequestedAccessTokenAudience :: "string list"
  cr_Context :: "(string, json) gomap"

record accept_consent =
  ac_GrantScope :: "string list"
  ac_GrantAccessTokenAudience :: "string list"
  ac_Remember :: bool
  ac_RememberFor :: int
  ac_Session :: "(string, json) gomap"

record logout_request =
  lo_Challenge :: string
  lo_Subject :: string
  lo_Client :: "oauth2_client option"

record consent_session =
  cs_GrantScope :: "string list"
  cs_HandledAt :: string
  cs_Client :: "oauth2_client option"

section \<open>Requests and replies\<close>

datatype admin_body = NoBody | BodyLogin accept_login | BodyConsent accept_consent | BodyClient oauth2_client

record admin_request =
  rq_Method :: string
  rq_URL :: string
  rq_Body :: admin_body

datatype admin_reply = TransportError | Replied int string

datatype admin_error = AdminTransport | APIError int string | AdminDecode

record hydra_env =
  hy_base :: string
  hy_srv :: "admin_request list \<Rightarrow> admin_request \<Rightarrow> admin_reply"
  hy_redirect :: "string \<Rightarrow> string option"
  hy_login :: "string \<Rightarrow> login_request option"
  hy_consent :: "string \<Rightarrow> consent_request option"
  hy_logout :: "string \<Rightarrow> logout_request option"
  hy_client :: "string \<Rightarrow> oauth2_client option"
  hy_sessions :: "string \<Rightarrow> consent_session list option"

type_synonym sent = "admin_request list"

definition NewAdminClient :: "string \<Rightarrow> hydra_env \<Rightarrow> hydra_env" where
  "NewAdminClient adminURL hy = hy\<lparr>hy_base := trim_right_char CHR ''/'' adminURL\<rparr>"

definition send :: "hydra_env \<Rightarrow> string \<Rightarrow> string \<Rightarrow> admin_body \<Rightarrow> sent \<Rightarrow> admin_reply \<times> sent" where
  "send hy meth path body tr =
     (let rq = \<lparr>rq_Method = meth, rq_URL = hy_base hy @ path, rq_Body = body\<rparr> in (hy_srv hy tr rq, tr @ [rq]))"

text \<open>\<open>adminJSON\<close>; \<open>zero\<close> is the value of \<open>out\<close> when the body is empty.\<close>

definition adminJSON ::
  "hydra_env \<Rightarrow> string \<Rightarrow> string \<Rightarrow> admin_body \<Rightarrow> (string \<Rightarrow> 'a option) \<Rightarrow> 'a \<Rightarrow> sent \<Rightarrow> (admin_error + 'a) \<times> sent"
where
  "adminJSON hy meth path body decode zero tr =
     (case send hy meth path body tr of
        (TransportError, tr) \<Rightarrow> (Inl AdminTransport, tr)
      | (Replied status raw, tr) \<Rightarrow>
          if status < 200 \<or> status \<ge> 300 then (Inl (APIError status raw), tr)
          else if raw \<noteq> [] then (case decode raw of None \<Rightarrow> Inl AdminDecode | Some v \<Rightarrow> Inr v, tr)
          else (Inr zero, tr))"

definition ignore_body :: "string \<Rightarrow> unit option" where
  "ignore_body raw = Some ()"

section \<open>Operations\<close>

definition AcceptLoginRequest :: "hydra_env \<Rightarrow> string \<Rightarrow> accept_login \<Rightarrow> sent \<Rightarrow> (admin_error + string) \<times> sent" where
  "AcceptLoginRequest hy challenge body =
     adminJSON hy ''PUT'' (''/admin/oauth2/auth/requests/login/accept?login_challenge='' @ QueryEscape challenge)
       (BodyLogin body) (hy_redirect hy) []"

definition GetLoginRequest :: "hydra_env \<Rightarrow> string \<Rightarrow> sent \<Rightarrow> (admin_error + login_request) \<times> sent" where
  "GetLoginRequest hy challenge =
     adminJSON hy ''GET'' (''/admin/oauth2/auth/requests/login?login_challenge='' @ QueryEscape challenge)
       NoBody (hy_login hy) \<lparr>lr_Challenge = [], lr_Skip = False, lr_Subject = []\<rparr>"

definition zero_consent :: consent_request where
  "zero_consent = \<lparr>cr_Challenge = [], cr_Skip = False, cr_Subject = [], cr_Client = zero_client,
     cr_RequestedScope = [], cr_RequestedAccessTokenAudience = [], cr_Context = []\<rparr>"

definition GetConsentRequest :: "hydra_env \<Rightarrow> string \<Rightarrow> sent \<Rightarrow> (admin_error + consent_request) \<times> sent" where
  "GetConsentRequest hy challenge =
     adminJSON hy ''GET'' (''/admin/oauth2/auth/requests/consent?consent_challenge='' @ QueryEscape challenge)
       NoBody (hy_consent hy) zero_consent"

definition AcceptConsentRequest :: "hydra_env \<Rightarrow> string \<Rightarrow> accept_consent \<Rightarrow> sent \<Rightarrow> (admin_error + string) \<times> sent" where
  "AcceptConsentRequest hy challenge body =
     adminJSON hy ''PUT'' (''/admin/oauth2/auth/requests/consent/accept?consent_challenge='' @ QueryEscape challenge)
       (BodyConsent body) (hy_redirect hy) []"

definition ListConsentSessions :: "hydra_env \<Rightarrow> string \<Rightarrow> sent \<Rightarrow> (admin_error + consent_session list) \<times> sent" where
  "ListConsentSessions hy subject =
     adminJSON hy ''GET'' (''/admin/oauth2/auth/sessions/consent?subject='' @ QueryEscape subject)
       NoBody (hy_sessions hy) []"

text \<open>A 404 is no error for the revocations.\<close>

definition tolerate_404 :: "(admin_error + unit) \<times> sent \<Rightarrow> (admin_error + unit) \<times> sent" where
  "tolerate_404 r =
     (case r of (Inl (APIError status raw), tr) \<Rightarrow> if status = 404 then (Inr (), tr) else r | _ \<Rightarrow> r)"

definition RevokeConsentSessions :: "hydra_env \<Rightarrow> string \<Rightarrow> string \<Rightarrow> sent \<Rightarrow> (admin_error + unit) \<times> sent" where
  "RevokeConsentSessions hy subject clientID tr =
     (let path = ''/admin/oauth2/auth/sessions/consent?subject='' @ QueryEscape subject;
          path = (if clientID \<noteq> [] then path @ ''&client='' @ QueryEscape clientID else path @ ''&all=true'')
      in tolerate_404 (adminJSON hy ''DELETE'' path NoBody ignore_body () tr))"

definition RevokeLoginSessions :: "hydra_env \<Rightarrow> string \<Rightarrow> sent \<Rightarrow> (admin_error + unit) \<times> sent" where
  "RevokeLoginSessions hy subject tr =
     tolerate_404 (adminJSON hy ''DELETE'' (''/admin/oauth2/auth/sessions/login?subject='' @ QueryEscape subject)
       NoBody ignore_body () tr)"

definition GetLogoutRequest :: "hydra_env \<Rightarrow> string \<Rightarrow> sent \<Rightarrow> (admin_error + logout_request) \<times> sent" where
  "GetLogoutRequest hy challenge =
     adminJSON hy ''GET'' (''/admin/oauth2/auth/requests/logout?logout_challenge='' @ QueryEscape challenge)
       NoBody (hy_logout hy) \<lparr>lo_Challenge = [], lo_Subject = [], lo_Client = None\<rparr>"

definition AcceptLogoutRequest :: "hydra_env \<Rightarrow> string \<Rightarrow> sent \<Rightarrow> (admin_error + string) \<times> sent" where
  "AcceptLogoutRequest hy challenge =
     adminJSON hy ''PUT'' (''/admin/oauth2/auth/requests/logout/accept?logout_challenge='' @ QueryEscape challenge)
       NoBody (hy_redirect hy) []"

definition RejectLogoutRequest :: "hydra_env \<Rightarrow> string \<Rightarrow> sent \<Rightarrow> (admin_error + unit) \<times> sent" where
  "RejectLogoutRequest hy challenge =
     adminJSON hy ''PUT'' (''/admin/oauth2/auth/requests/logout/reject?logout_challenge='' @ QueryEscape challenge)
       NoBody ignore_body ()"

definition CreateClient :: "hydra_env \<Rightarrow> oauth2_client \<Rightarrow> sent \<Rightarrow> (admin_error + oauth2_client) \<times> sent" where
  "CreateClient hy client = adminJSON hy ''POST'' ''/admin/clients'' (BodyClient client) (hy_client hy) zero_client"

definition GetClient :: "hydra_env \<Rightarrow> string \<Rightarrow> sent \<Rightarrow> (admin_error + oauth2_client option) \<times> sent" where
  "GetClient hy clientID tr =
     (case send hy ''GET'' (''/admin/clients/'' @ PathEscape clientID) NoBody tr of
        (TransportError, tr) \<Rightarrow> (Inl AdminTransport, tr)
      | (Replied status raw, tr) \<Rightarrow>
          if status = 404 then (Inr None, tr)
          else if status < 200 \<or> status \<ge> 300 then (Inl (APIError status raw), tr)
          else (case hy_client hy raw of None \<Rightarrow> (Inl AdminDecode, tr) | Some c \<Rightarrow> (Inr (Some c), tr)))"

definition UpdateClient :: "hydra_env \<Rightarrow> string \<Rightarrow> oauth2_client \<Rightarrow> sent \<Rightarrow> (admin_error + oauth2_client) \<times> sent" where
  "UpdateClient hy clientID client =
     adminJSON hy ''PUT'' (''/admin/clients/'' @ PathEscape clientID) (BodyClient client) (hy_client hy) zero_client"

text \<open>\<open>src/internal/hydra/ensure_client.go\<close>: the first-party client is created or replaced at boot.\<close>

definition spa_client :: "string \<Rightarrow> string \<Rightarrow> oauth2_client" where
  "spa_client clientID redirectURI =
     zero_client\<lparr>oc_ClientID := clientID, oc_ClientName := ''ShellWatch Web UI'',
       oc_GrantTypes := [''authorization_code'', ''refresh_token''], oc_ResponseTypes := [''code''],
       oc_Scope := ''openid offline_access '' @ ''ui'', oc_RedirectURIs := [redirectURI],
       oc_TokenEndpointAuthMethod := ''none''\<rparr>"

datatype ensure_error = RedirectUnresolved | EnsureAdmin admin_error

definition EnsureSpaClient :: "hydra_env \<Rightarrow> string \<Rightarrow> string \<Rightarrow> sent \<Rightarrow> ensure_error option \<times> sent" where
  "EnsureSpaClient hy clientID redirectURI tr =
     (if redirectURI = [] then (Some RedirectUnresolved, tr)
      else case GetClient hy clientID tr of
             (Inl e, tr) \<Rightarrow> (Some (EnsureAdmin e), tr)
           | (Inr existing, tr) \<Rightarrow>
               (case (if existing = None then CreateClient hy (spa_client clientID redirectURI) tr
                      else UpdateClient hy clientID (spa_client clientID redirectURI) tr) of
                  (Inl e, tr) \<Rightarrow> (Some (EnsureAdmin e), tr)
                | (Inr _, tr) \<Rightarrow> (None, tr)))"

section \<open>What an operation sends\<close>

named_theorems admin_ops \<open>definitions of the admin operations\<close>

lemmas [admin_ops] = AcceptLoginRequest_def GetLoginRequest_def GetConsentRequest_def AcceptConsentRequest_def
  ListConsentSessions_def RevokeConsentSessions_def RevokeLoginSessions_def GetLogoutRequest_def
  AcceptLogoutRequest_def RejectLogoutRequest_def CreateClient_def UpdateClient_def

text \<open>Exactly one request per call, and the result is a function of the reply to it.\<close>

abbreviation admin_rq :: "hydra_env \<Rightarrow> string \<Rightarrow> string \<Rightarrow> admin_body \<Rightarrow> admin_request" where
  "admin_rq hy meth path body \<equiv> \<lparr>rq_Method = meth, rq_URL = hy_base hy @ path, rq_Body = body\<rparr>"

lemma adminJSON_sent [simp]: "snd (adminJSON hy meth path body decode zero tr) = tr @ [admin_rq hy meth path body]"
  by (simp add: adminJSON_def send_def Let_def split: admin_reply.split)

lemma GetClient_sent [simp]:
  "snd (GetClient hy clientID tr) = tr @ [admin_rq hy ''GET'' (''/admin/clients/'' @ PathEscape clientID) NoBody]"
  by (simp add: GetClient_def send_def Let_def split: admin_reply.split option.split)

lemma CreateClient_sent [simp]:
  "snd (CreateClient hy c tr) = tr @ [admin_rq hy ''POST'' ''/admin/clients'' (BodyClient c)]"
  by (simp add: CreateClient_def)

lemma UpdateClient_sent [simp]:
  "snd (UpdateClient hy clientID c tr) = tr @ [admin_rq hy ''PUT'' (''/admin/clients/'' @ PathEscape clientID) (BodyClient c)]"
  by (simp add: UpdateClient_def)

lemma AcceptConsentRequest_sent [simp]:
  "snd (AcceptConsentRequest hy challenge b tr) =
     tr @ [admin_rq hy ''PUT'' (''/admin/oauth2/auth/requests/consent/accept?consent_challenge='' @ QueryEscape challenge) (BodyConsent b)]"
  by (simp add: AcceptConsentRequest_def)

lemma AcceptLoginRequest_sent [simp]:
  "snd (AcceptLoginRequest hy challenge b tr) =
     tr @ [admin_rq hy ''PUT'' (''/admin/oauth2/auth/requests/login/accept?login_challenge='' @ QueryEscape challenge) (BodyLogin b)]"
  by (simp add: AcceptLoginRequest_def)

end
