(* ===== verification/Cimd_Resolver.thy ===== *)
theory Cimd_Resolver
  imports Cimd_Cache Hydra_Admin "HOL-Library.List_Lexorder" "HOL-Library.Char_ord"
begin

text \<open>
  \<open>src/internal/hydra/cimd_resolver.go\<close>: a URL client_id is resolved to its document and Hydra is
  brought in line with it. The per-client lock is in \<open>Keyed_Mutex\<close>; \<open>others\<close> stands for what
  other goroutines do to the document cache while a resolution runs.
\<close>

section \<open>Comparing clients\<close>

definition OriginCIMD :: string where "OriginCIMD = ''cimd''"

text \<open>\<open>sameStrings\<close>: both sorted, then compared element by element.\<close>

definition sameStrings :: "string list \<Rightarrow> string list \<Rightarrow> bool" where
  "sameStrings a b \<longleftrightarrow> length a = length b \<and> sort a = sort b"

text \<open>\<open>json.Marshal\<close> writes the members of a map in the order of their keys, at every level.\<close>

primrec json_sorted :: "json \<Rightarrow> json" where
  "json_sorted JNull = JNull"
| "json_sorted (JBool b) = JBool b"
| "json_sorted (JNum n) = JNum n"
| "json_sorted (JStr s) = JStr s"
| "json_sorted (JArr xs) = JArr (map json_sorted xs)"
| "json_sorted (JObj kvs) = JObj (sort_key fst (map (map_prod id json_sorted) kvs))"

definition sameJSON :: "(string, json) gomap \<Rightarrow> (string, json) gomap \<Rightarrow> bool" where
  "sameJSON a b \<longleftrightarrow> (a = [] \<and> b = []) \<or> json_sorted (JObj a) = json_sorted (JObj b)"

definition isCIMDClient :: "oauth2_client option \<Rightarrow> bool" where
  "isCIMDClient c =
     (case c of
        None \<Rightarrow> False
      | Some c \<Rightarrow>
          (case Option.bind (oc_Metadata c) (\<lambda>m. map_of m ''shellwatch'') of
             Some (JObj sw) \<Rightarrow> (case map_of sw ''origin'' of Some (JStr origin) \<Rightarrow> origin = OriginCIMD | _ \<Rightarrow> False)
           | _ \<Rightarrow> False))"

definition clientChanged :: "oauth2_client \<Rightarrow> oauth2_client \<Rightarrow> bool" where
  "clientChanged existing desired \<longleftrightarrow>
     oc_ClientName existing \<noteq> oc_ClientName desired
     \<or> oc_Scope existing \<noteq> oc_Scope desired
     \<or> oc_TokenEndpointAuthMethod existing \<noteq> oc_TokenEndpointAuthMethod desired
     \<or> oc_JwksURI existing \<noteq> oc_JwksURI desired
     \<or> oc_ClientURI existing \<noteq> oc_ClientURI desired
     \<or> \<not> sameStrings (oc_RedirectURIs existing) (oc_RedirectURIs desired)
     \<or> \<not> sameStrings (oc_GrantTypes existing) (oc_GrantTypes desired)
     \<or> \<not> sameStrings (oc_ResponseTypes existing) (oc_ResponseTypes desired)
     \<or> \<not> sameJSON (oc_Jwks existing) (oc_Jwks desired)"

definition materialChange :: "oauth2_client \<Rightarrow> oauth2_client \<Rightarrow> bool" where
  "materialChange existing desired \<longleftrightarrow>
     oc_TokenEndpointAuthMethod existing \<noteq> oc_TokenEndpointAuthMethod desired
     \<or> oc_JwksURI existing \<noteq> oc_JwksURI desired
     \<or> \<not> sameJSON (oc_Jwks existing) (oc_Jwks desired)"

section \<open>Provisioning\<close>

text \<open>\<open>fetchedAt\<close> is the formatted clock reading; \<open>logo_uri\<close> is not carried over.\<close>

definition desiredClient :: "string \<Rightarrow> string \<Rightarrow> client_metadata \<Rightarrow> string list \<Rightarrow> oauth2_client" where
  "desiredClient fetchedAt clientIDURL doc scope =
     zero_client\<lparr>oc_ClientID := clientIDURL, oc_ClientName := cm_ClientName doc, oc_GrantTypes := cm_GrantTypes doc,
       oc_ResponseTypes := cm_ResponseTypes doc, oc_Scope := join_with '' '' scope,
       oc_RedirectURIs := cm_RedirectURIs doc, oc_TokenEndpointAuthMethod := cm_TokenEndpointAuthMethod doc,
       oc_JwksURI := cm_JwksURI doc, oc_Jwks := cm_Jwks doc, oc_ClientURI := cm_ClientURI doc,
       oc_Metadata := Some [(''shellwatch'', JObj ([(''origin'', JStr OriginCIMD)]
         @ (if fetchedAt = [] then [] else [(''fetched_at'', JStr fetchedAt)])))]\<rparr>"

record provision_outcome =
  po_FirstSeen :: bool
  po_Refreshed :: bool
  po_Material :: bool

definition po_none :: provision_outcome where
  "po_none = \<lparr>po_FirstSeen = False, po_Refreshed = False, po_Material = False\<rparr>"

text \<open>The part of \<open>provision\<close> after the client is known to exist.\<close>

definition provision_existing ::
  "hydra_env \<Rightarrow> string \<Rightarrow> oauth2_client \<Rightarrow> oauth2_client \<Rightarrow> sent \<Rightarrow> (cimd_error + provision_outcome) \<times> sent"
where
  "provision_existing hy clientIDURL desired existing tr =
     (if \<not> isCIMDClient (Some existing) then (Inr po_none, tr)
      else if \<not> clientChanged existing desired then (Inr po_none, tr)
      else let material = materialChange existing desired in
           (case UpdateClient hy clientIDURL desired tr of
              (Inl _, tr) \<Rightarrow> (Inl RegistrationFailed, tr)
            | (Inr _, tr) \<Rightarrow> (Inr (po_none\<lparr>po_Refreshed := True, po_Material := material\<rparr>), tr)))"

definition provision ::
  "hydra_env \<Rightarrow> string \<Rightarrow> string \<Rightarrow> client_metadata \<Rightarrow> string list \<Rightarrow> sent \<Rightarrow> (cimd_error + provision_outcome) \<times> sent"
where
  "provision hy fetchedAt clientIDURL doc scope tr =
     (let desired = desiredClient fetchedAt clientIDURL doc scope in
      case GetClient hy clientIDURL tr of
        (Inl _, tr) \<Rightarrow> (Inl RegistrationFailed, tr)
      | (Inr (Some existing), tr) \<Rightarrow> provision_existing hy clientIDURL desired existing tr
      | (Inr None, tr) \<Rightarrow>
          (case CreateClient hy desired tr of
             (Inr _, tr) \<Rightarrow> (Inr (po_none\<lparr>po_FirstSeen := True\<rparr>), tr)
           | (Inl (APIError status raw), tr) \<Rightarrow>
               if status \<noteq> 409 then (Inl RegistrationFailed, tr)
               else (case GetClient hy clientIDURL tr of
                       (Inr (Some existing), tr) \<Rightarrow> provision_existing hy clientIDURL desired existing tr
                     | (_, tr) \<Rightarrow> (Inl RegistrationFailed, tr))
           | (Inl _, tr) \<Rightarrow> (Inl RegistrationFailed, tr)))"

section \<open>Resolution\<close>

record resolve_error =
  re_Code :: string
  re_Description :: cimd_error
  re_RedirectValidated :: bool

definition resolveErr :: "string \<Rightarrow> cimd_error \<Rightarrow> resolve_error" where
  "resolveErr code err = \<lparr>re_Code = code, re_Description = err, re_RedirectValidated = False\<rparr>"

record resolution =
  rn_Doc :: client_metadata
  rn_FirstSeen :: bool
  rn_Refreshed :: bool
  rn_MaterialChange :: bool

text \<open>The checks and the provisioning after the document is at hand; the fetcher is touched by \<open>Invalidate\<close> only.\<close>

definition resolve_document ::
  "cimd_env \<Rightarrow> hydra_env \<Rightarrow> client_policy \<Rightarrow> string \<Rightarrow> string \<Rightarrow> string \<Rightarrow> string \<Rightarrow> client_metadata \<Rightarrow>
   fetcher \<times> sent \<Rightarrow> (resolve_error + resolution) \<times> fetcher \<times> sent"
where
  "resolve_document env hy policy fetchedAt clientIDURL requestedRedirectURI requestedScope doc st =
     (let (f, tr) = st in
      if requestedRedirectURI \<noteq> [] \<and> \<not> MatchRedirectURI (ce_parse env) (cm_RedirectURIs doc) requestedRedirectURI
      then (Inl (resolveErr ''invalid_request'' RedirectNotRegistered), f, tr)
      else let redirectOK = requestedRedirectURI \<noteq> [] in
           case GrantedScope (cm_Scope doc) (cp_AllowedScopes policy) of
             Inl e \<Rightarrow> (Inl (resolveErr ''invalid_client'' e), f, tr)
           | Inr registered \<Rightarrow>
               (case GrantedScope requestedScope (setOf registered) of
                  Inl e \<Rightarrow> (Inl \<lparr>re_Code = ''invalid_scope'', re_Description = e, re_RedirectValidated = redirectOK\<rparr>, f, tr)
                | Inr _ \<Rightarrow>
                    (case provision hy fetchedAt clientIDURL doc registered tr of
                       (Inl e, tr) \<Rightarrow>
                         (Inl \<lparr>re_Code = ''server_error'', re_Description = e, re_RedirectValidated = redirectOK\<rparr>,
                          Invalidate clientIDURL f, tr)
                     | (Inr out, tr) \<Rightarrow>
                         (Inr \<lparr>rn_Doc = doc, rn_FirstSeen = po_FirstSeen out, rn_Refreshed = po_Refreshed out,
                               rn_MaterialChange = po_Material out\<rparr>, f, tr))))"

definition cimd_Resolve ::
  "cimd_env \<Rightarrow> hydra_env \<Rightarrow> client_policy \<Rightarrow> fetch_times \<Rightarrow> string \<Rightarrow> attempt list \<Rightarrow> (fetcher \<Rightarrow> fetcher) \<Rightarrow>
   string \<Rightarrow> string \<Rightarrow> string \<Rightarrow> fetcher \<times> sent \<Rightarrow> (resolve_error + resolution) \<times> fetcher \<times> sent"
where
  "cimd_Resolve env hy policy ts fetchedAt attempts others clientIDURL requestedRedirectURI requestedScope st =
     (case ValidateClientIDURL (ce_parse env) clientIDURL of
        Inl e \<Rightarrow> (Inl (resolveErr ''invalid_client'' e), st)
      | Inr _ \<Rightarrow>
          (case Fetch env ts attempts others clientIDURL policy (fst st) of
             (Inl e, f) \<Rightarrow> (Inl (resolveErr ''invalid_client'' e), f, snd st)
           | (Inr (doc, _), f) \<Rightarrow>
               resolve_document env hy policy fetchedAt clientIDURL requestedRedirectURI requestedScope doc (f, snd st)))"

end
