(* ===== verification/Front_Door.thy ===== *)
theory Front_Door
  imports Cimd_Resolver
begin

text \<open>
  \<open>src/internal/hydra/cimd_routes.go\<close> and \<open>clientevents.go\<close>: the authorization front door
  \<open>GET /api/hydra/authorize\<close>. A request is the decoded query values the handler reads, with the raw
  query it forwards. A redirect that carries an error is its parsed target and the three values the
  handler sets in its query.
\<close>

section \<open>Events\<close>

record client_event =
  ev_ClientID :: string
  ev_Origin :: string
  ev_Event :: string
  ev_ClientName :: string
  ev_MetadataHost :: string
  ev_AuthMethod :: string
  ev_RedirectURIs :: "string list"
  ev_Scope :: string
  ev_Reason :: "(string \<times> cimd_error) option + string"

definition zero_event :: client_event where
  "zero_event = \<lparr>ev_ClientID = [], ev_Origin = [], ev_Event = [], ev_ClientName = [], ev_MetadataHost = [],
     ev_AuthMethod = [], ev_RedirectURIs = [], ev_Scope = [], ev_Reason = Inr []\<rparr>"

definition ClientOriginDCR :: string where "ClientOriginDCR = ''dcr''"
definition ClientOriginCIMD :: string where "ClientOriginCIMD = ''cimd''"
definition ClientEventRegistered :: string where "ClientEventRegistered = ''registered''"
definition ClientEventRefreshed :: string where "ClientEventRefreshed = ''refreshed''"
definition ClientEventRejected :: string where "ClientEventRejected = ''rejected''"

section \<open>The handler\<close>

record auth_request =
  aq_client_id :: string
  aq_redirect_uri :: string
  aq_scope :: string
  aq_state :: string
  aq_RawQuery :: string

datatype fd_response =
    ToHydra string
  | ErrorRedirect url string cimd_error "string option"
  | ErrorPage string cimd_error

definition hostOf :: "cimd_env \<Rightarrow> string \<Rightarrow> string" where
  "hostOf env rawURL = (case ce_parse env rawURL of None \<Rightarrow> [] | Some u \<Rightarrow> ce_lower env (u_Hostname u))"

definition redirectToHydra :: "string \<Rightarrow> auth_request \<Rightarrow> fd_response" where
  "redirectToHydra hydraAuthorizeURL r =
     ToHydra (if aq_RawQuery r \<noteq> [] then hydraAuthorizeURL @ ''?'' @ aq_RawQuery r else hydraAuthorizeURL)"

definition fd_fail :: "cimd_env \<Rightarrow> auth_request \<Rightarrow> string \<Rightarrow> resolve_error \<Rightarrow> fd_response \<times> client_event list" where
  "fd_fail env r clientID e =
     (let ev = zero_event\<lparr>ev_ClientID := clientID, ev_Origin := ClientOriginCIMD, ev_Event := ClientEventRejected,
                 ev_MetadataHost := hostOf env clientID, ev_Reason := Inl (Some (re_Code e, re_Description e))\<rparr>;
          page = ErrorPage (re_Code e) (re_Description e)
      in (if re_RedirectValidated e \<and> aq_redirect_uri r \<noteq> []
          then case ce_parse env (aq_redirect_uri r) of
                 Some u \<Rightarrow> ErrorRedirect u (re_Code e) (re_Description e) (if aq_state r \<noteq> [] then Some (aq_state r) else None)
               | None \<Rightarrow> page
          else page, [ev]))"

definition resolution_events :: "cimd_env \<Rightarrow> string \<Rightarrow> resolution \<Rightarrow> client_event list" where
  "resolution_events env clientID res =
     (if rn_FirstSeen res \<or> rn_Refreshed res
      then [zero_event\<lparr>ev_ClientID := clientID, ev_Origin := ClientOriginCIMD,
              ev_Event := if rn_FirstSeen res then ClientEventRegistered else ClientEventRefreshed,
              ev_ClientName := cm_ClientName (rn_Doc res), ev_MetadataHost := hostOf env clientID,
              ev_AuthMethod := cm_TokenEndpointAuthMethod (rn_Doc res), ev_RedirectURIs := cm_RedirectURIs (rn_Doc res),
              ev_Reason := Inr (if rn_MaterialChange res then ''authentication keys or method changed'' else [])\<rparr>]
      else [])"

text \<open>\<open>enabled\<close> is \<open>p.Resolver != nil\<close>.\<close>

definition handleAuthorize ::
  "cimd_env \<Rightarrow> hydra_env \<Rightarrow> client_policy \<Rightarrow> bool \<Rightarrow> string \<Rightarrow> fetch_times \<Rightarrow> string \<Rightarrow> attempt list \<Rightarrow>
   (fetcher \<Rightarrow> fetcher) \<Rightarrow> auth_request \<Rightarrow> fetcher \<times> sent \<Rightarrow> (fd_response \<times> client_event list) \<times> fetcher \<times> sent"
where
  "handleAuthorize env hy policy enabled hydraAuthorizeURL ts fetchedAt attempts others r st =
     (let clientID = aq_client_id r in
      if \<not> enabled \<or> \<not> IsClientIDURL clientID then ((redirectToHydra hydraAuthorizeURL r, []), st)
      else case cimd_Resolve env hy policy ts fetchedAt attempts others clientID (aq_redirect_uri r) (aq_scope r) st of
             (Inl e, st) \<Rightarrow> (fd_fail env r clientID e, st)
           | (Inr res, st) \<Rightarrow> ((redirectToHydra hydraAuthorizeURL r, resolution_events env clientID res), st))"

section \<open>No open redirect\<close>

text \<open>
  The specification of a redirect match: the registered URI itself, or, for a literal loopback
  address, the same URI up to the port and the fragment.
\<close>

definition registered_for :: "url_parser \<Rightarrow> string list \<Rightarrow> string \<Rightarrow> bool" where
  "registered_for parse registered requested \<longleftrightarrow>
     requested \<in> set registered
     \<or> (\<exists>reg \<in> set registered. \<exists>u v. parse reg = Some u \<and> parse requested = Some v
          \<and> u_Hostname u \<in> {''127.0.0.1'', ''::1''} \<and> u_Hostname v = u_Hostname u \<and> u_Scheme v = u_Scheme u
          \<and> u_EscapedPath v = u_EscapedPath u \<and> u_RawQuery v = u_RawQuery u)"

lemma MatchRedirectURI_registered:
  assumes "MatchRedirectURI parse registered requested"
  shows "registered_for parse registered requested"
proof -
  from assms obtain v reg where v: "parse requested = Some v" and reg: "reg \<in> set registered" "redirect_matches parse requested v reg"
    by (auto simp: MatchRedirectURI_def list_ex_iff split: option.splits)
  show ?thesis
  proof (cases "reg = requested")
    case False
    with reg obtain u where "parse reg = Some u" "u_Hostname u = ''127.0.0.1'' \<or> u_Hostname u = ''::1''"
      "u_Scheme u = u_Scheme v" "u_Hostname u = u_Hostname v" "u_EscapedPath u = u_EscapedPath v" "u_RawQuery u = u_RawQuery v"
      by (auto simp: redirect_matches_def isLoopbackHost_def split: option.splits)
    with v have "\<exists>u v. parse reg = Some u \<and> parse requested = Some v
          \<and> u_Hostname u \<in> {''127.0.0.1'', ''::1''} \<and> u_Hostname v = u_Hostname u \<and> u_Scheme v = u_Scheme u
          \<and> u_EscapedPath v = u_EscapedPath u \<and> u_RawQuery v = u_RawQuery u"
      by (intro exI [of _ u] exI [of _ v]) simp
    with reg(1) show ?thesis unfolding registered_for_def by blast
  qed (use reg in \<open>simp add: registered_for_def\<close>)
qed

lemma resolve_document_validated:
  assumes "fst (resolve_document env hy policy fetchedAt clientIDURL redir scope doc st) = Inl e" "re_RedirectValidated e"
  shows "redir \<noteq> []" "MatchRedirectURI (ce_parse env) (cm_RedirectURIs doc) redir"
  using assms
  by (auto simp: resolve_document_def Let_def resolveErr_def case_prod_beta split: if_splits sum.splits)


definition ex_auth :: auth_request where
  "ex_auth = \<lparr>aq_client_id = ex_id, aq_redirect_uri = ex_cb, aq_scope = ''admin'', aq_state = ''s'', aq_RawQuery = []\<rparr>"

lemma ex_resolve_document:
  "resolve_document ex_cenv hy ex_policy fetchedAt ex_id ex_cb ''admin'' ex_doc (f, tr) =
     (Inl \<lparr>re_Code = ''invalid_scope'', re_Description = ScopeNotSubset [''mcp'', ''offline_access''], re_RedirectValidated = True\<rparr>, f, tr)"
proof -
  have "trim_space ''admin'' = ''admin''"
    by (rule trim_space_plain; simp add: space_len_def space_runes_def has_prefix_def)
  moreover have "string_fields ''admin'' = [''admin'']" "string_fields ''mcp'' = [''mcp'']"
    by (simp_all add: string_fields_def space_len_def space_runes_def has_prefix_def flush_def)
  ultimately show ?thesis
    by (simp add: resolve_document_def ex_cenv_def ex_doc_def MatchRedirectURI_def ex_parse_def ex_id_def ex_cb_def
        redirect_matches_def GrantedScope_def ex_trim ex_policy_def scope_set_def setOf_def map_keys_def Let_def)
qed

definition ex_hydra :: hydra_env where
  "ex_hydra = \<lparr>hy_base = ''http://hydra'', hy_srv = (\<lambda>tr rq. if rq_Method rq = ''GET'' then Replied 404 [] else Replied 201 []),
     hy_redirect = (\<lambda>_. None), hy_login = (\<lambda>_. None), hy_consent = (\<lambda>_. None), hy_logout = (\<lambda>_. None),
     hy_client = (\<lambda>_. None), hy_sessions = (\<lambda>_. None)\<rparr>"

lemma ex_handleAuthorize:
  "fst (fst (handleAuthorize ex_cenv ex_hydra ex_policy True ''http://hydra/oauth2/auth'' ex_times ''t'' ex_attempts
      (fold (fetch_apply ex_cenv) []) ex_auth (fold (fetch_apply ex_cenv) [] (NewFetcher ex_cenv ex_fparams), [])))
    = ErrorRedirect (ex_url ''http'' ''127.0.0.1'' ''/cb'' ex_cb) ''invalid_scope''
        (ScopeNotSubset [''mcp'', ''offline_access'']) (Some ''s'')"
proof -
  let ?F = "Fetch ex_cenv ex_times ex_attempts (fold (fetch_apply ex_cenv) []) ex_id ex_policy
      (fold (fetch_apply ex_cenv) [] (NewFetcher ex_cenv ex_fparams))"
  obtain f' where F: "?F = (Inr (ex_doc, False), f')" using ex_Fetch by (cases ?F) simp
  have "IsClientIDURL ex_id" by (simp add: IsClientIDURL_def ex_id_def has_prefix_def)
  moreover have "ce_parse ex_cenv ex_cb = Some (ex_url ''http'' ''127.0.0.1'' ''/cb'' ex_cb)" "ce_parse ex_cenv = ex_parse"
    by (simp_all add: ex_cenv_def ex_parse_def ex_cb_def ex_id_def)
  moreover have "ex_cb \<noteq> []" by (simp add: ex_cb_def)
  ultimately show ?thesis
    using F by (simp add: handleAuthorize_def ex_auth_def cimd_Resolve_def ex_id_valid ex_resolve_document fd_fail_def Let_def)
qed


end
