(* ===== verification/Cimd_Provision.thy ===== *)
theory Cimd_Provision
  imports Front_Door "HOL-Library.Multiset"
begin

text \<open>
  What the resolver of \<open>src/internal/hydra/cimd_resolver.go\<close> writes to Hydra: only clients it created
  itself from a metadata document, only after reading them, and only what the document and the
  registration policy allow.
\<close>

section \<open>The comparison of string lists\<close>

lemma sameStrings_mset: "sameStrings a b \<longleftrightarrow> mset a = mset b"
proof
  assume "sameStrings a b"
  then have "mset (sort a) = mset (sort b)" by (simp add: sameStrings_def)
  then show "mset a = mset b" by simp
next
  assume eq: "mset a = mset b"
  have "sort b = sort a"
  proof (rule properties_for_sort)
    show "mset (sort a) = mset b" using eq by simp
  qed simp
  moreover have "length a = length b" by (rule mset_eq_length [OF eq])
  ultimately show "sameStrings a b" unfolding sameStrings_def by simp
qed

section \<open>The requests of one resolution\<close>

text \<open>
  Every writing request of \<open>new\<close> carries the client \<open>c\<close> and follows a read of the same client: a
  creation a read that found none, an update one that found a client marked as provisioned
  from a document.
\<close>

definition writes_owned :: "hydra_env \<Rightarrow> string \<Rightarrow> oauth2_client \<Rightarrow> sent \<Rightarrow> sent \<Rightarrow> bool" where
  "writes_owned hy cid c tr new \<longleftrightarrow>
     (\<forall>i < length new. rq_Method (new ! i) \<noteq> ''GET'' \<longrightarrow>
        0 < i \<and>
        (let seen = fst (GetClient hy cid (tr @ take (i - 1) new)) in
           new ! i = admin_rq hy ''POST'' ''/admin/clients'' (BodyClient c) \<and> seen = Inr None
         \<or> new ! i = admin_rq hy ''PUT'' (''/admin/clients/'' @ PathEscape cid) (BodyClient c)
           \<and> (\<exists>e. seen = Inr (Some e) \<and> isCIMDClient (Some e) \<and> clientChanged e c)))"

lemma writes_owned_Nil: "writes_owned hy cid c tr []"
  by (simp add: writes_owned_def)

text \<open>A read, then possibly a write that the read justifies.\<close>

lemma provision_existing_sent:
  assumes "GetClient hy cid tr = (Inr (Some e), tr')"
  shows "\<exists>w. snd (provision_existing hy cid c e tr') = tr' @ w
    \<and> (w = [] \<or> w = [admin_rq hy ''PUT'' (''/admin/clients/'' @ PathEscape cid) (BodyClient c)]
         \<and> isCIMDClient (Some e) \<and> clientChanged e c)"
proof (cases "isCIMDClient (Some e) \<and> clientChanged e c")
  case True
  then have "snd (provision_existing hy cid c e tr') = snd (UpdateClient hy cid c tr')"
    by (simp add: provision_existing_def Let_def case_prod_beta split: sum.split)
  with True show ?thesis by simp
qed (auto simp: provision_existing_def)

abbreviation rq_get :: "hydra_env \<Rightarrow> string \<Rightarrow> admin_request" where
  "rq_get hy cid \<equiv> admin_rq hy ''GET'' (''/admin/clients/'' @ PathEscape cid) NoBody"

abbreviation rq_post :: "hydra_env \<Rightarrow> oauth2_client \<Rightarrow> admin_request" where
  "rq_post hy c \<equiv> admin_rq hy ''POST'' ''/admin/clients'' (BodyClient c)"

abbreviation rq_put :: "hydra_env \<Rightarrow> string \<Rightarrow> oauth2_client \<Rightarrow> admin_request" where
  "rq_put hy cid c \<equiv> admin_rq hy ''PUT'' (''/admin/clients/'' @ PathEscape cid) (BodyClient c)"

lemma writes_owned_shapes:
  "writes_owned hy cid c tr [rq_get hy cid]"
  "fst (GetClient hy cid tr) = Inr None \<Longrightarrow> writes_owned hy cid c tr [rq_get hy cid, rq_post hy c]"
  "fst (GetClient hy cid tr) = Inr None \<Longrightarrow> writes_owned hy cid c tr [rq_get hy cid, rq_post hy c, rq_get hy cid]"
  unfolding writes_owned_def by (auto simp: less_Suc_eq nth_Cons' Let_def)

lemma writes_owned_update:
  assumes "isCIMDClient (Some e)" "clientChanged e c"
  shows "fst (GetClient hy cid tr) = Inr (Some e) \<Longrightarrow> writes_owned hy cid c tr [rq_get hy cid, rq_put hy cid c]"
    and "fst (GetClient hy cid tr) = Inr None \<Longrightarrow> fst (GetClient hy cid (tr @ [rq_get hy cid, rq_post hy c])) = Inr (Some e) \<Longrightarrow>
      writes_owned hy cid c tr [rq_get hy cid, rq_post hy c, rq_get hy cid, rq_put hy cid c]"
  unfolding writes_owned_def using assms by (auto simp: less_Suc_eq nth_Cons' Let_def)

lemma provision_owned:
  "\<exists>new. snd (provision hy fetchedAt cid doc scope tr) = tr @ new
     \<and> writes_owned hy cid (desiredClient fetchedAt cid doc scope) tr new"
proof -
  let ?c = "desiredClient fetchedAt cid doc scope"
  let ?P = "provision hy fetchedAt cid doc scope tr"
  obtain g tr1 where G: "GetClient hy cid tr = (g, tr1)" by (cases "GetClient hy cid tr")
  have tr1: "tr1 = tr @ [rq_get hy cid]" using GetClient_sent [of hy cid tr] G by simp
  consider (err) e where "g = Inl e" | (some) e where "g = Inr (Some e)" | (none) "g = Inr None"
    by (cases g) (auto split: option.splits)
  then show ?thesis
  proof cases
    case err
    then have "snd ?P = tr @ [rq_get hy cid]" using G by (simp add: provision_def tr1)
    with writes_owned_shapes(1) show ?thesis by blast
  next
    case (some e)
    obtain w where "snd (provision_existing hy cid ?c e tr1) = tr1 @ w"
      "w = [] \<or> w = [rq_put hy cid ?c] \<and> isCIMDClient (Some e) \<and> clientChanged e ?c"
      using provision_existing_sent G some by blast
    with some G writes_owned_shapes(1) writes_owned_update(1) show ?thesis
      by (intro exI [of _ "rq_get hy cid # w"]) (auto simp: provision_def tr1)
  next
    case none
    then have seen: "fst (GetClient hy cid tr) = Inr None" using G by simp
    obtain r tr2 where C: "CreateClient hy ?c tr1 = (r, tr2)" by (cases "CreateClient hy ?c tr1")
    have "tr2 = tr1 @ [rq_post hy ?c]" using CreateClient_sent [of hy ?c tr1] unfolding C snd_conv .
    then have tr2: "tr2 = tr @ [rq_get hy cid, rq_post hy ?c]" unfolding tr1 by simp
    obtain g2 tr3 where G2: "GetClient hy cid tr2 = (g2, tr3)" by (cases "GetClient hy cid tr2")
    have tr3: "tr3 = tr2 @ [rq_get hy cid]" using GetClient_sent [of hy cid tr2] G2 by simp
    have "snd ?P = tr2 \<or> snd ?P = tr3 \<or> (\<exists>e. g2 = Inr (Some e) \<and> snd ?P = snd (provision_existing hy cid ?c e tr3))"
      using none G C G2 by (simp add: provision_def Let_def split: sum.split admin_error.split option.split)
    then consider (created) "snd ?P = tr2" | (gone) "snd ?P = tr3"
      | (lost) e where "g2 = Inr (Some e)" "snd ?P = snd (provision_existing hy cid ?c e tr3)" by blast
    then show ?thesis
    proof cases
      case created
      with writes_owned_shapes(2) [OF seen] tr2 show ?thesis by blast
    next
      case gone
      with writes_owned_shapes(3) [OF seen] tr2 tr3 show ?thesis by (metis append.assoc append_Cons append_Nil)
    next
      case (lost e)
      obtain w where "snd ?P = tr3 @ w" "w = [] \<or> w = [rq_put hy cid ?c] \<and> isCIMDClient (Some e) \<and> clientChanged e ?c"
        using provision_existing_sent G2 lost by metis
      with writes_owned_shapes(3) [OF seen] writes_owned_update(2) [of e ?c hy cid tr] seen G2 lost tr2 tr3 show ?thesis
        by (intro exI [of _ "[rq_get hy cid, rq_post hy ?c, rq_get hy cid] @ w"]) auto
    qed
  qed
qed

section \<open>The property\<close>

lemma GrantedScope_allowed:
  assumes "GrantedScope requested allowed = Inr granted"
  shows "set granted \<subseteq> insert ''offline_access'' {s. scope_set allowed s}"
  using assms by (auto simp: GrantedScope_def Let_def split: if_splits)

lemma desiredClient_fields:
  "oc_ClientID (desiredClient t cid doc scope) = cid" "oc_ClientSecret (desiredClient t cid doc scope) = []"
  "isCIMDClient (Some (desiredClient t cid doc scope))"
  by (simp_all add: desiredClient_def zero_client_def isCIMDClient_def)

lemma resolve_document_sent:
  "snd (snd (resolve_document env hy policy t cid redir scope doc (f, tr))) = tr
   \<or> (\<exists>registered. GrantedScope (cm_Scope doc) (cp_AllowedScopes policy) = Inr registered
        \<and> snd (snd (resolve_document env hy policy t cid redir scope doc (f, tr))) = snd (provision hy t cid doc registered tr))"
  by (simp add: resolve_document_def Let_def case_prod_beta split: sum.split)

text \<open>
  The resolver writes only what it owns. Whatever happened before and however Hydra answers, every
  creation and update a resolution sends carries one and the same client, whose id is the Client
  Identifier URL, which has no secret and is marked as provisioned from a document; its
  redirect URIs and names are those of a document obtained from that URL, its scope is within the
  policy's allowlist plus \<open>offline_access\<close>. A creation follows a read that found no client, an
  update a read that found a client carrying the mark and differing from the document; a client
  registered by anyone else is never written.
\<close>

theorem cimd_writes_owned:
  assumes "0 < fp_CacheMin p" "fp_CacheMin p \<le> fp_CacheMax p"
  shows "\<exists>new. snd (snd (cimd_Resolve env hy policy ts t attempts (fold (fetch_apply env) between) cid redir scope
              (fold (fetch_apply env) steps (NewFetcher env p), tr))) = tr @ new
    \<and> (new = [] \<or> (\<exists>c doc attempts' policy' registered.
          writes_owned hy cid c tr new \<and> obtained env p attempts' cid policy' doc
          \<and> oc_ClientID c = cid \<and> oc_ClientSecret c = [] \<and> isCIMDClient (Some c)
          \<and> oc_RedirectURIs c = cm_RedirectURIs doc \<and> oc_ClientName c = cm_ClientName doc
          \<and> oc_Scope c = join_with '' '' registered
          \<and> set registered \<subseteq> insert ''offline_access'' {s. scope_set (cp_AllowedScopes policy) s}))"
proof -
  let ?f = "fold (fetch_apply env) steps (NewFetcher env p)"
  let ?R = "cimd_Resolve env hy policy ts t attempts (fold (fetch_apply env) between) cid redir scope (?f, tr)"
  let ?F = "Fetch env ts attempts (fold (fetch_apply env) between) cid policy ?f"
  show ?thesis
  proof (cases "snd (snd ?R) = tr")
    case False
    then obtain doc hit f' where F: "?F = (Inr (doc, hit), f')"
      and R: "?R = resolve_document env hy policy t cid redir scope doc (f', tr)"
      by (auto simp: cimd_Resolve_def split: sum.splits prod.splits)
    with False resolve_document_sent [of env hy policy t cid redir scope doc f' tr]
    obtain registered where g: "GrantedScope (cm_Scope doc) (cp_AllowedScopes policy) = Inr registered"
      and s: "snd (snd ?R) = snd (provision hy t cid doc registered tr)" by auto
    obtain attempts' policy' where o: "obtained env p attempts' cid policy' doc"
      using Fetch_vouched [OF assms, of env ts attempts between cid policy steps doc hit] F by (auto split: if_splits)
    obtain new where new: "snd (provision hy t cid doc registered tr) = tr @ new"
      "writes_owned hy cid (desiredClient t cid doc registered) tr new" using provision_owned by blast
    have "oc_RedirectURIs (desiredClient t cid doc registered) = cm_RedirectURIs doc"
      "oc_ClientName (desiredClient t cid doc registered) = cm_ClientName doc"
      "oc_Scope (desiredClient t cid doc registered) = join_with '' '' registered"
      by (simp_all add: desiredClient_def)
    with s o new GrantedScope_allowed [OF g] desiredClient_fields show ?thesis
      by (intro exI [of _ new] conjI disjI2 exI [of _ "desiredClient t cid doc registered"] exI [of _ doc]
          exI [of _ attempts'] exI [of _ policy'] exI [of _ registered]) simp_all
  qed auto
qed

lemma ex_resolve_sent:
  "snd (snd (resolve_document ex_cenv ex_hydra ex_policy t ex_id ex_cb ''mcp'' ex_doc (f, []))) =
     [rq_get ex_hydra ex_id, rq_post ex_hydra (desiredClient t ex_id ex_doc [''mcp'', ''offline_access''])]"
proof -
  have m: "MatchRedirectURI (ce_parse ex_cenv) (cm_RedirectURIs ex_doc) ex_cb"
    by (simp add: MatchRedirectURI_def ex_cenv_def ex_parse_def ex_doc_def redirect_matches_def ex_cb_def ex_id_def)
  have f: "string_fields ''mcp'' = [''mcp'']"
    by (simp add: string_fields_def space_len_def space_runes_def has_prefix_def flush_def)
  have g: "GrantedScope ''mcp'' (cp_AllowedScopes ex_policy) = Inr [''mcp'', ''offline_access'']"
    "GrantedScope ''mcp'' (setOf [''mcp'', ''offline_access'']) = Inr [''mcp'', ''offline_access'']" "cm_Scope ex_doc = ''mcp''"
    by (simp_all add: GrantedScope_def ex_trim f ex_policy_def scope_set_def setOf_def ex_doc_def)
  define g0 where "g0 = rq_get ex_hydra ex_id"
  have G: "GetClient ex_hydra ex_id [] = (Inr None, [g0])"
    using GetClient_sent [of ex_hydra ex_id "[]"]
    by (simp add: GetClient_def send_def ex_hydra_def g0_def)
  have C: "CreateClient ex_hydra c [g0] = (Inr zero_client, [g0, rq_post ex_hydra c])" for c
    by (simp add: CreateClient_def adminJSON_def send_def ex_hydra_def)
  show ?thesis unfolding g0_def [symmetric] using m by (simp add: resolve_document_def g provision_def G C Let_def)
qed

theorem cimd_writes_owned_witness:
  "\<exists>c. writes_owned ex_hydra ex_id c []
      [rq_get ex_hydra ex_id, rq_post ex_hydra (desiredClient ''t'' ex_id ex_doc [''mcp'', ''offline_access''])]
    \<and> oc_ClientID c = ex_id \<and> oc_ClientSecret c = [] \<and> isCIMDClient (Some c)"
proof -
  let ?F = "Fetch ex_cenv ex_times ex_attempts (fold (fetch_apply ex_cenv) []) ex_id ex_policy
      (fold (fetch_apply ex_cenv) [] (NewFetcher ex_cenv ex_fparams))"
  let ?R = "cimd_Resolve ex_cenv ex_hydra ex_policy ex_times ''t'' ex_attempts (fold (fetch_apply ex_cenv) []) ex_id ex_cb ''mcp''
      (fold (fetch_apply ex_cenv) [] (NewFetcher ex_cenv ex_fparams), [])"
  obtain f' where F: "?F = (Inr (ex_doc, False), f')" using ex_Fetch by (cases ?F) simp
  have "ce_parse ex_cenv = ex_parse" by (simp add: ex_cenv_def)
  then have R: "?R = resolve_document ex_cenv ex_hydra ex_policy ''t'' ex_id ex_cb ''mcp'' ex_doc (f', [])"
    using F by (simp add: cimd_Resolve_def ex_id_valid)
  show ?thesis
    using cimd_writes_owned [OF ex_fparams_ok, of ex_cenv ex_hydra ex_policy ex_times "''t''" ex_attempts "[]" ex_id ex_cb "''mcp''" "[]" "[]"]
    unfolding R ex_resolve_sent append_Nil by blast
qed

end
