(* ===== verification/Keyed_Mutex.thy ===== *)
theory Keyed_Mutex
  imports Prelude
begin

text \<open>
  \<open>keyedMutex\<close> of \<open>src/internal/hydra/cimd_resolver.go\<close>: work is serialized per key, and an entry
  exists only while somebody holds or awaits its key. The entries are objects on a heap, so that two
  goroutines may hold pointers to different entries of one key; that they never do is part of
  the invariant. Each step of a goroutine is one critical section of the code: the first section of
  \<open>lock\<close> under the map lock, the acquisition of the entry's mutex, and the two sections of
  the release function. \<open>refs\<close> counts goroutines and cannot overflow.
\<close>

section \<open>State and operations\<close>

record keyed_entry =
  ke_mu :: bool
  ke_refs :: int

record keyed_mutex =
  km_entries :: "(string, nat) gomap"
  km_heap :: "keyed_entry list"

definition newKeyedMutex :: keyed_mutex where
  "newKeyedMutex = \<lparr>km_entries = [], km_heap = []\<rparr>"

definition km_upd :: "nat \<Rightarrow> (keyed_entry \<Rightarrow> keyed_entry) \<Rightarrow> keyed_mutex \<Rightarrow> keyed_mutex" where
  "km_upd e f k = k\<lparr>km_heap := (km_heap k)[e := f (km_heap k ! e)]\<rparr>"

text \<open>The section of \<open>lock\<close> under \<open>k.mu\<close>: find or create the entry, count the caller.\<close>

definition km_enter :: "string \<Rightarrow> keyed_mutex \<Rightarrow> nat \<times> keyed_mutex" where
  "km_enter key k =
     (let (e, k) = (case map_of (km_entries k) key of
                      Some e \<Rightarrow> (e, k)
                    | None \<Rightarrow> let e = length (km_heap k)
                             in (e, k\<lparr>km_entries := AList.update key e (km_entries k),
                                      km_heap := km_heap k @ [\<lparr>ke_mu = False, ke_refs = 0\<rparr>]\<rparr>))
      in (e, km_upd e (\<lambda>x. x\<lparr>ke_refs := ke_refs x + 1\<rparr>) k))"

text \<open>\<open>e.mu.Lock()\<close> proceeds only when the mutex is free.\<close>

definition km_acquire :: "nat \<Rightarrow> keyed_mutex \<Rightarrow> keyed_mutex option" where
  "km_acquire e k = (if ke_mu (km_heap k ! e) then None else Some (km_upd e (\<lambda>x. x\<lparr>ke_mu := True\<rparr>) k))"

text \<open>The release function: unlock, then uncount under the map lock and drop an unused entry.\<close>

definition km_unlock :: "nat \<Rightarrow> keyed_mutex \<Rightarrow> keyed_mutex" where
  "km_unlock e k = km_upd e (\<lambda>x. x\<lparr>ke_mu := False\<rparr>) k"

definition km_leave :: "string \<Rightarrow> nat \<Rightarrow> keyed_mutex \<Rightarrow> keyed_mutex" where
  "km_leave key e k =
     (let k = km_upd e (\<lambda>x. x\<lparr>ke_refs := ke_refs x - 1\<rparr>) k
      in if ke_refs (km_heap k ! e) = 0 then k\<lparr>km_entries := AList.delete key (km_entries k)\<rparr> else k)"

definition km_len :: "keyed_mutex \<Rightarrow> nat" where
  "km_len k = length (km_entries k)"

section \<open>Goroutines\<close>

datatype km_pc = Idle | Awaiting string nat | Holding string nat | Releasing string nat

fun pc_at :: "km_pc \<Rightarrow> (string \<times> nat) option" where
  "pc_at Idle = None"
| "pc_at (Awaiting key e) = Some (key, e)"
| "pc_at (Holding key e) = Some (key, e)"
| "pc_at (Releasing key e) = Some (key, e)"

type_synonym km_state = "keyed_mutex \<times> km_pc list"

inductive km_step :: "km_state \<Rightarrow> km_state \<Rightarrow> bool" where
  Enter: "i < length ps \<Longrightarrow> ps ! i = Idle \<Longrightarrow> km_enter key k = (e, k') \<Longrightarrow>
    km_step (k, ps) (k', ps[i := Awaiting key e])"
| Acquire: "i < length ps \<Longrightarrow> ps ! i = Awaiting key e \<Longrightarrow> km_acquire e k = Some k' \<Longrightarrow>
    km_step (k, ps) (k', ps[i := Holding key e])"
| Unlock: "i < length ps \<Longrightarrow> ps ! i = Holding key e \<Longrightarrow>
    km_step (k, ps) (km_unlock e k, ps[i := Releasing key e])"
| Leave: "i < length ps \<Longrightarrow> ps ! i = Releasing key e \<Longrightarrow>
    km_step (k, ps) (km_leave key e k, ps[i := Idle])"

inductive km_reach :: "nat \<Rightarrow> km_state \<Rightarrow> bool" for n where
  Start: "km_reach n (newKeyedMutex, replicate n Idle)"
| Next: "km_reach n s \<Longrightarrow> km_step s s' \<Longrightarrow> km_reach n s'"

section \<open>The invariant\<close>

definition users :: "string \<Rightarrow> nat \<Rightarrow> km_pc list \<Rightarrow> nat" where
  "users key e ps = length (filter (\<lambda>pc. pc_at pc = Some (key, e)) ps)"

definition holders :: "string \<Rightarrow> nat \<Rightarrow> km_pc list \<Rightarrow> nat" where
  "holders key e ps = length (filter (\<lambda>pc. pc = Holding key e) ps)"

text \<open>
  An entry in the map counts its users, of whom there is at least one, and its mutex is locked exactly
  while one of them holds it; every goroutine under way points to the entry the map has
  for its key; no two keys share an entry.
\<close>

definition entry_ok :: "keyed_mutex \<Rightarrow> km_pc list \<Rightarrow> string \<Rightarrow> nat \<Rightarrow> bool" where
  "entry_ok k ps key e \<longleftrightarrow>
     e < length (km_heap k) \<and> ke_refs (km_heap k ! e) = int (users key e ps) \<and> 0 < users key e ps
     \<and> holders key e ps = (if ke_mu (km_heap k ! e) then 1 else 0)"

definition km_inv :: "km_state \<Rightarrow> bool" where
  "km_inv s \<longleftrightarrow>
     (case s of (k, ps) \<Rightarrow>
        gm_wf (km_entries k)
        \<and> (\<forall>key e. map_of (km_entries k) key = Some e \<longrightarrow> entry_ok k ps key e)
        \<and> (\<forall>pc \<in> set ps. \<forall>key e. pc_at pc = Some (key, e) \<longrightarrow> map_of (km_entries k) key = Some e)
        \<and> (\<forall>key key' e. map_of (km_entries k) key = Some e \<longrightarrow> map_of (km_entries k) key' = Some e \<longrightarrow> key = key'))"

lemma km_invI:
  assumes "gm_wf (km_entries k)"
    and "\<And>key e. map_of (km_entries k) key = Some e \<Longrightarrow> entry_ok k ps key e"
    and "\<And>pc key e. pc \<in> set ps \<Longrightarrow> pc_at pc = Some (key, e) \<Longrightarrow> map_of (km_entries k) key = Some e"
    and "\<And>key key' e. map_of (km_entries k) key = Some e \<Longrightarrow> map_of (km_entries k) key' = Some e \<Longrightarrow> key = key'"
  shows "km_inv (k, ps)"
  using assms unfolding km_inv_def prod.case by (intro conjI allI ballI impI) assumption+

lemma km_invD:
  assumes "km_inv (k, ps)"
  shows km_inv_wf: "gm_wf (km_entries k)"
    and km_inv_entry: "map_of (km_entries k) key = Some e \<Longrightarrow> entry_ok k ps key e"
    and km_inv_pc: "pc \<in> set ps \<Longrightarrow> pc_at pc = Some (key, e) \<Longrightarrow> map_of (km_entries k) key = Some e"
    and km_inv_inj: "map_of (km_entries k) key = Some e \<Longrightarrow> map_of (km_entries k) key' = Some e \<Longrightarrow> key = key'"
  using assms unfolding km_inv_def prod.case by blast+

text \<open>The pointers of the goroutines after one of them moved.\<close>

lemma pcs_update:
  assumes "km_inv (k, ps)" "q \<in> set (ps[i := pc])" "pc_at q = Some (key, e)"
  shows "q = pc \<or> map_of (km_entries k) key = Some e"
proof -
  have "q = pc \<or> q \<in> set ps" using assms(2) set_update_subset_insert [of ps i pc] by blast
  with km_inv_pc [OF assms(1) _ assms(3)] show ?thesis by blast
qed

lemma filter_length_update:
  "i < length xs \<Longrightarrow>
     int (length (filter P (xs[i := y]))) = int (length (filter P xs)) - (if P (xs ! i) then 1 else 0) + (if P y then 1 else 0)"
proof (induction xs arbitrary: i)
  case (Cons x xs)
  show ?case
  proof (cases i)
    case (Suc j)
    then show ?thesis using Cons.IH [of j] Cons.prems by (auto split: if_splits)
  qed simp
qed simp

lemma users_update:
  "i < length ps \<Longrightarrow> int (users key e (ps[i := pc])) =
     int (users key e ps) - (if pc_at (ps ! i) = Some (key, e) then 1 else 0) + (if pc_at pc = Some (key, e) then 1 else 0)"
  unfolding users_def by (rule filter_length_update)

lemma holders_update:
  "i < length ps \<Longrightarrow> int (holders key e (ps[i := pc])) =
     int (holders key e ps) - (if ps ! i = Holding key e then 1 else 0) + (if pc = Holding key e then 1 else 0)"
  unfolding holders_def by (rule filter_length_update)

lemma users_pos: "i < length ps \<Longrightarrow> pc_at (ps ! i) = Some (key, e) \<Longrightarrow> 0 < users key e ps"
  unfolding users_def by (metis (mono_tags, lifting) filter_empty_conv length_greater_0_conv nth_mem)

lemma users_zero: "users key e ps = 0 \<longleftrightarrow> (\<forall>pc \<in> set ps. pc_at pc \<noteq> Some (key, e))"
  by (simp add: users_def filter_empty_conv)

lemma holders_le_users: "holders key e ps \<le> users key e ps"
  unfolding holders_def users_def by (rule filter_length_mono) simp

lemma km_upd_heap [simp]:
  "km_entries (km_upd e f k) = km_entries k" "length (km_heap (km_upd e f k)) = length (km_heap k)"
  "e' < length (km_heap k) \<Longrightarrow> km_heap (km_upd e f k) ! e' = (if e' = e then f (km_heap k ! e) else km_heap k ! e')"
  by (simp_all add: km_upd_def nth_list_update)

section \<open>The invariant is preserved\<close>

lemmas km_counts = users_update holders_update

text \<open>A step at entry \<open>e\<close> leaves every other entry alone.\<close>

lemma pc_Holding: "pc_at pc \<noteq> Some (key, e) \<Longrightarrow> pc \<noteq> Holding key e"
  by auto

lemma entry_ok_other:
  assumes "entry_ok k ps key' e'" "(key', e') \<noteq> (key, e)" "e' \<noteq> e" "i < length ps"
    and "pc_at (ps ! i) = None \<or> pc_at (ps ! i) = Some (key, e)" "pc_at pc = None \<or> pc_at pc = Some (key, e)"
  shows "entry_ok (km_upd e f k) (ps[i := pc]) key' e'"
proof -
  have n: "pc_at (ps ! i) \<noteq> Some (key', e')" "pc_at pc \<noteq> Some (key', e')" using assms by auto
  have "users key' e' (ps[i := pc]) = users key' e' ps"
    using users_update [OF assms(4), of key' e' pc] n by simp
  moreover have "holders key' e' (ps[i := pc]) = holders key' e' ps"
    using holders_update [OF assms(4), of key' e' pc] pc_Holding [OF n(1)] pc_Holding [OF n(2)] by simp
  ultimately show ?thesis using assms(1,3) by (simp add: entry_ok_def)
qed

lemma km_inv_at:
  "km_inv (k, ps) \<Longrightarrow> i < length ps \<Longrightarrow> pc_at (ps ! i) = Some (key, e) \<Longrightarrow> map_of (km_entries k) key = Some e"
  by (rule km_inv_pc [OF _ nth_mem])

text \<open>The entry a step is about.\<close>

lemma entry_ok_own:
  assumes "entry_ok k ps key e" "int (users key e ps') = ke_refs (f (km_heap k ! e))" "0 < users key e ps'"
    "holders key e ps' = (if ke_mu (f (km_heap k ! e)) then 1 else 0)"
  shows "entry_ok (km_upd e f k) ps' key e"
proof -
  have "e < length (km_heap k)" using assms(1) by (simp add: entry_ok_def)
  then have "km_heap (km_upd e f k) ! e = f (km_heap k ! e)" by simp
  with assms show ?thesis by (simp add: entry_ok_def)
qed

text \<open>Steps of a goroutine that stays with its entry.\<close>

lemma km_inv_same_entries:
  assumes inv: "km_inv (k, ps)" and i: "i < length ps" "pc_at (ps ! i) = None \<or> pc_at (ps ! i) = Some (key, e)"
    and at: "map_of (km_entries k) key = Some e"
    and pc: "pc_at pc = None \<or> pc_at pc = Some (key, e)"
    and own: "entry_ok k ps key e \<Longrightarrow> entry_ok (km_upd e f k) (ps[i := pc]) key e"
  shows "km_inv (km_upd e f k, ps[i := pc])"
proof (rule km_invI)
  show "entry_ok (km_upd e f k) (ps[i := pc]) key' e'" if "map_of (km_entries (km_upd e f k)) key' = Some e'" for key' e'
  proof (cases "e' = e")
    case True
    with that km_inv_inj [OF inv at] have "key' = key" by simp
    with True own km_inv_entry [OF inv at] show ?thesis by simp
  next
    case False
    with entry_ok_other [OF km_inv_entry [OF inv] _ False i pc] that show ?thesis by simp
  qed
  show "map_of (km_entries (km_upd e f k)) key' = Some e'" if "q \<in> set (ps[i := pc])" "pc_at q = Some (key', e')" for q key' e'
    using pcs_update [OF inv that] that pc at by auto
  show "key1 = key2" if "map_of (km_entries (km_upd e f k)) key1 = Some x" "map_of (km_entries (km_upd e f k)) key2 = Some x" for key1 key2 x
    using that km_inv_inj [OF inv] by simp
qed (simp add: km_inv_wf [OF inv])

lemma km_inv_Acquire:
  assumes "km_inv (k, ps)" "i < length ps" "ps ! i = Awaiting key e" "km_acquire e k = Some k'"
  shows "km_inv (k', ps[i := Holding key e])"
proof -
  from assms(4) have free: "\<not> ke_mu (km_heap k ! e)" and k': "k' = km_upd e (\<lambda>x. x\<lparr>ke_mu := True\<rparr>) k"
    by (auto simp: km_acquire_def split: if_splits)
  have at: "map_of (km_entries k) key = Some e" using km_inv_at [OF assms(1,2)] assms(3) by simp
  note ok = km_inv_entry [OF assms(1) at]
  show ?thesis unfolding k'
    by (rule km_inv_same_entries [OF assms(1,2) _ at], simp_all add: assms(3), rule entry_ok_own [OF ok])
      (use ok free assms(3) users_update [OF assms(2), of key e "Holding key e"]
         holders_update [OF assms(2), of key e "Holding key e"] in \<open>simp_all add: entry_ok_def\<close>)
qed

lemma km_inv_Unlock:
  assumes "km_inv (k, ps)" "i < length ps" "ps ! i = Holding key e"
  shows "km_inv (km_unlock e k, ps[i := Releasing key e])"
proof -
  have at: "map_of (km_entries k) key = Some e" using km_inv_at [OF assms(1,2)] assms(3) by simp
  note ok = km_inv_entry [OF assms(1) at]
  have "int (holders key e ps) = 1 + int (holders key e (ps[i := Releasing key e]))"
    using holders_update [OF assms(2), of key e "Releasing key e"] assms(3) by simp
  then show ?thesis unfolding km_unlock_def
    by (intro km_inv_same_entries [OF assms(1,2) _ at], simp_all add: assms(3), intro entry_ok_own [OF ok])
      (use ok assms(3) users_update [OF assms(2), of key e "Releasing key e"] in \<open>auto simp: entry_ok_def split: if_splits\<close>)
qed

text \<open>The goroutine arrives: a new entry, or one more user of the one there is.\<close>

lemma km_inv_Enter_found:
  assumes "km_inv (k, ps)" "i < length ps" "ps ! i = Idle" and at: "map_of (km_entries k) key = Some e"
  shows "km_inv (km_upd e (\<lambda>x. x\<lparr>ke_refs := ke_refs x + 1\<rparr>) k, ps[i := Awaiting key e])"
proof -
  note ok = km_inv_entry [OF assms(1) at]
  show ?thesis
    by (rule km_inv_same_entries [OF assms(1,2) _ at], simp_all add: assms(3), rule entry_ok_own [OF ok])
      (use ok assms(3) users_update [OF assms(2), of key e "Awaiting key e"]
         holders_update [OF assms(2), of key e "Awaiting key e"] in \<open>simp_all add: entry_ok_def\<close>)
qed

lemma km_inv_Enter_new:
  assumes inv: "km_inv (k, ps)" and i: "i < length ps" "ps ! i = Idle" and m: "map_of (km_entries k) key = None"
    and e: "e = length (km_heap k)"
  shows "km_inv (k\<lparr>km_entries := AList.update key e (km_entries k),
     km_heap := km_heap k @ [\<lparr>ke_mu = False, ke_refs = 1\<rparr>]\<rparr>, ps[i := Awaiting key e])" (is "km_inv (?k, ?ps)")
proof -
  have none: "pc_at q \<noteq> Some (key, e')" if "q \<in> set ps" for q e' using km_inv_pc [OF inv that] m by auto
  then have "users key e ps = 0" by (simp add: users_zero)
  then have own: "entry_ok ?k ?ps key e"
    using users_update [OF i(1), of key e "Awaiting key e"] holders_update [OF i(1), of key e "Awaiting key e"] i(2)
      holders_le_users [of key e ps] by (simp add: entry_ok_def e)
  have other: "entry_ok ?k ?ps key' e'" "e' \<noteq> e" if m': "map_of (km_entries k) key' = Some e'" "key' \<noteq> key" for key' e'
    using km_inv_entry [OF inv m'(1)] m'(2) i(2)
      users_update [OF i(1), of key' e' "Awaiting key e"] holders_update [OF i(1), of key' e' "Awaiting key e"]
    by (simp_all add: entry_ok_def e nth_append)
  show ?thesis
  proof (rule km_invI)
    show "map_of (km_entries ?k) key' = Some e'" if "q \<in> set ?ps" "pc_at q = Some (key', e')" for q key' e'
      using pcs_update [OF inv that] that none m by (auto simp: gomap_simps)
    show "key1 = key2" if "map_of (km_entries ?k) key1 = Some x" "map_of (km_entries ?k) key2 = Some x" for key1 key2 x
      using that km_inv_inj [OF inv, of key1 x key2] other(2) [of key1 x] other(2) [of key2 x]
      by (auto simp: gomap_simps split: if_splits)
  qed (use own other(1) km_inv_wf [OF inv] in \<open>auto simp: gomap_simps split: if_splits\<close>)
qed

lemma km_inv_Enter:
  assumes "km_inv (k, ps)" "i < length ps" "ps ! i = Idle" "km_enter key k = (e, k')"
  shows "km_inv (k', ps[i := Awaiting key e])"
proof (cases "map_of (km_entries k) key")
  case None
  with assms(4) have "e = length (km_heap k)" "k' = k\<lparr>km_entries := AList.update key e (km_entries k),
     km_heap := km_heap k @ [\<lparr>ke_mu = False, ke_refs = 1\<rparr>]\<rparr>" by (auto simp: km_enter_def km_upd_def Let_def)
  with km_inv_Enter_new [OF assms(1-3) None] show ?thesis by simp
next
  case (Some e')
  with assms(4) have "k' = km_upd e (\<lambda>x. x\<lparr>ke_refs := ke_refs x + 1\<rparr>) k" "e' = e" by (auto simp: km_enter_def)
  with km_inv_Enter_found [OF assms(1-3) Some] show ?thesis by simp
qed

text \<open>The goroutine leaves: the last user takes the entry along.\<close>

lemma km_inv_Leave:
  assumes inv: "km_inv (k, ps)" and i: "i < length ps" "ps ! i = Releasing key e"
  shows "km_inv (km_leave key e k, ps[i := Idle])"
proof -
  let ?k = "km_upd e (\<lambda>x. x\<lparr>ke_refs := ke_refs x - 1\<rparr>) k"
  have at: "map_of (km_entries k) key = Some e" using km_inv_at [OF inv i(1)] i(2) by simp
  note ok = km_inv_entry [OF inv at]
  have u: "int (users key e ps) = 1 + int (users key e (ps[i := Idle]))"
    using users_update [OF i(1), of key e Idle] i(2) by simp
  have h: "holders key e (ps[i := Idle]) = holders key e ps"
    using holders_update [OF i(1), of key e Idle] i(2) by simp
  have r: "ke_refs (km_heap ?k ! e) = int (users key e (ps[i := Idle]))"
    using ok u by (simp add: entry_ok_def)
  show ?thesis
  proof (cases "users key e (ps[i := Idle]) = 0")
    case False
    then have "km_inv (?k, ps[i := Idle])"
      by (intro km_inv_same_entries [OF inv i(1) _ at], simp_all add: i(2), intro entry_ok_own [OF ok])
        (use ok u h in \<open>simp_all add: entry_ok_def\<close>)
    with False r show ?thesis by (simp add: km_leave_def Let_def)
  next
    case True
    let ?k' = "?k\<lparr>km_entries := AList.delete key (km_entries ?k)\<rparr>"
    have "km_inv (?k', ps[i := Idle])"
    proof (rule km_invI)
      show "entry_ok ?k' (ps[i := Idle]) key' e'" if "map_of (km_entries ?k') key' = Some e'" for key' e'
      proof -
        from that have m: "map_of (km_entries k) key' = Some e'" "key' \<noteq> key" by (auto simp: gomap_simps split: if_splits)
        then have "e' \<noteq> e" using km_inv_inj [OF inv at] by blast
        then have "entry_ok ?k (ps[i := Idle]) key' e'"
          using entry_ok_other [OF km_inv_entry [OF inv m(1)] _ _ i(1), of key e Idle] m(2) i(2) by simp
        then show ?thesis by (simp add: entry_ok_def del: km_upd_heap)
      qed
      show "map_of (km_entries ?k') key' = Some e'" if "q \<in> set (ps[i := Idle])" "pc_at q = Some (key', e')" for q key' e'
      proof -
        have m: "map_of (km_entries k) key' = Some e'" using pcs_update [OF inv that] that by auto
        have "pc_at q \<noteq> Some (key, e)" using True that(1) by (simp add: users_zero)
        with that m at have "key' \<noteq> key" by auto
        with m show ?thesis by (simp add: gomap_simps)
      qed
      show "key1 = key2" if "map_of (km_entries ?k') key1 = Some x" "map_of (km_entries ?k') key2 = Some x" for key1 key2 x
        using that km_inv_inj [OF inv, of key1 x key2] by (simp add: gomap_simps split: if_splits)
    qed (use km_inv_wf [OF inv] in \<open>simp add: gomap_simps\<close>)
    with True r show ?thesis by (simp add: km_leave_def Let_def)
  qed
qed

lemma km_inv_step: "km_step s s' \<Longrightarrow> km_inv s \<Longrightarrow> km_inv s'"
  by (induction rule: km_step.induct) (blast intro: km_inv_Enter km_inv_Acquire km_inv_Unlock km_inv_Leave)+

lemma km_reach_inv: "km_reach n s \<Longrightarrow> km_inv s"
proof (induction rule: km_reach.induct)
  case Start
  show ?case by (rule km_invI) (auto simp: newKeyedMutex_def)
qed (rule km_inv_step)

lemma km_step_length: "km_step s s' \<Longrightarrow> length (snd s') = length (snd s)"
  by (induction rule: km_step.induct) simp_all

lemma km_reach_length: "km_reach n s \<Longrightarrow> length (snd s) = n"
  by (induction rule: km_reach.induct) (simp_all add: km_step_length)

section \<open>Properties\<close>

lemma two_in_filter:
  assumes "i < length xs" "j < length xs" "i \<noteq> j" "P (xs ! i)" "P (xs ! j)"
  shows "2 \<le> length (filter P xs)"
proof -
  have "{i, j} \<subseteq> {k. k < length xs \<and> P (xs ! k)}" using assms by simp
  then have "card {i, j} \<le> card {k. k < length xs \<and> P (xs ! k)}" by (intro card_mono) simp_all
  with assms(3) show ?thesis by (simp add: length_filter_conv_card)
qed

lemma km_keys:
  assumes inv: "km_inv (k, ps)"
  shows "fst ` set (km_entries k) = {key. \<exists>i e. i < length ps \<and> pc_at (ps ! i) = Some (key, e)}" (is "_ = ?K")
proof (intro equalityI subsetI CollectI)
  fix key assume "key \<in> fst ` set (km_entries k)"
  then obtain e where "map_of (km_entries k) key = Some e" by (auto simp: gm_get_ex)
  then have "0 < users key e ps" using km_inv_entry [OF inv] by (simp add: entry_ok_def)
  then show "\<exists>i e. i < length ps \<and> pc_at (ps ! i) = Some (key, e)"
    by (auto simp: users_def length_filter_conv_card card_gt_0_iff)
next
  fix key assume "key \<in> ?K"
  then obtain i e where "i < length ps" "pc_at (ps ! i) = Some (key, e)" by blast
  from gm_key_of_get [OF km_inv_at [OF inv this]] show "key \<in> fst ` set (km_entries k)" .
qed

text \<open>
  The per-client lock. With any number of goroutines and every interleaving of their critical
  sections, at most one goroutine at a time holds the lock of a key, although the entries are created
  and dropped on the way; and the map holds an entry exactly for the keys some goroutine
  holds, awaits or is releasing, so it never grows beyond the number of goroutines under
  way and is empty when all have left.
\<close>

theorem keyed_mutex_exclusive:
  assumes "km_reach n (k, ps)"
  shows "(\<forall>i j key e e'. i < n \<and> j < n \<and> ps ! i = Holding key e \<and> ps ! j = Holding key e' \<longrightarrow> i = j)
    \<and> fst ` set (km_entries k) = {key. \<exists>i e. i < n \<and> pc_at (ps ! i) = Some (key, e)}
    \<and> km_len k \<le> length (filter (\<lambda>pc. pc \<noteq> Idle) ps)"
proof -
  note inv = km_reach_inv [OF assms]
  have n: "length ps = n" using km_reach_length [OF assms] by simp
  have one: "i = j" if "i < n" "j < n" "ps ! i = Holding key e" "ps ! j = Holding key e'" for i j key e e'
  proof -
    have m: "map_of (km_entries k) key = Some e" "map_of (km_entries k) key = Some e'"
      using km_inv_at [OF inv, of i key e] km_inv_at [OF inv, of j key e'] that n by simp_all
    with km_inv_entry [OF inv m(1)] have "holders key e ps \<le> 1" by (simp add: entry_ok_def split: if_splits)
    with two_in_filter [of i ps j "\<lambda>pc. pc = Holding key e"] that m n show ?thesis by (force simp: holders_def)
  qed
  have keys: "fst ` set (km_entries k) = {key. \<exists>i e. i < n \<and> pc_at (ps ! i) = Some (key, e)}" (is "_ = ?K")
    using km_keys [OF inv] n by simp
  have "?K \<subseteq> (\<lambda>i. fst (the (pc_at (ps ! i)))) ` {i. i < length ps \<and> ps ! i \<noteq> Idle}"
  proof
    fix key assume "key \<in> ?K"
    then obtain i e where "i < length ps" "pc_at (ps ! i) = Some (key, e)" using n by blast
    then show "key \<in> (\<lambda>i. fst (the (pc_at (ps ! i)))) ` {i. i < length ps \<and> ps ! i \<noteq> Idle}"
      by (intro image_eqI [of _ _ i]) auto
  qed
  then have "card (fst ` set (km_entries k)) \<le> card {i. i < length ps \<and> ps ! i \<noteq> Idle}"
    unfolding keys by (intro surj_card_le) simp_all
  with gm_length_card [OF km_inv_wf [OF inv]] have "km_len k \<le> length (filter (\<lambda>pc. pc \<noteq> Idle) ps)"
    by (simp add: km_len_def length_filter_conv_card)
  with one keys show ?thesis by blast
qed

text \<open>Two goroutines at one key: the first holds it, the second waits at the same entry.\<close>

definition ex_km :: keyed_mutex where
  "ex_km = \<lparr>km_entries = [(''c'', 0)], km_heap = [\<lparr>ke_mu = True, ke_refs = 2\<rparr>]\<rparr>"

lemma ex_km_reach: "km_reach 2 (ex_km, [Holding ''c'' 0, Awaiting ''c'' 0])"
proof -
  let ?k1 = "\<lparr>km_entries = [(''c'', 0)], km_heap = [\<lparr>ke_mu = False, ke_refs = 1\<rparr>]\<rparr>"
  let ?k2 = "\<lparr>km_entries = [(''c'', 0)], km_heap = [\<lparr>ke_mu = False, ke_refs = 2\<rparr>]\<rparr>"
  have "km_reach 2 (newKeyedMutex, [Idle, Idle])" using km_reach.Start [of 2] by (simp add: numeral_eq_Suc)
  moreover have "km_step (newKeyedMutex, [Idle, Idle]) (?k1, [Idle, Idle][0 := Awaiting ''c'' 0])"
    by (rule km_step.Enter) (simp_all add: km_enter_def newKeyedMutex_def km_upd_def)
  ultimately have "km_reach 2 (?k1, [Awaiting ''c'' 0, Idle])" using km_reach.Next by fastforce
  moreover have "km_step (?k1, [Awaiting ''c'' 0, Idle]) (?k2, [Awaiting ''c'' 0, Idle][1 := Awaiting ''c'' 0])"
    by (rule km_step.Enter) (simp_all add: km_enter_def km_upd_def)
  ultimately have "km_reach 2 (?k2, [Awaiting ''c'' 0, Awaiting ''c'' 0])" using km_reach.Next by fastforce
  moreover have "km_step (?k2, [Awaiting ''c'' 0, Awaiting ''c'' 0]) (ex_km, [Awaiting ''c'' 0, Awaiting ''c'' 0][0 := Holding ''c'' 0])"
    by (rule km_step.Acquire) (simp_all add: km_acquire_def km_upd_def ex_km_def)
  ultimately show ?thesis using km_reach.Next by fastforce
qed

theorem keyed_mutex_exclusive_witness:
  "fst ` set (km_entries ex_km) = {key. \<exists>i e. i < 2 \<and> pc_at ([Holding ''c'' 0, Awaiting ''c'' 0] ! i) = Some (key, e)}
   \<and> km_len ex_km \<le> 2"
  using keyed_mutex_exclusive [OF ex_km_reach] by simp

text \<open>
  Nobody waits in vain. In every reachable state a goroutine that awaits the lock of a key can take
  it, unless another goroutine holds the lock of that very key.
\<close>

theorem keyed_mutex_progress:
  assumes "km_reach n (k, ps)" "i < n" "ps ! i = Awaiting key e"
  shows "(\<exists>k'. km_step (k, ps) (k', ps[i := Holding key e])) \<or> (\<exists>j < n. ps ! j = Holding key e)"
proof (cases "ke_mu (km_heap k ! e)")
  case True
  have inv: "km_inv (k, ps)" and n: "length ps = n" using km_reach_inv km_reach_length assms(1) by fastforce+
  have "map_of (km_entries k) key = Some e" using km_inv_at [OF inv, of i key e] assms n by simp
  from km_inv_entry [OF inv this] True have "0 < holders key e ps" by (simp add: entry_ok_def)
  then show ?thesis using n by (auto simp: holders_def length_filter_conv_card card_gt_0_iff)
next
  case False
  have "length ps = n" using km_reach_length [OF assms(1)] by simp
  with assms False have "km_step (k, ps) (km_upd e (\<lambda>x. x\<lparr>ke_mu := True\<rparr>) k, ps[i := Holding key e])"
    by (intro km_step.Acquire) (simp_all add: km_acquire_def)
  then show ?thesis by blast
qed

theorem keyed_mutex_progress_witness:
  "(\<exists>k'. km_step (ex_km, [Holding ''c'' 0, Awaiting ''c'' 0]) (k', [Holding ''c'' 0, Awaiting ''c'' 0][1 := Holding ''c'' 0]))
   \<or> (\<exists>j < 2. [Holding ''c'' 0, Awaiting ''c'' 0] ! j = Holding ''c'' 0)"
  using keyed_mutex_progress [OF ex_km_reach, of 1 "''c''" 0] by simp

end
