(* ===== verification/Credential_Properties.thy ===== *)
theory Credential_Properties
  imports Credential_Store
begin

text \<open>
  Properties of the account and passkey tables (\<open>Credential_Store\<close>): the search for a free label
  ends, every operation keeps the tables well formed, and self-registration is all or nothing.
\<close>

section \<open>Decimal numerals are injective\<close>

definition dec_value :: "string \<Rightarrow> nat" where
  "dec_value = foldl (\<lambda>v c. 10 * v + (of_char c - 48)) 0"

lemma dec_value_digits: "dec_value (dec_digits n) = n"
proof (induction n rule: dec_digits.induct)
  case (1 n)
  then show ?case
    by (cases "n < 10") (subst dec_digits.simps, simp add: dec_value_def)+
qed

lemma dec_digits_inject [simp]: "dec_digits m = dec_digits n \<longleftrightarrow> m = n"
  by (metis dec_value_digits)

lemma label_candidate_inject [simp]: "label_candidate base m = label_candidate base n \<longleftrightarrow> m = n"
  by (simp add: label_candidate_def Itoa_def)

section \<open>The search for a free label ends\<close>

definition taken_from :: "string list \<Rightarrow> string \<Rightarrow> nat \<Rightarrow> nat set" where
  "taken_from seen base k = {n. k \<le> n \<and> label_candidate base n \<in> set seen}"

lemma finite_taken_from: "finite (taken_from seen base k)"
proof (rule finite_imageD)
  show "finite (label_candidate base ` taken_from seen base k)"
    by (rule finite_subset [of _ "set seen"]) (auto simp: taken_from_def)
  show "inj_on (label_candidate base) (taken_from seen base k)" by (simp add: inj_on_def)
qed

lemma taken_from_Suc:
  assumes "label_candidate base k \<in> set seen"
  shows "taken_from seen base k = insert k (taken_from seen base (Suc k))"
  using assms by (auto simp: taken_from_def not_less_eq_eq Suc_le_eq le_less)

lemma dedupe_loop_spec:
  "\<exists>n \<ge> k. dedupe_loop seen base k = Some (label_candidate base n) \<and> label_candidate base n \<notin> set seen
     \<and> (\<forall>m. k \<le> m \<and> m < n \<longrightarrow> label_candidate base m \<in> set seen)"
proof (induction "card (taken_from seen base k)" arbitrary: k)
  case 0
  then have "label_candidate base k \<notin> set seen" using finite_taken_from by (auto simp: taken_from_def)
  then show ?case by (intro exI [of _ k]) (auto simp: dedupe_loop.simps)
next
  case (Suc c)
  show ?case
  proof (cases "label_candidate base k \<in> set seen")
    case False
    then show ?thesis by (intro exI [of _ k]) (auto simp: dedupe_loop.simps)
  next
    case True
    have "k \<notin> taken_from seen base (Suc k)" by (simp add: taken_from_def)
    with Suc.hyps(2) have "c = card (taken_from seen base (Suc k))"
      by (simp add: taken_from_Suc [OF True] finite_taken_from)
    from Suc.hyps(1) [OF this] obtain n where n: "Suc k \<le> n"
      "dedupe_loop seen base (Suc k) = Some (label_candidate base n)" "label_candidate base n \<notin> set seen"
      "\<And>m. Suc k \<le> m \<Longrightarrow> m < n \<Longrightarrow> label_candidate base m \<in> set seen" by blast
    have "label_candidate base m \<in> set seen" if "k \<le> m" "m < n" for m
      using that True n(4) by (cases "m = k") auto
    moreover have "dedupe_loop seen base k = dedupe_loop seen base (Suc k)"
      using True by (subst dedupe_loop.simps) simp
    ultimately show ?thesis
      using n by (intro exI [of _ n]) auto
  qed
qed

text \<open>
  C36: The unbounded search of \<open>dedupeLabel\<close> ends for every label list and every base label, with a
  label the account does not use yet: the base label itself when it is free, and otherwise
  ``base (n)'' with the smallest free number from 2 on.
\<close>

theorem dedupeLabel_terminates:
  "\<exists>label. dedupeLabel labels base = Some label \<and> label \<notin> set labels
     \<and> (if base \<notin> set labels then label = base
        else \<exists>n \<ge> 2. label = label_candidate base n
               \<and> (\<forall>m \<in> {2..<n}. label_candidate base m \<in> set labels))"
proof (cases "base \<in> set labels")
  case True
  from dedupe_loop_spec [of 2 labels base] obtain n where "n \<ge> 2"
    "dedupe_loop labels base 2 = Some (label_candidate base n)" "label_candidate base n \<notin> set labels"
    "\<forall>m. 2 \<le> m \<and> m < n \<longrightarrow> label_candidate base m \<in> set labels" by blast
  with True show ?thesis
    by (intro exI [of _ "label_candidate base n"]) (auto simp: dedupeLabel_def)
qed (simp add: dedupeLabel_def)

theorem dedupeLabel_terminates_witness:
  "\<exists>label. dedupeLabel [''Passkey'', ''Passkey (2)''] ''Passkey'' = Some label
     \<and> label \<notin> {''Passkey'', ''Passkey (2)''} \<and> (\<exists>n \<ge> 2. label = label_candidate ''Passkey'' n)"
  using dedupeLabel_terminates [of "[''Passkey'', ''Passkey (2)'']" "''Passkey''"] by auto

section \<open>The tables stay well formed\<close>

text \<open>
  The constraints of the schema: primary keys, the unique index on \<open>credential_id\<close> and the foreign
  keys of credentials and of the admin singleton; \<open>bootstrapped\<close> that there is an admin as soon as
  there is an account.
\<close>

definition id_wf :: "id_db \<Rightarrow> bool" where
  "id_wf db \<longleftrightarrow> distinct (map fst (id_accounts db)) \<and> distinct (map fst (id_creds db))
     \<and> distinct (map (wc_credential_id \<circ> snd) (id_creds db))
     \<and> set (map (wc_account_id \<circ> snd) (id_creds db)) \<subseteq> set (map fst (id_accounts db))
     \<and> set_option (id_admin db) \<subseteq> set (map fst (id_accounts db))
     \<and> (id_accounts db \<noteq> [] \<longrightarrow> id_admin db \<noteq> None)"

datatype id_op =
    OpSelfRegister tx_faults string self_register_params
  | OpInsert bool bool string string decoded_credential string string
  | OpSetState bool string string
  | OpUpdateCounter bool string string "32 word"
  | OpSetLabel bool string string string
  | OpRevoke bool string
  | OpUpdateSelf bool bool string "string option" "bool option" string
  | OpTouch string string
  | OpDelete delete_faults bool string

fun id_run :: "id_op \<Rightarrow> id_db \<Rightarrow> id_db" where
  "id_run (OpSelfRegister flt now p) db = snd (SelfRegister flt now p db)"
| "id_run (OpInsert f g now a dec st rid) db = snd (cs_Insert f g now a dec st rid db)"
| "id_run (OpSetState f rid st) db = snd (SetState f rid st db)"
| "id_run (OpUpdateCounter f now rid c) db = snd (UpdateCounter f now rid c db)"
| "id_run (OpSetLabel f rid a l) db = snd (SetLabel f rid a l db)"
| "id_run (OpRevoke f rid) db = snd (cs_Revoke f rid db)"
| "id_run (OpUpdateSelf f g a n d now) db = snd (UpdateSelf f g a n d now db)"
| "id_run (OpTouch ts a) db = TouchAccountLastUsed (Some ts) a db"
| "id_run (OpDelete flt b a) db = snd (accounts_Delete flt b a db)"

definition empty_db :: id_db where
  "empty_db = \<lparr>id_accounts = [], id_admin = None, id_creds = []\<rparr>"

lemma map_snd_update:
  assumes "map_of m k = Some r" "g v = g r"
  shows "map (g \<circ> snd) (AList.update k v m) = map (g \<circ> snd) m"
  using assms by (induction m) (auto split: if_splits)

lemma map_fst_update: "map_of m k \<noteq> None \<Longrightarrow> map fst (AList.update k v m) = map fst m"
  by (induction m) auto

lemma find_credential_None:
  "FindCredentialByCredentialID cid db = None \<longleftrightarrow> cid \<notin> set (map (wc_credential_id \<circ> snd) (id_creds db))"
  by (force simp: FindCredentialByCredentialID_def find_None_iff)

lemma id_wf_update_cred [intro]:
  assumes "id_wf db" "\<And>r. wc_credential_id (f r) = wc_credential_id r" "\<And>r. wc_account_id (f r) = wc_account_id r"
  shows "id_wf (update_cred rid c f db)"
  using assms(1)
  by (auto simp: id_wf_def update_cred_def map_fst_update map_snd_update assms(2,3) simp del: set_map split: option.split)

lemma id_wf_update_account [intro]: "id_wf db \<Longrightarrow> id_wf (update_account aid f db)"
  by (auto simp: id_wf_def update_account_def map_fst_update simp del: set_map split: option.split)

lemma id_wf_InsertCredential [intro]: "id_wf db \<Longrightarrow> id_wf (snd (InsertCredential rid r db))"
  by (simp add: InsertCredential_def id_wf_def gm_update_fresh find_credential_None map_of_eq_None_iff)

lemma id_wf_InsertCredentialD: "InsertCredential rid r db = (e, db') \<Longrightarrow> id_wf db \<Longrightarrow> id_wf db'"
  using id_wf_InsertCredential [of db rid r] by simp

lemma id_wf_insertTx: "id_wf db \<Longrightarrow> id_wf (snd (insertTx f g now a dec st rid db))"
  by (auto simp: insertTx_def split: option.split prod.split elim: id_wf_InsertCredentialD)

text \<open>
  A self-registration either adopts the admin account or adds an account, which becomes the admin
  exactly when there was none.
\<close>

definition add_account :: "string \<Rightarrow> account_row \<Rightarrow> id_db \<Rightarrow> id_db" where
  "add_account a r db = db\<lparr>id_accounts := id_accounts db @ [(a, r)],
     id_admin := (case id_admin db of None \<Rightarrow> Some a | Some x \<Rightarrow> Some x)\<rparr>"

lemma self_register_account_cases:
  assumes "self_register_account flt now p b db = (Inr acc, db')"
  obtains (adopted) "db' = db" "id_admin db = Some acc" "\<not> b"
    | (added) r where "map_of (id_accounts db) acc = None" "db' = add_account acc r db" "acc = sp_NewAccountID p"
        "b \<or> id_admin db = None \<or> tf_admin flt"
proof (cases "(if b then None else if tf_admin flt then None else id_admin db)")
  case (Some a)
  then show thesis
    using assms adopted by (simp add: self_register_account_def GetAdminAccountID_def split: if_splits)
next
  case None
  define r where "r = \<lparr>ac_name = sp_Name p, ac_enabled = 1, ac_max_sessions = 5, ac_last_used_at = Some now,
    ac_created_at = now, ac_updated_at = now, ac_show_demo = 1\<rparr>"
  have "map_of (id_accounts db) acc = None \<and> db' = add_account acc r db \<and> acc = sp_NewAccountID p"
    using None assms
    by (cases db; cases "id_admin db")
       (auto simp: self_register_account_def insert_account_def insert_admin_def add_account_def gm_update_fresh
          Let_def GetAdminAccountID_def r_def [symmetric] split: if_splits)
  moreover have "b \<or> id_admin db = None \<or> tf_admin flt" using None by (simp split: if_splits)
  ultimately show thesis using added by blast
qed

lemma id_wf_add_account:
  assumes "id_wf db" "map_of (id_accounts db) a = None" shows "id_wf (add_account a r db)"
proof -
  have "set_option (id_admin db) \<subseteq> set (map fst (id_accounts db))"
    "set (map (wc_account_id \<circ> snd) (id_creds db)) \<subseteq> set (map fst (id_accounts db))"
    using assms(1) unfolding id_wf_def by blast+
  with assms show ?thesis
    by (cases "id_admin db") (simp_all add: id_wf_def add_account_def map_of_eq_None_iff subset_insertI2)
qed

lemma self_register_account_wf:
  assumes "self_register_account flt now p b db = (Inr acc, db')" "id_wf db" shows "id_wf db'"
  using assms(1) by (rule self_register_account_cases) (auto simp: assms(2) id_wf_add_account)

lemma self_register_account_admin:
  assumes "self_register_account flt now p b db = (Inr acc, db')" "id_admin db = Some a" shows "id_admin db' = Some a"
  using assms(1) by (rule self_register_account_cases) (auto simp: assms(2) add_account_def)

lemma WithTx_cases:
  assumes "WithTx f g body db = (res, db')"
  obtains (rolled_back) e where "res = Inl e" "db' = db"
    | (committed) v where "res = Inr v" "body db = (Inr v, db')"
  using assms by (auto simp: WithTx_def split: if_splits prod.splits sum.splits)

lemma SelfRegister_cases:
  assumes "SelfRegister flt now p db = (res, db')"
  obtains (failed) e where "res = Inl e" "db' = db"
    | (disabled) "res = Inr None" "db' = db" "\<not> sp_SelfRegEnabled p" "HasPasskeys db"
    | (registered) acc ins mid where "sp_SelfRegEnabled p \<or> \<not> HasPasskeys db"
        "self_register_account flt now p (HasPasskeys db) db = (Inr acc, mid)"
        "insertTx (tf_labels flt) (tf_insert flt) now acc (sp_Credential p) CredentialStateActive (sp_NewCredID p) mid = (Inr ins, db')"
        "res = Inr (Some \<lparr>sr_AccountID = acc, sr_CredentialRowID = in_ID ins, sr_Label = in_Label ins\<rparr>)"
  using assms unfolding SelfRegister_def
proof (cases rule: WithTx_cases)
  case (committed v)
  then show thesis
    using disabled registered by (auto simp: Let_def split: if_splits prod.splits sum.splits)
qed (use failed in simp)

lemma id_wf_SelfRegister: assumes "id_wf db" shows "id_wf (snd (SelfRegister flt now p db))"
proof -
  obtain res db' where *: "SelfRegister flt now p db = (res, db')" by fastforce
  then show ?thesis
    by (cases rule: SelfRegister_cases)
       (simp_all add: * assms, metis self_register_account_wf id_wf_insertTx assms snd_conv)
qed

lemma id_wf_remove_account:
  assumes "id_wf db" "id_admin db \<noteq> Some a"
  shows "id_wf (db\<lparr>id_creds := filter (\<lambda>(k, r). wc_account_id r \<noteq> a) (id_creds db),
                  id_accounts := AList.delete a (id_accounts db)\<rparr>)"
proof -
  have refs: "set_option (id_admin db) \<subseteq> fst ` set (id_accounts db)"
    "(wc_account_id \<circ> snd) ` set (id_creds db) \<subseteq> fst ` set (id_accounts db)"
    and dist: "distinct (map fst (id_accounts db))" "distinct (map fst (id_creds db))"
      "distinct (map (wc_credential_id \<circ> snd) (id_creds db))"
    and boot: "id_accounts db \<noteq> [] \<longrightarrow> id_admin db \<noteq> None"
    using assms(1) unfolding id_wf_def by simp_all
  have "set_option (id_admin db) \<subseteq> fst ` set (AList.delete a (id_accounts db))"
    using refs(1) assms(2) by (auto simp: gm_keyset_delete)
  moreover have "(wc_account_id \<circ> snd) ` set (filter (\<lambda>(k, r). wc_account_id r \<noteq> a) (id_creds db))
      \<subseteq> fst ` set (AList.delete a (id_accounts db))"
    unfolding gm_keyset_delete using refs(2) by force
  moreover have "AList.delete a (id_accounts db) \<noteq> [] \<longrightarrow> id_admin db \<noteq> None" using boot by (cases "id_accounts db") simp_all
  ultimately show ?thesis
    using dist by (simp add: id_wf_def distinct_map_filter distinct_delete)
qed

lemma accounts_Delete_cases:
  assumes "accounts_Delete flt b a db = (res, db')"
  obtains (failed) e where "res = Inl e" "db' = db"
    | (deleted) "res = Inr ()" "id_admin db \<noteq> Some a"
        "db' = db\<lparr>id_creds := filter (\<lambda>(k, r). wc_account_id r \<noteq> a) (id_creds db),
                 id_accounts := AList.delete a (id_accounts db)\<rparr>"
  using assms unfolding accounts_Delete_def
proof (cases rule: WithTx_cases)
  case (committed v)
  then show thesis using deleted by (auto simp: Let_def split: if_splits)
qed (use failed in simp)

lemma id_wf_Delete: assumes "id_wf db" shows "id_wf (snd (accounts_Delete flt b a db))"
proof -
  obtain res db' where *: "accounts_Delete flt b a db = (res, db')" by fastforce
  then show ?thesis
    by (cases rule: accounts_Delete_cases) (simp_all add: * assms id_wf_remove_account)
qed

lemma id_wf_run: "id_wf db \<Longrightarrow> id_wf (id_run op db)"
proof (cases op)
  case (OpUpdateSelf f g a n d now)
  then show "id_wf db \<Longrightarrow> id_wf (id_run op db)"
    by (auto simp: UpdateSelf_def UpdateAccountName_def UpdateAccountShowDemo_def split: option.split)
qed (auto simp: cs_Insert_def SetState_def UpdateCounter_def SetLabel_def cs_Revoke_def TouchAccountLastUsed_def
       SetCredentialState_def UpdateCredentialCounter_def UpdateCredentialLabel_def RevokeCredentialByID_def
       id_wf_SelfRegister id_wf_insertTx id_wf_Delete)

text \<open>
  C28: Every history of store operations, whatever the driver fails, keeps the account and passkey
  tables well formed: account, row and credential ids are unique, every passkey and the admin row
  refer to an existing account, and a system with accounts has an admin.
\<close>

theorem account_tables_wf: "id_wf (fold id_run ops empty_db)"
proof -
  have "id_wf (fold id_run ops db)" if "id_wf db" for db
    using that by (induction ops arbitrary: db) (auto simp: id_wf_run)
  then show ?thesis by (simp add: id_wf_def empty_db_def)
qed

section \<open>The admin is settled once\<close>

lemma update_cred_admin [simp]: "id_admin (update_cred rid c f db) = id_admin db"
  by (simp add: update_cred_def split: option.split)

lemma update_account_admin [simp]: "id_admin (update_account aid f db) = id_admin db"
  by (simp add: update_account_def split: option.split)

lemma insertTx_others:
  "id_admin (snd (insertTx f g now a dec st rid db)) = id_admin db"
  "id_accounts (snd (insertTx f g now a dec st rid db)) = id_accounts db"
  by (auto simp: insertTx_def InsertCredential_def split: option.split prod.split)

lemma id_run_admin:
  assumes "id_admin db = Some a" shows "id_admin (id_run op db) = Some a"
proof (cases op)
  case (OpSelfRegister flt now p)
  obtain res db' where *: "SelfRegister flt now p db = (res, db')" by fastforce
  then have "id_admin db' = Some a"
    by (cases rule: SelfRegister_cases)
       (simp_all add: assms, metis self_register_account_admin assms insertTx_others(1) snd_conv)
  with * OpSelfRegister show ?thesis by simp
next
  case (OpDelete flt b acc)
  obtain res db' where *: "accounts_Delete flt b acc db = (res, db')" by fastforce
  then have "id_admin db' = Some a" by (cases rule: accounts_Delete_cases) (simp_all add: assms)
  with * OpDelete show ?thesis by simp
qed (auto simp: assms cs_Insert_def SetState_def UpdateCounter_def SetLabel_def cs_Revoke_def TouchAccountLastUsed_def
       SetCredentialState_def UpdateCredentialCounter_def UpdateCredentialLabel_def RevokeCredentialByID_def insertTx_others
       UpdateSelf_def UpdateAccountName_def UpdateAccountShowDemo_def split: option.split)

lemma id_runs_admin: "id_admin db = Some a \<Longrightarrow> id_admin (fold id_run ops db) = Some a"
  by (induction ops arbitrary: db) (auto simp: id_run_admin)

lemma id_wf_runs: "id_wf db \<Longrightarrow> id_wf (fold id_run ops db)"
  by (induction ops arbitrary: db) (auto simp: id_wf_run)

text \<open>
  The administrator is settled once and for all: whoever holds the admin row after some history
  holds it after every continuation, through self-registrations, account deletions and driver
  failures alike, and his account is never deleted. No later registration can become the admin.
\<close>

theorem admin_settled:
  assumes "id_admin (fold id_run before empty_db) = Some a"
  shows "id_admin (fold id_run (before @ after) empty_db) = Some a
    \<and> map_of (id_accounts (fold id_run (before @ after) empty_db)) a \<noteq> None
    \<and> (IsAdmin flt b (fold id_run (before @ after) empty_db) \<longrightarrow> b = a)"
proof -
  have "id_admin (fold id_run (before @ after) empty_db) = Some a"
    using id_runs_admin [OF assms, of after] by simp
  moreover have "id_wf (fold id_run (before @ after) empty_db)"
    by (rule id_wf_runs) (simp add: id_wf_def empty_db_def)
  ultimately show ?thesis
    by (auto simp: id_wf_def IsAdmin_def adminID_def GetAdminAccountID_def map_of_eq_None_iff split: if_splits)
qed

definition no_faults :: tx_faults where
  "no_faults = \<lparr>tf_begin = False, tf_commit = False, tf_has = False, tf_admin = False, tf_account = False,
     tf_singleton = False, tf_labels = False, tf_insert = False\<rparr>"

definition ex_cred :: "string \<Rightarrow> decoded_credential" where
  "ex_cred cid = \<lparr>dc_CredentialID = cid, dc_PublicKeyCOSE = [], dc_Counter = 0, dc_Transports = [],
     dc_BaseLabel = ''Passkey'', dc_AuthorizedKeysEntry = []\<rparr>"

definition ex_signup :: "string \<Rightarrow> string \<Rightarrow> self_register_params" where
  "ex_signup acc cid = \<lparr>sp_Name = acc, sp_Credential = ex_cred cid, sp_SelfRegEnabled = True,
     sp_NewAccountID = acc, sp_NewCredID = cid\<rparr>"

lemmas id_eval = SelfRegister_def WithTx_def self_register_account_def insert_account_def insert_admin_def insertTx_def
  InsertCredential_def dedupeLabel_def HasPasskeys_def GetAdminAccountID_def ListActiveCredentialLabelsForAccount_def
  rows_of_def FindCredentialByCredentialID_def no_faults_def ex_cred_def ex_signup_def empty_db_def nonempty_opt_def
  CredentialStateActive_def

theorem admin_settled_witness:
  "id_admin (fold id_run ([OpSelfRegister no_faults ''t'' (ex_signup ''a'' ''c'')]
      @ [OpSelfRegister no_faults ''t'' (ex_signup ''b'' ''d'')]) empty_db) = Some ''a''"
proof -
  have "id_admin (fold id_run [OpSelfRegister no_faults ''t'' (ex_signup ''a'' ''c'')] empty_db) = Some ''a''"
    by (simp add: id_eval)
  from admin_settled [OF this] show ?thesis by blast
qed

section \<open>Self-registration is all or nothing\<close>

lemma dedupeLabel_fresh: "dedupeLabel labels base = Some l \<Longrightarrow> l \<notin> set labels"
  using dedupe_loop_spec [of 2 labels base] by (auto simp: dedupeLabel_def split: if_splits)

lemma insertTx_success:
  assumes "insertTx f g now a dec st rid db = (Inr ins, db')"
  shows "\<exists>c. id_creds db' = id_creds db @ [(in_ID ins, c)] \<and> wc_state c = st \<and> wc_revoked c = 0
    \<and> wc_account_id c = a \<and> wc_credential_id c = dc_CredentialID dec \<and> wc_label c = in_Label ins
    \<and> in_Label ins \<notin> set (ListActiveCredentialLabelsForAccount a db)"
  using assms
  by (auto simp: insertTx_def InsertCredential_def gm_update_fresh dest: dedupeLabel_fresh
        split: if_splits option.splits prod.splits)

text \<open>
  Self-registration either changes nothing (an error at any statement, or a closed system that
  already has a passkey), or adds exactly one row: an active passkey under a fresh label, for the
  account it reports. That account is the admin's while nobody has a passkey; afterwards it is always
  a new account, which is not the admin's, and no other account or passkey is touched.
\<close>

theorem self_register_atomic:
  assumes wf: "id_wf db" and run: "SelfRegister flt now p db = (res, db')"
  shows "case res of
      Inr (Some r) \<Rightarrow>
        (sp_SelfRegEnabled p \<or> \<not> HasPasskeys db)
        \<and> (\<exists>c. id_creds db' = id_creds db @ [(sr_CredentialRowID r, c)] \<and> active_row c
              \<and> wc_account_id c = sr_AccountID r \<and> wc_credential_id c = dc_CredentialID (sp_Credential p)
              \<and> wc_label c = sr_Label r \<and> sr_Label r \<notin> set (ListActiveCredentialLabelsForAccount (sr_AccountID r) db))
        \<and> (\<forall>a. a \<noteq> sr_AccountID r \<longrightarrow> map_of (id_accounts db') a = map_of (id_accounts db) a)
        \<and> (if HasPasskeys db
           then map_of (id_accounts db) (sr_AccountID r) = None \<and> id_admin db' = id_admin db
                \<and> id_admin db' \<noteq> Some (sr_AccountID r)
           else tf_admin flt \<or> id_admin db' = Some (sr_AccountID r))
    | _ \<Rightarrow> db' = db"
  using run
proof (cases rule: SelfRegister_cases)
  case (registered acc ins mid)
  have mid: "id_creds mid = id_creds db"
    using registered(2) by (cases rule: self_register_account_cases) (simp_all add: add_account_def)
  have accs: "map_of (id_accounts mid) a = map_of (id_accounts db) a" if "a \<noteq> acc" for a
    using registered(2) by (cases rule: self_register_account_cases) (use that in \<open>simp_all add: add_account_def map_add_def split: option.split\<close>)
  have adm: "map_of (id_accounts db) acc = None \<and> id_admin mid = id_admin db \<and> id_admin mid \<noteq> Some acc"
    if h: "HasPasskeys db"
  proof -
    obtain a where a: "id_admin db = Some a" "a \<in> fst ` set (id_accounts db)"
      using wf h by (cases "id_accounts db"; cases "id_creds db"; cases "id_admin db") (auto simp: id_wf_def HasPasskeys_def)
    from registered(2) h show ?thesis
      by (cases rule: self_register_account_cases) (use a in \<open>force simp: add_account_def map_of_eq_None_iff\<close>)+
  qed
  have boot: "id_admin mid = Some acc" if "\<not> HasPasskeys db" "\<not> tf_admin flt"
    using registered(2) by (cases rule: self_register_account_cases) (use that in \<open>simp_all add: add_account_def\<close>)
  have labels: "ListActiveCredentialLabelsForAccount acc mid = ListActiveCredentialLabelsForAccount acc db"
    by (simp add: ListActiveCredentialLabelsForAccount_def rows_of_def mid)
  have same: "id_admin db' = id_admin mid" "id_accounts db' = id_accounts mid"
    using insertTx_others registered(3) by (metis snd_conv)+
  from insertTx_success [OF registered(3)] show ?thesis
    using registered(1) adm boot accs by (auto simp: registered(4) mid labels same active_row_def CredentialStateActive_def)
qed simp_all

definition ex_claimed :: id_db where
  "ex_claimed = fold id_run [OpSelfRegister no_faults ''t'' (ex_signup ''a'' ''c'')] empty_db"

theorem self_register_atomic_witness:
  "\<exists>r db'. SelfRegister no_faults ''t'' (ex_signup ''b'' ''d'') ex_claimed = (Inr (Some r), db')
     \<and> sr_AccountID r = ''b'' \<and> id_admin db' = Some ''a''"
proof -
  have wf: "id_wf ex_claimed" unfolding ex_claimed_def by (rule id_wf_runs) (simp add: id_wf_def empty_db_def)
  have adm: "id_admin ex_claimed = Some ''a''" "HasPasskeys ex_claimed" by (simp_all add: ex_claimed_def id_eval)
  obtain r db' where run: "SelfRegister no_faults ''t'' (ex_signup ''b'' ''d'') ex_claimed = (Inr (Some r), db')"
    "sr_AccountID r = ''b''" by (simp add: ex_claimed_def id_eval del: set_map set_filter)
  with self_register_atomic [OF wf run(1)] adm show ?thesis by auto
qed

end
