(* ===== verification/Cose.thy ===== *)
theory Cose
  imports Signing Base64 Go_Strings
begin

text \<open>
  \<open>src/internal/webauthn/cose.go\<close> and \<open>aaguid.go\<close>: from a credential's COSE public key to the
  \<open>authorized_keys\<close> line and its fingerprint, and the authenticator's product name.

  Parameters: \<open>ParsePublicKey\<close> of go-webauthn's \<open>webauthncose\<close>, the SHA-256 hash, and the table of
  product names (the embedded \<open>aaguid-names.json\<close>).
\<close>

section \<open>The authorized keys line\<close>

definition sshAlgorithm :: string where "sshAlgorithm = ''webauthn-sk-ecdsa-sha2-nistp256@openssh.com''"
definition sshSKKeyType :: string where "sshSKKeyType = ''sk-ecdsa-sha2-nistp256@openssh.com''"
definition sshCurve :: string where "sshCurve = ''nistp256''"

definition SshdConfigLine :: string where
  "SshdConfigLine = ''PubkeyAcceptedAlgorithms=+'' @ sshAlgorithm"

definition sshString :: "byte list \<Rightarrow> byte list" where
  "sshString b = be32 (of_nat (length b)) @ b"

definition pad32 :: "byte list \<Rightarrow> byte list" where
  "pad32 b = (if length b \<ge> 32 then drop (length b - 32) b else replicate (32 - length b) 0 @ b)"

datatype cose_key = EC2PublicKeyData "byte list" "byte list" | OtherKeyData

datatype cose_error = CoseParse | CoseNotEC2

definition ec_point :: "byte list \<Rightarrow> byte list \<Rightarrow> byte list" where
  "ec_point x y = 4 # pad32 x @ pad32 y"

definition key_blob :: "byte list \<Rightarrow> string \<Rightarrow> byte list" where
  "key_blob ecPoint rpID =
     sshString (bytes_of sshAlgorithm) @ sshString (bytes_of sshCurve) @ sshString ecPoint @ sshString (bytes_of rpID)"

definition CoseToAuthorizedKeys ::
  "(byte list \<Rightarrow> cose_key option) \<Rightarrow> byte list \<Rightarrow> string \<Rightarrow> cose_error + string"
where
  "CoseToAuthorizedKeys ParsePublicKey coseKey rpID =
     (case ParsePublicKey coseKey of
        None \<Rightarrow> Inl CoseParse
      | Some OtherKeyData \<Rightarrow> Inl CoseNotEC2
      | Some (EC2PublicKeyData x y) \<Rightarrow> Inr (sshAlgorithm @ '' '' @ Std_Encode (key_blob (ec_point x y) rpID)))"

section \<open>The fingerprint\<close>

definition line_field :: "string \<Rightarrow> string" where
  "line_field line =
     (case dropWhile (\<lambda>c. c \<noteq> CHR '' '') line of [] \<Rightarrow> [] | _ # rest \<Rightarrow> takeWhile (\<lambda>c. c \<noteq> CHR '' '') rest)"

definition publicKeyBlobFromLine :: "string \<Rightarrow> byte list option" where
  "publicKeyBlobFromLine line =
     (let b64 = line_field line in
      if b64 = [] then None
      else case Std_Decode b64 of
             Some raw \<Rightarrow> Some raw
           | None \<Rightarrow> RawStd_Decode (trim_right_char CHR ''='' b64))"

text \<open>The slice bound \<open>4+typeLen\<close> is a 32-bit sum, the test before it a 64-bit one.\<close>

definition toSkPublicKeyBlob :: "byte list \<Rightarrow> byte list" where
  "toSkPublicKeyBlob blob =
     (if length blob < 4 then blob
      else let typeLen = read_be32 (take 4 blob) in
           if 4 + unat typeLen > length blob then blob
           else sshString (bytes_of sshSKKeyType) @ drop (unat (4 + typeLen)) blob)"

definition trimEqual :: "string \<Rightarrow> string" where
  "trimEqual s = trim_right_char CHR ''='' s"

definition FingerprintFromAuthorizedKeys :: "(byte list \<Rightarrow> byte list) \<Rightarrow> string \<Rightarrow> string" where
  "FingerprintFromAuthorizedKeys sha256 entry =
     (if entry = [] then []
      else case publicKeyBlobFromLine entry of
             None \<Rightarrow> []
           | Some blob \<Rightarrow> ''SHA256:'' @ trimEqual (Std_Encode (sha256 (toSkPublicKeyBlob blob))))"

definition bytes_Contains :: "byte list \<Rightarrow> byte list \<Rightarrow> bool" where
  "bytes_Contains b sub \<longleftrightarrow> list_ex (\<lambda>i. take (length sub) (drop i b) = sub) [0..<Suc (length b)]"

definition DetectAlgorithm :: "byte list \<Rightarrow> string" where
  "DetectAlgorithm coseKey =
     (if bytes_Contains coseKey [3, 0x26] then ''ES256 (P-256)''
      else if bytes_Contains coseKey [3, 0x27] then ''EdDSA (Ed25519)''
      else ''unknown'')"

section \<open>Product names\<close>

definition allZero :: "byte list \<Rightarrow> bool" where
  "allZero b \<longleftrightarrow> list_all (\<lambda>x. x = 0) b"

definition formatUUID :: "byte list \<Rightarrow> string" where
  "formatUUID b =
     (let h = hex_encode b in
      take 8 h @ ''-'' @ take 4 (drop 8 h) @ ''-'' @ take 4 (drop 12 h) @ ''-'' @ take 4 (drop 16 h) @ ''-'' @ take 12 (drop 20 h))"

definition lookupAAGUID :: "(string, string) gomap \<Rightarrow> byte list \<Rightarrow> string" where
  "lookupAAGUID aaguidNames aaguid =
     (if length aaguid \<noteq> 16 \<or> allZero aaguid then ''Passkey''
      else case map_of aaguidNames (formatUUID aaguid) of Some name \<Rightarrow> name | None \<Rightarrow> ''Passkey'')"

section \<open>The line decodes back to the key\<close>

lemma length_pad32 [simp]: "length (pad32 b) = 32"
  by (simp add: pad32_def)

lemma be_value_pad32: "length b \<le> 32 \<Longrightarrow> be_value (pad32 b) = be_value b"
proof -
  have "be_value (replicate n 0 @ b) = be_value b" for n by (induction n) simp_all
  then show "length b \<le> 32 \<Longrightarrow> ?thesis" by (cases "length b = 32") (simp_all add: pad32_def)
qed

lemma get_string_sshString:
  "length b < 2 ^ 32 \<Longrightarrow> get_string (sshString b @ rest) = Some (b, rest)"
  by (simp add: get_string_def sshString_def unat_of_nat Let_def)

lemma line_field_line: "CHR '' '' \<notin> set a \<Longrightarrow> CHR '' '' \<notin> set b \<Longrightarrow> line_field (a @ '' '' @ b) = b"
proof -
  assume "CHR '' '' \<notin> set a" "CHR '' '' \<notin> set b"
  then have "dropWhile (\<lambda>c. c \<noteq> CHR '' '') (a @ CHR '' '' # b) = CHR '' '' # b" "takeWhile (\<lambda>c. c \<noteq> CHR '' '') b = b"
    by (auto simp: takeWhile_eq_all_conv dropWhile_append3)
  then show ?thesis by (simp add: line_field_def)
qed

lemma std_alphabet_no_space: "CHR '' '' \<notin> set std_alphabet" by code_simp

lemma Std_Encode_no_space: "CHR '' '' \<notin> set (Std_Encode bs)"
proof -
  have "set (enc_chars std_alphabet bs) \<subseteq> set std_alphabet"
    using sextets_bound [of bs] alphabet_facts(2) by (auto simp: enc_chars_def intro!: nth_mem)
  then show ?thesis using std_alphabet_no_space by (auto simp: Std_Encode_def padding_def)
qed

lemma sshAlgorithm_no_space: "CHR '' '' \<notin> set sshAlgorithm" by code_simp

lemma publicKeyBlobFromLine_line:
  assumes "blob \<noteq> []" shows "publicKeyBlobFromLine (sshAlgorithm @ '' '' @ Std_Encode blob) = Some blob"
proof -
  have "Std_Encode blob \<noteq> []" using assms Std_roundtrip [of blob] by (auto simp: Std_Decode_def strip_padding_def raw_decode_def)
  then show ?thesis
    by (simp only: publicKeyBlobFromLine_def Let_def line_field_line [OF sshAlgorithm_no_space Std_Encode_no_space])
       (simp add: Std_roundtrip)
qed

lemma toSk_swaps_type: "toSkPublicKeyBlob (sshString (bytes_of sshAlgorithm) @ rest) = sshString (bytes_of sshSKKeyType) @ rest"
proof -
  have "length (bytes_of sshAlgorithm) = 43" by (simp add: bytes_of_def sshAlgorithm_def)
  then show ?thesis by (simp add: toSkPublicKeyBlob_def sshString_def Let_def)
qed

lemma line_nonempty: "sshAlgorithm @ '' '' @ b \<noteq> []"
  by simp

lemma key_blob_lengths:
  "length (bytes_of sshAlgorithm) < 2 ^ 32" "length (bytes_of sshCurve) < 2 ^ 32" "length (ec_point x y) < 2 ^ 32"
  by (simp_all add: bytes_of_def sshAlgorithm_def sshCurve_def ec_point_def)

text \<open>
  C29: The \<open>authorized_keys\<close> line built from a P-256 key decodes back to it: the reader of the line
  finds a blob whose SSH strings are the key type, the curve, the uncompressed point with exactly the
  coordinates of the key, and the relying party, with nothing left over; and the fingerprint shown
  for the line is the hash of that blob under the key type OpenSSH uses.
\<close>

theorem authorized_keys_line_decodes:
  assumes "ParsePublicKey coseKey = Some (EC2PublicKeyData x y)" "length x \<le> 32" "length y \<le> 32"
    and rp: "length rpID < 2 ^ 32"
  shows "\<exists>line blob point r1 r2 r3.
    CoseToAuthorizedKeys ParsePublicKey coseKey rpID = Inr line \<and> publicKeyBlobFromLine line = Some blob
    \<and> get_string blob = Some (bytes_of sshAlgorithm, r1) \<and> get_string r1 = Some (bytes_of sshCurve, r2)
    \<and> get_string r2 = Some (point, r3) \<and> get_string r3 = Some (bytes_of rpID, [])
    \<and> length point = 65 \<and> hd point = 4
    \<and> be_value (take 32 (drop 1 point)) = be_value x \<and> be_value (drop 33 point) = be_value y
    \<and> FingerprintFromAuthorizedKeys sha256 line =
        ''SHA256:'' @ trimEqual (Std_Encode (sha256 (sshString (bytes_of sshSKKeyType) @ r1)))"
proof -
  let ?pt = "ec_point x y"
  let ?r3 = "sshString (bytes_of rpID)"
  let ?r2 = "sshString ?pt @ ?r3"
  let ?r1 = "sshString (bytes_of sshCurve) @ ?r2"
  let ?blob = "sshString (bytes_of sshAlgorithm) @ ?r1"
  have blob: "key_blob ?pt rpID = ?blob" by (simp add: key_blob_def)
  have ne: "?blob \<noteq> []" by (simp add: sshString_def be32_def)
  have parse: "publicKeyBlobFromLine (sshAlgorithm @ '' '' @ Std_Encode ?blob) = Some ?blob"
    by (rule publicKeyBlobFromLine_line [OF ne])
  have line: "CoseToAuthorizedKeys ParsePublicKey coseKey rpID = Inr (sshAlgorithm @ '' '' @ Std_Encode ?blob)"
    unfolding CoseToAuthorizedKeys_def assms(1) option.case cose_key.case blob ..
  have finger: "FingerprintFromAuthorizedKeys sha256 (sshAlgorithm @ '' '' @ Std_Encode ?blob) =
      ''SHA256:'' @ trimEqual (Std_Encode (sha256 (sshString (bytes_of sshSKKeyType) @ ?r1)))"
    unfolding FingerprintFromAuthorizedKeys_def parse option.case toSk_swaps_type by (rule if_not_P) (rule line_nonempty)
  have rest: "get_string ?r3 = Some (bytes_of rpID, [])"
    using get_string_sshString [of "bytes_of rpID" "[]"] rp by (simp add: bytes_of_def)
  have point: "length ?pt = 65" "hd ?pt = 4" "be_value (take 32 (drop 1 ?pt)) = be_value x" "be_value (drop 33 ?pt) = be_value y"
    by (simp_all add: ec_point_def be_value_pad32 assms(2,3))
  show ?thesis
    by (intro exI conjI)
       (rule line, rule parse, rule get_string_sshString [OF key_blob_lengths(1)], rule get_string_sshString [OF key_blob_lengths(2)],
        rule get_string_sshString [OF key_blob_lengths(3)], rule rest, rule point, rule point, rule point, rule point, rule finger)
qed

theorem authorized_keys_line_decodes_witness:
  "\<exists>line. CoseToAuthorizedKeys (\<lambda>_. Some (EC2PublicKeyData [1] [2, 3])) [] ''localhost'' = Inr line
     \<and> (\<exists>blob. publicKeyBlobFromLine line = Some blob)"
  using authorized_keys_line_decodes [of "\<lambda>_. Some (EC2PublicKeyData [1] [2, 3])" "[]" "[1]" "[2, 3]" "''localhost''", OF refl]
  by simp blast

end
