(* ===== verification/Webauthn_Verify.thy ===== *)
theory Webauthn_Verify
  imports Webauthn_Tokens Credential_Properties Cose
begin

text \<open>
  \<open>src/internal/webauthn/verify.go\<close> and \<open>login.go\<close>: verifying registrations and assertions, and the
  login and consent assertions of the OAuth provider pages.

  The record \<open>wa_lib\<close> holds what is not under \<open>src/\<close>: the parsers and verifiers of go-webauthn's
  \<open>protocol\<close> package (the left summand is the error's text), \<open>ParsePublicKey\<close>, the table of product
  names, the \<open>id\<close> member \<open>encoding/json\<close> finds in a credential, and the text of a database error.
  Challenge strings and ids come from the random source and are arguments.
\<close>

section \<open>Collaborators and state\<close>

record creation_response =
  cr_CredentialID :: "byte list"
  cr_PublicKey :: "byte list"
  cr_AAGUID :: "byte list"
  cr_Counter :: "32 word"
  cr_Transports :: "string list"

record assertion_response =
  ar_RawID :: "byte list"
  ar_Counter :: "32 word"

record wa_lib =
  wl_ParseCreation :: "string \<Rightarrow> string + creation_response"
  wl_VerifyCreation :: "creation_response \<Rightarrow> string \<Rightarrow> string \<Rightarrow> string list \<Rightarrow> string option"
  wl_ParseAssertion :: "string \<Rightarrow> string + assertion_response"
  wl_VerifyAssertion :: "assertion_response \<Rightarrow> string \<Rightarrow> string \<Rightarrow> string list \<Rightarrow> byte list \<Rightarrow> string option"
  wl_ParsePublicKey :: "byte list \<Rightarrow> cose_key option"
  wl_aaguidNames :: "(string, string) gomap"
  wl_json_id :: "string \<Rightarrow> string"
  wl_dberr :: "store_error \<Rightarrow> string"
  wl_sha256 :: "byte list \<Rightarrow> byte list"
  wl_iso :: "time \<Rightarrow> string"

record wa_deps =
  wd_RpID :: string
  wd_TrustedOrigins :: "string list"
  wd_SelfRegEnabled :: bool

record wa_state =
  wa_db :: id_db
  wa_challenges :: challenge_store
  wa_stepup :: stepup_store
  wa_invites :: invite_store

section \<open>Verification\<close>

record decoded_registration =
  dr_CredentialID :: string
  dr_PublicKeyCOSE :: "byte list"
  dr_Counter :: "32 word"
  dr_Transports :: "string list"
  dr_BaseLabel :: string
  dr_AuthorizedKeysEntry :: string

definition VerifyRegistration ::
  "wa_lib \<Rightarrow> string \<Rightarrow> string \<Rightarrow> string \<Rightarrow> string list \<Rightarrow> string + decoded_registration"
where
  "VerifyRegistration L rawCredential challenge rpID origins =
     (case wl_ParseCreation L rawCredential of
        Inl e \<Rightarrow> Inl (''parse registration response: '' @ e)
      | Inr pcc \<Rightarrow>
          (case wl_VerifyCreation L pcc challenge rpID origins of
             Some e \<Rightarrow> Inl (''verification failed: '' @ e)
           | None \<Rightarrow>
               Inr \<lparr>dr_CredentialID = RawURL_Encode (cr_CredentialID pcc), dr_PublicKeyCOSE = cr_PublicKey pcc,
                    dr_Counter = cr_Counter pcc, dr_Transports = cr_Transports pcc,
                    dr_BaseLabel = lookupAAGUID (wl_aaguidNames L) (cr_AAGUID pcc),
                    dr_AuthorizedKeysEntry =
                      (case CoseToAuthorizedKeys (wl_ParsePublicKey L) (cr_PublicKey pcc) rpID of
                         Inl _ \<Rightarrow> [] | Inr line \<Rightarrow> line)\<rparr>))"

record assertion_result =
  as_CredentialID :: string
  as_NewCounter :: "32 word"

record assertion_params =
  ap_RawCredential :: string
  ap_Challenge :: string
  ap_RpID :: string
  ap_Origins :: "string list"
  ap_StoredCOSE :: "byte list"
  ap_StoredCounter :: "32 word"

definition counter_ok :: "32 word \<Rightarrow> 32 word \<Rightarrow> bool" where
  "counter_ok responseCounter storedCounter \<longleftrightarrow>
     \<not> ((responseCounter > 0 \<or> storedCounter > 0) \<and> responseCounter \<le> storedCounter)"

definition VerifyAssertion :: "wa_lib \<Rightarrow> assertion_params \<Rightarrow> string + assertion_result" where
  "VerifyAssertion L p =
     (case wl_ParseAssertion L (ap_RawCredential p) of
        Inl e \<Rightarrow> Inl (''parse assertion: '' @ e)
      | Inr pca \<Rightarrow>
          (case wl_VerifyAssertion L pca (ap_Challenge p) (ap_RpID p) (ap_Origins p) (ap_StoredCOSE p) of
             Some e \<Rightarrow> Inl (''verification failed: '' @ e)
           | None \<Rightarrow>
               if \<not> counter_ok (ar_Counter pca) (ap_StoredCounter p)
               then Inl (''verification failed: response counter value '' @ Itoa (uint (ar_Counter pca))
                         @ '' was lower than expected '' @ Itoa (uint (ap_StoredCounter p)))
               else Inr \<lparr>as_CredentialID = RawURL_Encode (ar_RawID pca), as_NewCounter = ar_Counter pca\<rparr>))"

section \<open>Login and consent assertions\<close>

record auth_options =
  ao_Challenge :: string
  ao_RpID :: string
  ao_UserVerification :: string
  ao_AllowCredentials :: "string list"
  ao_ChallengeID :: string
  ao_Action :: string

definition login_options :: "wa_deps \<Rightarrow> time \<Rightarrow> string \<Rightarrow> string \<Rightarrow> string list \<Rightarrow> wa_state \<Rightarrow> auth_options option \<times> wa_state"
where
  "login_options d now challenge cid creds st =
     (if creds = [] then (None, st)
      else (Some \<lparr>ao_Challenge = challenge, ao_RpID = wd_RpID d, ao_UserVerification = ''required'',
                  ao_AllowCredentials = creds, ao_ChallengeID = cid, ao_Action = []\<rparr>,
            st\<lparr>wa_challenges := ch_Store now cid challenge PurposeLogin (wa_challenges st)\<rparr>))"

definition LoginOptions ::
  "wa_deps \<Rightarrow> bool \<Rightarrow> time \<Rightarrow> string \<Rightarrow> string \<Rightarrow> wa_state \<Rightarrow> (store_error + auth_options option) \<times> wa_state"
where
  "LoginOptions d flt now challenge cid st =
     (case AllActiveCredentialIDs flt (wa_db st) of
        Inl e \<Rightarrow> (Inl e, st)
      | Inr creds \<Rightarrow> map_prod Inr id (login_options d now challenge cid creds st))"

definition ConsentOptions ::
  "wa_deps \<Rightarrow> bool \<Rightarrow> time \<Rightarrow> string \<Rightarrow> string \<Rightarrow> string \<Rightarrow> wa_state \<Rightarrow> (store_error + auth_options option) \<times> wa_state"
where
  "ConsentOptions d flt now challenge cid accountID st =
     (case ActiveCredentialIDs flt accountID (wa_db st) of
        Inl e \<Rightarrow> (Inl e, st)
      | Inr creds \<Rightarrow> map_prod Inr id (login_options d now challenge cid creds st))"

record login_result =
  lr_AccountID :: string
  lr_Status :: int
  lr_Error :: string

definition login_error :: "int \<Rightarrow> string \<Rightarrow> login_result" where
  "login_error status msg = \<lparr>lr_AccountID = [], lr_Status = status, lr_Error = msg\<rparr>"

text \<open>
  \<open>VerifyLogin\<close> in the two steps between which other requests can run: everything up to and
  including the signature and counter checks (\<open>Inl\<close> is a refusal), then the counter write. \<open>flt1\<close>
  and \<open>flt2\<close> are the driver's failures, \<open>now\<close> is the clock the challenge store reads.
\<close>

definition login_check ::
  "wa_lib \<Rightarrow> wa_deps \<Rightarrow> bool \<Rightarrow> time \<Rightarrow> string \<Rightarrow> string \<Rightarrow> string \<Rightarrow> wa_state
   \<Rightarrow> (login_result + found_credential \<times> 32 word) \<times> wa_state"
where
  "login_check L d flt1 now challengeID credentialID raw st =
     (case ch_Consume now challengeID PurposeLogin (wa_challenges st) of
        (challenge, c) \<Rightarrow>
          (let st = st\<lparr>wa_challenges := c\<rparr> in
           if challenge = [] then (Inl (login_error 400 ''Challenge expired or not found''), st)
           else case FindByCredentialID flt1 credentialID (wa_db st) of
                  Inl _ \<Rightarrow> (Inl (login_error 400 ''Unknown credential''), st)
                | Inr None \<Rightarrow> (Inl (login_error 400 ''Unknown credential''), st)
                | Inr (Some stored) \<Rightarrow>
                    if fc_Revoked stored then (Inl (login_error 403 ''This passkey has been revoked''), st)
                    else if fc_State stored \<noteq> CredentialStateActive
                    then (Inl (login_error 403 ''This passkey is awaiting confirmation on the original device''), st)
                    else (case VerifyAssertion L
                            \<lparr>ap_RawCredential = raw, ap_Challenge = challenge, ap_RpID = wd_RpID d,
                             ap_Origins = wd_TrustedOrigins d, ap_StoredCOSE = fc_PublicKeyCOSE stored,
                             ap_StoredCounter = fc_Counter stored\<rparr> of
                            Inl e \<Rightarrow> (Inl (login_error 400 e), st)
                          | Inr res \<Rightarrow> (Inr (stored, as_NewCounter res), st))))"

definition login_commit ::
  "wa_lib \<Rightarrow> bool \<Rightarrow> string \<Rightarrow> found_credential \<Rightarrow> 32 word \<Rightarrow> wa_state \<Rightarrow> login_result \<times> wa_state"
where
  "login_commit L flt2 nowISO stored counter st =
     (case UpdateCounter flt2 nowISO (fc_RowID stored) counter (wa_db st) of
        (Some e, db) \<Rightarrow> (login_error 400 (wl_dberr L e), st\<lparr>wa_db := db\<rparr>)
      | (None, db) \<Rightarrow>
          (\<lparr>lr_AccountID = fc_AccountID stored, lr_Status = 0, lr_Error = []\<rparr>, st\<lparr>wa_db := db\<rparr>))"

definition VerifyLogin ::
  "wa_lib \<Rightarrow> wa_deps \<Rightarrow> bool \<Rightarrow> bool \<Rightarrow> time \<Rightarrow> string \<Rightarrow> string \<Rightarrow> string \<Rightarrow> string \<Rightarrow> wa_state
   \<Rightarrow> login_result \<times> wa_state"
where
  "VerifyLogin L d flt1 flt2 now nowISO challengeID credentialID raw st =
     (case login_check L d flt1 now challengeID credentialID raw st of
        (Inl r, st) \<Rightarrow> (r, st)
      | (Inr (stored, counter), st) \<Rightarrow> login_commit L flt2 nowISO stored counter st)"

definition VerifyConsent ::
  "wa_lib \<Rightarrow> wa_deps \<Rightarrow> bool \<Rightarrow> bool \<Rightarrow> time \<Rightarrow> string \<Rightarrow> string \<Rightarrow> string \<Rightarrow> string \<Rightarrow> string \<Rightarrow> wa_state
   \<Rightarrow> login_result \<times> wa_state"
where
  "VerifyConsent L d flt1 flt2 now nowISO challengeID credentialID raw expectedAccountID st =
     (case VerifyLogin L d flt1 flt2 now nowISO challengeID credentialID raw st of
        (res, st) \<Rightarrow>
          if lr_Error res = [] \<and> lr_AccountID res \<noteq> expectedAccountID
          then (login_error 403 ''This passkey belongs to a different account'', st)
          else (res, st))"

end
