(* ===== verification/Webauthn_Routes.thy ===== *)
theory Webauthn_Routes
  imports Webauthn_Verify
begin

text \<open>
  \<open>src/internal/webauthn/routes.go\<close> and \<open>invite_routes.go\<close>: the HTTP ceremonies for registering
  passkeys, stepping up and inviting another device.

  A handler maps the state to its answer and the state after it. The decoded body is an argument
  (\<open>None\<close> where the handler refuses an undecodable one), as are the driver's failures (\<open>flt\<close>), the
  clock readings and the random strings. \<open>acc\<close> is the account of the authenticated principal, the
  empty string when there is none.
\<close>

section \<open>Helpers\<close>

definition toStoreCred :: "decoded_registration \<Rightarrow> decoded_credential" where
  "toStoreCred d =
     \<lparr>dc_CredentialID = dr_CredentialID d, dc_PublicKeyCOSE = dr_PublicKeyCOSE d, dc_Counter = dr_Counter d,
      dc_Transports = dr_Transports d, dc_BaseLabel = dr_BaseLabel d, dc_AuthorizedKeysEntry = dr_AuthorizedKeysEntry d\<rparr>"

definition clampName :: "string \<Rightarrow> string \<Rightarrow> string" where
  "clampName name fallback =
     (let name = (if name = [] then fallback else name) in
      if length name > 64 then take 64 name else name)"

definition nullable :: "string \<Rightarrow> json" where
  "nullable s = (if s = [] then JNull else JStr s)"

definition credential_refs :: "string list \<Rightarrow> json" where
  "credential_refs ids = JArr (map (\<lambda>i. JObj [(''id'', JStr i), (''type'', JStr ''public-key'')]) ids)"

definition authopts_json :: "auth_options \<Rightarrow> json" where
  "authopts_json o' =
     JObj [(''challenge'', JStr (ao_Challenge o')), (''rpId'', JStr (ao_RpID o')),
           (''userVerification'', JStr (ao_UserVerification o')), (''allowCredentials'', credential_refs (ao_AllowCredentials o')),
           (''challengeId'', JStr (ao_ChallengeID o')), (''action'', JStr (ao_Action o'))]"

section \<open>Registration options\<close>

record reg_options =
  ro_Challenge :: string
  ro_RpID :: string
  ro_UserID :: string
  ro_UserName :: string
  ro_Exclude :: "string list"
  ro_ChallengeID :: string

definition buildRegOptions :: "wa_deps \<Rightarrow> string \<Rightarrow> string \<Rightarrow> string \<Rightarrow> string list \<Rightarrow> reg_options" where
  "buildRegOptions d challenge userID userName exclude =
     \<lparr>ro_Challenge = challenge, ro_RpID = wd_RpID d, ro_UserID = userID, ro_UserName = userName,
      ro_Exclude = exclude, ro_ChallengeID = []\<rparr>"

text \<open>The member \<open>excludeCredentials\<close> is omitted when it is empty.\<close>

definition regopts_json :: "reg_options \<Rightarrow> json" where
  "regopts_json o' =
     JObj ([(''challenge'', JStr (ro_Challenge o')),
            (''rp'', JObj [(''name'', JStr ''ShellWatch''), (''id'', JStr (ro_RpID o'))]),
            (''user'', JObj [(''id'', JStr (ro_UserID o')), (''name'', JStr (ro_UserName o')), (''displayName'', JStr (ro_UserName o'))]),
            (''pubKeyCredParams'', JArr [JObj [(''type'', JStr ''public-key''), (''alg'', JNum (- 7))]]),
            (''authenticatorSelection'', JObj [(''residentKey'', JStr ''preferred''), (''userVerification'', JStr ''required'')]),
            (''attestation'', JStr ''none'')]
           @ (if ro_Exclude o' = [] then [] else [(''excludeCredentials'', credential_refs (ro_Exclude o'))])
           @ [(''challengeId'', JStr (ro_ChallengeID o'))])"

definition challengeID :: "string \<Rightarrow> reg_options \<Rightarrow> reg_options" where
  "challengeID fresh o' = (if ro_ChallengeID o' = [] then o'\<lparr>ro_ChallengeID := fresh\<rparr> else o')"

record wa_fresh =
  fr_challenge :: string
  fr_userID :: string
  fr_uuid :: string
  fr_uuid2 :: string
  fr_token :: string

definition passkeyStatus :: "bool \<Rightarrow> wa_state \<Rightarrow> http_resp" where
  "passkeyStatus flt st =
     (case cs_HasPasskeys flt (wa_db st) of
        Inl _ \<Rightarrow> apierr_Write 500 ''internal error''
      | Inr has \<Rightarrow> (200, JObj [(''hasPasskeys'', JBool has)]))"

text \<open>A failed look-up reads as ``no passkeys'' here; \<open>SelfRegister\<close> checks again.\<close>

definition selfreg_closed :: "wa_deps \<Rightarrow> bool \<Rightarrow> wa_state \<Rightarrow> bool" where
  "selfreg_closed d flt st \<longleftrightarrow>
     \<not> wd_SelfRegEnabled d \<and> (case cs_HasPasskeys flt (wa_db st) of Inl _ \<Rightarrow> False | Inr has \<Rightarrow> has)"

definition offer_registration ::
  "wa_deps \<Rightarrow> wa_fresh \<Rightarrow> time \<Rightarrow> string \<Rightarrow> string list \<Rightarrow> string \<Rightarrow> wa_state \<Rightarrow> http_resp \<times> wa_state"
where
  "offer_registration d fr now name exclude purpose st =
     (let opts = challengeID (fr_uuid fr) (buildRegOptions d (fr_challenge fr) (fr_userID fr) name exclude) in
      ((200, regopts_json opts),
       st\<lparr>wa_challenges := ch_Store now (ro_ChallengeID opts) (ro_Challenge opts) purpose (wa_challenges st)\<rparr>))"

definition selfRegisterOptions :: "wa_deps \<Rightarrow> wa_fresh \<Rightarrow> bool \<Rightarrow> time \<Rightarrow> string \<Rightarrow> wa_state \<Rightarrow> http_resp \<times> wa_state" where
  "selfRegisterOptions d fr flt now name st =
     (if selfreg_closed d flt st then (apierr_Write 403 ''Self-registration is disabled'', st)
      else offer_registration d fr now (clampName name ''user'') [] PurposeSelfRegister st)"

definition inAccountRegisterOptions ::
  "wa_deps \<Rightarrow> wa_fresh \<Rightarrow> bool \<Rightarrow> time \<Rightarrow> string \<Rightarrow> string \<Rightarrow> string \<Rightarrow> wa_state \<Rightarrow> http_resp \<times> wa_state"
where
  "inAccountRegisterOptions d fr flt now acc label name st =
     (let name = (if name = [] then label else name) in
      case ActiveCredentialIDs flt acc (wa_db st) of
        Inl _ \<Rightarrow> (apierr_Write 500 ''internal error'', st)
      | Inr exclude \<Rightarrow> offer_registration d fr now (clampName name ''user'') exclude PurposeRegisterInAccount st)"

section \<open>Registration\<close>

record verify_body =
  vb_Name :: string
  vb_ChallengeID :: string
  vb_Credential :: string

text \<open>Consuming the challenge and verifying the response against it: what the three ceremonies share.\<close>

definition consume_and_verify ::
  "wa_lib \<Rightarrow> wa_deps \<Rightarrow> time \<Rightarrow> string \<Rightarrow> string \<Rightarrow> string \<Rightarrow> wa_state \<Rightarrow> (http_resp + decoded_registration) \<times> wa_state"
where
  "consume_and_verify L d now challengeId purpose credential st =
     (case ch_Consume now challengeId purpose (wa_challenges st) of
        (challenge, c) \<Rightarrow>
          (let st = st\<lparr>wa_challenges := c\<rparr> in
           if challenge = [] then (Inl (apierr_Write 400 ''Challenge expired or not found''), st)
           else case VerifyRegistration L credential challenge (wd_RpID d) (wd_TrustedOrigins d) of
                  Inl e \<Rightarrow> (Inl (apierr_Write 400 e), st)
                | Inr dec \<Rightarrow> (Inr dec, st)))"

definition selfRegister ::
  "wa_lib \<Rightarrow> wa_deps \<Rightarrow> wa_fresh \<Rightarrow> bool \<Rightarrow> tx_faults \<Rightarrow> time \<Rightarrow> string \<Rightarrow> verify_body option \<Rightarrow> wa_state \<Rightarrow> http_resp \<times> wa_state"
where
  "selfRegister L d fr flt txf now nowISO body st =
     (if selfreg_closed d flt st then (apierr_Write 403 ''Self-registration is disabled'', st)
      else case body of
             None \<Rightarrow> (apierr_Write 400 ''invalid body'', st)
           | Some b \<Rightarrow>
               if vb_ChallengeID b = [] \<or> vb_Credential b = []
               then (apierr_Write 400 ''name, challengeId, and credential are required'', st)
               else case consume_and_verify L d now (vb_ChallengeID b) PurposeSelfRegister (vb_Credential b) st of
                      (Inl r, st) \<Rightarrow> (r, st)
                    | (Inr dec, st) \<Rightarrow>
                        (case SelfRegister txf nowISO
                                \<lparr>sp_Name = vb_Name b, sp_Credential = toStoreCred dec, sp_SelfRegEnabled = wd_SelfRegEnabled d,
                                 sp_NewAccountID = fr_uuid fr, sp_NewCredID = fr_uuid2 fr\<rparr> (wa_db st) of
                           (Inl e, db) \<Rightarrow> (apierr_Write 400 (wl_dberr L e), st\<lparr>wa_db := db\<rparr>)
                         | (Inr None, db) \<Rightarrow> (apierr_Write 403 ''Self-registration is disabled'', st\<lparr>wa_db := db\<rparr>)
                         | (Inr (Some res), db) \<Rightarrow>
                             ((200, JObj [(''verified'', JBool True), (''accountId'', JStr (sr_AccountID res)),
                                (''id'', JStr (sr_CredentialRowID res)), (''credentialId'', JStr (dr_CredentialID dec)),
                                (''label'', JStr (sr_Label res))]), st\<lparr>wa_db := db\<rparr>)))"

definition inAccountRegister ::
  "wa_lib \<Rightarrow> wa_deps \<Rightarrow> wa_fresh \<Rightarrow> bool \<Rightarrow> bool \<Rightarrow> time \<Rightarrow> string \<Rightarrow> string \<Rightarrow> verify_body option \<Rightarrow> wa_state \<Rightarrow> http_resp \<times> wa_state"
where
  "inAccountRegister L d fr flt1 flt2 now nowISO acc body st =
     (case body of
        None \<Rightarrow> (apierr_Write 400 ''invalid body'', st)
      | Some b \<Rightarrow>
          (case consume_and_verify L d now (vb_ChallengeID b) PurposeRegisterInAccount (vb_Credential b) st of
             (Inl r, st) \<Rightarrow> (r, st)
           | (Inr dec, st) \<Rightarrow>
               (case cs_Insert flt1 flt2 nowISO acc (toStoreCred dec) CredentialStateActive (fr_uuid fr) (wa_db st) of
                  (Inl e, db) \<Rightarrow> (apierr_Write 400 (wl_dberr L e), st\<lparr>wa_db := db\<rparr>)
                | (Inr ins, db) \<Rightarrow>
                    ((200, JObj [(''verified'', JBool True), (''credentialId'', JStr (dr_CredentialID dec)),
                       (''id'', JStr (in_ID ins)), (''label'', JStr (in_Label ins)),
                       (''authorizedKeysEntry'', nullable (dr_AuthorizedKeysEntry dec)),
                       (''sshdConfig'', if dr_AuthorizedKeysEntry dec = [] then JNull else JStr SshdConfigLine)]),
                     st\<lparr>wa_db := db\<rparr>))))"

section \<open>Step-up\<close>

definition stepUpOptions ::
  "wa_deps \<Rightarrow> wa_fresh \<Rightarrow> bool \<Rightarrow> time \<Rightarrow> string \<Rightarrow> string \<Rightarrow> wa_state \<Rightarrow> http_resp \<times> wa_state"
where
  "stepUpOptions d fr flt now acc action st =
     (case map_of ActionToPurpose action of
        None \<Rightarrow> (apierr_Write 400 ''Invalid or missing action'', st)
      | Some purpose \<Rightarrow>
          (case ActiveCredentialIDs flt acc (wa_db st) of
             Inl _ \<Rightarrow> (apierr_Write 500 ''internal error'', st)
           | Inr creds \<Rightarrow>
               if creds = [] then (apierr_Write 400 ''no_active_credentials'', st)
               else ((200, authopts_json \<lparr>ao_Challenge = fr_challenge fr, ao_RpID = wd_RpID d, ao_UserVerification = ''required'',
                             ao_AllowCredentials = creds, ao_ChallengeID = fr_uuid fr, ao_Action = action\<rparr>),
                     st\<lparr>wa_challenges := ch_Store now (fr_uuid fr) (fr_challenge fr) purpose (wa_challenges st)\<rparr>)))"

record stepup_body =
  sb_ChallengeID :: string
  sb_Credential :: string
  sb_Action :: string

text \<open>\<open>t1\<close> to \<open>t3\<close>: the clock readings of the challenge store and of \<open>Mint\<close>.\<close>

definition stepUpVerify ::
  "wa_lib \<Rightarrow> wa_deps \<Rightarrow> wa_fresh \<Rightarrow> bool \<Rightarrow> bool \<Rightarrow> time \<Rightarrow> time \<Rightarrow> time \<Rightarrow> string \<Rightarrow> string \<Rightarrow> stepup_body option \<Rightarrow> wa_state \<Rightarrow> http_resp \<times> wa_state"
where
  "stepUpVerify L d fr flt1 flt2 t1 t2 t3 nowISO acc body st =
     (case body of
        None \<Rightarrow> (apierr_Write 400 ''invalid body'', st)
      | Some b \<Rightarrow>
          (case map_of ActionToPurpose (sb_Action b) of
             None \<Rightarrow> (apierr_Write 400 ''Invalid or missing action'', st)
           | Some purpose \<Rightarrow>
               (case ch_Consume t1 (sb_ChallengeID b) purpose (wa_challenges st) of
                  (challenge, c) \<Rightarrow>
                    (let st = st\<lparr>wa_challenges := c\<rparr> in
                     if challenge = [] then (apierr_Write 400 ''Challenge expired or not found'', st)
                     else case FindByCredentialID flt1 (wl_json_id L (sb_Credential b)) (wa_db st) of
                            Inl _ \<Rightarrow> (apierr_Write 400 ''Unknown credential'', st)
                          | Inr None \<Rightarrow> (apierr_Write 400 ''Unknown credential'', st)
                          | Inr (Some stored) \<Rightarrow>
                              if fc_AccountID stored \<noteq> acc \<or> fc_Revoked stored \<or> fc_State stored \<noteq> CredentialStateActive
                              then (apierr_Write 400 ''Unknown credential'', st)
                              else (case VerifyAssertion L
                                      \<lparr>ap_RawCredential = sb_Credential b, ap_Challenge = challenge, ap_RpID = wd_RpID d,
                                       ap_Origins = wd_TrustedOrigins d, ap_StoredCOSE = fc_PublicKeyCOSE stored,
                                       ap_StoredCounter = fc_Counter stored\<rparr> of
                                      Inl e \<Rightarrow> (apierr_Write 400 e, st)
                                    | Inr res \<Rightarrow>
                                        (case UpdateCounter flt2 nowISO (fc_RowID stored) (as_NewCounter res) (wa_db st) of
                                           (Some e, db) \<Rightarrow> (apierr_Write 400 (wl_dberr L e), st\<lparr>wa_db := db\<rparr>)
                                         | (None, db) \<Rightarrow>
                                             (case su_Mint t2 t3 (fr_token fr) acc (sb_Action b) (wa_stepup st) of
                                                (exp, su) \<Rightarrow>
                                                  ((200, JObj [(''stepUpToken'', JStr (fr_token fr)),
                                                     (''expiresAt'', JStr (wl_iso L exp)), (''action'', JStr (sb_Action b))]),
                                                   st\<lparr>wa_db := db, wa_stepup := su\<rparr>))))))))"

section \<open>Invitations\<close>

definition invite_json :: "wa_lib \<Rightarrow> invite_slot \<Rightarrow> json" where
  "invite_json L s =
     JObj [(''invite'', JObj [(''expiresAt'', JStr (wl_iso L (is_ExpiresAt s))), (''createdAt'', JStr (wl_iso L (is_CreatedAt s))),
                              (''token'', JStr (is_Token s))])]"

definition mintInvite :: "wa_lib \<Rightarrow> wa_fresh \<Rightarrow> time \<Rightarrow> string \<Rightarrow> wa_state \<Rightarrow> http_resp \<times> wa_state" where
  "mintInvite L fr now acc st =
     (case inv_Create now acc (fr_token fr) (wa_invites st) of
        (slot, i) \<Rightarrow> ((200, invite_json L slot), st\<lparr>wa_invites := i\<rparr>))"

definition readInvite :: "wa_lib \<Rightarrow> time \<Rightarrow> string \<Rightarrow> wa_state \<Rightarrow> http_resp \<times> wa_state" where
  "readInvite L now acc st =
     (case inv_FindForAccount now acc (wa_invites st) of
        (None, i) \<Rightarrow> (apierr_Write 404 ''No active invite'', st\<lparr>wa_invites := i\<rparr>)
      | (Some slot, i) \<Rightarrow> ((200, invite_json L slot), st\<lparr>wa_invites := i\<rparr>))"

definition confirmCredential :: "bool \<Rightarrow> bool \<Rightarrow> string \<Rightarrow> string \<Rightarrow> wa_state \<Rightarrow> http_resp \<times> wa_state" where
  "confirmCredential flt1 flt2 acc rid st =
     (case cs_FindForAccount flt1 rid acc (wa_db st) of
        Inl _ \<Rightarrow> (apierr_Write 500 ''internal error'', st)
      | Inr None \<Rightarrow> (apierr_Write 404 ''Credential not found'', st)
      | Inr (Some cred) \<Rightarrow>
          if pc_Revoked cred then (apierr_Write 400 ''Credential is revoked'', st)
          else if pc_State cred = CredentialStateActive then (apierr_Write 400 ''Credential is already active'', st)
          else (case SetState flt2 rid CredentialStateActive (wa_db st) of
                  (Some _, db) \<Rightarrow> (apierr_Write 500 ''internal error'', st\<lparr>wa_db := db\<rparr>)
                | (None, db) \<Rightarrow> ((200, JObj [(''status'', JStr ''active'')]), st\<lparr>wa_db := db\<rparr>)))"

definition inviteByToken :: "wa_lib \<Rightarrow> bool \<Rightarrow> time \<Rightarrow> string \<Rightarrow> wa_state \<Rightarrow> http_resp \<times> wa_state" where
  "inviteByToken L flt now token st =
     (case inv_FindByToken now token (wa_invites st) of
        (None, i) \<Rightarrow> (apierr_Write 404 ''Invite not found or expired'', st\<lparr>wa_invites := i\<rparr>)
      | (Some slot, i) \<Rightarrow>
          ((200, JObj [(''accountName'', nullable (AccountName flt (is_AccountID slot) (wa_db st))),
                       (''expiresAt'', JStr (wl_iso L (is_ExpiresAt slot)))]), st\<lparr>wa_invites := i\<rparr>))"

definition inviteRegisterOptions ::
  "wa_deps \<Rightarrow> wa_fresh \<Rightarrow> bool \<Rightarrow> bool \<Rightarrow> time \<Rightarrow> string \<Rightarrow> wa_state \<Rightarrow> http_resp \<times> wa_state"
where
  "inviteRegisterOptions d fr flt1 flt2 now token st =
     (if token = [] then (apierr_Write 400 ''Token is required'', st)
      else case inv_FindByToken now token (wa_invites st) of
             (None, i) \<Rightarrow> (apierr_Write 404 ''Invite not found or expired'', st\<lparr>wa_invites := i\<rparr>)
           | (Some slot, i) \<Rightarrow>
               (let st = st\<lparr>wa_invites := i\<rparr> in
                case ActiveCredentialIDs flt1 (is_AccountID slot) (wa_db st) of
                  Inl _ \<Rightarrow> (apierr_Write 500 ''internal error'', st)
                | Inr exclude \<Rightarrow>
                    let name = AccountName flt2 (is_AccountID slot) (wa_db st);
                        name = (if name = [] then ''ShellWatch user'' else name)
                    in offer_registration d fr now (clampName name ''user'') exclude PurposeRegisterInvite st))"

text \<open>
  Redemption. Another request may change the invitation slots between the look-up and the atomic
  claim: \<open>env\<close> is what happens to them meanwhile.
\<close>

definition inviteRegister ::
  "wa_lib \<Rightarrow> wa_deps \<Rightarrow> wa_fresh \<Rightarrow> bool \<Rightarrow> bool \<Rightarrow> time \<Rightarrow> time \<Rightarrow> string \<Rightarrow> (invite_store \<Rightarrow> invite_store) \<Rightarrow> string \<Rightarrow> string \<Rightarrow> string \<Rightarrow> wa_state \<Rightarrow> http_resp \<times> wa_state"
where
  "inviteRegister L d fr flt1 flt2 t1 t2 nowISO env token challengeId credential st =
     (if token = [] then (apierr_Write 400 ''Token is required'', st)
      else case inv_FindByToken t1 token (wa_invites st) of
             (None, i) \<Rightarrow> (apierr_Write 404 ''Invite not found or expired'', st\<lparr>wa_invites := i\<rparr>)
           | (Some slot, i) \<Rightarrow>
               (case consume_and_verify L d t2 challengeId PurposeRegisterInvite credential (st\<lparr>wa_invites := i\<rparr>) of
                  (Inl r, st) \<Rightarrow> (r, st)
                | (Inr dec, st) \<Rightarrow>
                    (case inv_ConsumeIfTokenMatches (is_AccountID slot) token (env (wa_invites st)) of
                       (False, i) \<Rightarrow> (apierr_Write 409 ''Invite was already used'', st\<lparr>wa_invites := i\<rparr>)
                     | (True, i) \<Rightarrow>
                         (let st = st\<lparr>wa_invites := i\<rparr> in
                          case cs_Insert flt1 flt2 nowISO (is_AccountID slot) (toStoreCred dec) CredentialStatePendingConfirmation
                                 (fr_uuid fr) (wa_db st) of
                            (Inl e, db) \<Rightarrow> (apierr_Write 400 (wl_dberr L e), st\<lparr>wa_db := db\<rparr>)
                          | (Inr ins, db) \<Rightarrow>
                              ((200, JObj [(''status'', JStr ''registered''), (''label'', JStr (in_Label ins)),
                                 (''fingerprint'', nullable (FingerprintFromAuthorizedKeys (wl_sha256 L) (dr_AuthorizedKeysEntry dec)))]),
                               st\<lparr>wa_db := db\<rparr>)))))"

end
