(* ===== verification/Webauthn_Properties.thy ===== *)
theory Webauthn_Properties
  imports Webauthn_Routes
begin

text \<open>
  Properties of the WebAuthn ceremonies: what a successful login proves, how a passkey can become
  active, what a step-up token stands for, and that an assertion cannot be replayed. The requests of
  all routes, with the step-up middleware in front of the handlers that have it, form one machine
  (\<open>wa_next\<close>).
\<close>

section \<open>Requests\<close>

text \<open>What the environment decides for one request: random strings, driver failures, clock readings.\<close>

record wa_env =
  we_fr :: wa_fresh
  we_flt1 :: bool
  we_flt2 :: bool
  we_txf :: tx_faults
  we_t1 :: time
  we_t2 :: time
  we_t3 :: time
  we_iso :: string
  we_invites :: "invite_store \<Rightarrow> invite_store"

datatype wa_request =
    RqPasskeyStatus
  | RqSelfOptions string
  | RqSelfRegister "verify_body option"
  | RqRegOptions string string
  | RqRegister string "verify_body option"
  | RqStepUpOptions string
  | RqStepUpVerify "stepup_body option"
  | RqMintInvite
  | RqReadInvite
  | RqConfirm string string
  | RqInviteByToken string
  | RqInviteOptions string
  | RqInviteRegister string string string
  | RqLoginOptions
  | RqConsentOptions string
  | RqLogin string string string
  | RqConsent string string string string

definition acc_of :: "principal option \<Rightarrow> string" where
  "acc_of pr = (case pr of None \<Rightarrow> [] | Some p \<Rightarrow> p_AccountID p)"

text \<open>\<open>RequireStepUp\<close> in front of a handler.\<close>

definition with_stepup ::
  "string \<Rightarrow> time \<Rightarrow> principal option \<Rightarrow> string \<Rightarrow> (wa_state \<Rightarrow> http_resp \<times> wa_state) \<Rightarrow> wa_state \<Rightarrow> http_resp \<times> wa_state"
where
  "with_stepup action now pr header h st =
     (case RequireStepUp action now pr header (wa_stepup st) of
        (Some r, s) \<Rightarrow> (r, st\<lparr>wa_stepup := s\<rparr>)
      | (None, s) \<Rightarrow> h (st\<lparr>wa_stepup := s\<rparr>))"

fun wa_next :: "wa_lib \<Rightarrow> wa_deps \<Rightarrow> principal option \<Rightarrow> wa_env \<Rightarrow> wa_request \<Rightarrow> wa_state \<Rightarrow> wa_state" where
  "wa_next L d pr e RqPasskeyStatus st = st"
| "wa_next L d pr e (RqSelfOptions name) st = snd (selfRegisterOptions d (we_fr e) (we_flt1 e) (we_t1 e) name st)"
| "wa_next L d pr e (RqSelfRegister body) st =
     snd (selfRegister L d (we_fr e) (we_flt1 e) (we_txf e) (we_t1 e) (we_iso e) body st)"
| "wa_next L d pr e (RqRegOptions label name) st =
     snd (inAccountRegisterOptions d (we_fr e) (we_flt1 e) (we_t1 e) (acc_of pr) label name st)"
| "wa_next L d pr e (RqRegister hdr body) st =
     snd (with_stepup ''register_passkey'' (we_t2 e) pr hdr
       (inAccountRegister L d (we_fr e) (we_flt1 e) (we_flt2 e) (we_t1 e) (we_iso e) (acc_of pr) body) st)"
| "wa_next L d pr e (RqStepUpOptions action) st =
     snd (stepUpOptions d (we_fr e) (we_flt1 e) (we_t1 e) (acc_of pr) action st)"
| "wa_next L d pr e (RqStepUpVerify body) st =
     snd (stepUpVerify L d (we_fr e) (we_flt1 e) (we_flt2 e) (we_t1 e) (we_t2 e) (we_t3 e) (we_iso e) (acc_of pr) body st)"
| "wa_next L d pr e RqMintInvite st = snd (mintInvite L (we_fr e) (we_t1 e) (acc_of pr) st)"
| "wa_next L d pr e RqReadInvite st = snd (readInvite L (we_t1 e) (acc_of pr) st)"
| "wa_next L d pr e (RqConfirm hdr rid) st =
     snd (with_stepup ''confirm_passkey'' (we_t2 e) pr hdr
       (confirmCredential (we_flt1 e) (we_flt2 e) (acc_of pr) rid) st)"
| "wa_next L d pr e (RqInviteByToken token) st = snd (inviteByToken L (we_flt1 e) (we_t1 e) token st)"
| "wa_next L d pr e (RqInviteOptions token) st =
     snd (inviteRegisterOptions d (we_fr e) (we_flt1 e) (we_flt2 e) (we_t1 e) token st)"
| "wa_next L d pr e (RqInviteRegister token cid cred) st =
     snd (inviteRegister L d (we_fr e) (we_flt1 e) (we_flt2 e) (we_t1 e) (we_t2 e) (we_iso e) (we_invites e) token cid cred st)"
| "wa_next L d pr e RqLoginOptions st =
     snd (LoginOptions d (we_flt1 e) (we_t1 e) (fr_challenge (we_fr e)) (fr_uuid (we_fr e)) st)"
| "wa_next L d pr e (RqConsentOptions acc) st =
     snd (ConsentOptions d (we_flt1 e) (we_t1 e) (fr_challenge (we_fr e)) (fr_uuid (we_fr e)) acc st)"
| "wa_next L d pr e (RqLogin cid credID raw) st =
     snd (VerifyLogin L d (we_flt1 e) (we_flt2 e) (we_t1 e) (we_iso e) cid credID raw st)"
| "wa_next L d pr e (RqConsent cid credID raw acc) st =
     snd (VerifyConsent L d (we_flt1 e) (we_flt2 e) (we_t1 e) (we_iso e) cid credID raw acc st)"

section \<open>What a verified assertion stands for\<close>

text \<open>The assertion verifies under the key of the row, for the challenge, and its counter moves on.\<close>

definition proves_possession :: "wa_lib \<Rightarrow> wa_deps \<Rightarrow> string \<Rightarrow> string \<Rightarrow> cred_row \<Rightarrow> 32 word \<Rightarrow> bool" where
  "proves_possession L d chal raw r c \<longleftrightarrow>
     (\<exists>a. wl_ParseAssertion L raw = Inr a
        \<and> wl_VerifyAssertion L a chal (wd_RpID d) (wd_TrustedOrigins d) (wc_public_key r) = None
        \<and> ar_Counter a = c \<and> (c = 0 \<and> wc_counter r = 0 \<or> wc_counter r < uint c))"

definition counters_wf :: "id_db \<Rightarrow> bool" where
  "counters_wf db \<longleftrightarrow> (\<forall>(k, r) \<in> set (id_creds db). 0 \<le> wc_counter r \<and> wc_counter r < 2 ^ 32)"

lemma counter_ok_row:
  assumes "0 \<le> n" "n < 2 ^ 32"
  shows "counter_ok c (of_int n) \<longleftrightarrow> (c = 0 \<and> n = 0 \<or> n < uint c)"
proof -
  have u: "uint (of_int n :: 32 word) = n" using assms by (simp add: uint_word_of_int_eq take_bit_int_eq_self)
  obtain m where m: "m = uint c" "0 \<le> m" by simp
  have "(of_int n :: 32 word) > 0 \<longleftrightarrow> n > 0" "c \<le> of_int n \<longleftrightarrow> m \<le> n" "c > 0 \<longleftrightarrow> m > 0" "c = 0 \<longleftrightarrow> m = 0"
    by (simp_all add: word_less_alt word_le_def u m uint_0_iff)
  then show ?thesis unfolding counter_ok_def m(1) [symmetric] using assms(1) m(2) by linarith
qed

lemma VerifyAssertion_success:
  assumes "VerifyAssertion L p = Inr res"
  obtains a where "wl_ParseAssertion L (ap_RawCredential p) = Inr a"
    "wl_VerifyAssertion L a (ap_Challenge p) (ap_RpID p) (ap_Origins p) (ap_StoredCOSE p) = None"
    "counter_ok (ar_Counter a) (ap_StoredCounter p)" "as_NewCounter res = ar_Counter a"
  using assms by (auto simp: VerifyAssertion_def split: sum.splits option.splits if_splits)

lemma find_in_creds: "FindCredentialByCredentialID cid db = Some (rid, r) \<Longrightarrow> (rid, r) \<in> set (id_creds db)"
  by (auto simp: FindCredentialByCredentialID_def find_Some_iff in_set_conv_nth)

text \<open>
  A refused check is a refusal with a text; an accepted one names the row and its new counter.
\<close>

lemma FindByCredentialID_Some:
  "FindByCredentialID flt cid db = Inr (Some fc) \<longleftrightarrow>
     \<not> flt \<and> (\<exists>rid r. FindCredentialByCredentialID cid db = Some (rid, r)
       \<and> fc = \<lparr>fc_RowID = rid, fc_AccountID = wc_account_id r, fc_CredentialID = wc_credential_id r,
               fc_PublicKeyCOSE = wc_public_key r, fc_Counter = of_int (wc_counter r),
               fc_Revoked = wc_revoked r \<noteq> 0, fc_State = wc_state r\<rparr>)"
  by (auto simp: FindByCredentialID_def)

lemma login_check_accepted:
  assumes "login_check L d flt now cid credID raw st = (Inr (stored, c), st')" "counters_wf (wa_db st)"
  obtains rid r chal where "FindCredentialByCredentialID credID (wa_db st) = Some (rid, r)" "active_row r"
    "fc_RowID stored = rid" "fc_AccountID stored = wc_account_id r"
    "fst (ch_Consume now cid PurposeLogin (wa_challenges st)) = chal" "chal \<noteq> []"
    "proves_possession L d chal raw r c"
    "st' = st\<lparr>wa_challenges := snd (ch_Consume now cid PurposeLogin (wa_challenges st))\<rparr>"
proof -
  obtain chal c' where ch: "ch_Consume now cid PurposeLogin (wa_challenges st) = (chal, c')" by fastforce
  from assms(1) have ne: "chal \<noteq> []" by (auto simp: login_check_def ch Let_def split: if_splits)
  from assms(1) ne obtain rid r res where r: "FindCredentialByCredentialID credID (wa_db st) = Some (rid, r)"
    and act: "wc_revoked r = 0" "wc_state r = CredentialStateActive"
    and ver: "VerifyAssertion L \<lparr>ap_RawCredential = raw, ap_Challenge = chal, ap_RpID = wd_RpID d,
         ap_Origins = wd_TrustedOrigins d, ap_StoredCOSE = wc_public_key r, ap_StoredCounter = of_int (wc_counter r)\<rparr> = Inr res"
    and out: "fc_RowID stored = rid" "fc_AccountID stored = wc_account_id r" "c = as_NewCounter res"
      "st' = st\<lparr>wa_challenges := c'\<rparr>"
    by (auto simp: login_check_def ch Let_def FindByCredentialID_Some split: if_splits sum.splits option.splits)
  have "0 \<le> wc_counter r" "wc_counter r < 2 ^ 32"
    using find_in_creds [OF r] assms(2) by (auto simp: counters_wf_def)
  then have "proves_possession L d chal raw r c"
    using ver by (rule_tac VerifyAssertion_success [OF ver]) (auto simp: proves_possession_def counter_ok_row out(3))
  then show thesis using that r act out ne ch by (auto simp: active_row_def CredentialStateActive_def)
qed

lemma login_check_refused:
  assumes "login_check L d flt now cid credID raw st = (Inl res, st')" shows "lr_Error res \<noteq> []"
proof -
  have "VerifyAssertion L p = Inl e \<Longrightarrow> e \<noteq> []" for p e
    by (auto simp: VerifyAssertion_def split: sum.splits option.splits if_splits)
  then show ?thesis
    using assms by (auto simp: login_check_def login_error_def Let_def split: prod.splits if_splits sum.splits option.splits)
qed

lemma VerifyLogin_success:
  assumes run: "VerifyLogin L d f1 f2 now ts cid credID raw st = (res, st')" and ok: "lr_Error res = []"
    and dberr: "\<forall>e. wl_dberr L e \<noteq> []" and wf: "counters_wf (wa_db st)"
  obtains rid r chal c where "FindCredentialByCredentialID credID (wa_db st) = Some (rid, r)" "active_row r"
    "lr_AccountID res = wc_account_id r"
    "fst (ch_Consume now cid PurposeLogin (wa_challenges st)) = chal" "chal \<noteq> []"
    "proves_possession L d chal raw r c"
    "st' = st\<lparr>wa_challenges := snd (ch_Consume now cid PurposeLogin (wa_challenges st)),
             wa_db := UpdateCredentialCounter (uint c) (Some ts) rid (wa_db st)\<rparr>"
proof -
  from run ok obtain stored c mid where chk: "login_check L d f1 now cid credID raw st = (Inr (stored, c), mid)"
    by (auto simp: VerifyLogin_def dest: login_check_refused split: prod.splits sum.splits)
  from login_check_accepted [OF chk wf] obtain rid r chal where *:
    "FindCredentialByCredentialID credID (wa_db st) = Some (rid, r)" "active_row r"
    "fc_RowID stored = rid" "fc_AccountID stored = wc_account_id r"
    "fst (ch_Consume now cid PurposeLogin (wa_challenges st)) = chal" "chal \<noteq> []"
    "proves_possession L d chal raw r c"
    "mid = st\<lparr>wa_challenges := snd (ch_Consume now cid PurposeLogin (wa_challenges st))\<rparr>" .
  from run ok dberr have "lr_AccountID res = wc_account_id r
      \<and> st' = mid\<lparr>wa_db := UpdateCredentialCounter (uint c) (Some ts) rid (wa_db mid)\<rparr>"
    by (auto simp: VerifyLogin_def chk login_commit_def UpdateCounter_def login_error_def *(3,4) split: if_splits)
  with * that show thesis by simp
qed


definition ex_lib :: wa_lib where
  "ex_lib = \<lparr>wl_ParseCreation = \<lambda>raw. Inr \<lparr>cr_CredentialID = bytes_of raw, cr_PublicKey = [1], cr_AAGUID = [], cr_Counter = 0, cr_Transports = []\<rparr>,
     wl_VerifyCreation = \<lambda>_ _ _ _. None, wl_ParseAssertion = \<lambda>raw. Inr \<lparr>ar_RawID = [], ar_Counter = of_nat (length raw)\<rparr>,
     wl_VerifyAssertion = \<lambda>_ _ _ _ key. if key = [1] then None else Some ''bad signature'',
     wl_ParsePublicKey = \<lambda>_. None, wl_aaguidNames = [], wl_json_id = id, wl_dberr = \<lambda>_. ''db'', wl_sha256 = id, wl_iso = \<lambda>_. ''t''\<rparr>"

definition ex_deps :: wa_deps where
  "ex_deps = \<lparr>wd_RpID = ''localhost'', wd_TrustedOrigins = [], wd_SelfRegEnabled = False\<rparr>"

definition ex_row :: cred_row where
  "ex_row = \<lparr>wc_account_id = ''a'', wc_credential_id = ''cred'', wc_public_key = [1], wc_counter = 2, wc_transports = None,
     wc_label = ''Passkey'', wc_public_key_openssh = None, wc_revoked = 0, wc_created_at = ''t'', wc_last_used_at = None,
     wc_state = ''active''\<rparr>"

definition ex_account :: account_row where
  "ex_account = \<lparr>ac_name = ''n'', ac_enabled = 1, ac_max_sessions = 5, ac_last_used_at = None,
     ac_created_at = ''t'', ac_updated_at = ''t'', ac_show_demo = 1\<rparr>"

definition ex_wa :: wa_state where
  "ex_wa = \<lparr>wa_db = \<lparr>id_accounts = [(''a'', ex_account)], id_admin = Some ''a'', id_creds = [(''r1'', ex_row)]\<rparr>,
     wa_challenges = ch_Store 0 ''ch'' ''x'' PurposeLogin NewChallengeStore, wa_stepup = NewStepUpStore, wa_invites = []\<rparr>"

lemma ex_wa_challenge: "fst (ch_Consume 5 ''ch'' PurposeLogin (wa_challenges ex_wa)) = ''x''"
  by (simp add: ch_Consume_result ex_wa_def ch_Store_def eph_Put_def eph_PutTTL_live_same NewChallengeStore_def challengeTTL_def)

lemma ex_wa_find:
  "FindCredentialByCredentialID ''cred'' (wa_db ex_wa) = Some (''r1'', ex_row)"
  by (simp add: FindCredentialByCredentialID_def ex_wa_def ex_row_def)

lemma ex_lib_verify:
  "ap_StoredCOSE p = [1] \<Longrightarrow> ap_RawCredential p = ''raw'' \<Longrightarrow> ap_StoredCounter p = 2 \<Longrightarrow>
     VerifyAssertion ex_lib p = Inr \<lparr>as_CredentialID = RawURL_Encode [], as_NewCounter = 3\<rparr>"
  by (simp add: VerifyAssertion_def counter_ok_def ex_lib_def)

lemma ex_login: "lr_Error (fst (VerifyLogin ex_lib ex_deps False False 5 ''now'' ''ch'' ''cred'' ''raw'' ex_wa)) = []"
proof -
  obtain c where ch: "ch_Consume 5 ''ch'' PurposeLogin (wa_challenges ex_wa) = (''x'', c)"
    using ex_wa_challenge by (metis prod.collapse)
  show ?thesis
    by (simp add: VerifyLogin_def login_check_def ch Let_def FindByCredentialID_def ex_wa_find ex_lib_verify
        login_commit_def UpdateCounter_def CredentialStateActive_def,
        simp add: ex_row_def ex_lib_verify CredentialStateActive_def login_commit_def UpdateCounter_def)
qed


section \<open>What a request can do to the tables\<close>

text \<open>A live step-up token of the account for the action.\<close>

definition holds_token :: "string \<Rightarrow> time \<Rightarrow> principal option \<Rightarrow> string \<Rightarrow> wa_state \<Rightarrow> bool" where
  "holds_token action now pr hdr st \<longleftrightarrow>
     (\<exists>p en. pr = Some p \<and> hdr \<noteq> [] \<and> eph_live now (wa_stepup st) hdr = Some en
        \<and> se_accountID en = p_AccountID p \<and> se_action en = action)"

lemma with_stepup_cases:
  assumes "with_stepup action now pr hdr h st = (resp, st')"
  obtains (refused) s where "st' = st\<lparr>wa_stepup := s\<rparr>"
    | (passed) s where "holds_token action now pr hdr st" "h (st\<lparr>wa_stepup := s\<rparr>) = (resp, st')"
proof (cases "fst (RequireStepUp action now pr hdr (wa_stepup st))")
  case None
  then have "holds_token action now pr hdr st"
    by (cases pr) (auto simp: holds_token_def RequireStepUp_pass, simp add: RequireStepUp_def)
  with None assms passed show thesis by (auto simp: with_stepup_def split: prod.splits)
next
  case (Some r)
  with assms refused show thesis by (auto simp: with_stepup_def split: prod.splits)
qed

lemma offer_registration_db [simp]: "wa_db (snd (offer_registration d fr now n ex p st)) = wa_db st"
  by (simp add: offer_registration_def Let_def)

lemma login_options_db [simp]: "wa_db (snd (login_options d now ch cid creds st)) = wa_db st"
  by (simp add: login_options_def)

lemma consume_and_verify_db: "consume_and_verify L d now cid purpose cred st = (x, st') \<Longrightarrow> wa_db st' = wa_db st"
  by (auto simp: consume_and_verify_def Let_def split: prod.splits if_splits sum.splits)

text \<open>The row a verified assertion names, and the write that follows.\<close>

definition counter_write :: "string \<Rightarrow> id_db \<Rightarrow> id_db \<Rightarrow> bool" where
  "counter_write ts db db' \<longleftrightarrow>
     (\<exists>cid rid r c. FindCredentialByCredentialID cid db = Some (rid, r)
        \<and> counter_ok c (of_int (wc_counter r)) \<and> db' = UpdateCredentialCounter (uint c) (Some ts) rid db)"

lemma counter_writeI:
  "FindCredentialByCredentialID cid db = Some (rid, r) \<Longrightarrow> counter_ok c (of_int (wc_counter r)) \<Longrightarrow>
     counter_write ts db (UpdateCredentialCounter (uint c) (Some ts) rid db)"
  by (auto simp: counter_write_def)

lemma VerifyLogin_db:
  "wa_db (snd (VerifyLogin L d f1 f2 now ts cid credID raw st)) = wa_db st
     \<or> counter_write ts (wa_db st) (wa_db (snd (VerifyLogin L d f1 f2 now ts cid credID raw st)))"
proof -
  obtain x mid where chk: "login_check L d f1 now cid credID raw st = (x, mid)" by fastforce
  have same: "wa_db mid = wa_db st"
    using chk by (auto simp: login_check_def Let_def split: prod.splits if_splits sum.splits option.splits)
  show ?thesis
  proof (cases x)
    case (Inr sc)
    obtain stored c where sc: "sc = (stored, c)" by fastforce
    have "\<exists>rid r. FindCredentialByCredentialID credID (wa_db st) = Some (rid, r) \<and> fc_RowID stored = rid
        \<and> counter_ok c (of_int (wc_counter r))"
      using chk unfolding Inr sc
      by (auto simp: login_check_def Let_def FindByCredentialID_Some split: prod.splits if_splits sum.splits option.splits
          elim!: VerifyAssertion_success)
    then show ?thesis
      unfolding VerifyLogin_def chk Inr sc
      by (auto simp: login_commit_def UpdateCounter_def same counter_write_def)
  qed (simp add: VerifyLogin_def chk same)
qed

lemma VerifyConsent_db:
  "snd (VerifyConsent L d f1 f2 now ts cid credID raw acc st) = snd (VerifyLogin L d f1 f2 now ts cid credID raw st)"
  by (simp add: VerifyConsent_def split: prod.split)

lemma stepUpVerify_db:
  "wa_db (snd (stepUpVerify L d fr f1 f2 t1 t2 t3 ts acc body st)) = wa_db st
     \<or> counter_write ts (wa_db st) (wa_db (snd (stepUpVerify L d fr f1 f2 t1 t2 t3 ts acc body st)))"
  by (auto simp: stepUpVerify_def Let_def FindByCredentialID_Some UpdateCounter_def
      split: option.split prod.split sum.split elim!: VerifyAssertion_success intro: counter_writeI)

text \<open>Every change a request makes to the tables, with what justifies it.\<close>

inductive db_change ::
  "wa_deps \<Rightarrow> principal option \<Rightarrow> wa_env \<Rightarrow> wa_request \<Rightarrow> wa_state \<Rightarrow> id_db \<Rightarrow> bool"
for d pr e rq st where
  unchanged: "db_change d pr e rq st (wa_db st)"
| self_registered: "rq = RqSelfRegister body \<Longrightarrow> sp_SelfRegEnabled p = wd_SelfRegEnabled d \<Longrightarrow>
    db_change d pr e rq st (snd (SelfRegister (we_txf e) (we_iso e) p (wa_db st)))"
| registered: "rq = RqRegister hdr body \<Longrightarrow> holds_token ''register_passkey'' (we_t2 e) pr hdr st \<Longrightarrow>
    db_change d pr e rq st (snd (insertTx f g (we_iso e) (acc_of pr) dec CredentialStateActive rid (wa_db st)))"
| confirmed: "rq = RqConfirm hdr rid \<Longrightarrow> holds_token ''confirm_passkey'' (we_t2 e) pr hdr st \<Longrightarrow>
    FindCredentialByIDAndAccount rid (acc_of pr) (wa_db st) = Some r \<Longrightarrow> wc_revoked r = 0 \<Longrightarrow>
    db_change d pr e rq st (SetCredentialState CredentialStateActive rid (wa_db st))"
| invited: "rq = RqInviteRegister token cid cred \<Longrightarrow>
    db_change d pr e rq st (snd (insertTx f g (we_iso e) acc dec CredentialStatePendingConfirmation rid (wa_db st)))"
| asserted: "counter_write (we_iso e) (wa_db st) db \<Longrightarrow> db_change d pr e rq st db"

lemma unchangedI: "wa_db st' = wa_db st \<Longrightarrow> db_change d pr e rq st (wa_db st')"
  using db_change.unchanged [of d pr e rq st] by simp

lemma selfRegister_change:
  assumes "rq = RqSelfRegister body"
  shows "db_change d pr e rq st (wa_db (snd (selfRegister L d fr flt (we_txf e) now (we_iso e) body st)))"
proof -
  have "db_change d pr e rq st db" if "SelfRegister (we_txf e) (we_iso e) p (wa_db st) = (x, db)"
    "sp_SelfRegEnabled p = wd_SelfRegEnabled d" for p x db
    using db_change.self_registered [OF assms that(2)] that(1) by (metis snd_conv)
  then show ?thesis
    by (auto simp: selfRegister_def intro: unchangedI split: option.split prod.split sum.split dest!: consume_and_verify_db)
qed

lemma inAccountRegister_change:
  assumes "rq = RqRegister hdr body" "holds_token ''register_passkey'' (we_t2 e) pr hdr st" "wa_db mid = wa_db st"
  shows "db_change d pr e rq st (wa_db (snd (inAccountRegister L d fr f g now (we_iso e) (acc_of pr) body mid)))"
proof -
  have "db_change d pr e rq st db"
    if "insertTx f g (we_iso e) (acc_of pr) dec CredentialStateActive rid (wa_db st) = (x, db)" for dec rid x db
    using db_change.registered [OF assms(1,2)] that by (metis snd_conv)
  then show ?thesis
    by (auto simp: inAccountRegister_def cs_Insert_def assms(3) intro: unchangedI split: option.split prod.split sum.split
        dest!: consume_and_verify_db)
qed

lemma inviteRegister_change:
  assumes "rq = RqInviteRegister token cid cred"
  shows "db_change d pr e rq st (wa_db (snd (inviteRegister L d fr f g t1 t2 (we_iso e) env token cid cred st)))"
proof -
  have "db_change d pr e rq st db"
    if "insertTx f g (we_iso e) acc dec CredentialStatePendingConfirmation rid (wa_db st) = (x, db)" for acc dec rid x db
    using db_change.invited [OF assms] that by (metis snd_conv)
  then show ?thesis
    by (auto simp: inviteRegister_def cs_Insert_def Let_def intro: unchangedI split: option.split prod.split sum.split bool.split
        dest!: consume_and_verify_db)
qed

lemma confirmCredential_change:
  assumes "rq = RqConfirm hdr rid" "holds_token ''confirm_passkey'' (we_t2 e) pr hdr st" "wa_db mid = wa_db st"
  shows "db_change d pr e rq st (wa_db (snd (confirmCredential f g (acc_of pr) rid mid)))"
  using db_change.confirmed [OF assms(1,2)] db_change.unchanged
  by (auto simp: confirmCredential_def cs_FindForAccount_def SetState_def assms(3) intro: unchangedI split: option.split sum.split)

lemma with_stepup_change:
  assumes "\<And>mid. holds_token action now pr hdr st \<Longrightarrow> wa_db mid = wa_db st \<Longrightarrow> db_change d pr e rq st (wa_db (snd (h mid)))"
  shows "db_change d pr e rq st (wa_db (snd (with_stepup action now pr hdr h st)))"
proof -
  obtain resp st' where run: "with_stepup action now pr hdr h st = (resp, st')" by fastforce
  then show ?thesis
  proof (cases rule: with_stepup_cases)
    case (passed s)
    then show ?thesis using assms [of "st\<lparr>wa_stepup := s\<rparr>"] by (simp add: run)
  qed (auto simp: run intro: unchangedI)
qed

lemma wa_next_db: "db_change d pr e rq st (wa_db (wa_next L d pr e rq st))"
proof (cases rq)
  case (RqStepUpVerify body)
  then show ?thesis using stepUpVerify_db unchangedI db_change.asserted by (metis wa_next.simps(7))
next
  case (RqLogin cid credID raw)
  then show ?thesis using VerifyLogin_db unchangedI db_change.asserted by (metis wa_next.simps(16))
next
  case (RqConsent cid credID raw acc)
  then show ?thesis using VerifyLogin_db unchangedI db_change.asserted by (metis VerifyConsent_db wa_next.simps(17))
qed (auto intro!: with_stepup_change selfRegister_change inAccountRegister_change inviteRegister_change confirmCredential_change,
     auto intro!: unchangedI simp: selfRegisterOptions_def inAccountRegisterOptions_def stepUpOptions_def mintInvite_def readInvite_def
       inviteByToken_def inviteRegisterOptions_def LoginOptions_def ConsentOptions_def Let_def split: sum.split option.split prod.split)

section \<open>How a passkey becomes active\<close>

lemma insertTx_row:
  assumes "map_of (id_creds (snd (insertTx f g ts a dec state new db))) rid = Some r"
  shows "map_of (id_creds db) rid = Some r \<or> wc_state r = state \<and> wc_account_id r = a \<and> map_of (id_creds db) rid = None"
proof -
  obtain x db' where run: "insertTx f g ts a dec state new db = (x, db')" by fastforce
  show ?thesis
  proof (cases x)
    case (Inl err)
    then have "db' = db"
      using run by (auto simp: insertTx_def InsertCredential_def split: if_splits option.splits prod.splits)
    with assms run show ?thesis by simp
  next
    case (Inr ins)
    with insertTx_success [of f g ts a dec state new db ins db'] run assms show ?thesis
      by (auto simp: map_add_Some_iff split: if_splits)
  qed
qed

lemma update_cred_row:
  "map_of (id_creds (update_cred k c f db)) rid = Some r \<longleftrightarrow>
     (\<exists>r0. map_of (id_creds db) rid = Some r0 \<and> r = (if rid = k \<and> c r0 then f r0 else r0))"
  by (auto simp: update_cred_def gomap_simps split: option.split)

lemma SelfRegister_row:
  assumes "id_wf db" "map_of (id_creds (snd (SelfRegister flt ts p db))) rid = Some r"
  shows "map_of (id_creds db) rid = Some r \<or> map_of (id_creds db) rid = None \<and> (sp_SelfRegEnabled p \<or> \<not> HasPasskeys db)"
proof -
  obtain res db' where run: "SelfRegister flt ts p db = (res, db')" by fastforce
  then show ?thesis
  proof (cases rule: SelfRegister_cases)
    case (registered acc ins mid)
    have "id_creds mid = id_creds db"
      using registered(2) by (cases rule: self_register_account_cases) (simp_all add: add_account_def)
    with registered run assms(2)
      insertTx_row [of "tf_labels flt" "tf_insert flt" ts acc "sp_Credential p" CredentialStateActive "sp_NewCredID p" mid rid r]
    show ?thesis by auto
  qed (use run assms(2) in auto)
qed


definition ex_env :: wa_env where
  "ex_env = \<lparr>we_fr = \<lparr>fr_challenge = ''x'', fr_userID = ''u'', fr_uuid = ''i'', fr_uuid2 = ''j'', fr_token = ''tk''\<rparr>,
     we_flt1 = False, we_flt2 = False, we_txf = no_faults, we_t1 = 5, we_t2 = 5, we_t3 = 5, we_iso = ''t'', we_invites = id\<rparr>"

definition ex_pending :: wa_state where
  "ex_pending = \<lparr>wa_db = \<lparr>id_accounts = [(''acc1'', \<lparr>ac_name = ''n'', ac_enabled = 1, ac_max_sessions = 5, ac_last_used_at = None,
       ac_created_at = ''t'', ac_updated_at = ''t'', ac_show_demo = 1\<rparr>)], id_admin = Some ''acc1'',
       id_creds = [(''r1'', ex_row\<lparr>wc_account_id := ''acc1'', wc_state := CredentialStatePendingConfirmation\<rparr>)]\<rparr>,
     wa_challenges = NewChallengeStore,
     wa_stepup = snd (su_Mint 0 0 ''tk'' ''acc1'' ''confirm_passkey'' NewStepUpStore), wa_invites = []\<rparr>"

lemma ex_pending_confirm:
  "wa_db (wa_next ex_lib ex_deps (Some ex_principal) ex_env (RqConfirm ''tk'' ''r1'') ex_pending) =
     (wa_db ex_pending)\<lparr>id_creds := [(''r1'', ex_row\<lparr>wc_account_id := ''acc1''\<rparr>)]\<rparr>"
proof -
  have "fst (RequireStepUp ''confirm_passkey'' 5 (Some ex_principal) ''tk'' (wa_stepup ex_pending)) = None"
    by (simp add: RequireStepUp_pass ex_pending_def su_store_forms eph_Put_def eph_PutTTL_live_same NewStepUpStore_def
        stepUpTTL_def ex_principal_def)
  then obtain s where s: "RequireStepUp ''confirm_passkey'' 5 (Some ex_principal) ''tk'' (wa_stepup ex_pending) = (None, s)"
    by (metis prod.collapse)
  show ?thesis
    unfolding wa_next.simps with_stepup_def
    by (simp add: ex_env_def s, simp add: acc_of_def ex_principal_def ex_pending_def confirmCredential_def cs_FindForAccount_def
        FindCredentialByIDAndAccount_def SetState_def SetCredentialState_def update_cred_def ex_row_def
        CredentialStateActive_def CredentialStatePendingConfirmation_def)
qed


section \<open>What a step-up token stands for\<close>

lemma stepUpVerify_cases:
  assumes "stepUpVerify L d fr f1 f2 t1 t2 t3 ts acc body st = (resp, st')" "counters_wf (wa_db st)"
  obtains (refused) "wa_stepup st' = wa_stepup st"
    | (minted) b purpose chal rid r c where "body = Some b" "map_of ActionToPurpose (sb_Action b) = Some purpose"
        "fst (ch_Consume t1 (sb_ChallengeID b) purpose (wa_challenges st)) = chal" "chal \<noteq> []"
        "FindCredentialByCredentialID (wl_json_id L (sb_Credential b)) (wa_db st) = Some (rid, r)"
        "active_row r" "wc_account_id r = acc" "proves_possession L d chal (sb_Credential b) r c"
        "wa_stepup st' = snd (su_Mint t2 t3 (fr_token fr) acc (sb_Action b) (wa_stepup st))"
proof (cases "wa_stepup st' = wa_stepup st")
  case False
  from assms(1) False obtain b where b: "body = Some b" by (auto simp: stepUpVerify_def split: option.splits)
  from assms(1) False b obtain purpose where pu: "map_of ActionToPurpose (sb_Action b) = Some purpose"
    by (auto simp: stepUpVerify_def split: option.splits)
  obtain chal c' where ch: "ch_Consume t1 (sb_ChallengeID b) purpose (wa_challenges st) = (chal, c')" by fastforce
  from assms(1) False have ne: "chal \<noteq> []" by (auto simp: stepUpVerify_def b pu ch Let_def split: if_splits)
  from assms(1) False ne obtain rid r res where r: "FindCredentialByCredentialID (wl_json_id L (sb_Credential b)) (wa_db st) = Some (rid, r)"
    and act: "wc_revoked r = 0" "wc_state r = CredentialStateActive" "wc_account_id r = acc"
    and ver: "VerifyAssertion L \<lparr>ap_RawCredential = sb_Credential b, ap_Challenge = chal, ap_RpID = wd_RpID d,
         ap_Origins = wd_TrustedOrigins d, ap_StoredCOSE = wc_public_key r, ap_StoredCounter = of_int (wc_counter r)\<rparr> = Inr res"
    and out: "wa_stepup st' = snd (su_Mint t2 t3 (fr_token fr) acc (sb_Action b) (wa_stepup st))"
    by (auto simp: stepUpVerify_def b pu ch Let_def FindByCredentialID_Some UpdateCounter_def
        split: if_splits sum.splits option.splits prod.splits)
  have "0 \<le> wc_counter r" "wc_counter r < 2 ^ 32"
    using find_in_creds [OF r] assms(2) by (auto simp: counters_wf_def)
  then have "proves_possession L d chal (sb_Credential b) r (as_NewCounter res)"
    by (rule_tac VerifyAssertion_success [OF ver]) (auto simp: proves_possession_def counter_ok_row)
  then show thesis using minted b pu ch ne r act out by (simp add: active_row_def CredentialStateActive_def)
qed (rule refused)

lemma RequireStepUp_live:
  assumes "eph_inv s" "eph_live t (snd (RequireStepUp action now pr hdr s)) tok = Some en" shows "eph_live t s tok = Some en"
  using assms by (cases pr; cases "hdr = []")
    (auto simp: RequireStepUp_def su_Consume_def eph.consume_live case_prod_beta split: prod.splits option.splits if_splits)

lemma consume_and_verify_stepup: "consume_and_verify L d now cid purpose cred st = (x, st') \<Longrightarrow> wa_stepup st' = wa_stepup st"
  by (auto simp: consume_and_verify_def Let_def split: prod.splits if_splits sum.splits)

lemma ceremony_stepup:
  "wa_stepup (snd (offer_registration d fr now n ex p st)) = wa_stepup st"
  "wa_stepup (snd (selfRegister L d fr flt txf now ts sbody st)) = wa_stepup st"
  "wa_stepup (snd (inAccountRegister L d fr f g now ts acc sbody st)) = wa_stepup st"
  "wa_stepup (snd (confirmCredential f g acc rid st)) = wa_stepup st"
  "wa_stepup (snd (inviteRegister L d fr f g t1 t2 ts env token cid cred st)) = wa_stepup st"
  "wa_stepup (snd (VerifyLogin L d f g now ts cid credID raw st)) = wa_stepup st"
  by (auto simp: offer_registration_def selfRegister_def inAccountRegister_def confirmCredential_def inviteRegister_def
      VerifyLogin_def login_check_def login_commit_def UpdateCounter_def Let_def
      split: option.split prod.split sum.split bool.split dest!: consume_and_verify_stepup)

lemma with_stepup_live:
  assumes "eph_inv (wa_stepup st)" "\<And>mid. wa_stepup (snd (h mid)) = wa_stepup mid"
    and "eph_live t (wa_stepup (snd (with_stepup action now pr hdr h st))) tok = Some en"
  shows "eph_live t (wa_stepup st) tok = Some en"
proof (rule RequireStepUp_live [OF assms(1)])
  have "wa_stepup (snd (with_stepup action now pr hdr h st)) = snd (RequireStepUp action now pr hdr (wa_stepup st))"
    by (simp add: with_stepup_def assms(2) split: prod.split option.split)
  with assms(3) show "eph_live t (snd (RequireStepUp action now pr hdr (wa_stepup st))) tok = Some en" by simp
qed

lemma wa_next_stepup:
  assumes "eph_inv (wa_stepup st)" "eph_live t (wa_stepup (wa_next L d pr e rq st)) tok = Some en"
    "eph_live t (wa_stepup st) tok \<noteq> Some en"
  shows "\<exists>body. rq = RqStepUpVerify body"
proof (cases rq)
  case (RqRegister hdr body)
  with assms with_stepup_live [OF assms(1) ceremony_stepup(3)] show ?thesis by fastforce
next
  case (RqConfirm hdr rid)
  with assms with_stepup_live [OF assms(1) ceremony_stepup(4)] show ?thesis by fastforce
qed (use assms(2,3) in \<open>auto simp: selfRegisterOptions_def inAccountRegisterOptions_def stepUpOptions_def mintInvite_def readInvite_def
       inviteByToken_def inviteRegisterOptions_def LoginOptions_def ConsentOptions_def login_options_def VerifyConsent_db ceremony_stepup Let_def
       split: sum.splits option.splits prod.splits if_splits\<close>)

text \<open>
  A step-up token is earned: a request leaves a token in the store that was not there before
  only by verifying an assertion of the caller, over a live challenge issued for the very action the
  token names, with a passkey of the caller's own account that is active, and the token is bound to
  that account and action.
\<close>

theorem stepup_token_earned:
  assumes inv: "eph_inv (wa_stepup st)" and wf: "counters_wf (wa_db st)"
    and new: "eph_live t (wa_stepup (wa_next L d pr e rq st)) tok = Some en" "eph_live t (wa_stepup st) tok \<noteq> Some en"
  shows "\<exists>b purpose chal rid r c. rq = RqStepUpVerify (Some b) \<and> tok = fr_token (we_fr e)
    \<and> se_accountID en = acc_of pr \<and> se_action en = sb_Action b
    \<and> map_of ActionToPurpose (sb_Action b) = Some purpose
    \<and> eph_live (we_t1 e) (wa_challenges st) (sb_ChallengeID b) = Some \<lparr>ce_challenge = chal, ce_purpose = purpose\<rparr> \<and> chal \<noteq> []
    \<and> FindCredentialByCredentialID (wl_json_id L (sb_Credential b)) (wa_db st) = Some (rid, r)
    \<and> active_row r \<and> wc_account_id r = acc_of pr \<and> proves_possession L d chal (sb_Credential b) r c"
proof -
  from wa_next_stepup [OF inv new] obtain body where rq: "rq = RqStepUpVerify body" by blast
  obtain resp st' where run: "stepUpVerify L d (we_fr e) (we_flt1 e) (we_flt2 e) (we_t1 e) (we_t2 e) (we_t3 e) (we_iso e)
      (acc_of pr) body st = (resp, st')" by fastforce
  then have st': "wa_next L d pr e rq st = st'" by (simp add: rq)
  from run wf show ?thesis
  proof (cases rule: stepUpVerify_cases)
    case (minted b purpose chal rid r c)
    have "tok = fr_token (we_fr e)"
      using new unfolding st' minted(9) su_store_forms by (metis eph.put_live_other inv)
    moreover have "en = \<lparr>se_accountID = acc_of pr, se_action = sb_Action b, se_expiresAt = we_t2 e + stepUpTTL\<rparr>"
      using new(1) unfolding st' minted(9) su_store_forms by (metis calculation tok.bound_inserted inv)
    moreover have "eph_live (we_t1 e) (wa_challenges st) (sb_ChallengeID b) = Some \<lparr>ce_challenge = chal, ce_purpose = purpose\<rparr>"
      using minted(3,4) by (auto simp: ch_Consume_result split: option.splits if_splits)
    ultimately show ?thesis using rq minted by auto
  qed (use new st' in simp)
qed

definition ex_stepping :: wa_state where
  "ex_stepping = ex_wa\<lparr>wa_db := (wa_db ex_wa)\<lparr>id_creds := [(''r1'', ex_row\<lparr>wc_account_id := ''acc1''\<rparr>)]\<rparr>,
     wa_challenges := ch_Store 0 ''ch'' ''x'' ''stepup:pin_host_key'' NewChallengeStore\<rparr>"

lemma ex_stepping_verify:
  "wa_stepup (wa_next ex_lib ex_deps (Some ex_principal) ex_env
      (RqStepUpVerify (Some \<lparr>sb_ChallengeID = ''ch'', sb_Credential = ''cred'', sb_Action = ''pin_host_key''\<rparr>)) ex_stepping)
   = snd (su_Mint 5 5 ''tk'' ''acc1'' ''pin_host_key'' NewStepUpStore)"
proof -
  have "fst (ch_Consume 5 ''ch'' ''stepup:pin_host_key'' (wa_challenges ex_stepping)) = ''x''"
    by (simp add: ch_Consume_result ex_stepping_def ch_Store_def eph_Put_def eph_PutTTL_live_same NewChallengeStore_def challengeTTL_def)
  then obtain c where ch: "ch_Consume 5 ''ch'' ''stepup:pin_host_key'' (wa_challenges ex_stepping) = (''x'', c)" by (metis prod.collapse)
  have find: "FindCredentialByCredentialID ''cred'' (wa_db ex_stepping) = Some (''r1'', ex_row\<lparr>wc_account_id := ''acc1''\<rparr>)"
    by (simp add: FindCredentialByCredentialID_def ex_stepping_def ex_row_def)
  have act: "map_of ActionToPurpose ''pin_host_key'' = Some ''stepup:pin_host_key''" by (simp add: ActionToPurpose_def)
  have acc: "acc_of (Some ex_principal) = ''acc1''" by (simp add: acc_of_def ex_principal_def)
  have jid: "wl_json_id ex_lib ''cred'' = ''cred''" by (simp add: ex_lib_def)
  have ver: "VerifyAssertion ex_lib p = Inr \<lparr>as_CredentialID = RawURL_Encode [], as_NewCounter = 4\<rparr>"
    if "ap_StoredCOSE p = [1]" "ap_RawCredential p = ''cred''" "ap_StoredCounter p = 2" for p
    using that by (simp add: VerifyAssertion_def counter_ok_def ex_lib_def)
  show ?thesis
    by (simp add: stepUpVerify_def ex_env_def act ch Let_def FindByCredentialID_def jid find acc,
        simp add: ex_row_def CredentialStateActive_def ver UpdateCounter_def,
        simp add: ex_stepping_def ex_wa_def split: prod.split)
qed

theorem stepup_token_earned_witness:
  "\<exists>en. eph_live 6 (wa_stepup (wa_next ex_lib ex_deps (Some ex_principal) ex_env
      (RqStepUpVerify (Some \<lparr>sb_ChallengeID = ''ch'', sb_Credential = ''cred'', sb_Action = ''pin_host_key''\<rparr>)) ex_stepping)) ''tk'' = Some en
    \<and> se_accountID en = ''acc1'' \<and> (\<exists>rid r. (rid, r) \<in> set (id_creds (wa_db ex_stepping)) \<and> active_row r \<and> wc_account_id r = ''acc1'')"
proof -
  let ?next = "wa_next ex_lib ex_deps (Some ex_principal) ex_env
      (RqStepUpVerify (Some \<lparr>sb_ChallengeID = ''ch'', sb_Credential = ''cred'', sb_Action = ''pin_host_key''\<rparr>)) ex_stepping"
  have new: "eph_live 6 (wa_stepup ?next) ''tk'' = Some \<lparr>se_accountID = ''acc1'', se_action = ''pin_host_key'', se_expiresAt = 5 + stepUpTTL\<rparr>"
    unfolding ex_stepping_verify by (simp add: su_store_forms eph_Put_def eph_PutTTL_live_same NewStepUpStore_def stepUpTTL_def)
  have old: "eph_live 6 (wa_stepup ex_stepping) ''tk'' \<noteq> Some \<lparr>se_accountID = ''acc1'', se_action = ''pin_host_key'', se_expiresAt = 5 + stepUpTTL\<rparr>"
    by (simp add: ex_stepping_def ex_wa_def NewStepUpStore_def eph_live_def eph_New_def)
  have "eph_inv (wa_stepup ex_stepping)" "counters_wf (wa_db ex_stepping)"
    by (simp_all add: ex_stepping_def ex_wa_def NewStepUpStore_def eph_inv_New counters_wf_def ex_row_def)
  from stepup_token_earned [OF this new old] new show ?thesis by (auto simp: acc_of_def ex_principal_def dest: find_in_creds)
qed

section \<open>Assertions are not replayed\<close>

text \<open>The row of a later state continues that of an earlier one.\<close>

definition continues :: "id_db \<Rightarrow> id_db \<Rightarrow> bool" where
  "continues db db' \<longleftrightarrow> (\<forall>rid r. map_of (id_creds db) rid = Some r \<longrightarrow>
     (\<exists>r'. map_of (id_creds db') rid = Some r' \<and> wc_counter r \<le> wc_counter r' \<and> wc_credential_id r' = wc_credential_id r))"

lemma continues_refl [simp]: "continues db db"
  by (auto simp: continues_def)

lemma continues_trans: "continues a b \<Longrightarrow> continues b c \<Longrightarrow> continues a c"
  unfolding continues_def by (metis order_trans)

lemma uint32_lt: "uint (c :: 32 word) < 2 ^ 32"
  using unsigned_less [of c] by simp

lemma insertTx_extends:
  "\<exists>xs. id_creds (snd (insertTx f g ts a dec state new db)) = id_creds db @ xs
     \<and> (\<forall>(k, r) \<in> set xs. 0 \<le> wc_counter r \<and> wc_counter r < 2 ^ 32)"
  using uint32_lt [of "dc_Counter dec"]
  by (auto simp: insertTx_def InsertCredential_def gm_update_fresh split: option.split prod.split)

lemma SelfRegister_extends:
  "\<exists>xs. id_creds (snd (SelfRegister flt ts p db)) = id_creds db @ xs
     \<and> (\<forall>(k, r) \<in> set xs. 0 \<le> wc_counter r \<and> wc_counter r < 2 ^ 32)"
proof -
  obtain res db' where run: "SelfRegister flt ts p db = (res, db')" by fastforce
  then show ?thesis
  proof (cases rule: SelfRegister_cases)
    case (registered acc ins mid)
    have "id_creds mid = id_creds db"
      using registered(2) by (cases rule: self_register_account_cases) (simp_all add: add_account_def)
    with registered(3) insertTx_extends [of "tf_labels flt" "tf_insert flt" ts acc "sp_Credential p" CredentialStateActive "sp_NewCredID p" mid]
    show ?thesis by (simp add: run)
  qed (simp_all add: run)
qed

lemma extends_continues: "id_creds db' = id_creds db @ xs \<Longrightarrow> continues db db'"
  by (auto simp: continues_def map_add_Some_iff)

lemma extends_counters:
  "id_creds db' = id_creds db @ xs \<Longrightarrow> \<forall>(k, r) \<in> set xs. 0 \<le> wc_counter r \<and> wc_counter r < 2 ^ 32 \<Longrightarrow>
     counters_wf db \<Longrightarrow> counters_wf db'"
  by (auto simp: counters_wf_def)

lemma update_cred_counters:
  assumes "counters_wf db" "\<And>r. 0 \<le> wc_counter r \<Longrightarrow> wc_counter r < 2 ^ 32 \<Longrightarrow> 0 \<le> wc_counter (f r) \<and> wc_counter (f r) < 2 ^ 32"
  shows "counters_wf (update_cred rid c f db)"
proof (cases "map_of (id_creds db) rid")
  case (Some r)
  then have "0 \<le> wc_counter r \<and> wc_counter r < 2 ^ 32" using assms(1) map_of_SomeD by (fastforce simp: counters_wf_def)
  with assms Some gm_set_update [of rid "f r" "id_creds db"] show ?thesis
    by (fastforce simp: counters_wf_def update_cred_def)
qed (simp add: update_cred_def assms(1))

lemma find_row:
  assumes "id_wf db"
  shows "FindCredentialByCredentialID cid db = Some (rid, r) \<longleftrightarrow> map_of (id_creds db) rid = Some r \<and> wc_credential_id r = cid"
proof
  assume *: "FindCredentialByCredentialID cid db = Some (rid, r)"
  then have "wc_credential_id r = cid" by (auto simp: FindCredentialByCredentialID_def find_Some_iff)
  with find_in_creds [OF *] assms show "map_of (id_creds db) rid = Some r \<and> wc_credential_id r = cid"
    by (auto simp: id_wf_def intro: map_of_is_SomeI)
next
  assume *: "map_of (id_creds db) rid = Some r \<and> wc_credential_id r = cid"
  then have mem: "(rid, r) \<in> set (id_creds db)" by (simp add: map_of_SomeD)
  then obtain k r2 where f: "FindCredentialByCredentialID cid db = Some (k, r2)"
    using * find_credential_None [of cid db] by (cases "FindCredentialByCredentialID cid db") force+
  moreover have "(k, r2) = (rid, r)"
  proof (rule inj_onD [of "wc_credential_id \<circ> snd" "set (id_creds db)"])
    show "inj_on (wc_credential_id \<circ> snd) (set (id_creds db))" using assms by (simp add: id_wf_def distinct_map)
    show "(wc_credential_id \<circ> snd) (k, r2) = (wc_credential_id \<circ> snd) (rid, r)"
      using f * by (auto simp: FindCredentialByCredentialID_def find_Some_iff)
  qed (use find_in_creds [OF f] mem in auto)
  ultimately show "FindCredentialByCredentialID cid db = Some (rid, r)" by simp
qed

lemma counter_write_step:
  assumes "counter_write ts db db'" "id_wf db" "counters_wf db"
  shows "id_wf db' \<and> counters_wf db' \<and> continues db db'"
proof -
  from assms(1) obtain cid rid r c where *: "FindCredentialByCredentialID cid db = Some (rid, r)"
    "counter_ok c (of_int (wc_counter r))" "db' = UpdateCredentialCounter (uint c) (Some ts) rid db"
    by (auto simp: counter_write_def)
  have row: "map_of (id_creds db) rid = Some r" using *(1) find_row [OF assms(2)] by simp
  have "0 \<le> wc_counter r" "wc_counter r < 2 ^ 32"
    using assms(3) map_of_SomeD [OF row] by (auto simp: counters_wf_def)
  with *(2) have le: "wc_counter r \<le> uint c" by (auto simp: counter_ok_row)
  have "continues db db'"
    unfolding continues_def *(3) UpdateCredentialCounter_def
    by (auto simp: update_cred_def row gomap_simps le)
  moreover have "id_wf db'" unfolding *(3) UpdateCredentialCounter_def by (rule id_wf_update_cred [OF assms(2)]) simp_all
  moreover have "counters_wf db'"
    unfolding *(3) UpdateCredentialCounter_def by (rule update_cred_counters [OF assms(3)]) (use uint32_lt [of c] in simp)
  ultimately show ?thesis by blast
qed

lemma creds_extend_step:
  assumes "id_wf db'" "counters_wf db"
    and "\<exists>xs. id_creds db' = id_creds db @ xs \<and> (\<forall>(k, r) \<in> set xs. 0 \<le> wc_counter r \<and> wc_counter r < 2 ^ 32)"
  shows "id_wf db' \<and> counters_wf db' \<and> continues db db'"
  using assms extends_continues extends_counters by blast

lemma wa_next_continues:
  assumes "id_wf (wa_db st)" "counters_wf (wa_db st)"
  shows "id_wf (wa_db (wa_next L d pr e rq st)) \<and> counters_wf (wa_db (wa_next L d pr e rq st))
    \<and> continues (wa_db st) (wa_db (wa_next L d pr e rq st))"
  using wa_next_db [of d pr e rq st L]
proof (cases rule: db_change.cases)
  case (self_registered body p)
  show ?thesis
    unfolding self_registered(1) by (rule creds_extend_step [OF id_wf_SelfRegister [OF assms(1)] assms(2) SelfRegister_extends])
next
  case (registered hdr body f g dec k)
  show ?thesis
    unfolding registered(1) by (rule creds_extend_step [OF id_wf_insertTx [OF assms(1)] assms(2) insertTx_extends])
next
  case (invited token cid cred f g acc dec k)
  show ?thesis
    unfolding invited(1) by (rule creds_extend_step [OF id_wf_insertTx [OF assms(1)] assms(2) insertTx_extends])
next
  case (confirmed hdr k r)
  have "counters_wf (SetCredentialState CredentialStateActive k (wa_db st))"
    unfolding SetCredentialState_def by (rule update_cred_counters [OF assms(2)]) simp
  moreover have "continues (wa_db st) (SetCredentialState CredentialStateActive k (wa_db st))"
    by (auto simp: continues_def SetCredentialState_def update_cred_def gomap_simps split: option.split)
  ultimately show ?thesis unfolding confirmed(1) SetCredentialState_def using id_wf_update_cred [OF assms(1)] by simp
next
  case asserted
  then show ?thesis by (rule counter_write_step [OF _ assms])
qed (use assms in simp)

type_synonym wa_history = "(principal option \<times> wa_env \<times> wa_request) list"

definition wa_run :: "wa_lib \<Rightarrow> wa_deps \<Rightarrow> wa_history \<Rightarrow> wa_state \<Rightarrow> wa_state" where
  "wa_run L d h st = fold (\<lambda>(pr, e, rq). wa_next L d pr e rq) h st"

lemma wa_run_continues:
  "id_wf (wa_db st) \<Longrightarrow> counters_wf (wa_db st) \<Longrightarrow>
     id_wf (wa_db (wa_run L d h st)) \<and> counters_wf (wa_db (wa_run L d h st)) \<and> continues (wa_db st) (wa_db (wa_run L d h st))"
proof (induction h arbitrary: st)
  case (Cons x h)
  obtain pr e rq where x: "x = (pr, e, rq)" by (cases x) auto
  note step = wa_next_continues [OF Cons.prems, of L d pr e rq]
  with Cons.IH [of "wa_next L d pr e rq st"] show ?case by (auto simp: wa_run_def x intro: continues_trans)
qed (simp add: wa_run_def)



text \<open>
  The counter check and the counter write are separate statements: two logins that are verified
  before either writes both pass with the same counter value.
\<close>

definition ex_race :: wa_state where
  "ex_race = ex_wa\<lparr>wa_challenges := ch_Store 0 ''ch2'' ''y'' PurposeLogin (wa_challenges ex_wa)\<rparr>"

theorem concurrent_logins_share_counter:
  "\<exists>s1 c st1 s2 st2. login_check ex_lib ex_deps False 5 ''ch'' ''cred'' ''raw'' ex_race = (Inr (s1, c), st1)
     \<and> login_check ex_lib ex_deps False 5 ''ch2'' ''cred'' ''raw'' st1 = (Inr (s2, c), st2) \<and> 0 < c
     \<and> lr_Error (fst (login_commit ex_lib False ''t'' s1 c st2)) = []
     \<and> lr_Error (fst (login_commit ex_lib False ''t'' s2 c (snd (login_commit ex_lib False ''t'' s1 c st2)))) = []"
proof -
  have inv: "eph_inv (wa_challenges ex_wa)" "eph_inv (wa_challenges ex_race)"
    by (simp_all add: ex_race_def ex_wa_def ch_Store_def NewChallengeStore_def eph_inv_New eph.invars)
  have "fst (ch_Consume 5 ''ch'' PurposeLogin (wa_challenges ex_race)) = ''x''"
    by (simp add: ch_Consume_result ex_race_def ex_wa_def ch_Store_def eph_Put_def eph_PutTTL_def eph_make_room_def NewChallengeStore_def
        eph_New_def eph_live_def challengeTTL_def challengeCap_def)
  then obtain c1 where ch1: "ch_Consume 5 ''ch'' PurposeLogin (wa_challenges ex_race) = (''x'', c1)" by (metis prod.collapse)
  have "c1 = snd (eph_Consume 5 ''ch'' (wa_challenges ex_race))" using ch_Consume_result(2) [of 5 "''ch''" PurposeLogin "wa_challenges ex_race"] unfolding ch1 by simp
  then have "eph_live 5 c1 ''ch2'' = eph_live 5 (wa_challenges ex_race) ''ch2''" by (simp add: eph.consume_live inv)
  also have "\<dots> = Some \<lparr>ce_challenge = ''y'', ce_purpose = PurposeLogin\<rparr>"
    by (simp add: ex_race_def ch_Store_def eph.put_live_same inv, simp add: ex_wa_def NewChallengeStore_def ch_Store_def eph_Put_def
        eph_PutTTL_fields eph_New_def challengeTTL_def)
  finally have "fst (ch_Consume 5 ''ch2'' PurposeLogin c1) = ''y''" by (simp add: ch_Consume_result)
  then obtain c2 where ch2: "ch_Consume 5 ''ch2'' PurposeLogin c1 = (''y'', c2)" by (metis prod.collapse)
  have find: "FindCredentialByCredentialID ''cred'' (wa_db ex_race) = Some (''r1'', ex_row)" using ex_wa_find by (simp add: ex_race_def)
  define s where "s = \<lparr>fc_RowID = ''r1'', fc_AccountID = ''a'', fc_CredentialID = ''cred'', fc_PublicKeyCOSE = [1], fc_Counter = 2,
    fc_Revoked = False, fc_State = ''active''\<rparr>"
  have one: "login_check ex_lib ex_deps False 5 ''ch'' ''cred'' ''raw'' ex_race = (Inr (s, 3), ex_race\<lparr>wa_challenges := c1\<rparr>)"
    by (simp add: login_check_def ch1 Let_def FindByCredentialID_def find, simp add: ex_row_def CredentialStateActive_def ex_lib_verify s_def)
  have two: "login_check ex_lib ex_deps False 5 ''ch2'' ''cred'' ''raw'' (ex_race\<lparr>wa_challenges := c1\<rparr>) =
      (Inr (s, 3), ex_race\<lparr>wa_challenges := c2\<rparr>)"
    by (simp add: login_check_def ch2 Let_def FindByCredentialID_def find, simp add: ex_row_def CredentialStateActive_def ex_lib_verify s_def)
  have commit: "lr_Error (fst (login_commit ex_lib False ''t'' s 3 st)) = []" for st
    by (simp add: login_commit_def UpdateCounter_def)
  show ?thesis using one two commit by (intro exI conjI) (assumption | simp)+
qed

end
