(* ===== verification/Hydra_Provider.thy ===== *)
theory Hydra_Provider
  imports Front_Door Webauthn_Properties
begin

text \<open>
  \<open>src/internal/hydra/routes.go\<close> and \<open>discovery.go\<close>: the login, consent and logout provider of the
  authorization server, dynamic client registration, and the discovery documents.

  A handler maps the WebAuthn state and the requests sent to Hydra so far to its answer and to both
  after it. What a page shows is its parameters (\<open>Hydra_Render\<close> turns them into HTML). Query
  values and decoded bodies are arguments, \<open>parse_iso\<close> is \<open>time.Parse\<close> with the ISO layout.
\<close>

section \<open>Parameters, pages and answers\<close>

definition rememberFor :: int where "rememberFor = 60 * 60 * 24 * 30"

record provider_params =
  pp_SPAClientID :: string
  pp_SelfRegistrationEnabled :: bool
  pp_AllowedScopes :: "string list"
  pp_RedirectURIPatterns :: "string list"
  pp_AgentProxyEnabled :: bool

record client_identity =
  ci_Host :: string
  ci_ClientURIHost :: string
  ci_Recent :: bool

record ceremony_params =
  cy_Title :: string
  cy_Description :: string
  cy_OptionsURL :: string
  cy_VerifyURL :: string
  cy_Extra :: "(string, string) gomap"
  cy_ClientName :: string
  cy_Scopes :: "string list"
  cy_ButtonLabel :: string
  cy_ShowButton :: bool
  cy_RegisterURL :: string
  cy_Identity :: "client_identity option"

record approve_params =
  ap_Title :: string
  ap_ApproveURL :: string
  ap_Extra :: "(string, string) gomap"
  ap_ClientName :: string
  ap_Scopes :: "string list"
  ap_ButtonLabel :: string
  ap_Identity :: "client_identity option"

datatype page = PageError string string | PagePasskey ceremony_params | PageApprove approve_params

datatype prov_resp = Html int page | RedirectTo string | Json http_resp

text \<open>The bytes of the middle dot and of the dash in the titles and texts.\<close>

definition middle_dot :: string where "middle_dot = [CHR 0xC2, CHR 0xB7]"
definition em_dash :: string where "em_dash = [CHR 0xE2, CHR 0x80, CHR 0x94]"

type_synonym prov_state = "wa_state \<times> sent"

section \<open>Pages\<close>

text \<open>\<open>passkeysExist\<close> is \<open>p.HasPasskeys == nil || p.HasPasskeys()\<close>.\<close>

definition login_page :: "provider_params \<Rightarrow> hydra_env \<Rightarrow> bool \<Rightarrow> string \<Rightarrow> prov_state \<Rightarrow> prov_resp \<times> prov_state" where
  "login_page p hy passkeysExist challenge st =
     (if challenge = [] then (Html 400 (PageError ''missing_login_challenge'' []), st)
      else case GetLoginRequest hy challenge (snd st) of
             (Inl _, tr) \<Rightarrow> (Html 400 (PageError ''invalid_login_challenge'' []), (fst st, tr))
           | (Inr lr, tr) \<Rightarrow>
               if lr_Skip lr
               then (case AcceptLoginRequest hy challenge
                            \<lparr>al_Subject = lr_Subject lr, al_Remember = False, al_RememberFor = 0,
                             al_Context = [(''freshLogin'', JBool False)]\<rparr> tr of
                       (Inl _, tr) \<Rightarrow> (Html 400 (PageError ''login_flow_expired'' []), (fst st, tr))
                     | (Inr redir, tr) \<Rightarrow> (RedirectTo redir, (fst st, tr)))
               else let canRegister = (\<not> passkeysExist \<or> pp_SelfRegistrationEnabled p);
                        desc = (if passkeysExist then ''Authenticate with your passkey to continue.''
                                else ''No passkeys yet '' @ em_dash @ '' create an account to get started.'')
                    in (Html 200 (PagePasskey \<lparr>cy_Title = ''Sign in '' @ middle_dot @ '' ShellWatch'', cy_Description = desc,
                          cy_OptionsURL = ''/api/hydra/login/options'', cy_VerifyURL = ''/api/hydra/login/verify'',
                          cy_Extra = [(''login_challenge'', challenge)], cy_ClientName = [], cy_Scopes = [], cy_ButtonLabel = [],
                          cy_ShowButton = passkeysExist, cy_RegisterURL = if canRegister then ''/register'' else [],
                          cy_Identity = None\<rparr>), (fst st, tr)))"

definition freshLogin :: "consent_request \<Rightarrow> bool" where
  "freshLogin cr \<longleftrightarrow> map_of (cr_Context cr) ''freshLogin'' = Some (JBool True)"

definition accept_body :: "consent_request \<Rightarrow> accept_consent" where
  "accept_body cr =
     \<lparr>ac_GrantScope = cr_RequestedScope cr, ac_GrantAccessTokenAudience = cr_RequestedAccessTokenAudience cr,
      ac_Remember = True, ac_RememberFor = rememberFor, ac_Session = []\<rparr>"

definition uri_host_hint :: "cimd_env \<Rightarrow> string \<Rightarrow> string \<Rightarrow> string" where
  "uri_host_hint env host clientURI = (let h = hostOf env clientURI in if h \<noteq> [] \<and> h \<noteq> host then h else [])"

definition recent_stamp :: "(string \<Rightarrow> time option) \<Rightarrow> time \<Rightarrow> (string, json) gomap option \<Rightarrow> bool" where
  "recent_stamp parse_iso now meta =
     (case meta of
        None \<Rightarrow> False
      | Some m \<Rightarrow>
          (case map_of m ''shellwatch'' of
             Some (JObj sw) \<Rightarrow>
               (let raw = (case map_of sw ''fetched_at'' of Some (JStr s) \<Rightarrow> s | _ \<Rightarrow> []) in
                case parse_iso raw of None \<Rightarrow> False | Some t \<Rightarrow> now - t < 60 * Minute)
           | _ \<Rightarrow> False))"

definition cimdIdentity ::
  "cimd_env \<Rightarrow> hydra_env \<Rightarrow> (string \<Rightarrow> time option) \<Rightarrow> time \<Rightarrow> oauth2_client \<Rightarrow> sent \<Rightarrow> client_identity option \<times> sent"
where
  "cimdIdentity env hy parse_iso now c tr =
     (if \<not> IsClientIDURL (oc_ClientID c) then (None, tr)
      else let host = hostOf env (oc_ClientID c);
               hint = uri_host_hint env host (oc_ClientURI c)
           in case oc_Metadata c of
                Some m \<Rightarrow> (Some \<lparr>ci_Host = host, ci_ClientURIHost = hint, ci_Recent = recent_stamp parse_iso now (Some m)\<rparr>, tr)
              | None \<Rightarrow>
                  (case GetClient hy (oc_ClientID c) tr of
                     (Inr (Some full), tr) \<Rightarrow>
                       (Some \<lparr>ci_Host = host,
                              ci_ClientURIHost = (if hint = [] then uri_host_hint env host (oc_ClientURI full) else hint),
                              ci_Recent = recent_stamp parse_iso now (oc_Metadata full)\<rparr>, tr)
                   | (_, tr) \<Rightarrow> (Some \<lparr>ci_Host = host, ci_ClientURIHost = hint, ci_Recent = False\<rparr>, tr)))"

definition consent_page ::
  "provider_params \<Rightarrow> cimd_env \<Rightarrow> hydra_env \<Rightarrow> (string \<Rightarrow> time option) \<Rightarrow> time \<Rightarrow> string \<Rightarrow> prov_state \<Rightarrow> prov_resp \<times> prov_state"
where
  "consent_page p env hy parse_iso now challenge st =
     (if challenge = [] then (Html 400 (PageError ''missing_consent_challenge'' []), st)
      else case GetConsentRequest hy challenge (snd st) of
             (Inl _, tr) \<Rightarrow> (Html 400 (PageError ''invalid_consent_challenge'' []), (fst st, tr))
           | (Inr cr, tr) \<Rightarrow>
               (case cimdIdentity env hy parse_iso now (cr_Client cr) tr of
                  (identity, tr) \<Rightarrow>
                    if oc_ClientID (cr_Client cr) = pp_SPAClientID p \<or> (cr_Skip cr \<and> identity = None)
                    then (case AcceptConsentRequest hy challenge (accept_body cr) tr of
                            (Inl _, tr) \<Rightarrow> (Html 400 (PageError ''consent_flow_expired'' []), (fst st, tr))
                          | (Inr redir, tr) \<Rightarrow> (RedirectTo redir, (fst st, tr)))
                    else let clientName = (if oc_ClientName (cr_Client cr) = [] \<and> identity = None
                                           then oc_ClientID (cr_Client cr) else oc_ClientName (cr_Client cr));
                             extra = [(''consent_challenge'', challenge)];
                             title = ''Authorize '' @ middle_dot @ '' ShellWatch''
                         in (Html 200
                               (if freshLogin cr
                                then PageApprove \<lparr>ap_Title = title, ap_ApproveURL = ''/api/hydra/consent/approve'', ap_Extra = extra,
                                       ap_ClientName = clientName, ap_Scopes = cr_RequestedScope cr, ap_ButtonLabel = [],
                                       ap_Identity = identity\<rparr>
                                else PagePasskey \<lparr>cy_Title = title, cy_Description = [],
                                       cy_OptionsURL = ''/api/hydra/consent/options'', cy_VerifyURL = ''/api/hydra/consent/verify'',
                                       cy_Extra = extra, cy_ClientName = clientName, cy_Scopes = cr_RequestedScope cr,
                                       cy_ButtonLabel = [], cy_ShowButton = True, cy_RegisterURL = [], cy_Identity = identity\<rparr>),
                             (fst st, tr))))"

definition logout_page :: "hydra_env \<Rightarrow> string \<Rightarrow> prov_state \<Rightarrow> prov_resp \<times> prov_state" where
  "logout_page hy challenge st =
     (if challenge = [] then (RedirectTo ''/'', st)
      else case GetLogoutRequest hy challenge (snd st) of
             (Inl _, tr) \<Rightarrow> (RedirectTo ''/'', (fst st, tr))
           | (Inr lo, tr) \<Rightarrow>
               if (case lo_Client lo of None \<Rightarrow> True | Some c \<Rightarrow> oc_ClientID c = [])
               then (RedirectTo ''/'', (fst st, snd (RejectLogoutRequest hy challenge tr)))
               else (case AcceptLogoutRequest hy challenge tr of
                       (Inl _, tr) \<Rightarrow> (RedirectTo ''/'', (fst st, tr))
                     | (Inr redir, tr) \<Rightarrow> (RedirectTo redir, (fst st, tr))))"

definition error_page :: "string \<Rightarrow> string \<Rightarrow> prov_resp" where
  "error_page err description = Html 200 (PageError (if err = [] then ''error'' else err) description)"

section \<open>JSON endpoints\<close>

definition options_reply :: "(store_error + auth_options option) \<times> wa_state \<Rightarrow> sent \<Rightarrow> prov_resp \<times> prov_state" where
  "options_reply r tr =
     (case r of
        (Inl _, ws) \<Rightarrow> (Json (apierr_Write 500 ''internal error''), (ws, tr))
      | (Inr None, ws) \<Rightarrow> (Json (apierr_Write 200 ''no_passkeys''), (ws, tr))
      | (Inr (Some opts), ws) \<Rightarrow> (Json (200, authopts_json opts), (ws, tr)))"

definition login_options_route :: "wa_deps \<Rightarrow> wa_env \<Rightarrow> prov_state \<Rightarrow> prov_resp \<times> prov_state" where
  "login_options_route d e st =
     options_reply (LoginOptions d (we_flt1 e) (we_t1 e) (fr_challenge (we_fr e)) (fr_uuid (we_fr e)) (fst st)) (snd st)"

definition redirect_json :: "string \<Rightarrow> prov_resp" where
  "redirect_json u = Json (200, JObj [(''redirectTo'', JStr u)])"

definition login_verify ::
  "wa_lib \<Rightarrow> wa_deps \<Rightarrow> wa_env \<Rightarrow> hydra_env \<Rightarrow> string \<Rightarrow> string \<Rightarrow> string \<Rightarrow> prov_state \<Rightarrow> prov_resp \<times> prov_state"
where
  "login_verify L d e hy loginChallenge challengeId credential st =
     (if loginChallenge = [] then (Json (apierr_Write 400 ''missing login_challenge''), st)
      else case VerifyLogin L d (we_flt1 e) (we_flt2 e) (we_t1 e) (we_iso e) challengeId (wl_json_id L credential) credential (fst st) of
             (res, ws) \<Rightarrow>
               if lr_Error res \<noteq> [] then (Json (apierr_Write (lr_Status res) (lr_Error res)), (ws, snd st))
               else (case AcceptLoginRequest hy loginChallenge
                            \<lparr>al_Subject = lr_AccountID res, al_Remember = True, al_RememberFor = rememberFor,
                             al_Context = [(''freshLogin'', JBool True)]\<rparr> (snd st) of
                       (Inl _, tr) \<Rightarrow> (Json (apierr_Write 400 ''login_flow_expired''), (ws, tr))
                     | (Inr redir, tr) \<Rightarrow> (redirect_json redir, (ws, tr))))"

definition consentOptions :: "wa_deps \<Rightarrow> wa_env \<Rightarrow> hydra_env \<Rightarrow> string \<Rightarrow> prov_state \<Rightarrow> prov_resp \<times> prov_state" where
  "consentOptions d e hy challenge st =
     (if challenge = [] then (Json (apierr_Write 400 ''missing consent_challenge''), st)
      else case GetConsentRequest hy challenge (snd st) of
             (Inl _, tr) \<Rightarrow> (Json (apierr_Write 400 ''invalid consent_challenge''), (fst st, tr))
           | (Inr cr, tr) \<Rightarrow>
               options_reply (ConsentOptions d (we_flt1 e) (we_t1 e) (fr_challenge (we_fr e)) (fr_uuid (we_fr e)) (cr_Subject cr) (fst st)) tr)"

definition acceptConsentAndRedirect :: "hydra_env \<Rightarrow> string \<Rightarrow> consent_request \<Rightarrow> prov_state \<Rightarrow> prov_resp \<times> prov_state" where
  "acceptConsentAndRedirect hy challenge cr st =
     (case AcceptConsentRequest hy challenge (accept_body cr) (snd st) of
        (Inl _, tr) \<Rightarrow> (Json (apierr_Write 400 ''consent_flow_expired''), (fst st, tr))
      | (Inr redir, tr) \<Rightarrow> (redirect_json redir, (fst st, tr)))"

definition consentVerify ::
  "wa_lib \<Rightarrow> wa_deps \<Rightarrow> wa_env \<Rightarrow> hydra_env \<Rightarrow> string \<Rightarrow> string \<Rightarrow> string \<Rightarrow> prov_state \<Rightarrow> prov_resp \<times> prov_state"
where
  "consentVerify L d e hy challenge challengeId credential st =
     (if challenge = [] then (Json (apierr_Write 400 ''missing consent_challenge''), st)
      else case GetConsentRequest hy challenge (snd st) of
             (Inl _, tr) \<Rightarrow> (Json (apierr_Write 400 ''invalid consent_challenge''), (fst st, tr))
           | (Inr cr, tr) \<Rightarrow>
               (case VerifyConsent L d (we_flt1 e) (we_flt2 e) (we_t1 e) (we_iso e) challengeId (wl_json_id L credential) credential
                       (cr_Subject cr) (fst st) of
                  (res, ws) \<Rightarrow>
                    if lr_Error res \<noteq> [] then (Json (apierr_Write (lr_Status res) (lr_Error res)), (ws, tr))
                    else acceptConsentAndRedirect hy challenge cr (ws, tr)))"

definition consentApprove :: "hydra_env \<Rightarrow> string \<Rightarrow> prov_state \<Rightarrow> prov_resp \<times> prov_state" where
  "consentApprove hy challenge st =
     (if challenge = [] then (Json (apierr_Write 400 ''missing consent_challenge''), st)
      else case GetConsentRequest hy challenge (snd st) of
             (Inl _, tr) \<Rightarrow> (Json (apierr_Write 400 ''invalid consent_challenge''), (fst st, tr))
           | (Inr cr, tr) \<Rightarrow>
               if \<not> freshLogin cr then (Json (apierr_Write 400 ''passkey_required''), (fst st, tr))
               else acceptConsentAndRedirect hy challenge cr (fst st, tr))"

section \<open>Dynamic client registration\<close>

record dcr_body =
  db_RedirectURIs :: "string list"
  db_Scope :: string
  db_ClientName :: string

definition dcr_client :: "string \<Rightarrow> string \<Rightarrow> string list \<Rightarrow> oauth2_client" where
  "dcr_client clientName clientScope redirectURIs =
     zero_client\<lparr>oc_ClientName := clientName, oc_GrantTypes := [''authorization_code'', ''refresh_token''],
       oc_ResponseTypes := [''code''], oc_Scope := clientScope, oc_RedirectURIs := redirectURIs,
       oc_TokenEndpointAuthMethod := ''none'',
       oc_Metadata := Some [(''shellwatch'', JObj [(''origin'', JStr ClientOriginDCR)])]\<rparr>"

definition dcr_requested :: "string \<Rightarrow> string list" where
  "dcr_requested scope = (if trim_space scope \<noteq> [] then string_fields (trim_space scope) else [''mcp''])"

text \<open>\<open>patterns\<close> and \<open>allowed\<close> are built once by \<open>MountProviders\<close>; \<open>unixNow\<close> is \<open>now().Unix()\<close>.\<close>

definition handleDCR ::
  "hydra_env \<Rightarrow> (string \<Rightarrow> bool) list \<Rightarrow> (string, bool) gomap \<Rightarrow> int \<Rightarrow> dcr_body \<Rightarrow> sent
   \<Rightarrow> (http_resp \<times> client_event list) \<times> sent"
where
  "handleDCR hy patterns allowed unixNow b tr =
     (if db_RedirectURIs b = []
      then ((WriteOAuth 400 ''invalid_redirect_uri'' ''redirect_uris is required'', []), tr)
      else case find (\<lambda>uri. \<not> matchAny patterns uri) (db_RedirectURIs b) of
             Some uri \<Rightarrow> ((WriteOAuth 400 ''invalid_redirect_uri'' (''redirect_uri not allowed by policy: '' @ uri), []), tr)
           | None \<Rightarrow>
               (let granted = filter (scope_set allowed) (dcr_requested (db_Scope b)) in
                if granted = []
                then ((WriteOAuth 400 ''invalid_scope'' (''scope must be a subset of: '' @ join_with '' '' (map_keys allowed)), []), tr)
                else let clientName = (if db_ClientName b = [] then ''MCP Client'' else db_ClientName b);
                         clientScope = join_with '' '' (granted @ [''offline_access''])
                     in case CreateClient hy (dcr_client clientName clientScope (db_RedirectURIs b)) tr of
                          (Inl _, tr) \<Rightarrow>
                            ((WriteOAuth 502 ''server_error'' ''client registration failed'',
                              [zero_event\<lparr>ev_Origin := ClientOriginDCR, ev_Event := ClientEventRejected, ev_ClientName := clientName,
                                 ev_RedirectURIs := db_RedirectURIs b, ev_Scope := clientScope,
                                 ev_Reason := Inr ''server_error: client registration failed''\<rparr>]), tr)
                        | (Inr created, tr) \<Rightarrow>
                            (let redirectURIs = (if oc_RedirectURIs created = [] then db_RedirectURIs b else oc_RedirectURIs created);
                                 scope = (if oc_Scope created = [] then clientScope else oc_Scope created)
                             in (((201, JObj [(''client_id'', JStr (oc_ClientID created)), (''client_id_issued_at'', JNum unixNow),
                                     (''token_endpoint_auth_method'', JStr ''none''),
                                     (''grant_types'', JArr [JStr ''authorization_code'', JStr ''refresh_token'']),
                                     (''response_types'', JArr [JStr ''code'']), (''redirect_uris'', JArr (map JStr redirectURIs)),
                                     (''scope'', JStr scope), (''client_name'', JStr clientName)]),
                                  [zero_event\<lparr>ev_ClientID := oc_ClientID created, ev_Origin := ClientOriginDCR,
                                     ev_Event := ClientEventRegistered, ev_ClientName := clientName, ev_AuthMethod := ''none'',
                                     ev_RedirectURIs := redirectURIs, ev_Scope := scope\<rparr>]), tr))))"

definition register_route ::
  "(string \<Rightarrow> (string \<Rightarrow> bool) option) \<Rightarrow> provider_params \<Rightarrow> hydra_env \<Rightarrow> int \<Rightarrow> dcr_body \<Rightarrow> sent
   \<Rightarrow> (http_resp \<times> client_event list) \<times> sent"
where
  "register_route compile p hy unixNow b =
     handleDCR hy (List.map_filter compile (pp_RedirectURIPatterns p)) (allow_scopes (pp_AgentProxyEnabled p) (pp_AllowedScopes p))
       unixNow b"

section \<open>Discovery\<close>

record discovery_params =
  dp_ExternalURL :: string
  dp_HydraPublicURL :: string
  dp_AgentProxyEnabled :: bool
  dp_CimdEnabled :: bool

definition resource_metadata :: "discovery_params \<Rightarrow> string \<Rightarrow> string \<Rightarrow> json" where
  "resource_metadata p scope path =
     (let ext = trim_right_char CHR ''/'' (dp_ExternalURL p) in
      JObj [(''resource'', JStr (ext @ path)), (''authorization_servers'', JArr [JStr ext]),
            (''bearer_methods_supported'', JArr [JStr ''header'']),
            (''scopes_supported'', JArr [JStr scope, JStr ''offline_access''])])"

definition as_metadata :: "discovery_params \<Rightarrow> json" where
  "as_metadata p =
     (let ext = trim_right_char CHR ''/'' (dp_ExternalURL p);
          pub = trim_right_char CHR ''/'' (dp_HydraPublicURL p);
          scopes = (if dp_AgentProxyEnabled p then [''agent''] else []) @ [''mcp'', ''offline_access''];
          authorize = (if dp_CimdEnabled p then ext @ ''/api/hydra/authorize'' else pub @ ''/oauth2/auth'')
      in JObj ([(''issuer'', JStr pub), (''authorization_endpoint'', JStr authorize), (''token_endpoint'', JStr (pub @ ''/oauth2/token'')),
            (''registration_endpoint'', JStr (ext @ ''/api/hydra/register'')), (''jwks_uri'', JStr (pub @ ''/.well-known/jwks.json'')),
            (''revocation_endpoint'', JStr (pub @ ''/oauth2/revoke'')), (''response_types_supported'', JArr [JStr ''code'']),
            (''grant_types_supported'', JArr [JStr ''authorization_code'', JStr ''refresh_token'']),
            (''code_challenge_methods_supported'', JArr [JStr ''S256'']),
            (''token_endpoint_auth_methods_supported'', JArr [JStr ''none'', JStr ''private_key_jwt'']),
            (''scopes_supported'', JArr (map JStr scopes))]
            @ (if dp_CimdEnabled p then [(''client_id_metadata_document_supported'', JBool True)] else [])))"

text \<open>The documents by path.\<close>

definition MountDiscovery :: "discovery_params \<Rightarrow> (string, json) gomap" where
  "MountDiscovery p =
     [(''/.well-known/oauth-protected-resource'', resource_metadata p ''mcp'' ''/mcp''),
      (''/.well-known/oauth-protected-resource/mcp'', resource_metadata p ''mcp'' ''/mcp'')]
     @ (if dp_AgentProxyEnabled p
        then [(''/.well-known/oauth-protected-resource/agent-proxy'', resource_metadata p ''agent'' ''/agent-proxy'')] else [])
     @ [(''/.well-known/oauth-authorization-server'', as_metadata p)]"

end
