(* ===== verification/Provider_Properties.thy ===== *)
theory Provider_Properties
  imports Hydra_Provider
begin

text \<open>
  What the provider tells Hydra: a login or a consent is accepted only with a reason, and client
  registration stays within its policy.
\<close>

section \<open>Requests to the provider\<close>

datatype prov_request =
    PvLoginPage string
  | PvConsentPage string
  | PvLogoutPage string
  | PvLoginOptions
  | PvLoginVerify string string string
  | PvConsentOptions string
  | PvConsentVerify string string string
  | PvConsentApprove string

text \<open>The routes; \<open>pk\<close>, \<open>parse_iso\<close> and \<open>now\<close> are what the environment answers.\<close>

fun prov_serve ::
  "wa_lib \<Rightarrow> wa_deps \<Rightarrow> provider_params \<Rightarrow> cimd_env \<Rightarrow> hydra_env \<Rightarrow> wa_env \<Rightarrow> bool \<Rightarrow> (string \<Rightarrow> time option) \<Rightarrow> time \<Rightarrow>
   prov_request \<Rightarrow> prov_state \<Rightarrow> prov_resp \<times> prov_state"
where
  "prov_serve L d p env hy e pk iso' now (PvLoginPage ch) st = login_page p hy pk ch st"
| "prov_serve L d p env hy e pk iso' now (PvConsentPage ch) st = consent_page p env hy iso' now ch st"
| "prov_serve L d p env hy e pk iso' now (PvLogoutPage ch) st = logout_page hy ch st"
| "prov_serve L d p env hy e pk iso' now PvLoginOptions st = login_options_route d e st"
| "prov_serve L d p env hy e pk iso' now (PvLoginVerify ch cid cred) st = login_verify L d e hy ch cid cred st"
| "prov_serve L d p env hy e pk iso' now (PvConsentOptions ch) st = consentOptions d e hy ch st"
| "prov_serve L d p env hy e pk iso' now (PvConsentVerify ch cid cred) st = consentVerify L d e hy ch cid cred st"
| "prov_serve L d p env hy e pk iso' now (PvConsentApprove ch) st = consentApprove hy ch st"

section \<open>What is sent\<close>

lemma adminJSON_one_request:
  "adminJSON hy m path b dec z tr = (x, tr') \<Longrightarrow> tr' = tr @ [\<lparr>rq_Method = m, rq_URL = hy_base hy @ path, rq_Body = b\<rparr>]"
  by (auto simp: adminJSON_def send_def Let_def split: admin_reply.splits if_splits)

definition quiet :: "sent \<Rightarrow> sent \<Rightarrow> bool" where
  "quiet tr tr' \<longleftrightarrow> (\<exists>new. tr' = tr @ new \<and> (\<forall>r \<in> set new. rq_Body r = NoBody))"

lemma quiet_trans: "quiet a b \<Longrightarrow> quiet b c \<Longrightarrow> quiet a c"
  by (fastforce simp: quiet_def)

lemma quiet_sends:
  "GetLoginRequest hy ch tr = (x1, tr') \<Longrightarrow> quiet tr tr'"
  "GetConsentRequest hy ch tr = (x2, tr') \<Longrightarrow> quiet tr tr'"
  "GetLogoutRequest hy ch tr = (x3, tr') \<Longrightarrow> quiet tr tr'"
  "AcceptLogoutRequest hy ch tr = (x4, tr') \<Longrightarrow> quiet tr tr'"
  "RejectLogoutRequest hy ch tr = (x5, tr') \<Longrightarrow> quiet tr tr'"
  "GetClient hy ch tr = (x6, tr') \<Longrightarrow> quiet tr tr'"
  by (auto simp: quiet_def GetLoginRequest_def GetConsentRequest_def GetLogoutRequest_def AcceptLogoutRequest_def
      RejectLogoutRequest_def dest!: adminJSON_one_request)
    (auto simp: GetClient_def send_def Let_def split: admin_reply.splits if_splits option.splits)

text \<open>The requests of a step that carry a decision, with their bodies.\<close>

definition decisions :: "sent \<Rightarrow> sent \<Rightarrow> (string \<times> admin_body) list" where
  "decisions tr tr' = map (\<lambda>r. (rq_URL r, rq_Body r)) (filter (\<lambda>r. rq_Body r \<noteq> NoBody) (drop (length tr) tr'))"

lemma decisions_quiet: "quiet tr tr' \<Longrightarrow> decisions tr tr' = []"
  by (auto simp: decisions_def quiet_def)

lemma decisions_self [simp]: "decisions tr tr = []"
  by (simp add: decisions_def)

lemma decisions_snoc:
  "quiet tr tr' \<Longrightarrow> rq_Body r \<noteq> NoBody \<Longrightarrow> decisions tr (tr' @ [r]) = [(rq_URL r, rq_Body r)]"
  by (auto simp: decisions_def quiet_def)

definition consent_url :: "hydra_env \<Rightarrow> string \<Rightarrow> string" where
  "consent_url hy ch = hy_base hy @ ''/admin/oauth2/auth/requests/consent/accept?consent_challenge='' @ QueryEscape ch"

definition login_url :: "hydra_env \<Rightarrow> string \<Rightarrow> string" where
  "login_url hy ch = hy_base hy @ ''/admin/oauth2/auth/requests/login/accept?login_challenge='' @ QueryEscape ch"

lemma accept_sends:
  "quiet tr mid \<Longrightarrow> AcceptLoginRequest hy ch b mid = (x, tr') \<Longrightarrow> decisions tr tr' = [(login_url hy ch, BodyLogin b)]"
  "quiet tr mid \<Longrightarrow> AcceptConsentRequest hy ch b' mid = (y, tr') \<Longrightarrow> decisions tr tr' = [(consent_url hy ch, BodyConsent b')]"
  by (auto simp: AcceptLoginRequest_def AcceptConsentRequest_def login_url_def consent_url_def decisions_snoc dest!: adminJSON_one_request)

lemma quiet_refl [simp]: "quiet tr tr"
  by (simp add: quiet_def)

lemma cimdIdentity_result:
  assumes "cimdIdentity env hy iso' now c tr = (i, tr')"
  shows "quiet tr tr' \<and> (i = None \<longleftrightarrow> \<not> IsClientIDURL (oc_ClientID c))"
  using assms by (auto simp: cimdIdentity_def Let_def dest: quiet_sends split: if_splits option.splits prod.splits sum.splits)

section \<open>Decisions have a reason\<close>

definition passkey_proof :: "wa_lib \<Rightarrow> wa_deps \<Rightarrow> wa_state \<Rightarrow> string \<Rightarrow> string \<Rightarrow> bool" where
  "passkey_proof L d ws cred acc \<longleftrightarrow>
     (\<exists>rid r chal c. FindCredentialByCredentialID (wl_json_id L cred) (wa_db ws) = Some (rid, r)
        \<and> active_row r \<and> wc_account_id r = acc \<and> proves_possession L d chal cred r c)"

text \<open>
  The reasons: a remembered login, a login with a passkey of the account, the silent consent of the
  first-party client and of remembered clients whose id is not a URL, the approval of a fresh login,
  and a consent proved with a passkey of the very subject. What is granted is what was requested.
\<close>

inductive justified :: "wa_lib \<Rightarrow> wa_deps \<Rightarrow> provider_params \<Rightarrow> hydra_env \<Rightarrow> prov_request \<Rightarrow> prov_state \<Rightarrow> string \<times> admin_body \<Rightarrow> bool"
for L d p hy rq st where
  remembered: "rq = PvLoginPage ch \<Longrightarrow> GetLoginRequest hy ch (snd st) = (Inr lr, tr) \<Longrightarrow> lr_Skip lr \<Longrightarrow>
    justified L d p hy rq st (login_url hy ch, BodyLogin \<lparr>al_Subject = lr_Subject lr, al_Remember = False, al_RememberFor = 0,
      al_Context = [(''freshLogin'', JBool False)]\<rparr>)"
| logged_in: "rq = PvLoginVerify ch cid cred \<Longrightarrow> passkey_proof L d (fst st) cred acc \<Longrightarrow>
    justified L d p hy rq st (login_url hy ch, BodyLogin \<lparr>al_Subject = acc, al_Remember = True, al_RememberFor = rememberFor,
      al_Context = [(''freshLogin'', JBool True)]\<rparr>)"
| silent: "rq = PvConsentPage ch \<Longrightarrow> GetConsentRequest hy ch (snd st) = (Inr cr, tr) \<Longrightarrow>
    oc_ClientID (cr_Client cr) = pp_SPAClientID p \<or> cr_Skip cr \<and> \<not> IsClientIDURL (oc_ClientID (cr_Client cr)) \<Longrightarrow>
    justified L d p hy rq st (consent_url hy ch, BodyConsent (accept_body cr))"
| approved: "rq = PvConsentApprove ch \<Longrightarrow> GetConsentRequest hy ch (snd st) = (Inr cr, tr) \<Longrightarrow> freshLogin cr \<Longrightarrow>
    justified L d p hy rq st (consent_url hy ch, BodyConsent (accept_body cr))"
| proved: "rq = PvConsentVerify ch cid cred \<Longrightarrow> GetConsentRequest hy ch (snd st) = (Inr cr, tr) \<Longrightarrow>
    passkey_proof L d (fst st) cred (cr_Subject cr) \<Longrightarrow>
    justified L d p hy rq st (consent_url hy ch, BodyConsent (accept_body cr))"

lemma VerifyLogin_proof:
  assumes "VerifyLogin L d f1 f2 now ts cid (wl_json_id L cred) cred ws = (res, ws')" "lr_Error res = []"
    "\<forall>e. wl_dberr L e \<noteq> []" "counters_wf (wa_db ws)"
  shows "passkey_proof L d ws cred (lr_AccountID res)"
  by (rule VerifyLogin_success [OF assms]) (auto simp: passkey_proof_def)

lemma VerifyConsent_proof:
  assumes "VerifyConsent L d f1 f2 now ts cid (wl_json_id L cred) cred acc ws = (res, ws')" "lr_Error res = []"
    "\<forall>e. wl_dberr L e \<noteq> []" "counters_wf (wa_db ws)"
  shows "passkey_proof L d ws cred acc"
  using assms(1,2) VerifyLogin_proof [OF _ _ assms(3,4)]
  by (auto simp: VerifyConsent_def login_error_def split: prod.splits if_splits)

text \<open>The decision that follows a read-only request.\<close>

lemma after_read:
  assumes "quiet tr mid"
  shows "decisions tr (snd (AcceptLoginRequest hy ch b mid)) = [(login_url hy ch, BodyLogin b)]"
    "decisions tr (snd (AcceptConsentRequest hy ch b' mid)) = [(consent_url hy ch, BodyConsent b')]"
  using accept_sends [OF assms] by (metis prod.collapse)+

lemma login_page_decisions:
  assumes "dec \<in> set (decisions (snd st) (snd (snd (login_page p hy pk ch st))))"
  shows "justified L d p hy (PvLoginPage ch) st dec"
proof -
  obtain x tr where g: "GetLoginRequest hy ch (snd st) = (x, tr)" by fastforce
  note q = quiet_sends(1) [OF g]
  show ?thesis
    using assms q after_read(1) [OF q]
    by (auto simp: login_page_def Let_def g decisions_quiet case_prod_beta sum.case_eq_if
        intro!: justified.remembered split: if_splits sum.splits)
qed

lemma acceptConsent_decisions:
  assumes "quiet tr (snd st)"
  shows "decisions tr (snd (snd (acceptConsentAndRedirect hy ch cr st))) = [(consent_url hy ch, BodyConsent (accept_body cr))]"
proof -
  obtain y tr' where a: "AcceptConsentRequest hy ch (accept_body cr) (snd st) = (y, tr')" by fastforce
  show ?thesis using accept_sends(2) [OF assms a] by (cases y) (simp_all add: acceptConsentAndRedirect_def a)
qed

lemma consent_page_decisions:
  assumes "dec \<in> set (decisions (snd st) (snd (snd (consent_page p env hy iso' now ch st))))"
  shows "justified L d p hy (PvConsentPage ch) st dec"
proof -
  obtain x tr where g: "GetConsentRequest hy ch (snd st) = (x, tr)" by fastforce
  note q = quiet_sends(2) [OF g]
  show ?thesis
  proof (cases x)
    case (Inr cr)
    obtain i tr' where i: "cimdIdentity env hy iso' now (cr_Client cr) tr = (i, tr')" by fastforce
    note ir = cimdIdentity_result [OF i]
    then have q': "quiet (snd st) tr'" using q quiet_trans by blast
    show ?thesis
      using assms after_read(2) [OF q'] decisions_quiet [OF q'] ir
      by (auto simp: consent_page_def Let_def g Inr i case_prod_beta intro!: justified.silent split: if_splits sum.splits)
  qed (use assms q in \<open>auto simp: consent_page_def g decisions_quiet split: if_splits\<close>)
qed

lemma consentApprove_decisions:
  assumes "dec \<in> set (decisions (snd st) (snd (snd (consentApprove hy ch st))))"
  shows "justified L d p hy (PvConsentApprove ch) st dec"
proof -
  obtain x tr where g: "GetConsentRequest hy ch (snd st) = (x, tr)" by fastforce
  note q = quiet_sends(2) [OF g]
  show ?thesis
    using assms q acceptConsent_decisions [of "snd st" "(fst st, tr)" hy ch]
    by (auto simp: consentApprove_def g decisions_quiet intro!: justified.approved split: if_splits sum.splits)
qed

lemma consentVerify_decisions:
  assumes "dec \<in> set (decisions (snd st) (snd (snd (consentVerify L d e hy ch cid cred st))))"
    "\<forall>e. wl_dberr L e \<noteq> []" "counters_wf (wa_db (fst st))"
  shows "justified L d p hy (PvConsentVerify ch cid cred) st dec"
proof -
  obtain x tr where g: "GetConsentRequest hy ch (snd st) = (x, tr)" by fastforce
  note q = quiet_sends(2) [OF g]
  show ?thesis
  proof (cases x)
    case (Inr cr)
    obtain res ws where v: "VerifyConsent L d (we_flt1 e) (we_flt2 e) (we_t1 e) (we_iso e) cid (wl_json_id L cred) cred
        (cr_Subject cr) (fst st) = (res, ws)" by fastforce
    show ?thesis
      using assms(1) q acceptConsent_decisions [of "snd st" "(ws, tr)" hy ch cr] VerifyConsent_proof [OF v _ assms(2,3)] g
      by (auto simp: consentVerify_def Inr v decisions_quiet intro: justified.proved split: if_splits)
  qed (use assms q in \<open>auto simp: consentVerify_def g decisions_quiet split: if_splits\<close>)
qed

lemma login_verify_decisions:
  assumes "dec \<in> set (decisions (snd st) (snd (snd (login_verify L d e hy ch cid cred st))))"
    "\<forall>e. wl_dberr L e \<noteq> []" "counters_wf (wa_db (fst st))"
  shows "justified L d p hy (PvLoginVerify ch cid cred) st dec"
proof -
  obtain res ws where v: "VerifyLogin L d (we_flt1 e) (we_flt2 e) (we_t1 e) (we_iso e) cid (wl_json_id L cred) cred (fst st) = (res, ws)"
    by fastforce
  define b where "b = \<lparr>al_Subject = lr_AccountID res, al_Remember = True, al_RememberFor = rememberFor,
    al_Context = [(''freshLogin'', JBool True)]\<rparr>"
  obtain y tr where a: "AcceptLoginRequest hy ch b (snd st) = (y, tr)" by fastforce
  show ?thesis
    using assms(1) accept_sends(1) [OF quiet_refl a] VerifyLogin_proof [OF v _ assms(2,3)]
    by (cases y) (auto simp: login_verify_def v a b_def [symmetric] split: if_splits, auto simp: b_def intro: justified.logged_in)
qed

lemma other_decisions:
  "decisions (snd st) (snd (snd (logout_page hy ch st))) = []"
  "decisions (snd st) (snd (snd (login_options_route d e st))) = []"
  "decisions (snd st) (snd (snd (consentOptions d e hy ch st))) = []"
proof -
  obtain x tr where g: "GetLogoutRequest hy ch (snd st) = (x, tr)" by fastforce
  obtain y tr1 where a: "AcceptLogoutRequest hy ch tr = (y, tr1)" by fastforce
  obtain z tr2 where r: "RejectLogoutRequest hy ch tr = (z, tr2)" by fastforce
  have "quiet (snd st) tr" "quiet (snd st) tr1" "quiet (snd st) tr2"
    using quiet_sends(3) [OF g] quiet_sends(4) [OF a] quiet_sends(5) [OF r] quiet_trans by blast+
  then show "decisions (snd st) (snd (snd (logout_page hy ch st))) = []"
    by (auto simp: logout_page_def g a r decisions_quiet split: sum.split option.split)
  show "decisions (snd st) (snd (snd (login_options_route d e st))) = []"
    by (auto simp: login_options_route_def options_reply_def split: sum.split option.split prod.split)
  obtain x' tr' where c: "GetConsentRequest hy ch (snd st) = (x', tr')" by fastforce
  show "decisions (snd st) (snd (snd (consentOptions d e hy ch st))) = []"
    using quiet_sends(2) [OF c]
    by (auto simp: consentOptions_def c decisions_quiet options_reply_def split: sum.split option.split prod.split)
qed

text \<open>
  C31: The provider never accepts a login or a consent without a reason. Every accepting request that
  any page or endpoint sends to Hydra is for the challenge it was called with and is either the
  renewal of a login Hydra remembers, marked as not fresh; a login proved with an active passkey of
  the account, marked fresh; the silent consent of the first-party client, or of a remembered client
  whose id is not a URL; the approval of a consent whose login was fresh; or a consent proved with an
  active passkey of the very subject. Exactly the requested scopes and audiences are granted.
\<close>

theorem oauth_decisions_justified:
  assumes "dec \<in> set (decisions (snd st) (snd (snd (prov_serve L d p env hy e pk iso' now rq st))))"
    "\<forall>e. wl_dberr L e \<noteq> []" "counters_wf (wa_db (fst st))"
  shows "justified L d p hy rq st dec"
  using assms
  by (cases rq) (auto simp: other_decisions intro: login_page_decisions consent_page_decisions consentApprove_decisions
      consentVerify_decisions login_verify_decisions)

definition ex_provider :: provider_params where
  "ex_provider = \<lparr>pp_SPAClientID = ''spa'', pp_SelfRegistrationEnabled = False, pp_AllowedScopes = [''mcp'', ''agent''],
     pp_RedirectURIPatterns = [''loopback''], pp_AgentProxyEnabled = False\<rparr>"

definition ex_consent :: consent_request where
  "ex_consent = zero_consent\<lparr>cr_Subject := ''a'', cr_RequestedScope := [''mcp''], cr_Context := [(''freshLogin'', JBool True)]\<rparr>"

definition ex_hy :: hydra_env where
  "ex_hy = \<lparr>hy_base = ''http://hydra'', hy_srv = \<lambda>_ _. Replied 200 ''{}'', hy_redirect = \<lambda>_. Some ''/go'', hy_login = \<lambda>_. None,
     hy_consent = \<lambda>_. Some ex_consent, hy_logout = \<lambda>_. None, hy_client = \<lambda>_. Some zero_client, hy_sessions = \<lambda>_. None\<rparr>"

theorem oauth_decisions_justified_witness:
  "justified ex_lib ex_deps ex_provider ex_hy (PvConsentApprove ''c1'') (ex_wa, [])
     (consent_url ex_hy ''c1'', BodyConsent (accept_body ex_consent))"
proof (rule oauth_decisions_justified [where env = ex_cenv and e = ex_env and pk = True and iso' = "\<lambda>_. None" and now = 0])
  obtain tr where g: "GetConsentRequest ex_hy ''c1'' [] = (Inr ex_consent, tr)"
    by (auto simp: GetConsentRequest_def adminJSON_def send_def ex_hy_def Let_def)
  have fresh: "freshLogin ex_consent" by (simp add: freshLogin_def ex_consent_def)
  have "decisions [] (snd (snd (consentApprove ex_hy ''c1'' (ex_wa, [])))) =
      [(consent_url ex_hy ''c1'', BodyConsent (accept_body ex_consent))]"
    using acceptConsent_decisions [of "[]" "(ex_wa, tr)" ex_hy "''c1''" ex_consent] quiet_sends(2) [OF g]
    by (simp add: consentApprove_def g fresh)
  then show "(consent_url ex_hy ''c1'', BodyConsent (accept_body ex_consent)) \<in> set (decisions (snd (ex_wa, []))
      (snd (snd (prov_serve ex_lib ex_deps ex_provider ex_cenv ex_hy ex_env True (\<lambda>_. None) 0 (PvConsentApprove ''c1'') (ex_wa, [])))))"
    by (simp only: prov_serve.simps snd_conv) simp
qed (simp_all add: ex_lib_def ex_wa_def ex_row_def counters_wf_def)

section \<open>Registration stays within its policy\<close>

lemma scope_set_allow: "scope_set (allow_scopes ag scopes) s \<longleftrightarrow> s \<in> set scopes \<and> (s = ''agent'' \<longrightarrow> ag)"
proof -
  have "scope_set (fold (\<lambda>s m. if s = ''agent'' \<and> \<not> ag then m else AList.update s True m) scopes m) s
      \<longleftrightarrow> scope_set m s \<or> s \<in> set scopes \<and> (s = ''agent'' \<longrightarrow> ag)" for m
    by (induction scopes arbitrary: m) (auto simp: scope_set_def gomap_simps)
  then show ?thesis by (simp add: allow_scopes_def scope_set_def)
qed

lemma matchAny_patterns:
  "matchAny (List.map_filter compile ps) u \<longleftrightarrow> (\<exists>src \<in> set ps. \<exists>re. compile src = Some re \<and> re u)"
  by (induction ps) (auto simp: matchAny_def List.map_filter_def split: option.splits)

text \<open>
  Dynamic registration creates a client at Hydra only within the policy: exactly one request, for
  a public client without a secret, whose redirect URIs each match a configured pattern and whose
  scopes are requested ones that the configuration allows (\<open>agent\<close> only while the agent proxy is
  enabled) plus \<open>offline_access\<close>. Everything else is refused with status 400 and nothing is sent.
\<close>

theorem dcr_within_policy:
  "(snd (register_route compile p hy t b tr) = tr \<and> fst (fst (fst (register_route compile p hy t b tr))) = 400
      \<and> snd (fst (register_route compile p hy t b tr)) = [])
   \<or> (\<exists>c granted. snd (register_route compile p hy t b tr) =
          tr @ [\<lparr>rq_Method = ''POST'', rq_URL = hy_base hy @ ''/admin/clients'', rq_Body = BodyClient c\<rparr>]
        \<and> oc_TokenEndpointAuthMethod c = ''none'' \<and> oc_ClientSecret c = []
        \<and> oc_RedirectURIs c = db_RedirectURIs b \<and> db_RedirectURIs b \<noteq> []
        \<and> (\<forall>u \<in> set (db_RedirectURIs b). \<exists>src \<in> set (pp_RedirectURIPatterns p). \<exists>re. compile src = Some re \<and> re u)
        \<and> oc_Scope c = join_with '' '' (granted @ [''offline_access'']) \<and> granted \<noteq> []
        \<and> (\<forall>s \<in> set granted. s \<in> set (dcr_requested (db_Scope b)) \<and> s \<in> set (pp_AllowedScopes p)
             \<and> (s = ''agent'' \<longrightarrow> pp_AgentProxyEnabled p)))"
proof -
  let ?pats = "List.map_filter compile (pp_RedirectURIPatterns p)"
  let ?allowed = "allow_scopes (pp_AgentProxyEnabled p) (pp_AllowedScopes p)"
  let ?granted = "filter (scope_set ?allowed) (dcr_requested (db_Scope b))"
  show ?thesis
  proof (cases "db_RedirectURIs b = [] \<or> find (\<lambda>uri. \<not> matchAny ?pats uri) (db_RedirectURIs b) \<noteq> None \<or> ?granted = []")
    case True
    then show ?thesis
      by (intro disjI1) (auto simp: register_route_def handleDCR_def Let_def WriteOAuth_def split: option.split)
  next
    case False
    define c where "c = dcr_client (if db_ClientName b = [] then ''MCP Client'' else db_ClientName b)
      (join_with '' '' (?granted @ [''offline_access''])) (db_RedirectURIs b)"
    obtain x tr' where cr: "CreateClient hy c tr = (x, tr')" by fastforce
    then have tr': "tr' = tr @ [\<lparr>rq_Method = ''POST'', rq_URL = hy_base hy @ ''/admin/clients'', rq_Body = BodyClient c\<rparr>]"
      by (auto simp: CreateClient_def dest: adminJSON_one_request)
    have "snd (register_route compile p hy t b tr) = tr'"
      using False unfolding register_route_def handleDCR_def Let_def c_def [symmetric] by (cases x) (auto simp: cr c_def [symmetric])
    moreover have "\<forall>u \<in> set (db_RedirectURIs b). \<exists>src \<in> set (pp_RedirectURIPatterns p). \<exists>re. compile src = Some re \<and> re u"
      using False by (auto simp: find_None_iff matchAny_patterns)
    ultimately show ?thesis
      using False tr' by (intro disjI2 exI [of _ c] exI [of _ ?granted]) (auto simp: c_def dcr_client_def zero_client_def scope_set_allow)
  qed
qed

definition ex_dcr :: dcr_body where
  "ex_dcr = \<lparr>db_RedirectURIs = [''http://127.0.0.1/cb''], db_Scope = [], db_ClientName = []\<rparr>"

theorem dcr_within_policy_witness:
  "\<exists>c. snd (register_route (\<lambda>_. Some (\<lambda>_. True)) ex_provider ex_hy 0 ex_dcr []) =
       [\<lparr>rq_Method = ''POST'', rq_URL = ''http://hydra/admin/clients'', rq_Body = BodyClient c\<rparr>]
     \<and> oc_ClientSecret c = [] \<and> oc_RedirectURIs c = [''http://127.0.0.1/cb'']"
proof -
  have "trim_space [] = []" by code_simp
  then have req: "dcr_requested [] = [''mcp'']" by (simp add: dcr_requested_def)
  have "fst (fst (fst (register_route (\<lambda>_. Some (\<lambda>_. True)) ex_provider ex_hy 0 ex_dcr []))) = 201"
    by (simp add: register_route_def handleDCR_def ex_dcr_def req Let_def scope_set_allow ex_provider_def matchAny_def
        List.map_filter_def CreateClient_def adminJSON_def send_def ex_hy_def)
  with dcr_within_policy [of "\<lambda>_. Some (\<lambda>_. True)" ex_provider ex_hy 0 ex_dcr "[]"] show ?thesis
    by (auto simp: ex_hy_def ex_dcr_def)
qed

end
