(* ===== verification/Hydra_Render.thy ===== *)
theory Hydra_Render
  imports Hydra_Provider
begin

text \<open>
  \<open>src/internal/hydra/render.go\<close>: the HTML of the provider's pages. The fixed texts that nothing is
  inserted into, the style sheet and the bodies of the two scripts after their constants, are
  members of \<open>templates\<close>; \<open>marshal\<close> is \<open>json.Marshal\<close>. What is proved holds for all of them.
\<close>

record templates =
  tp_styleCSS :: string
  tp_ceremony :: string
  tp_approve :: string
  tp_marshal :: "json \<Rightarrow> string"

definition nl :: string where "nl = [CHR 0x0A]"

section \<open>Escaping\<close>

definition esc_char :: "char \<Rightarrow> string" where
  "esc_char c =
     (if c = CHR ''&'' then ''&amp;'' else if c = CHR 0x27 then ''&#39;'' else if c = CHR ''<'' then ''&lt;''
      else if c = CHR ''>'' then ''&gt;'' else if c = CHR 0x22 then ''&#34;'' else [c])"

definition esc :: "string \<Rightarrow> string" where
  "esc s = concat (map esc_char s)"

definition script_char :: "char \<Rightarrow> string" where
  "script_char c = (if c = CHR ''<'' then [CHR 0x5C] @ ''u003c'' else [c])"

definition jsonForScript :: "templates \<Rightarrow> json \<Rightarrow> string" where
  "jsonForScript T v = concat (map script_char (tp_marshal T v))"

section \<open>Pages\<close>

definition html_page :: "templates \<Rightarrow> string \<Rightarrow> string \<Rightarrow> string \<Rightarrow> string" where
  \<open>html_page T title inner script =
     (let scriptTag = (if script = [] then [] else nl @ ''<script>'' @ script @ ''</script>'') in
      ''<!doctype html><html lang="en"><head><meta charset="utf-8">'' @ nl
      @ ''<meta name="viewport" content="width=device-width, initial-scale=1">'' @ nl
      @ ''<title>'' @ esc title @ ''</title><style>'' @ tp_styleCSS T @ ''</style></head>'' @ nl
      @ ''<body><div class="card">'' @ nl
      @ ''<img class="logo" src="/logo.svg" alt="">'' @ nl
      @ ''<h1><span class="wordmark-shell">SHELL</span><span class="wordmark-watch">WATCH</span></h1>'' @ nl
      @ inner @ nl @ ''</div>'' @ scriptTag @ nl @ ''</body></html>'')\<close>

definition consentBody :: "string \<Rightarrow> string \<Rightarrow> string list \<Rightarrow> client_identity option \<Rightarrow> string" where
  \<open>consentBody description clientName scopes identity =
     (if description \<noteq> [] then ''<p>'' @ esc description @ ''</p>'' else [])
     @ (case identity of
          Some i \<Rightarrow>
            ''<div class="cimd-id"><div class="cimd-host-label">Client hosted at</div><div class="cimd-host">'' @ esc (ci_Host i) @ ''</div>''
            @ (if clientName \<noteq> [] then ''<p class="cimd-meta">calls itself <span class="claim">'' @ esc clientName @ ''</span></p>'' else [])
            @ (if ci_ClientURIHost i \<noteq> []
               then ''<p class="cimd-meta">home page: <span class="claim">'' @ esc (ci_ClientURIHost i) @ ''</span></p>'' else [])
            @ ''</div>''
            @ (if ci_Recent i then ''<p class="first-seen">This client was registered or last changed less than an hour ago.</p>'' else [])
            @ ''<p class="lead">It is requesting access to your ShellWatch account with these scopes:</p>''
        | None \<Rightarrow>
            if clientName \<noteq> []
            then ''<p class="lead"><span class="client">'' @ esc clientName
                 @ ''</span> is requesting access to your ShellWatch account with these scopes:</p>''
            else [])
     @ (if scopes \<noteq> [] then ''<ul class="scopes">'' @ concat (map (\<lambda>s. ''<li>'' @ esc s @ ''</li>'') scopes) @ ''</ul>'' else [])\<close>

definition extra_json :: "(string, string) gomap \<Rightarrow> json" where
  "extra_json extra = JObj (map (\<lambda>(k, v). (k, JStr v)) extra)"

definition ceremonyScript :: "templates \<Rightarrow> string \<Rightarrow> string \<Rightarrow> (string, string) gomap \<Rightarrow> string" where
  "ceremonyScript T optionsURL verifyURL extra =
     nl @ ''const OPTIONS_URL='' @ jsonForScript T (JStr optionsURL) @ '';'' @ nl
     @ ''const VERIFY_URL='' @ jsonForScript T (JStr verifyURL) @ '';'' @ nl
     @ ''const EXTRA='' @ jsonForScript T (extra_json extra) @ '';'' @ nl @ tp_ceremony T"

definition approveScript :: "templates \<Rightarrow> string \<Rightarrow> (string, string) gomap \<Rightarrow> string" where
  "approveScript T approveURL extra =
     nl @ ''const APPROVE_URL='' @ jsonForScript T (JStr approveURL) @ '';'' @ nl
     @ ''const EXTRA='' @ jsonForScript T (extra_json extra) @ '';'' @ nl @ tp_approve T"

definition renderPasskeyPage :: "templates \<Rightarrow> ceremony_params \<Rightarrow> string" where
  \<open>renderPasskeyPage T p =
     (let label = (if cy_ButtonLabel p = [] then ''Continue with passkey'' else cy_ButtonLabel p);
          button = (if cy_ShowButton p
                    then ''<button id="go">'' @ esc label @ ''</button>'' @ nl @ ''<div id="status" class="status"></div>'' else []);
          script = (if cy_ShowButton p then ceremonyScript T (cy_OptionsURL p) (cy_VerifyURL p) (cy_Extra p) else []);
          registerLink = (if cy_RegisterURL p \<noteq> []
                          then ''<p class="register-link"><a href="'' @ esc (cy_RegisterURL p) @ ''">Create new account</a></p>'' else []);
          inner = consentBody (cy_Description p) (cy_ClientName p) (cy_Scopes p) (cy_Identity p) @ nl @ button @ registerLink
                  @ nl @ ''<div class="muted">Passkey-only authentication</div>''
      in html_page T (cy_Title p) inner script)\<close>

definition renderApprovePage :: "templates \<Rightarrow> approve_params \<Rightarrow> string" where
  \<open>renderApprovePage T p =
     (let label = (if ap_ButtonLabel p = [] then ''Approve'' else ap_ButtonLabel p);
          inner = consentBody [] (ap_ClientName p) (ap_Scopes p) (ap_Identity p) @ nl @ ''<button id="go">'' @ esc label @ ''</button>'' @ nl
                  @ ''<div id="status" class="status"></div>'' @ nl
                  @ ''<div class="muted">You'' @ [CHR 0x27] @ ''re signed in '' @ em_dash @ '' approve to continue.</div>''
      in html_page T (ap_Title p) inner (approveScript T (ap_ApproveURL p) (ap_Extra p)))\<close>

definition renderErrorPage :: "templates \<Rightarrow> string \<Rightarrow> string \<Rightarrow> string" where
  \<open>renderErrorPage T errMsg description =
     (let msg = (if description = [] then errMsg else description);
          msg = (if msg = [] then ''Something went wrong during authentication.'' else msg)
      in html_page T ''Authentication error''
           (''<p>'' @ esc msg @ ''</p>'' @ nl
            @ ''<a href="/" style="text-decoration:none"><button id="go">Back to ShellWatch</button></a>'') [])\<close>

primrec render :: "templates \<Rightarrow> page \<Rightarrow> string" where
  "render T (PageError err desc) = renderErrorPage T err desc"
| "render T (PagePasskey p) = renderPasskeyPage T p"
| "render T (PageApprove p) = renderApprovePage T p"

section \<open>No value opens a tag\<close>

text \<open>The tags of a text are counted by the character that opens them.\<close>

definition opens :: "string \<Rightarrow> nat" where
  "opens s = length (filter (\<lambda>c. c = CHR ''<'') s)"

lemma opens_append [simp]: "opens (a @ b) = opens a + opens b"
  by (simp add: opens_def)

lemma opens_Nil [simp]: "opens [] = 0"
  by (simp add: opens_def)

lemma opens_concat: "opens (concat xs) = sum_list (map opens xs)"
  by (induction xs) simp_all

lemma opens_esc [simp]: "opens (esc s) = 0"
proof -
  have "opens (esc_char c) = 0" for c by (auto simp: esc_char_def opens_def)
  then show ?thesis by (induction s) (simp_all add: esc_def)
qed

lemma opens_script [simp]: "opens (jsonForScript T v) = 0"
proof -
  have "opens (concat (map script_char s)) = 0" for s
    by (induction s) (simp_all add: script_char_def opens_def)
  then show ?thesis by (simp add: jsonForScript_def)
qed

text \<open>Which optional parts a page has; nothing of what the values say.\<close>

definition body_shape :: "string \<Rightarrow> string \<Rightarrow> string list \<Rightarrow> client_identity option \<Rightarrow> bool \<times> bool \<times> nat \<times> (bool \<times> bool) option" where
  "body_shape description clientName scopes identity =
     (description = [], clientName = [], length scopes, map_option (\<lambda>i. (ci_ClientURIHost i = [], ci_Recent i)) identity)"

primrec page_shape :: "page \<Rightarrow> nat \<times> bool \<times> bool \<times> bool \<times> bool \<times> nat \<times> (bool \<times> bool) option" where
  "page_shape (PageError err desc) = (0, False, False, body_shape [] [] [] None)"
| "page_shape (PagePasskey p) =
     (1, cy_ShowButton p, cy_RegisterURL p = [], body_shape (cy_Description p) (cy_ClientName p) (cy_Scopes p) (cy_Identity p))"
| "page_shape (PageApprove p) = (2, False, False, body_shape [] (ap_ClientName p) (ap_Scopes p) (ap_Identity p))"

lemma opens_scopes: "opens (concat (map (\<lambda>s. ''<li>'' @ esc s @ ''</li>'') xs)) = 2 * length xs"
proof -
  have "opens (''<li>'' @ esc s @ ''</li>'') = 2" for s
    unfolding opens_append opens_esc by (simp add: opens_def)
  then show ?thesis by (simp add: opens_concat comp_def sum_list_triv)
qed

lemma opens_consentBody:
  assumes "body_shape d n sc i = body_shape d' n' sc' i'"
  shows "opens (consentBody d n sc i) = opens (consentBody d' n' sc' i')"
proof -
  have "d = [] \<longleftrightarrow> d' = []" "n = [] \<longleftrightarrow> n' = []" "length sc = length sc'" using assms by (auto simp: body_shape_def)
  moreover have "sc = [] \<longleftrightarrow> sc' = []" using calculation(3) by auto
  ultimately show ?thesis
    using assms
    by (cases i; cases i') (simp_all only: consentBody_def opens_append opens_esc opens_scopes opens_Nil option.case if_distrib [of opens],
      simp_all only: body_shape_def option.map prod.inject option.inject option.distinct simp_thms if_True if_False)
qed

lemma opens_page:
  "opens inner = opens inner' \<Longrightarrow> opens script = opens script' \<Longrightarrow> (script = [] \<longleftrightarrow> script' = []) \<Longrightarrow>
     opens (html_page T title inner script) = opens (html_page T title' inner' script')"
  by (simp only: html_page_def Let_def opens_append opens_esc opens_Nil if_distrib [of opens])

lemma scripts_nonempty: "ceremonyScript T a b x \<noteq> []" "approveScript T a x \<noteq> []"
  by (simp_all add: ceremonyScript_def approveScript_def nl_def)

lemma opens_scripts:
  "opens (ceremonyScript T a b x) = opens (tp_ceremony T)"
  "opens (approveScript T a x) = opens (tp_approve T)"
proof -
  have lits: "opens nl = 0" "opens '';'' = 0" "opens ''const OPTIONS_URL='' = 0" "opens ''const VERIFY_URL='' = 0"
    "opens ''const EXTRA='' = 0" "opens ''const APPROVE_URL='' = 0" by (simp_all add: opens_def nl_def)
  show "opens (ceremonyScript T a b x) = opens (tp_ceremony T)" "opens (approveScript T a x) = opens (tp_approve T)"
    by (simp_all only: ceremonyScript_def approveScript_def opens_append opens_script lits add_0)
qed

text \<open>
  No value shown on a page can open a tag, in its text or in its script. Two pages with the same
  optional parts have the same number of opening brackets, whatever the client names, hosts, scopes,
  descriptions, challenges and error texts are that Hydra, a client's metadata or the query put there.
\<close>

theorem page_markup_fixed:
  assumes "page_shape p = page_shape q"
  shows "opens (render T p) = opens (render T q)"
proof (cases p)
  case (PageError err desc)
  with assms obtain err' desc' where "q = PageError err' desc'" by (cases q) auto
  with PageError show ?thesis by (simp only: render.simps renderErrorPage_def Let_def) (rule opens_page; simp only: opens_append opens_esc)
next
  case (PagePasskey a)
  with assms obtain b where q: "q = PagePasskey b" and sh: "cy_ShowButton a = cy_ShowButton b"
    "cy_RegisterURL a = [] \<longleftrightarrow> cy_RegisterURL b = []" and
    "body_shape (cy_Description a) (cy_ClientName a) (cy_Scopes a) (cy_Identity a) =
     body_shape (cy_Description b) (cy_ClientName b) (cy_Scopes b) (cy_Identity b)" by (cases q) auto
  then have "opens (consentBody (cy_Description a) (cy_ClientName a) (cy_Scopes a) (cy_Identity a)) =
     opens (consentBody (cy_Description b) (cy_ClientName b) (cy_Scopes b) (cy_Identity b))" by (intro opens_consentBody)
  then show ?thesis
    unfolding PagePasskey q render.simps renderPasskeyPage_def Let_def
    by (intro opens_page) (simp_all only: opens_append opens_esc opens_Nil sh if_distrib [of opens] scripts_nonempty
        opens_scripts simp_thms split: if_split)
next
  case (PageApprove a)
  with assms obtain b where q: "q = PageApprove b" and
    "body_shape [] (ap_ClientName a) (ap_Scopes a) (ap_Identity a) = body_shape [] (ap_ClientName b) (ap_Scopes b) (ap_Identity b)"
    by (cases q) auto
  then have "opens (consentBody [] (ap_ClientName a) (ap_Scopes a) (ap_Identity a)) =
     opens (consentBody [] (ap_ClientName b) (ap_Scopes b) (ap_Identity b))" by (intro opens_consentBody)
  then show ?thesis
    unfolding PageApprove q render.simps renderApprovePage_def Let_def
    by (intro opens_page) (simp_all only: opens_append opens_esc scripts_nonempty opens_scripts simp_thms)
qed

definition ex_templates :: templates where
  "ex_templates = \<lparr>tp_styleCSS = ''body{}'', tp_ceremony = ''run();'', tp_approve = ''go();'', tp_marshal = \<lambda>_. ''null''\<rparr>"

theorem page_markup_fixed_witness:
  "opens (render ex_templates (PageError ''e'' ''<script>alert(1)</script>'')) = opens (render ex_templates (PageError ''e'' ''x''))"
  by (rule page_markup_fixed) simp

end
