(* ===== verification/Keyset.thy ===== *)
theory Keyset
  imports Base64 "HOL-Library.Char_ord" "HOL-Library.List_Lexorder" "HOL-Library.Product_Lexorder"
begin

text \<open>
  Keyset pagination, as \<open>src/internal/audit\<close> and \<open>src/internal/notify\<close> do it: a page holds the next rows below
  a cursor in descending order of (created_at, id), and the cursor of the next page is the key of its
  last row.

  A table is the list of its rows. SQLite compares text bytewise, which is the order of the library
  on strings, and a pair of columns lexicographically. \<open>encoding/json\<close> on a cursor struct is a pair of
  functions (\<open>json_codec\<close>); what the readers rely on, that a key survives the trip, is stated per key.
\<close>

section \<open>Cursors and pages\<close>

type_synonym row_key = "string \<times> string"

record json_codec =
  jc_marshal :: "row_key \<Rightarrow> byte list"
  jc_unmarshal :: "byte list \<Rightarrow> row_key option"

definition pageLimitDefault :: int where "pageLimitDefault = 50"

definition pageLimitMax :: int where "pageLimitMax = 500"

definition clampLimit :: "int \<Rightarrow> int" where
  "clampLimit n = (if n \<le> 0 then pageLimitDefault else if n > pageLimitMax then pageLimitMax else n)"

definition encodeCursor :: "json_codec \<Rightarrow> row_key \<Rightarrow> string" where
  "encodeCursor jc k = RawURL_Encode (jc_marshal jc k)"

definition decodeCursor :: "json_codec \<Rightarrow> string \<Rightarrow> row_key option" where
  "decodeCursor jc raw =
     (if raw = [] then None
      else case RawURL_Decode raw of
             None \<Rightarrow> None
           | Some data \<Rightarrow>
               (case jc_unmarshal jc data of
                  None \<Rightarrow> None
                | Some (createdAt, i) \<Rightarrow> if createdAt = [] \<or> i = [] then None else Some (createdAt, i)))"

text \<open>The condition a cursor adds to a query, and \<open>ORDER BY created_at DESC, id DESC\<close>.\<close>

definition below :: "row_key option \<Rightarrow> row_key \<Rightarrow> bool" where
  "below c k =
     (case c of None \<Rightarrow> True | Some (createdAt, i) \<Rightarrow> fst k < createdAt \<or> fst k = createdAt \<and> snd k < i)"

definition order_desc :: "('r \<Rightarrow> row_key) \<Rightarrow> 'r list \<Rightarrow> 'r list" where
  "order_desc key rows = rev (sort_key key rows)"

definition paginate :: "json_codec \<Rightarrow> ('r \<Rightarrow> row_key) \<Rightarrow> int \<Rightarrow> 'r list \<Rightarrow> 'r list \<times> string option" where
  "paginate jc key limit rows =
     (if int (length rows) \<le> limit then (rows, None)
      else let rows = take (nat limit) rows in (rows, Some (encodeCursor jc (key (last rows)))))"

lemma clampLimit_pos: "0 < clampLimit n" "clampLimit n \<le> 500"
  by (auto simp: clampLimit_def pageLimitDefault_def pageLimitMax_def)

lemma below_iff: "below c k \<longleftrightarrow> (case c of None \<Rightarrow> True | Some c \<Rightarrow> k < c)"
  by (auto simp: below_def less_prod_def split: option.splits)

lemma set_order_desc [simp]: "set (order_desc key rows) = set rows" "length (order_desc key rows) = length rows"
  by (simp_all add: order_desc_def)

lemma order_desc_strict:
  "distinct (map key rows) \<Longrightarrow> sorted_wrt (\<lambda>x y. key y < key x) (order_desc key rows)"
proof -
  assume d: "distinct (map key rows)"
  have "distinct (map key (sort_key key rows))"
    using d by (simp add: distinct_map distinct_sort)
  then have "sorted_wrt (<) (map key (sort_key key rows))"
    by (simp add: strict_sorted_iff)
  then show ?thesis by (simp add: order_desc_def sorted_wrt_rev sorted_wrt_map)
qed

lemma order_desc_unique:
  assumes "distinct (map key xs)" "set xs = set ys" "sorted_wrt (\<lambda>x y. key y < key x) ys"
  shows "order_desc key xs = ys"
proof -
  have ys: "sorted_wrt (<) (map key (rev ys))"
    using assms(3) by (simp add: sorted_wrt_map sorted_wrt_rev)
  moreover have "sorted_wrt (<) (map key (sort_key key xs))"
    using order_desc_strict [OF assms(1)] by (simp add: order_desc_def sorted_wrt_rev sorted_wrt_map)
  moreover have "set (map key (sort_key key xs)) = set (map key (rev ys))" using assms(2) by simp
  ultimately have "map key (sort_key key xs) = map key (rev ys)"
    using strict_sorted_equal by blast
  moreover have "inj_on key (set (sort_key key xs) \<union> set (rev ys))"
    using assms(1,2) by (simp add: distinct_map)
  ultimately have "sort_key key xs = rev ys" using map_inj_on by blast
  then show ?thesis by (simp add: order_desc_def)
qed

lemma decodeCursor_empty [simp]: "decodeCursor jc [] = None"
  by (simp add: decodeCursor_def)

text \<open>A key the codec keeps.\<close>

definition key_ok :: "json_codec \<Rightarrow> row_key \<Rightarrow> bool" where
  "key_ok jc k \<longleftrightarrow> fst k \<noteq> [] \<and> snd k \<noteq> [] \<and> jc_marshal jc k \<noteq> [] \<and> jc_unmarshal jc (jc_marshal jc k) = Some k"

lemma decode_encodeCursor: "key_ok jc k \<Longrightarrow> decodeCursor jc (encodeCursor jc k) = Some k"
proof -
  assume k: "key_ok jc k"
  have "encodeCursor jc k \<noteq> []"
  proof
    assume "encodeCursor jc k = []"
    then have "RawURL_Decode [] = Some (jc_marshal jc k)"
      using RawURL_roundtrip [of "jc_marshal jc k"] by (simp add: encodeCursor_def)
    moreover have "RawURL_Decode [] = Some []"
      using RawURL_roundtrip [of "[]"] by (simp add: RawURL_Encode_def enc_chars_def)
    ultimately show False using k by (simp add: key_ok_def)
  qed
  with k show ?thesis
    by (cases k) (simp add: decodeCursor_def encodeCursor_def RawURL_roundtrip key_ok_def)
qed

section \<open>What a reader promises\<close>

text \<open>
  \<open>walk_pages\<close> is a client that follows the cursors: one request per table it is given, which are the states
  of the log at those requests. It returns the rows it has seen and whether it reached the end.
\<close>

fun walk_pages :: "(string \<Rightarrow> 'a list \<Rightarrow> 'r list \<times> string option) \<Rightarrow> 'a list list \<Rightarrow> string \<Rightarrow> 'r list \<times> bool" where
  "walk_pages read [] cur = ([], False)"
| "walk_pages read (t # ts) cur =
     (case read cur t of
        (rows, None) \<Rightarrow> (rows, True)
      | (rows, Some c) \<Rightarrow> (case walk_pages read ts c of (later, fin) \<Rightarrow> (rows @ later, fin)))"

text \<open>The log at a request: keys are unique and survive the codec.\<close>

definition log_ok :: "json_codec \<Rightarrow> ('r \<Rightarrow> row_key) \<Rightarrow> 'r list \<Rightarrow> bool" where
  "log_ok jc key t \<longleftrightarrow> distinct (map key t) \<and> (\<forall>r\<in>set t. key_ok jc (key r))"

text \<open>
  Exact paging, for a log whose rows are shown as \<open>view\<close> says. A quiet log is read completely, in order, within the number of requests its size
  calls for. While rows are being added, no row comes twice, rows come newest first and only rows
  asked for, and a row that is there throughout is not missed once the end is reached.
\<close>

definition pages_exact ::
  "json_codec \<Rightarrow> ('r \<Rightarrow> row_key) \<Rightarrow> ('r \<Rightarrow> bool) \<Rightarrow> int \<Rightarrow> ('a \<Rightarrow> 'r) \<Rightarrow> (string \<Rightarrow> 'a list \<Rightarrow> 'r list \<times> string option) \<Rightarrow> bool"
where
  "pages_exact jc key P limit view read \<longleftrightarrow>
     (\<forall>t n. log_ok jc key (map view t) \<longrightarrow> 0 < n \<longrightarrow> int (length (filter P (map view t))) \<le> int n * clampLimit limit \<longrightarrow>
        walk_pages read (replicate n t) [] = (order_desc key (filter P (map view t)), True))
     \<and> (\<forall>ts rows fin. (\<forall>t\<in>set ts. log_ok jc key (map view t)) \<longrightarrow> walk_pages read ts [] = (rows, fin) \<longrightarrow>
        sorted_wrt (\<lambda>x y. key y < key x) rows \<and> (\<forall>r\<in>set rows. P r)
        \<and> (fin \<longrightarrow> (\<forall>r. P r \<longrightarrow> (\<forall>t\<in>set ts. r \<in> view ` set t) \<longrightarrow> r \<in> set rows)))"

definition rows_below :: "('r \<Rightarrow> row_key) \<Rightarrow> ('r \<Rightarrow> bool) \<Rightarrow> row_key option \<Rightarrow> 'r list \<Rightarrow> 'r list" where
  "rows_below key P c t = order_desc key (filter (\<lambda>r. P r \<and> below c (key r)) t)"

lemma rows_below_facts:
  "set (rows_below key P c t) = {r \<in> set t. P r \<and> below c (key r)}"
  "log_ok jc key t \<Longrightarrow> sorted_wrt (\<lambda>x y. key y < key x) (rows_below key P c t)"
  unfolding rows_below_def log_ok_def
  by (auto intro!: order_desc_strict simp: distinct_map inj_on_def)

text \<open>
  The pages of a log: a page is the first rows below the cursor, and the next cursor is there when
  rows are left and names the last row shown.
\<close>

locale keyset_pages =
  fixes jc :: json_codec and key :: "'r \<Rightarrow> row_key" and P :: "'r \<Rightarrow> bool" and limit :: int
    and read :: "string \<Rightarrow> 'r list \<Rightarrow> 'r list \<times> string option"
  assumes read_page: "read cur t = paginate jc key (clampLimit limit)
      (take (nat (clampLimit limit + 1)) (rows_below key P (decodeCursor jc cur) t))"
begin

abbreviation page_size :: nat where "page_size \<equiv> nat (clampLimit limit)"

abbreviation pending :: "string \<Rightarrow> 'r list \<Rightarrow> 'r list" where
  "pending cur t \<equiv> rows_below key P (decodeCursor jc cur) t"

lemma read_last: "length (pending cur t) \<le> page_size \<Longrightarrow> read cur t = (pending cur t, None)"
  using clampLimit_pos [of limit] by (simp add: read_page paginate_def)

lemma read_more:
  assumes "page_size < length (pending cur t)"
  shows "read cur t = (take page_size (pending cur t), Some (encodeCursor jc (key (pending cur t ! (page_size - 1)))))"
proof -
  have "last (take page_size (pending cur t)) = pending cur t ! (page_size - 1)"
  proof (subst last_conv_nth)
    show "take page_size (pending cur t) \<noteq> []" using assms clampLimit_pos(1) [of limit] by (cases "pending cur t") auto
    show "take page_size (pending cur t) ! (length (take page_size (pending cur t)) - 1) = pending cur t ! (page_size - 1)"
      using assms clampLimit_pos(1) [of limit] by simp
  qed
  with assms clampLimit_pos [of limit] show ?thesis
    by (auto simp: read_page paginate_def Let_def min_def nat_add_distrib)
qed

text \<open>What is left after a full page is what the next cursor asks for.\<close>

lemma pending_next:
  assumes t: "log_ok jc key t" and more: "page_size < length (pending cur t)"
    and c: "c = encodeCursor jc (key (pending cur t ! (page_size - 1)))"
  shows "decodeCursor jc c = Some (key (pending cur t ! (page_size - 1)))"
    and "pending c t = drop page_size (pending cur t)"
proof -
  let ?rb = "pending cur t" and ?p = "page_size - 1"
  have p: "?p < length ?rb" "Suc ?p = page_size" using more clampLimit_pos [of limit] by auto
  then have "?rb ! ?p \<in> set t" using nth_mem [OF p(1)] by (simp only: rows_below_facts(1) mem_Collect_eq)
  then have dec: "decodeCursor jc c = Some (key (?rb ! ?p))"
    using t unfolding c by (intro decode_encodeCursor) (simp add: log_ok_def)
  then show "decodeCursor jc c = Some (key (?rb ! ?p))" .
  have strict: "sorted_wrt (\<lambda>x y. key y < key x) ?rb" by (rule rows_below_facts(2) [OF t])
  have split: "?rb = take ?p ?rb @ ?rb ! ?p # drop page_size ?rb"
    using p by (metis id_take_nth_drop)
  have ord: "\<forall>x\<in>set (take ?p ?rb). key (?rb ! ?p) < key x" "\<forall>y\<in>set (drop page_size ?rb). key y < key (?rb ! ?p)"
    using strict by (subst (asm) split, simp add: sorted_wrt_append)+
  have "set ?rb = set (take ?p ?rb) \<union> {?rb ! ?p} \<union> set (drop page_size ?rb)"
    by (subst split) auto
  with ord have bel: "r \<in> set (drop page_size ?rb) \<longleftrightarrow> r \<in> set ?rb \<and> key r < key (?rb ! ?p)" for r
    by (auto dest: order_less_asym)
  have lower: "below (decodeCursor jc cur) (key r)" if "r \<in> set t" "P r" "key r < key (?rb ! ?p)" for r
    using that p rows_below_facts(1) [of key P "decodeCursor jc cur" t] nth_mem [OF p(1)]
    by (auto simp: below_iff split: option.splits)
  show "pending c t = drop page_size ?rb"
    unfolding rows_below_def [of key P "decodeCursor jc c"]
  proof (rule order_desc_unique)
    show "distinct (map key (filter (\<lambda>r. P r \<and> below (decodeCursor jc c) (key r)) t))"
      using t by (auto simp: log_ok_def distinct_map inj_on_def)
    show "set (filter (\<lambda>r. P r \<and> below (decodeCursor jc c) (key r)) t) = set (drop page_size ?rb)"
      using lower by (auto simp: bel rows_below_facts(1) dec below_iff)
    show "sorted_wrt (\<lambda>x y. key y < key x) (drop page_size ?rb)" using strict by (rule sorted_wrt_drop)
  qed
qed

lemma walk_quiet:
  assumes "log_ok jc key t" "length (pending cur t) \<le> Suc n * page_size"
  shows "walk_pages read (replicate (Suc n) t) cur = (pending cur t, True)"
  using assms(2)
proof (induction n arbitrary: cur)
  case 0
  then show ?case by (simp add: read_last)
next
  case (Suc n)
  show ?case
  proof (cases "length (pending cur t) \<le> page_size")
    case False
    let ?c = "encodeCursor jc (key (pending cur t ! (page_size - 1)))"
    from False have more: "page_size < length (pending cur t)" by simp
    note nxt = pending_next(2) [OF assms(1) more refl]
    have "length (pending ?c t) \<le> Suc n * page_size" unfolding nxt using Suc.prems by simp
    from Suc.IH [OF this] show ?thesis unfolding nxt by (simp add: read_more [OF more])
  qed (simp add: read_last)
qed

lemma page_rows:
  assumes t: "log_ok jc key t" and more: "page_size < length (pending cur t)"
  defines "k \<equiv> key (pending cur t ! (page_size - 1))"
  shows "\<And>r. r \<in> set (take page_size (pending cur t)) \<Longrightarrow> k \<le> key r"
    and "\<And>r. r \<in> set (drop page_size (pending cur t)) \<Longrightarrow> below (Some k) (key r)"
    and "\<And>r. below (Some k) (key r) \<Longrightarrow> below (decodeCursor jc cur) (key r)"
proof -
  let ?rb = "pending cur t"
  have p: "page_size - 1 < page_size" using clampLimit_pos(1) [of limit] by simp
  show "k \<le> key r" if mem: "r \<in> set (take page_size ?rb)" for r
  proof -
    obtain i where i: "i < page_size" "r = ?rb ! i" using mem more by (auto simp: in_set_conv_nth)
    then have "i = page_size - 1 \<or> i < page_size - 1" by linarith
    moreover have "k < key (?rb ! i)" if "i < page_size - 1"
      using rows_below_facts(2) [OF t] that more p by (simp add: k_def sorted_wrt_iff_nth_less)
    ultimately show ?thesis using i(2) by (auto simp: k_def)
  qed
  show "below (Some k) (key r)" if "r \<in> set (drop page_size ?rb)" for r
    using that unfolding k_def pending_next(2) [OF t more refl, symmetric] rows_below_facts(1)
      pending_next(1) [OF t more refl] by simp
  show "below (decodeCursor jc cur) (key r)" if "below (Some k) (key r)" for r
  proof -
    have "?rb ! (page_size - 1) \<in> set ?rb" using more p by (intro nth_mem) linarith
    then have "below (decodeCursor jc cur) k" unfolding rows_below_facts(1) k_def by simp
    with that show ?thesis by (auto simp: below_iff split: option.splits)
  qed
qed

lemma walk_growing:
  assumes "\<forall>t\<in>set ts. log_ok jc key t" "walk_pages read ts cur = (rows, fin)"
  shows "sorted_wrt (\<lambda>x y. key y < key x) rows \<and> (\<forall>r\<in>set rows. P r \<and> below (decodeCursor jc cur) (key r))
    \<and> (fin \<longrightarrow> (\<forall>r. P r \<longrightarrow> below (decodeCursor jc cur) (key r) \<longrightarrow> (\<forall>t\<in>set ts. r \<in> set t) \<longrightarrow> r \<in> set rows))"
  using assms
proof (induction ts arbitrary: cur rows)
  case (Cons t ts)
  then have t: "log_ok jc key t" by simp
  note strict = rows_below_facts(2) [OF t, of P "decodeCursor jc cur"]
  note mem = rows_below_facts(1) [of key P "decodeCursor jc cur" t]
  show ?case
  proof (cases "length (pending cur t) \<le> page_size")
    case True
    with Cons.prems(2) have "rows = pending cur t" by (simp add: read_last)
    with strict mem show ?thesis by auto
  next
    case False
    then have more: "page_size < length (pending cur t)" by simp
    let ?k = "key (pending cur t ! (page_size - 1))" and ?rb = "pending cur t"
    obtain later where w: "walk_pages read ts (encodeCursor jc ?k) = (later, fin)" "rows = take page_size ?rb @ later"
      using Cons.prems(2) by (auto simp: read_more [OF more] split: prod.splits)
    have IH: "sorted_wrt (\<lambda>x y. key y < key x) later \<and> (\<forall>r\<in>set later. P r \<and> below (Some ?k) (key r))
        \<and> (fin \<longrightarrow> (\<forall>r. P r \<longrightarrow> below (Some ?k) (key r) \<longrightarrow> (\<forall>t\<in>set ts. r \<in> set t) \<longrightarrow> r \<in> set later))"
      using Cons.IH [OF _ w(1)] Cons.prems(1) unfolding pending_next(1) [OF t more refl] by simp
    note page = page_rows [OF t more]
    have parts: "set ?rb = set (take page_size ?rb) \<union> set (drop page_size ?rb)"
      by (metis append_take_drop_id set_append)
    have "sorted_wrt (\<lambda>x y. key y < key x) rows"
      unfolding w(2) sorted_wrt_append
      using IH page(1) sorted_wrt_take [OF strict] by (force simp: below_iff)
    moreover have "P r \<and> below (decodeCursor jc cur) (key r)" if "r \<in> set rows" for r
      using that IH page(3) mem parts unfolding w(2) by auto
    moreover have "r \<in> set rows" if "fin" "P r" "below (decodeCursor jc cur) (key r)" "\<forall>u\<in>set (t # ts). r \<in> set u" for r
    proof -
      have "r \<in> set ?rb" unfolding mem using that by simp
      then show ?thesis using parts IH page(2) that unfolding w(2) by auto
    qed
    ultimately show ?thesis by blast
  qed
qed simp

end

text \<open>
  The interface of a reader: it answers the page of its table, each row as \<open>view\<close> shows it. What its
  client relies on follows from the pages alone.
\<close>

definition page_of ::
  "json_codec \<Rightarrow> ('r \<Rightarrow> row_key) \<Rightarrow> ('r \<Rightarrow> bool) \<Rightarrow> int \<Rightarrow> string \<Rightarrow> 'r list \<Rightarrow> 'r list \<times> string option"
where
  "page_of jc key P limit cur t = paginate jc key (clampLimit limit)
     (take (nat (clampLimit limit + 1)) (rows_below key P (decodeCursor jc cur) t))"

locale keyset_reader =
  fixes jc :: json_codec and key :: "'r \<Rightarrow> row_key" and P :: "'r \<Rightarrow> bool" and limit :: int and view :: "'a \<Rightarrow> 'r"
    and reader :: "string \<Rightarrow> 'a list \<Rightarrow> 'r list \<times> string option"
  assumes reader_page: "reader cur t = page_of jc key P limit cur (map view t)"

sublocale keyset_reader \<subseteq> pages: keyset_pages jc key P limit "page_of jc key P limit"
  by unfold_locales (simp add: page_of_def)

context keyset_reader
begin

lemma walk_view: "walk_pages reader ts cur = walk_pages (page_of jc key P limit) (map (map view) ts) cur"
  by (induction ts arbitrary: cur) (simp_all add: reader_page split: prod.splits option.splits)

lemma exact: "pages_exact jc key P limit view reader"
  unfolding pages_exact_def walk_view
proof (intro conjI allI impI, goal_cases)
  case (1 t n)
  have all: "rows_below key P (decodeCursor jc []) (map view t) = order_desc key (filter P (map view t))"
    by (simp add: rows_below_def below_def)
  obtain m where m: "n = Suc m" using 1(2) gr0_implies_Suc by blast
  have "length (rows_below key P (decodeCursor jc []) (map view t)) \<le> Suc m * nat (clampLimit limit)"
    using 1(3) clampLimit_pos(1) [of limit] unfolding all m set_order_desc
    by (metis nat_int nat_mono nat_mult_distrib of_nat_0_le_iff)
  from pages.walk_quiet [OF 1(1) this] show ?case unfolding all m map_replicate .
next
  case (2 ts rows fin)
  with pages.walk_growing [of "map (map view) ts" "[]" rows fin] show ?case by simp
next
  case (3 ts rows fin)
  with pages.walk_growing [of "map (map view) ts" "[]" rows fin] show ?case by simp
next
  case (4 ts rows fin)
  with pages.walk_growing [of "map (map view) ts" "[]" rows fin] show ?case by (simp add: below_def)
qed

end

lemma order_desc_map:
  assumes "\<And>r. key (view r) = key' r"
  shows "order_desc key (map view rows) = map view (order_desc key' rows)"
proof -
  have ins: "insort_key key (view x) (map view ys) = map view (insort_key key' x ys)" for x ys
    by (induction ys) (simp_all add: assms)
  have "sort_key key (map view rows) = map view (sort_key key' rows)"
    by (induction rows) (simp_all add: ins)
  then show ?thesis by (simp add: order_desc_def rev_map)
qed

end
