(* ===== verification/Audit_Log.thy ===== *)
theory Audit_Log
  imports Keyset Ws_Hub
begin

text \<open>
  \<open>src/internal/audit/writer.go\<close>, \<open>sessions.go\<close> and \<open>signings.go\<close>: the log of session lifecycles and signing requests.

  A table is the list of its rows in the order of their insertion; an insert fails on a driver fault
  (\<open>flt\<close>), a primary key that is taken, an account that is not in \<open>accs\<close>, or a failed check, and the writer
  then only logs. \<open>fmt\<close> formats an instant. The writers run when the session registry and the approval
  store call their subscribers; the events are those of \<open>Terminal_Manager\<close> and \<open>Approval_Store\<close>.
\<close>

section \<open>Rows\<close>

record session_row =
  slr_SessionID :: string
  slr_AccountID :: string
  slr_EndpointID :: string
  slr_Source :: string
  slr_Status :: string
  slr_CreatedAt :: string
  slr_ClosedAt :: "string option"
  slr_DurationMs :: "int option"
  slr_SourceIP :: "string option"
  slr_MCPReason :: "string option"
  slr_MCPClientName :: "string option"
  slr_MCPClientVersion :: "string option"
  slr_ClientHostname :: "string option"
  slr_ClientOS :: "string option"
  slr_ClientVersion :: "string option"
  slr_CloseReason :: "string option"

text \<open>The column \<open>host_key_pinned\<close> is an integer in the table and a boolean on the wire.\<close>

record 'p signing_row =
  gr_ID :: string
  gr_AccountID :: string
  gr_Type :: string
  gr_Source :: string
  gr_CreatedAt :: string
  gr_ResolvedAt :: "string option"
  gr_Outcome :: "string option"
  gr_LatencyMs :: "int option"
  gr_SourceIP :: "string option"
  gr_EndpointLabel :: "string option"
  gr_EndpointAddress :: "string option"
  gr_SessionID :: "string option"
  gr_MCPReason :: "string option"
  gr_MCPClientName :: "string option"
  gr_MCPClientVersion :: "string option"
  gr_ClientHostname :: "string option"
  gr_ClientOS :: "string option"
  gr_ClientVersion :: "string option"
  gr_CredentialID :: "string option"
  gr_PasskeyLabel :: "string option"
  gr_UserVerification :: "string option"
  gr_KeyLabel :: "string option"
  gr_KeyFingerprint :: "string option"
  gr_CancelReason :: "string option"
  gr_EndpointID :: "string option"
  gr_HostKeyFingerprint :: "string option"
  gr_HostKeyPriorFingerprint :: "string option"
  gr_HostKeyPinned :: "'p option"

record audit_db =
  ad_sessions :: "session_row list"
  ad_signings :: "int signing_row list"

text \<open>\<open>time.Duration.Milliseconds\<close>: division toward zero.\<close>

definition Milliseconds :: "duration \<Rightarrow> int" where
  "Milliseconds d = (if d < 0 then - ((- d) div Millisecond) else d div Millisecond)"

section \<open>The session log\<close>

definition session_check :: "session_row \<Rightarrow> bool" where
  "session_check r \<longleftrightarrow> slr_Status r \<in> {''open'', ''closed'', ''error''} \<and> slr_Source r \<in> {''ui'', ''mcp'', ''ssh''}"

definition open_row :: "(time \<Rightarrow> string) \<Rightarrow> session \<Rightarrow> session_row" where
  "open_row fmt s =
     \<lparr>slr_SessionID = s_SessionID s, slr_AccountID = s_AccountID s, slr_EndpointID = s_EndpointID s,
      slr_Source = source_str (s_Source s), slr_Status = ''open'', slr_CreatedAt = fmt (s_CreatedAt s),
      slr_ClosedAt = None, slr_DurationMs = None, slr_SourceIP = nz (s_SourceIP s), slr_MCPReason = nz (s_MCPReason s),
      slr_MCPClientName = nz (s_MCPClientName s), slr_MCPClientVersion = nz (s_MCPClientVer s),
      slr_ClientHostname = None, slr_ClientOS = None, slr_ClientVersion = None, slr_CloseReason = None\<rparr>"

definition insertOpen :: "(time \<Rightarrow> string) \<Rightarrow> bool \<Rightarrow> string list \<Rightarrow> session \<Rightarrow> audit_db \<Rightarrow> audit_db" where
  "insertOpen fmt flt accs s db =
     (let r = open_row fmt s in
      if flt \<or> slr_SessionID r \<in> set (map slr_SessionID (ad_sessions db)) \<or> slr_AccountID r \<notin> set accs \<or> \<not> session_check r
      then db else db\<lparr>ad_sessions := ad_sessions db @ [r]\<rparr>)"

definition close_row :: "(time \<Rightarrow> string) \<Rightarrow> time \<Rightarrow> status_event \<Rightarrow> session_row \<Rightarrow> session_row" where
  "close_row fmt now e r =
     r\<lparr>slr_Status := sess_status_str (ev_Status e), slr_ClosedAt := Some (fmt now),
       slr_DurationMs := Some (Milliseconds (now - ev_CreatedAt e)), slr_CloseReason := nz (reason_str (ev_Reason e))\<rparr>"

definition recordClose :: "(time \<Rightarrow> string) \<Rightarrow> bool \<Rightarrow> time \<Rightarrow> status_event \<Rightarrow> audit_db \<Rightarrow> audit_db" where
  "recordClose fmt flt now e db =
     (if flt then db
      else db\<lparr>ad_sessions := map (\<lambda>r. if slr_SessionID r = ev_SessionID e \<and> slr_ClosedAt r = None then close_row fmt now e r else r)
                               (ad_sessions db)\<rparr>)"

text \<open>\<open>snapshot\<close> is what \<open>GetSession\<close> answers when the subscriber asks.\<close>

definition handleSessionStatus ::
  "(time \<Rightarrow> string) \<Rightarrow> bool \<Rightarrow> string list \<Rightarrow> time \<Rightarrow> session option \<Rightarrow> status_event \<Rightarrow> audit_db \<Rightarrow> audit_db"
where
  "handleSessionStatus fmt flt accs now snapshot e db =
     (case ev_Status e of
        StatusOpen \<Rightarrow>
          if ev_Previous e \<noteq> StatusOpening then db
          else (case snapshot of None \<Rightarrow> db | Some s \<Rightarrow> insertOpen fmt flt accs s db)
      | StatusClosing \<Rightarrow>
          if ev_Previous e \<noteq> StatusOpening then db
          else (case snapshot of None \<Rightarrow> db | Some s \<Rightarrow> insertOpen fmt flt accs s db)
      | StatusClosed \<Rightarrow> recordClose fmt flt now e db
      | StatusError \<Rightarrow> recordClose fmt flt now e db
      | StatusOpening \<Rightarrow> db)"

section \<open>The signing log\<close>

definition signing_check :: "'p signing_row \<Rightarrow> bool" where
  "signing_check r \<longleftrightarrow>
     gr_Type r \<in> {''webauthn-sign'', ''key-approve'', ''host-key-mismatch'', ''host-key-cleared''}
     \<and> gr_Source r \<in> {''endpoint-auth'', ''agent-forwarding'', ''agent-proxy'', ''endpoint-admin''}
     \<and> gr_Outcome r \<in> {None, Some ''approved'', Some ''denied'', Some ''expired'', Some ''cancelled''}"

definition insert_signing_row :: "bool \<Rightarrow> string list \<Rightarrow> int signing_row \<Rightarrow> audit_db \<Rightarrow> bool \<times> audit_db" where
  "insert_signing_row flt accs r db =
     (if flt \<or> gr_ID r \<in> set (map gr_ID (ad_signings db)) \<or> gr_AccountID r \<notin> set accs \<or> \<not> signing_check r
      then (False, db) else (True, db\<lparr>ad_signings := ad_signings db @ [r]\<rparr>))"

definition outcome_str :: "act_outcome \<Rightarrow> string" where
  "outcome_str x = (case x of OutcomeApproved \<Rightarrow> ''approved'' | OutcomeDenied \<Rightarrow> ''denied''
     | OutcomeExpired \<Rightarrow> ''expired'' | OutcomeCancelled \<Rightarrow> ''cancelled'')"

definition signing_row_of :: "(time \<Rightarrow> string) \<Rightarrow> action \<Rightarrow> int signing_row" where
  "signing_row_of fmt a =
     (let c = a_Context a; hostKeyFp = (case cx_HostKey c of None \<Rightarrow> [] | Some k \<Rightarrow> hk_Fingerprint k) in
      \<lparr>gr_ID = a_ID a, gr_AccountID = a_AccountID a, gr_Type = type_str (a_Type a), gr_Source = cx_Source c,
       gr_CreatedAt = fmt (a_CreatedAt a), gr_ResolvedAt = None, gr_Outcome = None, gr_LatencyMs = None,
       gr_SourceIP = nz (cx_SourceIP c), gr_EndpointLabel = nz (cx_EndpointLabel c),
       gr_EndpointAddress = nz (cx_EndpointAddress c), gr_SessionID = nz (cx_SessionID c),
       gr_MCPReason = nz (cx_MCPReason c), gr_MCPClientName = nz (cx_MCPClientName c),
       gr_MCPClientVersion = nz (cx_MCPClientVer c), gr_ClientHostname = nz (cx_ClientHostname c),
       gr_ClientOS = nz (cx_ClientOS c), gr_ClientVersion = nz (cx_ClientVersion c),
       gr_CredentialID = nz (a_CredentialID a), gr_PasskeyLabel = nz (a_PasskeyLabel a),
       gr_UserVerification = nz (a_UserVerification a), gr_KeyLabel = nz (a_KeyLabel a),
       gr_KeyFingerprint = nz (a_KeyFingerprint a), gr_CancelReason = None, gr_EndpointID = None,
       gr_HostKeyFingerprint = nz hostKeyFp, gr_HostKeyPriorFingerprint = None, gr_HostKeyPinned = None\<rparr>)"

definition insertSigning :: "(time \<Rightarrow> string) \<Rightarrow> bool \<Rightarrow> string list \<Rightarrow> action \<Rightarrow> audit_db \<Rightarrow> audit_db" where
  "insertSigning fmt flt accs a db = snd (insert_signing_row flt accs (signing_row_of fmt a) db)"

definition update_signings :: "bool \<Rightarrow> (int signing_row \<Rightarrow> bool) \<Rightarrow> (int signing_row \<Rightarrow> int signing_row) \<Rightarrow> audit_db \<Rightarrow> audit_db" where
  "update_signings flt P f db =
     (if flt then db else db\<lparr>ad_signings := map (\<lambda>r. if P r then f r else r) (ad_signings db)\<rparr>)"

definition recordResolution :: "(time \<Rightarrow> string) \<Rightarrow> bool \<Rightarrow> resolved_event \<Rightarrow> audit_db \<Rightarrow> audit_db" where
  "recordResolution fmt flt ev db =
     (let a = re_Action ev in
      update_signings flt (\<lambda>r. gr_ID r = a_ID a \<and> gr_ResolvedAt r = None)
        (\<lambda>r. r\<lparr>gr_ResolvedAt := Some (fmt (re_ResolvedAt ev)), gr_Outcome := Some (outcome_str (re_Outcome ev)),
               gr_LatencyMs := Some (Milliseconds (re_ResolvedAt ev - a_CreatedAt a)), gr_CancelReason := nz (re_CancelReason ev)\<rparr>) db)"

definition MarkHostKeyPinned :: "bool \<Rightarrow> string \<Rightarrow> audit_db \<Rightarrow> audit_db" where
  "MarkHostKeyPinned flt actionID db =
     (if actionID = [] then db
      else update_signings flt (\<lambda>r. gr_ID r = actionID) (\<lambda>r. r\<lparr>gr_HostKeyPinned := Some 1\<rparr>) db)"

definition RecordHostKeyEvent ::
  "(time \<Rightarrow> string) \<Rightarrow> bool \<Rightarrow> string list \<Rightarrow> time \<Rightarrow> string \<Rightarrow> host_key_event \<Rightarrow> audit_db \<Rightarrow> string \<times> audit_db"
where
  "RecordHostKeyEvent fmt flt accs now newID ev db =
     (let ts = fmt now in
      case insert_signing_row flt accs
        \<lparr>gr_ID = newID, gr_AccountID = he_AccountID ev, gr_Type = he_Type ev, gr_Source = he_Source ev,
         gr_CreatedAt = ts, gr_ResolvedAt = Some ts,
         gr_Outcome = (if he_Type ev = ''host-key-mismatch'' then Some ''denied'' else None), gr_LatencyMs = Some 0,
         gr_SourceIP = nz (he_SourceIP ev), gr_EndpointLabel = nz (he_EndpointLabel ev),
         gr_EndpointAddress = nz (he_EndpointAddress ev), gr_SessionID = None, gr_MCPReason = nz (he_MCPReason ev),
         gr_MCPClientName = nz (he_MCPClientName ev), gr_MCPClientVersion = nz (he_MCPClientVersion ev),
         gr_ClientHostname = None, gr_ClientOS = None, gr_ClientVersion = None, gr_CredentialID = None,
         gr_PasskeyLabel = None, gr_UserVerification = None, gr_KeyLabel = None, gr_KeyFingerprint = None,
         gr_CancelReason = nz (he_Reason ev), gr_EndpointID = nz (he_EndpointID ev),
         gr_HostKeyFingerprint = nz (he_Fingerprint ev), gr_HostKeyPriorFingerprint = nz (he_PriorFingerprint ev),
         gr_HostKeyPinned = None\<rparr> db of
        (ok, db) \<Rightarrow> (if ok then newID else [], db))"

section \<open>Readers\<close>

record session_filters =
  sf_EndpointID :: string
  sf_From :: string
  sf_To :: string

definition session_key :: "session_row \<Rightarrow> row_key" where
  "session_key r = (slr_CreatedAt r, slr_SessionID r)"

definition session_conds :: "string \<Rightarrow> session_filters \<Rightarrow> session_row \<Rightarrow> bool" where
  "session_conds acct f r \<longleftrightarrow> slr_AccountID r = acct
     \<and> (sf_EndpointID f \<noteq> [] \<longrightarrow> slr_EndpointID r = sf_EndpointID f)
     \<and> (sf_From f \<noteq> [] \<longrightarrow> slr_CreatedAt r \<ge> sf_From f) \<and> (sf_To f \<noteq> [] \<longrightarrow> slr_CreatedAt r \<le> sf_To f)"

definition Sessions_List ::
  "json_codec \<Rightarrow> string \<Rightarrow> session_filters \<Rightarrow> string \<Rightarrow> int \<Rightarrow> session_row list \<Rightarrow> session_row list \<times> string option"
where
  "Sessions_List jc acct f cursorStr limit table =
     (let limit = clampLimit limit; c = decodeCursor jc cursorStr in
      paginate jc session_key limit (take (nat (limit + 1))
        (order_desc session_key (filter (\<lambda>r. session_conds acct f r \<and> below c (session_key r)) table))))"

record signing_filters =
  gf_Source :: string
  gf_Outcome :: string
  gf_From :: string
  gf_To :: string

definition signing_key :: "'p signing_row \<Rightarrow> row_key" where
  "signing_key r = (gr_CreatedAt r, gr_ID r)"

definition signing_conds :: "string \<Rightarrow> signing_filters \<Rightarrow> 'p signing_row \<Rightarrow> bool" where
  "signing_conds acct f r \<longleftrightarrow> gr_AccountID r = acct
     \<and> (gf_Source f \<noteq> [] \<longrightarrow> gr_Source r = gf_Source f) \<and> (gf_Outcome f \<noteq> [] \<longrightarrow> gr_Outcome r = Some (gf_Outcome f))
     \<and> (gf_From f \<noteq> [] \<longrightarrow> gr_CreatedAt r \<ge> gf_From f) \<and> (gf_To f \<noteq> [] \<longrightarrow> gr_CreatedAt r \<le> gf_To f)"

definition scanSigning :: "int signing_row \<Rightarrow> bool signing_row" where
  "scanSigning r =
     \<lparr>gr_ID = gr_ID r, gr_AccountID = gr_AccountID r, gr_Type = gr_Type r, gr_Source = gr_Source r,
      gr_CreatedAt = gr_CreatedAt r, gr_ResolvedAt = gr_ResolvedAt r, gr_Outcome = gr_Outcome r, gr_LatencyMs = gr_LatencyMs r,
      gr_SourceIP = gr_SourceIP r, gr_EndpointLabel = gr_EndpointLabel r, gr_EndpointAddress = gr_EndpointAddress r,
      gr_SessionID = gr_SessionID r, gr_MCPReason = gr_MCPReason r, gr_MCPClientName = gr_MCPClientName r,
      gr_MCPClientVersion = gr_MCPClientVersion r, gr_ClientHostname = gr_ClientHostname r, gr_ClientOS = gr_ClientOS r,
      gr_ClientVersion = gr_ClientVersion r, gr_CredentialID = gr_CredentialID r, gr_PasskeyLabel = gr_PasskeyLabel r,
      gr_UserVerification = gr_UserVerification r, gr_KeyLabel = gr_KeyLabel r, gr_KeyFingerprint = gr_KeyFingerprint r,
      gr_CancelReason = gr_CancelReason r, gr_EndpointID = gr_EndpointID r, gr_HostKeyFingerprint = gr_HostKeyFingerprint r,
      gr_HostKeyPriorFingerprint = gr_HostKeyPriorFingerprint r,
      gr_HostKeyPinned = map_option (\<lambda>n. n \<noteq> 0) (gr_HostKeyPinned r)\<rparr>"

definition Signings_List ::
  "json_codec \<Rightarrow> string \<Rightarrow> signing_filters \<Rightarrow> string \<Rightarrow> int \<Rightarrow> int signing_row list \<Rightarrow> bool signing_row list \<times> string option"
where
  "Signings_List jc acct f cursorStr limit table =
     (let limit = clampLimit limit; c = decodeCursor jc cursorStr in
      paginate jc signing_key limit (map scanSigning (take (nat (limit + 1))
        (order_desc signing_key (filter (\<lambda>r. signing_conds acct f r \<and> below c (signing_key r)) table)))))"

definition Signings_GetByID :: "string \<Rightarrow> string \<Rightarrow> int signing_row list \<Rightarrow> bool signing_row option" where
  "Signings_GetByID acct i table =
     map_option scanSigning (find (\<lambda>r. gr_AccountID r = acct \<and> gr_ID r = i) table)"

end
