(* ===== verification/Audit_Properties.thy ===== *)
theory Audit_Properties
  imports Audit_Log
begin

text \<open>
  What the audit writers promise: the log of a session follows its lifecycle, and history is never
  rewritten. The lifecycle is that of \<open>Terminal_Lifecycle\<close>, over every interleaving of the registry.
\<close>

section \<open>Status events name their session\<close>

definition named_events :: "manager \<Rightarrow> bool" where
  "named_events m \<longleftrightarrow> (\<forall>b subs ev. StatusHook b subs ev \<in> set (m_trace m) \<longrightarrow>
     b < length (m_heap m) \<and> ev_SessionID ev = s_SessionID (sess m b) \<and> ev_CreatedAt ev = s_CreatedAt (sess m b))"

definition new_named :: "manager \<Rightarrow> manager \<Rightarrow> bool" where
  "new_named m m' \<longleftrightarrow> (\<forall>b subs ev. StatusHook b subs ev \<in> set (m_trace m') \<longrightarrow> StatusHook b subs ev \<in> set (m_trace m) \<or>
     b < length (m_heap m) \<and> ev_SessionID ev = s_SessionID (sess m b) \<and> ev_CreatedAt ev = s_CreatedAt (sess m b))"

lemma new_named_same: "set (m_trace m') \<subseteq> set (m_trace m) \<union> {e. \<forall>b subs ev. e \<noteq> StatusHook b subs ev} \<Longrightarrow> new_named m m'"
  by (auto simp: new_named_def)

lemma transport_call_not_status: "\<forall>e\<in>set es. transport_call e \<Longrightarrow> StatusHook b subs ev \<notin> set es"
  by force

lemma new_named_transition: "a < length (m_heap m) \<Longrightarrow> new_named m (transition a st r m)"
  by (auto simp: new_named_def transition_def Let_def emit_def upd_def)

lemma new_named_status:
  "a < length (m_heap m) \<Longrightarrow> new_named m (setStatus a st r m)" "a < length (m_heap m) \<Longrightarrow> new_named m (snd (beginClosing a r m))"
  by (simp_all add: setStatus_def beginClosing_def Let_def new_named_transition) (simp_all add: new_named_same)

lemma new_named_step: "mgr_step m m' \<Longrightarrow> new_named m m'"
proof (induction rule: mgr_step.induct)
  case (purge m acc)
  have "m_trace (fold (\<lambda>e. upd (snd e) f) es m) = m_trace m" for es f and m :: manager
    by (induction es arbitrary: m) (simp_all add: upd_def)
  then show ?case by (intro new_named_same) (auto simp: RemoveForAccount_def Let_def emit_def)
next
  case (transport_io es m)
  then show ?case by (auto simp: new_named_def emit_def dest: transport_call_not_status)
qed (auto simp: new_named_status, (auto intro!: new_named_same simp: Let_def register_def adopt_def
    pump_data_def pump_exit_def touch_def removeEntry_def upd_def emit_def mark_destroyed_def SetIdleTimeout_def
    SubscribeStatus_def SubscribeOutput_def SubscribeRemoved_def UnsubscribeStatus_def UnsubscribeOutput_def
    UnsubscribeRemoved_def split: if_splits sum.splits option.splits)+)

lemma named_reachable: "mgr_reachable m \<Longrightarrow> named_events m"
proof (induction rule: mgr_reachable.induct)
  case (start n)
  show ?case by (simp add: named_events_def NewManager_def)
next
  case (step m m')
  have "extends m m'" by (rule extends_step [OF step(2)])
  then have ids: "b < length (m_heap m) \<Longrightarrow> b < length (m_heap m') \<and> s_SessionID (sess m' b) = s_SessionID (sess m b)
      \<and> s_CreatedAt (sess m' b) = s_CreatedAt (sess m b)" for b
    by (simp add: extends_def same_identity_def)
  show ?case
    using new_named_step [OF step(2)] step.IH ids unfolding named_events_def new_named_def by metis
qed

lemma status_events_mem: "ev \<in> set (status_events a es) \<Longrightarrow> \<exists>subs. StatusHook a subs ev \<in> set es"
  by (induction a es rule: status_events.induct) (auto split: if_splits)

lemma named_status_events:
  "mgr_reachable m \<Longrightarrow> ev \<in> set (status_events a (m_trace m)) \<Longrightarrow> ev_SessionID ev = s_SessionID (sess m a)"
  using named_reachable [of m] status_events_mem [of ev a "m_trace m"] unfolding named_events_def by blast

section \<open>The trail of a session\<close>

text \<open>The status events of a session handled one after the other; \<open>s\<close> is what the snapshot answers.\<close>

fun trail :: "(time \<Rightarrow> string) \<Rightarrow> string list \<Rightarrow> session \<Rightarrow> (time \<times> status_event) list \<Rightarrow> audit_db \<Rightarrow> audit_db" where
  "trail fmt accs s [] db = db"
| "trail fmt accs s ((now, e) # es) db = trail fmt accs s es (handleSessionStatus fmt False accs now (Some s) e db)"

definition session_entry :: "string \<Rightarrow> audit_db \<Rightarrow> session_row option" where
  "session_entry sid db = find (\<lambda>r. slr_SessionID r = sid) (ad_sessions db)"

fun ends :: "status \<Rightarrow> bool" where
  "ends StatusClosed = True"
| "ends StatusError = True"
| "ends _ = False"

text \<open>A session that came up or was closed while coming up; and the row its events call for.\<close>

definition came_up :: "status_event list \<Rightarrow> bool" where
  "came_up evs \<longleftrightarrow> (\<exists>e\<in>set evs. ev_Previous e = StatusOpening \<and> (ev_Status e = StatusOpen \<or> ev_Status e = StatusClosing))"

definition due_row :: "(time \<Rightarrow> string) \<Rightarrow> (time \<times> status_event) list \<Rightarrow> session_row \<Rightarrow> session_row" where
  "due_row fmt evs r = (case find (\<lambda>(now, e). ends (ev_Status e)) evs of None \<Rightarrow> r | Some (now, e) \<Rightarrow> close_row fmt now e r)"

lemma find_map_same: "(\<And>x. P (f x) = P x) \<Longrightarrow> find P (map f xs) = map_option f (find P xs)"
  by (induction xs) auto

lemma find_append_row: "find P (xs @ ys) = (case find P xs of None \<Rightarrow> find P ys | Some x \<Rightarrow> Some x)"
  by (induction xs) auto

lemma find_None_ids: "find (\<lambda>r. f r = k) xs = None \<longleftrightarrow> k \<notin> f ` set xs"
  by (auto simp: find_None_iff)

lemma entry_recordClose:
  "session_entry sid (recordClose fmt False now e db) =
     map_option (\<lambda>r. if sid = ev_SessionID e \<and> slr_ClosedAt r = None then close_row fmt now e r else r) (session_entry sid db)"
proof -
  let ?f = "\<lambda>r. if slr_SessionID r = ev_SessionID e \<and> slr_ClosedAt r = None then close_row fmt now e r else r"
  have "session_entry sid (recordClose fmt False now e db) = map_option ?f (session_entry sid db)"
    unfolding session_entry_def recordClose_def by (simp, rule find_map_same) (simp add: close_row_def)
  moreover have "slr_SessionID r = sid" if "session_entry sid db = Some r" for r
    using that by (auto simp: session_entry_def find_Some_iff)
  ultimately show ?thesis by (cases "session_entry sid db") auto
qed

lemma entry_insertOpen:
  "s_AccountID s \<in> set accs \<Longrightarrow> session_entry (s_SessionID s) (insertOpen fmt False accs s db) =
     (case session_entry (s_SessionID s) db of None \<Rightarrow> Some (open_row fmt s) | Some r \<Rightarrow> Some r)"
proof -
  assume acc: "s_AccountID s \<in> set accs"
  have ok: "session_check (open_row fmt s)" by (cases "s_Source s") (simp_all add: session_check_def open_row_def source_str_def)
  have ids: "slr_SessionID (open_row fmt s) = s_SessionID s" "slr_AccountID (open_row fmt s) = s_AccountID s" by (simp_all add: open_row_def)
  show ?thesis
  proof (cases "session_entry (s_SessionID s) db")
    case None
    then have "s_SessionID s \<notin> slr_SessionID ` set (ad_sessions db)" by (simp add: session_entry_def find_None_ids)
    with None acc ok ids show ?thesis by (simp add: insertOpen_def session_entry_def find_append_row Let_def)
  next
    case (Some r)
    then have "s_SessionID s \<in> slr_SessionID ` set (ad_sessions db)"
      using find_None_ids [of slr_SessionID "s_SessionID s" "ad_sessions db"] by (auto simp: session_entry_def)
    with Some ids show ?thesis by (simp add: insertOpen_def Let_def)
  qed
qed

lemma entry_handle:
  assumes "s_AccountID s \<in> set accs" "ev_SessionID e = s_SessionID s"
  shows "session_entry (s_SessionID s) (handleSessionStatus fmt False accs now (Some s) e db) =
    (if ends (ev_Status e)
     then map_option (\<lambda>r. if slr_ClosedAt r = None then close_row fmt now e r else r) (session_entry (s_SessionID s) db)
     else if came_up [e] \<and> session_entry (s_SessionID s) db = None then Some (open_row fmt s)
     else session_entry (s_SessionID s) db)"
  using assms by (cases "ev_Status e")
    (auto simp: handleSessionStatus_def came_up_def entry_recordClose entry_insertOpen split: option.splits)

lemma chain_not_opening:
  "chain p es q \<Longrightarrow> p \<noteq> StatusOpening \<Longrightarrow> \<not> came_up es"
proof (induction es arbitrary: p)
  case (Cons e es)
  then show ?case by (cases p; cases "ev_Status e") (auto simp: came_up_def)
qed (simp add: came_up_def)

lemma came_up_Cons: "came_up (e # es) \<longleftrightarrow> came_up [e] \<or> came_up es"
  by (auto simp: came_up_def)

lemma trail_closed:
  assumes "s_AccountID s \<in> set accs" "\<forall>e\<in>snd ` set es. ev_SessionID e = s_SessionID s" "\<not> came_up (map snd es)"
    and "session_entry (s_SessionID s) db = x" "\<And>r. x = Some r \<Longrightarrow> slr_ClosedAt r \<noteq> None"
  shows "session_entry (s_SessionID s) (trail fmt accs s es db) = x"
  using assms(2-4)
proof (induction es arbitrary: db)
  case (Cons ne es)
  obtain now e where ne: "ne = (now, e)" by (cases ne)
  have tl: "\<forall>e\<in>snd ` set es. ev_SessionID e = s_SessionID s" "\<not> came_up (map snd es)" "ev_SessionID e = s_SessionID s" "\<not> came_up [e]"
    using Cons.prems came_up_Cons [of e "map snd es"] by (auto simp: ne)
  have "session_entry (s_SessionID s) (handleSessionStatus fmt False accs now (Some s) e db) = x"
    unfolding entry_handle [OF assms(1) tl(3)] using Cons.prems(3) assms(5) tl(4) by (cases x) auto
  from Cons.IH [OF tl(1,2) this] show ?case by (simp add: ne)
qed simp

lemma trail_open:
  assumes "s_AccountID s \<in> set accs" "\<forall>e\<in>snd ` set es. ev_SessionID e = s_SessionID s" "\<not> came_up (map snd es)"
    and "session_entry (s_SessionID s) db = Some r" "slr_ClosedAt r = None"
  shows "session_entry (s_SessionID s) (trail fmt accs s es db) = Some (due_row fmt es r)"
  using assms(2-4)
proof (induction es arbitrary: db)
  case (Cons ne es)
  obtain now e where ne: "ne = (now, e)" by (cases ne)
  let ?db = "handleSessionStatus fmt False accs now (Some s) e db"
  have tl: "\<forall>e\<in>snd ` set es. ev_SessionID e = s_SessionID s" "\<not> came_up (map snd es)" "ev_SessionID e = s_SessionID s"
    using Cons.prems came_up_Cons [of e "map snd es"] by (auto simp: ne)
  show ?case
  proof (cases "ends (ev_Status e)")
    case True
    then have "session_entry (s_SessionID s) ?db = Some (close_row fmt now e r)"
      using assms(5) Cons.prems(3) by (simp add: entry_handle [OF assms(1) tl(3)])
    from trail_closed [OF assms(1) tl(1,2) this] True show ?thesis
      by (simp add: ne due_row_def close_row_def)
  next
    case False
    then have "session_entry (s_SessionID s) ?db = Some r"
      using Cons.prems(3) by (simp add: entry_handle [OF assms(1) tl(3)])
    from Cons.IH [OF tl(1,2) this] False show ?thesis by (simp add: ne due_row_def)
  qed
qed (simp add: due_row_def)

lemma trail_from_opening:
  assumes "chain StatusOpening (map snd es) q" "s_AccountID s \<in> set accs" "\<forall>e\<in>snd ` set es. ev_SessionID e = s_SessionID s"
    and none: "session_entry (s_SessionID s) db = None"
  shows "session_entry (s_SessionID s) (trail fmt accs s es db) =
    (if came_up (map snd es) then Some (due_row fmt es (open_row fmt s)) else None)"
proof (cases es)
  case (Cons ne es')
  obtain now e where ne: "ne = (now, e)" by (cases ne)
  let ?db = "handleSessionStatus fmt False accs now (Some s) e db"
  have tl: "\<forall>e\<in>snd ` set es'. ev_SessionID e = s_SessionID s" "ev_SessionID e = s_SessionID s"
    and e: "ev_Previous e = StatusOpening" "ev_Status e \<noteq> StatusOpening" "chain (ev_Status e) (map snd es') q"
    using assms(1,3) by (auto simp: Cons ne)
  have rest: "\<not> came_up (map snd es')" by (rule chain_not_opening [OF e(3,2)])
  note entry = entry_handle [OF assms(2) tl(2), of fmt now db]
  show ?thesis
  proof (cases "came_up [e]")
    case True
    then have "\<not> ends (ev_Status e)" by (auto simp: came_up_def)
    moreover have "session_entry (s_SessionID s) ?db = Some (open_row fmt s)" using True calculation none by (simp add: entry)
    note trail_open [OF assms(2) tl(1) rest this, of fmt]
    ultimately show ?thesis
      using True came_up_Cons [of e "map snd es'"] by (simp add: Cons ne due_row_def open_row_def)
  next
    case False
    then have "session_entry (s_SessionID s) ?db = None" using none by (simp add: entry)
    from trail_closed [OF assms(2) tl(1) rest this] False rest show ?thesis
      using came_up_Cons [of e "map snd es'"] by (simp add: Cons ne)
  qed
qed (use none in \<open>simp add: came_up_def\<close>)

lemma chain_ended: "chain p evs q \<Longrightarrow> ends q \<Longrightarrow> \<not> ends p \<Longrightarrow> \<exists>e\<in>set evs. ends (ev_Status e)"
  by (induction evs arbitrary: p) auto


text \<open>
  The order matters. The registry calls its subscribers after releasing its lock, so a close that
  overtakes the announcement of a new session closes a row that is not there yet; the row then
  inserted stays open for ever. If the session is already gone from the registry, it has no row.
\<close>

theorem overtaken_open_never_closed:
  assumes "s_AccountID s \<in> set accs" "session_entry (s_SessionID s) db = None" "ev_SessionID e = s_SessionID s" "ends (ev_Status e)"
    and "ev_SessionID e' = s_SessionID s" "ev_Status e' = StatusOpen" "ev_Previous e' = StatusOpening"
  shows "session_entry (s_SessionID s) (handleSessionStatus fmt False accs now' (Some s) e'
            (handleSessionStatus fmt False accs now (Some s) e db)) = Some (open_row fmt s)"
    and "session_entry (s_SessionID s) (handleSessionStatus fmt False accs now' None e'
            (handleSessionStatus fmt False accs now (Some s) e db)) = None"
proof -
  have none: "session_entry (s_SessionID s) (handleSessionStatus fmt False accs now (Some s) e db) = None"
    using assms(2,4) by (simp add: entry_handle [OF assms(1,3)])
  then show "session_entry (s_SessionID s) (handleSessionStatus fmt False accs now' (Some s) e'
            (handleSessionStatus fmt False accs now (Some s) e db)) = Some (open_row fmt s)"
    unfolding entry_handle [OF assms(1,5)] using assms(6,7) by (simp add: came_up_def)
  show "session_entry (s_SessionID s) (handleSessionStatus fmt False accs now' None e'
            (handleSessionStatus fmt False accs now (Some s) e db)) = None"
    using none assms(6,7) by (simp add: handleSessionStatus_def [where e = e'])
qed


section \<open>History is never rewritten\<close>

text \<open>
  A log grows: its rows stay in place and each of them changes only as \<open>R\<close> allows. The lemmas hold for
  every relation that can be iterated.
\<close>

definition grows :: "('r \<Rightarrow> 'r \<Rightarrow> bool) \<Rightarrow> 'r list \<Rightarrow> 'r list \<Rightarrow> bool" where
  "grows R xs ys \<longleftrightarrow> length xs \<le> length ys \<and> (\<forall>i < length xs. R (xs ! i) (ys ! i))"

locale row_history =
  fixes R :: "'r \<Rightarrow> 'r \<Rightarrow> bool"
  assumes refl: "R r r" and trans: "R r s \<Longrightarrow> R s t \<Longrightarrow> R r t"
begin

lemma grows_refl: "grows R xs xs"
  by (simp add: grows_def refl)

lemma grows_trans: "grows R xs ys \<Longrightarrow> grows R ys zs \<Longrightarrow> grows R xs zs"
  unfolding grows_def using trans by (meson order_less_le_trans order_trans)

lemma grows_append: "grows R xs (xs @ ys)"
  by (simp add: grows_def nth_append refl)

lemma grows_map: "(\<And>r. R r (f r)) \<Longrightarrow> grows R xs (map f xs)"
  by (simp add: grows_def)

end

text \<open>What may change in a session row: its end, once. In a signing row: its resolution, once, and the pin mark.\<close>

definition session_kept :: "session_row \<Rightarrow> session_row \<Rightarrow> bool" where
  "session_kept r r' \<longleftrightarrow> r' = r \<or> slr_ClosedAt r = None \<and> slr_ClosedAt r' \<noteq> None
     \<and> r' = r\<lparr>slr_Status := slr_Status r', slr_ClosedAt := slr_ClosedAt r', slr_DurationMs := slr_DurationMs r', slr_CloseReason := slr_CloseReason r'\<rparr>"

definition signing_kept :: "int signing_row \<Rightarrow> int signing_row \<Rightarrow> bool" where
  "signing_kept r r' \<longleftrightarrow> (gr_HostKeyPinned r' = gr_HostKeyPinned r \<or> gr_HostKeyPinned r' = Some 1)
     \<and> (r' = r\<lparr>gr_HostKeyPinned := gr_HostKeyPinned r'\<rparr>
        \<or> gr_ResolvedAt r = None \<and> gr_ResolvedAt r' \<noteq> None
          \<and> r' = r\<lparr>gr_ResolvedAt := gr_ResolvedAt r', gr_Outcome := gr_Outcome r', gr_LatencyMs := gr_LatencyMs r',
                     gr_CancelReason := gr_CancelReason r', gr_HostKeyPinned := gr_HostKeyPinned r'\<rparr>)"

interpretation session_hist: row_history session_kept
  by unfold_locales (auto simp: session_kept_def)

interpretation signing_hist: row_history signing_kept
  by unfold_locales (auto simp: signing_kept_def)

datatype audit_op =
    AuStatus bool time "session option" status_event
  | AuCreated bool action
  | AuResolved bool resolved_event
  | AuPinned bool string
  | AuHostKey bool time string host_key_event

fun audit_next :: "(time \<Rightarrow> string) \<Rightarrow> string list \<Rightarrow> audit_op \<Rightarrow> audit_db \<Rightarrow> audit_db" where
  "audit_next fmt accs (AuStatus flt now snap e) db = handleSessionStatus fmt flt accs now snap e db"
| "audit_next fmt accs (AuCreated flt a) db = insertSigning fmt flt accs a db"
| "audit_next fmt accs (AuResolved flt ev) db = recordResolution fmt flt ev db"
| "audit_next fmt accs (AuPinned flt i) db = MarkHostKeyPinned flt i db"
| "audit_next fmt accs (AuHostKey flt now newID ev) db = snd (RecordHostKeyEvent fmt flt accs now newID ev db)"

definition audit_wf :: "audit_db \<Rightarrow> bool" where
  "audit_wf db \<longleftrightarrow> distinct (map slr_SessionID (ad_sessions db)) \<and> distinct (map gr_ID (ad_signings db))
     \<and> (\<forall>r\<in>set (ad_sessions db). session_check r) \<and> (\<forall>r\<in>set (ad_signings db). signing_check r)"

lemmas audit_op_defs = handleSessionStatus_def insertOpen_def recordClose_def insertSigning_def insert_signing_row_def
  recordResolution_def MarkHostKeyPinned_def RecordHostKeyEvent_def update_signings_def Let_def

lemma sessions_grow: "grows session_kept (ad_sessions db) (ad_sessions (audit_next fmt accs op db))"
proof -
  have "grows session_kept xs (map (\<lambda>r. if P r \<and> slr_ClosedAt r = None then close_row fmt now e r else r) xs)" for xs P now e
    by (rule session_hist.grows_map) (simp add: session_kept_def close_row_def)
  then show ?thesis
    by (cases op) (auto simp: audit_op_defs session_hist.grows_refl session_hist.grows_append split: status.splits option.splits prod.splits if_splits)
qed

lemma signings_grow: "grows signing_kept (ad_signings db) (ad_signings (audit_next fmt accs op db))"
proof -
  have r: "grows signing_kept xs (map (\<lambda>r. if P r \<and> gr_ResolvedAt r = None
      then r\<lparr>gr_ResolvedAt := Some t, gr_Outcome := x, gr_LatencyMs := y, gr_CancelReason := z\<rparr> else r) xs)" for xs P t x y z
    by (rule signing_hist.grows_map) (auto simp: signing_kept_def)
  have p: "grows signing_kept xs (map (\<lambda>r. if P r then r\<lparr>gr_HostKeyPinned := Some 1\<rparr> else r) xs)" for xs P
    by (rule signing_hist.grows_map) (auto simp: signing_kept_def)
  show ?thesis
    by (cases op) (auto simp: audit_op_defs r p signing_hist.grows_refl signing_hist.grows_append
        split: status.splits option.splits prod.splits if_splits)
qed

lemma distinct_ids_map: "(\<And>r. i (f r) = i r) \<Longrightarrow> distinct (map i (map f xs)) = distinct (map i xs)"
  by (simp add: comp_def)

lemma audit_wf_close:
  assumes "audit_wf db" "ends (ev_Status e)" shows "audit_wf (recordClose fmt flt now e db)"
proof -
  define f where "f = (\<lambda>r. if slr_SessionID r = ev_SessionID e \<and> slr_ClosedAt r = None then close_row fmt now e r else r)"
  have "slr_SessionID (f r) = slr_SessionID r" for r by (simp add: f_def close_row_def)
  moreover have "session_check (f r)" if "session_check r" for r
    using that assms(2) by (cases "ev_Status e") (auto simp: f_def session_check_def close_row_def sess_status_str_def)
  ultimately show ?thesis
    using assms(1) unfolding audit_wf_def recordClose_def f_def [symmetric] by (simp add: distinct_ids_map del: map_map)
qed

lemma audit_wf_update:
  assumes "audit_wf db" "\<And>r. gr_ID (f r) = gr_ID r" "\<And>r. signing_check r \<Longrightarrow> signing_check (f r)"
  shows "audit_wf (update_signings flt P f db)"
proof -
  define g where "g = (\<lambda>r. if P r then f r else r)"
  have "gr_ID (g r) = gr_ID r" "signing_check r \<Longrightarrow> signing_check (g r)" for r using assms(2,3) by (simp_all add: g_def)
  then show ?thesis
    using assms(1) unfolding audit_wf_def update_signings_def g_def [symmetric] by (simp add: distinct_ids_map del: map_map)
qed

lemma audit_wf_insert:
  assumes "audit_wf db"
  shows "audit_wf (insertOpen fmt flt accs s db)" "audit_wf (snd (insert_signing_row flt accs r db))"
  using assms by (auto simp: insertOpen_def insert_signing_row_def audit_wf_def Let_def)

lemma audit_wf_next:
  assumes "audit_wf db" shows "audit_wf (audit_next fmt accs op db)"
proof (cases op)
  case (AuStatus flt now snap e)
  then show ?thesis using assms audit_wf_insert(1) [OF assms] audit_wf_close [OF assms, of e]
    by (cases "ev_Status e") (auto simp: handleSessionStatus_def split: option.splits)
next
  case (AuResolved flt ev)
  then show ?thesis
    by (cases "re_Outcome ev") (auto simp: recordResolution_def Let_def signing_check_def outcome_str_def intro!: audit_wf_update [OF assms])
next
  case (AuPinned flt i)
  then show ?thesis by (auto simp: MarkHostKeyPinned_def assms signing_check_def intro!: audit_wf_update [OF assms])
next
  case (AuHostKey flt now newID ev)
  then show ?thesis using audit_wf_insert(2) [OF assms] by (simp add: RecordHostKeyEvent_def Let_def split_def)
qed (simp add: insertSigning_def audit_wf_insert [OF assms])

text \<open>
  C23: The audit log never rewrites history. Whatever sequence of session events, signing requests,
  resolutions, pins and host-key events the writers handle, with failing writes among them, every row
  stays where it is: a session row changes once at most, when it is closed, and then only in its
  status, end, duration and reason; a signing row changes once at most in its resolution, and beyond
  that only gains the mark that its approval pinned a key. Identifiers stay unique and every row
  satisfies the checks of its table.
\<close>

theorem audit_history_kept:
  assumes "audit_wf db"
  shows "audit_wf (fold (audit_next fmt accs) ops db)
    \<and> grows session_kept (ad_sessions db) (ad_sessions (fold (audit_next fmt accs) ops db))
    \<and> grows signing_kept (ad_signings db) (ad_signings (fold (audit_next fmt accs) ops db))"
  using assms
proof (induction ops arbitrary: db)
  case Nil
  then show ?case by (simp add: session_hist.grows_refl signing_hist.grows_refl)
next
  case (Cons op ops)
  with Cons.IH [OF audit_wf_next [OF Cons.prems]] show ?case
    using session_hist.grows_trans [OF sessions_grow] signing_hist.grows_trans [OF signings_grow] by fastforce
qed

definition ex_audit_session :: session where
  "ex_audit_session = sess ex_open 0"

definition ex_event :: "status \<Rightarrow> status \<Rightarrow> status_event" where
  "ex_event prev st = \<lparr>ev_SessionID = ''s1'', ev_Status = st, ev_Previous = prev, ev_Reason = CloseIdleTimeout, ev_CreatedAt = 0\<rparr>"

theorem audit_history_kept_witness:
  "let db = \<lparr>ad_sessions = [open_row (\<lambda>t. ''t0'') ex_audit_session], ad_signings = []\<rparr>;
       db' = fold (audit_next (\<lambda>t. ''t1'') [''acc1'']) [AuStatus False 5 None (ex_event StatusOpen StatusError),
               AuStatus False 9 None (ex_event StatusClosing StatusClosed)] db in
   map slr_Status (ad_sessions db') = [''error''] \<and> audit_wf db' \<and> grows session_kept (ad_sessions db) (ad_sessions db')"
proof -
  let ?db = "\<lparr>ad_sessions = [open_row (\<lambda>t. ''t0'') ex_audit_session], ad_signings = []\<rparr>"
  have s: "s_SessionID ex_audit_session = ''s1''" "s_Source ex_audit_session = SourceMCP" by (simp_all add: ex_audit_session_def mgr_eval)
  have "audit_wf ?db" by (simp add: audit_wf_def session_check_def open_row_def source_str_def s)
  note kept = audit_history_kept [OF this, of "\<lambda>t. ''t1''" "[''acc1'']" "[AuStatus False 5 None (ex_event StatusOpen StatusError),
               AuStatus False 9 None (ex_event StatusClosing StatusClosed)]"]
  show ?thesis
    unfolding Let_def
  proof (intro conjI)
    show "map slr_Status (ad_sessions (fold (audit_next (\<lambda>t. ''t1'') [''acc1'']) [AuStatus False 5 None (ex_event StatusOpen StatusError),
               AuStatus False 9 None (ex_event StatusClosing StatusClosed)] ?db)) = [''error'']"
      by (simp add: handleSessionStatus_def recordClose_def ex_event_def open_row_def close_row_def s sess_status_str_def)
  qed (use kept in blast)+
qed

end
