(* ===== verification/Notify_Log.thy ===== *)
theory Notify_Log
  imports Audit_Log Front_Door
begin

text \<open>
  \<open>src/internal/notify/notify.go\<close>, \<open>src/internal/audit/oauthclients.go\<close> and \<open>src/internal/httpserver/clientlog.go\<close>: the
  notification log of an account with its push to the browser, and the log of OAuth client
  registrations. Tables, faults and the formatting of instants are as in \<open>Audit_Log\<close>; \<open>encoding/json\<close> on
  a payload and on a list of strings are arguments (\<open>payload_codec\<close>, \<open>strings_codec\<close>).
\<close>

section \<open>Notifications\<close>

type_synonym payload = "(string, json) gomap"

record payload_codec =
  pc_marshal :: "payload \<Rightarrow> string option"
  pc_unmarshal :: "string \<Rightarrow> payload option"

definition SeverityInfo :: string where "SeverityInfo = ''info''"
definition SeverityWarning :: string where "SeverityWarning = ''warning''"
definition SeverityError :: string where "SeverityError = ''error''"

record 'p notification =
  nt_ID :: string
  nt_AccountID :: string
  nt_Type :: string
  nt_Severity :: string
  nt_Title :: string
  nt_Detail :: "string option"
  nt_Payload :: "'p option"
  nt_CreatedAt :: string

text \<open>A row of the table keeps the payload as text; the domain value has the map.\<close>

type_synonym notif_row = "string notification"
type_synonym notif = "payload notification"

record publish_params =
  pb_AccountID :: string
  pb_Type :: string
  pb_Severity :: string
  pb_Title :: string
  pb_Detail :: string
  pb_Payload :: "payload option"

definition notif_json :: "notif \<Rightarrow> json" where
  "notif_json n =
     JObj [(''id'', JStr (nt_ID n)), (''accountId'', JStr (nt_AccountID n)), (''type'', JStr (nt_Type n)),
           (''severity'', JStr (nt_Severity n)), (''title'', JStr (nt_Title n)),
           (''detail'', case nt_Detail n of None \<Rightarrow> JNull | Some d \<Rightarrow> JStr d),
           (''payload'', case nt_Payload n of None \<Rightarrow> JNull | Some p \<Rightarrow> JObj p), (''createdAt'', JStr (nt_CreatedAt n))]"

text \<open>The result: the notification, the messages handed to the hub, and the table.\<close>

definition Publish ::
  "payload_codec \<Rightarrow> bool \<Rightarrow> string list \<Rightarrow> string \<Rightarrow> string \<Rightarrow> bool \<Rightarrow> publish_params \<Rightarrow> notif_row list \<Rightarrow>
   notif \<times> (string \<times> json) list \<times> notif_row list"
where
  "Publish pc flt accs now newID hub p table =
     (let n = \<lparr>nt_ID = newID, nt_AccountID = pb_AccountID p, nt_Type = pb_Type p, nt_Severity = pb_Severity p,
               nt_Title = pb_Title p, nt_Detail = nz (pb_Detail p), nt_Payload = pb_Payload p, nt_CreatedAt = now\<rparr>;
          payload = (case pb_Payload p of None \<Rightarrow> None | Some m \<Rightarrow> pc_marshal pc m);
          row = \<lparr>nt_ID = newID, nt_AccountID = pb_AccountID p, nt_Type = pb_Type p, nt_Severity = pb_Severity p,
                 nt_Title = pb_Title p, nt_Detail = nz (pb_Detail p), nt_Payload = payload, nt_CreatedAt = now\<rparr>;
          failed = (flt \<or> newID \<in> set (map nt_ID table) \<or> pb_AccountID p \<notin> set accs
                    \<or> pb_Severity p \<notin> {SeverityInfo, SeverityWarning, SeverityError});
          n = (if failed then n\<lparr>nt_ID := []\<rparr> else n) in
      (n, if hub then [(pb_AccountID p, JObj [(''type'', JStr ''notification:new''), (''notification'', notif_json n)])] else [],
       if failed then table else table @ [row]))"

definition notif_key :: "'p notification \<Rightarrow> row_key" where
  "notif_key n = (nt_CreatedAt n, nt_ID n)"

definition scan_notif :: "payload_codec \<Rightarrow> notif_row \<Rightarrow> notif" where
  "scan_notif pc r =
     \<lparr>nt_ID = nt_ID r, nt_AccountID = nt_AccountID r, nt_Type = nt_Type r, nt_Severity = nt_Severity r,
      nt_Title = nt_Title r, nt_Detail = nt_Detail r,
      nt_Payload = (case nt_Payload r of None \<Rightarrow> None | Some s \<Rightarrow> pc_unmarshal pc s), nt_CreatedAt = nt_CreatedAt r\<rparr>"

definition notify_List ::
  "json_codec \<Rightarrow> payload_codec \<Rightarrow> string \<Rightarrow> string \<Rightarrow> int \<Rightarrow> notif_row list \<Rightarrow> notif list \<times> string option"
where
  "notify_List jc pc acct cursorStr limit table =
     (let limit = (if limit \<le> 0 then pageLimitDefault else limit);
          limit = (if limit > pageLimitMax then pageLimitMax else limit);
          c = decodeCursor jc cursorStr;
          out = map (scan_notif pc) (take (nat (limit + 1))
            (order_desc notif_key (filter (\<lambda>r. nt_AccountID r = acct \<and> below c (notif_key r)) table))) in
      if int (length out) > limit
      then let out = take (nat limit) out in (out, Some (encodeCursor jc (notif_key (last out))))
      else (out, None))"

section \<open>Client registrations\<close>

record strings_codec =
  sc_marshal :: "string list \<Rightarrow> string"
  sc_unmarshal :: "string \<Rightarrow> string list option"

definition OriginDCR :: string where "OriginDCR = ''dcr''"
definition audit_OriginCIMD :: string where "audit_OriginCIMD = ''cimd''"

definition EventRegistered :: string where "EventRegistered = ''registered''"
definition EventRefreshed :: string where "EventRefreshed = ''refreshed''"
definition EventRejected :: string where "EventRejected = ''rejected''"

record 'u client_row =
  cl_ID :: string
  cl_ClientID :: string
  cl_Origin :: string
  cl_Event :: string
  cl_ClientName :: "string option"
  cl_MetadataHost :: "string option"
  cl_AuthMethod :: "string option"
  cl_RedirectURIs :: 'u
  cl_Scope :: "string option"
  cl_Reason :: "string option"
  cl_SourceIP :: "string option"
  cl_CreatedAt :: string

record oauth_client_event =
  oe_ClientID :: string
  oe_Origin :: string
  oe_Event :: string
  oe_ClientName :: string
  oe_MetadataHost :: string
  oe_AuthMethod :: string
  oe_RedirectURIs :: "string list"
  oe_Scope :: string
  oe_Reason :: string
  oe_SourceIP :: string

definition OAuthClients_Record ::
  "strings_codec \<Rightarrow> bool \<Rightarrow> string \<Rightarrow> string \<Rightarrow> oauth_client_event \<Rightarrow> string option client_row list \<Rightarrow> string option client_row list"
where
  "OAuthClients_Record sc flt now newID ev table =
     (if flt \<or> newID \<in> set (map cl_ID table) then table
      else table @ [\<lparr>cl_ID = newID, cl_ClientID = oe_ClientID ev, cl_Origin = oe_Origin ev, cl_Event = oe_Event ev,
             cl_ClientName = nz (oe_ClientName ev), cl_MetadataHost = nz (oe_MetadataHost ev),
             cl_AuthMethod = nz (oe_AuthMethod ev),
             cl_RedirectURIs = (if oe_RedirectURIs ev = [] then None else Some (sc_marshal sc (oe_RedirectURIs ev))),
             cl_Scope = nz (oe_Scope ev), cl_Reason = nz (oe_Reason ev), cl_SourceIP = nz (oe_SourceIP ev), cl_CreatedAt = now\<rparr>])"

record client_filter =
  fl_ClientID :: string
  fl_Origin :: string
  fl_Event :: string
  fl_Cursor :: string
  fl_Limit :: int

definition client_conds :: "client_filter \<Rightarrow> 'u client_row \<Rightarrow> bool" where
  "client_conds f r \<longleftrightarrow> (fl_ClientID f \<noteq> [] \<longrightarrow> cl_ClientID r = fl_ClientID f)
     \<and> (fl_Origin f \<noteq> [] \<longrightarrow> cl_Origin r = fl_Origin f) \<and> (fl_Event f \<noteq> [] \<longrightarrow> cl_Event r = fl_Event f)"

definition client_key :: "'u client_row \<Rightarrow> row_key" where
  "client_key r = (cl_CreatedAt r, cl_ID r)"

definition scan_client :: "strings_codec \<Rightarrow> string option client_row \<Rightarrow> string list client_row" where
  "scan_client sc r =
     \<lparr>cl_ID = cl_ID r, cl_ClientID = cl_ClientID r, cl_Origin = cl_Origin r, cl_Event = cl_Event r,
      cl_ClientName = cl_ClientName r, cl_MetadataHost = cl_MetadataHost r, cl_AuthMethod = cl_AuthMethod r,
      cl_RedirectURIs = (case cl_RedirectURIs r of None \<Rightarrow> []
                         | Some s \<Rightarrow> (case sc_unmarshal sc s of None \<Rightarrow> [] | Some us \<Rightarrow> us)),
      cl_Scope = cl_Scope r, cl_Reason = cl_Reason r, cl_SourceIP = cl_SourceIP r, cl_CreatedAt = cl_CreatedAt r\<rparr>"

definition OAuthClients_List ::
  "json_codec \<Rightarrow> strings_codec \<Rightarrow> client_filter \<Rightarrow> string option client_row list \<Rightarrow> string list client_row list \<times> string option"
where
  "OAuthClients_List jc sc f table =
     (let limit = clampLimit (fl_Limit f); c = decodeCursor jc (fl_Cursor f);
          out = map (scan_client sc) (take (nat (limit + 1))
            (order_desc client_key (filter (\<lambda>r. client_conds f r \<and> below c (client_key r)) table))) in
      if int (length out) > limit
      then let out = take (nat limit) out in (out, Some (encodeCursor jc (client_key (last out))))
      else (out, None))"

text \<open>The bridge from the events of the provider; \<open>txt\<close> is the text of a symbolic rejection reason.\<close>

definition clientEventSink ::
  "((string \<times> cimd_error) option \<Rightarrow> string) \<Rightarrow> strings_codec \<Rightarrow> bool \<Rightarrow> string \<Rightarrow> string \<Rightarrow> string \<Rightarrow> client_event \<Rightarrow>
   string option client_row list \<Rightarrow> string option client_row list"
where
  "clientEventSink txt sc flt now newID realip ev =
     OAuthClients_Record sc flt now newID
       \<lparr>oe_ClientID = ev_ClientID ev, oe_Origin = ev_Origin ev, oe_Event = ev_Event ev, oe_ClientName = ev_ClientName ev,
        oe_MetadataHost = ev_MetadataHost ev, oe_AuthMethod = ev_AuthMethod ev, oe_RedirectURIs = ev_RedirectURIs ev,
        oe_Scope = ev_Scope ev, oe_Reason = (case ev_Reason ev of Inl e \<Rightarrow> txt e | Inr s \<Rightarrow> s), oe_SourceIP = realip\<rparr>"

section \<open>The readers page exactly\<close>

lemma scan_keys [simp]:
  "signing_key (scanSigning r) = signing_key r" "notif_key (scan_notif pc n) = notif_key n" "client_key (scan_client sc c) = client_key c"
  by (simp_all add: signing_key_def scanSigning_def notif_key_def scan_notif_def client_key_def scan_client_def)

lemma scan_conds [simp]:
  "signing_conds acct f (scanSigning r) = signing_conds acct f r" "nt_AccountID (scan_notif pc n) = nt_AccountID n"
  "client_conds cf (scan_client sc c) = client_conds cf c"
  by (simp_all add: signing_conds_def scanSigning_def scan_notif_def client_conds_def scan_client_def)

lemma paginate_alt:
  "paginate jc key limit out =
     (if int (length out) > limit then (take (nat limit) out, Some (encodeCursor jc (key (last (take (nat limit) out))))) else (out, None))"
  by (simp add: paginate_def Let_def)

lemma notify_List_paginate:
  "notify_List jc pc acct cur limit t = paginate jc notif_key (clampLimit limit) (map (scan_notif pc) (take (nat (clampLimit limit + 1))
     (order_desc notif_key (filter (\<lambda>r. nt_AccountID r = acct \<and> below (decodeCursor jc cur) (notif_key r)) t))))"
proof -
  have "(if (if limit \<le> 0 then pageLimitDefault else limit) > pageLimitMax then pageLimitMax
         else if limit \<le> 0 then pageLimitDefault else limit) = clampLimit limit"
    by (simp add: clampLimit_def pageLimitDefault_def pageLimitMax_def)
  then show ?thesis by (simp only: notify_List_def Let_def paginate_alt)
qed

lemma client_conds_cursor [simp]: "client_conds (f\<lparr>fl_Cursor := cur\<rparr>) r = client_conds f r"
  by (simp add: client_conds_def)

lemma OAuthClients_List_paginate:
  "OAuthClients_List jc sc (f\<lparr>fl_Cursor := cur\<rparr>) t = paginate jc client_key (clampLimit (fl_Limit f))
     (map (scan_client sc) (take (nat (clampLimit (fl_Limit f) + 1))
       (order_desc client_key (filter (\<lambda>r. client_conds f r \<and> below (decodeCursor jc cur) (client_key r)) t))))"
  by (simp add: OAuthClients_List_def Let_def paginate_alt)

lemmas reader_simps = page_of_def rows_below_def Let_def filter_map comp_def take_map

lemma order_desc_scan:
  "order_desc signing_key (map scanSigning rs) = map scanSigning (order_desc signing_key rs)"
  "order_desc notif_key (map (scan_notif pc) ns) = map (scan_notif pc) (order_desc notif_key ns)"
  "order_desc client_key (map (scan_client sc) cs) = map (scan_client sc) (order_desc client_key cs)"
  by (rule order_desc_map, simp)+

interpretation sessions: keyset_reader jc session_key "session_conds acct f" limit id "\<lambda>cur. Sessions_List jc acct f cur limit"
  for jc acct f limit
  by unfold_locales (simp add: Sessions_List_def page_of_def rows_below_def Let_def)

interpretation signings: keyset_reader jc signing_key "signing_conds acct f" limit scanSigning "\<lambda>cur. Signings_List jc acct f cur limit"
  for jc acct f limit
  by unfold_locales (simp add: Signings_List_def reader_simps order_desc_scan)

interpretation notices: keyset_reader jc notif_key "\<lambda>n. nt_AccountID n = acct" limit "scan_notif pc" "\<lambda>cur. notify_List jc pc acct cur limit"
  for jc pc acct limit
  by unfold_locales (simp add: notify_List_paginate reader_simps order_desc_scan)

interpretation clients: keyset_reader jc client_key "client_conds f" "fl_Limit f" "scan_client sc"
    "\<lambda>cur. OAuthClients_List jc sc (f\<lparr>fl_Cursor := cur\<rparr>)"
  for jc sc f
  by unfold_locales (simp add: OAuthClients_List_paginate reader_simps order_desc_scan)


text \<open>A codec that keeps every key whose first part has no zero byte.\<close>

definition char_byte :: "char \<Rightarrow> byte" where
  "char_byte c = word_of_nat (of_char c)"

definition byte_char :: "byte \<Rightarrow> char" where
  "byte_char b = char_of (unat b)"

lemma byte_char_byte [simp]: "byte_char (char_byte c) = c"
  by (simp add: byte_char_def char_byte_def unsigned_of_nat take_bit_eq_mod)

definition ex_codec :: json_codec where
  "ex_codec = \<lparr>jc_marshal = (\<lambda>(c, i). map char_byte c @ 0 # map char_byte i),
     jc_unmarshal = (\<lambda>bs. Some (map byte_char (takeWhile (\<lambda>b. b \<noteq> 0) bs), map byte_char (tl (dropWhile (\<lambda>b. b \<noteq> 0) bs))))\<rparr>"

lemma ex_codec_key:
  assumes "fst k \<noteq> []" "snd k \<noteq> []" "\<forall>c\<in>set (fst k). char_byte c \<noteq> 0"
  shows "key_ok ex_codec k"
proof (cases k)
  case (Pair c i)
  have "\<forall>b\<in>set (map char_byte c). b \<noteq> 0" using assms(3) Pair by auto
  then have "takeWhile (\<lambda>b. b \<noteq> 0) (map char_byte c @ 0 # map char_byte i) = map char_byte c"
    "dropWhile (\<lambda>b. b \<noteq> 0) (map char_byte c @ 0 # map char_byte i) = 0 # map char_byte i"
    by (simp_all add: takeWhile_append dropWhile_append)
  with Pair assms(1,2) show ?thesis by (simp add: key_ok_def ex_codec_def comp_def)
qed

definition ex_notice :: "string \<Rightarrow> string \<Rightarrow> string \<Rightarrow> notif_row" where
  "ex_notice acct i t = \<lparr>nt_ID = i, nt_AccountID = acct, nt_Type = ''x'', nt_Severity = ''info'', nt_Title = ''t'', nt_Detail = None,
     nt_Payload = None, nt_CreatedAt = t\<rparr>"

definition ex_notices :: "notif_row list" where
  "ex_notices = [ex_notice ''a'' ''n1'' ''t1'', ex_notice ''b'' ''n2'' ''t1'', ex_notice ''a'' ''n3'' ''t1'', ex_notice ''a'' ''n4'' ''t2'']"


end
