(* ===== verification/Endpoint_Address.thy ===== *)
theory Endpoint_Address
  imports Go_Net
begin

text \<open>
  \<open>src/internal/config/address.go\<close>: the form \<open>[user@]host[:port]\<close> of an endpoint's address.
\<close>

record endpoint_address =
  ea_Username :: string
  ea_Host :: string
  ea_Port :: int

datatype address_error = EmptyAddress | EmptyUsername | UnclosedBracket | AfterBracket | PortRange | EmptyHost

definition defaultUsername :: string where "defaultUsername = ''shellwatch''"

definition defaultPort :: int where "defaultPort = 22"

definition all_digits :: "string \<Rightarrow> bool" where
  "all_digits s \<longleftrightarrow> s \<noteq> [] \<and> list_all (\<lambda>c. digit_val c \<noteq> None) s"

definition parsePort :: "string \<Rightarrow> address_error + int" where
  "parsePort s =
     (case Atoi s of
        None \<Rightarrow> Inl PortRange
      | Some p \<Rightarrow> if p < 1 \<or> p > 65535 then Inl PortRange else Inr p)"

text \<open>What follows the user name: the host and the port.\<close>

definition parse_host_port :: "string \<Rightarrow> address_error + string \<times> int" where
  "parse_host_port rest =
     (if has_prefix rest ''[''
      then (case index_byte_of CHR '']'' rest of
              None \<Rightarrow> Inl UnclosedBracket
            | Some close \<Rightarrow>
                let host = drop 1 (take close rest); after = drop (close + 1) rest in
                if has_prefix after '':''
                then (case parsePort (drop 1 after) of Inl e \<Rightarrow> Inl e | Inr p \<Rightarrow> Inr (host, p))
                else if after \<noteq> [] then Inl AfterBracket
                else Inr (host, defaultPort))
      else (case last_index CHR '':'' rest of
              None \<Rightarrow> Inr (rest, defaultPort)
            | Some colon \<Rightarrow>
                if all_digits (drop (colon + 1) rest)
                then (case parsePort (drop (colon + 1) rest) of
                        Inl e \<Rightarrow> Inl e
                      | Inr p \<Rightarrow> Inr (take colon rest, p))
                else Inr (rest, defaultPort)))"

definition ParseEndpointAddress :: "string \<Rightarrow> address_error + endpoint_address" where
  "ParseEndpointAddress address =
     (let trimmed = trim_space address in
      if trimmed = [] then Inl EmptyAddress
      else let (username, rest) =
                 (case index_byte_of CHR ''@'' trimmed of
                    None \<Rightarrow> (defaultUsername, trimmed)
                  | Some at \<Rightarrow> (take at trimmed, drop (at + 1) trimmed))
           in if username = [] then Inl EmptyUsername
              else case parse_host_port rest of
                     Inl e \<Rightarrow> Inl e
                   | Inr (host, port) \<Rightarrow>
                       if host = [] then Inl EmptyHost
                       else Inr \<lparr>ea_Username = username, ea_Host = host, ea_Port = port\<rparr>)"

definition FormatEndpointAddress :: "endpoint_address \<Rightarrow> string" where
  "FormatEndpointAddress ep =
     (if ea_Port ep \<noteq> defaultPort
      then ea_Username ep @ ''@'' @ ea_Host ep @ '':'' @ Itoa (ea_Port ep)
      else ea_Username ep @ ''@'' @ ea_Host ep)"

section \<open>Printing and parsing\<close>

lemma index_byte_of_append: "c \<notin> set u \<Longrightarrow> index_byte_of c (u @ c # r) = Some (length u)"
  by (simp add: index_byte_of_def takeWhile_append)

lemma last_index_append: "c \<notin> set r \<Longrightarrow> last_index c (u @ c # r) = Some (length u)"
  by (simp add: last_index_def takeWhile_append)

lemma Atoi_Itoa:
  assumes "0 \<le> p" "in_i64 p"
  shows "Atoi (Itoa p) = Some p"
proof -
  have "digit_val (hd (dec_digits (nat p))) \<noteq> None" by (rule dec_digits_digits [of _ "nat p"]) simp
  then have "hd (dec_digits (nat p)) \<noteq> CHR ''-''" "hd (dec_digits (nat p)) \<noteq> CHR ''+''" by (auto simp: digit_val_def)
  with assms show ?thesis by (simp add: Atoi_def Itoa_def dtoi_digits Let_def)
qed

lemma all_digits_Itoa: "0 \<le> p \<Longrightarrow> all_digits (Itoa p)"
  using dec_digits_digits by (auto simp: all_digits_def Itoa_def list_all_iff)

lemma colon_not_digit: "all_digits s \<Longrightarrow> CHR '':'' \<notin> set s"
  by (auto simp: all_digits_def list_all_iff digit_val_def)

text \<open>The host's own text would be read as ending in a port.\<close>

definition ends_in_port :: "string \<Rightarrow> bool" where
  "ends_in_port h \<longleftrightarrow> (case last_index CHR '':'' h of None \<Rightarrow> False | Some i \<Rightarrow> all_digits (drop (i + 1) h))"

lemma parse_printed_port:
  assumes "\<not> has_prefix h ''[''" "h \<noteq> []" "1 \<le> p" "p \<le> 65535"
  shows "parse_host_port (h @ '':'' @ Itoa p) = Inr (h, p)"
proof -
  have "\<not> has_prefix (h @ '':'' @ Itoa p) ''[''" using assms(1,2) by (cases h) (auto simp: has_prefix_def)
  moreover have "last_index CHR '':'' (h @ '':'' @ Itoa p) = Some (length h)"
    using last_index_append colon_not_digit all_digits_Itoa assms(3) by simp
  moreover have "parsePort (Itoa p) = Inr p"
    using assms(3,4) Atoi_Itoa [of p] by (simp add: parsePort_def in_i64_def)
  ultimately show ?thesis using assms(3) by (simp add: parse_host_port_def all_digits_Itoa)
qed

lemma parse_plain_host:
  "\<not> has_prefix h ''['' \<Longrightarrow> \<not> ends_in_port h \<Longrightarrow> parse_host_port h = Inr (h, defaultPort)"
  by (auto simp: parse_host_port_def ends_in_port_def split: option.splits)

text \<open>
  An endpoint's printed address parses back to the endpoint: user name, host and port, for every
  user name without an at sign, every host that is not written in brackets, and every valid port,
  provided that a host printed without its port does not itself end in a colon and digits and that
  the text has no white space at its ends. (An IPv6 host on the default port is exactly the case the
  proviso excludes, and it does not come back, see \<open>ipv6_address_not_printed\<close>.)
\<close>

theorem endpoint_address_roundtrip:
  assumes "ea_Username ep \<noteq> []" "CHR ''@'' \<notin> set (ea_Username ep)"
    and "ea_Host ep \<noteq> []" "\<not> has_prefix (ea_Host ep) ''[''" "1 \<le> ea_Port ep" "ea_Port ep \<le> 65535"
    and "ea_Port ep = 22 \<longrightarrow> \<not> ends_in_port (ea_Host ep)"
    and "trim_space (FormatEndpointAddress ep) = FormatEndpointAddress ep"
  shows "ParseEndpointAddress (FormatEndpointAddress ep) = Inr ep"
proof -
  define tail where "tail = (if ea_Port ep \<noteq> 22 then ea_Host ep @ '':'' @ Itoa (ea_Port ep) else ea_Host ep)"
  have printed: "FormatEndpointAddress ep = ea_Username ep @ CHR ''@'' # tail"
    by (simp add: FormatEndpointAddress_def tail_def defaultPort_def)
  have "parse_host_port tail = Inr (ea_Host ep, ea_Port ep)"
    using assms(3-7) parse_printed_port parse_plain_host by (simp add: tail_def defaultPort_def)
  then show ?thesis
    using assms(1-3,8) unfolding printed by (simp add: ParseEndpointAddress_def index_byte_of_append)
qed

lemma trim_space_ends:
  "s \<noteq> [] \<Longrightarrow> space_len space_runes s = 0 \<Longrightarrow> space_len (map rev space_runes) (rev s) = 0 \<Longrightarrow> trim_space s = s"
  by (simp add: trim_space_def trim_left.simps)

theorem endpoint_address_roundtrip_witness:
  "ParseEndpointAddress (FormatEndpointAddress \<lparr>ea_Username = ''root'', ea_Host = ''fe80::1'', ea_Port = 2222\<rparr>) =
     Inr \<lparr>ea_Username = ''root'', ea_Host = ''fe80::1'', ea_Port = 2222\<rparr>"
proof -
  have printed: "FormatEndpointAddress \<lparr>ea_Username = ''root'', ea_Host = ''fe80::1'', ea_Port = 2222\<rparr> = ''root@fe80::1:2222''"
    by (simp add: FormatEndpointAddress_def defaultPort_def Itoa_def dec_digits.simps char_of_def bit_0)
  have "trim_space ''root@fe80::1:2222'' = ''root@fe80::1:2222''"
    by (rule trim_space_ends) (simp_all add: space_len_def space_runes_def has_prefix_def)
  with printed show ?thesis by (intro endpoint_address_roundtrip) (simp_all add: has_prefix_def)
qed

text \<open>
  An IPv6 host parses from its bracketed form and is printed without brackets: read again, its last
  group is taken for the port.
\<close>

theorem ipv6_address_not_printed:
  "\<exists>ep. ParseEndpointAddress ''root@[::1]'' = Inr ep \<and> ea_Host ep = ''::1'' \<and> ea_Port ep = 22
     \<and> ParseEndpointAddress (FormatEndpointAddress ep) = Inr (ep\<lparr>ea_Host := '':'', ea_Port := 1\<rparr>)"
proof -
  have t: "trim_space ''root@[::1]'' = ''root@[::1]''" "trim_space ''root@::1'' = ''root@::1''"
    by (rule trim_space_ends; simp add: space_len_def space_runes_def has_prefix_def)+
  have p1: "ParseEndpointAddress ''root@[::1]'' = Inr \<lparr>ea_Username = ''root'', ea_Host = ''::1'', ea_Port = 22\<rparr>"
    by (simp add: ParseEndpointAddress_def t index_byte_of_def parse_host_port_def has_prefix_def defaultPort_def)
  have "parsePort ''1'' = Inr 1" by (simp add: parsePort_def Atoi_def digit_val_def in_i64_def)
  then have p2: "ParseEndpointAddress ''root@::1'' = Inr \<lparr>ea_Username = ''root'', ea_Host = '':'', ea_Port = 1\<rparr>"
    by (simp add: ParseEndpointAddress_def t index_byte_of_def parse_host_port_def has_prefix_def last_index_def all_digits_def digit_val_def)
  show ?thesis
    by (rule exI [of _ "\<lparr>ea_Username = ''root'', ea_Host = ''::1'', ea_Port = 22\<rparr>"])
      (simp add: p1, simp add: FormatEndpointAddress_def defaultPort_def p2)
qed

end
