(* ===== verification/Config.thy ===== *)
theory Config
  imports Complex_Main Endpoint_Address Endpoint_Service
begin

text \<open>
  \<open>src/internal/config/config.go\<close>: the configuration, its defaults, its validation, and what \<open>Load\<close>
  derives from it.

  The YAML decoder (goccy/go-yaml), the key-line parser of \<open>golang.org/x/crypto\<close> and the operating
  system are arguments (\<open>cfg_env\<close>), as are the standard library's URL parser, regular-expression
  compiler and PEM reader, of which the code only asks whether they accept a text. The checks of the
  four rate limits run in the order of a Go map, which is unspecified: \<open>ce_rules\<close> is that order. A
  slice that may be nil is an option; a \<open>float64\<close> is an exact number, an infinity or \<open>NaN\<close>, which
  compares with nothing.
\<close>

section \<open>Paths\<close>

definition IsAbs :: "string \<Rightarrow> bool" where
  "IsAbs p \<longleftrightarrow> has_prefix p ''/''"

text \<open>\<open>filepath.Clean\<close>; \<open>out\<close> is the list of kept elements, last first.\<close>

fun clean_elems :: "bool \<Rightarrow> string list \<Rightarrow> string list \<Rightarrow> string list" where
  "clean_elems rooted out [] = rev out"
| "clean_elems rooted out (e # es) =
     (if e = [] \<or> e = ''.'' then clean_elems rooted out es
      else if e = ''..''
      then (case out of
              [] \<Rightarrow> clean_elems rooted (if rooted then [] else [''..'']) es
            | o1 # os \<Rightarrow> if o1 = ''..'' then clean_elems rooted (''..'' # out) es else clean_elems rooted os es)
      else clean_elems rooted (e # out) es)"

definition path_Clean :: "string \<Rightarrow> string" where
  "path_Clean p =
     (if p = [] then ''.''
      else let body = join_with ''/'' (clean_elems (IsAbs p) [] (split_on CHR ''/'' p)) in
           if IsAbs p then ''/'' @ body else if body = [] then ''.'' else body)"

definition path_Join :: "string \<Rightarrow> string \<Rightarrow> string" where
  "path_Join a b =
     (if a = [] \<and> b = [] then [] else if a = [] then path_Clean b else path_Clean (a @ ''/'' @ b))"

definition path_Dir :: "string \<Rightarrow> string" where
  "path_Dir p =
     path_Clean (case last_index CHR ''/'' p of None \<Rightarrow> [] | Some i \<Rightarrow> take (i + 1) p)"

text \<open>\<open>filepath.Abs\<close>; \<open>cwd\<close> is the answer of \<open>os.Getwd\<close>.\<close>

definition path_Abs :: "string option \<Rightarrow> string \<Rightarrow> string option" where
  "path_Abs cwd p = (if IsAbs p then Some (path_Clean p) else map_option (\<lambda>d. path_Join d p) cwd)"

section \<open>Values\<close>

datatype gofloat = NaN | PosInf | NegInf | Fin rat

fun fl_less :: "gofloat \<Rightarrow> gofloat \<Rightarrow> bool" where
  "fl_less (Fin a) (Fin b) \<longleftrightarrow> a < b"
| "fl_less NegInf (Fin b) \<longleftrightarrow> True"
| "fl_less NegInf PosInf \<longleftrightarrow> True"
| "fl_less (Fin a) PosInf \<longleftrightarrow> True"
| "fl_less _ _ \<longleftrightarrow> False"

definition fl_eq :: "gofloat \<Rightarrow> gofloat \<Rightarrow> bool" where
  "fl_eq a b \<longleftrightarrow> a = b \<and> a \<noteq> NaN"

definition fl_le :: "gofloat \<Rightarrow> gofloat \<Rightarrow> bool" where
  "fl_le a b \<longleftrightarrow> fl_less a b \<or> fl_eq a b"

datatype yaml_any = YNull | YBool bool | YStr string | YNumber gofloat | YList "yaml_any list" | YMap "(string \<times> yaml_any) list"

record host_key_line =
  hl_Type :: string
  hl_Key :: "byte list option"
  hl_Fingerprint :: string

record seed_entry =
  sn_Label :: string
  sn_Address :: string
  sn_AgentForward :: "bool option"
  sn_Description :: "string option"
  sn_HostKey :: "string option"
  sn_Parsed :: endpoint_address
  sn_ParsedHostKey :: "host_key_line option"

record seed_admin_passkey =
  ap_CredentialID :: string
  ap_PublicKeyHex :: string
  ap_Counter :: int
  ap_Transports :: "string list option"
  ap_Label :: string

record rate_limit_rule =
  rr_Max :: int
  rr_WindowMinutes :: int

record rate_limits =
  rl_SelfRegister :: rate_limit_rule
  rl_PasskeyRegister :: rate_limit_rule
  rl_LoginOptions :: rate_limit_rule
  rl_LoginVerify :: rate_limit_rule

record security_cfg =
  sc_RpID :: string
  sc_AllowedNetworks :: "string list option"
  sc_SelfRegistrationEnabled :: bool
  sc_RateLimit :: rate_limits
  sc_TrustedWebauthnOrigins :: "string list"

record server_cfg =
  sv_Port :: int
  sv_ExternalURL :: string
  sv_TrustProxy :: yaml_any

record sessions_cfg =
  ss_IdleTimeoutMinutes :: gofloat
  ss_CleanupIntervalSeconds :: gofloat

record hydra_spa =
  hs_ClientID :: string
  hs_RedirectURI :: string

record hydra_dcr =
  hd_AllowedScopes :: "string list option"
  hd_RedirectURIPatterns :: "string list option"

record hydra_cimd =
  hc_Enabled :: "bool option"
  hc_AllowedHosts :: "string list"
  hc_BlockedHosts :: "string list"
  hc_CacheMinSeconds :: int
  hc_CacheMaxSeconds :: int
  hc_ExtraCaBundlePath :: string
  hc_AllowLoopbackDocuments :: bool

record hydra_cfg =
  hg_PublicURL :: string
  hg_AdminURL :: string
  hg_Spa :: hydra_spa
  hg_IntrospectionCacheTtlMs :: "int option"
  hg_Dcr :: hydra_dcr
  hg_Cimd :: hydra_cimd
  hg_DevProxyUpstream :: string

record vapid_cfg =
  vp_Subject :: string
  vp_PublicKey :: string
  vp_PrivateKey :: string

record config =
  cf_KeyDirectory :: string
  cf_SeedAdminEndpoints :: "seed_entry list"
  cf_SeedAdminPasskeys :: "seed_admin_passkey list"
  cf_DemoEndpoints :: "seed_entry list"
  cf_Server :: server_cfg
  cf_Security :: security_cfg
  cf_DebounceMs :: int
  cf_SessionTimeoutMinutes :: "int option"
  cf_ProxyEnabled :: bool
  cf_Sessions :: sessions_cfg
  cf_Hydra :: hydra_cfg
  cf_Vapid :: "vapid_cfg option"

record cfg_env =
  ce_getenv :: string
  ce_cwd :: "string option"
  ce_ReadFile :: "string \<Rightarrow> string option"
  ce_Unmarshal :: "string \<Rightarrow> config option"
  ce_ParseURL :: "string \<Rightarrow> (string \<times> string) option"
  ce_Compile :: "string \<Rightarrow> bool"
  ce_HasPEM :: "string \<Rightarrow> bool"
  ce_ParseAuthorizedKey :: "string \<Rightarrow> pub_key option"
  ce_FingerprintSHA256 :: "byte list \<Rightarrow> string"
  ce_rules :: "string list"

section \<open>Defaults\<close>

definition defaultAllowedNetworks :: "string list" where
  "defaultAllowedNetworks = [''127.0.0.1/32'', ''::1/128'']"

definition defaultRateLimit :: rate_limits where
  "defaultRateLimit =
     \<lparr>rl_SelfRegister = \<lparr>rr_Max = 5, rr_WindowMinutes = 15\<rparr>, rl_PasskeyRegister = \<lparr>rr_Max = 10, rr_WindowMinutes = 15\<rparr>,
      rl_LoginOptions = \<lparr>rr_Max = 20, rr_WindowMinutes = 15\<rparr>, rl_LoginVerify = \<lparr>rr_Max = 10, rr_WindowMinutes = 15\<rparr>\<rparr>"

definition defaultDcrAllowedScopes :: "string list" where
  "defaultDcrAllowedScopes = [''mcp'', ''agent'']"

definition defaultDcrRedirectURIPatterns :: "string list" where
  "defaultDcrRedirectURIPatterns =
     [''^http://(127'' @ [CHR 92] @ ''.0'' @ [CHR 92] @ ''.0'' @ [CHR 92] @ ''.1|localhost)(:'' @ [CHR 92] @ ''d+)?(/.*)?$'',
      ''^http://'' @ [CHR 92] @ ''[::1'' @ [CHR 92] @ ''](:'' @ [CHR 92] @ ''d+)?(/.*)?$'']"

definition defaultIntrospectionCacheTtlMs :: int where "defaultIntrospectionCacheTtlMs = 60000"

definition defaultCimdCacheMinSeconds :: int where "defaultCimdCacheMinSeconds = 300"

definition defaultCimdCacheMaxSeconds :: int where "defaultCimdCacheMaxSeconds = 86400"

definition defaultIdleTimeoutMinutes :: gofloat where "defaultIdleTimeoutMinutes = Fin 30"

definition defaultCleanupIntervalSeconds :: gofloat where "defaultCleanupIntervalSeconds = Fin 60"

definition or_default :: "string \<Rightarrow> string \<Rightarrow> string" where
  "or_default d s = (if s = [] then d else s)"

definition or_some :: "'a \<Rightarrow> 'a option \<Rightarrow> 'a option" where
  "or_some d x = (case x of None \<Rightarrow> Some d | Some v \<Rightarrow> Some v)"

definition or_int :: "int \<Rightarrow> int \<Rightarrow> int" where
  "or_int d n = (if n = 0 then d else n)"

definition or_float :: "gofloat \<Rightarrow> gofloat \<Rightarrow> gofloat" where
  "or_float d v = (if fl_eq v (Fin 0) then d else v)"

definition fillRule :: "rate_limit_rule \<Rightarrow> rate_limit_rule \<Rightarrow> rate_limit_rule" where
  "fillRule d r = \<lparr>rr_Max = or_int (rr_Max d) (rr_Max r), rr_WindowMinutes = or_int (rr_WindowMinutes d) (rr_WindowMinutes r)\<rparr>"

definition default_server :: "server_cfg \<Rightarrow> server_cfg" where
  "default_server s = s\<lparr>sv_Port := or_int 3000 (sv_Port s),
     sv_TrustProxy := (if sv_TrustProxy s = YNull then YBool False else sv_TrustProxy s)\<rparr>"

definition default_security :: "security_cfg \<Rightarrow> security_cfg" where
  "default_security s =
     (let rl = sc_RateLimit s; d = defaultRateLimit in
      s\<lparr>sc_AllowedNetworks := or_some defaultAllowedNetworks (sc_AllowedNetworks s),
        sc_RateLimit :=
          \<lparr>rl_SelfRegister = fillRule (rl_SelfRegister d) (rl_SelfRegister rl),
           rl_PasskeyRegister = fillRule (rl_PasskeyRegister d) (rl_PasskeyRegister rl),
           rl_LoginOptions = fillRule (rl_LoginOptions d) (rl_LoginOptions rl),
           rl_LoginVerify = fillRule (rl_LoginVerify d) (rl_LoginVerify rl)\<rparr>\<rparr>)"

definition default_sessions :: "sessions_cfg \<Rightarrow> sessions_cfg" where
  "default_sessions s =
     \<lparr>ss_IdleTimeoutMinutes = or_float defaultIdleTimeoutMinutes (ss_IdleTimeoutMinutes s),
      ss_CleanupIntervalSeconds = or_float defaultCleanupIntervalSeconds (ss_CleanupIntervalSeconds s)\<rparr>"

definition default_hydra :: "hydra_cfg \<Rightarrow> hydra_cfg" where
  "default_hydra h =
     (let spa = hg_Spa h; dcr = hg_Dcr h; cimd = hg_Cimd h in
      h\<lparr>hg_Spa := spa\<lparr>hs_ClientID := or_default ''shellwatch-web'' (hs_ClientID spa)\<rparr>,
        hg_IntrospectionCacheTtlMs := or_some defaultIntrospectionCacheTtlMs (hg_IntrospectionCacheTtlMs h),
        hg_Dcr := \<lparr>hd_AllowedScopes = or_some defaultDcrAllowedScopes (hd_AllowedScopes dcr),
                   hd_RedirectURIPatterns = or_some defaultDcrRedirectURIPatterns (hd_RedirectURIPatterns dcr)\<rparr>,
        hg_Cimd := cimd\<lparr>hc_Enabled := or_some True (hc_Enabled cimd),
                        hc_CacheMinSeconds := or_int defaultCimdCacheMinSeconds (hc_CacheMinSeconds cimd),
                        hc_CacheMaxSeconds := or_int defaultCimdCacheMaxSeconds (hc_CacheMaxSeconds cimd)\<rparr>\<rparr>)"

definition default_passkey :: "seed_admin_passkey \<Rightarrow> seed_admin_passkey" where
  "default_passkey p = p\<lparr>ap_Label := or_default ''Admin Passkey'' (ap_Label p), ap_Transports := or_some [] (ap_Transports p)\<rparr>"

definition applyDefaults :: "config \<Rightarrow> config" where
  "applyDefaults c =
     c\<lparr>cf_KeyDirectory := or_default ''./keys'' (cf_KeyDirectory c),
       cf_Server := default_server (cf_Server c),
       cf_Security := default_security (cf_Security c),
       cf_DebounceMs := or_int 100 (cf_DebounceMs c),
       cf_Sessions := default_sessions (cf_Sessions c),
       cf_Hydra := default_hydra (cf_Hydra c),
       cf_SeedAdminPasskeys := map default_passkey (cf_SeedAdminPasskeys c)\<rparr>"

section \<open>Validation\<close>

datatype cfg_error =
    ErrPort | ErrExternalURL | ErrTrustHops | ErrTrustEntries | ErrTrustType
  | ErrRpID | ErrNoOrigins | ErrOrigin string | ErrRateLimit string | ErrDebounce | ErrSessionTimeout
  | ErrIdleTimeout | ErrCleanupInterval | ErrPublicURL | ErrAdminURL | ErrRedirectURI | ErrDevProxy
  | ErrCacheTtl | ErrPattern string | ErrCacheBounds | ErrCaUnreadable string | ErrCaEmpty string | ErrHost string
  | ErrSeedLabel nat | ErrDemoLabel nat | ErrDescription string | ErrPasskey nat
  | ErrVapidSubject | ErrVapidPublicKey | ErrVapidPrivateKey

definition isURL :: "cfg_env \<Rightarrow> string \<Rightarrow> bool" where
  "isURL env s = (case ce_ParseURL env s of None \<Rightarrow> False | Some (scheme, host) \<Rightarrow> scheme \<noteq> [] \<and> host \<noteq> [])"

definition err_if :: "bool \<Rightarrow> cfg_error \<Rightarrow> cfg_error list" where
  "err_if b e = (if b then [e] else [])"

fun is_YStr :: "yaml_any \<Rightarrow> bool" where
  "is_YStr (YStr s) \<longleftrightarrow> True"
| "is_YStr _ \<longleftrightarrow> False"

fun validate_trustProxy :: "yaml_any \<Rightarrow> cfg_error list" where
  "validate_trustProxy (YBool b) = []"
| "validate_trustProxy (YStr s) = []"
| "validate_trustProxy (YNumber n) = [ErrTrustHops]"
| "validate_trustProxy (YList es) = err_if (\<not> list_all is_YStr es) ErrTrustEntries"
| "validate_trustProxy _ = [ErrTrustType]"

definition validate_server :: "cfg_env \<Rightarrow> server_cfg \<Rightarrow> cfg_error list" where
  "validate_server env s =
     err_if (sv_Port s < 1 \<or> sv_Port s > 65535) ErrPort @
     err_if (\<not> isURL env (sv_ExternalURL s)) ErrExternalURL @
     validate_trustProxy (sv_TrustProxy s)"

definition rule_named :: "rate_limits \<Rightarrow> string \<Rightarrow> rate_limit_rule option" where
  "rule_named rl = map_of [(''selfRegister'', rl_SelfRegister rl), (''passkeyRegister'', rl_PasskeyRegister rl),
     (''loginOptions'', rl_LoginOptions rl), (''loginVerify'', rl_LoginVerify rl)]"

definition validate_rule :: "rate_limits \<Rightarrow> string \<Rightarrow> cfg_error list" where
  "validate_rule rl name =
     (case rule_named rl name of
        None \<Rightarrow> []
      | Some r \<Rightarrow> err_if (rr_Max r < 1 \<or> rr_WindowMinutes r < 1) (ErrRateLimit name))"

definition validate_security :: "cfg_env \<Rightarrow> security_cfg \<Rightarrow> cfg_error list" where
  "validate_security env s =
     err_if (sc_RpID s = []) ErrRpID @
     err_if (length (sc_TrustedWebauthnOrigins s) = 0) ErrNoOrigins @
     concat (map (\<lambda>o'. err_if (\<not> has_prefix o' ''http://'' \<and> \<not> has_prefix o' ''https://'') (ErrOrigin o'))
       (sc_TrustedWebauthnOrigins s)) @
     concat (map (validate_rule (sc_RateLimit s)) (ce_rules env))"

definition validate_sessions :: "sessions_cfg \<Rightarrow> cfg_error list" where
  "validate_sessions s =
     (let v = ss_IdleTimeoutMinutes s; w = ss_CleanupIntervalSeconds s in
      err_if (fl_le v (Fin 0) \<or> fl_less (Fin 1440) v) ErrIdleTimeout @
      err_if (fl_le w (Fin 0) \<or> fl_less (Fin 3600) w) ErrCleanupInterval)"

definition validate_ca :: "cfg_env \<Rightarrow> string \<Rightarrow> cfg_error list" where
  "validate_ca env p =
     (if p = [] then []
      else case ce_ReadFile env p of
             None \<Rightarrow> [ErrCaUnreadable p]
           | Some raw \<Rightarrow> err_if (\<not> ce_HasPEM env raw) (ErrCaEmpty p))"

definition bare_host :: "string \<Rightarrow> bool" where
  "bare_host h \<longleftrightarrow> \<not> (CHR ''/'' \<in> set h \<or> CHR '':'' \<in> set h \<or> trim_space h = [])"

definition validate_cimd :: "cfg_env \<Rightarrow> hydra_cimd \<Rightarrow> cfg_error list" where
  "validate_cimd env c =
     err_if (hc_CacheMinSeconds c < 1 \<or> hc_CacheMaxSeconds c < 1 \<or> hc_CacheMinSeconds c > hc_CacheMaxSeconds c) ErrCacheBounds @
     validate_ca env (hc_ExtraCaBundlePath c) @
     concat (map (\<lambda>h. err_if (\<not> bare_host h) (ErrHost h)) (hc_AllowedHosts c @ hc_BlockedHosts c))"

text \<open>The lifetime is read through its pointer, which \<open>applyDefaults\<close> has set.\<close>

definition validate_hydra :: "cfg_env \<Rightarrow> hydra_cfg \<Rightarrow> cfg_error list" where
  "validate_hydra env h =
     err_if (\<not> isURL env (hg_PublicURL h)) ErrPublicURL @
     err_if (\<not> isURL env (hg_AdminURL h)) ErrAdminURL @
     err_if (hs_RedirectURI (hg_Spa h) \<noteq> [] \<and> \<not> isURL env (hs_RedirectURI (hg_Spa h))) ErrRedirectURI @
     err_if (hg_DevProxyUpstream h \<noteq> [] \<and> \<not> isURL env (hg_DevProxyUpstream h)) ErrDevProxy @
     (case hg_IntrospectionCacheTtlMs h of None \<Rightarrow> [] | Some ttl \<Rightarrow> err_if (ttl < 0 \<or> ttl > 300000) ErrCacheTtl) @
     concat (map (\<lambda>p. err_if (\<not> ce_Compile env p) (ErrPattern p))
       (case hd_RedirectURIPatterns (hg_Dcr h) of None \<Rightarrow> [] | Some ps \<Rightarrow> ps)) @
     validate_cimd env (hg_Cimd h)"

definition indexed :: "(nat \<Rightarrow> 'a \<Rightarrow> cfg_error list) \<Rightarrow> 'a list \<Rightarrow> cfg_error list" where
  "indexed f xs = concat (map (\<lambda>(i, x). f i x) (enumerate 0 xs))"

definition validate_seeds :: "config \<Rightarrow> cfg_error list" where
  "validate_seeds c =
     indexed (\<lambda>i e. err_if (sn_Label e = []) (ErrSeedLabel i)) (cf_SeedAdminEndpoints c) @
     indexed (\<lambda>i e. err_if (sn_Label e = []) (ErrDemoLabel i)) (cf_DemoEndpoints c) @
     concat (map (\<lambda>e. err_if (case sn_Description e of None \<Rightarrow> False | Some d \<Rightarrow> length d > 1000) (ErrDescription (sn_Label e)))
       (cf_SeedAdminEndpoints c @ cf_DemoEndpoints c)) @
     indexed (\<lambda>i p. err_if (ap_CredentialID p = [] \<or> ap_PublicKeyHex p = []) (ErrPasskey i)) (cf_SeedAdminPasskeys c)"

definition validate_vapid :: "vapid_cfg option \<Rightarrow> cfg_error list" where
  "validate_vapid v =
     (case v of
        None \<Rightarrow> []
      | Some v \<Rightarrow> err_if (vp_Subject v = []) ErrVapidSubject @ err_if (vp_PublicKey v = []) ErrVapidPublicKey @
                 err_if (vp_PrivateKey v = []) ErrVapidPrivateKey)"

definition validate :: "cfg_env \<Rightarrow> config \<Rightarrow> cfg_error list" where
  "validate env c =
     validate_server env (cf_Server c) @
     validate_security env (cf_Security c) @
     err_if (cf_DebounceMs c < 10 \<or> cf_DebounceMs c > 5000) ErrDebounce @
     err_if (cf_SessionTimeoutMinutes c \<noteq> None) ErrSessionTimeout @
     validate_sessions (cf_Sessions c) @
     validate_hydra env (cf_Hydra c) @
     validate_seeds c @
     validate_vapid (cf_Vapid c)"

section \<open>Loading\<close>

datatype load_error =
    LoadPath | LoadRead string | LoadYAML string | LoadInvalid string "cfg_error list"
  | LoadSeedAddress string nat | LoadDemoAddress string nat

definition ParseHostKey :: "cfg_env \<Rightarrow> string \<Rightarrow> host_key_line option" where
  "ParseHostKey env s =
     (let s = trim_space s in
      if s = [] then None
      else if has_prefix s ''SHA256:'' then Some \<lparr>hl_Type = [], hl_Key = None, hl_Fingerprint = s\<rparr>
      else map_option (\<lambda>k. \<lparr>hl_Type = pk_type k, hl_Key = Some (pk_blob k), hl_Fingerprint = ce_FingerprintSHA256 env (pk_blob k)\<rparr>)
             (ce_ParseAuthorizedKey env s))"

definition parseAddress :: "cfg_env \<Rightarrow> seed_entry \<Rightarrow> seed_entry option" where
  "parseAddress env e =
     (case ParseEndpointAddress (sn_Address e) of
        Inl _ \<Rightarrow> None
      | Inr parsed \<Rightarrow>
          let e = e\<lparr>sn_Parsed := parsed\<rparr> in
          case sn_HostKey e of
            None \<Rightarrow> Some e
          | Some line \<Rightarrow> map_option (\<lambda>hk. e\<lparr>sn_ParsedHostKey := Some hk\<rparr>) (ParseHostKey env line))"

text \<open>The loop over a list of entries: the entries parsed, or the index of the first that fails.\<close>

fun parse_entries :: "cfg_env \<Rightarrow> nat \<Rightarrow> seed_entry list \<Rightarrow> nat + seed_entry list" where
  "parse_entries env i [] = Inr []"
| "parse_entries env i (e # es) =
     (case parseAddress env e of
        None \<Rightarrow> Inl i
      | Some e' \<Rightarrow> (case parse_entries env (i + 1) es of Inl j \<Rightarrow> Inl j | Inr es' \<Rightarrow> Inr (e' # es')))"

definition derive_keyDirectory :: "cfg_env \<Rightarrow> string \<Rightarrow> string \<Rightarrow> string" where
  "derive_keyDirectory env resolved dir =
     (let dir = (if IsAbs dir then dir else path_Join (path_Dir resolved) dir) in
      case path_Abs (ce_cwd env) dir of None \<Rightarrow> dir | Some a \<Rightarrow> a)"

definition derive_redirectURI :: "config \<Rightarrow> string" where
  "derive_redirectURI c =
     (let u = hs_RedirectURI (hg_Spa (cf_Hydra c)) in
      if u = [] then trim_right_char CHR ''/'' (sv_ExternalURL (cf_Server c)) @ ''/auth/callback'' else u)"

definition derive :: "cfg_env \<Rightarrow> string \<Rightarrow> config \<Rightarrow> config" where
  "derive env resolved c =
     c\<lparr>cf_KeyDirectory := derive_keyDirectory env resolved (cf_KeyDirectory c),
       cf_Hydra := (cf_Hydra c)\<lparr>hg_Spa := (hg_Spa (cf_Hydra c))\<lparr>hs_RedirectURI := derive_redirectURI c\<rparr>\<rparr>\<rparr>"

definition Load :: "cfg_env \<Rightarrow> string \<Rightarrow> load_error + config" where
  "Load env configPath =
     (let path = or_default (or_default ''config.yaml'' (ce_getenv env)) configPath in
      case path_Abs (ce_cwd env) path of
        None \<Rightarrow> Inl LoadPath
      | Some resolved \<Rightarrow>
          (case ce_ReadFile env resolved of
             None \<Rightarrow> Inl (LoadRead resolved)
           | Some raw \<Rightarrow>
               (case ce_Unmarshal env raw of
                  None \<Rightarrow> Inl (LoadYAML resolved)
                | Some c \<Rightarrow>
                    let c = applyDefaults c; errs = validate env c in
                    if errs \<noteq> [] then Inl (LoadInvalid resolved errs)
                    else let c = derive env resolved c in
                         case parse_entries env 0 (cf_SeedAdminEndpoints c) of
                           Inl i \<Rightarrow> Inl (LoadSeedAddress resolved i)
                         | Inr seeds \<Rightarrow>
                             (case parse_entries env 0 (cf_DemoEndpoints c) of
                                Inl i \<Rightarrow> Inl (LoadDemoAddress resolved i)
                              | Inr demos \<Rightarrow> Inr (c\<lparr>cf_SeedAdminEndpoints := seeds, cf_DemoEndpoints := demos\<rparr>)))))"

section \<open>What a loaded configuration guarantees\<close>

lemma parsePort_range: "parsePort s = Inr p \<Longrightarrow> 1 \<le> p \<and> p \<le> 65535"
  by (auto simp: parsePort_def split: option.splits if_splits)

lemma ParseEndpointAddress_wf:
  assumes "ParseEndpointAddress s = Inr ep"
  shows "ea_Username ep \<noteq> [] \<and> ea_Host ep \<noteq> [] \<and> 1 \<le> ea_Port ep \<and> ea_Port ep \<le> 65535"
proof -
  have "1 \<le> p \<and> p \<le> 65535" if "parse_host_port r = Inr (h, p)" for r h p
    using that by (auto simp: parse_host_port_def defaultPort_def Let_def dest: parsePort_range split: option.splits if_splits sum.splits)
  with assms show ?thesis
    by (auto simp: ParseEndpointAddress_def Let_def split: option.splits if_splits sum.splits prod.splits)
qed

lemma parseAddress_fields:
  "parseAddress env e = Some e' \<Longrightarrow>
     ParseEndpointAddress (sn_Address e') = Inr (sn_Parsed e') \<and> sn_Label e' = sn_Label e \<and> sn_Address e' = sn_Address e"
  by (auto simp: parseAddress_def Let_def split: sum.splits option.splits)

lemma parse_entries_parsed:
  "parse_entries env i es = Inr es' \<Longrightarrow> e \<in> set es' \<Longrightarrow>
     ParseEndpointAddress (sn_Address e) = Inr (sn_Parsed e)"
  by (induction env i es arbitrary: es' rule: parse_entries.induct)
    (auto split: option.splits sum.splits dest: parseAddress_fields)

lemma err_if_Nil [simp]: "err_if b e = [] \<longleftrightarrow> \<not> b"
  by (simp add: err_if_def)

lemma IsAbs_Clean: "IsAbs p \<Longrightarrow> IsAbs (path_Clean p)"
  by (auto simp: path_Clean_def IsAbs_def has_prefix_def Let_def)

lemma IsAbs_Join: "IsAbs a \<Longrightarrow> IsAbs (path_Join a b)"
  using IsAbs_Clean [of "a @ ''/'' @ b"] by (cases a) (auto simp: path_Join_def IsAbs_def has_prefix_def)

lemma IsAbs_Abs: "path_Abs cwd p = Some q \<Longrightarrow> (\<And>d. cwd = Some d \<Longrightarrow> IsAbs d) \<Longrightarrow> IsAbs q"
  by (auto simp: path_Abs_def IsAbs_Clean IsAbs_Join split: if_splits)

lemma IsAbs_Dir:
  assumes "IsAbs p"
  shows "IsAbs (path_Dir p)"
proof -
  obtain r where "p = CHR ''/'' # r" using assms by (cases p) (auto simp: IsAbs_def has_prefix_def)
  then have "IsAbs (take (i + 1) p)" for i by (simp add: IsAbs_def has_prefix_def)
  then show ?thesis using \<open>p = _\<close> by (simp add: path_Dir_def last_index_def IsAbs_Clean split: option.split)
qed

lemma IsAbs_derive:
  assumes "IsAbs resolved" "\<And>d. ce_cwd env = Some d \<Longrightarrow> IsAbs d"
  shows "IsAbs (derive_keyDirectory env resolved dir)"
  using assms IsAbs_Abs [of "ce_cwd env"] IsAbs_Join [OF IsAbs_Dir [OF assms(1)], of dir]
  by (auto simp: derive_keyDirectory_def Let_def split: option.split)

lemma rules_checked:
  assumes "set (ce_rules env) = {''selfRegister'', ''passkeyRegister'', ''loginOptions'', ''loginVerify''}"
    and "concat (map (validate_rule rl) (ce_rules env)) = []"
    and "r \<in> {rl_SelfRegister rl, rl_PasskeyRegister rl, rl_LoginOptions rl, rl_LoginVerify rl}"
  shows "1 \<le> rr_Max r \<and> 1 \<le> rr_WindowMinutes r"
proof -
  have *: "validate_rule rl ''selfRegister'' = []" "validate_rule rl ''passkeyRegister'' = []"
    "validate_rule rl ''loginOptions'' = []" "validate_rule rl ''loginVerify'' = []"
    using assms(1,2) by (simp_all only: concat_eq_Nil_conv set_map) (blast+)
  show ?thesis
    using assms(3) * [unfolded validate_rule_def rule_named_def, simplified] by auto
qed

lemma indexed_Nil:
  assumes "indexed f xs = []" "x \<in> set xs"
  shows "\<exists>i. f i x = []"
proof -
  obtain i where "i < length xs" "xs ! i = x" using assms(2) by (auto simp: in_set_conv_nth)
  then have "(i, x) \<in> set (enumerate 0 xs)" by (simp add: in_set_enumerate_eq)
  with assms(1) show ?thesis by (auto simp: indexed_def)
qed

text \<open>The pieces of an accepted configuration.\<close>

lemma Load_cases:
  assumes "Load env path = Inr c"
  obtains resolved raw c0 seeds demos where "path_Abs (ce_cwd env) (or_default (or_default ''config.yaml'' (ce_getenv env)) path) = Some resolved"
    "ce_ReadFile env resolved = Some raw" "ce_Unmarshal env raw = Some c0" "validate env (applyDefaults c0) = []"
    "parse_entries env 0 (cf_SeedAdminEndpoints (derive env resolved (applyDefaults c0))) = Inr seeds"
    "parse_entries env 0 (cf_DemoEndpoints (derive env resolved (applyDefaults c0))) = Inr demos"
    "c = (derive env resolved (applyDefaults c0))\<lparr>cf_SeedAdminEndpoints := seeds, cf_DemoEndpoints := demos\<rparr>"
  using assms by (auto simp: Load_def Let_def split: option.splits if_splits sum.splits)

text \<open>The documented ranges of a configuration the program runs on.\<close>

definition interval_ok :: "gofloat \<Rightarrow> rat \<Rightarrow> bool" where
  "interval_ok v hi \<longleftrightarrow> v = NaN \<or> (\<exists>q. v = Fin q \<and> 0 < q \<and> q \<le> hi)"

definition rule_ok :: "rate_limit_rule \<Rightarrow> bool" where
  "rule_ok r \<longleftrightarrow> 1 \<le> rr_Max r \<and> 1 \<le> rr_WindowMinutes r"

definition server_ok :: "server_cfg \<Rightarrow> bool" where
  "server_ok s \<longleftrightarrow> 1 \<le> sv_Port s \<and> sv_Port s \<le> 65535
     \<and> (case sv_TrustProxy s of YBool _ \<Rightarrow> True | YStr _ \<Rightarrow> True | YList es \<Rightarrow> \<forall>e \<in> set es. \<exists>x. e = YStr x | _ \<Rightarrow> False)"

definition security_ok :: "security_cfg \<Rightarrow> bool" where
  "security_ok s \<longleftrightarrow> sc_RpID s \<noteq> [] \<and> sc_AllowedNetworks s \<noteq> None \<and> sc_TrustedWebauthnOrigins s \<noteq> []
     \<and> (\<forall>x \<in> set (sc_TrustedWebauthnOrigins s). has_prefix x ''http://'' \<or> has_prefix x ''https://'')
     \<and> rule_ok (rl_SelfRegister (sc_RateLimit s)) \<and> rule_ok (rl_PasskeyRegister (sc_RateLimit s))
     \<and> rule_ok (rl_LoginOptions (sc_RateLimit s)) \<and> rule_ok (rl_LoginVerify (sc_RateLimit s))"

definition cimd_ok :: "hydra_cimd \<Rightarrow> bool" where
  "cimd_ok c \<longleftrightarrow> hc_Enabled c \<noteq> None \<and> 1 \<le> hc_CacheMinSeconds c \<and> hc_CacheMinSeconds c \<le> hc_CacheMaxSeconds c
     \<and> (\<forall>h \<in> set (hc_AllowedHosts c @ hc_BlockedHosts c). CHR ''/'' \<notin> set h \<and> CHR '':'' \<notin> set h \<and> trim_space h \<noteq> [])"

definition hydra_ok :: "cfg_env \<Rightarrow> hydra_cfg \<Rightarrow> bool" where
  "hydra_ok env h \<longleftrightarrow> isURL env (hg_PublicURL h) \<and> isURL env (hg_AdminURL h) \<and> hs_ClientID (hg_Spa h) \<noteq> []
     \<and> hs_RedirectURI (hg_Spa h) \<noteq> [] \<and> (\<exists>ttl. hg_IntrospectionCacheTtlMs h = Some ttl \<and> 0 \<le> ttl \<and> ttl \<le> 300000)
     \<and> (\<exists>ps. hd_RedirectURIPatterns (hg_Dcr h) = Some ps \<and> (\<forall>p \<in> set ps. ce_Compile env p))
     \<and> hd_AllowedScopes (hg_Dcr h) \<noteq> None \<and> cimd_ok (hg_Cimd h)"

definition entry_ok :: "seed_entry \<Rightarrow> bool" where
  "entry_ok e \<longleftrightarrow> ParseEndpointAddress (sn_Address e) = Inr (sn_Parsed e) \<and> ea_Username (sn_Parsed e) \<noteq> []
     \<and> ea_Host (sn_Parsed e) \<noteq> [] \<and> 1 \<le> ea_Port (sn_Parsed e) \<and> ea_Port (sn_Parsed e) \<le> 65535"

definition config_ok :: "cfg_env \<Rightarrow> config \<Rightarrow> bool" where
  "config_ok env c \<longleftrightarrow> IsAbs (cf_KeyDirectory c) \<and> server_ok (cf_Server c) \<and> isURL env (sv_ExternalURL (cf_Server c))
     \<and> security_ok (cf_Security c) \<and> 10 \<le> cf_DebounceMs c \<and> cf_DebounceMs c \<le> 5000 \<and> cf_SessionTimeoutMinutes c = None
     \<and> interval_ok (ss_IdleTimeoutMinutes (cf_Sessions c)) 1440 \<and> interval_ok (ss_CleanupIntervalSeconds (cf_Sessions c)) 3600
     \<and> hydra_ok env (cf_Hydra c) \<and> (\<forall>e \<in> set (cf_SeedAdminEndpoints c @ cf_DemoEndpoints c). entry_ok e)
     \<and> (\<forall>p \<in> set (cf_SeedAdminPasskeys c). ap_CredentialID p \<noteq> [] \<and> ap_PublicKeyHex p \<noteq> [] \<and> ap_Label p \<noteq> [])"

lemma validate_server_ok: "validate_server env s = [] \<Longrightarrow> server_ok s \<and> isURL env (sv_ExternalURL s)"
proof -
  assume "validate_server env s = []"
  then have *: "1 \<le> sv_Port s" "sv_Port s \<le> 65535" "isURL env (sv_ExternalURL s)" "validate_trustProxy (sv_TrustProxy s) = []"
    by (auto simp: validate_server_def)
  have "is_YStr e \<longleftrightarrow> (\<exists>x. e = YStr x)" for e by (cases e) auto
  with * show ?thesis by (cases "sv_TrustProxy s") (auto simp: server_ok_def list_all_iff)
qed

lemma validate_security_ok:
  assumes "validate_security env s = []" "sc_AllowedNetworks s \<noteq> None"
    and "set (ce_rules env) = {''selfRegister'', ''passkeyRegister'', ''loginOptions'', ''loginVerify''}"
  shows "security_ok s"
proof -
  have "concat (map (validate_rule (sc_RateLimit s)) (ce_rules env)) = []"
    and *: "sc_RpID s \<noteq> []" "sc_TrustedWebauthnOrigins s \<noteq> []"
      "\<forall>x \<in> set (sc_TrustedWebauthnOrigins s). has_prefix x ''http://'' \<or> has_prefix x ''https://''"
    using assms(1) by (auto simp: validate_security_def)
  note rules_checked [OF assms(3) this(1)]
  with * assms(2) show ?thesis by (auto simp: security_ok_def rule_ok_def)
qed

lemma validate_sessions_ok:
  assumes "validate_sessions s = []"
  shows "interval_ok (ss_IdleTimeoutMinutes s) 1440 \<and> interval_ok (ss_CleanupIntervalSeconds s) 3600"
proof -
  have "interval_ok v hi" if "\<not> fl_le v (Fin 0)" "\<not> fl_less (Fin hi) v" for v hi
    using that by (cases v) (auto simp: interval_ok_def fl_le_def fl_eq_def)
  with assms show ?thesis by (auto simp: validate_sessions_def Let_def)
qed

lemma or_some_ex: "\<exists>v. or_some d x = Some v"
  by (cases x) (simp_all add: or_some_def)

lemma validate_hydra_ok:
  assumes "validate_hydra env (default_hydra h) = []" "hs_RedirectURI sp \<noteq> []" "hs_ClientID sp \<noteq> []"
  shows "hydra_ok env (default_hydra h\<lparr>hg_Spa := sp\<rparr>)"
proof -
  obtain ttl where t: "hg_IntrospectionCacheTtlMs (default_hydra h) = Some ttl"
    using or_some_ex [of defaultIntrospectionCacheTtlMs "hg_IntrospectionCacheTtlMs h"] by (auto simp: default_hydra_def Let_def)
  obtain ps where p: "hd_RedirectURIPatterns (hg_Dcr (default_hydra h)) = Some ps"
    using or_some_ex [of defaultDcrRedirectURIPatterns "hd_RedirectURIPatterns (hg_Dcr h)"] by (auto simp: default_hydra_def Let_def)
  have "hd_AllowedScopes (hg_Dcr (default_hydra h)) \<noteq> None" "hc_Enabled (hg_Cimd (default_hydra h)) \<noteq> None"
    by (auto simp: default_hydra_def or_some_def Let_def split: option.split)
  with assms t p show ?thesis
    by (auto simp: validate_hydra_def hydra_ok_def cimd_ok_def validate_cimd_def bare_host_def)
qed


text \<open>A file that says nothing but what is required.\<close>

definition ex_rule :: rate_limit_rule where "ex_rule = \<lparr>rr_Max = 0, rr_WindowMinutes = 0\<rparr>"

definition ex_config :: config where
  "ex_config =
     \<lparr>cf_KeyDirectory = [], cf_SeedAdminEndpoints = [], cf_SeedAdminPasskeys = [], cf_DemoEndpoints = [],
      cf_Server = \<lparr>sv_Port = 0, sv_ExternalURL = ''http://h'', sv_TrustProxy = YNull\<rparr>,
      cf_Security = \<lparr>sc_RpID = ''h'', sc_AllowedNetworks = None, sc_SelfRegistrationEnabled = False,
        sc_RateLimit = \<lparr>rl_SelfRegister = ex_rule, rl_PasskeyRegister = ex_rule, rl_LoginOptions = ex_rule, rl_LoginVerify = ex_rule\<rparr>,
        sc_TrustedWebauthnOrigins = [''http://h'']\<rparr>,
      cf_DebounceMs = 0, cf_SessionTimeoutMinutes = None, cf_ProxyEnabled = False,
      cf_Sessions = \<lparr>ss_IdleTimeoutMinutes = Fin 0, ss_CleanupIntervalSeconds = Fin 0\<rparr>,
      cf_Hydra = \<lparr>hg_PublicURL = ''http://h'', hg_AdminURL = ''http://h'', hg_Spa = \<lparr>hs_ClientID = [], hs_RedirectURI = []\<rparr>,
        hg_IntrospectionCacheTtlMs = None, hg_Dcr = \<lparr>hd_AllowedScopes = None, hd_RedirectURIPatterns = None\<rparr>,
        hg_Cimd = \<lparr>hc_Enabled = None, hc_AllowedHosts = [], hc_BlockedHosts = [], hc_CacheMinSeconds = 0, hc_CacheMaxSeconds = 0,
          hc_ExtraCaBundlePath = [], hc_AllowLoopbackDocuments = False\<rparr>, hg_DevProxyUpstream = []\<rparr>,
      cf_Vapid = None\<rparr>"

definition ex_cfg_env :: "config \<Rightarrow> cfg_env" where
  "ex_cfg_env c =
     \<lparr>ce_getenv = [], ce_cwd = Some ''/'', ce_ReadFile = (\<lambda>p. Some ''yaml''), ce_Unmarshal = (\<lambda>_. Some c),
      ce_ParseURL = (\<lambda>_. Some (''http'', ''h'')), ce_Compile = (\<lambda>_. True), ce_HasPEM = (\<lambda>_. True),
      ce_ParseAuthorizedKey = (\<lambda>_. None), ce_FingerprintSHA256 = (\<lambda>_. []),
      ce_rules = [''loginVerify'', ''selfRegister'', ''loginOptions'', ''passkeyRegister'']\<rparr>"

lemmas config_eval = applyDefaults_def default_server_def default_security_def default_sessions_def default_hydra_def or_int_def
  or_float_def or_some_def or_default_def fl_eq_def fillRule_def ex_rule_def defaultRateLimit_def Let_def
  defaultIdleTimeoutMinutes_def defaultCleanupIntervalSeconds_def defaultCimdCacheMinSeconds_def defaultCimdCacheMaxSeconds_def
  defaultIntrospectionCacheTtlMs_def

lemmas validate_eval = validate_def validate_server_def validate_security_def validate_rule_def rule_named_def validate_sessions_def
  validate_hydra_def validate_cimd_def validate_ca_def validate_seeds_def validate_vapid_def indexed_def isURL_def
  fl_le_def has_prefix_def ex_cfg_env_def

lemma ex_load:
  assumes "validate (ex_cfg_env c) (applyDefaults c) = []" "cf_SeedAdminEndpoints c = []" "cf_DemoEndpoints c = []"
  shows "\<exists>c'. Load (ex_cfg_env c) [] = Inr c' \<and> cf_Sessions c' = default_sessions (cf_Sessions c)"
proof -
  have "\<exists>p. path_Abs (Some ''/'') ''config.yaml'' = Some p" by (simp add: path_Abs_def)
  with assms show ?thesis
    by (auto simp: Load_def ex_cfg_env_def or_default_def Let_def derive_def, simp_all add: applyDefaults_def)
qed


text \<open>A \<open>NaN\<close> is neither below nor above the bounds, so it is accepted as an idle timeout.\<close>

theorem nan_idle_timeout_accepted:
  "\<exists>c c'. ss_IdleTimeoutMinutes (cf_Sessions c) = NaN \<and> Load (ex_cfg_env c) [] = Inr c' \<and> ss_IdleTimeoutMinutes (cf_Sessions c') = NaN"
proof -
  define c where "c = ex_config\<lparr>cf_Sessions := \<lparr>ss_IdleTimeoutMinutes = NaN, ss_CleanupIntervalSeconds = Fin 0\<rparr>\<rparr>"
  have "validate (ex_cfg_env c) (applyDefaults c) = []"
    by (simp add: validate_eval c_def ex_config_def config_eval)
  moreover have "cf_SeedAdminEndpoints c = []" "cf_DemoEndpoints c = []" by (simp_all add: c_def ex_config_def)
  ultimately obtain c' where c': "Load (ex_cfg_env c) [] = Inr c'" "cf_Sessions c' = default_sessions (cf_Sessions c)"
    using ex_load by blast
  have "ss_IdleTimeoutMinutes (cf_Sessions c) = NaN" by (simp add: c_def)
  moreover from this c'(2) have "ss_IdleTimeoutMinutes (cf_Sessions c') = NaN"
    by (simp add: default_sessions_def or_float_def fl_eq_def)
  ultimately show ?thesis using c'(1) by blast
qed

end
