(* ===== verification/Seed.thy ===== *)
theory Seed
  imports Config Credential_Properties Cose
begin

text \<open>
  \<open>src/internal/seed/seed.go\<close>: first-run seeding of the database from the configuration. The account
  table is seen by two groups of queries, so it stands in both halves of \<open>seed_db\<close> (names and admin in
  \<open>sb_id\<close>, the demo column in \<open>sb_eps\<close>). The statements are not in a transaction: each is a step of its
  own, and \<open>seed_faults\<close> says which of them the driver fails. \<open>newID\<close> yields the id of the n-th call.
  The COSE parser of go-webauthn is a parameter, as in \<open>Cose\<close>.
\<close>

section \<open>Seeding\<close>

record seed_db =
  sb_id :: id_db
  sb_eps :: sw_db

record seed_outcome =
  so_SeededAdminAccount :: bool
  so_SeededAdminPasskey :: bool
  so_AdminID :: string

datatype seed_error = SeedDriver | SeedConstraint | SeedNoAdmin

record seed_faults =
  sf_count :: bool
  sf_account :: bool
  sf_singleton :: bool
  sf_admin :: bool
  sf_exists :: "nat \<Rightarrow> bool"
  sf_passkey :: "nat \<Rightarrow> bool"
  sf_epcount :: bool
  sf_endpoint :: "nat \<Rightarrow> bool"

text \<open>\<open>hex.DecodeString\<close>.\<close>

fun hex_decode :: "string \<Rightarrow> byte list option" where
  "hex_decode [] = Some []"
| "hex_decode [_] = None"
| "hex_decode (a # b # s) =
     (case (hex_val a, hex_val b, hex_decode s) of
        (Some x, Some y, Some bs) \<Rightarrow> Some (of_nat (16 * x + y) # bs)
      | _ \<Rightarrow> None)"

text \<open>The first section: the admin account, created when the database has no account.\<close>

definition seed_admin ::
  "seed_faults \<Rightarrow> string \<Rightarrow> string \<Rightarrow> seed_db \<Rightarrow> (seed_error + string \<times> bool) \<times> seed_db"
where
  "seed_admin flt ts newID db =
     (if sf_count flt then (Inl SeedDriver, db)
      else if id_accounts (sb_id db) = []
      then if sf_account flt then (Inl SeedDriver, db)
           else let db = db\<lparr>sb_id := (sb_id db)\<lparr>id_accounts := [(newID,
                      \<lparr>ac_name = ''admin'', ac_enabled = 1, ac_max_sessions = 5, ac_last_used_at = Some ts, ac_created_at = ts,
                       ac_updated_at = ts, ac_show_demo = 1\<rparr>)]\<rparr>,
                    sb_eps := (sb_eps db)\<lparr>db_accounts := AList.update newID 1 (db_accounts (sb_eps db))\<rparr>\<rparr> in
                if sf_singleton flt then (Inl SeedDriver, db)
                else if id_admin (sb_id db) \<noteq> None then (Inl SeedConstraint, db)
                else (Inr (newID, True), db\<lparr>sb_id := (sb_id db)\<lparr>id_admin := Some newID\<rparr>\<rparr>)
      else if sf_admin flt then (Inl SeedNoAdmin, db)
      else case id_admin (sb_id db) of
             None \<Rightarrow> (Inl SeedNoAdmin, db)
           | Some adm \<Rightarrow> (Inr (adm, False), db))"

text \<open>The second section, one passkey after another; \<open>n\<close> counts the calls of \<open>newID\<close>.\<close>

definition seed_passkey_row ::
  "(byte list \<Rightarrow> cose_key option) \<Rightarrow> string \<Rightarrow> string \<Rightarrow> string \<Rightarrow> byte list \<Rightarrow> seed_admin_passkey \<Rightarrow> cred_row"
where
  "seed_passkey_row parse rpID ts adm pubKey pk =
     \<lparr>wc_account_id = adm, wc_credential_id = ap_CredentialID pk, wc_public_key = pubKey, wc_counter = ap_Counter pk,
      wc_transports = ap_Transports pk, wc_label = ap_Label pk,
      wc_public_key_openssh = (case CoseToAuthorizedKeys parse pubKey rpID of Inl _ \<Rightarrow> None | Inr line \<Rightarrow> Some line),
      wc_revoked = 0, wc_created_at = ts, wc_last_used_at = None, wc_state = ''active''\<rparr>"

fun seed_passkeys ::
  "(byte list \<Rightarrow> cose_key option) \<Rightarrow> string \<Rightarrow> seed_faults \<Rightarrow> string \<Rightarrow> (nat \<Rightarrow> string) \<Rightarrow> string \<Rightarrow> nat \<Rightarrow> nat \<Rightarrow> bool \<Rightarrow>
   seed_admin_passkey list \<Rightarrow> id_db \<Rightarrow> (seed_error + nat \<times> bool) \<times> id_db"
where
  "seed_passkeys parse rpID flt ts newID adm i n seeded [] db = (Inr (n, seeded), db)"
| "seed_passkeys parse rpID flt ts newID adm i n seeded (pk # pks) db =
     (if sf_exists flt i then (Inl SeedDriver, db)
      else if FindCredentialByCredentialID (ap_CredentialID pk) db \<noteq> None
      then seed_passkeys parse rpID flt ts newID adm (i + 1) n seeded pks db
      else case hex_decode (ap_PublicKeyHex pk) of
             None \<Rightarrow> seed_passkeys parse rpID flt ts newID adm (i + 1) n seeded pks db
           | Some pubKey \<Rightarrow>
               if sf_passkey flt i then (Inl SeedDriver, db)
               else (case InsertCredential (newID n) (seed_passkey_row parse rpID ts adm pubKey pk) db of
                       (Some _, db) \<Rightarrow> (Inl SeedConstraint, db)
                     | (None, db) \<Rightarrow> seed_passkeys parse rpID flt ts newID adm (i + 1) (n + 1) True pks db))"

text \<open>The third section: the endpoints.\<close>

definition entry_forward :: "seed_entry \<Rightarrow> bool" where
  "entry_forward e = (case sn_AgentForward e of None \<Rightarrow> True | Some b \<Rightarrow> b)"

definition seed_endpoint_row :: "string \<Rightarrow> string \<Rightarrow> seed_entry \<Rightarrow> endpoint" where
  "seed_endpoint_row eid adm e =
     \<lparr>se_ID = eid, se_AccountID = adm, se_Label = sn_Label e, se_Host = ea_Host (sn_Parsed e),
      se_Port = ea_Port (sn_Parsed e), se_Username = ea_Username (sn_Parsed e), se_UserVerification = ''required'',
      se_Description = sn_Description e, se_AgentForward = entry_forward e, se_HostKey = None\<rparr>"

fun seed_endpoints ::
  "seed_faults \<Rightarrow> string \<Rightarrow> (nat \<Rightarrow> string) \<Rightarrow> string \<Rightarrow> nat \<Rightarrow> nat \<Rightarrow> seed_entry list \<Rightarrow> sw_db \<Rightarrow> seed_error option \<times> sw_db"
where
  "seed_endpoints flt ts newID adm i n [] db = (None, db)"
| "seed_endpoints flt ts newID adm i n (e # es) db =
     (if sf_endpoint flt i then (Some SeedDriver, db)
      else case InsertEndpoint ts (seed_endpoint_row (newID n) adm e) db of
             (Some _, db) \<Rightarrow> (Some SeedConstraint, db)
           | (None, db) \<Rightarrow> seed_endpoints flt ts newID adm (i + 1) (n + 1) es db)"

definition FromConfig ::
  "(byte list \<Rightarrow> cose_key option) \<Rightarrow> seed_faults \<Rightarrow> string \<Rightarrow> (nat \<Rightarrow> string) \<Rightarrow> config \<Rightarrow> seed_db \<Rightarrow>
   (seed_error + seed_outcome) \<times> seed_db"
where
  "FromConfig parse flt ts newID cfg db =
     (case seed_admin flt ts (newID 0) db of
        (Inl e, db) \<Rightarrow> (Inl e, db)
      | (Inr (adm, created), db) \<Rightarrow>
          (case seed_passkeys parse (sc_RpID (cf_Security cfg)) flt ts newID adm 0 (if created then 1 else 0) False
                  (cf_SeedAdminPasskeys cfg) (sb_id db) of
             (Inl e, idb) \<Rightarrow> (Inl e, db\<lparr>sb_id := idb\<rparr>)
           | (Inr (n, seeded), idb) \<Rightarrow>
               let db = db\<lparr>sb_id := idb\<rparr>;
                   res = \<lparr>so_SeededAdminAccount = created, so_SeededAdminPasskey = seeded,
                          so_AdminID = (if created then adm else [])\<rparr> in
               if sf_epcount flt then (Inl SeedDriver, db)
               else if db_endpoints (sb_eps db) \<noteq> [] then (Inr res, db)
               else (case seed_endpoints flt ts newID adm 0 n (cf_SeedAdminEndpoints cfg) (sb_eps db) of
                       (Some e, eps) \<Rightarrow> (Inl e, db\<lparr>sb_eps := eps\<rparr>)
                     | (None, eps) \<Rightarrow> (Inr res, db\<lparr>sb_eps := eps\<rparr>))))"

section \<open>Configured host keys\<close>

record pin_faults =
  pf_list :: "nat \<Rightarrow> bool"
  pf_pin :: "nat \<Rightarrow> string \<Rightarrow> bool"
  pf_read :: "nat \<Rightarrow> string \<Rightarrow> bool"

text \<open>A failed pin is logged and skipped.\<close>

definition apply_pin ::
  "pin_faults \<Rightarrow> string \<Rightarrow> nat \<Rightarrow> endpoint_address \<Rightarrow> host_key_line \<Rightarrow> string \<times> string \<Rightarrow> sw_db \<Rightarrow> sw_db"
where
  "apply_pin flt ts i addr hk row db =
     (case row of (eid, pinned) \<Rightarrow>
        if pinned = hl_Fingerprint hk \<or> pinned \<noteq> [] then db
        else snd (es_PinHostKey (pf_pin flt i eid) (pf_read flt i eid) ts
               \<lparr>pp_ID = eid, pp_Host = ea_Host addr, pp_Port = ea_Port addr,
                pp_Record = \<lparr>hr_Type = hl_Type hk, hr_Key = hl_Key hk, hr_Fingerprint = hl_Fingerprint hk\<rparr>,
                pp_PinnedBy = ''config''\<rparr> db))"

definition apply_entry :: "pin_faults \<Rightarrow> string \<Rightarrow> string \<Rightarrow> nat \<times> seed_entry \<Rightarrow> sw_db \<Rightarrow> sw_db" where
  "apply_entry flt ts adm ie db =
     (case ie of (i, e) \<Rightarrow>
        case sn_ParsedHostKey e of
          None \<Rightarrow> db
        | Some hk \<Rightarrow>
            (case es_ListByAddress (pf_list flt i) adm (ea_Host (sn_Parsed e)) (ea_Port (sn_Parsed e))
                    (ea_Username (sn_Parsed e)) db of
               Inl _ \<Rightarrow> db
             | Inr rows \<Rightarrow> fold (apply_pin flt ts i (sn_Parsed e) hk) rows db))"

definition ApplyHostKeyPins :: "bool \<Rightarrow> pin_faults \<Rightarrow> string \<Rightarrow> config \<Rightarrow> seed_db \<Rightarrow> seed_db" where
  "ApplyHostKeyPins fltAdmin flt ts cfg db =
     (case (if fltAdmin then None else id_admin (sb_id db)) of
        None \<Rightarrow> db
      | Some adm \<Rightarrow>
          db\<lparr>sb_eps := fold (apply_entry flt ts adm) (enumerate 0 (cf_SeedAdminEndpoints cfg)) (sb_eps db)\<rparr>)"

section \<open>Seeding again changes nothing\<close>

definition no_seed_faults :: seed_faults where
  "no_seed_faults = \<lparr>sf_count = False, sf_account = False, sf_singleton = False, sf_admin = False, sf_exists = (\<lambda>_. False),
     sf_passkey = (\<lambda>_. False), sf_epcount = False, sf_endpoint = (\<lambda>_. False)\<rparr>"

lemma no_epcount: "sf_epcount no_seed_faults = False"
  by (simp add: no_seed_faults_def)

text \<open>A passkey of the configuration is done with: it is in the table, or its key cannot be decoded.\<close>

definition passkey_done :: "id_db \<Rightarrow> seed_admin_passkey \<Rightarrow> bool" where
  "passkey_done db pk \<longleftrightarrow> FindCredentialByCredentialID (ap_CredentialID pk) db \<noteq> None \<or> hex_decode (ap_PublicKeyHex pk) = None"

lemma find_InsertCredential:
  assumes "InsertCredential rid r db = (None, db')"
  shows "FindCredentialByCredentialID c db' \<noteq> None \<longleftrightarrow> FindCredentialByCredentialID c db \<noteq> None \<or> wc_credential_id r = c"
proof -
  have "id_creds db' = id_creds db @ [(rid, r)]"
    using assms by (auto simp: InsertCredential_def gm_update_fresh split: if_splits)
  then show ?thesis unfolding find_credential_None by auto
qed

lemma passkey_done_mono:
  "InsertCredential rid r db = (None, db') \<Longrightarrow> passkey_done db pk \<Longrightarrow> passkey_done db' pk"
  using find_InsertCredential [of rid r db db' "ap_CredentialID pk"] unfolding passkey_done_def by argo

lemma seed_passkeys_done:
  assumes "seed_passkeys parse rpID flt ts newID adm i n seeded pks db = (Inr res, db')"
  shows "(\<forall>pk. passkey_done db pk \<longrightarrow> passkey_done db' pk) \<and> (\<forall>pk \<in> set pks. passkey_done db' pk)"
  using assms
proof (induction pks arbitrary: i n seeded db)
  case (Cons pk pks)
  show ?case
  proof (cases "passkey_done db pk")
    case True
    with Cons.prems have "seed_passkeys parse rpID flt ts newID adm (i + 1) n seeded pks db = (Inr res, db')"
      by (auto simp: passkey_done_def split: if_splits option.splits)
    from Cons.IH [OF this] True show ?thesis by auto
  next
    case False
    then obtain key where key: "hex_decode (ap_PublicKeyHex pk) = Some key" "FindCredentialByCredentialID (ap_CredentialID pk) db = None"
      unfolding passkey_done_def by blast
    with Cons.prems obtain mid where mid: "InsertCredential (newID n) (seed_passkey_row parse rpID ts adm key pk) db = (None, mid)"
      "seed_passkeys parse rpID flt ts newID adm (i + 1) (n + 1) True pks mid = (Inr res, db')"
      by (auto split: if_splits option.splits prod.splits)
    have "passkey_done mid pk"
      using find_InsertCredential [OF mid(1)] by (simp add: passkey_done_def seed_passkey_row_def)
    with Cons.IH [OF mid(2)] passkey_done_mono [OF mid(1)] show ?thesis by auto
  qed
qed simp

lemma seed_passkeys_again:
  "\<forall>pk \<in> set pks. passkey_done db pk \<Longrightarrow>
     seed_passkeys parse rpID no_seed_faults ts newID adm i n seeded pks db = (Inr (n, seeded), db)"
  by (induction pks arbitrary: i) (auto simp: passkey_done_def no_seed_faults_def)

lemma seed_passkeys_tables:
  "seed_passkeys parse rpID flt ts newID adm i n seeded pks db = (x, db') \<Longrightarrow>
     id_accounts db' = id_accounts db \<and> id_admin db' = id_admin db \<and> (id_wf db \<longrightarrow> id_wf db')"
proof (induction pks arbitrary: i n seeded db)
  case (Cons pk pks)
  have ins: "id_accounts mid = id_accounts db \<and> id_admin mid = id_admin db \<and> (id_wf db \<longrightarrow> id_wf mid)"
    if "InsertCredential rid r db = (e, mid)" for rid r e mid
    using that id_wf_InsertCredentialD [OF that] by (auto simp: InsertCredential_def split: if_splits)
  from Cons.prems show ?case
    by (auto split: if_splits option.splits prod.splits dest!: ins Cons.IH)
qed simp

lemma seed_endpoints_nonempty:
  "seed_endpoints flt ts newID adm i n es db = (None, db') \<Longrightarrow> es \<noteq> [] \<or> db_endpoints db \<noteq> [] \<Longrightarrow> db_endpoints db' \<noteq> []"
proof (induction es arbitrary: i n db)
  case (Cons e es)
  then obtain mid where mid: "InsertEndpoint ts (seed_endpoint_row (newID n) adm e) db = (None, mid)"
    "seed_endpoints flt ts newID adm (i + 1) (n + 1) es mid = (None, db')"
    by (auto split: if_splits prod.splits option.splits)
  then have "db_endpoints mid \<noteq> []" 
    by (cases "db_endpoints db") (auto simp: InsertEndpoint_def split: if_splits)
  with Cons.IH [OF mid(2)] show ?case by simp
qed simp

lemma seed_admin_settled:
  "seed_admin flt ts new db = (Inr (adm, created), db') \<Longrightarrow> id_accounts (sb_id db') \<noteq> [] \<and> id_admin (sb_id db') = Some adm"
  by (auto simp: seed_admin_def Let_def split: if_splits option.splits)

lemma seed_admin_again:
  "id_accounts (sb_id db) \<noteq> [] \<Longrightarrow> id_admin (sb_id db) = Some adm \<Longrightarrow>
     seed_admin no_seed_faults ts new db = (Inr (adm, False), db)"
  by (simp add: seed_admin_def no_seed_faults_def)

lemma FromConfig_success:
  assumes "FromConfig parse flt ts newID cfg db = (Inr res, db')"
  obtains adm created db1 n seeded where "seed_admin flt ts (newID 0) db = (Inr (adm, created), db1)"
    "seed_passkeys parse (sc_RpID (cf_Security cfg)) flt ts newID adm 0 (if created then 1 else 0) False
       (cf_SeedAdminPasskeys cfg) (sb_id db1) = (Inr (n, seeded), sb_id db')"
    "db_endpoints (sb_eps db1) \<noteq> [] \<and> sb_eps db' = sb_eps db1
       \<or> seed_endpoints flt ts newID adm 0 n (cf_SeedAdminEndpoints cfg) (sb_eps db1) = (None, sb_eps db')"
  using assms by (auto simp: FromConfig_def Let_def split: sum.splits prod.splits if_splits option.splits)

text \<open>
  Seeding is idempotent. Once seeding has succeeded, on any database, under whatever failures it
  survived, running it again on the next start with the same configuration leaves the database as it
  is and reports that nothing was seeded: no second admin, no passkey twice, no endpoint twice.
\<close>

theorem seeding_idempotent:
  assumes "FromConfig parse flt ts newID cfg db = (Inr res, db')"
  shows "FromConfig parse no_seed_faults ts' newID' cfg db' =
    (Inr \<lparr>so_SeededAdminAccount = False, so_SeededAdminPasskey = False, so_AdminID = []\<rparr>, db')"
  using assms
proof (cases rule: FromConfig_success)
  case (1 adm created db1 n seeded)
  note tables = seed_passkeys_tables [OF 1(2)]
  have admin: "seed_admin no_seed_faults ts' (newID' 0) db' = (Inr (adm, False), db')"
    by (rule seed_admin_again) (use seed_admin_settled [OF 1(1)] tables in simp_all)
  have "\<forall>pk \<in> set (cf_SeedAdminPasskeys cfg). passkey_done (sb_id db') pk"
    using seed_passkeys_done [OF 1(2)] by blast
  note keys = seed_passkeys_again [OF this]
  have "seed_endpoints no_seed_faults ts' newID' adm 0 0 (cf_SeedAdminEndpoints cfg) (sb_eps db') = (None, sb_eps db')"
    if "db_endpoints (sb_eps db') = []"
    using 1(3) that seed_endpoints_nonempty [of flt ts newID adm 0 n "cf_SeedAdminEndpoints cfg" "sb_eps db1" "sb_eps db'"]
    by (cases "cf_SeedAdminEndpoints cfg = []") (auto simp del: seed_endpoints.simps(2))
  then show ?thesis by (simp add: FromConfig_def admin keys Let_def no_epcount)
qed

section \<open>Moving a deployment\<close>

lemma hex_val_lower: "d < 16 \<Longrightarrow> hex_val (lowerhex d) = Some d"
  by (simp add: hex_val_def lowerhex_def Let_def)

lemma hex_roundtrip: "hex_decode (hex_encode bs) = Some bs"
proof (induction bs)
  case (Cons b bs)
  have "unat b div 16 < 16" "unat b mod 16 < 16" using byte_unat_less [of b] by auto
  moreover have "of_nat (16 * (unat b div 16) + unat b mod 16) = b" by simp
  moreover have "hex_encode (b # bs) = lowerhex (unat b div 16) # lowerhex (unat b mod 16) # hex_encode bs"
    by (simp add: hex_encode_def)
  ultimately show ?case using Cons.IH by (simp add: hex_val_lower del: of_nat_add of_nat_mult)
qed (simp add: hex_encode_def)

text \<open>The rows that seeding adds on a table that has none of them.\<close>

definition seed_rows ::
  "(byte list \<Rightarrow> cose_key option) \<Rightarrow> string \<Rightarrow> string \<Rightarrow> (nat \<Rightarrow> string) \<Rightarrow> string \<Rightarrow> nat \<Rightarrow> seed_admin_passkey list \<Rightarrow> (string \<times> cred_row) list"
where
  "seed_rows parse rpID ts newID adm n pks =
     map (\<lambda>(k, pk). (newID k, seed_passkey_row parse rpID ts adm (the (hex_decode (ap_PublicKeyHex pk))) pk)) (enumerate n pks)"

lemma seed_passkeys_fresh:
  assumes "inj newID" "map_of (id_accounts db) adm \<noteq> None" "\<forall>k \<in> fst ` set (id_creds db). k \<in> newID ` {..<n}"
    and "\<forall>pk \<in> set pks. hex_decode (ap_PublicKeyHex pk) \<noteq> None" "distinct (map ap_CredentialID pks)"
    and "\<forall>pk \<in> set pks. ap_CredentialID pk \<notin> set (map (wc_credential_id \<circ> snd) (id_creds db))"
  shows "\<exists>seeded'. seed_passkeys parse rpID no_seed_faults ts newID adm i n seeded pks db =
    (Inr (n + length pks, seeded'), db\<lparr>id_creds := id_creds db @ seed_rows parse rpID ts newID adm n pks\<rparr>)"
  using assms(2-6)
proof (induction pks arbitrary: i n seeded db)
  case (Cons pk pks)
  define row where "row = seed_passkey_row parse rpID ts adm (the (hex_decode (ap_PublicKeyHex pk))) pk"
  define mid where "mid = db\<lparr>id_creds := id_creds db @ [(newID n, row)]\<rparr>"
  have row: "wc_credential_id row = ap_CredentialID pk" "wc_account_id row = adm"
    by (simp_all add: row_def seed_passkey_row_def)
  have new: "FindCredentialByCredentialID (ap_CredentialID pk) db = None" unfolding find_credential_None using Cons.prems(5) by simp
  have "newID n \<notin> fst ` set (id_creds db)" using Cons.prems(2) inj_eq [OF assms(1)] by force
  then have fresh: "map_of (id_creds db) (newID n) = None" by (simp add: map_of_eq_None_iff)
  have ins: "InsertCredential (newID n) row db = (None, mid)"
    using fresh new row Cons.prems(1) by (simp add: InsertCredential_def gm_update_fresh mid_def)
  have "\<exists>seeded'. seed_passkeys parse rpID no_seed_faults ts newID adm (i + 1) (n + 1) True pks mid =
      (Inr (n + 1 + length pks, seeded'), mid\<lparr>id_creds := id_creds mid @ seed_rows parse rpID ts newID adm (n + 1) pks\<rparr>)"
    by (rule Cons.IH) (use Cons.prems row in \<open>auto simp: mid_def lessThan_Suc image_iff\<close>)
  then obtain seeded' where rest: "seed_passkeys parse rpID no_seed_faults ts newID adm (i + 1) (n + 1) True pks mid =
      (Inr (n + 1 + length pks, seeded'), mid\<lparr>id_creds := id_creds mid @ seed_rows parse rpID ts newID adm (n + 1) pks\<rparr>)" by blast
  obtain key where key: "hex_decode (ap_PublicKeyHex pk) = Some key" using Cons.prems(3) by auto
  have "seed_passkeys parse rpID no_seed_faults ts newID adm i n seeded (pk # pks) db =
      seed_passkeys parse rpID no_seed_faults ts newID adm (i + 1) (n + 1) True pks mid"
    using ins by (simp add: new key row_def no_seed_faults_def)
  with rest show ?case by (simp add: mid_def seed_rows_def row_def)
qed (simp add: seed_rows_def)

lemma seed_endpoints_fresh:
  assumes "inj newID" "map_of (db_accounts db) adm \<noteq> None" "\<forall>k \<in> fst ` set (db_endpoints db). k \<in> newID ` {..<n}"
  shows "\<exists>db'. seed_endpoints no_seed_faults ts newID adm i n es db = (None, db')
    \<and> map (\<lambda>(k, r). (er_account_id r, er_label r, er_username r, er_host r, er_port r)) (db_endpoints db') =
      map (\<lambda>(k, r). (er_account_id r, er_label r, er_username r, er_host r, er_port r)) (db_endpoints db) @
      map (\<lambda>e. (adm, sn_Label e, ea_Username (sn_Parsed e), ea_Host (sn_Parsed e), ea_Port (sn_Parsed e))) es"
  using assms(2,3)
proof (induction es arbitrary: i n db)
  case (Cons e es)
  have "newID n \<notin> fst ` set (db_endpoints db)" using Cons.prems(2) inj_eq [OF assms(1)] by force
  then have fresh: "map_of (db_endpoints db) (newID n) = None" by (simp add: map_of_eq_None_iff)
  obtain mid where mid: "InsertEndpoint ts (seed_endpoint_row (newID n) adm e) db = (None, mid)" "db_accounts mid = db_accounts db"
    and rows: "\<exists>r. db_endpoints mid = db_endpoints db @ [(newID n, r)] \<and> er_account_id r = adm \<and> er_label r = sn_Label e
      \<and> er_username r = ea_Username (sn_Parsed e) \<and> er_host r = ea_Host (sn_Parsed e) \<and> er_port r = ea_Port (sn_Parsed e)"
    using fresh Cons.prems(1) by (simp add: InsertEndpoint_def seed_endpoint_row_def gm_update_fresh)
  from rows Cons.prems(2) have "\<forall>k \<in> fst ` set (db_endpoints mid). k \<in> newID ` {..<n + 1}" by (auto simp: lessThan_Suc)
  from Cons.IH [OF _ this, of "i + 1"] Cons.prems(1) mid rows show ?case by (auto simp: no_seed_faults_def)
qed simp

text \<open>What the export's passkeys become in the configuration file.\<close>

definition to_seed :: "seed_passkey \<Rightarrow> seed_admin_passkey" where
  "to_seed p = \<lparr>ap_CredentialID = sd_CredentialID p, ap_PublicKeyHex = sd_PublicKeyHex p, ap_Counter = sd_Counter p,
     ap_Transports = Some (sd_Transports p), ap_Label = Credential_Store.sd_Label p\<rparr>"

lemma export_of_seed_rows:
  assumes "ExportSeed False acc db = Inr sps"
  shows "map (\<lambda>(k, r). \<lparr>sd_CredentialID = wc_credential_id r, sd_PublicKeyHex = hex_encode (wc_public_key r), sd_Counter = wc_counter r,
            sd_Transports = (case wc_transports r of None \<Rightarrow> [] | Some ts \<Rightarrow> ts), sd_Label = wc_label r\<rparr>)
          (seed_rows parse rpID ts newID adm n (map to_seed sps)) = sps"
proof -
  have "\<forall>p \<in> set sps. hex_encode (the (hex_decode (sd_PublicKeyHex p))) = sd_PublicKeyHex p"
    using assms by (auto simp: ExportSeed_def hex_roundtrip)
  then show ?thesis
  proof (induction sps arbitrary: n)
    case (Cons p sps)
    then show ?case by (simp add: seed_rows_def seed_passkey_row_def to_seed_def)
  qed (simp add: seed_rows_def)
qed

lemma exported_ids:
  assumes "id_wf db" "ExportSeed False acc db = Inr sps"
  shows "distinct (map ap_CredentialID (map to_seed sps))"
proof -
  have "map ap_CredentialID (map to_seed sps) = map (wc_credential_id \<circ> snd) (filter (active_row \<circ> snd) (rows_of acc db))"
    using assms(2) by (auto simp: ExportSeed_def ExportActiveCredentials_def to_seed_def)
  moreover have "distinct (map (wc_credential_id \<circ> snd) (filter (active_row \<circ> snd) (rows_of acc db)))"
    using assms(1) unfolding id_wf_def rows_of_def filter_filter by (blast intro: distinct_map_filter)
  ultimately show ?thesis by metis
qed

text \<open>
  An exported seed restores the passkeys. Take the export of an account, put it into the
  configuration of a fresh deployment and start that: seeding succeeds, the new admin's export is the
  same list again (credential ids, keys, counters, transports and labels), all of them active, and
  its endpoints are exactly the configured ones.
\<close>

theorem seed_restores_export:
  assumes "id_wf db" "ExportSeed False acc db = Inr sps" "cf_SeedAdminPasskeys cfg = map to_seed sps" "inj newID"
    and "sb_id new = \<lparr>id_accounts = [], id_admin = None, id_creds = []\<rparr>" "db_endpoints (sb_eps new) = []"
  shows "\<exists>res db'. FromConfig parse no_seed_faults ts newID cfg new = (Inr res, db')
    \<and> id_admin (sb_id db') = Some (newID 0) \<and> ExportSeed False (newID 0) (sb_id db') = Inr sps
    \<and> map (\<lambda>(k, r). (er_account_id r, er_label r, er_username r, er_host r, er_port r)) (db_endpoints (sb_eps db')) =
      map (\<lambda>e. (newID 0, sn_Label e, ea_Username (sn_Parsed e), ea_Host (sn_Parsed e), ea_Port (sn_Parsed e))) (cf_SeedAdminEndpoints cfg)"
proof -
  let ?rp = "sc_RpID (cf_Security cfg)" let ?pks = "map to_seed sps"
  define rows where "rows = seed_rows parse ?rp ts newID (newID 0) 1 ?pks"
  obtain db1 where db1: "seed_admin no_seed_faults ts (newID 0) new = (Inr (newID 0, True), db1)"
    "id_admin (sb_id db1) = Some (newID 0)" "id_creds (sb_id db1) = []" "map_of (id_accounts (sb_id db1)) (newID 0) \<noteq> None"
    "map_of (db_accounts (sb_eps db1)) (newID 0) \<noteq> None" "db_endpoints (sb_eps db1) = []"
    by (simp add: seed_admin_def no_seed_faults_def assms(5,6) Let_def gomap_simps)
  have hex: "\<forall>pk \<in> set ?pks. hex_decode (ap_PublicKeyHex pk) \<noteq> None"
    using assms(2) by (auto simp: ExportSeed_def to_seed_def hex_roundtrip)
  obtain seeded where keys: "seed_passkeys parse ?rp no_seed_faults ts newID (newID 0) 0 1 False ?pks (sb_id db1) =
      (Inr (1 + length ?pks, seeded), (sb_id db1)\<lparr>id_creds := rows\<rparr>)"
    using seed_passkeys_fresh [OF assms(4) db1(4) _ hex exported_ids [OF assms(1,2)], of 1 parse ?rp ts 0 False]
    by (auto simp: db1(3) rows_def)
  obtain eps where eps: "seed_endpoints no_seed_faults ts newID (newID 0) 0 (1 + length ?pks) (cf_SeedAdminEndpoints cfg) (sb_eps db1) = (None, eps)"
    "map (\<lambda>(k, r). (er_account_id r, er_label r, er_username r, er_host r, er_port r)) (db_endpoints eps) =
      map (\<lambda>e. (newID 0, sn_Label e, ea_Username (sn_Parsed e), ea_Host (sn_Parsed e), ea_Port (sn_Parsed e))) (cf_SeedAdminEndpoints cfg)"
    using seed_endpoints_fresh [OF assms(4) db1(5), of "1 + length ?pks" ts 0 "cf_SeedAdminEndpoints cfg"] by (auto simp: db1(6))
  define db' where "db' = db1\<lparr>sb_id := (sb_id db1)\<lparr>id_creds := rows\<rparr>, sb_eps := eps\<rparr>"
  have "\<forall>x \<in> set rows. wc_account_id (snd x) = newID 0 \<and> active_row (snd x)"
    by (auto simp: rows_def seed_rows_def seed_passkey_row_def active_row_def)
  then have "ExportActiveCredentials (newID 0) (sb_id db') = rows"
    by (simp add: ExportActiveCredentials_def rows_of_def db'_def filter_id_conv case_prod_beta)
  then have "ExportSeed False (newID 0) (sb_id db') = Inr sps"
    using export_of_seed_rows [OF assms(2)] unfolding ExportSeed_def rows_def by simp
  moreover have "\<exists>res. FromConfig parse no_seed_faults ts newID cfg new = (Inr res, db')"
    using db1(6) eps(1) by (simp add: FromConfig_def db1(1) assms(3) keys Let_def db'_def no_epcount del: One_nat_def)
  ultimately show ?thesis using db1(2) eps(2) by (auto simp: db'_def)
qed

definition ex_newID :: "nat \<Rightarrow> string" where "ex_newID n = replicate (Suc n) CHR ''i''"

definition ex_source :: id_db where
  "ex_source = \<lparr>id_accounts = [(''acc'', \<lparr>ac_name = ''n'', ac_enabled = 1, ac_max_sessions = 5, ac_last_used_at = None,
       ac_created_at = ''t'', ac_updated_at = ''t'', ac_show_demo = 1\<rparr>)], id_admin = Some ''acc'',
     id_creds = [(''r'', \<lparr>wc_account_id = ''acc'', wc_credential_id = ''c'', wc_public_key = [7, 255], wc_counter = 4, wc_transports = None,
       wc_label = ''key'', wc_public_key_openssh = None, wc_revoked = 0, wc_created_at = ''t'', wc_last_used_at = None, wc_state = ''active''\<rparr>)]\<rparr>"

definition ex_target :: seed_db where
  "ex_target = \<lparr>sb_id = \<lparr>id_accounts = [], id_admin = None, id_creds = []\<rparr>, sb_eps = \<lparr>db_accounts = [], db_endpoints = []\<rparr>\<rparr>"

definition ex_seed_cfg :: config where
  "ex_seed_cfg = ex_config\<lparr>cf_SeedAdminPasskeys := map to_seed [\<lparr>sd_CredentialID = ''c'', sd_PublicKeyHex = ''07ff'', sd_Counter = 4,
     sd_Transports = [], sd_Label = ''key''\<rparr>],
     cf_SeedAdminEndpoints := [\<lparr>sn_Label = ''box'', sn_Address = ''root@box'', sn_AgentForward = None, sn_Description = None, sn_HostKey = None,
       sn_Parsed = \<lparr>ea_Username = ''root'', ea_Host = ''box'', ea_Port = 22\<rparr>, sn_ParsedHostKey = None\<rparr>]\<rparr>"

lemma ex_export:
  "ExportSeed False ''acc'' ex_source = Inr [\<lparr>sd_CredentialID = ''c'', sd_PublicKeyHex = ''07ff'', sd_Counter = 4, sd_Transports = [], sd_Label = ''key''\<rparr>]"
  by (simp add: ExportSeed_def ExportActiveCredentials_def rows_of_def active_row_def ex_source_def hex_encode_def lowerhex_def
      char_of_def bit_0)

theorem seed_restores_export_witness:
  "\<exists>res db'. FromConfig (\<lambda>_. None) no_seed_faults ''t'' ex_newID ex_seed_cfg ex_target = (Inr res, db')
     \<and> ExportSeed False ''i'' (sb_id db') = ExportSeed False ''acc'' ex_source"
proof -
  have "id_wf ex_source" by (simp add: id_wf_def ex_source_def)
  moreover have "inj ex_newID" by (rule injI) (simp add: ex_newID_def replicate_eq_replicate)
  ultimately show ?thesis
    using seed_restores_export [OF _ ex_export, of ex_seed_cfg ex_newID ex_target "\<lambda>_. None" "''t''"]
    unfolding ex_export by (auto simp: ex_seed_cfg_def ex_target_def ex_newID_def)
qed

theorem seeding_idempotent_witness:
  "\<exists>res db'. FromConfig (\<lambda>_. None) no_seed_faults ''t'' ex_newID ex_config ex_target = (Inr res, db')
     \<and> FromConfig (\<lambda>_. None) no_seed_faults ''u'' ex_newID ex_config db' =
         (Inr \<lparr>so_SeededAdminAccount = False, so_SeededAdminPasskey = False, so_AdminID = []\<rparr>, db')"
proof -
  have "\<exists>res db'. FromConfig (\<lambda>_. None) no_seed_faults ''t'' ex_newID ex_config ex_target = (Inr res, db')"
    by (simp add: FromConfig_def seed_admin_def ex_config_def ex_target_def no_seed_faults_def Let_def)
  then show ?thesis using seeding_idempotent by blast
qed

section \<open>An interrupted first start\<close>

text \<open>
  The account and the admin mark are two statements outside a transaction. When the first succeeds
  and the second does not, every later start fails, whatever its configuration, and changes nothing.
\<close>

theorem half_seeded_never_starts:
  assumes "id_accounts (sb_id db) = []" "id_admin (sb_id db) = None" "\<not> sf_count flt" "\<not> sf_account flt" "sf_singleton flt"
    and "FromConfig parse flt ts newID cfg db = (r, db')"
  shows "\<exists>e. FromConfig parse' flt' ts' newID' cfg' db' = (Inl e, db')"
proof -
  have "id_accounts (sb_id db') \<noteq> [] \<and> id_admin (sb_id db') = None"
    using assms by (auto simp: FromConfig_def seed_admin_def Let_def)
  then show ?thesis by (simp add: FromConfig_def seed_admin_def)
qed

theorem half_seeded_never_starts_witness:
  "\<exists>db' e. FromConfig (\<lambda>_. None) (no_seed_faults\<lparr>sf_singleton := True\<rparr>) ''t'' ex_newID ex_config ex_target = (Inl SeedDriver, db')
     \<and> FromConfig (\<lambda>_. None) no_seed_faults ''u'' ex_newID ex_config db' = (Inl e, db')"
proof -
  obtain db' where run: "FromConfig (\<lambda>_. None) (no_seed_faults\<lparr>sf_singleton := True\<rparr>) ''t'' ex_newID ex_config ex_target = (Inl SeedDriver, db')"
    by (simp add: FromConfig_def seed_admin_def ex_target_def no_seed_faults_def Let_def)
  with half_seeded_never_starts [of ex_target "no_seed_faults\<lparr>sf_singleton := True\<rparr>", OF _ _ _ _ _ run] show ?thesis
    by (auto simp: ex_target_def no_seed_faults_def)
qed

section \<open>Configured pins\<close>

text \<open>The row was unpinned, belongs to the admin, and has the address and key of a configured entry.\<close>

definition pin_rel :: "config \<Rightarrow> string \<Rightarrow> endpoint_row \<Rightarrow> endpoint_row \<Rightarrow> bool" where
  "pin_rel cfg adm r r' \<longleftrightarrow> r' = r \<or>
     er_host_key_fingerprint r = None \<and> er_account_id r = adm \<and> er_account_id r' = adm \<and> row_addr r' = row_addr r
     \<and> er_host_key_fingerprint r' \<noteq> None
     \<and> (\<exists>e \<in> set (cf_SeedAdminEndpoints cfg). \<exists>hk. sn_ParsedHostKey e = Some hk
          \<and> row_addr r = (ea_Host (sn_Parsed e), ea_Port (sn_Parsed e)) \<and> er_host_key r' = hl_Key hk
          \<and> er_host_key_fingerprint r' = Some (hl_Fingerprint hk) \<and> er_host_key_pinned_by r' = Some ''config'')"

definition pins_rel :: "config \<Rightarrow> string \<Rightarrow> sw_db \<Rightarrow> sw_db \<Rightarrow> bool" where
  "pins_rel cfg adm db db' \<longleftrightarrow> gm_wf (db_endpoints db') \<and> (\<forall>eid. rel_option (pin_rel cfg adm) (map_of (db_endpoints db) eid) (map_of (db_endpoints db') eid))"

lemma pin_rel_refl [simp]: "pin_rel cfg adm r r"
  by (simp add: pin_rel_def)

lemma pin_rel_trans: "pin_rel cfg adm a b \<Longrightarrow> pin_rel cfg adm b c \<Longrightarrow> pin_rel cfg adm a c"
  unfolding pin_rel_def by auto

lemma pins_rel_refl: "gm_wf (db_endpoints db) \<Longrightarrow> pins_rel cfg adm db db"
  by (simp add: pins_rel_def option.rel_refl)

lemma pins_rel_trans:
  assumes "pins_rel cfg adm a b" "pins_rel cfg adm b c"
  shows "pins_rel cfg adm a c"
  unfolding pins_rel_def
proof (intro conjI allI)
  fix eid
  show "rel_option (pin_rel cfg adm) (map_of (db_endpoints a) eid) (map_of (db_endpoints c) eid)"
    using assms [unfolded pins_rel_def, THEN conjunct2, rule_format, of eid]
    by (auto simp: option_rel_Some1 intro: pin_rel_trans elim!: option.rel_cases)
qed (use assms(2) in \<open>simp add: pins_rel_def\<close>)

lemma apply_pin_rel:
  assumes "gm_wf (db_endpoints db)" "e \<in> set (cf_SeedAdminEndpoints cfg)" "sn_ParsedHostKey e = Some hk"
    and "\<forall>r. map_of (db_endpoints db) (fst row) = Some r \<longrightarrow> er_account_id r = adm"
  shows "pins_rel cfg adm db (apply_pin flt ts i (sn_Parsed e) hk row db)"
proof (cases "\<exists>r. map_of (db_endpoints db) (fst row) = Some r \<and> apply_pin flt ts i (sn_Parsed e) hk row db \<noteq> db")
  case True
  then obtain r where r: "map_of (db_endpoints db) (fst row) = Some r" "apply_pin flt ts i (sn_Parsed e) hk row db \<noteq> db" by blast
  define r' where "r' = r\<lparr>er_host_key_type := nz (hl_Type hk), er_host_key := hl_Key hk,
             er_host_key_fingerprint := Some (hl_Fingerprint hk),
             er_host_key_pinned_at := Some ts, er_host_key_pinned_by := nz ''config'', er_updated_at := ts\<rparr>"
  have "apply_pin flt ts i (sn_Parsed e) hk row db = db\<lparr>db_endpoints := AList.update (fst row) r' (db_endpoints db)\<rparr>"
    "er_host_key_fingerprint r = None" "row_addr r = (ea_Host (sn_Parsed e), ea_Port (sn_Parsed e))"
    using r by (auto simp: apply_pin_def es_PinHostKey_def PinEndpointHostKey_def update_rows_def r'_def row_addr_def
        split: prod.splits if_splits option.splits)
  moreover from this(2,3) have "pin_rel cfg adm r r'"
    using assms(2-4) r(1) by (auto simp: pin_rel_def r'_def row_addr_def nz_def)
  ultimately show ?thesis using assms(1) r(1) by (auto simp: pins_rel_def gomap_simps option.rel_refl)
next
  case False
  have "apply_pin flt ts i (sn_Parsed e) hk row db = db" if "map_of (db_endpoints db) (fst row) = None"
    using that by (auto simp: apply_pin_def es_PinHostKey_def PinEndpointHostKey_def update_rows_def GetEndpointHostKey_def split: prod.splits)
  with False have "apply_pin flt ts i (sn_Parsed e) hk row db = db" by (cases "map_of (db_endpoints db) (fst row)") auto
  with assms(1) show ?thesis by (simp add: pins_rel_refl)
qed

lemma pins_rel_account:
  assumes "pins_rel cfg adm db db'" "\<forall>r. map_of (db_endpoints db) k = Some r \<longrightarrow> er_account_id r = adm"
  shows "\<forall>r. map_of (db_endpoints db') k = Some r \<longrightarrow> er_account_id r = adm"
  using assms(1) [unfolded pins_rel_def, THEN conjunct2, rule_format, of k] assms(2)
  by (auto simp: pin_rel_def elim!: option.rel_cases)

lemma apply_rows_rel:
  assumes "gm_wf (db_endpoints db)" "e \<in> set (cf_SeedAdminEndpoints cfg)" "sn_ParsedHostKey e = Some hk"
    and "\<forall>row \<in> set rows. \<forall>r. map_of (db_endpoints db) (fst row) = Some r \<longrightarrow> er_account_id r = adm"
  shows "pins_rel cfg adm db (fold (apply_pin flt ts i (sn_Parsed e) hk) rows db)"
  using assms(1,4)
proof (induction rows arbitrary: db)
  case (Cons row rows)
  let ?mid = "apply_pin flt ts i (sn_Parsed e) hk row db"
  have step: "pins_rel cfg adm db ?mid" by (rule apply_pin_rel [OF Cons.prems(1) assms(2,3)]) (use Cons.prems(2) in simp)
  have "pins_rel cfg adm ?mid (fold (apply_pin flt ts i (sn_Parsed e) hk) rows ?mid)"
  proof (rule Cons.IH)
    show "gm_wf (db_endpoints ?mid)" using step by (simp add: pins_rel_def)
    show "\<forall>row \<in> set rows. \<forall>r. map_of (db_endpoints ?mid) (fst row) = Some r \<longrightarrow> er_account_id r = adm"
      using pins_rel_account [OF step] Cons.prems(2) by (meson list.set_intros(2))
  qed
  with step show ?case by (auto intro: pins_rel_trans)
qed (simp add: pins_rel_refl)

lemma apply_entry_rel:
  assumes "gm_wf (db_endpoints db)" "snd ie \<in> set (cf_SeedAdminEndpoints cfg)"
  shows "pins_rel cfg adm db (apply_entry flt ts adm ie db)"
proof -
  obtain i e where ie: "ie = (i, e)" by fastforce
  show ?thesis
  proof (cases "sn_ParsedHostKey e")
    case (Some hk)
    have owned: "er_account_id r = adm"
      if listed: "es_ListByAddress f adm h p u db = Inr rows" "row \<in> set rows" "map_of (db_endpoints db) (fst row) = Some r" for f h p u rows row r
    proof -
      obtain r0 where "(fst row, r0) \<in> set (db_endpoints db)" "er_account_id r0 = adm"
        using listed(1,2) by (auto simp: es_ListByAddress_def ListEndpointsByAddress_def split: if_splits)
      with listed(3) assms(1) show ?thesis by (simp add: gm_get_Some_iff)
    qed
    have "pins_rel cfg adm db (fold (apply_pin flt ts i (sn_Parsed e) hk) rows db)"
      if "es_ListByAddress f adm h p u db = Inr rows" for f h p u rows
      using owned [OF that] assms(2) ie by (intro apply_rows_rel [OF assms(1) _ Some]) auto
    with Some show ?thesis by (auto simp: apply_entry_def ie pins_rel_refl assms(1) split: sum.split)
  qed (simp add: apply_entry_def ie pins_rel_refl assms(1))
qed

lemma apply_entries_rel:
  "gm_wf (db_endpoints db) \<Longrightarrow> \<forall>ie \<in> set ies. snd ie \<in> set (cf_SeedAdminEndpoints cfg) \<Longrightarrow>
     pins_rel cfg adm db (fold (apply_entry flt ts adm) ies db)"
proof (induction ies arbitrary: db)
  case (Cons ie ies)
  have step: "pins_rel cfg adm db (apply_entry flt ts adm ie db)" by (rule apply_entry_rel) (use Cons.prems in simp_all)
  have "pins_rel cfg adm (apply_entry flt ts adm ie db) (fold (apply_entry flt ts adm) ies (apply_entry flt ts adm ie db))"
    by (rule Cons.IH) (use step Cons.prems(2) in \<open>simp_all add: pins_rel_def\<close>)
  with step show ?case by (auto intro: pins_rel_trans)
qed (simp add: pins_rel_refl)

text \<open>
  Host keys from the configuration never override a pin. Applying them at start, under any driver
  failures, leaves each endpoint as it was, or pins an endpoint that had no key, belongs to the admin
  and has the address of a configured entry, to that entry's key, marked as coming from the
  configuration. Every other account's endpoints are untouched.
\<close>

theorem config_pins_never_override:
  assumes "gm_wf (db_endpoints (sb_eps db))" "map_of (db_endpoints (sb_eps (ApplyHostKeyPins fa flt ts cfg db))) eid = Some r'"
  shows "\<exists>r. map_of (db_endpoints (sb_eps db)) eid = Some r \<and>
    (r' = r \<or> er_host_key_fingerprint r = None \<and> id_admin (sb_id db) = Some (er_account_id r)
       \<and> (\<exists>e \<in> set (cf_SeedAdminEndpoints cfg). \<exists>hk. sn_ParsedHostKey e = Some hk
            \<and> row_addr r = (ea_Host (sn_Parsed e), ea_Port (sn_Parsed e)) \<and> er_host_key r' = hl_Key hk
            \<and> er_host_key_fingerprint r' = Some (hl_Fingerprint hk) \<and> er_host_key_pinned_by r' = Some ''config''))"
proof (cases "if fa then None else id_admin (sb_id db)")
  case None
  with assms(2) show ?thesis by (simp add: ApplyHostKeyPins_def)
next
  case (Some adm)
  have "\<forall>ie \<in> set (enumerate 0 (cf_SeedAdminEndpoints cfg)). snd ie \<in> set (cf_SeedAdminEndpoints cfg)"
    by (auto simp: in_set_enumerate_eq)
  from apply_entries_rel [OF assms(1) this, of adm flt ts]
  have rel: "rel_option (pin_rel cfg adm) (map_of (db_endpoints (sb_eps db)) eid) (map_of (db_endpoints (sb_eps (ApplyHostKeyPins fa flt ts cfg db))) eid)"
    using Some unfolding pins_rel_def by (simp add: ApplyHostKeyPins_def)
  then obtain r where "map_of (db_endpoints (sb_eps db)) eid = Some r" "pin_rel cfg adm r r'"
    unfolding assms(2) option_rel_Some2 by blast
  moreover have "id_admin (sb_id db) = Some adm" using Some by (simp split: if_splits)
  ultimately show ?thesis unfolding pin_rel_def by blast
qed

definition ex_pin_cfg :: config where
  "ex_pin_cfg = ex_config\<lparr>cf_SeedAdminEndpoints := [\<lparr>sn_Label = ''box'', sn_Address = ''root@box'', sn_AgentForward = None,
     sn_Description = None, sn_HostKey = Some ''SHA256:k'', sn_Parsed = \<lparr>ea_Username = ''root'', ea_Host = ''box'', ea_Port = 22\<rparr>,
     sn_ParsedHostKey = Some \<lparr>hl_Type = [], hl_Key = None, hl_Fingerprint = ''SHA256:k''\<rparr>\<rparr>]\<rparr>"

definition ex_unpinned :: endpoint_row where
  "ex_unpinned = \<lparr>er_account_id = ''acc'', er_label = ''box'', er_host = ''box'', er_port = 22, er_username = ''root'', er_enabled = 1,
     er_created_at = ''t'', er_updated_at = ''t'', er_user_verification = ''required'', er_description = None, er_agent_forward = 1,
     er_host_key_type = None, er_host_key = None, er_host_key_fingerprint = None, er_host_key_pinned_at = None, er_host_key_pinned_by = None\<rparr>"

definition ex_unpinned_db :: seed_db where
  "ex_unpinned_db = \<lparr>sb_id = ex_source, sb_eps = \<lparr>db_accounts = [(''acc'', 1)], db_endpoints = [(''e'', ex_unpinned)]\<rparr>\<rparr>"

definition no_pin_faults :: pin_faults where
  "no_pin_faults = \<lparr>pf_list = (\<lambda>_. False), pf_pin = (\<lambda>_ _. False), pf_read = (\<lambda>_ _. False)\<rparr>"

theorem config_pins_never_override_witness:
  "\<exists>r'. map_of (db_endpoints (sb_eps (ApplyHostKeyPins False no_pin_faults ''u'' ex_pin_cfg ex_unpinned_db))) ''e'' = Some r'
     \<and> er_host_key_fingerprint r' = Some ''SHA256:k'' \<and> er_host_key_fingerprint ex_unpinned = None"
proof -
  have run: "map_of (db_endpoints (sb_eps (ApplyHostKeyPins False no_pin_faults ''u'' ex_pin_cfg ex_unpinned_db))) ''e'' =
      Some (ex_unpinned\<lparr>er_host_key_fingerprint := Some ''SHA256:k'', er_host_key_pinned_at := Some ''u'',
        er_host_key_pinned_by := Some ''config'', er_updated_at := ''u''\<rparr>)"
    by (simp add: ApplyHostKeyPins_def no_pin_faults_def ex_pin_cfg_def ex_unpinned_db_def ex_source_def apply_entry_def apply_pin_def
        es_ListByAddress_def ListEndpointsByAddress_def es_PinHostKey_def PinEndpointHostKey_def update_rows_def ex_unpinned_def str_of_def nz_def)
  have "gm_wf (db_endpoints (sb_eps ex_unpinned_db))" by (simp add: ex_unpinned_db_def)
  from config_pins_never_override [OF this run] run show ?thesis by (auto simp: ex_unpinned_db_def ex_unpinned_def)
qed

end
