(* ===== verification/Rest_Accounts.thy ===== *)
theory Rest_Accounts
  imports Webauthn_Properties Hydra_Admin Seed
begin

text \<open>
  \<open>src/internal/rest/credentials.go\<close> and \<open>accounts.go\<close>: management of passkeys and accounts over HTTP.

  The handlers run over the state of the WebAuthn ceremonies (\<open>wa_state\<close>, its database included). Body
  decoding ignores errors, so a handler gets the decoded fields with their zero values. The SHA-256
  behind the fingerprints and the demo service's emptiness are arguments. Revocation is in three parts
  because its checks and its write are separate statements.
\<close>

section \<open>Passkeys\<close>

definition nullable_opt :: "string option \<Rightarrow> json" where
  "nullable_opt x = (case x of None \<Rightarrow> JNull | Some s \<Rightarrow> JStr s)"

definition credential_json :: "(byte list \<Rightarrow> byte list) \<Rightarrow> string \<times> cred_row \<Rightarrow> json" where
  "credential_json sha256 kr =
     (case kr of (k, r) \<Rightarrow>
        let active = (wc_state r = ''active'') in
        JObj [(''id'', JStr k), (''credentialId'', JStr (wc_credential_id r)), (''label'', JStr (wc_label r)),
              (''algorithm'', JStr (DetectAlgorithm (wc_public_key r))),
              (''fingerprint'', JStr (case wc_public_key_openssh r of None \<Rightarrow> [] | Some l \<Rightarrow> FingerprintFromAuthorizedKeys sha256 l)),
              (''authorizedKeysEntry'', if active then nullable_opt (wc_public_key_openssh r) else JNull),
              (''revoked'', JBool (wc_revoked r \<noteq> 0)), (''state'', JStr (wc_state r)),
              (''createdAt'', JStr (wc_created_at r)), (''lastUsedAt'', nullable_opt (wc_last_used_at r))])"

definition credentials_list :: "(byte list \<Rightarrow> byte list) \<Rightarrow> bool \<Rightarrow> string \<Rightarrow> wa_state \<Rightarrow> http_resp" where
  "credentials_list sha256 flt acct st =
     (case ListForAccountFull flt acct (wa_db st) of
        Inl _ \<Rightarrow> apierr_Write 500 ''internal error''
      | Inr creds \<Rightarrow> (200, JObj [(''credentials'', JArr (map (credential_json sha256) creds)), (''sshdConfig'', JStr SshdConfigLine)]))"

definition ownsCredential :: "(string \<times> cred_row) list \<Rightarrow> string \<Rightarrow> bool" where
  "ownsCredential creds cid \<longleftrightarrow> list_ex (\<lambda>(k, r). k = cid) creds"

record cred_faults =
  cf_list :: bool
  cf_conflict :: bool
  cf_write :: bool

definition credentials_label :: "cred_faults \<Rightarrow> string \<Rightarrow> string \<Rightarrow> string \<Rightarrow> wa_state \<Rightarrow> http_resp \<times> wa_state" where
  "credentials_label flt acct cid label st =
     (let trimmed = trim_space label in
      if trimmed = [] then (apierr_Write 400 ''Label is required'', st)
      else case ListForAccountFull (cf_list flt) acct (wa_db st) of
             Inl _ \<Rightarrow> (apierr_Write 500 ''internal error'', st)
           | Inr creds \<Rightarrow>
               if \<not> ownsCredential creds cid then (apierr_Write 404 ''Credential not found'', st)
               else (case LabelConflict (cf_conflict flt) acct trimmed cid (wa_db st) of
                       Inl _ \<Rightarrow> (apierr_Write 500 ''internal error'', st)
                     | Inr True \<Rightarrow> (apierr_Write 409 ''A passkey with this label already exists'', st)
                     | Inr False \<Rightarrow>
                         (case SetLabel (cf_write flt) cid acct trimmed (wa_db st) of
                            (Some _, db) \<Rightarrow> (apierr_Write 500 ''internal error'', st\<lparr>wa_db := db\<rparr>)
                          | (None, db) \<Rightarrow> ((200, JObj [(''status'', JStr ''updated'')]), st\<lparr>wa_db := db\<rparr>))))"

text \<open>The checks of \<open>revoke\<close>, up to the write: a refusal, or nothing.\<close>

definition revoke_check :: "cred_faults \<Rightarrow> string \<Rightarrow> string \<Rightarrow> id_db \<Rightarrow> http_resp option" where
  "revoke_check flt acct cid db =
     (case ListForAccountFull (cf_list flt) acct db of
        Inl _ \<Rightarrow> Some (apierr_Write 500 ''internal error'')
      | Inr creds \<Rightarrow>
          (case find (\<lambda>(k, r). k = cid) creds of
             None \<Rightarrow> Some (apierr_Write 404 ''Credential not found'')
           | Some (k, target) \<Rightarrow>
               if wc_revoked target \<noteq> 0 then Some (apierr_Write 400 ''Credential is already revoked'')
               else if wc_state target = ''active''
               then (case ActiveCount (cf_conflict flt) acct db of
                       Inl _ \<Rightarrow> Some (apierr_Write 500 ''internal error'')
                     | Inr n \<Rightarrow> if n \<le> 1 then Some (apierr_Write 400 ''Cannot revoke the last active passkey'') else None)
               else None))"

text \<open>Signing out everywhere, and whether both calls succeeded.\<close>

definition revoke_sessions :: "hydra_env \<Rightarrow> bool \<Rightarrow> string \<Rightarrow> sent \<Rightarrow> bool \<times> sent" where
  "revoke_sessions hy invalidate acct tr =
     (if \<not> invalidate then (False, tr)
      else case RevokeConsentSessions hy acct [] tr of
             (Inl _, tr) \<Rightarrow> (False, tr)
           | (Inr _, tr) \<Rightarrow>
               (case RevokeLoginSessions hy acct tr of
                  (Inl _, tr) \<Rightarrow> (False, tr)
                | (Inr _, tr) \<Rightarrow> (True, tr)))"

definition revoke_commit ::
  "hydra_env \<Rightarrow> cred_faults \<Rightarrow> string \<Rightarrow> string \<Rightarrow> bool \<Rightarrow> id_db \<Rightarrow> sent \<Rightarrow> http_resp \<times> id_db \<times> sent"
where
  "revoke_commit hy flt acct cid invalidate db tr =
     (case cs_Revoke (cf_write flt) cid db of
        (Some _, db) \<Rightarrow> (apierr_Write 500 ''internal error'', db, tr)
      | (None, db) \<Rightarrow>
          let (done, tr) = revoke_sessions hy invalidate acct tr in
          ((200, JObj [(''status'', JStr ''revoked''), (''sessionsInvalidated'', JBool done)]), db, tr))"

definition credentials_revoke ::
  "hydra_env \<Rightarrow> cred_faults \<Rightarrow> string \<Rightarrow> string \<Rightarrow> bool \<Rightarrow> id_db \<Rightarrow> sent \<Rightarrow> http_resp \<times> id_db \<times> sent"
where
  "credentials_revoke hy flt acct cid invalidate db tr =
     (case revoke_check flt acct cid db of
        Some r \<Rightarrow> (r, db, tr)
      | None \<Rightarrow> revoke_commit hy flt acct cid invalidate db tr)"

text \<open>The route, behind the step-up middleware.\<close>

definition revoke_route ::
  "hydra_env \<Rightarrow> cred_faults \<Rightarrow> time \<Rightarrow> principal option \<Rightarrow> string \<Rightarrow> string \<Rightarrow> bool \<Rightarrow> wa_state \<Rightarrow> sent \<Rightarrow> http_resp \<times> wa_state \<times> sent"
where
  "revoke_route hy flt now pr header cid invalidate st tr =
     (case RequireStepUp ''revoke_passkey'' now pr header (wa_stepup st) of
        (Some r, s) \<Rightarrow> (r, st\<lparr>wa_stepup := s\<rparr>, tr)
      | (None, s) \<Rightarrow>
          (case credentials_revoke hy flt (acc_of pr) cid invalidate (wa_db st) tr of
             (r, db, tr) \<Rightarrow> (r, st\<lparr>wa_stepup := s, wa_db := db\<rparr>, tr)))"

section \<open>Accounts\<close>

definition accounts_me :: "bool \<Rightarrow> bool \<Rightarrow> bool \<Rightarrow> string \<Rightarrow> id_db \<Rightarrow> http_resp" where
  "accounts_me flt flt2 demoEmpty acct db =
     (case accounts_Get flt flt2 acct db of
        Inl _ \<Rightarrow> apierr_Write 500 ''internal error''
      | Inr None \<Rightarrow> apierr_Write 401 ''Account not found''
      | Inr (Some a) \<Rightarrow>
          (200, JObj [(''id'', JStr (at_ID a)), (''name'', JStr (at_Name a)), (''isAdmin'', JBool (at_IsAdmin a)),
                      (''showDemoEndpoints'', JBool (at_ShowDemoEndpoints a)), (''demoEndpointsAvailable'', JBool (\<not> demoEmpty))]))"

definition accounts_updateMe ::
  "bool \<Rightarrow> bool \<Rightarrow> string \<Rightarrow> string \<Rightarrow> string option \<Rightarrow> bool option \<Rightarrow> id_db \<Rightarrow> http_resp \<times> id_db"
where
  "accounts_updateMe flt flt2 now acct name showDemo db =
     (let name = map_option trim_space name in
      if name = Some [] then (apierr_Write 400 ''Name cannot be empty'', db)
      else case UpdateSelf flt flt2 acct name showDemo now db of
             (Some _, db) \<Rightarrow> (apierr_Write 500 ''internal error'', db)
           | (None, db) \<Rightarrow> ((200, JObj [(''status'', JStr ''updated'')]), db))"

definition accounts_list :: "bool \<Rightarrow> bool \<Rightarrow> bool \<Rightarrow> string \<Rightarrow> id_db \<Rightarrow> http_resp" where
  "accounts_list fltAdmin flt flt2 acct db =
     (if \<not> IsAdmin fltAdmin acct db then apierr_Write 403 ''Admin access required''
      else case accounts_List flt flt2 db of
             Inl _ \<Rightarrow> apierr_Write 500 ''internal error''
           | Inr all \<Rightarrow> (200, JObj [(''accounts'', JArr (map (\<lambda>a. JObj
               [(''id'', JStr (at_ID a)), (''name'', JStr (at_Name a)), (''isAdmin'', JBool (at_IsAdmin a)),
                (''enabled'', JBool (at_Enabled a)), (''maxSessions'', JNum (at_MaxSessions a)),
                (''lastUsedAt'', nullable_opt (at_LastUsedAt a)), (''createdAt'', JStr (at_CreatedAt a))]) all))]))"

text \<open>
  \<open>delete\<close>: the two admin queries are separate reads. The answer says whether \<open>OnDeleted\<close> was called,
  and for which account.
\<close>

definition accounts_delete ::
  "bool \<Rightarrow> bool \<Rightarrow> delete_faults \<Rightarrow> bool \<Rightarrow> string \<Rightarrow> string \<Rightarrow> id_db \<Rightarrow> (http_resp \<times> string option) \<times> id_db"
where
  "accounts_delete flt1 flt2 dflt blocked caller target db =
     (if \<not> IsAdmin flt1 caller db then ((apierr_Write 403 ''Admin access required'', None), db)
      else if target = caller then ((apierr_Write 400 ''Cannot delete your own account'', None), db)
      else if IsAdmin flt2 target db then ((apierr_Write 400 ''Cannot delete the admin account'', None), db)
      else case accounts_Delete dflt blocked target db of
             (Inl _, db) \<Rightarrow> ((apierr_Write 500 ''internal error'', None), db)
           | (Inr _, db) \<Rightarrow> (((200, JObj [(''status'', JStr ''deleted'')]), Some target), db))"

record seed_export =
  sx_Passkeys :: "seed_passkey list"
  sx_Endpoints :: "(string \<times> string \<times> bool) list"

definition accounts_exportSeed ::
  "bool \<Rightarrow> bool \<Rightarrow> bool \<Rightarrow> string \<Rightarrow> id_db \<Rightarrow> sw_db \<Rightarrow> http_resp + seed_export"
where
  "accounts_exportSeed fltAdmin flt flt2 acct db eps =
     (if \<not> IsAdmin fltAdmin acct db then Inl (apierr_Write 403 ''Admin access required'')
      else case ExportSeed flt acct db of
             Inl _ \<Rightarrow> Inl (apierr_Write 500 ''internal error'')
           | Inr passkeys \<Rightarrow>
               (case es_ListForAccount flt2 acct eps of
                  Inl _ \<Rightarrow> Inl (apierr_Write 500 ''internal error'')
                | Inr es \<Rightarrow> Inr \<lparr>sx_Passkeys = passkeys,
                    sx_Endpoints = map (\<lambda>e. (se_Label e,
                      FormatEndpointAddress \<lparr>ea_Username = se_Username e, ea_Host = se_Host e, ea_Port = se_Port e\<rparr>,
                      se_AgentForward e)) es\<rparr>))"

section \<open>An account keeps a way in\<close>

datatype account_request =
    AqWebauthn "principal option" wa_env wa_request
  | AqLabel cred_faults string string string
  | AqRevoke hydra_env cred_faults time "principal option" string string bool sent

fun account_next :: "wa_lib \<Rightarrow> wa_deps \<Rightarrow> account_request \<Rightarrow> wa_state \<Rightarrow> wa_state" where
  "account_next L d (AqWebauthn pr e rq) st = wa_next L d pr e rq st"
| "account_next L d (AqLabel flt acct cid label) st = snd (credentials_label flt acct cid label st)"
| "account_next L d (AqRevoke hy flt now pr hdr cid ivd tr) st = fst (snd (revoke_route hy flt now pr hdr cid ivd st tr))"

definition has_active :: "string \<Rightarrow> id_db \<Rightarrow> bool" where
  "has_active acc db \<longleftrightarrow> (\<exists>rid r. map_of (id_creds db) rid = Some r \<and> active_row r \<and> wc_account_id r = acc)"

text \<open>Rows that stay active stay with their account.\<close>

lemma has_activeI:
  assumes "has_active acc db"
    and "\<And>rid r. map_of (id_creds db) rid = Some r \<Longrightarrow> active_row r \<Longrightarrow>
           \<exists>r'. map_of (id_creds db') rid = Some r' \<and> active_row r' \<and> wc_account_id r' = wc_account_id r"
  shows "has_active acc db'"
  using assms unfolding has_active_def by metis

lemma update_cred_active:
  assumes "has_active acc db" "\<And>r. active_row r \<Longrightarrow> active_row (f r) \<and> wc_account_id (f r) = wc_account_id r"
  shows "has_active acc (update_cred rid c f db)"
  by (rule has_activeI [OF assms(1)]) (use assms(2) in \<open>auto simp: update_cred_row\<close>)

lemma extended_active: "id_creds db' = id_creds db @ xs \<Longrightarrow> has_active acc db \<Longrightarrow> has_active acc db'"
  by (erule has_activeI) (auto simp: map_add_Some_iff)

lemma wa_next_active:
  assumes "has_active acc (wa_db st)"
  shows "has_active acc (wa_db (wa_next L d pr e rq st))"
  using wa_next_db [of d pr e rq st L]
proof (cases rule: db_change.cases)
  case (self_registered body p)
  then show ?thesis using SelfRegister_extends [of "we_txf e" "we_iso e" p "wa_db st"] extended_active assms by auto
next
  case (registered hdr body f g dec k)
  then show ?thesis using insertTx_extends [of f g "we_iso e" "acc_of pr" dec CredentialStateActive k "wa_db st"] extended_active assms by auto
next
  case (invited token cid cred f g a dec k)
  then show ?thesis
    using insertTx_extends [of f g "we_iso e" a dec CredentialStatePendingConfirmation k "wa_db st"] extended_active assms by auto
next
  case (confirmed hdr k r)
  then show ?thesis
    using update_cred_active [OF assms] by (simp add: SetCredentialState_def active_row_def CredentialStateActive_def)
next
  case asserted
  then show ?thesis
    using update_cred_active [OF assms] by (auto simp: counter_write_def UpdateCredentialCounter_def active_row_def)
qed (use assms in simp)

lemma another_active:
  assumes "id_wf db" "1 < CountActiveCredentials acct db"
  shows "\<exists>k r. k \<noteq> cid \<and> map_of (id_creds db) k = Some r \<and> active_row r \<and> wc_account_id r = acct"
proof -
  define rows where "rows = filter (active_row \<circ> snd) (rows_of acct db)"
  have "distinct (map fst rows)" using assms(1) by (auto simp: rows_def rows_of_def id_wf_def distinct_map_filter)
  moreover have "1 < length rows" using assms(2) by (simp add: rows_def CountActiveCredentials_def)
  ultimately have "\<exists>x \<in> set rows. fst x \<noteq> cid"
    by (cases rows; cases "tl rows") auto
  then obtain k r where "(k, r) \<in> set rows" "k \<noteq> cid" by force
  with assms(1) show ?thesis
    by (auto simp: rows_def rows_of_def id_wf_def intro!: exI [of _ k] exI [of _ r] map_of_is_SomeI)
qed

lemma revoke_check_passed:
  assumes "revoke_check flt acct cid db = None" "id_wf db"
  obtains r where "map_of (id_creds db) cid = Some r" "wc_account_id r = acct" "wc_revoked r = 0"
    "active_row r \<Longrightarrow> 1 < CountActiveCredentials acct db"
proof -
  obtain k r where f: "find (\<lambda>(k, r). k = cid) (rows_of acct db) = Some (k, r)" "wc_revoked r = 0"
    "active_row r \<Longrightarrow> 1 < CountActiveCredentials acct db"
    using assms(1) by (auto simp: revoke_check_def ListForAccountFull_def ListCredentialsForAccountFull_def ActiveCount_def active_row_def
        split: if_splits option.splits sum.splits)
  then have "(cid, r) \<in> set (rows_of acct db)" by (auto simp: find_Some_iff) (metis nth_mem)
  then have "(cid, r) \<in> set (id_creds db)" "wc_account_id r = acct" by (auto simp: rows_of_def)
  with assms(2) f that show thesis by (auto simp: id_wf_def intro: map_of_is_SomeI)
qed

lemma credentials_revoke_active:
  assumes "id_wf db" "has_active acc db"
  shows "has_active acc (fst (snd (credentials_revoke hy flt acct cid ivd db tr)))"
proof (cases "revoke_check flt acct cid db")
  case None
  then obtain r where r: "map_of (id_creds db) cid = Some r" "wc_account_id r = acct"
    "active_row r \<Longrightarrow> 1 < CountActiveCredentials acct db"
    by (rule revoke_check_passed [OF _ assms(1)]) simp
  obtain k s where s: "map_of (id_creds db) k = Some s" "active_row s" "wc_account_id s = acc" "k \<noteq> cid"
  proof (cases "acc = acct \<and> active_row r")
    case True
    then show thesis using another_active [OF assms(1) r(3), of cid] that by auto
  next
    case False
    with r(1,2) assms(2) show thesis using that unfolding has_active_def by (metis option.inject)
  qed
  then have "has_active acc (RevokeCredentialByID cid db)"
    unfolding has_active_def RevokeCredentialByID_def by (intro exI [of _ k] exI [of _ s]) (auto simp: update_cred_row)
  with assms(2) show ?thesis
    by (simp add: credentials_revoke_def None revoke_commit_def cs_Revoke_def Let_def split: prod.split)
qed (simp add: credentials_revoke_def assms(2))

lemma credentials_revoke_wf:
  assumes "id_wf db" "counters_wf db"
  shows "id_wf (fst (snd (credentials_revoke hy flt acct cid ivd db tr)))"
    and "counters_wf (fst (snd (credentials_revoke hy flt acct cid ivd db tr)))"
proof -
  have "fst (snd (credentials_revoke hy flt acct cid ivd db tr)) = db
      \<or> fst (snd (credentials_revoke hy flt acct cid ivd db tr)) = RevokeCredentialByID cid db"
    by (auto simp: credentials_revoke_def revoke_commit_def cs_Revoke_def Let_def split: option.split prod.split)
  moreover have "id_wf (RevokeCredentialByID cid db)" "counters_wf (RevokeCredentialByID cid db)"
    unfolding RevokeCredentialByID_def using id_wf_update_cred [OF assms(1)] update_cred_counters [OF assms(2)] by simp_all
  ultimately show "id_wf (fst (snd (credentials_revoke hy flt acct cid ivd db tr)))"
    "counters_wf (fst (snd (credentials_revoke hy flt acct cid ivd db tr)))" using assms by metis+
qed

lemma credentials_label_db:
  "wa_db (snd (credentials_label flt acct cid label st)) = wa_db st
     \<or> wa_db (snd (credentials_label flt acct cid label st)) = UpdateCredentialLabel (trim_space label) cid acct (wa_db st)"
  by (auto simp: credentials_label_def SetLabel_def Let_def split: sum.split bool.split)

lemma revoke_route_db:
  "wa_db (fst (snd (revoke_route hy flt now pr hdr cid ivd st tr))) = wa_db st
     \<or> wa_db (fst (snd (revoke_route hy flt now pr hdr cid ivd st tr))) =
         fst (snd (credentials_revoke hy flt (acc_of pr) cid ivd (wa_db st) tr))"
  by (auto simp: revoke_route_def split: prod.split option.split)

lemma account_next_inv:
  assumes "id_wf (wa_db st)" "counters_wf (wa_db st)" "has_active acc (wa_db st)"
  shows "id_wf (wa_db (account_next L d rq st)) \<and> counters_wf (wa_db (account_next L d rq st)) \<and> has_active acc (wa_db (account_next L d rq st))"
proof (cases rq)
  case (AqWebauthn pr e w)
  then show ?thesis using wa_next_continues [OF assms(1,2)] wa_next_active [OF assms(3)] by simp
next
  case (AqLabel flt acct cid label)
  have "id_wf (UpdateCredentialLabel l cid acct (wa_db st))" "counters_wf (UpdateCredentialLabel l cid acct (wa_db st))"
    "has_active acc (UpdateCredentialLabel l cid acct (wa_db st))" for l
    unfolding UpdateCredentialLabel_def
    using id_wf_update_cred [OF assms(1)] update_cred_counters [OF assms(2)] update_cred_active [OF assms(3)]
    by (simp_all add: active_row_def)
  with AqLabel assms credentials_label_db [of flt acct cid label st] show ?thesis by auto
next
  case (AqRevoke hy flt now pr hdr cid ivd tr)
  with assms revoke_route_db [of hy flt now pr hdr cid ivd st tr] credentials_revoke_active [OF assms(1,3), of hy flt "acc_of pr" cid ivd tr]
    credentials_revoke_wf [OF assms(1,2), of hy flt "acc_of pr" cid ivd tr] show ?thesis by auto
qed


definition ex_two :: id_db where
  "ex_two = \<lparr>id_accounts = [(''acc1'', ex_account)], id_admin = Some ''acc1'',
     id_creds = [(''r1'', ex_row\<lparr>wc_account_id := ''acc1''\<rparr>), (''r2'', ex_row\<lparr>wc_account_id := ''acc1'', wc_credential_id := ''cred2''\<rparr>)]\<rparr>"

definition no_cred_faults :: cred_faults where
  "no_cred_faults = \<lparr>cf_list = False, cf_conflict = False, cf_write = False\<rparr>"

definition ex_two_state :: wa_state where
  "ex_two_state = \<lparr>wa_db = ex_two, wa_challenges = NewChallengeStore,
     wa_stepup = snd (su_Mint 0 0 ''tk'' ''acc1'' ''revoke_passkey'' NewStepUpStore), wa_invites = []\<rparr>"


text \<open>
  The count and the write are separate statements. Two revocations of an account's two passkeys that
  both check before either writes both succeed, and no active passkey is left.
\<close>

theorem interleaved_revokes_lock_out:
  "revoke_check no_cred_faults ''acc1'' ''r1'' ex_two = None \<and> revoke_check no_cred_faults ''acc1'' ''r2'' ex_two = None
   \<and> CountActiveCredentials ''acc1''
       (fst (snd (revoke_commit hy no_cred_faults ''acc1'' ''r2'' False
         (fst (snd (revoke_commit hy no_cred_faults ''acc1'' ''r1'' False ex_two tr))) tr))) = 0"
  by (simp add: revoke_check_def revoke_commit_def no_cred_faults_def ex_two_def ex_row_def ListForAccountFull_def
      ListCredentialsForAccountFull_def rows_of_def ActiveCount_def CountActiveCredentials_def active_row_def cs_Revoke_def
      RevokeCredentialByID_def update_cred_def revoke_sessions_def)

section \<open>Who may revoke\<close>

lemma wa_next_revoked:
  assumes "map_of (id_creds (wa_db st)) rid = Some r" "map_of (id_creds (wa_db (wa_next L d pr e rq st))) rid = Some r'"
  shows "wc_revoked r' = wc_revoked r"
  using wa_next_db [of d pr e rq st L]
proof (cases rule: db_change.cases)
  case (self_registered body p)
  then show ?thesis using SelfRegister_extends [of "we_txf e" "we_iso e" p "wa_db st"] assms by (auto simp: map_add_Some_iff)
next
  case (registered hdr body f g dec k)
  then show ?thesis using insertTx_extends [of f g "we_iso e" "acc_of pr" dec CredentialStateActive k "wa_db st"] assms by (auto simp: map_add_Some_iff)
next
  case (invited token cid cred f g a dec k)
  then show ?thesis
    using insertTx_extends [of f g "we_iso e" a dec CredentialStatePendingConfirmation k "wa_db st"] assms by (auto simp: map_add_Some_iff)
next
  case (confirmed hdr k r1)
  then show ?thesis using assms by (auto simp: SetCredentialState_def update_cred_row)
next
  case asserted
  then show ?thesis using assms by (auto simp: counter_write_def UpdateCredentialCounter_def update_cred_row)
qed (use assms in simp)

text \<open>
  A passkey is revoked only by its owner, with proof. A request after which a passkey is revoked
  that was not before is a revocation of this passkey, by the account that owns it, with a live
  step-up token of that account for revoking; and the same request leaves the account another active
  passkey if the revoked one was active.
\<close>

theorem revocation_needs_stepup:
  assumes "id_wf (wa_db st)" "map_of (id_creds (wa_db st)) rid = Some r" "wc_revoked r = 0"
    and "map_of (id_creds (wa_db (account_next L d rq st))) rid = Some r'" "wc_revoked r' \<noteq> 0"
  shows "\<exists>hy flt now pr hdr ivd tr. rq = AqRevoke hy flt now pr hdr rid ivd tr
    \<and> holds_token ''revoke_passkey'' now pr hdr st \<and> wc_account_id r = acc_of pr
    \<and> (active_row r \<longrightarrow> 1 < CountActiveCredentials (acc_of pr) (wa_db st))"
proof (cases rq)
  case (AqWebauthn pr e w)
  then show ?thesis using wa_next_revoked [OF assms(2)] assms(3-5) by simp
next
  case (AqLabel flt acct cid label)
  then show ?thesis
    using credentials_label_db [of flt acct cid label st] assms by (auto simp: UpdateCredentialLabel_def update_cred_row split: if_splits)
next
  case (AqRevoke hy flt now pr hdr cid ivd tr)
  obtain x s where su: "RequireStepUp ''revoke_passkey'' now pr hdr (wa_stepup st) = (x, s)" by fastforce
  have passed: "x = None" using assms AqRevoke su by (cases x) (auto simp: revoke_route_def)
  then have "fst (RequireStepUp ''revoke_passkey'' now pr hdr (wa_stepup st)) = None" by (simp add: su)
  then have token: "holds_token ''revoke_passkey'' now pr hdr st"
    by (cases pr) (auto simp: holds_token_def RequireStepUp_pass, simp add: RequireStepUp_def)
  have db: "wa_db (account_next L d rq st) = fst (snd (credentials_revoke hy flt (acc_of pr) cid ivd (wa_db st) tr))"
    using AqRevoke su passed by (simp add: revoke_route_def split: prod.split)
  have chk: "revoke_check flt (acc_of pr) cid (wa_db st) = None"
    using assms db by (cases "revoke_check flt (acc_of pr) cid (wa_db st)") (auto simp: credentials_revoke_def)
  then obtain r0 where r0: "map_of (id_creds (wa_db st)) cid = Some r0" "wc_account_id r0 = acc_of pr"
    "active_row r0 \<Longrightarrow> 1 < CountActiveCredentials (acc_of pr) (wa_db st)"
    by (rule revoke_check_passed [OF _ assms(1)]) simp
  have "rid = cid"
    using assms(2-5) db chk by (auto simp: credentials_revoke_def revoke_commit_def cs_Revoke_def RevokeCredentialByID_def update_cred_row Let_def
        split: prod.splits if_splits)
  with AqRevoke r0 assms(2) token show ?thesis by auto
qed

lemma ex_two_revoke:
  "map_of (id_creds (wa_db (account_next ex_lib ex_deps (AqRevoke hy no_cred_faults 5 (Some ex_principal) ''tk'' ''r1'' False []) ex_two_state))) ''r1'' =
     Some (ex_row\<lparr>wc_account_id := ''acc1'', wc_revoked := 1\<rparr>)"
proof -
  have "fst (RequireStepUp ''revoke_passkey'' 5 (Some ex_principal) ''tk'' (wa_stepup ex_two_state)) = None"
    by (simp add: RequireStepUp_pass ex_two_state_def su_store_forms eph_Put_def eph_PutTTL_live_same NewStepUpStore_def
        stepUpTTL_def ex_principal_def)
  then obtain s where s: "RequireStepUp ''revoke_passkey'' 5 (Some ex_principal) ''tk'' (wa_stepup ex_two_state) = (None, s)"
    by (metis prod.collapse)
  have chk: "revoke_check no_cred_faults ''acc1'' ''r1'' ex_two = None"
    by (simp add: revoke_check_def no_cred_faults_def ex_two_def ex_row_def ListForAccountFull_def
      ListCredentialsForAccountFull_def rows_of_def ActiveCount_def CountActiveCredentials_def active_row_def)
  have db: "wa_db ex_two_state = ex_two" and acc: "acc_of (Some ex_principal) = ''acc1''"
    by (simp_all add: ex_two_state_def acc_of_def ex_principal_def)
  have "wa_db (account_next ex_lib ex_deps (AqRevoke hy no_cred_faults 5 (Some ex_principal) ''tk'' ''r1'' False []) ex_two_state) =
      RevokeCredentialByID ''r1'' ex_two"
    by (simp add: revoke_route_def s db acc credentials_revoke_def chk revoke_commit_def cs_Revoke_def revoke_sessions_def,
        simp add: no_cred_faults_def)
  then show ?thesis by (simp add: RevokeCredentialByID_def update_cred_def ex_two_def)
qed

theorem revocation_needs_stepup_witness:
  "\<forall>hy. holds_token ''revoke_passkey'' 5 (Some ex_principal) ''tk'' ex_two_state \<and> 1 < CountActiveCredentials ''acc1'' ex_two
     \<and> wc_revoked (the (map_of (id_creds (wa_db (account_next ex_lib ex_deps
         (AqRevoke hy no_cred_faults 5 (Some ex_principal) ''tk'' ''r1'' False []) ex_two_state))) ''r1'')) = 1"
proof
  fix hy
  have "id_wf (wa_db ex_two_state)" "map_of (id_creds (wa_db ex_two_state)) ''r1'' = Some (ex_row\<lparr>wc_account_id := ''acc1''\<rparr>)"
    "wc_revoked (ex_row\<lparr>wc_account_id := ''acc1''\<rparr>) = 0" "active_row (ex_row\<lparr>wc_account_id := ''acc1''\<rparr>)"
    by (simp_all add: ex_two_state_def ex_two_def id_wf_def ex_row_def active_row_def)
  from revocation_needs_stepup [OF this(1-3) ex_two_revoke, of hy] this(4)
  show "holds_token ''revoke_passkey'' 5 (Some ex_principal) ''tk'' ex_two_state \<and> 1 < CountActiveCredentials ''acc1'' ex_two
     \<and> wc_revoked (the (map_of (id_creds (wa_db (account_next ex_lib ex_deps
         (AqRevoke hy no_cred_faults 5 (Some ex_principal) ''tk'' ''r1'' False []) ex_two_state))) ''r1'')) = 1"
    unfolding ex_two_revoke by (auto simp: acc_of_def ex_principal_def ex_two_state_def)
qed

section \<open>Deleting an account\<close>

text \<open>
  Only the administrator deletes accounts, and never the administrator's own. When the delete
  handler changes the tables or reports a deletion, its caller is the administrator and the target is
  another account; the deletion removes exactly the target's account row and its passkeys, and the
  teardown of its sessions is triggered for this account, once, and exactly then. Under any failure
  the tables are unchanged and nothing is torn down.
\<close>

theorem account_deletion_admin_only:
  assumes "accounts_delete flt1 flt2 dflt blocked caller target db = ((resp, hook), db')"
  shows "hook = None \<and> db' = db
    \<or> hook = Some target \<and> fst resp = 200 \<and> id_admin db = Some caller \<and> target \<noteq> caller
      \<and> id_admin db' = id_admin db
      \<and> id_accounts db' = AList.delete target (id_accounts db)
      \<and> id_creds db' = filter (\<lambda>(k, r). wc_account_id r \<noteq> target) (id_creds db)"
proof (cases "IsAdmin flt1 caller db \<and> target \<noteq> caller \<and> \<not> IsAdmin flt2 target db")
  case True
  then have "id_admin db = Some caller"
    by (auto simp: IsAdmin_def adminID_def GetAdminAccountID_def split: if_splits option.splits)
  with True assms show ?thesis
    by (auto simp: accounts_delete_def accounts_Delete_def WithTx_def Let_def split: if_splits)
qed (use assms in \<open>auto simp: accounts_delete_def split: if_splits\<close>)

definition no_delete_faults :: delete_faults where
  "no_delete_faults = \<lparr>df_begin = False, df_commit = False, df_creds = False, df_endpoints = False, df_account = False\<rparr>"

definition ex_tenant :: id_db where
  "ex_tenant = ex_two\<lparr>id_accounts := [(''acc1'', ex_account), (''acc2'', ex_account)]\<rparr>"

theorem account_deletion_admin_only_witness:
  "\<exists>resp db'. accounts_delete False False no_delete_faults False ''acc1'' ''acc2'' ex_tenant = ((resp, Some ''acc2''), db')
     \<and> id_accounts db' = [(''acc1'', ex_account)] \<and> id_creds db' = id_creds ex_tenant"
proof -
  obtain resp db' where run: "accounts_delete False False no_delete_faults False ''acc1'' ''acc2'' ex_tenant = ((resp, Some ''acc2''), db')"
    by (simp add: accounts_delete_def IsAdmin_def adminID_def GetAdminAccountID_def ex_tenant_def ex_two_def accounts_Delete_def
        WithTx_def no_delete_faults_def Let_def)
  with account_deletion_admin_only [OF run] show ?thesis by (auto simp: ex_tenant_def ex_two_def ex_row_def)
qed

end
