(* ===== verification/Rest_Audit.thy ===== *)
theory Rest_Audit
  imports Notify_Log Rest_Accounts
begin

text \<open>
  \<open>src/internal/rest/audit.go\<close>: the audit logs over HTTP. \<open>q\<close> is the query string as \<open>url.Values.Get\<close> answers
  it, \<open>acct\<close> the authenticated account; a driver fault of a query is an argument.
\<close>

section \<open>The rows on the wire\<close>

definition nullable_int :: "int option \<Rightarrow> json" where
  "nullable_int x = (case x of None \<Rightarrow> JNull | Some n \<Rightarrow> JNum n)"

definition nullable_bool :: "bool option \<Rightarrow> json" where
  "nullable_bool x = (case x of None \<Rightarrow> JNull | Some b \<Rightarrow> JBool b)"

definition session_row_json :: "session_row \<Rightarrow> json" where
  "session_row_json r =
     JObj [(''sessionId'', JStr (slr_SessionID r)), (''accountId'', JStr (slr_AccountID r)), (''endpointId'', JStr (slr_EndpointID r)),
           (''source'', JStr (slr_Source r)), (''status'', JStr (slr_Status r)), (''createdAt'', JStr (slr_CreatedAt r)),
           (''closedAt'', nullable_opt (slr_ClosedAt r)), (''durationMs'', nullable_int (slr_DurationMs r)),
           (''sourceIp'', nullable_opt (slr_SourceIP r)), (''mcpReason'', nullable_opt (slr_MCPReason r)),
           (''mcpClientName'', nullable_opt (slr_MCPClientName r)), (''mcpClientVersion'', nullable_opt (slr_MCPClientVersion r)),
           (''clientHostname'', nullable_opt (slr_ClientHostname r)), (''clientOs'', nullable_opt (slr_ClientOS r)),
           (''clientVersion'', nullable_opt (slr_ClientVersion r)), (''closeReason'', nullable_opt (slr_CloseReason r))]"

definition signing_row_json :: "bool signing_row \<Rightarrow> json" where
  "signing_row_json r =
     JObj [(''id'', JStr (gr_ID r)), (''accountId'', JStr (gr_AccountID r)), (''type'', JStr (gr_Type r)), (''source'', JStr (gr_Source r)),
           (''createdAt'', JStr (gr_CreatedAt r)), (''resolvedAt'', nullable_opt (gr_ResolvedAt r)), (''outcome'', nullable_opt (gr_Outcome r)),
           (''latencyMs'', nullable_int (gr_LatencyMs r)), (''sourceIp'', nullable_opt (gr_SourceIP r)),
           (''endpointLabel'', nullable_opt (gr_EndpointLabel r)), (''endpointAddress'', nullable_opt (gr_EndpointAddress r)),
           (''sessionId'', nullable_opt (gr_SessionID r)), (''mcpReason'', nullable_opt (gr_MCPReason r)),
           (''mcpClientName'', nullable_opt (gr_MCPClientName r)), (''mcpClientVersion'', nullable_opt (gr_MCPClientVersion r)),
           (''clientHostname'', nullable_opt (gr_ClientHostname r)), (''clientOs'', nullable_opt (gr_ClientOS r)),
           (''clientVersion'', nullable_opt (gr_ClientVersion r)), (''credentialId'', nullable_opt (gr_CredentialID r)),
           (''passkeyLabel'', nullable_opt (gr_PasskeyLabel r)), (''userVerification'', nullable_opt (gr_UserVerification r)),
           (''keyLabel'', nullable_opt (gr_KeyLabel r)), (''keyFingerprint'', nullable_opt (gr_KeyFingerprint r)),
           (''cancelReason'', nullable_opt (gr_CancelReason r)), (''endpointId'', nullable_opt (gr_EndpointID r)),
           (''hostKeyFingerprint'', nullable_opt (gr_HostKeyFingerprint r)),
           (''hostKeyPriorFingerprint'', nullable_opt (gr_HostKeyPriorFingerprint r)), (''hostKeyPinned'', nullable_bool (gr_HostKeyPinned r))]"

definition client_row_json :: "string list client_row \<Rightarrow> json" where
  "client_row_json r =
     JObj [(''id'', JStr (cl_ID r)), (''clientId'', JStr (cl_ClientID r)), (''origin'', JStr (cl_Origin r)), (''event'', JStr (cl_Event r)),
           (''clientName'', nullable_opt (cl_ClientName r)), (''metadataHost'', nullable_opt (cl_MetadataHost r)),
           (''authMethod'', nullable_opt (cl_AuthMethod r)), (''redirectUris'', JArr (map JStr (cl_RedirectURIs r))),
           (''scope'', nullable_opt (cl_Scope r)), (''reason'', nullable_opt (cl_Reason r)), (''sourceIp'', nullable_opt (cl_SourceIP r)),
           (''createdAt'', JStr (cl_CreatedAt r))]"

definition page_json :: "('r \<Rightarrow> json) \<Rightarrow> 'r list \<times> string option \<Rightarrow> json" where
  "page_json f p = JObj [(''rows'', JArr (map f (fst p))), (''nextCursor'', nullable_opt (snd p))]"

section \<open>Handlers\<close>

definition sourceValues :: "string list" where
  "sourceValues = [''endpoint-auth'', ''agent-forwarding'', ''agent-proxy'', ''endpoint-admin'']"

definition outcomeValues :: "string list" where
  "outcomeValues = [''approved'', ''denied'', ''expired'', ''cancelled'']"

definition oauthOriginValues :: "string list" where
  "oauthOriginValues = [OriginDCR, audit_OriginCIMD]"

definition oauthEventValues :: "string list" where
  "oauthEventValues = [EventRegistered, EventRefreshed, EventRejected]"

definition parseLimit :: "string \<Rightarrow> int" where
  "parseLimit raw = (if raw = [] then 0 else case Atoi raw of None \<Rightarrow> 0 | Some n \<Rightarrow> n)"

definition listOAuthClients ::
  "json_codec \<Rightarrow> strings_codec \<Rightarrow> bool \<Rightarrow> bool \<Rightarrow> string \<Rightarrow> (string \<Rightarrow> string) \<Rightarrow> id_db \<Rightarrow> string option client_row list \<Rightarrow> http_resp"
where
  "listOAuthClients jc sc flt flt2 acct q ids table =
     (if \<not> IsAdmin flt acct ids then apierr_Write 403 ''Admin role required''
      else if q ''origin'' \<noteq> [] \<and> q ''origin'' \<notin> set oauthOriginValues then apierr_Write 400 ''invalid origin filter''
      else if q ''event'' \<noteq> [] \<and> q ''event'' \<notin> set oauthEventValues then apierr_Write 400 ''invalid event filter''
      else if flt2 then apierr_Write 500 ''internal error''
      else (200, page_json client_row_json (OAuthClients_List jc sc
             \<lparr>fl_ClientID = q ''clientId'', fl_Origin = q ''origin'', fl_Event = q ''event'', fl_Cursor = q ''cursor'',
              fl_Limit = parseLimit (q ''limit'')\<rparr> table)))"

definition listNotifications ::
  "json_codec \<Rightarrow> payload_codec \<Rightarrow> bool \<Rightarrow> string \<Rightarrow> (string \<Rightarrow> string) \<Rightarrow> notif_row list \<Rightarrow> http_resp"
where
  "listNotifications jc pc flt acct q table =
     (if flt then apierr_Write 500 ''internal error''
      else (200, page_json notif_json (notify_List jc pc acct (q ''cursor'') (parseLimit (q ''limit'')) table)))"

definition listSessions :: "json_codec \<Rightarrow> bool \<Rightarrow> string \<Rightarrow> (string \<Rightarrow> string) \<Rightarrow> session_row list \<Rightarrow> http_resp" where
  "listSessions jc flt acct q table =
     (if flt then apierr_Write 500 ''internal error''
      else (200, page_json session_row_json (Sessions_List jc acct
             \<lparr>sf_EndpointID = q ''endpointId'', sf_From = q ''from'', sf_To = q ''to''\<rparr> (q ''cursor'') (parseLimit (q ''limit'')) table)))"

definition listSignings :: "json_codec \<Rightarrow> bool \<Rightarrow> string \<Rightarrow> (string \<Rightarrow> string) \<Rightarrow> int signing_row list \<Rightarrow> http_resp" where
  "listSignings jc flt acct q table =
     (if q ''source'' \<noteq> [] \<and> q ''source'' \<notin> set sourceValues then apierr_Write 400 ''invalid source filter''
      else if q ''outcome'' \<noteq> [] \<and> q ''outcome'' \<notin> set outcomeValues then apierr_Write 400 ''invalid outcome filter''
      else if flt then apierr_Write 500 ''internal error''
      else (200, page_json signing_row_json (Signings_List jc acct
             \<lparr>gf_Source = q ''source'', gf_Outcome = q ''outcome'', gf_From = q ''from'', gf_To = q ''to''\<rparr>
             (q ''cursor'') (parseLimit (q ''limit'')) table)))"

definition getSigning :: "bool \<Rightarrow> string \<Rightarrow> string \<Rightarrow> int signing_row list \<Rightarrow> http_resp" where
  "getSigning flt acct i table =
     (if flt then apierr_Write 500 ''internal error''
      else case Signings_GetByID acct i table of
             None \<Rightarrow> apierr_Write 404 ''not found''
           | Some row \<Rightarrow> (200, signing_row_json row))"

section \<open>Who sees what\<close>

text \<open>The rows of the table that an answer shows.\<close>

lemma shown_rows:
  "set (fst (Sessions_List jc acct f cur limit t)) \<subseteq> {r \<in> set t. slr_AccountID r = acct}"
  "set (fst (Signings_List jc acct g cur limit u)) \<subseteq> scanSigning ` {r \<in> set u. gr_AccountID r = acct}"
  "set (fst (notify_List jc pc acct cur limit v)) \<subseteq> scan_notif pc ` {r \<in> set v. nt_AccountID r = acct}"
proof -
  have sub: "set (fst (paginate jc key n xs)) \<subseteq> set xs" for key n and xs :: "'x list"
    by (auto simp: paginate_def Let_def dest: in_set_takeD)
  have tk: "set (take n (order_desc key xs)) \<subseteq> set xs" for key n and xs :: "'y list"
    by (metis set_order_desc(1) set_take_subset)
  show "set (fst (Sessions_List jc acct f cur limit t)) \<subseteq> {r \<in> set t. slr_AccountID r = acct}"
    unfolding Sessions_List_def Let_def
    by (rule subset_trans [OF sub], rule subset_trans [OF tk]) (auto simp: session_conds_def)
  have tkm: "set (map f (take n (order_desc key xs))) \<subseteq> f ` set xs" for key n and xs :: "'z list" and f :: "'z \<Rightarrow> 'w"
    by (metis image_mono set_map set_order_desc(1) set_take_subset)
  show "set (fst (Signings_List jc acct g cur limit u)) \<subseteq> scanSigning ` {r \<in> set u. gr_AccountID r = acct}"
    unfolding Signings_List_def Let_def
    by (rule subset_trans [OF sub], rule subset_trans [OF tkm]) (auto simp: signing_conds_def)
  show "set (fst (notify_List jc pc acct cur limit v)) \<subseteq> scan_notif pc ` {r \<in> set v. nt_AccountID r = acct}"
    unfolding notify_List_paginate
    by (rule subset_trans [OF sub], rule subset_trans [OF tkm]) auto
qed

lemma list_answers:
  "listSessions jc flt acct q t = (200, j) \<Longrightarrow> \<exists>f cur limit. j = page_json session_row_json (Sessions_List jc acct f cur limit t)"
  "listSignings jc flt acct q u = (200, j) \<Longrightarrow> \<exists>g cur limit. j = page_json signing_row_json (Signings_List jc acct g cur limit u)"
  "listNotifications jc pc flt acct q v = (200, j) \<Longrightarrow> \<exists>cur limit. j = page_json notif_json (notify_List jc pc acct cur limit v)"
  unfolding listSessions_def listSignings_def listNotifications_def apierr_Write_def
  by (auto simp del: One_nat_def split: if_splits intro: exI)

lemma subset_image_list: "set xs \<subseteq> f ` A \<Longrightarrow> \<exists>rows. xs = map f rows \<and> set rows \<subseteq> A"
proof (induction xs)
  case (Cons x xs)
  then obtain a rows where "x = f a" "a \<in> A" "xs = map f rows" "set rows \<subseteq> A" by auto
  then show ?case by (intro exI [of _ "a # rows"]) simp
qed simp

text \<open>
  C25: The audit logs are read by those they belong to. A page of session lifecycles, signing requests
  or notifications shows only rows of the authenticated account, whatever its filters, cursor and page
  size; a single signing request is shown only to its account; and the log of client registrations,
  which belongs to no account, is shown only to the administrator.
\<close>

theorem audit_logs_scoped:
  "(listSessions jc flt acct q t = (200, j) \<longrightarrow>
      (\<exists>rows nxt. j = page_json session_row_json (rows, nxt) \<and> set rows \<subseteq> {r \<in> set t. slr_AccountID r = acct}))
   \<and> (listSignings jc flt acct q u = (200, j) \<longrightarrow>
      (\<exists>rows nxt. j = page_json signing_row_json (map scanSigning rows, nxt) \<and> set rows \<subseteq> {r \<in> set u. gr_AccountID r = acct}))
   \<and> (listNotifications jc pc flt acct q v = (200, j) \<longrightarrow>
      (\<exists>rows nxt. j = page_json notif_json (map (scan_notif pc) rows, nxt) \<and> set rows \<subseteq> {r \<in> set v. nt_AccountID r = acct}))
   \<and> (getSigning flt acct i u = (200, j) \<longrightarrow> (\<exists>r\<in>set u. gr_AccountID r = acct \<and> gr_ID r = i \<and> j = signing_row_json (scanSigning r)))
   \<and> (listOAuthClients jc sc flt flt2 acct q ids w = (200, j) \<longrightarrow> IsAdmin flt acct ids)"
proof -
  have "\<exists>rows nxt. j = page_json session_row_json (rows, nxt) \<and> set rows \<subseteq> {r \<in> set t. slr_AccountID r = acct}"
    if ok: "listSessions jc flt acct q t = (200, j)"
  proof -
    obtain f cur limit where "j = page_json session_row_json (Sessions_List jc acct f cur limit t)" using list_answers(1) [OF ok] by blast
    with shown_rows(1) show ?thesis by (intro exI [of _ "fst (Sessions_List jc acct f cur limit t)"] exI [of _ "snd (Sessions_List jc acct f cur limit t)"]) simp
  qed
  moreover have "\<exists>rows nxt. j = page_json signing_row_json (map scanSigning rows, nxt) \<and> set rows \<subseteq> {r \<in> set u. gr_AccountID r = acct}"
    if ok: "listSignings jc flt acct q u = (200, j)"
  proof -
    obtain g cur limit where j: "j = page_json signing_row_json (Signings_List jc acct g cur limit u)" using list_answers(2) [OF ok] by blast
    from subset_image_list [OF shown_rows(2)] obtain rows where
      "fst (Signings_List jc acct g cur limit u) = map scanSigning rows" "set rows \<subseteq> {r \<in> set u. gr_AccountID r = acct}" by blast
    with j show ?thesis by (intro exI [of _ rows] exI [of _ "snd (Signings_List jc acct g cur limit u)"]) (simp add: page_json_def)
  qed
  moreover have "\<exists>rows nxt. j = page_json notif_json (map (scan_notif pc) rows, nxt) \<and> set rows \<subseteq> {r \<in> set v. nt_AccountID r = acct}"
    if ok: "listNotifications jc pc flt acct q v = (200, j)"
  proof -
    obtain cur limit where j: "j = page_json notif_json (notify_List jc pc acct cur limit v)" using list_answers(3) [OF ok] by blast
    from subset_image_list [OF shown_rows(3)] obtain rows where
      "fst (notify_List jc pc acct cur limit v) = map (scan_notif pc) rows" "set rows \<subseteq> {r \<in> set v. nt_AccountID r = acct}" by blast
    with j show ?thesis by (intro exI [of _ rows] exI [of _ "snd (notify_List jc pc acct cur limit v)"]) (simp add: page_json_def)
  qed
  moreover have "\<exists>r\<in>set u. gr_AccountID r = acct \<and> gr_ID r = i \<and> j = signing_row_json (scanSigning r)"
    if "getSigning flt acct i u = (200, j)"
    using that unfolding getSigning_def Signings_GetByID_def apierr_Write_def
    by (auto split: if_splits option.splits simp: find_Some_iff)
  moreover have "IsAdmin flt acct ids" if "listOAuthClients jc sc flt flt2 acct q ids w = (200, j)"
    using that unfolding listOAuthClients_def apierr_Write_def by (auto split: if_splits)
  ultimately show ?thesis by blast
qed

definition ex_logged_action :: action where
  "ex_logged_action =
     \<lparr>a_ID = ''x'', a_AccountID = ''acc1'', a_Type = TypeKeyApprove, a_Status = ActPending, a_CreatedAt = 0, a_ExpiresAt = 1,
      a_Context = \<lparr>cx_Source = ''agent-proxy'', cx_EndpointLabel = [], cx_EndpointAddress = [], cx_SessionID = [], cx_SourceIP = [],
        cx_ClientHostname = [], cx_ClientOS = [], cx_ClientVersion = [], cx_HostKey = None, cx_TriggerKind = [], cx_MCPReason = [],
        cx_MCPClientName = [], cx_MCPClientVer = []\<rparr>, a_RedirectTo = [], a_ConnectionID = [], a_CredentialID = [], a_Challenge = [],
      a_RpID = [], a_PasskeyLabel = [], a_UserVerification = [], a_KeyLabel = [], a_KeyFingerprint = [], a_resolveSign = False,
      a_resolveKey = True, a_reject = True\<rparr>"

theorem audit_logs_scoped_witness:
  "let u = [signing_row_of (\<lambda>t. ''t'') ex_logged_action] in
   (\<exists>j. getSigning False ''acc1'' ''x'' u = (200, j) \<and> (\<exists>r\<in>set u. gr_AccountID r = ''acc1'' \<and> gr_ID r = ''x'' \<and> j = signing_row_json (scanSigning r)))
   \<and> fst (getSigning False ''acc2'' ''x'' u) = 404"
proof -
  let ?u = "[signing_row_of (\<lambda>t. ''t'') ex_logged_action]"
  have row: "gr_AccountID (hd ?u) = ''acc1''" "gr_ID (hd ?u) = ''x''" by (simp_all add: signing_row_of_def Let_def ex_logged_action_def)
  then have got: "getSigning False ''acc1'' ''x'' ?u = (200, signing_row_json (scanSigning (hd ?u)))"
    and not: "fst (getSigning False ''acc2'' ''x'' ?u) = 404"
    by (simp_all add: getSigning_def Signings_GetByID_def apierr_Write_def)
  from audit_logs_scoped [THEN conjunct2, THEN conjunct2, THEN conjunct2, THEN conjunct1, rule_format, OF got] got not
  show ?thesis unfolding Let_def by blast
qed

end
