(* ===== verification/Ssh_Keys.thy ===== *)
theory Ssh_Keys
  imports Sign_Agent Credential_Store
begin

text \<open>
  \<open>src/internal/store/sshkeys.go\<close> and \<open>src/internal/sshx/keys.go\<close>: the table of file keys, and the directory they are
  read from.

  The table is keyed by its primary key; \<open>ORDER BY created_at, id\<close> is the order of the library on pairs
  of strings. A directory listing is an argument: its entries in the order \<open>os.ReadDir\<close> gives them, each
  with what reading and parsing it yields; \<open>fpr\<close> and \<open>line\<close> are the fingerprint and the authorized-keys
  line of a public key.
\<close>

section \<open>The table\<close>

record ssh_key_row =
  kr_label :: string
  kr_type :: string
  kr_public_key :: string
  kr_fingerprint :: string
  kr_enabled :: int
  kr_last_used_at :: "string option"
  kr_created_at :: string
  kr_updated_at :: string

type_synonym key_table = "(string, ssh_key_row) gomap"

definition SSHKeyFingerprintExists :: "string \<Rightarrow> key_table \<Rightarrow> bool" where
  "SSHKeyFingerprintExists fp t = list_ex (\<lambda>(k, r). kr_fingerprint r = fp) t"

text \<open>The insert fails on a used id and on a used fingerprint.\<close>

definition InsertFileKey :: "string \<Rightarrow> string \<Rightarrow> string \<Rightarrow> string \<Rightarrow> string \<Rightarrow> string \<Rightarrow> key_table \<Rightarrow> bool \<times> key_table" where
  "InsertFileKey i label publicKey fp created updated t =
     (if map_of t i \<noteq> None \<or> SSHKeyFingerprintExists fp t then (False, t)
      else (True, AList.update i \<lparr>kr_label = label, kr_type = ''file'', kr_public_key = publicKey, kr_fingerprint = fp,
             kr_enabled = 1, kr_last_used_at = None, kr_created_at = created, kr_updated_at = updated\<rparr> t))"

definition ListSSHKeysFull :: "key_table \<Rightarrow> (string \<times> ssh_key_row) list" where
  "ListSSHKeysFull t = sort_key (\<lambda>(k, r). (kr_created_at r, k)) t"

definition ListSSHKeys :: "key_table \<Rightarrow> (string \<times> ssh_key_row) list" where
  "ListSSHKeys t = sort_key (\<lambda>(k, r). (kr_created_at r, k)) (filter (\<lambda>(k, r). kr_enabled r = 1) t)"

record ssh_key =
  ky_ID :: string
  ky_Label :: string
  ky_Type :: string
  ky_Fingerprint :: string

record ssh_key_full =
  kf_ID :: string
  kf_Label :: string
  kf_Type :: string
  kf_PublicKey :: string
  kf_Fingerprint :: string
  kf_Enabled :: bool
  kf_CreatedAt :: string
  kf_LastUsedAt :: "string option"

definition keys_List :: "bool \<Rightarrow> key_table \<Rightarrow> store_error + ssh_key list" where
  "keys_List flt t =
     (if flt then Inl StoreDriver
      else Inr (map (\<lambda>(k, r). \<lparr>ky_ID = k, ky_Label = kr_label r, ky_Type = kr_type r, ky_Fingerprint = kr_fingerprint r\<rparr>) (ListSSHKeys t)))"

definition keys_Get :: "bool \<Rightarrow> string \<Rightarrow> key_table \<Rightarrow> store_error + (ssh_key \<times> string) option" where
  "keys_Get flt i t =
     (if flt then Inl StoreDriver
      else Inr (map_option (\<lambda>r. (\<lparr>ky_ID = i, ky_Label = kr_label r, ky_Type = kr_type r, ky_Fingerprint = kr_fingerprint r\<rparr>,
                                 kr_public_key r)) (map_of t i)))"

definition ListFull :: "bool \<Rightarrow> key_table \<Rightarrow> store_error + ssh_key_full list" where
  "ListFull flt t =
     (if flt then Inl StoreDriver
      else Inr (map (\<lambda>(k, r). \<lparr>kf_ID = k, kf_Label = kr_label r, kf_Type = kr_type r, kf_PublicKey = kr_public_key r,
             kf_Fingerprint = kr_fingerprint r, kf_Enabled = (kr_enabled r \<noteq> 0), kf_CreatedAt = kr_created_at r,
             kf_LastUsedAt = kr_last_used_at r\<rparr>) (ListSSHKeysFull t)))"

definition UpsertFileKey ::
  "bool \<Rightarrow> bool \<Rightarrow> string \<Rightarrow> string \<Rightarrow> string \<Rightarrow> string \<Rightarrow> string \<Rightarrow> key_table \<Rightarrow> store_error option \<times> key_table"
where
  "UpsertFileKey flt flt2 i label publicKey fp now t =
     (if flt then (Some StoreDriver, t)
      else if SSHKeyFingerprintExists fp t then (None, t)
      else if flt2 then (Some StoreDriver, t)
      else case InsertFileKey i label publicKey fp now now t of
             (True, t) \<Rightarrow> (None, t) | (False, t) \<Rightarrow> (Some StoreDriver, t))"

section \<open>The directory\<close>

record dir_entry =
  de_Name :: string
  de_IsDir :: bool
  de_Key :: "ssh_signer option"

record scanned_key =
  sk_filename :: string
  sk_signer :: ssh_signer
  sk_publicKey :: string
  sk_fingerprint :: string

record key_dir =
  kd_available :: "(string, scanned_key) gomap"
  kd_loaded :: bool

record key_lib =
  kl_fpr :: "byte list \<Rightarrow> string"
  kl_line :: "pub_key \<Rightarrow> string"

definition NewKeyDir :: key_dir where
  "NewKeyDir = \<lparr>kd_available = [], kd_loaded = False\<rparr>"

definition scan_entry :: "key_lib \<Rightarrow> dir_entry \<Rightarrow> (string, scanned_key) gomap \<Rightarrow> (string, scanned_key) gomap" where
  "scan_entry L e acc =
     (if de_IsDir e \<or> \<not> has_suffix (de_Name e) ''.pem'' then acc
      else case de_Key e of
             None \<Rightarrow> acc
           | Some signer \<Rightarrow>
               (let pub = sn_pub signer; fp = kl_fpr L (pk_blob pub) in
                AList.update fp \<lparr>sk_filename = de_Name e, sk_signer = signer, sk_publicKey = trim_space (kl_line L pub),
                  sk_fingerprint = fp\<rparr> acc))"

text \<open>\<open>listing\<close> is \<open>None\<close> when the directory cannot be read.\<close>

definition scanLocked :: "key_lib \<Rightarrow> dir_entry list option \<Rightarrow> key_dir \<Rightarrow> key_dir" where
  "scanLocked L listing k =
     k\<lparr>kd_loaded := True, kd_available := (case listing of None \<Rightarrow> [] | Some es \<Rightarrow> fold (scan_entry L) es [])\<rparr>"

definition ensure_loaded :: "key_lib \<Rightarrow> dir_entry list option \<Rightarrow> key_dir \<Rightarrow> key_dir" where
  "ensure_loaded L listing k = (if kd_loaded k then k else scanLocked L listing k)"

definition kd_Signers :: "key_lib \<Rightarrow> dir_entry list option \<Rightarrow> key_dir \<Rightarrow> ssh_signer list \<times> key_dir" where
  "kd_Signers L listing k =
     (let k = ensure_loaded L listing k in (map (sk_signer \<circ> snd) (kd_available k), k))"

definition IsAvailable :: "string \<Rightarrow> key_dir \<Rightarrow> bool" where
  "IsAvailable fp k \<longleftrightarrow> map_of (kd_available k) fp \<noteq> None"

definition SignerFor :: "key_lib \<Rightarrow> dir_entry list option \<Rightarrow> string \<Rightarrow> key_dir \<Rightarrow> ssh_signer option \<times> key_dir" where
  "SignerFor L listing fp k =
     (let k = ensure_loaded L listing k in (map_option sk_signer (map_of (kd_available k) fp), k))"

definition Reload :: "key_lib \<Rightarrow> dir_entry list option \<Rightarrow> key_dir \<Rightarrow> key_dir" where
  "Reload L listing k = scanLocked L listing k"

text \<open>\<open>strings.TrimSuffix\<close>.\<close>

definition trim_suffix :: "string \<Rightarrow> string \<Rightarrow> string" where
  "trim_suffix s p = (if has_suffix s p then take (length s - length p) s else s)"

text \<open>The upserts of one synchronisation, in the order the snapshot of the map has; a failed one is logged.\<close>

definition upsert_scanned :: "(bool \<times> bool) \<Rightarrow> string \<Rightarrow> scanned_key \<Rightarrow> key_table \<Rightarrow> key_table" where
  "upsert_scanned flts now sk t =
     snd (UpsertFileKey (fst flts) (snd flts) (trim_suffix (sk_filename sk) ''.pem'') (sk_filename sk) (sk_publicKey sk)
            (sk_fingerprint sk) now t)"

definition kd_sync ::
  "key_lib \<Rightarrow> dir_entry list option \<Rightarrow> (scanned_key list \<Rightarrow> scanned_key list) \<Rightarrow> (bool \<times> bool) \<Rightarrow> string \<Rightarrow> key_dir \<Rightarrow> key_table option \<Rightarrow>
   key_dir \<times> key_table option"
where
  "kd_sync L listing order flts now k keys =
     (let k = scanLocked L listing k; snapshot = order (map snd (kd_available k)) in
      (k, map_option (fold (upsert_scanned flts now) snapshot) keys))"

section \<open>What is available\<close>

text \<open>An available key was read from a \<open>.pem\<close> file of the last listing and is filed under its own fingerprint.\<close>

definition on_disk :: "key_lib \<Rightarrow> dir_entry list option \<Rightarrow> string \<Rightarrow> ssh_signer \<Rightarrow> bool" where
  "on_disk L listing fp s \<longleftrightarrow> kl_fpr L (pk_blob (sn_pub s)) = fp
     \<and> (\<exists>es e. listing = Some es \<and> e \<in> set es \<and> \<not> de_IsDir e \<and> has_suffix (de_Name e) ''.pem'' \<and> de_Key e = Some s)"

lemma scan_fold:
  assumes "map_of (fold (scan_entry L) es acc) fp = Some sk"
  shows "map_of acc fp = Some sk \<or> on_disk L (Some es) fp (sk_signer sk)"
  using assms
proof (induction es arbitrary: acc)
  case (Cons e es)
  then consider "map_of (scan_entry L e acc) fp = Some sk" | "on_disk L (Some es) fp (sk_signer sk)" by auto
  then show ?case
    by cases (auto simp: scan_entry_def on_disk_def Let_def gomap_simps split: if_splits option.splits)
qed simp

lemma scanLocked_on_disk:
  "map_of (kd_available (scanLocked L listing k)) fp = Some sk \<Longrightarrow> on_disk L listing fp (sk_signer sk)"
  using scan_fold [of L _ "[]" fp sk] by (cases listing) (auto simp: scanLocked_def)

text \<open>A directory state whose keys come from the listing \<open>listing\<close>.\<close>

definition dir_ok :: "key_lib \<Rightarrow> dir_entry list option \<Rightarrow> key_dir \<Rightarrow> bool" where
  "dir_ok L listing k \<longleftrightarrow> (kd_loaded k \<longrightarrow> (\<forall>fp sk. map_of (kd_available k) fp = Some sk \<longrightarrow> on_disk L listing fp (sk_signer sk)))"

lemma dir_ok_ops [intro]:
  "dir_ok L listing NewKeyDir" "dir_ok L listing (scanLocked L listing k)"
  "dir_ok L listing k \<Longrightarrow> dir_ok L listing (snd (SignerFor L listing fp k))"
  using scanLocked_on_disk by (auto simp: dir_ok_def NewKeyDir_def SignerFor_def ensure_loaded_def Let_def)

lemma SignerFor_on_disk:
  "dir_ok L listing k \<Longrightarrow> fst (SignerFor L listing fp k) = Some s \<Longrightarrow> on_disk L listing fp s"
  using scanLocked_on_disk [of L listing k fp]
  by (auto simp: dir_ok_def SignerFor_def ensure_loaded_def Let_def split: if_splits)

section \<open>The table stays consistent\<close>

definition keys_wf :: "key_table \<Rightarrow> bool" where
  "keys_wf t \<longleftrightarrow> gm_wf t \<and> (\<forall>i j r s. map_of t i = Some r \<longrightarrow> map_of t j = Some s \<longrightarrow> kr_fingerprint r = kr_fingerprint s \<longrightarrow> i = j)"

lemma fingerprint_exists: "gm_wf t \<Longrightarrow> SSHKeyFingerprintExists fp t \<longleftrightarrow> (\<exists>i r. map_of t i = Some r \<and> kr_fingerprint r = fp)"
  by (auto simp: SSHKeyFingerprintExists_def list_ex_iff)

lemma keys_wf_update:
  assumes "keys_wf t" "\<And>j s. map_of t j = Some s \<Longrightarrow> kr_fingerprint s \<noteq> kr_fingerprint r"
  shows "keys_wf (AList.update i r t)"
proof -
  have "i' = j" if "map_of (AList.update i r t) i' = Some x" "map_of (AList.update i r t) j = Some y"
    "kr_fingerprint x = kr_fingerprint y" for i' j x y
    using that assms unfolding keys_wf_def by (simp add: gm_get_update split: if_splits) metis
  with assms(1) show ?thesis unfolding keys_wf_def by (simp add: gm_wf_update)
qed

lemma UpsertFileKey_wf:
  assumes "keys_wf t" shows "keys_wf (snd (UpsertFileKey flt flt2 i label pub fp now t))"
proof -
  have "gm_wf t" using assms by (simp add: keys_wf_def)
  then show ?thesis
    using assms fingerprint_exists [of t fp] by (auto simp: UpsertFileKey_def InsertFileKey_def intro!: keys_wf_update)
qed

lemma sync_wf:
  assumes "keys_wf t" shows "keys_wf (fold (upsert_scanned flts now) sks t)"
  using assms by (induction sks arbitrary: t) (simp_all add: upsert_scanned_def UpsertFileKey_wf)

text \<open>A row, once there, is never changed by a synchronisation: labels and the enabled flag survive.\<close>

lemma sync_keeps_rows:
  assumes "map_of t i = Some r" shows "map_of (fold (upsert_scanned flts now) sks t) i = Some r"
  using assms
proof (induction sks arbitrary: t)
  case (Cons sk sks)
  have "map_of (upsert_scanned flts now sk t) i = Some r"
    using Cons.prems by (auto simp: upsert_scanned_def UpsertFileKey_def InsertFileKey_def gomap_simps)
  with Cons.IH show ?case by simp
qed simp

text \<open>
  A key file replaced by another one under the same name is never recorded: the row of the old key
  holds the id, so the insert of the new key fails at every synchronisation, and a key without a row
  is never offered.
\<close>

theorem replaced_key_never_listed:
  assumes "map_of t (trim_suffix name ''.pem'') = Some r" "\<And>j s. map_of t j = Some s \<Longrightarrow> kr_fingerprint s \<noteq> fp" "gm_wf t"
    and "\<forall>sk\<in>set sks. sk_fingerprint sk = fp \<longrightarrow> sk_filename sk = name"
  shows "\<not> SSHKeyFingerprintExists fp (fold (upsert_scanned flts now) sks t)"
  using assms
proof (induction sks arbitrary: t)
  case Nil
  then show ?case by (auto simp: fingerprint_exists)
next
  case (Cons sk sks)
  let ?t = "upsert_scanned flts now sk t"
  have "map_of ?t (trim_suffix name ''.pem'') = Some r" using sync_keeps_rows [OF Cons.prems(1), of flts now "[sk]"] by simp
  moreover have "kr_fingerprint s \<noteq> fp" if "map_of ?t j = Some s" for j s
    using that Cons.prems(1,2,4) by (auto simp: upsert_scanned_def UpsertFileKey_def InsertFileKey_def gomap_simps split: if_splits)
  moreover have "gm_wf ?t"
    using Cons.prems(3) by (auto simp: upsert_scanned_def UpsertFileKey_def InsertFileKey_def)
  ultimately show ?case using Cons.IH [of ?t] Cons.prems(4) by simp
qed

end
