(* ===== verification/Ssh_Factory.thy ===== *)
theory Ssh_Factory
  imports Ssh_Keys Ws_Hub
begin

text \<open>
  \<open>src/internal/sshx/auth.go\<close>, \<open>pubkey.go\<close>, \<open>factory.go\<close> and \<open>passkey_factory.go\<close>, and the key listing of
  \<open>src/internal/rest/keys.go\<close>: which keys a connection offers, one after the other, and what happens around
  the dial. The dial itself is \<open>Connect\<close> of \<open>Host_Key\<close>. Errors that are only shown are strings.
\<close>

section \<open>One key per round\<close>

record 's key_auth =
  kx_signers :: "'s list"
  kx_next :: nat
  kx_lastErr :: "string option"

definition newKeyAuth :: "'s list \<Rightarrow> 's key_auth" where
  "newKeyAuth signers = \<lparr>kx_signers = signers, kx_next = 0, kx_lastErr = None\<rparr>"

text \<open>The callback: an error aborts the handshake, no method ends it.\<close>

definition keyAuth_callback :: "string option \<Rightarrow> string list \<Rightarrow> 's key_auth \<Rightarrow> (string + 's option) \<times> 's key_auth" where
  "keyAuth_callback ctxErr allowedMethods k =
     (case ctxErr of
        Some e \<Rightarrow> (Inl e, k)
      | None \<Rightarrow>
          if allowedMethods \<noteq> [] \<and> ''publickey'' \<notin> set allowedMethods then (Inr None, k)
          else if kx_next k \<ge> length (kx_signers k) then (Inr None, k)
          else (Inr (Some (kx_signers k ! kx_next k)), k\<lparr>kx_next := Suc (kx_next k)\<rparr>))"

definition keyAuth_record :: "string \<Rightarrow> 's key_auth \<Rightarrow> 's key_auth" where
  "keyAuth_record err k = k\<lparr>kx_lastErr := Some err\<rparr>"

text \<open>The wrapper around a signer: its result is passed on, an error is recorded.\<close>

definition recording_Sign :: "string + ssh_signature \<Rightarrow> 's key_auth \<Rightarrow> (string + ssh_signature) \<times> 's key_auth" where
  "recording_Sign r k = (r, case r of Inl e \<Rightarrow> keyAuth_record e k | Inr _ \<Rightarrow> k)"

definition authFailedMessage :: string where
  "authFailedMessage = ''All configured authentication methods failed''"

definition authError :: "string \<Rightarrow> 's key_auth \<Rightarrow> string" where
  "authError handshakeErr k =
     (case kx_lastErr k of
        Some e \<Rightarrow> authFailedMessage @ '': '' @ e
      | None \<Rightarrow> if contains_str handshakeErr ''unable to authenticate'' then authFailedMessage else handshakeErr)"

text \<open>The rounds of a handshake, each with the state of the context and what the server allows.\<close>

fun auth_rounds :: "(string option \<times> string list) list \<Rightarrow> 's key_auth \<Rightarrow> (string + 's option) list" where
  "auth_rounds [] k = []"
| "auth_rounds ((ctxErr, methods) # rs) k =
     (case keyAuth_callback ctxErr methods k of (x, k) \<Rightarrow> x # auth_rounds rs k)"

fun offered :: "(string + 's option) list \<Rightarrow> 's list" where
  "offered [] = []"
| "offered (Inr (Some s) # xs) = s # offered xs"
| "offered (_ # xs) = offered xs"

lemma callback_cases:
  "keyAuth_callback c al k = (x, k') \<Longrightarrow>
     (\<exists>s. x = Inr (Some s) \<and> kx_next k < length (kx_signers k) \<and> s = kx_signers k ! kx_next k \<and> k' = k\<lparr>kx_next := Suc (kx_next k)\<rparr>)
     \<or> k' = k \<and> (x = Inr None \<or> (\<exists>e. x = Inl e))"
  by (auto simp: keyAuth_callback_def split: option.splits if_splits)

lemma offered_rounds: "\<exists>n. offered (auth_rounds rs k) = take n (drop (kx_next k) (kx_signers k))"
proof (induction rs arbitrary: k)
  case Nil
  show ?case by (auto intro: exI [of _ 0])
next
  case (Cons r rs)
  obtain c al where r: "r = (c, al)" by (cases r)
  obtain x k' where cb: "keyAuth_callback c al k = (x, k')" by (cases "keyAuth_callback c al k")
  obtain n where n: "offered (auth_rounds rs k') = take n (drop (kx_next k') (kx_signers k'))" using Cons by blast
  from callback_cases [OF cb] show ?case
  proof (elim disjE exE conjE)
    fix s assume "x = Inr (Some s)" "kx_next k < length (kx_signers k)" "s = kx_signers k ! kx_next k" "k' = k\<lparr>kx_next := Suc (kx_next k)\<rparr>"
    with n have "offered (auth_rounds (r # rs) k) = take (Suc n) (drop (kx_next k) (kx_signers k))"
      by (simp add: r cb Cons_nth_drop_Suc [symmetric])
    then show ?thesis ..
  qed (use n in \<open>auto simp: r cb\<close>)
qed

lemma all_offered:
  "length (kx_signers k) - kx_next k \<le> length rs \<Longrightarrow> \<forall>(c, al)\<in>set rs. c = None \<and> (al = [] \<or> ''publickey'' \<in> set al) \<Longrightarrow>
   offered (auth_rounds rs k) = drop (kx_next k) (kx_signers k)"
proof (induction rs arbitrary: k)
  case (Cons r rs)
  obtain c al where r: "r = (c, al)" by (cases r)
  with Cons.prems(2) have ok: "c = None" "al = [] \<or> ''publickey'' \<in> set al" by auto
  show ?case
  proof (cases "kx_next k < length (kx_signers k)")
    case True
    with ok have cb: "keyAuth_callback c al k = (Inr (Some (kx_signers k ! kx_next k)), k\<lparr>kx_next := Suc (kx_next k)\<rparr>)"
      by (auto simp: keyAuth_callback_def)
    have "offered (auth_rounds rs (k\<lparr>kx_next := Suc (kx_next k)\<rparr>)) = drop (Suc (kx_next k)) (kx_signers k)"
      using Cons.IH [of "k\<lparr>kx_next := Suc (kx_next k)\<rparr>"] Cons.prems by auto
    with True show ?thesis by (simp add: r cb Cons_nth_drop_Suc)
  next
    case False
    with ok have cb: "keyAuth_callback c al k = (Inr None, k)" by (auto simp: keyAuth_callback_def)
    have "offered (auth_rounds rs k) = drop (kx_next k) (kx_signers k)" using Cons False by (intro Cons.IH) auto
    then show ?thesis by (simp add: r cb)
  qed
qed simp

section \<open>The keys of a connection\<close>

record factory_req =
  fq_Endpoint :: endpoint_ref
  fq_SessionID :: string
  fq_Trigger :: trigger

text \<open>\<open>pf_fileKeys\<close>: the three collaborators of the file keys are configured.\<close>

record factory_cfg =
  pf_fileKeys :: bool
  pf_RpID :: string
  pf_onMismatch :: bool
  pf_onEnded :: bool

datatype conn_signer = CsFile file_signer | CsWeb pub_key web_signer

definition parseWebauthnPublicKey :: "string \<Rightarrow> pub_key option" where
  "parseWebauthnPublicKey authorizedKeysLine =
     (case string_fields authorizedKeysLine of
        _ # f1 # _ \<Rightarrow> map_option (\<lambda>blob. \<lparr>pk_type = WebAuthnSKAlgo, pk_blob = blob\<rparr>) (Std_Decode f1)
      | _ \<Rightarrow> None)"

fun select_keys ::
  "key_lib \<Rightarrow> dir_entry list option \<Rightarrow> ssh_key_full list \<Rightarrow> key_dir \<Rightarrow> (ssh_signer \<times> string) list \<times> key_dir"
where
  "select_keys L listing [] kd = ([], kd)"
| "select_keys L listing (row # rows) kd =
     (if kf_Type row \<noteq> ''file'' \<or> \<not> kf_Enabled row then select_keys L listing rows kd
      else case SignerFor L listing (kf_Fingerprint row) kd of
             (None, kd) \<Rightarrow> select_keys L listing rows kd
           | (Some s, kd) \<Rightarrow> (case select_keys L listing rows kd of (ks, kd) \<Rightarrow> ((s, kf_Label row) # ks, kd)))"

definition fileKeysFor ::
  "factory_cfg \<Rightarrow> key_lib \<Rightarrow> dir_entry list option \<Rightarrow> bool \<Rightarrow> bool \<Rightarrow> string \<Rightarrow> id_db \<Rightarrow> key_table \<Rightarrow> key_dir \<Rightarrow>
   (ssh_signer \<times> string) list \<times> key_dir"
where
  "fileKeysFor pf L listing flt flt2 acct ids t kd =
     (if \<not> pf_fileKeys pf \<or> \<not> IsAdmin flt acct ids then ([], kd)
      else case ListFull flt2 t of Inl _ \<Rightarrow> ([], kd) | Inr rows \<Rightarrow> select_keys L listing rows kd)"

definition ep_address :: "endpoint_ref \<Rightarrow> string" where
  "ep_address e = er_Username e @ ''@'' @ er_Host e @ '':'' @ Itoa (er_Port e)"

definition sessionRedirect :: "string \<Rightarrow> string" where
  "sessionRedirect sessionID = (if sessionID = [] then [] else ''/session/'' @ sessionID)"

definition auth_ctx :: "factory_req \<Rightarrow> sign_context" where
  "auth_ctx fp =
     (let e = fq_Endpoint fp; t = fq_Trigger fp in
      \<lparr>cx_Source = ''endpoint-auth'', cx_EndpointLabel = er_Label e, cx_EndpointAddress = ep_address e, cx_SessionID = [],
       cx_SourceIP = t_SourceIP t, cx_ClientHostname = [], cx_ClientOS = [], cx_ClientVersion = [], cx_HostKey = None,
       cx_TriggerKind = source_str (t_Kind t), cx_MCPReason = t_Reason t, cx_MCPClientName = t_MCPClientName t,
       cx_MCPClientVer = t_MCPClientVer t\<rparr>)"

definition buildSigners ::
  "factory_cfg \<Rightarrow> factory_req \<Rightarrow> string \<Rightarrow> (ssh_signer \<times> string) list \<Rightarrow> store_error + auth_credential list \<Rightarrow>
   store_error + conn_signer list"
where
  "buildSigners pf fp connID fileKeys creds =
     (case creds of
        Inl e \<Rightarrow> Inl e
      | Inr cs \<Rightarrow>
          (let e = fq_Endpoint fp; actionCtx = auth_ctx fp; redirectTo = sessionRedirect (fq_SessionID fp) in
           Inr (map (\<lambda>(s, label). CsFile
                  \<lparr>fl_signer = s, fl_accountID = er_AccountID e, fl_label = label, fl_connectionID = connID, fl_actionCtx = actionCtx,
                   fl_redirectTo = redirectTo, fl_endpointID = er_ID e\<rparr>) fileKeys
                @ List.map_filter (\<lambda>c. map_option (\<lambda>pub. CsWeb pub
                  \<lparr>wb_AccountID = er_AccountID e, wb_CredentialID = au_CredentialID c, wb_RpID = pf_RpID pf,
                   wb_UVPolicy = er_UserVerification e, wb_PasskeyLabel = au_Label c, wb_ConnectionID = connID,
                   wb_ActionCtx = actionCtx, wb_RedirectTo = redirectTo, wb_EndpointID = er_ID e\<rparr>)
                  (parseWebauthnPublicKey (au_PublicKeyOpenSSH c))) cs)))"

definition buildForwardingAgent ::
  "factory_cfg \<Rightarrow> factory_req \<Rightarrow> string \<Rightarrow> (ssh_signer \<times> string) list \<Rightarrow> store_error + auth_credential list \<Rightarrow> sign_agent option"
where
  "buildForwardingAgent pf fp connID fileKeys creds =
     (let e = fq_Endpoint fp;
          identities = map (\<lambda>(s, label). \<lparr>id_Signer = Some s, id_PublicKey = None, id_IsPasskey = False, id_CredentialID = [],
                              id_Label = label, id_RpID = []\<rparr>) fileKeys
            @ (case creds of Inl _ \<Rightarrow> []
               | Inr cs \<Rightarrow> List.map_filter (\<lambda>c. PasskeyIdentity (au_PublicKeyOpenSSH c) (au_CredentialID c) (au_Label c) (pf_RpID pf)) cs) in
      if identities = [] then None
      else Some \<lparr>ag_identities = identities, ag_accountID = er_AccountID e, ag_connectionID = connID,
             ag_actionCtx = \<lparr>cx_Source = ''agent-forwarding'', cx_EndpointLabel = er_Label e, cx_EndpointAddress = ep_address e,
               cx_SessionID = fq_SessionID fp, cx_SourceIP = [], cx_ClientHostname = [], cx_ClientOS = [], cx_ClientVersion = [],
               cx_HostKey = None, cx_TriggerKind = [], cx_MCPReason = [], cx_MCPClientName = [], cx_MCPClientVer = []\<rparr>,
             ag_redirectTo = sessionRedirect (fq_SessionID fp)\<rparr>)"

section \<open>The factories\<close>

record mismatch_event =
  me_AccountID :: string
  me_EndpointID :: string
  me_EndpointLabel :: string
  me_EndpointAddress :: string
  me_ObservedKeyType :: string
  me_ObservedFingerprint :: string
  me_PinnedFingerprint :: string
  me_Trigger :: trigger

datatype 'e factory_error =
    FeCredentials store_error
  | FeNoCredentials string
  | FeConnect "'e connect_error"
  | FeNotified string "'e connect_error"

datatype factory_effect = FxMismatch mismatch_event | FxEnded string string

text \<open>\<open>notifID\<close> is the answer of \<open>OnHostKeyMismatch\<close>, \<open>conn\<close> the dial with these signers and this agent.\<close>

definition connect_failed ::
  "factory_cfg \<Rightarrow> string \<Rightarrow> string \<Rightarrow> factory_req \<Rightarrow> 'e connect_error \<Rightarrow> 'e factory_error \<times> factory_effect list"
where
  "connect_failed pf notifID connID fp err =
     (let e = fq_Endpoint fp;
          (err', told) =
            (case err of
               HandshakeMismatch m \<Rightarrow>
                 if pf_onMismatch pf
                 then (if notifID \<noteq> [] then FeNotified notifID err else FeConnect err,
                       [FxMismatch \<lparr>me_AccountID = er_AccountID e, me_EndpointID = er_ID e, me_EndpointLabel = er_Label e,
                          me_EndpointAddress = ep_address e, me_ObservedKeyType = mm_ObservedKeyType m,
                          me_ObservedFingerprint = mm_ObservedFingerprint m, me_PinnedFingerprint = mm_PinnedFingerprint m,
                          me_Trigger = fq_Trigger fp\<rparr>])
                 else (FeConnect err, [])
             | _ \<Rightarrow> (FeConnect err, []))
      in (err', told @ (if pf_onEnded pf then [FxEnded connID ''SSH connection closed''] else [])))"

definition passkey_factory ::
  "factory_cfg \<Rightarrow> string \<Rightarrow> string \<Rightarrow> factory_req \<Rightarrow> (ssh_signer \<times> string) list \<Rightarrow> store_error + auth_credential list \<Rightarrow>
   store_error + auth_credential list \<Rightarrow> (conn_signer list \<Rightarrow> sign_agent option \<Rightarrow> 'e connect_error + unit) \<Rightarrow>
   ('e factory_error + unit) \<times> factory_effect list"
where
  "passkey_factory pf notifID connID fp fileKeys creds creds2 conn =
     (case buildSigners pf fp connID fileKeys creds of
        Inl e \<Rightarrow> (Inl (FeCredentials e), [])
      | Inr signers \<Rightarrow>
          if signers = [] then (Inl (FeNoCredentials (er_ID (fq_Endpoint fp))), [])
          else case conn signers (if er_AgentForward (fq_Endpoint fp) then buildForwardingAgent pf fp connID fileKeys creds2 else None) of
                 Inl err \<Rightarrow> (case connect_failed pf notifID connID fp err of (e, fx) \<Rightarrow> (Inl e, fx))
               | Inr u \<Rightarrow> (Inr u, []))"

text \<open>The watcher of an established transport: the events pass unchanged, and their end is announced once.\<close>

definition watchTransportEnd :: "factory_cfg \<Rightarrow> string \<Rightarrow> 'ev list \<Rightarrow> bool \<Rightarrow> 'ev list \<times> factory_effect list" where
  "watchTransportEnd pf connID evs ended =
     (evs, if pf_onEnded pf \<and> ended then [FxEnded connID ''SSH connection closed''] else [])"

definition file_key_factory ::
  "key_lib \<Rightarrow> dir_entry list option \<Rightarrow> string \<Rightarrow> (ssh_signer list \<Rightarrow> 'e connect_error + unit) \<Rightarrow> key_dir \<Rightarrow>
   ('e factory_error + unit) \<times> key_dir"
where
  "file_key_factory L listing epID conn kd =
     (case kd_Signers L listing kd of
        (signers, kd) \<Rightarrow>
          (if signers = [] then Inl (FeNoCredentials epID)
           else case conn signers of Inl e \<Rightarrow> Inl (FeConnect e) | Inr u \<Rightarrow> Inr u, kd))"

section \<open>The key listing\<close>

definition keys_list :: "bool \<Rightarrow> bool \<Rightarrow> (string \<Rightarrow> bool) option \<Rightarrow> string \<Rightarrow> id_db \<Rightarrow> key_table \<Rightarrow> http_resp" where
  "keys_list flt flt2 avail acct ids t =
     (if \<not> IsAdmin flt acct ids then (200, JObj [(''keys'', JArr [])])
      else case ListFull flt2 t of
             Inl _ \<Rightarrow> apierr_Write 500 ''internal error''
           | Inr keys \<Rightarrow>
               (200, JObj [(''keys'', JArr (map (\<lambda>key.
                  JObj [(''id'', JStr (kf_ID key)), (''label'', JStr (kf_Label key)), (''type'', JStr (kf_Type key)),
                        (''algorithm'', JStr (case string_fields (kf_PublicKey key) of f # _ \<Rightarrow> f | [] \<Rightarrow> ''unknown'')),
                        (''fingerprint'', JStr (kf_Fingerprint key)), (''revoked'', JBool (\<not> kf_Enabled key)),
                        (''available'', JBool (kf_Enabled key \<and> (case avail of None \<Rightarrow> True | Some f \<Rightarrow> f (kf_Fingerprint key)))),
                        (''authorizedKeysEntry'', if kf_PublicKey key \<noteq> [] then JStr (kf_PublicKey key) else JNull),
                        (''createdAt'', JStr (kf_CreatedAt key)),
                        (''lastUsedAt'', case kf_LastUsedAt key of None \<Rightarrow> JNull | Some x \<Rightarrow> JStr x)])
                  (filter (\<lambda>key. kf_Type key = ''file'') keys)))]))"

section \<open>Only authorized keys, and only with approval\<close>

lemma select_keys_sound:
  assumes "dir_ok L listing kd" "select_keys L listing rows kd = (ks, kd')" "(s, label) \<in> set ks"
  shows "\<exists>row\<in>set rows. kf_Type row = ''file'' \<and> kf_Enabled row \<and> kf_Label row = label \<and> on_disk L listing (kf_Fingerprint row) s"
  using assms
proof (induction rows arbitrary: kd ks kd')
  case (Cons row rows)
  show ?case
  proof (cases "kf_Type row \<noteq> ''file'' \<or> \<not> kf_Enabled row")
    case True
    with Cons show ?thesis by auto
  next
    case False
    obtain x kd1 where sf: "SignerFor L listing (kf_Fingerprint row) kd = (x, kd1)" by (cases "SignerFor L listing (kf_Fingerprint row) kd")
    then have ok: "dir_ok L listing kd1" using dir_ok_ops(3) [OF Cons.prems(1), of "kf_Fingerprint row"] by simp
    obtain ks1 kd2 where rest: "select_keys L listing rows kd1 = (ks1, kd2)" by (cases "select_keys L listing rows kd1")
    show ?thesis
    proof (cases x)
      case None
      with False sf rest Cons.prems(2,3) have "(s, label) \<in> set ks1" by simp
      from Cons.IH [OF ok rest this] show ?thesis by auto
    next
      case (Some s')
      then have "on_disk L listing (kf_Fingerprint row) s'" using SignerFor_on_disk [OF Cons.prems(1), of "kf_Fingerprint row"] sf by simp
      moreover have "ks = (s', kf_Label row) # ks1" using False sf rest Some Cons.prems(2) by simp
      ultimately show ?thesis using Cons.IH [OF ok rest] Cons.prems(3) False by auto
    qed
  qed
qed simp

lemma fileKeysFor_sound:
  assumes "dir_ok L listing kd" "fileKeysFor pf L listing flt flt2 acct ids t kd = (ks, kd')" "(s, label) \<in> set ks"
  shows "IsAdmin flt acct ids \<and> (\<exists>(i, r)\<in>set t. kr_type r = ''file'' \<and> kr_enabled r \<noteq> 0 \<and> kr_label r = label \<and> on_disk L listing (kr_fingerprint r) s)"
proof -
  obtain rows where adm: "IsAdmin flt acct ids" and rows: "ListFull flt2 t = Inr rows" "select_keys L listing rows kd = (ks, kd')"
    using assms(2,3) by (auto simp: fileKeysFor_def split: if_splits sum.splits)
  from select_keys_sound [OF assms(1) rows(2) assms(3)] obtain row where
    row: "row \<in> set rows" "kf_Type row = ''file''" "kf_Enabled row" "kf_Label row = label" "on_disk L listing (kf_Fingerprint row) s" by blast
  with rows(1) obtain i r where "(i, r) \<in> set t" "kf_Type row = kr_type r" "kf_Enabled row = (kr_enabled r \<noteq> 0)" "kf_Label row = kr_label r"
    "kf_Fingerprint row = kr_fingerprint r" by (auto simp: ListFull_def ListSSHKeysFull_def split: if_splits)
  with row adm show ?thesis by force
qed

lemma signature_needs_approval:
  "fst (web_Sign ev hk w data sts) = Inr sg \<Longrightarrow>
     \<exists>ctx resp. ev_requestSign ev (wb_AccountID w) (web_request w data) ctx (wb_RedirectTo w) = Inr resp"
  "fst (file_Sign ev hk f data alg sts) = Inr sg \<Longrightarrow> \<exists>ctx. snd (ev_requestKey ev (file_approval ev f ctx)) = None"
  by (auto simp: web_Sign_def Let_def split: prod.splits sum.splits option.splits,
      auto simp: file_Sign_def file_approve_def Let_def split: prod.splits sum.splits option.splits) (metis snd_conv)+

text \<open>What a connection may offer for an account, with the approval every signature of it needs.\<close>

fun entitled ::
  "key_lib \<Rightarrow> dir_entry list option \<Rightarrow> bool \<Rightarrow> string \<Rightarrow> id_db \<Rightarrow> key_table \<Rightarrow> conn_signer \<Rightarrow> bool"
where
  "entitled L listing flt acct ids t (CsFile f) \<longleftrightarrow> IsAdmin flt acct ids \<and> fl_accountID f = acct
     \<and> (\<exists>(i, r)\<in>set t. kr_type r = ''file'' \<and> kr_enabled r \<noteq> 0 \<and> kr_label r = fl_label f \<and> on_disk L listing (kr_fingerprint r) (fl_signer f))"
| "entitled L listing flt acct ids t (CsWeb pub w) \<longleftrightarrow> wb_AccountID w = acct
     \<and> (\<exists>(k, r)\<in>set (ListActiveCredentialsForAuth acct ids). wc_credential_id r = wb_CredentialID w)"

lemma mem_map_filter: "x \<in> set (List.map_filter f xs) \<longleftrightarrow> (\<exists>y\<in>set xs. f y = Some x)"
  by (induction xs) (auto simp: List.map_filter_simps split: option.splits)

lemma buildSigners_mem:
  assumes "buildSigners pf fp connID fks (Inr cs) = Inr signers"
  shows "CsFile f \<in> set signers \<Longrightarrow>
      (fl_signer f, fl_label f) \<in> set fks \<and> fl_accountID f = er_AccountID (fq_Endpoint fp) \<and> fl_connectionID f = connID"
    and "CsWeb pub w \<in> set signers \<Longrightarrow>
      wb_AccountID w = er_AccountID (fq_Endpoint fp) \<and> wb_ConnectionID w = connID \<and> (\<exists>c\<in>set cs. wb_CredentialID w = au_CredentialID c)"
  using assms by (auto simp: buildSigners_def Let_def mem_map_filter) (rule bexI, rule refl)


definition ex_key_lib :: key_lib where
  "ex_key_lib = \<lparr>kl_fpr = (\<lambda>_. ''SHA256:k''), kl_line = (\<lambda>_. ''ssh-rsa AA'')\<rparr>"

definition ex_listing :: "dir_entry list" where
  "ex_listing = [\<lparr>de_Name = ''id.pem'', de_IsDir = False, de_Key = Some \<lparr>sn_pub = \<lparr>pk_type = KeyAlgoRSA, pk_blob = [7]\<rparr>, sn_algorithms = True\<rparr>\<rparr>,
     \<lparr>de_Name = ''notes.txt'', de_IsDir = False, de_Key = None\<rparr>]"

definition ex_key_table :: key_table where
  "ex_key_table = [(''id'', \<lparr>kr_label = ''id.pem'', kr_type = ''file'', kr_public_key = ''ssh-rsa AA'', kr_fingerprint = ''SHA256:k'', kr_enabled = 1,
     kr_last_used_at = None, kr_created_at = ''t'', kr_updated_at = ''t''\<rparr>)]"

definition ex_admin_ids :: id_db where
  "ex_admin_ids = \<lparr>id_accounts = [], id_admin = Some ''acc1'', id_creds = []\<rparr>"

definition ex_factory_req :: factory_req where
  "ex_factory_req = \<lparr>fq_Endpoint = ex_ep, fq_SessionID = ''s'', fq_Trigger = ex_trigger\<rparr>"


end
