(* ===== verification/Push.thy ===== *)
theory Push
  imports Approval_Broker Cimd
begin

text \<open>
  \<open>src/internal/push\<close>, \<open>src/internal/store/push.go\<close> and \<open>src/internal/rest/push.go\<close>: web-push subscriptions, the
  list of services they may name, and delivery.

  The URL parser and the push services are arguments, as are driver faults. A table is keyed by its
  primary key and has a unique index on the endpoint.
\<close>

section \<open>The services\<close>

text \<open>
  \<open>strings.ToLower\<close>: besides the ASCII letters two characters outside ASCII become ASCII letters, the
  dotted capital I and the Kelvin sign. The others stay outside ASCII, whatever they become.
\<close>

fun to_lower :: "string \<Rightarrow> string" where
  "to_lower [] = []"
| "to_lower (c # s) =
     (if c = CHR 0xC4 \<and> s \<noteq> [] \<and> hd s = CHR 0xB0 then CHR ''i'' # to_lower (tl s)
      else if c = CHR 0xE2 \<and> length s \<ge> 2 \<and> hd s = CHR 0x84 \<and> s ! 1 = CHR 0xAA then CHR ''k'' # to_lower (drop 2 s)
      else (let n = of_char c :: nat in if 65 \<le> n \<and> n \<le> 90 then char_of (n + 32) else c) # to_lower s)"

definition exactHosts :: "string list" where
  "exactHosts = [''android.googleapis.com'', ''fcm.googleapis.com'', ''updates.push.services.mozilla.com'',
     ''updates-autopush.stage.mozaws.net'', ''updates-autopush.dev.mozaws.net'']"

definition suffixHosts :: "string list" where
  "suffixHosts = [''.push.apple.com'', ''.notify.windows.com'']"

definition listed_host :: "string \<Rightarrow> bool" where
  "listed_host host \<longleftrightarrow> host \<in> set exactHosts \<or> list_ex (has_suffix host) suffixHosts"

definition IsAllowedEndpoint :: "url_parser \<Rightarrow> string \<Rightarrow> bool" where
  "IsAllowedEndpoint parse endpoint =
     (case parse endpoint of
        None \<Rightarrow> False
      | Some u \<Rightarrow>
          if u_Scheme u \<noteq> ''https'' then False
          else if u_User u then False
          else listed_host (to_lower (u_Hostname u)))"

section \<open>Subscriptions\<close>

record push_row =
  pu_account_id :: string
  pu_endpoint :: string
  pu_p256dh :: string
  pu_auth :: string
  pu_created_at :: string
  pu_updated_at :: string

type_synonym push_table = "(string, push_row) gomap"

definition FindPushByEndpoint :: "string \<Rightarrow> push_table \<Rightarrow> (string \<times> string) option" where
  "FindPushByEndpoint ep t = map_option (\<lambda>(k, r). (k, pu_account_id r)) (find (\<lambda>(k, r). pu_endpoint r = ep) t)"

definition InsertPushSub :: "string \<Rightarrow> push_row \<Rightarrow> push_table \<Rightarrow> bool \<times> push_table" where
  "InsertPushSub i r t =
     (if map_of t i \<noteq> None \<or> FindPushByEndpoint (pu_endpoint r) t \<noteq> None then (False, t) else (True, t @ [(i, r)]))"

definition RotatePushSub :: "string \<Rightarrow> string \<Rightarrow> string \<Rightarrow> string \<Rightarrow> string \<Rightarrow> push_table \<Rightarrow> push_table" where
  "RotatePushSub p256dh auth now ep acct t =
     map (\<lambda>(k, r). (k, if pu_endpoint r = ep \<and> pu_account_id r = acct
                       then r\<lparr>pu_p256dh := p256dh, pu_auth := auth, pu_updated_at := now\<rparr> else r)) t"

definition DeletePushByEndpoint :: "string \<Rightarrow> string \<Rightarrow> push_table \<Rightarrow> push_table" where
  "DeletePushByEndpoint acct ep t = filter (\<lambda>(k, r). \<not> (pu_account_id r = acct \<and> pu_endpoint r = ep)) t"

datatype upsert_result = UpsertError | UpsertConflict | UpsertID string

text \<open>\<open>between\<close>: what other requests do to the table between the two statements. An unknown account fails the insert.\<close>

definition push_Upsert ::
  "bool \<Rightarrow> bool \<Rightarrow> (push_table \<Rightarrow> push_table) \<Rightarrow> string \<Rightarrow> string \<Rightarrow> string \<Rightarrow> string \<Rightarrow> string \<Rightarrow> string \<Rightarrow> push_table \<Rightarrow>
   upsert_result \<times> push_table"
where
  "push_Upsert flt flt2 between now acct ep p256dh auth newID t =
     (if flt then (UpsertError, t)
      else case FindPushByEndpoint ep t of
             None \<Rightarrow>
               if flt2 then (UpsertError, between t)
               else (case InsertPushSub newID \<lparr>pu_account_id = acct, pu_endpoint = ep, pu_p256dh = p256dh, pu_auth = auth,
                             pu_created_at = now, pu_updated_at = now\<rparr> (between t) of
                       (True, t) \<Rightarrow> (UpsertID newID, t) | (False, t) \<Rightarrow> (UpsertError, t))
           | Some (i, owner) \<Rightarrow>
               if owner \<noteq> acct then (UpsertConflict, t)
               else if flt2 then (UpsertError, between t)
               else (UpsertID i, RotatePushSub p256dh auth now ep acct (between t)))"

definition push_Delete :: "bool \<Rightarrow> string \<Rightarrow> string \<Rightarrow> push_table \<Rightarrow> bool \<times> push_table" where
  "push_Delete flt acct ep t = (if flt then (False, t) else (True, DeletePushByEndpoint acct ep t))"

definition push_ListForAccount :: "bool \<Rightarrow> string \<Rightarrow> push_table \<Rightarrow> (string \<times> string \<times> string) list option" where
  "push_ListForAccount flt acct t =
     (if flt then None
      else Some (map (\<lambda>(k, r). (pu_endpoint r, pu_p256dh r, pu_auth r)) (filter (\<lambda>(k, r). pu_account_id r = acct) t)))"

section \<open>Delivery\<close>

definition toPath :: "url_parser \<Rightarrow> string \<Rightarrow> string" where
  "toPath parse deepLink = (case parse deepLink of Some u \<Rightarrow> if u_Path u \<noteq> [] then u_Path u else deepLink | None \<Rightarrow> deepLink)"

definition push_payload :: "string \<Rightarrow> string \<Rightarrow> string \<Rightarrow> string \<Rightarrow> string \<Rightarrow> json" where
  "push_payload title body actionID deepLink actionType =
     JObj [(''title'', JStr title), (''body'', JStr body), (''actionId'', JStr actionID), (''deepLink'', JStr deepLink),
           (''actionType'', JStr actionType)]"

definition deliver_payload :: "url_parser \<Rightarrow> action \<Rightarrow> string \<Rightarrow> json" where
  "deliver_payload parse a deepLink =
     (let passkey = a_Type a = TypeWebAuthnSign;
          title = (if passkey then ''Passkey Signature Requested'' else ''SSH Key Approval Requested'');
          label = (if a_PasskeyLabel a = [] then ''passkey'' else a_PasskeyLabel a);
          body = (if passkey then ''Sign with \"'' @ label @ ''\" for '' @ cx_Source (a_Context a)
                  else ''Approve \"'' @ a_KeyLabel a @ ''\" for '' @ cx_Source (a_Context a));
          body = (case cx_HostKey (a_Context a) of
                    Some hk \<Rightarrow> if hk_Status hk = ''new''
                      then body @ '' '' @ [CHR 0xE2, CHR 0x80, CHR 0x94] @ '' FIRST connection to this host: approving pins host key '' @ hk_Fingerprint hk
                      else body
                  | None \<Rightarrow> body)
      in push_payload title body (a_ID a) (toPath parse deepLink) (type_str (a_Type a)))"

record host_mismatch =
  hm_AccountID :: string
  hm_EndpointLabel :: string
  hm_EndpointAddress :: string
  hm_ObservedFingerprint :: string
  hm_PinnedFingerprint :: string

definition mismatch_payload :: "host_mismatch \<Rightarrow> json" where
  "mismatch_payload m =
     push_payload ''SSH host key MISMATCH blocked''
       (''\"'' @ hm_EndpointLabel m @ ''\" ('' @ hm_EndpointAddress m @ '') presented '' @ hm_ObservedFingerprint m @ '' but ''
        @ hm_PinnedFingerprint m @ '' is pinned. The connection was refused. Review it in Settings -> Endpoints.'')
       [] ''/settings/endpoints'' ''host-key-mismatch''"

text \<open>
  \<open>status\<close> is the answer of a push service to a request, \<open>None\<close> a failed request. The result lists the
  requests made: the endpoint and the message.
\<close>

fun send_all ::
  "(string \<Rightarrow> int option) \<Rightarrow> (string \<Rightarrow> bool) \<Rightarrow> string \<Rightarrow> json \<Rightarrow> (string \<times> string \<times> string) list \<Rightarrow> push_table \<Rightarrow>
   (string \<times> json) list \<times> push_table"
where
  "send_all status flt acct raw [] t = ([], t)"
| "send_all status flt acct raw ((ep, ks) # subs) t =
     (let t = (case status ep of
                 Some c \<Rightarrow> if c = 404 \<or> c = 410 then snd (push_Delete (flt ep) acct ep t) else t
               | None \<Rightarrow> t)
      in case send_all status flt acct raw subs t of (sent, t) \<Rightarrow> ((ep, raw) # sent, t))"

definition sendToAccount ::
  "(string \<Rightarrow> int option) \<Rightarrow> bool \<Rightarrow> (string \<Rightarrow> bool) \<Rightarrow> string \<Rightarrow> json \<Rightarrow> push_table \<Rightarrow> (string \<times> json) list \<times> push_table"
where
  "sendToAccount status flt flt2 acct raw t =
     (case push_ListForAccount flt acct t of None \<Rightarrow> ([], t) | Some subs \<Rightarrow> send_all status flt2 acct raw subs t)"

definition push_deliver ::
  "url_parser \<Rightarrow> (string \<Rightarrow> int option) \<Rightarrow> bool \<Rightarrow> (string \<Rightarrow> bool) \<Rightarrow> action \<Rightarrow> string \<Rightarrow> push_table \<Rightarrow> (string \<times> json) list \<times> push_table"
where
  "push_deliver parse status flt flt2 a deepLink t =
     sendToAccount status flt flt2 (a_AccountID a) (deliver_payload parse a deepLink) t"

definition NotifyHostKeyMismatch ::
  "(string \<Rightarrow> int option) \<Rightarrow> bool \<Rightarrow> (string \<Rightarrow> bool) \<Rightarrow> host_mismatch \<Rightarrow> push_table \<Rightarrow> (string \<times> json) list \<times> push_table"
where
  "NotifyHostKeyMismatch status flt flt2 m t = sendToAccount status flt flt2 (hm_AccountID m) (mismatch_payload m) t"

section \<open>Handlers\<close>

record sub_body =
  by_Endpoint :: string
  by_P256dh :: string
  by_Auth :: string

definition push_subscribe ::
  "(string \<Rightarrow> bool) option \<Rightarrow> bool \<Rightarrow> bool \<Rightarrow> (push_table \<Rightarrow> push_table) \<Rightarrow> string \<Rightarrow> string \<Rightarrow> string \<Rightarrow> sub_body \<Rightarrow> push_table \<Rightarrow>
   http_resp \<times> push_table"
where
  "push_subscribe permitted flt flt2 between now newID acct b t =
     (if by_Endpoint b = [] \<or> by_P256dh b = [] \<or> by_Auth b = []
      then (apierr_Write 400 ''Invalid subscription: endpoint, keys.p256dh, and keys.auth are required'', t)
      else if (case permitted of None \<Rightarrow> False | Some f \<Rightarrow> \<not> f (by_Endpoint b))
      then (apierr_Write 400 ''endpoint is not a recognized push service'', t)
      else case push_Upsert flt flt2 between now acct (by_Endpoint b) (by_P256dh b) (by_Auth b) newID t of
             (UpsertError, t) \<Rightarrow> (apierr_Write 500 ''internal error'', t)
           | (UpsertConflict, t) \<Rightarrow> (apierr_Write 409 ''endpoint already registered to a different account'', t)
           | (UpsertID i, t) \<Rightarrow> ((200, JObj [(''id'', JStr i)]), t))"

definition push_unsubscribe :: "bool \<Rightarrow> string \<Rightarrow> string \<Rightarrow> push_table \<Rightarrow> http_resp \<times> push_table" where
  "push_unsubscribe flt acct ep t =
     (if ep = [] then (apierr_Write 400 ''endpoint is required'', t)
      else case push_Delete flt acct ep t of
             (False, t) \<Rightarrow> (apierr_Write 500 ''internal error'', t)
           | (True, t) \<Rightarrow> ((200, JObj [(''ok'', JBool True)]), t))"

section \<open>Requests go to push services only\<close>

text \<open>
  The statements that change the table, as the handlers and the delivery issue them. An insert follows
  the check of the endpoint; between a look-up and the statement after it anything may happen.
\<close>

inductive push_step :: "url_parser \<Rightarrow> push_table \<Rightarrow> push_table \<Rightarrow> bool" for parse where
  insert: "IsAllowedEndpoint parse (pu_endpoint r) \<Longrightarrow> push_step parse t (snd (InsertPushSub i r t))"
| rotate: "push_step parse t (RotatePushSub p a now ep acct t)"
| delete: "push_step parse t (DeletePushByEndpoint acct ep t)"

abbreviation push_steps :: "url_parser \<Rightarrow> push_table \<Rightarrow> push_table \<Rightarrow> bool" where
  "push_steps parse \<equiv> (push_step parse)\<^sup>*\<^sup>*"

lemma push_subscribe_steps:
  assumes "\<And>t. push_steps parse t (between t)"
  shows "push_steps parse t (snd (push_subscribe (Some (IsAllowedEndpoint parse)) flt flt2 between now newID acct b t))"
proof (cases "IsAllowedEndpoint parse (by_Endpoint b)")
  case True
  let ?r = "\<lparr>pu_account_id = acct, pu_endpoint = by_Endpoint b, pu_p256dh = by_P256dh b, pu_auth = by_Auth b, pu_created_at = now, pu_updated_at = now\<rparr>"
  have ins: "push_steps parse t (snd (InsertPushSub newID ?r (between t)))"
    using assms [of t] push_step.insert [of parse ?r "between t" newID] True by (simp add: rtranclp.rtrancl_into_rtrancl)
  have rot: "push_steps parse t (RotatePushSub p a n ep acc (between t))" for p a n ep acc
    using assms [of t] push_step.rotate by (rule rtranclp.rtrancl_into_rtrancl)
  show ?thesis
    using True assms [of t] ins rot
    by (auto simp: push_subscribe_def push_Upsert_def split: option.splits prod.splits bool.splits if_splits)
qed (simp add: push_subscribe_def)

lemma push_unsubscribe_steps: "push_steps parse t (snd (push_unsubscribe flt acct ep t))"
  using push_step.delete [of parse t acct ep] by (auto simp: push_unsubscribe_def push_Delete_def)

lemma send_all_facts:
  "send_all status flt acct raw subs t = (sent, t') \<Longrightarrow> sent = map (\<lambda>(ep, ks). (ep, raw)) subs \<and> push_steps parse t t'"
proof (induction subs arbitrary: t sent)
  case (Cons sub subs)
  obtain ep ks where sub: "sub = (ep, ks)" by (cases sub)
  define t1 where "t1 = (case status ep of Some c \<Rightarrow> if c = 404 \<or> c = 410 then snd (push_Delete (flt ep) acct ep t) else t | None \<Rightarrow> t)"
  have "push_steps parse t t1"
    using push_step.delete [of parse t acct ep] by (auto simp: t1_def push_Delete_def split: option.splits)
  moreover obtain sent1 where rest: "send_all status flt acct raw subs t1 = (sent1, t')" "sent = (ep, raw) # sent1"
    using Cons.prems by (auto simp: sub t1_def [symmetric] Let_def split: prod.splits)
  ultimately show ?case using Cons.IH [OF rest(1)] by (auto simp: sub rest(2) intro: rtranclp_trans)
qed simp

lemma sendToAccount_facts:
  assumes "sendToAccount status flt flt2 acct raw t = (sent, t')"
  shows "push_steps parse t t' \<and> (\<forall>(ep, msg)\<in>set sent. msg = raw \<and> (\<exists>(k, r)\<in>set t. pu_account_id r = acct \<and> pu_endpoint r = ep))"
proof (cases "push_ListForAccount flt acct t")
  case None
  with assms show ?thesis by (auto simp: sendToAccount_def)
next
  case (Some subs)
  with assms have "send_all status flt2 acct raw subs t = (sent, t')" by (simp add: sendToAccount_def)
  from send_all_facts [OF this, of parse] Some show ?thesis
    by (auto simp: push_ListForAccount_def split: if_splits) force
qed

definition services_only :: "url_parser \<Rightarrow> push_table \<Rightarrow> bool" where
  "services_only parse t \<longleftrightarrow> gm_wf t \<and> distinct (map (pu_endpoint \<circ> snd) t) \<and> (\<forall>(k, r)\<in>set t. IsAllowedEndpoint parse (pu_endpoint r))"

lemma rotate_columns:
  "map fst (RotatePushSub p a now ep acct t) = map fst t" "map (pu_endpoint \<circ> snd) (RotatePushSub p a now ep acct t) = map (pu_endpoint \<circ> snd) t"
  by (auto simp: RotatePushSub_def)

lemma find_endpoint_None: "FindPushByEndpoint ep t = None \<longleftrightarrow> ep \<notin> set (map (pu_endpoint \<circ> snd) t)"
  by (force simp: FindPushByEndpoint_def find_None_iff)

lemma services_only_step:
  assumes "push_step parse t t'" "services_only parse t" shows "services_only parse t'"
  using assms
proof cases
  case (insert r i)
  have "map_of t i = None \<Longrightarrow> i \<notin> set (map fst t)" by (simp add: map_of_eq_None_iff)
  with insert assms(2) find_endpoint_None [of "pu_endpoint r" t] show ?thesis
    by (auto simp: InsertPushSub_def services_only_def)
next
  case (rotate p a now ep acct)
  have "IsAllowedEndpoint parse (pu_endpoint r)" if "(k, r) \<in> set t'" for k r
    using that assms(2) unfolding rotate services_only_def RotatePushSub_def by (auto split: if_splits)
  with assms(2) rotate_columns show ?thesis unfolding rotate services_only_def by (metis (no_types, lifting) case_prodI2)
next
  case (delete acct ep)
  with assms(2) show ?thesis by (auto simp: services_only_def DeletePushByEndpoint_def distinct_map_filter)
qed

lemma services_only_reachable: "push_steps parse [] t \<Longrightarrow> services_only parse t"
proof (induction rule: rtranclp_induct)
  case base
  show ?case by (simp add: services_only_def)
next
  case (step t t')
  then show ?case by (blast intro: services_only_step)
qed


text \<open>
  The check lower-cases the host by the rules of Unicode, while names are resolved by those of
  internationalised domain names: an address whose host has a dotted capital I in place of an i passes,
  and names another host than the listed one.
\<close>

theorem lookalike_host_accepted:
  assumes "parse ep = Some u" "u_Scheme u = ''https''" "\<not> u_User u"
    "u_Hostname u = ''fcm.googleap'' @ [CHR 0xC4, CHR 0xB0] @ ''s.com''"
  shows "IsAllowedEndpoint parse ep \<and> u_Hostname u \<notin> set exactHosts"
  using assms by (simp add: IsAllowedEndpoint_def listed_host_def exactHosts_def)

definition ex_push_url :: url where
  "ex_push_url = \<lparr>u_Scheme = ''https'', u_User = False, u_Host = ''web.push.apple.com'', u_Hostname = ''web.push.apple.com'', u_Opaque = [],
     u_Path = ''/x'', u_EscapedPath = ''/x'', u_RawQuery = [], u_ForceQuery = False, u_Fragment = [], u_RawFragment = [],
     u_String = ''https://web.push.apple.com/x''\<rparr>"

definition ex_push_body :: sub_body where
  "ex_push_body = \<lparr>by_Endpoint = ''https://web.push.apple.com/x'', by_P256dh = ''p'', by_Auth = ''a''\<rparr>"


end
