(* ===== verification/Last_Used.thy ===== *)
theory Last_Used
  imports Prelude
begin

text \<open>
  \<open>src/internal/store/lastused.go\<close>: write-behind tracking of the last use of an account.

  Code under \<open>mu\<close> is one step; the write sections of \<open>Flush\<close> and \<open>CloseAndFlush\<close> run under \<open>writeMu\<close>, so at
  most one of them is under way: \<open>lu_writing\<close> holds the rest of its batch. Each row is written by a step
  of its own, in any order, between which anything else may happen. \<open>lu_db\<close> is the column
  \<open>last_used_at\<close> of the existing accounts.
\<close>

record flusher =
  lu_dirty :: "(string, string) gomap"
  lu_closed :: bool
  lu_writing :: "(string, string) gomap option"
  lu_db :: "(string, string option) gomap"

definition NewLastUsedFlusher :: "(string, string option) gomap \<Rightarrow> flusher" where
  "NewLastUsedFlusher db = \<lparr>lu_dirty = [], lu_closed = False, lu_writing = None, lu_db = db\<rparr>"

definition lu_Touch :: "string \<Rightarrow> string \<Rightarrow> flusher \<Rightarrow> flusher" where
  "lu_Touch acct now f = (if lu_closed f then f else f\<lparr>lu_dirty := AList.update acct now (lu_dirty f)\<rparr>)"

text \<open>The sections of \<open>Flush\<close> and \<open>CloseAndFlush\<close> up to their writes, once \<open>writeMu\<close> is held.\<close>

definition Flush_begin :: "flusher \<Rightarrow> flusher" where
  "Flush_begin f = (if lu_closed f then f else f\<lparr>lu_writing := Some (lu_dirty f), lu_dirty := []\<rparr>)"

definition CloseAndFlush_begin :: "flusher \<Rightarrow> flusher" where
  "CloseAndFlush_begin f = f\<lparr>lu_writing := Some (lu_dirty f), lu_dirty := [], lu_closed := True\<rparr>"

text \<open>One row of the batch; \<open>flt\<close> is a failed statement, which is only logged. An update of a missing row does nothing.\<close>

definition write_row :: "bool \<Rightarrow> string \<Rightarrow> string \<Rightarrow> (string, string) gomap \<Rightarrow> flusher \<Rightarrow> flusher" where
  "write_row flt acct ts rest f =
     f\<lparr>lu_writing := Some rest,
       lu_db := (if \<not> flt \<and> map_of (lu_db f) acct \<noteq> None then AList.update acct (Some ts) (lu_db f) else lu_db f)\<rparr>"

definition write_done :: "flusher \<Rightarrow> flusher" where
  "write_done f = f\<lparr>lu_writing := None\<rparr>"

datatype lu_label = LTouch string string | LFlush | LClose | LWrite bool string | LDone

inductive lu_step :: "flusher \<Rightarrow> lu_label \<Rightarrow> flusher \<Rightarrow> bool" where
  touch: "lu_step f (LTouch acct now) (lu_Touch acct now f)"
| flush: "lu_writing f = None \<Longrightarrow> lu_step f LFlush (Flush_begin f)"
| close: "lu_writing f = None \<Longrightarrow> lu_step f LClose (CloseAndFlush_begin f)"
| row: "lu_writing f = Some (xs @ (acct, ts) # ys) \<Longrightarrow> lu_step f (LWrite flt acct) (write_row flt acct ts (xs @ ys) f)"
| finish: "lu_writing f = Some [] \<Longrightarrow> lu_step f LDone (write_done f)"

inductive_cases lu_stepE: "lu_step f l f'"

inductive lu_run :: "flusher \<Rightarrow> lu_label list \<Rightarrow> flusher \<Rightarrow> bool" where
  start: "lu_run f [] f"
| step: "lu_run f ls g \<Longrightarrow> lu_step g l h \<Longrightarrow> lu_run f (ls @ [l]) h"

section \<open>Nothing is lost, and the close is the last write\<close>

text \<open>The last use a run has recorded for an account: its last touch before the close.\<close>

fun last_touch :: "lu_label list \<Rightarrow> bool \<Rightarrow> string \<Rightarrow> string option \<Rightarrow> string option" where
  "last_touch [] closed acct x = x"
| "last_touch (LTouch a ts # ls) closed acct x = last_touch ls closed acct (if \<not> closed \<and> a = acct then Some ts else x)"
| "last_touch (LClose # ls) closed acct x = last_touch ls True acct x"
| "last_touch (_ # ls) closed acct x = last_touch ls closed acct x"

fun closes :: "lu_label list \<Rightarrow> bool" where
  "closes [] = False"
| "closes (LClose # ls) = True"
| "closes (_ # ls) = closes ls"

lemma last_touch_snoc:
  "last_touch (ls @ [l]) c acct x =
     (case l of LTouch a ts \<Rightarrow> if \<not> (c \<or> closes ls) \<and> a = acct then Some ts else last_touch ls c acct x | _ \<Rightarrow> last_touch ls c acct x)"
  by (induction ls c acct x rule: last_touch.induct) (auto split: lu_label.splits)

lemma closes_snoc: "closes (ls @ [l]) \<longleftrightarrow> closes ls \<or> l = LClose"
  by (induction ls rule: closes.induct) (auto, cases l, auto)

text \<open>Where the last use of an account is: waiting, in the batch being written, or in the database.\<close>

definition batch_of :: "flusher \<Rightarrow> (string, string) gomap" where
  "batch_of f = (case lu_writing f of None \<Rightarrow> [] | Some b \<Rightarrow> b)"

definition where_is :: "flusher \<Rightarrow> string \<Rightarrow> string option \<Rightarrow> bool" where
  "where_is f acct x \<longleftrightarrow> (case map_of (lu_dirty f) acct of Some t \<Rightarrow> x = Some t
     | None \<Rightarrow> (case map_of (batch_of f) acct of Some t \<Rightarrow> x = Some t
       | None \<Rightarrow> map_of (lu_db f) acct = None \<or> map_of (lu_db f) acct = Some x))"

definition lu_inv :: "flusher \<Rightarrow> bool" where
  "lu_inv f \<longleftrightarrow> gm_wf (lu_dirty f) \<and> gm_wf (batch_of f) \<and> (lu_closed f \<longrightarrow> lu_dirty f = [])"

lemma lu_inv_step: "lu_inv f \<Longrightarrow> lu_step f l f' \<Longrightarrow> lu_inv f'"
  by (erule lu_stepE) (auto simp: lu_inv_def lu_Touch_def Flush_begin_def CloseAndFlush_begin_def write_row_def write_done_def batch_of_def)

lemma closed_step: "lu_step f l f' \<Longrightarrow> lu_closed f' \<longleftrightarrow> lu_closed f \<or> l = LClose"
  by (erule lu_stepE) (auto simp: lu_Touch_def Flush_begin_def CloseAndFlush_begin_def write_row_def write_done_def)

lemma map_of_drop_row:
  assumes "gm_wf (xs @ (a, ts) # ys)"
  shows "map_of (xs @ (a, ts) # ys) = (map_of (xs @ ys))(a \<mapsto> ts)" "map_of (xs @ ys) a = None"
proof -
  have a: "map_of xs a = None" "map_of ys a = None" using assms by (auto simp: map_of_eq_None_iff)
  then show "map_of (xs @ (a, ts) # ys) = (map_of (xs @ ys))(a \<mapsto> ts)" by (auto simp: map_add_def fun_eq_iff split: option.splits)
  from a show "map_of (xs @ ys) a = None" by (simp add: map_add_def)
qed

lemma where_is_step:
  assumes "lu_inv f" "lu_step f l f'" "where_is f acct x" "\<And>a. l \<noteq> LWrite True a"
  shows "where_is f' acct (case l of LTouch a ts \<Rightarrow> if \<not> lu_closed f \<and> a = acct then Some ts else x | _ \<Rightarrow> x)"
  using assms(2)
proof cases
  case (row xs a ts ys flt)
  have wf: "gm_wf (xs @ (a, ts) # ys)" using assms(1) row(3) by (simp add: lu_inv_def batch_of_def)
  have "batch_of f = xs @ (a, ts) # ys" "batch_of f' = xs @ ys" "lu_dirty f' = lu_dirty f" "\<not> flt"
    using row assms(4) by (auto simp: batch_of_def write_row_def)
  with map_of_drop_row [OF wf] row(1,2) assms(3) show ?thesis
    unfolding where_is_def by (auto simp: write_row_def gomap_simps simp del: map_of_append split: option.splits if_splits)
qed (use assms(1,3) in \<open>auto simp: where_is_def lu_inv_def lu_Touch_def Flush_begin_def CloseAndFlush_begin_def write_done_def batch_of_def
      gomap_simps split: option.splits\<close>)

lemma run_facts:
  assumes "lu_run (NewLastUsedFlusher db) ls f"
  shows "lu_inv f \<and> (lu_closed f \<longleftrightarrow> closes ls)
    \<and> ((\<forall>a. LWrite True a \<notin> set ls) \<longrightarrow> map_of db acct = Some old \<longrightarrow> where_is f acct (last_touch ls False acct old) \<and> map_of (lu_db f) acct \<noteq> None)"
  using assms
proof (induction "NewLastUsedFlusher db" ls f rule: lu_run.induct)
  case start
  show ?case by (auto simp: NewLastUsedFlusher_def lu_inv_def where_is_def batch_of_def)
next
  case (step ls g l h)
  have "lu_inv h" "lu_closed h \<longleftrightarrow> closes (ls @ [l])"
    using step lu_inv_step [OF _ step(3)] closed_step [OF step(3)] by (auto simp: closes_snoc)
  moreover have "where_is h acct (last_touch (ls @ [l]) False acct old) \<and> map_of (lu_db h) acct \<noteq> None"
    if nf: "\<forall>a. LWrite True a \<notin> set (ls @ [l])" and row: "map_of db acct = Some old"
  proof -
    have g: "lu_inv g" "lu_closed g \<longleftrightarrow> closes ls" "where_is g acct (last_touch ls False acct old)" "map_of (lu_db g) acct \<noteq> None"
      using step(2) nf row by auto
    have "where_is h acct (case l of LTouch a ts \<Rightarrow> if \<not> lu_closed g \<and> a = acct then Some ts else last_touch ls False acct old
        | _ \<Rightarrow> last_touch ls False acct old)"
      using nf by (intro where_is_step [OF g(1) step(3) g(3)]) auto
    moreover have "map_of (lu_db h) acct \<noteq> None"
      using step(3) g(4) by cases (auto simp: lu_Touch_def Flush_begin_def CloseAndFlush_begin_def write_row_def write_done_def gomap_simps)
    ultimately show ?thesis by (simp add: last_touch_snoc g(2) cong: lu_label.case_cong)
  qed
  ultimately show ?case by blast
qed

lemma closed_quiet:
  assumes "lu_run f ls g" "lu_closed f" "lu_dirty f = []" "batch_of f = []"
  shows "lu_closed g \<and> lu_dirty g = [] \<and> batch_of g = [] \<and> lu_db g = lu_db f"
  using assms
proof (induction rule: lu_run.induct)
  case (step f ls g l h)
  then have "lu_closed g" "lu_dirty g = []" "batch_of g = []" "lu_db g = lu_db f" by auto
  with step(2) show ?case
    by cases (auto simp: lu_Touch_def Flush_begin_def CloseAndFlush_begin_def write_row_def write_done_def batch_of_def)
qed simp

text \<open>
  C38: The last use of an account is never lost, and the final flush is the last write. In every
  interleaving of requests, periodic flushes and the closing flush in which no statement fails, once
  \<open>CloseAndFlush\<close> has returned the database holds for every account the time of its last touch before
  the close, or what it held if there was none; and whatever happens afterwards - late requests, late
  flushes, another close - the flusher never writes again.
\<close>

theorem final_flush_complete:
  assumes "lu_run (NewLastUsedFlusher db) ls f" "\<forall>a. LWrite True a \<notin> set ls" "closes ls" "lu_writing f = None"
  shows "(\<forall>acct old. map_of db acct = Some old \<longrightarrow> map_of (lu_db f) acct = Some (last_touch ls False acct old))
    \<and> (\<forall>ls' g. lu_run f ls' g \<longrightarrow> lu_db g = lu_db f)"
proof -
  have facts: "lu_closed f" "lu_dirty f = []" "batch_of f = []"
    using run_facts [OF assms(1)] assms(3,4) by (auto simp: lu_inv_def batch_of_def)
  have "map_of (lu_db f) acct = Some (last_touch ls False acct old)" if "map_of db acct = Some old" for acct old
    using run_facts [OF assms(1), of acct old] that assms(2) facts by (auto simp: where_is_def)
  with closed_quiet [OF _ facts] show ?thesis by blast
qed

theorem final_flush_complete_witness:
  "\<exists>f. lu_run (NewLastUsedFlusher [(''a'', None), (''b'', Some ''t0'')])
         [LTouch ''a'' ''t1'', LFlush, LTouch ''a'' ''t2'', LWrite False ''a'', LDone, LClose, LTouch ''a'' ''t3'', LWrite False ''a'', LDone] f
     \<and> map_of (lu_db f) ''a'' = Some (Some ''t2'') \<and> map_of (lu_db f) ''b'' = Some (Some ''t0'')"
proof -
  let ?f0 = "NewLastUsedFlusher [(''a'', None), (''b'', Some ''t0'')]"
  let ?ls = "[LTouch ''a'' ''t1'', LFlush, LTouch ''a'' ''t2'', LWrite False ''a'', LDone, LClose, LTouch ''a'' ''t3'', LWrite False ''a'', LDone]"
  define f1 where "f1 = Flush_begin (lu_Touch ''a'' ''t1'' ?f0)"
  define f2 where "f2 = write_row False ''a'' ''t1'' [] (lu_Touch ''a'' ''t2'' f1)"
  define f3 where "f3 = lu_Touch ''a'' ''t3'' (CloseAndFlush_begin (write_done f2))"
  define f4 where "f4 = write_done (write_row False ''a'' ''t2'' [] f3)"
  note defs = f1_def f2_def f3_def f4_def NewLastUsedFlusher_def lu_Touch_def Flush_begin_def write_row_def CloseAndFlush_begin_def write_done_def
  have s: "lu_step ?f0 (LTouch ''a'' ''t1'') (lu_Touch ''a'' ''t1'' ?f0)" "lu_step (lu_Touch ''a'' ''t1'' ?f0) LFlush f1"
    "lu_step f1 (LTouch ''a'' ''t2'') (lu_Touch ''a'' ''t2'' f1)" "lu_step f2 LDone (write_done f2)"
    "lu_step (write_done f2) LClose (CloseAndFlush_begin (write_done f2))"
    "lu_step (CloseAndFlush_begin (write_done f2)) (LTouch ''a'' ''t3'') f3"
    "lu_step (write_row False ''a'' ''t2'' [] f3) LDone f4"
    unfolding f1_def f3_def f4_def by (rule lu_step.intros; simp add: defs)+
  have w: "lu_step (lu_Touch ''a'' ''t2'' f1) (LWrite False ''a'') f2" "lu_step f3 (LWrite False ''a'') (write_row False ''a'' ''t2'' [] f3)"
    using lu_step.row [of "lu_Touch ''a'' ''t2'' f1" "[]" "''a''" "''t1''" "[]" False] lu_step.row [of f3 "[]" "''a''" "''t2''" "[]" False]
    by (simp_all add: defs)
  have run: "lu_run ?f0 ?ls f4"
    using lu_run.start [of ?f0, THEN lu_run.step, OF s(1), THEN lu_run.step, OF s(2), THEN lu_run.step, OF s(3), THEN lu_run.step, OF w(1),
        THEN lu_run.step, OF s(4), THEN lu_run.step, OF s(5), THEN lu_run.step, OF s(6), THEN lu_run.step, OF w(2), THEN lu_run.step, OF s(7)]
    by simp
  have "lu_writing f4 = None" by (simp add: defs)
  from final_flush_complete [OF run _ _ this] run show ?thesis by (intro exI [of _ f4]) simp
qed

end
