(* ===== verification/Rest_Endpoints.thy ===== *)
theory Rest_Endpoints
  imports Agent_Session Rest_Accounts
begin

text \<open>
  \<open>src/internal/rest/endpoints.go\<close> and the helpers of \<open>rest.go\<close>: the endpoints over HTTP.

  A body is the map \<open>readRawBody\<close> decodes (empty when it cannot); of a member's JSON text the handlers
  ask whether it is null, a boolean, a string, or an integer, and leave a variable as it was when
  the text is anything else. Audit events are listed in the answer. \<open>dberr\<close> is the text of a driver
  error; faults and clock readings are arguments.
\<close>

section \<open>Bodies\<close>

datatype raw = RNull | RBool bool | RStr string | RInt int | ROther

type_synonym raw_body = "(string, raw) gomap"

definition raw_jsonString :: "raw \<Rightarrow> string" where
  "raw_jsonString v = (case v of RStr s \<Rightarrow> s | _ \<Rightarrow> [])"

definition stringField :: "raw_body \<Rightarrow> string \<Rightarrow> string" where
  "stringField m key = (case map_of m key of None \<Rightarrow> [] | Some v \<Rightarrow> raw_jsonString v)"

definition isJSONBool :: "raw \<Rightarrow> bool" where
  "isJSONBool v = (case v of RBool _ \<Rightarrow> True | _ \<Rightarrow> False)"

text \<open>\<open>json.Unmarshal\<close> into an \<open>int64\<close> and into a \<open>bool\<close>, with the value the variable had.\<close>

definition unmarshal_int :: "raw \<Rightarrow> int \<Rightarrow> int" where
  "unmarshal_int v old = (case v of RInt i \<Rightarrow> if in_i64 i then i else old | _ \<Rightarrow> old)"

definition unmarshal_bool :: "raw \<Rightarrow> bool \<Rightarrow> bool" where
  "unmarshal_bool v old = (case v of RBool b \<Rightarrow> b | _ \<Rightarrow> old)"

text \<open>The field of the body through \<open>f\<close>, or the value it had.\<close>

definition field_or :: "raw_body \<Rightarrow> string \<Rightarrow> (raw \<Rightarrow> 'a \<Rightarrow> 'a) \<Rightarrow> 'a \<Rightarrow> 'a" where
  "field_or m key f old = (case map_of m key of None \<Rightarrow> old | Some v \<Rightarrow> f v old)"

definition normalizeDescription :: "raw option \<Rightarrow> string option option" where
  "normalizeDescription v =
     (case v of
        None \<Rightarrow> Some None
      | Some RNull \<Rightarrow> Some None
      | Some (RStr s) \<Rightarrow>
          if int (length s) > DescriptionMaxLen then None
          else let trimmed = trim_space s in Some (if trimmed = [] then None else Some trimmed)
      | _ \<Rightarrow> None)"

definition userVerificationErr :: string where
  "userVerificationErr = ''userVerification must be one of: '' @ join_with '', '' UserVerificationValues"

definition descriptionErr :: string where
  "descriptionErr = ''description must be a string up to 1000 characters''"

definition demo_readonly :: http_resp where
  "demo_readonly = apierr_Write 400 (''Demo endpoints are read-only '' @ [CHR 0xE2, CHR 0x80, CHR 0x94] @ '' toggle visibility instead'')"

definition status_resp :: "string \<Rightarrow> http_resp" where
  "status_resp s = (200, JObj [(''status'', JStr s)])"

section \<open>Reading\<close>

definition toDTO :: "svc_endpoint \<Rightarrow> json" where
  "toDTO v =
     (let e = sv_Endpoint v in
      JObj ([(''id'', JStr (se_ID e)), (''label'', JStr (se_Label e)), (''host'', JStr (se_Host e)), (''port'', JNum (se_Port e)),
             (''username'', JStr (se_Username e)), (''userVerification'', JStr (se_UserVerification e)),
             (''agentForward'', JBool (se_AgentForward e)), (''description'', nullable_opt (se_Description e)),
             (''isDemo'', JBool (sv_IsDemo v)),
             (''hostKey'', case se_HostKey e of
                 None \<Rightarrow> JNull
               | Some k \<Rightarrow> JObj [(''type'', JStr (hp_Type k)), (''fingerprint'', JStr (hp_Fingerprint k)),
                                 (''pinnedAt'', JStr (hp_PinnedAt k)), (''pinnedBy'', JStr (hp_PinnedBy k))])]))"

definition endpoints_list ::
  "(string \<Rightarrow> byte list) \<Rightarrow> bool \<Rightarrow> bool \<Rightarrow> string \<Rightarrow> demo option \<Rightarrow> sw_db \<Rightarrow> http_resp"
where
  "endpoints_list sha256 flt flt2 acct dm db =
     (case svc_ListForAccount sha256 flt flt2 acct dm db of
        Inl _ \<Rightarrow> apierr_Write 500 ''internal error''
      | Inr eps \<Rightarrow> (200, JObj [(''endpoints'', JArr (map toDTO eps))]))"

section \<open>Writing\<close>

text \<open>The checks both writers make of the optional fields, in their order.\<close>

definition check_body :: "raw_body \<Rightarrow> string option" where
  "check_body body =
     (if (case map_of body ''userVerification'' of None \<Rightarrow> False | Some v \<Rightarrow> \<not> IsUserVerification (raw_jsonString v))
      then Some userVerificationErr
      else if (case map_of body ''agentForward'' of None \<Rightarrow> False | Some v \<Rightarrow> \<not> isJSONBool v)
      then Some ''agentForward must be a boolean''
      else if normalizeDescription (map_of body ''description'') = None then Some descriptionErr
      else None)"

definition endpoints_create ::
  "(db_error \<Rightarrow> string) \<Rightarrow> bool \<Rightarrow> string \<Rightarrow> string \<Rightarrow> string \<Rightarrow> raw_body \<Rightarrow> sw_db \<Rightarrow> http_resp \<times> sw_db"
where
  "endpoints_create dberr flt now newID acct body db =
     (let label = trim_space (stringField body ''label''); host = trim_space (stringField body ''host'') in
      if label = [] \<or> host = [] then (apierr_Write 400 ''label and host are required'', db)
      else case check_body body of
             Some msg \<Rightarrow> (apierr_Write 400 msg, db)
           | None \<Rightarrow>
               (case es_Create flt now
                  \<lparr>se_ID = newID, se_AccountID = acct, se_Label = label, se_Host = host,
                   se_Port = field_or body ''port'' unmarshal_int 22,
                   se_Username = field_or body ''username'' (\<lambda>v _. raw_jsonString v) ''shellwatch'',
                   se_UserVerification = field_or body ''userVerification'' (\<lambda>v _. raw_jsonString v) ''required'',
                   se_Description = Option.bind (normalizeDescription (map_of body ''description'')) id,
                   se_AgentForward = field_or body ''agentForward'' unmarshal_bool True, se_HostKey = None\<rparr> db of
                  (Some e, db) \<Rightarrow> (apierr_Write 400 (dberr e), db)
                | (None, db) \<Rightarrow> ((200, JObj [(''status'', JStr ''created''), (''id'', JStr newID)]), db)))"

definition merge_body :: "raw_body \<Rightarrow> string option option \<Rightarrow> endpoint \<Rightarrow> endpoint" where
  "merge_body body desc e =
     e\<lparr>se_Label := field_or body ''label'' (\<lambda>v _. raw_jsonString v) (se_Label e),
       se_Host := field_or body ''host'' (\<lambda>v _. raw_jsonString v) (se_Host e),
       se_Port := field_or body ''port'' unmarshal_int (se_Port e),
       se_Username := field_or body ''username'' (\<lambda>v _. raw_jsonString v) (se_Username e),
       se_UserVerification := field_or body ''userVerification'' (\<lambda>v _. raw_jsonString v) (se_UserVerification e),
       se_AgentForward := field_or body ''agentForward'' unmarshal_bool (se_AgentForward e),
       se_Description := (case desc of None \<Rightarrow> se_Description e | Some d \<Rightarrow> d)\<rparr>"

definition auditHostKeyCleared :: "bool \<Rightarrow> endpoint \<Rightarrow> string \<Rightarrow> host_key_event list" where
  "auditHostKeyCleared audit e reason =
     (case se_HostKey e of
        Some k \<Rightarrow>
          if audit
          then [\<lparr>he_Type = ''host-key-cleared'', he_Source = ''endpoint-admin'', he_AccountID = se_AccountID e,
                 he_EndpointID = se_ID e, he_EndpointLabel = se_Label e,
                 he_EndpointAddress = se_Username e @ ''@'' @ se_Host e @ '':'' @ Itoa (se_Port e),
                 he_Fingerprint = hp_Fingerprint k, he_PriorFingerprint = [], he_Reason = reason,
                 he_MCPClientName = [], he_MCPClientVersion = [], he_SourceIP = [], he_MCPReason = []\<rparr>]
          else []
      | None \<Rightarrow> [])"

text \<open>\<open>between\<close>: what other requests do to the table between the read and the write.\<close>

definition endpoints_update ::
  "(db_error \<Rightarrow> string) \<Rightarrow> bool \<Rightarrow> bool \<Rightarrow> bool \<Rightarrow> string \<Rightarrow> string \<Rightarrow> string \<Rightarrow> raw_body \<Rightarrow> (sw_db \<Rightarrow> sw_db) \<Rightarrow> sw_db \<Rightarrow>
   (http_resp \<times> host_key_event list) \<times> sw_db"
where
  "endpoints_update dberr flt flt2 audit now acct eid body between db =
     (if IsID eid then ((demo_readonly, []), db)
      else case check_body body of
             Some msg \<Rightarrow> ((apierr_Write 400 msg, []), db)
           | None \<Rightarrow>
          (case es_GetForAccount flt eid acct db of
             Inl e \<Rightarrow> ((apierr_Write 400 (dberr e), []), db)
           | Inr None \<Rightarrow> ((apierr_Write 400 ''Endpoint not found'', []), db)
           | Inr (Some existing) \<Rightarrow>
               (let desc = (case map_of body ''description'' of None \<Rightarrow> None | Some v \<Rightarrow> normalizeDescription (Some v));
                    merged = merge_body body desc existing in
                case es_Update flt2 now merged (between db) of
                  (Inl e, db) \<Rightarrow> ((apierr_Write 400 (dberr e), []), db)
                | (Inr _, db) \<Rightarrow>
                    ((status_resp ''updated'',
                      if se_HostKey existing \<noteq> None \<and> (se_Host existing \<noteq> se_Host merged \<or> se_Port existing \<noteq> se_Port merged)
                      then auditHostKeyCleared audit existing ''endpoint host/port updated via REST'' else []), db))))"

definition endpoints_delete ::
  "(db_error \<Rightarrow> string) \<Rightarrow> bool \<Rightarrow> string \<Rightarrow> string \<Rightarrow> string \<Rightarrow> manager option \<Rightarrow> sw_db \<Rightarrow> http_resp \<times> sw_db"
where
  "endpoints_delete dberr flt now acct eid m db =
     (if IsID eid then (demo_readonly, db)
      else if (case m of None \<Rightarrow> False | Some m \<Rightarrow> eid \<in> set (EndpointIDsForAccount acct m))
      then (apierr_Write 409 ''Cannot delete endpoint with active sessions'', db)
      else case es_Delete flt now eid acct db of
             (Inl e, db) \<Rightarrow> (apierr_Write 400 (dberr e), db)
           | (Inr _, db) \<Rightarrow> (status_resp ''deleted'', db))"

text \<open>The record a pin request names: exactly one of a key line and a fingerprint.\<close>

definition pin_body :: "cfg_env \<Rightarrow> raw_body \<Rightarrow> string + host_key_record" where
  "pin_body env body =
     (let publicKey = trim_space (stringField body ''publicKey''); fingerprint = trim_space (stringField body ''fingerprint'') in
      if (publicKey = []) = (fingerprint = [])
      then Inl ''Provide exactly one of publicKey (OpenSSH public-key line) or fingerprint (SHA256:...)''
      else if publicKey \<noteq> []
      then (case ParseHostKey env publicKey of
              None \<Rightarrow> Inl ''publicKey must be an OpenSSH public-key line (e.g. \"ssh-ed25519 AAAA...\")''
            | Some hk \<Rightarrow>
                if hl_Key hk = None then Inl ''publicKey must be an OpenSSH public-key line (e.g. \"ssh-ed25519 AAAA...\")''
                else Inr \<lparr>hr_Type = hl_Type hk, hr_Key = hl_Key hk, hr_Fingerprint = hl_Fingerprint hk\<rparr>)
      else if \<not> has_prefix fingerprint ''SHA256:'' then Inl ''fingerprint must start with SHA256:''
      else Inr \<lparr>hr_Type = [], hr_Key = None, hr_Fingerprint = fingerprint\<rparr>)"

definition endpoints_pinHostKey ::
  "cfg_env \<Rightarrow> (db_error \<Rightarrow> string) \<Rightarrow> bool \<Rightarrow> bool \<Rightarrow> bool \<Rightarrow> string \<Rightarrow> string \<Rightarrow> string \<Rightarrow> raw_body \<Rightarrow> (sw_db \<Rightarrow> sw_db) \<Rightarrow> sw_db \<Rightarrow>
   http_resp \<times> sw_db"
where
  "endpoints_pinHostKey env dberr flt flt2 flt3 now acct eid body between db =
     (if IsID eid then (demo_readonly, db)
      else case pin_body env body of
             Inl msg \<Rightarrow> (apierr_Write 400 msg, db)
           | Inr rec \<Rightarrow>
               (case es_GetForAccount flt eid acct db of
                  Inl e \<Rightarrow> (apierr_Write 400 (dberr e), db)
                | Inr None \<Rightarrow> (apierr_Write 400 ''Endpoint not found'', db)
                | Inr (Some existing) \<Rightarrow>
                    (case es_PinHostKey flt2 flt3 now
                       \<lparr>pp_ID = eid, pp_Host = se_Host existing, pp_Port = se_Port existing, pp_Record = rec, pp_PinnedBy = ''manual''\<rparr>
                       (between db) of
                       (Some ErrHostKeyPinned, db) \<Rightarrow>
                         (apierr_Write 409 (''A host key is already pinned for this endpoint '' @ [CHR 0xE2, CHR 0x80, CHR 0x94] @ '' delete it first''), db)
                     | (Some e, db) \<Rightarrow> (apierr_Write 400 (dberr e), db)
                     | (None, db) \<Rightarrow> (status_resp ''updated'', db))))"

definition endpoints_deleteHostKey ::
  "(db_error \<Rightarrow> string) \<Rightarrow> bool \<Rightarrow> bool \<Rightarrow> bool \<Rightarrow> string \<Rightarrow> string \<Rightarrow> string \<Rightarrow> (sw_db \<Rightarrow> sw_db) \<Rightarrow> sw_db \<Rightarrow>
   (http_resp \<times> host_key_event list) \<times> sw_db"
where
  "endpoints_deleteHostKey dberr flt flt2 audit now acct eid between db =
     (if IsID eid then ((demo_readonly, []), db)
      else case es_GetForAccount flt eid acct db of
             Inl e \<Rightarrow> ((apierr_Write 400 (dberr e), []), db)
           | Inr None \<Rightarrow> ((apierr_Write 400 ''Endpoint not found'', []), db)
           | Inr (Some existing) \<Rightarrow>
               (case es_ClearHostKey flt2 now eid acct (between db) of
                  (Inl e, db) \<Rightarrow> ((apierr_Write 400 (dberr e), []), db)
                | (Inr cleared, db) \<Rightarrow>
                    ((status_resp ''deleted'',
                      if cleared \<and> se_HostKey existing \<noteq> None
                      then auditHostKeyCleared audit existing ''host key forgotten via settings'' else []), db)))"

section \<open>Routes\<close>

text \<open>The requests that write, with the step-up middleware in front of the two host-key routes.\<close>

datatype ep_request =
    EqCreate bool string string raw_body
  | EqUpdate bool bool string string raw_body
  | EqDelete bool string string "manager option"
  | EqPin time string bool bool bool string string raw_body
  | EqReset time string bool bool string string

definition su_gated ::
  "string \<Rightarrow> time \<Rightarrow> principal option \<Rightarrow> string \<Rightarrow> (sw_db \<Rightarrow> (http_resp \<times> host_key_event list) \<times> sw_db) \<Rightarrow> stepup_store \<times> sw_db \<Rightarrow>
   (http_resp \<times> host_key_event list) \<times> stepup_store \<times> sw_db"
where
  "su_gated action now pr hdr h st =
     (case RequireStepUp action now pr hdr (fst st) of
        (Some r, s) \<Rightarrow> ((r, []), s, snd st)
      | (None, s) \<Rightarrow> (case h (snd st) of (r, db) \<Rightarrow> (r, s, db)))"

fun ep_next ::
  "cfg_env \<Rightarrow> (db_error \<Rightarrow> string) \<Rightarrow> bool \<Rightarrow> principal option \<Rightarrow> ep_request \<Rightarrow> stepup_store \<times> sw_db \<Rightarrow>
   (http_resp \<times> host_key_event list) \<times> stepup_store \<times> sw_db"
where
  "ep_next env dberr audit pr (EqCreate flt ts newID body) (s, db) =
     (case endpoints_create dberr flt ts newID (acc_of pr) body db of (r, db) \<Rightarrow> ((r, []), s, db))"
| "ep_next env dberr audit pr (EqUpdate flt flt2 ts eid body) (s, db) =
     (case endpoints_update dberr flt flt2 audit ts (acc_of pr) eid body id db of (r, db) \<Rightarrow> (r, s, db))"
| "ep_next env dberr audit pr (EqDelete flt ts eid m) (s, db) =
     (case endpoints_delete dberr flt ts (acc_of pr) eid m db of (r, db) \<Rightarrow> ((r, []), s, db))"
| "ep_next env dberr audit pr (EqPin now hdr flt flt2 flt3 ts eid body) (s, db) =
     su_gated ''pin_host_key'' now pr hdr (\<lambda>db.
       case endpoints_pinHostKey env dberr flt flt2 flt3 ts (acc_of pr) eid body id db of (r, db) \<Rightarrow> ((r, []), db)) (s, db)"
| "ep_next env dberr audit pr (EqReset now hdr flt flt2 ts eid) (s, db) =
     su_gated ''reset_host_key'' now pr hdr (endpoints_deleteHostKey dberr flt flt2 audit ts (acc_of pr) eid id) (s, db)"

section \<open>Every write is one operation of the store\<close>

definition live_token :: "string \<Rightarrow> time \<Rightarrow> principal option \<Rightarrow> string \<Rightarrow> stepup_store \<Rightarrow> bool" where
  "live_token action now pr hdr s \<longleftrightarrow>
     (\<exists>p en. pr = Some p \<and> hdr \<noteq> [] \<and> eph_live now s hdr = Some en \<and> se_accountID en = p_AccountID p \<and> se_action en = action)"

lemma su_gated_cases:
  assumes "su_gated action now pr hdr h (s, db) = (r, s', db')"
  obtains (refused) "db' = db" "snd r = []" | (passed) "live_token action now pr hdr s" "h db = (r, db')"
proof (cases "fst (RequireStepUp action now pr hdr s)")
  case None
  then have "live_token action now pr hdr s"
    by (cases pr) (auto simp: live_token_def RequireStepUp_pass, simp add: RequireStepUp_def)
  with None assms passed show thesis by (auto simp: su_gated_def split: prod.splits)
next
  case (Some x)
  with assms refused show thesis by (auto simp: su_gated_def split: prod.splits)
qed

text \<open>The store operation a request performs, and what it needs.\<close>

fun performs :: "principal option \<Rightarrow> ep_request \<Rightarrow> stepup_store \<Rightarrow> sw_db \<Rightarrow> ep_op \<Rightarrow> bool" where
  "performs pr (EqCreate flt ts newID body) s db op \<longleftrightarrow>
     (\<exists>ep. op = EpCreate False ts ep \<and> se_AccountID ep = acc_of pr \<and> se_ID ep = newID)"
| "performs pr (EqUpdate flt flt2 ts eid body) s db op \<longleftrightarrow>
     (\<exists>ep. op = EpUpdate False ts ep \<and> se_AccountID ep = acc_of pr \<and> se_ID ep = eid)"
| "performs pr (EqDelete flt ts eid m) s db op \<longleftrightarrow> op = EpDelete False ts eid (acc_of pr)"
| "performs pr (EqPin now hdr flt flt2 flt3 ts eid body) s db op \<longleftrightarrow>
     live_token ''pin_host_key'' now pr hdr s
     \<and> (\<exists>p r. op = EpPin False flt3 ts p \<and> pp_ID p = eid \<and> row_of db eid = Some r \<and> er_account_id r = acc_of pr)"
| "performs pr (EqReset now hdr flt flt2 ts eid) s db op \<longleftrightarrow>
     live_token ''reset_host_key'' now pr hdr s \<and> op = EpClear False ts eid (acc_of pr)"

lemma GetForAccount_Some:
  "es_GetForAccount flt eid acct db = Inr (Some e) \<Longrightarrow> \<exists>r. row_of db eid = Some r \<and> er_account_id r = acct \<and> e = fromRow eid r"
  by (auto simp: es_GetForAccount_def GetEndpointForAccount_def split: if_splits option.splits)

lemma create_op:
  assumes "endpoints_create dberr flt ts newID acct body db = (r, db')"
  shows "db' = db \<or> (\<exists>ep. db' = ep_step (EpCreate False ts ep) db \<and> se_AccountID ep = acct \<and> se_ID ep = newID)"
proof -
  have "snd (es_Create flt ts ep db) = db \<or> snd (es_Create flt ts ep db) = ep_step (EpCreate False ts ep) db" for ep
    by (simp add: es_Create_def)
  then show ?thesis
    using assms unfolding endpoints_create_def Let_def
    by (auto split: if_splits option.splits prod.splits) (metis endpoint.select_convs(1,2) snd_conv)+
qed

lemma update_op:
  assumes "endpoints_update dberr flt flt2 audit ts acct eid body id db = ((r, evs), db')"
  shows "db' = db \<and> evs = []
    \<or> (\<exists>e row. row_of db eid = Some row \<and> er_account_id row = acct \<and> se_ID e = eid \<and> se_AccountID e = acct
         \<and> db' = ep_step (EpUpdate False ts e) db
         \<and> evs = (if er_host_key_fingerprint row \<noteq> None \<and> (er_host row \<noteq> se_Host e \<or> er_port row \<noteq> se_Port e)
                  then auditHostKeyCleared audit (fromRow eid row) ''endpoint host/port updated via REST'' else []))"
proof (cases "IsID eid \<or> check_body body \<noteq> None")
  case False
  then have ok: "\<not> IsID eid" "check_body body = None" by auto
  show ?thesis
  proof (cases "\<exists>e. es_GetForAccount flt eid acct db = Inr (Some e)")
    case True
    then obtain row where row: "es_GetForAccount flt eid acct db = Inr (Some (fromRow eid row))" "row_of db eid = Some row" "er_account_id row = acct"
      using GetForAccount_Some by blast
    define m where "m = merge_body body (case map_of body ''description'' of None \<Rightarrow> None | Some v \<Rightarrow> normalizeDescription (Some v)) (fromRow eid row)"
    have m: "se_ID m = eid" "se_AccountID m = acct" by (simp_all add: m_def merge_body_def fromRow_def row)
    have "se_Host (fromRow eid row) = er_host row" "se_Port (fromRow eid row) = er_port row"
      "se_HostKey (fromRow eid row) \<noteq> None \<longleftrightarrow> er_host_key_fingerprint row \<noteq> None" by (simp_all add: fromRow_def)
    moreover have "endpoints_update dberr flt flt2 audit ts acct eid body id db =
        (case es_Update flt2 ts m db of
           (Inl e, db) \<Rightarrow> ((apierr_Write 400 (dberr e), []), db)
         | (Inr _, db) \<Rightarrow>
             ((status_resp ''updated'',
               if se_HostKey (fromRow eid row) \<noteq> None \<and> (se_Host (fromRow eid row) \<noteq> se_Host m \<or> se_Port (fromRow eid row) \<noteq> se_Port m)
               then auditHostKeyCleared audit (fromRow eid row) ''endpoint host/port updated via REST'' else []), db))"
      by (simp only: endpoints_update_def ok row(1) if_False option.case sum.case Let_def m_def id_apply)
    moreover have "flt2 \<and> es_Update flt2 ts m db = (Inl DriverError, db)
        \<or> (\<exists>b. es_Update flt2 ts m db = (Inr b, ep_step (EpUpdate False ts m) db))"
      by (simp add: es_Update_def split: prod.split)
    ultimately show ?thesis using assms row(2,3) m by (auto intro!: exI [of _ m])
  next
    case False
    with assms ok show ?thesis by (auto simp: endpoints_update_def split: sum.splits option.splits)
  qed
qed (use assms in \<open>auto simp: endpoints_update_def split: option.splits if_splits\<close>)

lemma reset_op:
  assumes "endpoints_deleteHostKey dberr flt flt2 audit ts acct eid id db = ((r, evs), db')"
  shows "db' = db \<and> evs = []
    \<or> (\<exists>row. row_of db eid = Some row \<and> er_account_id row = acct \<and> db' = ep_step (EpClear False ts eid acct) db
         \<and> evs = (if er_host_key_fingerprint row \<noteq> None then auditHostKeyCleared audit (fromRow eid row) ''host key forgotten via settings'' else []))"
proof (cases "\<not> IsID eid \<and> (\<exists>e. es_GetForAccount flt eid acct db = Inr (Some e))")
  case True
  then obtain row where row: "es_GetForAccount flt eid acct db = Inr (Some (fromRow eid row))" "row_of db eid = Some row" "er_account_id row = acct"
    using GetForAccount_Some by blast
  have "fst (ClearEndpointHostKey ts eid acct db) > 0 \<longleftrightarrow> er_host_key_fingerprint row \<noteq> None"
    unfolding ClearEndpointHostKey_def update_rows_count using row by auto
  moreover have "se_HostKey (fromRow eid row) \<noteq> None \<longleftrightarrow> er_host_key_fingerprint row \<noteq> None" by (simp add: fromRow_def)
  ultimately show ?thesis
    using assms True row by (auto simp: endpoints_deleteHostKey_def es_ClearHostKey_def Let_def split: prod.splits if_splits)
qed (use assms in \<open>auto simp: endpoints_deleteHostKey_def split: sum.splits option.splits if_splits\<close>)

lemma pin_op:
  assumes "endpoints_pinHostKey env dberr flt flt2 flt3 ts acct eid body id db = (r, db')"
  shows "db' = db \<or> (\<exists>p row. db' = ep_step (EpPin False flt3 ts p) db \<and> pp_ID p = eid \<and> row_of db eid = Some row \<and> er_account_id row = acct)"
proof (cases "\<not> IsID eid \<and> (\<exists>rec. pin_body env body = Inr rec) \<and> (\<exists>e. es_GetForAccount flt eid acct db = Inr (Some e))")
  case True
  then obtain rec row where row: "pin_body env body = Inr rec" "es_GetForAccount flt eid acct db = Inr (Some (fromRow eid row))"
    "row_of db eid = Some row" "er_account_id row = acct" using GetForAccount_Some by blast
  define p where "p = \<lparr>pp_ID = eid, pp_Host = se_Host (fromRow eid row), pp_Port = se_Port (fromRow eid row), pp_Record = rec, pp_PinnedBy = ''manual''\<rparr>"
  obtain x db2 where run: "es_PinHostKey flt2 flt3 ts p db = (x, db2)" by fastforce
  have "db' = db2"
    using assms True row(1,2) run by (auto simp: endpoints_pinHostKey_def p_def split: option.splits db_error.splits)
  moreover have "db2 = db \<or> db2 = ep_step (EpPin False flt3 ts p) db"
    using es_PinHostKey_db [of flt2 flt3 ts p db] es_PinHostKey_db [of False flt3 ts p db] run by simp
  ultimately show ?thesis using row(3,4) by (auto simp: p_def)
qed (use assms in \<open>auto simp: endpoints_pinHostKey_def split: sum.splits option.splits if_splits\<close>)

lemma ep_next_op:
  assumes "ep_next env dberr audit pr rq (s, db) = ((r, evs), s', db')"
  shows "db' = db \<or> (\<exists>op. performs pr rq s db op \<and> db' = ep_step op db)"
proof (cases rq)
  case (EqCreate flt ts newID body)
  then show ?thesis using assms by (auto dest!: create_op split: prod.splits)
next
  case (EqUpdate flt flt2 ts eid body)
  then show ?thesis using assms by (auto dest!: update_op split: prod.splits)
next
  case (EqDelete flt ts eid m)
  then show ?thesis
    using assms by (auto simp: endpoints_delete_def es_Delete_def Let_def split: prod.splits if_splits sum.splits option.splits)
next
  case (EqPin now hdr flt flt2 flt3 ts eid body)
  with assms have "su_gated ''pin_host_key'' now pr hdr (\<lambda>db.
       case endpoints_pinHostKey env dberr flt flt2 flt3 ts (acc_of pr) eid body id db of (r, db) \<Rightarrow> ((r, []), db)) (s, db) = ((r, evs), s', db')" by simp
  then show ?thesis by (cases rule: su_gated_cases) (auto simp: EqPin dest!: pin_op split: prod.splits)
next
  case (EqReset now hdr flt flt2 ts eid)
  with assms have "su_gated ''reset_host_key'' now pr hdr (endpoints_deleteHostKey dberr flt flt2 audit ts (acc_of pr) eid id) (s, db) = ((r, evs), s', db')"
    by simp
  then show ?thesis by (cases rule: su_gated_cases) (auto simp: EqReset dest!: reset_op)
qed

section \<open>Host keys over HTTP\<close>

text \<open>One event, for this endpoint, its account and the key that was pinned.\<close>

definition audited :: "string \<Rightarrow> endpoint_row \<Rightarrow> host_key_event list \<Rightarrow> bool" where
  "audited k r evs \<longleftrightarrow> (\<forall>fp. er_host_key_fingerprint r = Some fp \<longrightarrow>
     (\<exists>ev. evs = [ev] \<and> he_Fingerprint ev = fp \<and> he_EndpointID ev = k \<and> he_AccountID ev = er_account_id r))"

lemma auditHostKeyCleared_audited: "audited k r (auditHostKeyCleared True (fromRow k r) reason)"
  by (simp add: audited_def auditHostKeyCleared_def fromRow_def)

lemma row_kept:
  assumes "row_of db k = Some r"
  shows "row_of (ep_step (EpCreate f ts e) db) k = Some r"
    and "\<exists>r'. row_of (ep_step (EpDelete f ts eid acc) db) k = Some r' \<and> row_pin r' = row_pin r \<and> row_addr r' = row_addr r"
    and "k \<noteq> se_ID e \<Longrightarrow> row_of (ep_step (EpUpdate f ts e) db) k = Some r"
    and "k \<noteq> eid \<Longrightarrow> row_of (ep_step (EpClear f ts eid acc) db) k = Some r"
    and "k \<noteq> pp_ID p \<Longrightarrow> row_of (ep_step (EpPin f f2 ts p) db) k = Some r"
  using assms by (auto simp: ep_dbs gomap_simps update_rows_Some row_pin_def row_addr_def)

lemma update_row_effect:
  assumes "row_of db k = Some r" "k = se_ID e" "er_account_id r = se_AccountID e"
  shows "\<exists>r'. row_of (ep_step (EpUpdate False ts e) db) k = Some r' \<and> row_addr r' = (se_Host e, se_Port e)
    \<and> row_pin r' = (if row_addr r = (se_Host e, se_Port e) then row_pin r else None)"
  using assms by (auto simp: ep_dbs update_rows_Some row_pin_def row_addr_def)

lemma update_key_change:
  assumes "endpoints_update dberr flt flt2 True ts acct eid body id db = ((resp, evs), db')" "row_of db k = Some r"
  shows "\<exists>r'. row_of db' k = Some r' \<and> (row_pin r' = row_pin r \<and> row_addr r' = row_addr r
    \<or> row_pin r' = None \<and> k = eid \<and> er_account_id r = acct \<and> audited k r evs \<and> row_addr r' \<noteq> row_addr r)"
proof -
  from update_op [OF assms(1)] consider "db' = db"
    | e row where "row_of db eid = Some row" "er_account_id row = acct" "se_ID e = eid" "se_AccountID e = acct"
        "db' = ep_step (EpUpdate False ts e) db"
        "evs = (if er_host_key_fingerprint row \<noteq> None \<and> (er_host row \<noteq> se_Host e \<or> er_port row \<noteq> se_Port e)
                then auditHostKeyCleared True (fromRow eid row) ''endpoint host/port updated via REST'' else [])"
    by blast
  then show ?thesis
  proof cases
    case 2
    show ?thesis
    proof (cases "k = eid")
      case True
      with 2 assms(2) have "row = r" by simp
      have "audited k r evs" if "row_addr r \<noteq> (se_Host e, se_Port e)"
        using that 2(6) True \<open>row = r\<close> auditHostKeyCleared_audited [of k r]
        by (cases "er_host_key_fingerprint r") (auto simp: row_addr_def audited_def)
      with update_row_effect [OF assms(2), of e ts] True 2 \<open>row = r\<close> show ?thesis by auto
    qed (use 2 row_kept(3) [OF assms(2)] in auto)
  qed (use assms(2) in auto)
qed

lemma reset_key_change:
  assumes "endpoints_deleteHostKey dberr flt flt2 True ts acct eid id db = ((resp, evs), db')" "row_of db k = Some r"
  shows "\<exists>r'. row_of db' k = Some r' \<and> (row_pin r' = row_pin r \<and> row_addr r' = row_addr r
    \<or> row_pin r' = None \<and> k = eid \<and> er_account_id r = acct \<and> audited k r evs)"
proof -
  from reset_op [OF assms(1)] consider "db' = db"
    | row where "row_of db eid = Some row" "er_account_id row = acct" "db' = ep_step (EpClear False ts eid acct) db"
        "evs = (if er_host_key_fingerprint row \<noteq> None then auditHostKeyCleared True (fromRow eid row) ''host key forgotten via settings'' else [])"
    by blast
  then show ?thesis
  proof cases
    case 2
    show ?thesis
    proof (cases "k = eid")
      case True
      with 2 assms(2) have "row = r" by simp
      have "audited k r evs"
        using 2(4) True \<open>row = r\<close> auditHostKeyCleared_audited [of k r] by (cases "er_host_key_fingerprint r") (auto simp: audited_def)
      moreover have "\<exists>r'. row_of db' k = Some r' \<and> row_pin r' = None"
        using 2 True assms(2) \<open>row = r\<close> by (auto simp: ep_dbs update_rows_Some row_pin_def)
      ultimately show ?thesis using 2(2) \<open>row = r\<close> True by blast
    qed (use 2 row_kept(4) [OF assms(2)] in auto)
  qed (use assms(2) in auto)
qed

text \<open>
  C20: What a web request can do to a host key. Whatever request on the endpoint routes is handled, an
  endpoint's row stays, and its pinned key and address stay as they are except in three cases: an
  unpinned endpoint is pinned by its own account with a live step-up token for pinning; the owner
  forgets the key with a live step-up token for resetting; or the owner moves the endpoint to another
  address, which drops the key. A key is never replaced by another one, and whenever a pinned key is
  lost exactly one audit event names the endpoint, the account and that key.
\<close>

theorem web_host_key_changes:
  assumes "ep_next env dberr True pr rq (s, db) = ((resp, evs), s', db')" "row_of db k = Some r"
  shows "\<exists>r'. row_of db' k = Some r' \<and>
    (row_pin r' = row_pin r \<and> row_addr r' = row_addr r
     \<or> row_pin r = None \<and> row_addr r' = row_addr r \<and> er_account_id r = acc_of pr
         \<and> (\<exists>now hdr f f2 f3 ts body. rq = EqPin now hdr f f2 f3 ts k body \<and> live_token ''pin_host_key'' now pr hdr s)
     \<or> row_pin r' = None \<and> er_account_id r = acc_of pr \<and> audited k r evs
         \<and> ((\<exists>now hdr f f2 ts. rq = EqReset now hdr f f2 ts k \<and> live_token ''reset_host_key'' now pr hdr s)
            \<or> row_addr r' \<noteq> row_addr r \<and> (\<exists>f f2 ts body. rq = EqUpdate f f2 ts k body)))"
proof (cases rq)
  case (EqCreate flt ts newID body)
  with ep_next_op [OF assms(1)] row_kept(1) [OF assms(2)] assms(2) show ?thesis by auto
next
  case (EqDelete flt ts eid m)
  with ep_next_op [OF assms(1)] row_kept(2) [OF assms(2)] assms(2) show ?thesis by auto
next
  case (EqUpdate flt flt2 ts eid body)
  with assms(1) have "endpoints_update dberr flt flt2 True ts (acc_of pr) eid body id db = ((resp, evs), db')" by (auto split: prod.splits)
  from update_key_change [OF this assms(2)] EqUpdate show ?thesis by blast
next
  case (EqPin now hdr flt flt2 flt3 ts eid body)
  from ep_next_op [OF assms(1)] consider "db' = db"
    | p row where "live_token ''pin_host_key'' now pr hdr s" "pp_ID p = eid" "row_of db eid = Some row" "er_account_id row = acc_of pr"
        "db' = ep_step (EpPin False flt3 ts p) db"
    using EqPin by auto
  then show ?thesis
  proof cases
    case 2
    then show ?thesis
      using assms(2) ep_step_row [OF assms(2), of "EpPin False flt3 ts p"] row_kept(5) [OF assms(2), of p] EqPin by (cases "k = eid") auto
  qed (use assms(2) in auto)
next
  case (EqReset now hdr flt flt2 ts eid)
  with assms(1) have "su_gated ''reset_host_key'' now pr hdr (endpoints_deleteHostKey dberr flt flt2 True ts (acc_of pr) eid id) (s, db) = ((resp, evs), s', db')"
    by simp
  then show ?thesis
  proof (cases rule: su_gated_cases)
    case passed
    from reset_key_change [OF passed(2) assms(2)] passed(1) EqReset show ?thesis by blast
  qed (use assms(2) in auto)
qed

definition ex_pinned_row :: endpoint_row where
  "ex_pinned_row = ex_unpinned\<lparr>er_account_id := ''acc1'', er_host_key_fingerprint := Some ''SHA256:k''\<rparr>"

definition ex_pinned_db :: sw_db where
  "ex_pinned_db = \<lparr>db_accounts = [(''acc1'', 1)], db_endpoints = [(''e'', ex_pinned_row)]\<rparr>"

lemma ex_move:
  assumes "row_of db ''e'' = Some r" "er_account_id r = ''acc1''"
  shows "\<exists>resp evs db'. ep_next env dberr True (Some ex_principal) (EqUpdate False False ''u'' ''e'' [(''host'', RStr h)]) (s, db) = ((resp, evs), s, db')
    \<and> (\<exists>r'. row_of db' ''e'' = Some r' \<and> er_account_id r' = ''acc1'' \<and> row_addr r' = (h, er_port r)
        \<and> row_pin r' = (if er_host r = h then row_pin r else None))"
proof -
  have get: "es_GetForAccount False ''e'' ''acc1'' db = Inr (Some (fromRow ''e'' r))"
    using assms by (simp add: es_GetForAccount_def GetEndpointForAccount_def)
  have acc: "acc_of (Some ex_principal) = ''acc1''" by (simp add: acc_of_def ex_principal_def)
  have chk: "check_body [(''host'', RStr h)] = None" "\<not> IsID ''e''"
    by (simp_all add: check_body_def normalizeDescription_def IsID_def IDPrefix_def)
  let ?m = "merge_body [(''host'', RStr h)] None (fromRow ''e'' r)"
  have m: "se_ID ?m = ''e''" "se_AccountID ?m = ''acc1''" "se_Host ?m = h" "se_Port ?m = er_port r"
    using assms(2) by (simp_all add: merge_body_def fromRow_def field_or_def raw_jsonString_def)
  obtain b db2 where up: "es_Update False ''u'' ?m db = (Inr b, db2)" 
    by (cases "UpdateEndpoint ''u'' ?m db") (simp add: es_Update_def)
  obtain resp evs where run: "endpoints_update dberr False False True ''u'' ''acc1'' ''e'' [(''host'', RStr h)] id db =
      ((resp, evs), snd (es_Update False ''u'' ?m db))"
    using up by (simp add: endpoints_update_def chk get Let_def)
  have "\<exists>r'. row_of (ep_step (EpUpdate False ''u'' ?m) db) ''e'' = Some r' \<and> row_addr r' = (h, er_port r) \<and> er_account_id r' = ''acc1''
      \<and> row_pin r' = (if er_host r = h then row_pin r else None)"
    using assms m by (auto simp: ep_dbs update_rows_Some row_pin_def row_addr_def)
  then show ?thesis using run by (auto simp: acc)
qed

theorem web_host_key_changes_witness:
  "\<forall>env dberr s. \<exists>resp evs db' r'. ep_next env dberr True (Some ex_principal) (EqUpdate False False ''u'' ''e'' [(''host'', RStr ''evil'')])
       (s, ex_pinned_db) = ((resp, evs), s, db') \<and> row_of db' ''e'' = Some r' \<and> row_pin r' = None \<and> map he_Fingerprint evs = [''SHA256:k'']"
proof (intro allI)
  fix env dberr s
  have r: "row_of ex_pinned_db ''e'' = Some ex_pinned_row" "er_account_id ex_pinned_row = ''acc1''"
    by (simp_all add: ex_pinned_db_def ex_pinned_row_def)
  obtain resp evs db' r' where step: "ep_next env dberr True (Some ex_principal) (EqUpdate False False ''u'' ''e'' [(''host'', RStr ''evil'')])
       (s, ex_pinned_db) = ((resp, evs), s, db')" "row_of db' ''e'' = Some r'" "row_pin r' = None"
    using ex_move [OF r, of env dberr "''evil''" s] by (auto simp: ex_pinned_row_def ex_unpinned_def)
  have "row_pin ex_pinned_row \<noteq> None" "er_host_key_fingerprint ex_pinned_row = Some ''SHA256:k''"
    by (simp_all add: ex_pinned_row_def row_pin_def)
  with web_host_key_changes [OF step(1) r(1)] step(2,3) have "map he_Fingerprint evs = [''SHA256:k'']" by (auto simp: audited_def)
  with step show "\<exists>resp evs db' r'. ep_next env dberr True (Some ex_principal) (EqUpdate False False ''u'' ''e'' [(''host'', RStr ''evil'')])
       (s, ex_pinned_db) = ((resp, evs), s, db') \<and> row_of db' ''e'' = Some r' \<and> row_pin r' = None \<and> map he_Fingerprint evs = [''SHA256:k'']"
    by (intro exI conjI)
qed

text \<open>
  Forgetting a key needs a step-up token, but moving the endpoint away and back does not, and has the
  same effect: the endpoint has its address again and no key.
\<close>

theorem key_forgotten_without_stepup:
  assumes "row_of db ''e'' = Some r" "er_account_id r = ''acc1''" "h \<noteq> er_host r"
  shows "\<exists>x y db1 db2 r2. ep_next env dberr True (Some ex_principal) (EqUpdate False False ''u'' ''e'' [(''host'', RStr h)]) (s, db) = (x, s, db1)
    \<and> ep_next env dberr True (Some ex_principal) (EqUpdate False False ''u'' ''e'' [(''host'', RStr (er_host r))]) (s, db1) = (y, s, db2)
    \<and> row_of db2 ''e'' = Some r2 \<and> row_addr r2 = row_addr r \<and> row_pin r2 = None"
proof -
  obtain x db1 r1 where one: "ep_next env dberr True (Some ex_principal) (EqUpdate False False ''u'' ''e'' [(''host'', RStr h)]) (s, db) = (x, s, db1)"
    "row_of db1 ''e'' = Some r1" "er_account_id r1 = ''acc1''" "row_addr r1 = (h, er_port r)" "row_pin r1 = None"
    using ex_move [OF assms(1,2), of env dberr h s] assms(3) by auto
  obtain y db2 r2 where two: "ep_next env dberr True (Some ex_principal) (EqUpdate False False ''u'' ''e'' [(''host'', RStr (er_host r))]) (s, db1) = (y, s, db2)"
    "row_of db2 ''e'' = Some r2" "row_addr r2 = (er_host r, er_port r1)" "row_pin r2 = (if er_host r1 = er_host r then row_pin r1 else None)"
    using ex_move [OF one(2,3), of env dberr "er_host r" s] by auto
  have "row_addr r2 = row_addr r" using two(3) one(4) by (simp add: row_addr_def)
  moreover have "row_pin r2 = None" using two(4) one(5) by simp
  ultimately show ?thesis using one(1) two(1,2) by blast
qed

text \<open>Creating needs a label and a host; an update may blank both.\<close>

theorem update_accepts_blank_host:
  assumes "row_of db ''e'' = Some r" "er_account_id r = ''acc1''"
  shows "\<exists>x db' r'. ep_next env dberr True (Some ex_principal) (EqUpdate False False ''u'' ''e'' [(''host'', RStr [])]) (s, db) = (x, s, db')
    \<and> row_of db' ''e'' = Some r' \<and> er_host r' = []"
  using ex_move [OF assms, of env dberr "[]" s] by (auto simp: row_addr_def)

end
