(* ===== verification/Rest_Sessions.thy ===== *)
theory Rest_Sessions
  imports Rest_Endpoints Ws_Hub "HOL-Library.Multiset" "HOL-Library.Sublist"
begin

text \<open>
  \<open>src/internal/rest/sessions.go\<close> and \<open>authsessions.go\<close>: terminal sessions and OAuth grants over HTTP.

  The registry is that of \<open>Terminal_Manager\<close>, Hydra's admin interface that of \<open>Hydra_Admin\<close> with its
  requests as a trace. \<open>fmt\<close> formats an instant, \<open>txt\<close> converts output to a string, \<open>order\<close> is the
  order in which a Go map is iterated.
\<close>

section \<open>Terminal sessions\<close>

definition strPtrIf :: "string \<Rightarrow> string option" where
  "strPtrIf s = (if s = [] then None else Some s)"

text \<open>\<open>omitempty\<close>: a nil pointer has no field.\<close>

definition omitempty :: "string \<Rightarrow> string option \<Rightarrow> (string \<times> json) list" where
  "omitempty k p = (case p of None \<Rightarrow> [] | Some v \<Rightarrow> [(k, JStr v)])"

definition toSessionDTO :: "(time \<Rightarrow> string) \<Rightarrow> session \<Rightarrow> json" where
  "toSessionDTO fmt s =
     JObj ([(''accountId'', JStr (s_AccountID s))]
       @ omitempty ''closeReason'' (strPtrIf (reason_str (s_CloseReason s)))
       @ [(''createdAt'', JStr (fmt (s_CreatedAt s))), (''endpointId'', JStr (s_EndpointID s)),
          (''lastActivityAt'', JStr (fmt (s_LastActivityAt s)))]
       @ omitempty ''mcpClientName'' (strPtrIf (s_MCPClientName s))
       @ omitempty ''mcpClientVersion'' (strPtrIf (s_MCPClientVer s))
       @ omitempty ''mcpReason'' (strPtrIf (s_MCPReason s))
       @ omitempty ''ownerClientId'' (strPtrIf (s_OwnerClientID s))
       @ [(''sessionId'', JStr (s_SessionID s)), (''source'', JStr (source_str (s_Source s)))]
       @ omitempty ''sourceIp'' (strPtrIf (s_SourceIP s))
       @ [(''status'', JStr (sess_status_str (s_Status s)))])"

text \<open>
  \<open>cap\<close> is \<open>MaxSessions\<close>; \<open>notified\<close> the id of the notification a failed connection has already published.
\<close>

definition sessions_create ::
  "(time \<Rightarrow> string) \<Rightarrow> (string \<Rightarrow> byte list) \<Rightarrow> bool \<Rightarrow> int option \<Rightarrow> demo option \<Rightarrow> sw_db \<Rightarrow> (manager \<Rightarrow> manager) \<Rightarrow> string \<Rightarrow> time \<Rightarrow>
   string + transport \<Rightarrow> (manager \<Rightarrow> manager) \<Rightarrow> string option \<Rightarrow> string \<Rightarrow> string \<Rightarrow> string \<Rightarrow> raw_body \<Rightarrow> manager \<Rightarrow> http_resp \<times> manager"
where
  "sessions_create fmt sha256 flt cap dm db between sid now outcome env notified io realip acct body m =
     (if (case cap of None \<Rightarrow> False | Some mx \<Rightarrow> int (CountOpenForAccount acct m) \<ge> mx)
      then (apierr_Write 429 (''Maximum concurrent sessions ('' @ Itoa (the cap) @ '') reached''), m)
      else case RefForAccount sha256 flt (stringField body ''endpointId'') acct dm db of
             Inr (Some ref) \<Rightarrow>
               (case Create sid now ref acct
                    \<lparr>t_Kind = SourceUI, t_SourceIP = realip, t_Reason = [], t_OwnerClientID = [], t_MCPClientName = [], t_MCPClientVer = []\<rparr>
                    outcome env (between m) of
                  (Inl e, m) \<Rightarrow>
                    (case notified of
                       Some nid \<Rightarrow> (WriteNotified 400 (mgr_error_str io e) nid, m)
                     | None \<Rightarrow> (apierr_Write 400 (mgr_error_str io e), m))
                | (Inr s, m) \<Rightarrow> ((200, toSessionDTO fmt s), m))
           | _ \<Rightarrow> (apierr_Write 404 ''Endpoint not found'', m))"

definition sessions_list :: "(time \<Rightarrow> string) \<Rightarrow> string \<Rightarrow> manager \<Rightarrow> http_resp" where
  "sessions_list fmt acct m = (200, JObj [(''sessions'', JArr (map (toSessionDTO fmt) (ListForAccount acct m)))])"

definition tail_limit :: "string \<Rightarrow> int" where
  "tail_limit q =
     (if q = [] then 2000
      else case Atoi q of
             None \<Rightarrow> 2000
           | Some n \<Rightarrow> if n > 0 then (if n > 8000 then 8000 else n) else 2000)"

definition sessions_tail :: "(byte list \<Rightarrow> string) \<Rightarrow> string \<Rightarrow> string \<Rightarrow> string \<Rightarrow> manager \<Rightarrow> http_resp" where
  "sessions_tail txt acct sid q m =
     (case GetSession sid m of
        None \<Rightarrow> apierr_Write 404 ''Session not found''
      | Some s \<Rightarrow>
          if s_AccountID s \<noteq> acct then apierr_Write 404 ''Session not found''
          else (200, JObj [(''data'', JStr (txt (ReadOutputTail sid (tail_limit q) m)))]))"

definition sessions_close :: "join \<Rightarrow> string \<Rightarrow> string \<Rightarrow> manager \<Rightarrow> http_resp \<times> manager" where
  "sessions_close j acct sid m =
     (case GetSession sid m of
        None \<Rightarrow> (apierr_Write 404 ''Session not found'', m)
      | Some s \<Rightarrow>
          if s_AccountID s \<noteq> acct then (apierr_Write 404 ''Session not found'', m)
          else ((200, JObj [(''status'', JStr ''closed'')]), Close sid CloseClientUI j m))"

section \<open>Grants\<close>

record auth_view =
  av_ClientId :: string
  av_ClientName :: string
  av_Scopes :: "string list"
  av_AuthorizedAt :: "string option"
  av_CreatedAt :: "string option"
  av_Current :: bool

text \<open>\<open>strOr\<close> is \<open>str_of\<close>, \<open>nzp\<close> is \<open>nz\<close>; \<open>view_of\<close> is the row the loop stores.\<close>

definition view_of :: "string \<Rightarrow> consent_session \<Rightarrow> oauth2_client \<Rightarrow> auth_view" where
  "view_of spa s client =
     \<lparr>av_ClientId = oc_ClientID client,
      av_ClientName = (if oc_ClientName client = [] then oc_ClientID client else oc_ClientName client),
      av_Scopes = cs_GrantScope s, av_AuthorizedAt = nz (cs_HandledAt s), av_CreatedAt = nz (oc_CreatedAt client),
      av_Current = (oc_ClientID client = spa)\<rparr>"

definition collapse_one :: "string \<Rightarrow> consent_session \<Rightarrow> (string, auth_view) gomap \<Rightarrow> (string, auth_view) gomap" where
  "collapse_one spa s byClient =
     (case cs_Client s of
        None \<Rightarrow> byClient
      | Some client \<Rightarrow>
          if oc_ClientID client = [] then byClient
          else let handledAt = nz (cs_HandledAt s) in
               if (case map_of byClient (oc_ClientID client) of None \<Rightarrow> False
                   | Some ex \<Rightarrow> str_of (av_AuthorizedAt ex) \<ge> str_of handledAt)
               then byClient
               else AList.update (oc_ClientID client) (view_of spa s client) byClient)"

text \<open>\<open>sort.SliceStable\<close>: an element goes behind those it is not less than.\<close>

fun insert_stable :: "('a \<Rightarrow> 'a \<Rightarrow> bool) \<Rightarrow> 'a \<Rightarrow> 'a list \<Rightarrow> 'a list" where
  "insert_stable lt x [] = [x]"
| "insert_stable lt x (y # ys) = (if lt x y then x # y # ys else y # insert_stable lt x ys)"

definition slice_stable :: "('a \<Rightarrow> 'a \<Rightarrow> bool) \<Rightarrow> 'a list \<Rightarrow> 'a list" where
  "slice_stable lt xs = foldl (\<lambda>acc x. insert_stable lt x acc) [] xs"

definition view_less :: "auth_view \<Rightarrow> auth_view \<Rightarrow> bool" where
  "view_less a b = (if av_Current a \<noteq> av_Current b then av_Current a else str_of (av_AuthorizedAt b) < str_of (av_AuthorizedAt a))"

definition grants_view :: "string \<Rightarrow> (auth_view list \<Rightarrow> auth_view list) \<Rightarrow> consent_session list \<Rightarrow> auth_view list" where
  "grants_view spa order sessions = slice_stable view_less (order (map snd (fold (collapse_one spa) sessions [])))"

definition auth_view_json :: "auth_view \<Rightarrow> json" where
  "auth_view_json v =
     JObj [(''clientId'', JStr (av_ClientId v)), (''clientName'', JStr (av_ClientName v)), (''scopes'', JArr (map JStr (av_Scopes v))),
           (''authorizedAt'', nullable_opt (av_AuthorizedAt v)), (''createdAt'', nullable_opt (av_CreatedAt v)),
           (''current'', JBool (av_Current v))]"

definition authsessions_list ::
  "hydra_env \<Rightarrow> string \<Rightarrow> (auth_view list \<Rightarrow> auth_view list) \<Rightarrow> string \<Rightarrow> sent \<Rightarrow> http_resp \<times> sent"
where
  "authsessions_list hy spa order acct tr =
     (case ListConsentSessions hy acct tr of
        (Inl _, tr) \<Rightarrow> (apierr_Write 500 ''internal error'', tr)
      | (Inr sessions, tr) \<Rightarrow> ((200, JObj [(''sessions'', JArr (map auth_view_json (grants_view spa order sessions)))]), tr))"

text \<open>
  \<open>clientID\<close> is \<open>url.PathUnescape\<close> of the segment, \<open>None\<close> its error; \<open>closer\<close> says whether
  \<open>CloseClientSessions\<close> is wired, as it is in the composition root.
\<close>

definition close_client :: "bool \<Rightarrow> (string \<Rightarrow> join) \<Rightarrow> string \<Rightarrow> string \<Rightarrow> manager \<Rightarrow> manager" where
  "close_client closer j acct clientID m = (if closer then snd (CloseAllForClient acct clientID CloseAgentDisconnect j m) else m)"

definition authsessions_revoke ::
  "hydra_env \<Rightarrow> bool \<Rightarrow> (string \<Rightarrow> join) \<Rightarrow> string \<Rightarrow> string option \<Rightarrow> sent \<Rightarrow> manager \<Rightarrow> http_resp \<times> sent \<times> manager"
where
  "authsessions_revoke hy closer j acct clientID tr m =
     (case clientID of
        None \<Rightarrow> (apierr_Write 400 ''invalid clientId encoding'', tr, m)
      | Some c \<Rightarrow>
          (case RevokeConsentSessions hy acct c tr of
             (Inl _, tr) \<Rightarrow> (apierr_Write 500 ''internal error'', tr, m)
           | (Inr _, tr) \<Rightarrow> (status_resp ''revoked'', tr, close_client closer j acct c m)))"

definition authsessions_revokeAll ::
  "hydra_env \<Rightarrow> bool \<Rightarrow> (string \<Rightarrow> join) \<Rightarrow> string \<Rightarrow> sent \<Rightarrow> manager \<Rightarrow> http_resp \<times> sent \<times> manager"
where
  "authsessions_revokeAll hy closer j acct tr m =
     (case RevokeConsentSessions hy acct [] tr of
        (Inl _, tr) \<Rightarrow> (apierr_Write 500 ''internal error'', tr, m)
      | (Inr _, tr) \<Rightarrow>
          (case RevokeLoginSessions hy acct tr of
             (Inl _, tr) \<Rightarrow> (apierr_Write 500 ''internal error'', tr, m)
           | (Inr _, tr) \<Rightarrow> (status_resp ''revoked_all'', tr, close_client closer j acct [] m)))"

text \<open>The two revocations behind the step-up middleware.\<close>

datatype grant_request = GrRevoke "string option" | GrRevokeAll

definition grant_action :: "grant_request \<Rightarrow> string" where
  "grant_action rq = (case rq of GrRevoke _ \<Rightarrow> ''revoke_session'' | GrRevokeAll \<Rightarrow> ''revoke_all_sessions'')"

definition grant_route ::
  "hydra_env \<Rightarrow> bool \<Rightarrow> (string \<Rightarrow> join) \<Rightarrow> time \<Rightarrow> principal option \<Rightarrow> string \<Rightarrow> grant_request \<Rightarrow> stepup_store \<times> sent \<times> manager \<Rightarrow>
   http_resp \<times> stepup_store \<times> sent \<times> manager"
where
  "grant_route hy closer j now pr hdr rq st =
     (case st of (s, tr, m) \<Rightarrow>
        (case RequireStepUp (grant_action rq) now pr hdr s of
           (Some r, s) \<Rightarrow> (r, s, tr, m)
         | (None, s) \<Rightarrow>
             (case (case rq of GrRevoke c \<Rightarrow> authsessions_revoke hy closer j (acc_of pr) c tr m
                    | GrRevokeAll \<Rightarrow> authsessions_revokeAll hy closer j (acc_of pr) tr m) of
                (r, tr, m) \<Rightarrow> (r, s, tr, m))))"

section \<open>The list of grants\<close>

definition granted_to :: "string \<Rightarrow> consent_session \<Rightarrow> bool" where
  "granted_to cid s \<longleftrightarrow> cid \<noteq> [] \<and> (\<exists>c. cs_Client s = Some c \<and> oc_ClientID c = cid)"

definition newest_grant :: "string \<Rightarrow> consent_session list \<Rightarrow> string \<Rightarrow> auth_view \<Rightarrow> bool" where
  "newest_grant spa ss cid v \<longleftrightarrow>
     (\<exists>s\<in>set ss. granted_to cid s \<and> v = view_of spa s (the (cs_Client s))
        \<and> (\<forall>s'\<in>set ss. granted_to cid s' \<longrightarrow> cs_HandledAt s' \<le> cs_HandledAt s))"

definition best_row :: "string \<Rightarrow> consent_session list \<Rightarrow> string \<Rightarrow> auth_view option \<Rightarrow> bool" where
  "best_row spa ss cid vo \<longleftrightarrow> (case vo of None \<Rightarrow> \<forall>s\<in>set ss. \<not> granted_to cid s | Some v \<Rightarrow> newest_grant spa ss cid v)"

definition collapsed :: "string \<Rightarrow> consent_session list \<Rightarrow> (string, auth_view) gomap \<Rightarrow> bool" where
  "collapsed spa ss bc \<longleftrightarrow> distinct (map fst bc) \<and> (\<forall>cid. best_row spa ss cid (map_of bc cid))"

lemma str_of_nz [simp]: "str_of (nz h) = h"
  by (simp add: str_of_def nz_def)

lemma newest_grant_view: "newest_grant spa ss cid v \<Longrightarrow> av_ClientId v = cid"
  by (auto simp: newest_grant_def granted_to_def view_of_def)

lemma best_row_skip:
  assumes "\<not> granted_to cid s"
  shows "best_row spa (ss @ [s]) cid vo \<longleftrightarrow> best_row spa ss cid vo"
  using assms by (cases vo) (auto simp: best_row_def newest_grant_def)

lemma best_row_keep:
  assumes "best_row spa ss cid (Some v)" "cs_HandledAt s \<le> str_of (av_AuthorizedAt v)"
  shows "best_row spa (ss @ [s]) cid (Some v)"
  using assms by (auto simp: best_row_def newest_grant_def view_of_def)

lemma best_row_replace:
  assumes "best_row spa ss cid vo" "case vo of None \<Rightarrow> True | Some v \<Rightarrow> str_of (av_AuthorizedAt v) < cs_HandledAt s"
    and "granted_to cid s" "cs_Client s = Some c"
  shows "best_row spa (ss @ [s]) cid (Some (view_of spa s c))"
proof -
  have "cs_HandledAt s' \<le> cs_HandledAt s" if "s' \<in> set ss" "granted_to cid s'" for s'
  proof (cases vo)
    case None
    with assms(1) that show ?thesis by (simp add: best_row_def)
  next
    case (Some v)
    with assms(1) that have "cs_HandledAt s' \<le> str_of (av_AuthorizedAt v)"
      by (auto simp: best_row_def newest_grant_def view_of_def)
    with assms(2) Some show ?thesis by simp
  qed
  with assms(3,4) show ?thesis by (auto simp: best_row_def newest_grant_def intro!: bexI [of _ s])
qed

lemma collapsed_step:
  assumes "collapsed spa ss bc"
  shows "collapsed spa (ss @ [s]) (collapse_one spa s bc)"
proof (cases "\<exists>cid. granted_to cid s")
  case False
  then have "collapse_one spa s bc = bc" by (auto simp: collapse_one_def granted_to_def split: option.split)
  with False assms show ?thesis by (simp add: collapsed_def best_row_skip)
next
  case True
  then obtain c where c: "cs_Client s = Some c" "oc_ClientID c \<noteq> []" by (auto simp: granted_to_def)
  define cid where "cid = oc_ClientID c"
  have here: "granted_to cid s" and other: "x \<noteq> cid \<Longrightarrow> \<not> granted_to x s" for x using c by (auto simp: granted_to_def cid_def)
  define keep where "keep = (case map_of bc cid of None \<Rightarrow> False | Some ex \<Rightarrow> cs_HandledAt s \<le> str_of (av_AuthorizedAt ex))"
  have form: "collapse_one spa s bc = (if keep then bc else AList.update cid (view_of spa s c) bc)"
    using c by (simp add: collapse_one_def keep_def cid_def split: option.split)
  have old: "best_row spa ss x (map_of bc x)" for x using assms by (simp add: collapsed_def)
  have "best_row spa (ss @ [s]) x (map_of (collapse_one spa s bc) x)" for x
  proof (cases "x = cid")
    case False
    with old [of x] other show ?thesis by (simp add: form update_conv best_row_skip)
  next
    case same: True
    show ?thesis
    proof (cases keep)
      case True
      then obtain ex where "map_of bc cid = Some ex" "cs_HandledAt s \<le> str_of (av_AuthorizedAt ex)"
        by (auto simp: keep_def split: option.splits)
      with True same old [of cid] show ?thesis by (simp add: form best_row_keep)
    next
      case False
      then have "case map_of bc cid of None \<Rightarrow> True | Some v \<Rightarrow> str_of (av_AuthorizedAt v) < cs_HandledAt s"
        by (auto simp: keep_def split: option.splits)
      from best_row_replace [OF old this here c(1)] False same show ?thesis by (simp add: form update_conv)
    qed
  qed
  with assms show ?thesis by (simp add: collapsed_def form distinct_update)
qed

lemma collapsed_fold: "collapsed spa ss (fold (collapse_one spa) ss [])"
  by (induction ss rule: rev_induct) (simp add: collapsed_def best_row_def, simp add: collapsed_step)

lemma mset_insert_stable [simp]: "mset (insert_stable lt x xs) = add_mset x (mset xs)"
  by (induction xs) auto

lemma mset_slice_stable [simp]: "mset (slice_stable lt xs) = mset xs"
proof -
  have "mset (foldl (\<lambda>acc x. insert_stable lt x acc) ys xs) = mset ys + mset xs" for ys
    by (induction xs arbitrary: ys) auto
  then show ?thesis by (simp add: slice_stable_def)
qed

lemma set_insert_stable: "set (insert_stable lt x xs) = insert x (set xs)"
  by (induction xs) auto

text \<open>A strict weak order.\<close>

locale weak_order =
  fixes lt :: "'a \<Rightarrow> 'a \<Rightarrow> bool"
  assumes lt_asym: "lt x y \<Longrightarrow> \<not> lt y x"
    and not_lt_trans: "\<not> lt y x \<Longrightarrow> \<not> lt z y \<Longrightarrow> \<not> lt z x"
begin

lemma sorted_insert_stable:
  "sorted_wrt (\<lambda>a b. \<not> lt b a) xs \<Longrightarrow> sorted_wrt (\<lambda>a b. \<not> lt b a) (insert_stable lt x xs)"
  by (induction xs) (auto simp: set_insert_stable dest: lt_asym, blast dest: lt_asym not_lt_trans)

lemma sorted_slice_stable: "sorted_wrt (\<lambda>a b. \<not> lt b a) (slice_stable lt xs)"
proof -
  have "sorted_wrt (\<lambda>a b. \<not> lt b a) ys \<Longrightarrow> sorted_wrt (\<lambda>a b. \<not> lt b a) (foldl (\<lambda>acc x. insert_stable lt x acc) ys xs)" for ys
    by (induction xs arbitrary: ys) (auto simp: sorted_insert_stable)
  from this [of "[]"] show ?thesis by (simp add: slice_stable_def)
qed

end

interpretation vw: weak_order view_less
  by unfold_locales (auto simp: view_less_def split: if_splits)

text \<open>
  C26: the list of authorized clients. In whatever order Go iterates its map, the list names each
  client that holds a grant exactly once, in the row of its most recently handled grant; the web
  interface's own client comes first and the others newest first.
\<close>

theorem grants_view_spec:
  assumes "\<And>xs. mset (order xs) = mset xs"
  shows "distinct (map av_ClientId (grants_view spa order ss))
    \<and> (\<forall>v\<in>set (grants_view spa order ss). newest_grant spa ss (av_ClientId v) v)
    \<and> (\<forall>cid. (\<exists>s\<in>set ss. granted_to cid s) \<longleftrightarrow> cid \<in> av_ClientId ` set (grants_view spa order ss))
    \<and> sorted_wrt (\<lambda>a b. (av_Current b \<longrightarrow> av_Current a)
        \<and> (av_Current a = av_Current b \<longrightarrow> str_of (av_AuthorizedAt b) \<le> str_of (av_AuthorizedAt a))) (grants_view spa order ss)"
proof -
  define bc where "bc = fold (collapse_one spa) ss []"
  have bc: "distinct (map fst bc)"
    "\<And>cid. case map_of bc cid of None \<Rightarrow> \<forall>s\<in>set ss. \<not> granted_to cid s | Some v \<Rightarrow> newest_grant spa ss cid v"
    using collapsed_fold [of spa ss] by (simp_all add: collapsed_def best_row_def bc_def)
  have ms: "mset (grants_view spa order ss) = mset (map snd bc)"
    by (simp add: grants_view_def assms bc_def)
  then have sets: "set (grants_view spa order ss) = snd ` set bc" by (metis set_map set_mset_mset)
  have row: "newest_grant spa ss cid v" if "(cid, v) \<in> set bc" for cid v
    using bc(2) [of cid] that bc(1) by simp
  have key: "fst e = av_ClientId (snd e)" if "e \<in> set bc" for e
    using newest_grant_view [of spa ss "fst e" "snd e"] row [of "fst e" "snd e"] that by simp
  have "mset (map av_ClientId (grants_view spa order ss)) = mset (map fst bc)"
    using ms key by (metis (no_types, lifting) list.map_comp comp_apply map_cong mset_map)
  then have "distinct (map av_ClientId (grants_view spa order ss))" using bc(1) by (metis mset_eq_imp_distinct_iff)
  moreover have "\<forall>v\<in>set (grants_view spa order ss). newest_grant spa ss (av_ClientId v) v"
    using row key by (auto simp: sets)
  moreover have "\<forall>cid. (\<exists>s\<in>set ss. granted_to cid s) \<longleftrightarrow> cid \<in> av_ClientId ` set (grants_view spa order ss)"
  proof
    fix cid
    have "cid \<in> av_ClientId ` set (grants_view spa order ss) \<longleftrightarrow> cid \<in> fst ` set bc"
      using key by (force simp: sets image_iff)
    also have "\<dots> \<longleftrightarrow> map_of bc cid \<noteq> None" by (simp add: map_of_eq_None_iff)
    finally show "(\<exists>s\<in>set ss. granted_to cid s) \<longleftrightarrow> cid \<in> av_ClientId ` set (grants_view spa order ss)"
      using bc(2) [of cid] by (auto simp: newest_grant_def split: option.splits)
  qed
  moreover have "sorted_wrt (\<lambda>a b. \<not> view_less b a) (grants_view spa order ss)"
    by (simp add: grants_view_def vw.sorted_slice_stable)
  then have "sorted_wrt (\<lambda>a b. (av_Current b \<longrightarrow> av_Current a)
      \<and> (av_Current a = av_Current b \<longrightarrow> str_of (av_AuthorizedAt b) \<le> str_of (av_AuthorizedAt a))) (grants_view spa order ss)"
    by (rule sorted_wrt_mono_rel [rotated]) (auto simp: view_less_def split: if_splits)
  ultimately show ?thesis by blast
qed

definition ex_grants :: "consent_session list" where
  "ex_grants = [\<lparr>cs_GrantScope = [''mcp''], cs_HandledAt = ''2026-01-01'', cs_Client = Some (zero_client\<lparr>oc_ClientID := ''cli''\<rparr>)\<rparr>,
     \<lparr>cs_GrantScope = [''ui''], cs_HandledAt = ''2025-01-01'', cs_Client = Some (zero_client\<lparr>oc_ClientID := ''web''\<rparr>)\<rparr>,
     \<lparr>cs_GrantScope = [''mcp'', ''agent''], cs_HandledAt = ''2026-03-01'', cs_Client = Some (zero_client\<lparr>oc_ClientID := ''cli''\<rparr>)\<rparr>]"

lemma ex_grants_view: "map (\<lambda>v. (av_ClientId v, av_AuthorizedAt v)) (grants_view ''web'' rev ex_grants) =
    [(''web'', Some ''2025-01-01''), (''cli'', Some ''2026-03-01'')]"
  by code_simp

theorem grants_view_spec_witness:
  "map (\<lambda>v. (av_ClientId v, av_AuthorizedAt v)) (grants_view ''web'' rev ex_grants) =
     [(''web'', Some ''2025-01-01''), (''cli'', Some ''2026-03-01'')]
   \<and> distinct (map av_ClientId (grants_view ''web'' rev ex_grants))"
  using grants_view_spec [of rev "''web''" ex_grants] ex_grants_view by simp

section \<open>Revocation\<close>

lemma RevokeConsentSessions_sent [simp]:
  "snd (RevokeConsentSessions hy acct c tr) =
     tr @ [admin_rq hy ''DELETE'' (''/admin/oauth2/auth/sessions/consent?subject='' @ QueryEscape acct
             @ (if c \<noteq> [] then ''&client='' @ QueryEscape c else ''&all=true'')) NoBody]"
proof -
  have "snd (tolerate_404 x) = snd x" for x by (cases x) (auto simp: tolerate_404_def split: sum.split admin_error.split)
  then show ?thesis by (simp add: RevokeConsentSessions_def Let_def)
qed

lemma RevokeLoginSessions_sent [simp]:
  "snd (RevokeLoginSessions hy acct tr) =
     tr @ [admin_rq hy ''DELETE'' (''/admin/oauth2/auth/sessions/login?subject='' @ QueryEscape acct) NoBody]"
proof -
  have "snd (tolerate_404 x) = snd x" for x by (cases x) (auto simp: tolerate_404_def split: sum.split admin_error.split)
  then show ?thesis by (simp add: RevokeLoginSessions_def)
qed

text \<open>The requests a revocation stands for, and the sessions it ends.\<close>

definition revocations :: "hydra_env \<Rightarrow> string \<Rightarrow> grant_request \<Rightarrow> admin_request list" where
  "revocations hy acct rq =
     (let path = ''/admin/oauth2/auth/sessions/consent?subject='' @ QueryEscape acct in
      case rq of
        GrRevoke None \<Rightarrow> []
      | GrRevoke (Some c) \<Rightarrow> [admin_rq hy ''DELETE'' (path @ (if c \<noteq> [] then ''&client='' @ QueryEscape c else ''&all=true'')) NoBody]
      | GrRevokeAll \<Rightarrow> [admin_rq hy ''DELETE'' (path @ ''&all=true'') NoBody,
                        admin_rq hy ''DELETE'' (''/admin/oauth2/auth/sessions/login?subject='' @ QueryEscape acct) NoBody])"

definition agent_session_of :: "string \<Rightarrow> string \<Rightarrow> session \<Rightarrow> bool" where
  "agent_session_of acct c s \<longleftrightarrow> s_AccountID s = acct \<and> s_Source s = SourceMCP \<and> (c = [] \<or> s_OwnerClientID s = c)"

definition covered :: "string \<Rightarrow> grant_request \<Rightarrow> session \<Rightarrow> bool" where
  "covered acct rq s = (case rq of GrRevoke None \<Rightarrow> False | GrRevoke (Some c) \<Rightarrow> agent_session_of acct c s | GrRevokeAll \<Rightarrow> agent_session_of acct [] s)"

lemma closeAll_inv: "mgr_inv m \<Longrightarrow> mgr_inv (closeAll ids r j m)"
  by (induction ids arbitrary: m) (simp_all add: Close_inv)

lemma closeAll_managed_other: "mgr_inv m \<Longrightarrow> sid \<notin> set ids \<Longrightarrow> managed_of sid (closeAll ids r j m) = managed_of sid m"
  by (induction ids arbitrary: m) (simp_all add: Close_inv Close_local)

lemma closeAll_ended:
  "mgr_inv m \<Longrightarrow> sid \<in> set ids \<Longrightarrow> managed_of sid (closeAll ids r j m) = Some mg \<Longrightarrow>
     s_Status (mg_session mg) \<in> {StatusClosing, StatusClosed}"
proof (induction ids arbitrary: m)
  case (Cons x ids)
  show ?case
  proof (cases "sid \<in> set ids")
    case True
    from Cons.IH [OF Close_inv [OF Cons.prems(1)] this] Cons.prems(3) show ?thesis by simp
  next
    case False
    with Cons.prems have "sid = x" "managed_of x (Close x r (j x) m) = Some mg"
      by (simp_all add: closeAll_managed_other Close_inv)
    with Close_outcome [OF mgr_inv_wf(1) [OF Cons.prems(1)]] show ?thesis by (auto simp: managed_of_def)
  qed
qed simp

lemma select_ids_iff:
  assumes "mgr_inv m"
  shows "sid \<in> set (select_ids P m) \<longleftrightarrow> (\<exists>mg. managed_of sid m = Some mg \<and> P (mg_session mg))"
  using mgr_inv_wf(2) [OF assms] by (force simp: select_ids_def managed_of_def)

lemma close_client_spec:
  assumes "mgr_inv m"
  shows "managed_of sid m = Some mg \<Longrightarrow> \<not> agent_session_of acct c (mg_session mg) \<Longrightarrow> managed_of sid (close_client closer j acct c m) = Some mg"
    and "closer \<Longrightarrow> managed_of sid (close_client closer j acct c m) = Some mg \<Longrightarrow> agent_session_of acct c (mg_session mg) \<Longrightarrow>
      s_Status (mg_session mg) \<in> {StatusClosing, StatusClosed}"
proof -
  define P where "P = (\<lambda>s :: session. s_AccountID s = acct \<and> s_Source s = SourceMCP \<and> s_Status s \<noteq> StatusClosed \<and> (c = [] \<or> s_OwnerClientID s = c))"
  have cc: "close_client True j acct c m = closeAll (select_ids P m) CloseAgentDisconnect j m"
    by (simp add: close_client_def CloseAllForClient_def P_def Let_def)
  show "managed_of sid (close_client closer j acct c m) = Some mg"
    if "managed_of sid m = Some mg" "\<not> agent_session_of acct c (mg_session mg)"
  proof -
    have "sid \<notin> set (select_ids P m)" using that by (auto simp: select_ids_iff [OF assms] P_def agent_session_of_def)
    then show ?thesis using cc closeAll_managed_other [OF assms] that(1) by (cases closer) (simp_all add: close_client_def)
  qed
  show "s_Status (mg_session mg) \<in> {StatusClosing, StatusClosed}"
    if "closer" "managed_of sid (close_client closer j acct c m) = Some mg" "agent_session_of acct c (mg_session mg)"
  proof (cases "sid \<in> set (select_ids P m)")
    case True
    with that(1,2) cc show ?thesis by (simp only: closeAll_ended [OF assms True])
  next
    case False
    then have "managed_of sid m = Some mg" using that(1,2) cc closeAll_managed_other [OF assms] by simp
    with False that(3) show ?thesis by (auto simp: select_ids_iff [OF assms] P_def agent_session_of_def)
  qed
qed

text \<open>What a revocation that passed the middleware does.\<close>

lemma authsessions_cases:
  assumes "(case rq of GrRevoke c \<Rightarrow> authsessions_revoke hy closer j acct c tr m
            | GrRevokeAll \<Rightarrow> authsessions_revokeAll hy closer j acct tr m) = (r, tr', m')"
  obtains (failed) rs where "fst r \<noteq> 200" "m' = m" "tr' = tr @ rs" "prefix rs (revocations hy acct rq)"
    | (finished) c where "fst r = 200" "m' = close_client closer j acct c m" "tr' = tr @ revocations hy acct rq"
        "\<And>s. covered acct rq s \<longleftrightarrow> agent_session_of acct c s"
proof (cases rq)
  case (GrRevoke co)
  show thesis
  proof (cases co)
    case None
    with assms GrRevoke failed [of "[]"] show thesis by (auto simp: authsessions_revoke_def apierr_Write_def)
  next
    case (Some c)
    obtain x t where x: "RevokeConsentSessions hy acct c tr = (x, t)" by fastforce
    then have t: "t = tr @ revocations hy acct rq"
      using RevokeConsentSessions_sent [of hy acct c tr] GrRevoke Some by (simp add: revocations_def Let_def)
    show thesis
    proof (cases x)
      case (Inl e)
      with assms GrRevoke Some x t failed [of "revocations hy acct rq"] show thesis
        by (auto simp: authsessions_revoke_def apierr_Write_def)
    next
      case (Inr u)
      with assms GrRevoke Some x t finished [of c] show thesis
        by (auto simp: authsessions_revoke_def status_resp_def covered_def)
    qed
  qed
next
  case GrRevokeAll
  obtain x t where x: "RevokeConsentSessions hy acct [] tr = (x, t)" by fastforce
  obtain y u where y: "RevokeLoginSessions hy acct t = (y, u)" by fastforce
  define q1 where "q1 = admin_rq hy ''DELETE'' (''/admin/oauth2/auth/sessions/consent?subject='' @ QueryEscape acct @ ''&all=true'') NoBody"
  define q2 where "q2 = admin_rq hy ''DELETE'' (''/admin/oauth2/auth/sessions/login?subject='' @ QueryEscape acct) NoBody"
  have "t = snd (RevokeConsentSessions hy acct [] tr)" "u = snd (RevokeLoginSessions hy acct t)" by (simp_all only: x y snd_conv)
  then have t: "t = tr @ [q1]" "u = t @ [q2]" by (simp_all add: q1_def q2_def)
  have all: "revocations hy acct rq = [q1, q2]" by (simp add: GrRevokeAll q1_def q2_def revocations_def Let_def)
  show thesis
  proof (cases "x = Inr () \<and> y = Inr ()")
    case True
    with assms GrRevokeAll x y t all finished [of "[]"] show thesis
      by (auto simp: authsessions_revokeAll_def status_resp_def covered_def)
  next
    case False
    with assms GrRevokeAll x y t all failed [of "[q1]"] failed [of "[q1, q2]"] show thesis
      by (auto simp: authsessions_revokeAll_def apierr_Write_def split: sum.splits)
  qed
qed

text \<open>
  C21: revoking a grant. A request to revoke one client's grant or all grants sends Hydra nothing
  and closes nothing unless it carries a live step-up token of its own account for that very action.
  What it sends are revocations for the caller's account only, and every terminal session it does
  not cover (another account's, a browser's, another client's) keeps its record, transport and
  output. When it answers 200, everything was sent and no session of the revoked agent stays
  usable.
\<close>

theorem grant_revocation_scoped:
  assumes "mgr_reachable m" "grant_route hy closer j now pr hdr rq (s, tr, m) = (r, s', tr', m')"
  shows "\<exists>rs. tr' = tr @ rs \<and> prefix rs (revocations hy (acc_of pr) rq)
    \<and> (rs \<noteq> [] \<or> m' \<noteq> m \<longrightarrow> live_token (grant_action rq) now pr hdr s)
    \<and> (\<forall>sid mg. managed_of sid m = Some mg \<and> \<not> covered (acc_of pr) rq (mg_session mg) \<longrightarrow> managed_of sid m' = Some mg)
    \<and> (fst r = 200 \<longrightarrow> rs = revocations hy (acc_of pr) rq
        \<and> (closer \<longrightarrow> (\<forall>sid mg. managed_of sid m' = Some mg \<and> covered (acc_of pr) rq (mg_session mg)
              \<longrightarrow> s_Status (mg_session mg) \<in> {StatusClosing, StatusClosed})))"
proof (cases "fst (RequireStepUp (grant_action rq) now pr hdr s)")
  case (Some x)
  then have "r = x" "tr' = tr" "m' = m" using assms(2) by (auto simp: grant_route_def split: prod.splits)
  moreover have "fst x \<noteq> 200"
    using Some by (auto simp: RequireStepUp_def apierr_Write_def WriteCode_def split: option.splits prod.splits if_splits)
  ultimately show ?thesis by (intro exI [of _ "[]"]) simp
next
  case None
  then have token: "live_token (grant_action rq) now pr hdr s"
    by (cases pr) (auto simp: live_token_def RequireStepUp_pass, simp add: RequireStepUp_def)
  have "(case rq of GrRevoke c \<Rightarrow> authsessions_revoke hy closer j (acc_of pr) c tr m
      | GrRevokeAll \<Rightarrow> authsessions_revokeAll hy closer j (acc_of pr) tr m) = (r, tr', m')"
    using None assms(2) by (auto simp: grant_route_def split: prod.splits)
  then show ?thesis
  proof (cases rule: authsessions_cases)
    case (failed rs)
    with token show ?thesis by (intro exI [of _ rs]) simp
  next
    case (finished c)
    note ok = mgr_inv_reachable [OF assms(1)]
    have "managed_of sid m' = Some mg" if "managed_of sid m = Some mg \<and> \<not> covered (acc_of pr) rq (mg_session mg)" for sid mg
      using that finished(2,4) close_client_spec(1) [OF ok] by simp
    moreover have "s_Status (mg_session mg) \<in> {StatusClosing, StatusClosed}"
      if "closer" "managed_of sid m' = Some mg \<and> covered (acc_of pr) rq (mg_session mg)" for sid mg
      by (rule close_client_spec(2) [OF ok that(1), where sid = sid and acct = "acc_of pr" and c = c and j = j])
        (use that(2) finished(2,4) in simp_all)
    ultimately show ?thesis using token finished(3) prefix_order.refl by blast
  qed
qed

definition ex_revoke_hydra :: hydra_env where
  "ex_revoke_hydra = \<lparr>hy_base = ''http://hydra'', hy_srv = (\<lambda>_ _. Replied 204 []), hy_redirect = (\<lambda>_. None), hy_login = (\<lambda>_. None),
     hy_consent = (\<lambda>_. None), hy_logout = (\<lambda>_. None), hy_client = (\<lambda>_. None), hy_sessions = (\<lambda>_. None)\<rparr>"

theorem grant_revocation_scoped_witness:
  "\<exists>s' tr' m'. grant_route ex_revoke_hydra True (\<lambda>_. TimedOut) 5 (Some ex_principal) ''tk'' (GrRevoke (Some ''c1''))
       (snd (su_Mint 0 0 ''tk'' ''acc1'' ''revoke_session'' NewStepUpStore), [], ex_open) = (status_resp ''revoked'', s', tr', m')
     \<and> tr' = revocations ex_revoke_hydra ''acc1'' (GrRevoke (Some ''c1'')) \<and> length tr' = 1"
proof -
  let ?s = "snd (su_Mint 0 0 ''tk'' ''acc1'' ''revoke_session'' NewStepUpStore)"
  have acc: "acc_of (Some ex_principal) = ''acc1''" by (simp add: acc_of_def ex_principal_def)
  have "fst (RequireStepUp ''revoke_session'' 5 (Some ex_principal) ''tk'' ?s) = None"
    by (simp add: RequireStepUp_pass su_store_forms eph_Put_def eph_PutTTL_live_same NewStepUpStore_def stepUpTTL_def ex_principal_def)
  then obtain s' where s': "RequireStepUp ''revoke_session'' 5 (Some ex_principal) ''tk'' ?s = (None, s')" by (metis prod.collapse)
  obtain tr' where tr': "RevokeConsentSessions ex_revoke_hydra ''acc1'' ''c1'' [] = (Inr (), tr')"
    by (simp add: RevokeConsentSessions_def adminJSON_def send_def ex_revoke_hydra_def tolerate_404_def Let_def)
  obtain m' where "grant_route ex_revoke_hydra True (\<lambda>_. TimedOut) 5 (Some ex_principal) ''tk'' (GrRevoke (Some ''c1'')) (?s, [], ex_open) =
      (status_resp ''revoked'', s', tr', m')"
    by (simp add: grant_route_def grant_action_def s' acc authsessions_revoke_def tr')
  moreover from grant_revocation_scoped [OF ex_open_reachable this] have "tr' = revocations ex_revoke_hydra ''acc1'' (GrRevoke (Some ''c1''))"
    by (auto simp: status_resp_def acc)
  ultimately show ?thesis by (auto simp: revocations_def Let_def)
qed

end
