(* ===== verification/Mcp_Watcher.thy ===== *)
theory Mcp_Watcher
  imports Go_Strings "HOL-Library.List_Lexorder" "HOL-Library.Char_ord"
begin

text \<open>
  \<open>src/internal/mcp/resources.go\<close>, the watcher: it turns the output and the status changes of the
  session registry into resource notifications for the addresses a client has subscribed to.

  Each critical section of the mutex is one step. A debounce timer is armed, then expires, then runs
  \<open>fire\<close>; stopping it has no effect once it has expired. \<open>owned\<close> is the answer of the ownership check at
  that moment.
\<close>

section \<open>State and operations\<close>

definition sessionsResourceURI :: string where "sessionsResourceURI = ''shellwatch://sessions''"
definition sessionResourcePrefix :: string where "sessionResourcePrefix = ''shellwatch://sessions/''"
definition protocolVersion20260728 :: string where "protocolVersion20260728 = ''2026-07-28''"

definition cut_prefix :: "string \<Rightarrow> string \<Rightarrow> string option" where
  "cut_prefix s p = (if has_prefix s p then Some (drop (length p) s) else None)"

text \<open>
  \<open>wt_unsubs\<close> counts the unsubscribe functions kept, \<open>wt_detaching\<close> those taken by a release and not yet
  called, \<open>wt_attached\<close> the subscriptions the registry holds for this watcher.
\<close>

record watcher =
  wt_subscribed :: "(string, nat) gomap"
  wt_pending :: "(string, nat) gomap"
  wt_unsubs :: nat
  wt_next :: nat
  wt_armed :: "(nat, string) gomap"
  wt_firing :: "string list"
  wt_detaching :: nat
  wt_attached :: nat

definition newWatcher :: watcher where
  "newWatcher = \<lparr>wt_subscribed = [], wt_pending = [], wt_unsubs = 0, wt_next = 0, wt_armed = [], wt_firing = [],
     wt_detaching = 0, wt_attached = 0\<rparr>"

definition subs_of :: "watcher \<Rightarrow> string \<Rightarrow> nat" where
  "subs_of w uri = (case map_of (wt_subscribed w) uri of None \<Rightarrow> 0 | Some n \<Rightarrow> n)"

definition watcher_acquire :: "string \<Rightarrow> watcher \<Rightarrow> watcher" where
  "watcher_acquire uri w =
     (let w = (if wt_subscribed w = [] then w\<lparr>wt_unsubs := wt_unsubs w + 2, wt_attached := wt_attached w + 2\<rparr> else w) in
      w\<lparr>wt_subscribed := AList.update uri (subs_of w uri + 1) (wt_subscribed w)\<rparr>)"

definition stop_pending :: "string \<Rightarrow> watcher \<Rightarrow> watcher" where
  "stop_pending uri w =
     (case map_of (wt_pending w) uri of
        None \<Rightarrow> w
      | Some t \<Rightarrow> w\<lparr>wt_armed := AList.delete t (wt_armed w), wt_pending := AList.delete uri (wt_pending w)\<rparr>)"

definition release_one :: "string \<Rightarrow> watcher \<Rightarrow> watcher" where
  "release_one uri w =
     (if subs_of w uri > 0 then
        (if subs_of w uri - 1 = 0 then stop_pending uri (w\<lparr>wt_subscribed := AList.delete uri (wt_subscribed w)\<rparr>)
         else w\<lparr>wt_subscribed := AList.update uri (subs_of w uri - 1) (wt_subscribed w)\<rparr>)
      else w)"

definition watcher_release :: "string \<Rightarrow> watcher \<Rightarrow> watcher" where
  "watcher_release uri w =
     (let w = release_one uri w in
      if wt_subscribed w = []
      then fold stop_pending (map fst (wt_pending w)) (w\<lparr>wt_detaching := wt_detaching w + wt_unsubs w, wt_unsubs := 0\<rparr>)
      else w)"

definition run_unsub :: "watcher \<Rightarrow> watcher" where
  "run_unsub w = w\<lparr>wt_detaching := wt_detaching w - 1, wt_attached := wt_attached w - 1\<rparr>"

definition watcher_onOutput :: "bool \<Rightarrow> string \<Rightarrow> watcher \<Rightarrow> watcher" where
  "watcher_onOutput owned sid w =
     (let uri = sessionResourcePrefix @ sid in
      if subs_of w uri = 0 \<or> \<not> owned then w
      else if map_of (wt_pending w) uri \<noteq> None then w
      else w\<lparr>wt_pending := AList.update uri (wt_next w) (wt_pending w), wt_armed := AList.update (wt_next w) uri (wt_armed w),
             wt_next := wt_next w + 1\<rparr>)"

definition watcher_fire :: "string \<Rightarrow> watcher \<Rightarrow> string list \<times> watcher" where
  "watcher_fire uri w =
     (if map_of (wt_pending w) uri \<noteq> None \<and> subs_of w uri > 0 then [uri] else [],
      w\<lparr>wt_pending := AList.delete uri (wt_pending w), wt_firing := remove1 uri (wt_firing w)\<rparr>)"

definition watcher_onStatus :: "bool \<Rightarrow> string \<Rightarrow> watcher \<Rightarrow> string list" where
  "watcher_onStatus owned sid w =
     (if \<not> owned then []
      else (if subs_of w (sessionResourcePrefix @ sid) > 0 then [sessionResourcePrefix @ sid] else [])
           @ (if subs_of w sessionsResourceURI > 0 then [sessionsResourceURI] else []))"

text \<open>The handler of a subscription; \<open>ver\<close> is the protocol version of the request, if it has one.\<close>

datatype subscribe_error = NeedsListen | ResourceNotFound string

definition watcher_subscribe :: "string option \<Rightarrow> (string \<Rightarrow> bool) \<Rightarrow> string \<Rightarrow> watcher \<Rightarrow> subscribe_error + watcher" where
  "watcher_subscribe ver owns uri w =
     (if (case ver of None \<Rightarrow> True | Some v \<Rightarrow> v < protocolVersion20260728) then Inl NeedsListen
      else if uri \<noteq> sessionsResourceURI \<and> (case cut_prefix uri sessionResourcePrefix of None \<Rightarrow> True | Some i \<Rightarrow> \<not> owns i)
      then Inl (ResourceNotFound uri)
      else Inr (watcher_acquire uri w))"

section \<open>Interleavings\<close>

datatype wt_label =
    WSubscribe "string option" "string list" string
  | WRelease string
  | WUnsub
  | WOutput bool string
  | WExpire nat
  | WFire string
  | WStatus bool string

inductive wt_step :: "watcher \<Rightarrow> wt_label \<Rightarrow> string list \<Rightarrow> watcher \<Rightarrow> bool" where
  subscribe: "watcher_subscribe ver (\<lambda>i. i \<in> set owned) uri w = Inr w' \<Longrightarrow> wt_step w (WSubscribe ver owned uri) [] w'"
| release: "wt_step w (WRelease uri) [] (watcher_release uri w)"
| unsub: "wt_detaching w > 0 \<Longrightarrow> wt_step w WUnsub [] (run_unsub w)"
| new_output: "wt_step w (WOutput owned sid) [] (watcher_onOutput owned sid w)"
| expire: "map_of (wt_armed w) t = Some uri \<Longrightarrow>
    wt_step w (WExpire t) [] (w\<lparr>wt_armed := AList.delete t (wt_armed w), wt_firing := uri # wt_firing w\<rparr>)"
| fire: "uri \<in> set (wt_firing w) \<Longrightarrow> watcher_fire uri w = (us, w') \<Longrightarrow> wt_step w (WFire uri) us w'"
| status: "wt_step w (WStatus owned sid) (watcher_onStatus owned sid w) w"

inductive_cases wt_stepE: "wt_step w l us w'"

inductive wt_run :: "watcher \<Rightarrow> wt_label list \<Rightarrow> string list \<Rightarrow> watcher \<Rightarrow> bool" where
  start: "wt_run w [] [] w"
| more: "wt_run w ls us w' \<Longrightarrow> wt_step w' l vs w'' \<Longrightarrow> wt_run w (ls @ [l]) (us @ vs) w''"

section \<open>Invariant\<close>

text \<open>
  A pending address is subscribed to, and its timer is armed or has expired with \<open>fire\<close> still to run;
  the registry holds two subscriptions exactly while some address is subscribed to.
\<close>

definition timer_runs :: "watcher \<Rightarrow> string \<Rightarrow> nat \<Rightarrow> bool" where
  "timer_runs w uri t \<longleftrightarrow> t < wt_next w
     \<and> (map_of (wt_armed w) t = Some uri \<or> map_of (wt_armed w) t = None \<and> uri \<in> set (wt_firing w))"

definition timers_ok :: "watcher \<Rightarrow> bool" where
  "timers_ok w \<longleftrightarrow>
     (\<forall>uri t. map_of (wt_pending w) uri = Some t \<longrightarrow> subs_of w uri > 0 \<and> timer_runs w uri t)
     \<and> (\<forall>uri n. map_of (wt_subscribed w) uri = Some n \<longrightarrow> n > 0)
     \<and> (\<forall>t uri. map_of (wt_armed w) t = Some uri \<longrightarrow> t < wt_next w)"

definition attached_ok :: "watcher \<Rightarrow> bool" where
  "attached_ok w \<longleftrightarrow> wt_unsubs w = (if wt_subscribed w = [] then 0 else 2) \<and> wt_attached w = wt_unsubs w + wt_detaching w"

lemma timers_okI:
  assumes "\<And>uri t. map_of (wt_pending w) uri = Some t \<Longrightarrow> subs_of w uri > 0 \<and> timer_runs w uri t"
    and "\<And>uri n. map_of (wt_subscribed w) uri = Some n \<Longrightarrow> n > 0"
    and "\<And>t uri. map_of (wt_armed w) t = Some uri \<Longrightarrow> t < wt_next w"
  shows "timers_ok w"
  using assms unfolding timers_ok_def by blast

lemma timers_okD:
  assumes "timers_ok w"
  shows "map_of (wt_pending w) uri = Some t \<Longrightarrow> subs_of w uri > 0 \<and> timer_runs w uri t"
    "map_of (wt_subscribed w) uri = Some n \<Longrightarrow> n > 0" "map_of (wt_armed w) t = Some uri \<Longrightarrow> t < wt_next w"
  using assms unfolding timers_ok_def by blast+

lemmas wt_inv_defs = timers_ok_def attached_ok_def timer_runs_def subs_of_def

lemma gm_empty_iff: "m = [] \<longleftrightarrow> (\<forall>k. map_of m k = None)"
  by (cases m) auto

lemma inv_New: "timers_ok newWatcher" "attached_ok newWatcher"
  by (simp_all add: wt_inv_defs newWatcher_def)

lemma update_nonempty [simp]: "AList.update k v m \<noteq> []"
  by (cases m) auto

lemma inv_acquire:
  "timers_ok w \<Longrightarrow> timers_ok (watcher_acquire uri w)" "attached_ok w \<Longrightarrow> attached_ok (watcher_acquire uri w)"
  by (auto simp: wt_inv_defs watcher_acquire_def Let_def gomap_simps)

lemma stop_pending_fields [simp]:
  "wt_subscribed (stop_pending uri w) = wt_subscribed w" "wt_unsubs (stop_pending uri w) = wt_unsubs w"
  "wt_next (stop_pending uri w) = wt_next w" "wt_firing (stop_pending uri w) = wt_firing w"
  "wt_detaching (stop_pending uri w) = wt_detaching w" "wt_attached (stop_pending uri w) = wt_attached w"
  by (simp_all add: stop_pending_def split: option.split)

lemma stop_pending_pending: "map_of (wt_pending (stop_pending uri w)) x = (if x = uri then None else map_of (wt_pending w) x)"
  by (simp add: stop_pending_def gomap_simps split: option.split)

lemma stop_pending_armed: "map_of (wt_armed (stop_pending uri w)) t = Some x \<Longrightarrow> map_of (wt_armed w) t = Some x"
  by (auto simp: stop_pending_def gomap_simps split: option.splits if_splits)

lemma stop_pending_timer:
  assumes "\<And>u t. map_of (wt_pending w) u = Some t \<Longrightarrow> timer_runs w u t" "map_of (wt_pending (stop_pending uri w)) x = Some t"
  shows "timer_runs (stop_pending uri w) x t"
proof -
  have x: "x \<noteq> uri" "map_of (wt_pending w) x = Some t" using assms(2) by (auto simp: stop_pending_pending split: if_splits)
  show ?thesis
  proof (cases "map_of (wt_pending w) uri")
    case None
    with assms(1) [OF x(2)] show ?thesis by (simp add: stop_pending_def)
  next
    case (Some t')
    with assms(1) [OF Some] assms(1) [OF x(2)] x(1) show ?thesis by (auto simp: timer_runs_def stop_pending_def gomap_simps)
  qed
qed

lemma fold_stop_fields [simp]:
  "wt_subscribed (fold stop_pending us w) = wt_subscribed w" "wt_unsubs (fold stop_pending us w) = wt_unsubs w"
  "wt_next (fold stop_pending us w) = wt_next w" "wt_firing (fold stop_pending us w) = wt_firing w"
  "wt_detaching (fold stop_pending us w) = wt_detaching w" "wt_attached (fold stop_pending us w) = wt_attached w"
  by (induction us arbitrary: w) simp_all

lemma fold_stop_pending: "map_of (wt_pending (fold stop_pending us w)) x = (if x \<in> set us then None else map_of (wt_pending w) x)"
  by (induction us arbitrary: w) (auto simp: stop_pending_pending)

lemma fold_stop_armed: "map_of (wt_armed (fold stop_pending us w)) t = Some x \<Longrightarrow> map_of (wt_armed w) t = Some x"
  by (induction us arbitrary: w) (auto dest: stop_pending_armed)

lemma timers_ok_stop:
  assumes "timers_ok w"
  shows "timers_ok (stop_pending uri w)"
proof (rule timers_okI)
  fix x t
  assume x: "map_of (wt_pending (stop_pending uri w)) x = Some t"
  have "timer_runs (stop_pending uri w) x t"
    by (rule stop_pending_timer [OF conjunct2 [OF timers_okD(1) [OF assms]] x])
  moreover have "subs_of w x > 0" using x timers_okD(1) [OF assms, of x t] by (simp add: stop_pending_pending split: if_splits)
  ultimately show "subs_of (stop_pending uri w) x > 0 \<and> timer_runs (stop_pending uri w) x t" by (simp add: subs_of_def)
next
  show "map_of (wt_armed (stop_pending uri w)) t = Some x \<Longrightarrow> t < wt_next (stop_pending uri w)" for t x
    unfolding stop_pending_fields by (rule timers_okD(3) [OF assms stop_pending_armed])
qed (use timers_okD(2) [OF assms] in simp)

lemma timers_ok_fold: "timers_ok w \<Longrightarrow> timers_ok (fold stop_pending us w)"
  by (induction us arbitrary: w) (simp_all add: timers_ok_stop)

text \<open>The address whose last subscription goes has its timer stopped before the map forgets it.\<close>

lemma stop_pending_subscribed:
  "stop_pending uri (w\<lparr>wt_subscribed := m\<rparr>) = (stop_pending uri w)\<lparr>wt_subscribed := m\<rparr>"
  by (simp add: stop_pending_def split: option.split)

lemma timers_ok_resubscribed:
  assumes "timers_ok w" "\<And>x. map_of (wt_pending w) x \<noteq> None \<Longrightarrow> map_of m x \<noteq> None" "\<And>x n. map_of m x = Some n \<Longrightarrow> n > 0"
  shows "timers_ok (w\<lparr>wt_subscribed := m\<rparr>)"
proof (rule timers_okI)
  fix x t
  assume "map_of (wt_pending (w\<lparr>wt_subscribed := m\<rparr>)) x = Some t"
  then have p: "map_of (wt_pending w) x = Some t" by simp
  then obtain n where "map_of m x = Some n" "n > 0" using assms(2) [of x] assms(3) by auto
  with timers_okD(1) [OF assms(1) p] show "subs_of (w\<lparr>wt_subscribed := m\<rparr>) x > 0 \<and> timer_runs (w\<lparr>wt_subscribed := m\<rparr>) x t"
    by (simp add: subs_of_def timer_runs_def)
qed (use timers_okD(3) [OF assms(1)] assms(3) in simp_all)

lemma pending_subscribed: "timers_ok w \<Longrightarrow> map_of (wt_pending w) x = Some t \<Longrightarrow> \<exists>n. map_of (wt_subscribed w) x = Some n"
  using timers_okD(1) [of w x] by (auto simp: subs_of_def split: option.splits)

lemma timers_ok_release_one:
  assumes "timers_ok w"
  shows "timers_ok (release_one uri w)"
proof (cases "subs_of w uri > 0 \<and> subs_of w uri - 1 = 0")
  case True
  then have form: "release_one uri w = (stop_pending uri w)\<lparr>wt_subscribed := AList.delete uri (wt_subscribed w)\<rparr>"
    by (simp add: release_one_def stop_pending_subscribed)
  show ?thesis unfolding form
    by (rule timers_ok_resubscribed [OF timers_ok_stop [OF assms]])
      (auto simp: gomap_simps stop_pending_pending dest: pending_subscribed [OF assms] timers_okD(2) [OF assms] split: if_splits)
next
  case False
  have "timers_ok (w\<lparr>wt_subscribed := AList.update uri (subs_of w uri - 1) (wt_subscribed w)\<rparr>)" if "subs_of w uri - 1 > 0"
    by (rule timers_ok_resubscribed [OF assms])
      (use that in \<open>auto simp: gomap_simps dest: pending_subscribed [OF assms] timers_okD(2) [OF assms] split: if_splits\<close>)
  with False assms show ?thesis by (auto simp: release_one_def)
qed

lemma inv_release:
  "timers_ok w \<Longrightarrow> timers_ok (watcher_release uri w)" "attached_ok w \<Longrightarrow> attached_ok (watcher_release uri w)"
proof -
  have same: "wt_unsubs (release_one uri w) = wt_unsubs w" "wt_attached (release_one uri w) = wt_attached w"
    "wt_detaching (release_one uri w) = wt_detaching w" by (simp_all add: release_one_def)
  have empty: "wt_subscribed (release_one uri w) \<noteq> [] \<Longrightarrow> wt_subscribed w \<noteq> []"
    by (auto simp: release_one_def subs_of_def split: if_splits)
  show "timers_ok (watcher_release uri w)" if "timers_ok w"
  proof -
    have "timers_ok ((release_one uri w)\<lparr>wt_detaching := n, wt_unsubs := k\<rparr>)" for n k
      using timers_ok_release_one [OF that] by (simp add: wt_inv_defs)
    with timers_ok_fold timers_ok_release_one [OF that] show ?thesis by (simp add: watcher_release_def Let_def)
  qed
  show "attached_ok (watcher_release uri w)" if "attached_ok w"
    using that same empty by (auto simp: watcher_release_def Let_def attached_ok_def)
qed

lemma inv_output: "timers_ok w \<Longrightarrow> timers_ok (watcher_onOutput owned sid w)" "attached_ok w \<Longrightarrow> attached_ok (watcher_onOutput owned sid w)"
proof -
  show "attached_ok w \<Longrightarrow> attached_ok (watcher_onOutput owned sid w)" by (simp add: watcher_onOutput_def attached_ok_def Let_def)
  assume ok: "timers_ok w"
  let ?uri = "sessionResourcePrefix @ sid"
  define w' where "w' = w\<lparr>wt_pending := AList.update ?uri (wt_next w) (wt_pending w), wt_armed := AList.update (wt_next w) ?uri (wt_armed w),
      wt_next := wt_next w + 1\<rparr>"
  have "timers_ok w'" if "subs_of w ?uri > 0"
    using ok that by (auto simp: timers_ok_def timer_runs_def subs_of_def w'_def gomap_simps less_SucI split: if_splits)
  with ok show "timers_ok (watcher_onOutput owned sid w)" by (simp add: watcher_onOutput_def Let_def w'_def)
qed

lemma inv_expire:
  assumes "map_of (wt_armed w) t = Some uri" "timers_ok w"
  shows "timers_ok (w\<lparr>wt_armed := AList.delete t (wt_armed w), wt_firing := uri # wt_firing w\<rparr>)"
    (is "timers_ok ?w")
proof (rule timers_okI)
  fix x t'
  assume "map_of (wt_pending ?w) x = Some t'"
  then have "map_of (wt_pending w) x = Some t'" by simp
  from timers_okD(1) [OF assms(2) this] assms(1) show "subs_of ?w x > 0 \<and> timer_runs ?w x t'"
    by (cases "t' = t") (auto simp: timer_runs_def subs_of_def gomap_simps)
qed (use timers_okD(2,3) [OF assms(2)] in \<open>auto simp: gomap_simps split: if_splits\<close>)

lemma inv_fire:
  "timers_ok w \<Longrightarrow> timers_ok (snd (watcher_fire uri w))" "attached_ok w \<Longrightarrow> attached_ok (snd (watcher_fire uri w))"
proof -
  show "timers_ok (snd (watcher_fire uri w))" if "timers_ok w"
    using that by (auto simp: timers_ok_def timer_runs_def subs_of_def watcher_fire_def gomap_simps in_set_remove1 split: if_splits)
qed (simp add: watcher_fire_def attached_ok_def)

lemma subscribe_acquires: "watcher_subscribe ver owns uri w = Inr w' \<Longrightarrow> w' = watcher_acquire uri w"
  by (auto simp: watcher_subscribe_def split: if_splits)

lemma inv_step:
  assumes "wt_step w l us w'" "timers_ok w" "attached_ok w"
  shows "timers_ok w' \<and> attached_ok w'"
  using assms
proof (cases rule: wt_step.cases)
  case (unsub)
  with assms show ?thesis by (auto simp: run_unsub_def wt_inv_defs)
next
  case (expire t uri)
  with assms inv_expire show ?thesis by (simp add: attached_ok_def)
next
  case (fire uri)
  then have "w' = snd (watcher_fire uri w)" by simp
  with assms inv_fire show ?thesis by simp
qed (auto simp: inv_release inv_output dest: subscribe_acquires intro: inv_acquire)

lemma inv_run: "wt_run w ls us w' \<Longrightarrow> timers_ok w \<Longrightarrow> attached_ok w \<Longrightarrow> timers_ok w' \<and> attached_ok w'"
  by (induction rule: wt_run.induct) (auto dest: inv_step)

section \<open>No update is lost, no subscription leaks\<close>

text \<open>While nobody gives the address up, a pending notification stays pending until it is sent.\<close>

lemma pending_kept_step:
  assumes "wt_step w l us w'" "l \<noteq> WRelease uri" "map_of (wt_pending w) uri \<noteq> None" "subs_of w uri > 0"
  shows "uri \<in> set us \<or> map_of (wt_pending w') uri \<noteq> None \<and> subs_of w' uri > 0"
  using assms
proof (cases rule: wt_step.cases)
  case (subscribe ver owned u)
  then have "w' = watcher_acquire u w" by (simp add: subscribe_acquires)
  with assms show ?thesis by (auto simp: watcher_acquire_def Let_def subs_of_def gomap_simps split: option.splits)
next
  case (release u)
  have one: "map_of (wt_pending (release_one u w)) uri \<noteq> None \<and> subs_of (release_one u w) uri > 0"
    using release assms by (auto simp: release_one_def stop_pending_pending subs_of_def gomap_simps split: option.splits)
  then have "wt_subscribed (release_one u w) \<noteq> []" by (auto simp: subs_of_def)
  with one release show ?thesis by (simp add: watcher_release_def Let_def)
next
  case (fire u)
  with assms show ?thesis by (cases "u = uri") (auto simp: watcher_fire_def subs_of_def gomap_simps)
qed (use assms in \<open>auto simp: run_unsub_def watcher_onOutput_def subs_of_def gomap_simps Let_def\<close>)

lemma pending_kept:
  "wt_run w ls us w' \<Longrightarrow> WRelease uri \<notin> set ls \<Longrightarrow> map_of (wt_pending w) uri \<noteq> None \<Longrightarrow> subs_of w uri > 0 \<Longrightarrow>
     uri \<in> set us \<or> map_of (wt_pending w') uri \<noteq> None \<and> subs_of w' uri > 0"
proof (induction rule: wt_run.induct)
  case (more w ls us w' l vs w'')
  have "uri \<in> set us \<or> map_of (wt_pending w') uri \<noteq> None \<and> subs_of w' uri > 0" using more.IH more.prems by simp
  moreover have "l \<noteq> WRelease uri" using more.prems(1) by auto
  ultimately show ?case using pending_kept_step [OF more.hyps(2), of uri] by auto
qed simp

text \<open>
  C15: the watcher loses no update and leaks no subscription. Under every interleaving of
  subscriptions, their ends, output, expiring timers and status changes: output of an owned session
  that a client is subscribed to is followed by a notification for it, unless the subscription ends
  first - at the latest once the timers of that session have run. And whenever no address is
  subscribed to and the unsubscribe functions taken have been called, the registry holds no
  subscription for the watcher and no notification is pending.
\<close>

theorem watcher_announces:
  assumes "wt_run newWatcher ls us w"
  shows "(\<forall>sid ls' us' w'. subs_of w (sessionResourcePrefix @ sid) > 0 \<longrightarrow> wt_run (watcher_onOutput True sid w) ls' us' w' \<longrightarrow>
        WRelease (sessionResourcePrefix @ sid) \<notin> set ls' \<longrightarrow>
        (\<forall>t. map_of (wt_armed w') t \<noteq> Some (sessionResourcePrefix @ sid)) \<longrightarrow> sessionResourcePrefix @ sid \<notin> set (wt_firing w') \<longrightarrow>
        sessionResourcePrefix @ sid \<in> set us')
    \<and> (wt_subscribed w = [] \<and> wt_detaching w = 0 \<longrightarrow> wt_attached w = 0 \<and> wt_pending w = [])"
proof -
  have inv: "timers_ok w" "attached_ok w" using inv_run [OF assms] inv_New by simp_all
  have "uri \<in> set us'"
    if uri: "uri = sessionResourcePrefix @ sid" and subs: "subs_of w uri > 0" and run: "wt_run (watcher_onOutput True sid w) ls' us' w'"
      and stays: "WRelease uri \<notin> set ls'" and quiet: "\<forall>t. map_of (wt_armed w') t \<noteq> Some uri" "uri \<notin> set (wt_firing w')"
    for uri sid ls' us' w'
  proof -
    have start: "map_of (wt_pending (watcher_onOutput True sid w)) uri \<noteq> None" "subs_of (watcher_onOutput True sid w) uri > 0"
      using subs uri by (auto simp: watcher_onOutput_def Let_def gomap_simps subs_of_def)
    have "timers_ok w'" using inv_run [OF run inv_output(1) [OF inv(1)] inv_output(2) [OF inv(2)]] by simp
    then have "map_of (wt_pending w') uri = None" using quiet timers_okD(1) [of w' uri] by (cases "map_of (wt_pending w') uri") (auto simp: timer_runs_def)
    with pending_kept [OF run stays start] show ?thesis by simp
  qed
  moreover have "wt_attached w = 0 \<and> wt_pending w = []" if "wt_subscribed w = [] \<and> wt_detaching w = 0"
    using that inv by (auto simp: wt_inv_defs gm_empty_iff [of "wt_pending w"])
  ultimately show ?thesis by blast
qed

theorem watcher_announces_witness:
  "\<exists>ls us w w1 w2 us2. wt_run newWatcher ls us w \<and> subs_of w (sessionResourcePrefix @ ''s1'') = 1 \<and> wt_attached w = 2
     \<and> wt_run (watcher_onOutput True ''s1'' w) [WExpire 0, WFire (sessionResourcePrefix @ ''s1'')] us2 w2
     \<and> sessionResourcePrefix @ ''s1'' \<in> set us2"
proof -
  define uri where "uri = sessionResourcePrefix @ ''s1''"
  define w where "w = watcher_acquire uri newWatcher"
  define w1 where "w1 = watcher_onOutput True ''s1'' w"
  define w2 where "w2 = w1\<lparr>wt_armed := AList.delete 0 (wt_armed w1), wt_firing := uri # wt_firing w1\<rparr>"
  define w3 where "w3 = snd (watcher_fire uri w2)"
  have sub: "watcher_subscribe (Some ''2026-07-28'') (\<lambda>i. i \<in> set [''s1'']) uri newWatcher = Inr w"
    by (simp add: watcher_subscribe_def protocolVersion20260728_def cut_prefix_def has_prefix_def uri_def w_def sessionResourcePrefix_def)
  have r0: "wt_run newWatcher ([] @ [WSubscribe (Some ''2026-07-28'') [''s1''] uri]) ([] @ []) w"
    by (rule wt_run.more [OF wt_run.start wt_step.subscribe [OF sub]])
  note defs = w_def w1_def w2_def w3_def newWatcher_def watcher_acquire_def watcher_onOutput_def watcher_fire_def subs_of_def uri_def [symmetric]
  have e: "wt_step w1 (WExpire 0) [] w2" unfolding w2_def by (rule wt_step.expire) (simp add: defs)
  have f: "wt_step w2 (WFire uri) (fst (watcher_fire uri w2)) w3" by (rule wt_step.fire) (simp_all add: w3_def, simp add: w2_def)
  have run: "wt_run w1 [WExpire 0, WFire uri] (fst (watcher_fire uri w2)) w3"
    using wt_run.more [OF wt_run.more [OF wt_run.start e] f] by simp
  have quiet: "\<forall>t. map_of (wt_armed w3) t \<noteq> Some uri" "uri \<notin> set (wt_firing w3)" and subs: "subs_of w uri = 1" "wt_attached w = 2"
    by (simp_all add: defs)
  have "uri \<in> set (fst (watcher_fire uri w2))"
    using conjunct1 [OF watcher_announces [OF r0], rule_format, of "''s1''" "[WExpire 0, WFire uri]" "fst (watcher_fire uri w2)" w3]
      run quiet subs by (simp add: uri_def [symmetric] w1_def)
  with r0 run subs show ?thesis unfolding uri_def [symmetric] w1_def by blast
qed

end
