(* ===== verification/Mcp_Server.thy ===== *)
theory Mcp_Server
  imports Ssh_Factory Rest_Sessions Mcp_Watcher
begin

text \<open>
  \<open>src/internal/mcp\<close>: the tools and resources an agent sees.

  A request builds its own server around an agent session for the principal's account and client, so
  a tool call is a function of the principal and the registry. The arguments of a call come decoded:
  \<open>Inl\<close> is the message of a failed \<open>json.Unmarshal\<close>, a number is already an integer. \<open>estr\<close> gives the text
  of an error, \<open>ci\<close> the client information of the request. A result is the JSON of its single text
  block.
\<close>

section \<open>The per-request server\<close>

definition protocolVersions :: "string list" where
  "protocolVersions = [''2026-07-28'', ''2025-11-25'', ''2025-06-18'']"

definition mcp_agent :: "int option \<Rightarrow> string \<Rightarrow> principal \<Rightarrow> agent_session" where
  "mcp_agent maxOwned realip p =
     SetClientInfo (p_ClientID p) [] (agent_New (p_AccountID p) (p_ClientID p) realip (case maxOwned of None \<Rightarrow> - 1 | Some n \<Rightarrow> n))"

definition captureClientInfo :: "(string \<times> string) option \<Rightarrow> agent_session \<Rightarrow> agent_session" where
  "captureClientInfo ci x = (case ci of None \<Rightarrow> x | Some (name, version) \<Rightarrow> SetClientInfo name version x)"

text \<open>Cache control: the scope and the lifetime in milliseconds.\<close>

definition setCacheable :: "bool \<Rightarrow> string \<times> int" where
  "setCacheable isListTools = (''private'', if isListTools then 3600000 else 0)"

definition endpoint_line :: "endpoint_info \<Rightarrow> string" where
  "endpoint_line e =
     ''- '' @ ei_ID e @ '': '' @ ei_Label e @ '' ('' @ ei_Username e @ ''@'' @ ei_Host e @ '':'' @ Itoa (ei_Port e) @ '')''
     @ (case ei_Description e of
          None \<Rightarrow> []
        | Some d \<Rightarrow> if d \<noteq> [] then [CHR 0x0A] @ ''  description: '' @ d else [])"

datatype tool_result = ToolError string | ToolJSON json | ToolPanic runtime_panic

section \<open>Session tools\<close>

definition mcp_create_session ::
  "(agent_fail \<Rightarrow> string) \<Rightarrow> (string \<Rightarrow> byte list) \<Rightarrow> bool \<Rightarrow> demo option \<Rightarrow> sw_db \<Rightarrow> (manager \<Rightarrow> manager) \<Rightarrow> string \<Rightarrow> time \<Rightarrow>
   string + transport \<Rightarrow> (manager \<Rightarrow> manager) \<Rightarrow> (string \<times> string) option \<Rightarrow> string + string \<times> string \<Rightarrow> agent_session \<Rightarrow> manager \<Rightarrow>
   tool_result \<times> manager"
where
  "mcp_create_session estr sha256 flt dm db between sid now outcome env ci args x m =
     (case args of
        Inl e \<Rightarrow> (ToolError e, m)
      | Inr (endpointID, reason) \<Rightarrow>
          (let x = captureClientInfo ci x; reason = trim_space reason in
           if reason = [] then (ToolError ''reason must not be empty'', m)
           else case agent_CreateSession sha256 flt dm db between sid now outcome env endpointID reason x m of
                  (Inl e, m) \<Rightarrow> (ToolError (estr e), m)
                | (Inr s, m) \<Rightarrow>
                    (ToolJSON (JObj [(''sessionId'', JStr (s_SessionID s)), (''endpointId'', JStr (s_EndpointID s)),
                       (''status'', JStr (sess_status_str (s_Status s)))]), m)))"

definition tool_session_json :: "(time \<Rightarrow> string) \<Rightarrow> session \<Rightarrow> json" where
  "tool_session_json fmt s =
     JObj [(''sessionId'', JStr (s_SessionID s)), (''endpointId'', JStr (s_EndpointID s)),
       (''status'', JStr (sess_status_str (s_Status s))), (''createdAt'', JStr (fmt (s_CreatedAt s)))]"

definition mcp_list_sessions :: "(time \<Rightarrow> string) \<Rightarrow> agent_session \<Rightarrow> manager \<Rightarrow> tool_result" where
  "mcp_list_sessions fmt x m = ToolJSON (JObj [(''sessions'', JArr (map (tool_session_json fmt) (agent_ListSessions x m)))])"

definition mcp_send_keys ::
  "(agent_fail \<Rightarrow> string) \<Rightarrow> time \<Rightarrow> bool \<Rightarrow> string + string \<times> string list \<Rightarrow> agent_session \<Rightarrow> manager \<Rightarrow> tool_result \<times> manager"
where
  "mcp_send_keys estr now ok args x m =
     (case args of
        Inl e \<Rightarrow> (ToolError e, m)
      | Inr (sid, keys) \<Rightarrow>
          (case agent_SendKeys now ok sid keys x m of
             (Inl e, m) \<Rightarrow> (ToolError (estr e), m)
           | (Inr _, m) \<Rightarrow> (ToolJSON (JObj [(''status'', JStr ''sent''), (''keys'', JArr (map JStr keys))]), m)))"

record read_args =
  ra_SessionID :: string
  ra_AfterOffset :: int
  ra_Limit :: int
  ra_WaitMs :: int

definition mcp_read_output ::
  "(agent_fail \<Rightarrow> string) \<Rightarrow> (byte list \<Rightarrow> string) \<Rightarrow> manager \<Rightarrow> wait_end list \<Rightarrow> string + read_args \<Rightarrow> agent_session \<Rightarrow> manager \<Rightarrow> tool_result option"
where
  "mcp_read_output estr txt m' waits args x m =
     (case args of
        Inl e \<Rightarrow> Some (ToolError e)
      | Inr a \<Rightarrow>
          if ra_WaitMs a < 0 \<or> ra_WaitMs a > 30000 then Some (ToolError ''waitMs must be between 0 and 30000'')
          else map_option (\<lambda>r. case r of
                    Inl e \<Rightarrow> ToolError (estr e)
                  | Inr (Inl p) \<Rightarrow> ToolPanic p
                  | Inr (Inr res) \<Rightarrow>
                      ToolJSON (JObj [(''data'', JStr (txt (rr_Data res))), (''offset'', JNum (rr_Offset res)), (''hasMore'', JBool (rr_HasMore res))]))
                 (agent_ReadOutput (ra_SessionID a) (ra_AfterOffset a) (ra_Limit a) (ra_WaitMs a * Millisecond) m' waits x m))"

definition mcp_close_session :: "(agent_fail \<Rightarrow> string) \<Rightarrow> join \<Rightarrow> string + string \<Rightarrow> agent_session \<Rightarrow> manager \<Rightarrow> tool_result \<times> manager" where
  "mcp_close_session estr j args x m =
     (case args of
        Inl e \<Rightarrow> (ToolError e, m)
      | Inr sid \<Rightarrow>
          (case agent_CloseSession sid j x m of
             (Some e, m) \<Rightarrow> (ToolError (estr e), m)
           | (None, m) \<Rightarrow> (ToolJSON (JObj [(''status'', JStr ''closed'')]), m)))"

section \<open>Endpoint tools\<close>

definition demoReadOnlyErr :: string where
  "demoReadOnlyErr = ''Demo endpoints are read-only''"

type_synonym wire = "(string \<times> json) list"

definition str_field :: "string \<Rightarrow> wire \<Rightarrow> string + string option" where
  "str_field key data =
     (case map_of data key of
        None \<Rightarrow> Inr None
      | Some (JStr s) \<Rightarrow> Inr (Some s)
      | Some _ \<Rightarrow> Inl (''data.'' @ key @ '' must be a string''))"

definition port_field :: "wire \<Rightarrow> string + int option" where
  "port_field data =
     (case map_of data ''port'' of
        None \<Rightarrow> Inr None
      | Some (JNum n) \<Rightarrow> Inr (Some n)
      | Some _ \<Rightarrow> Inl ''data.port must be a number'')"

definition uv_field :: "wire \<Rightarrow> string + string option" where
  "uv_field data =
     (let bad = Inl (''data.userVerification must be one of: '' @ join_with '', '' UserVerificationValues) in
      case map_of data ''userVerification'' of
        None \<Rightarrow> Inr None
      | Some (JStr s) \<Rightarrow> if IsUserVerification s then Inr (Some s) else bad
      | Some _ \<Rightarrow> bad)"

definition forward_field :: "wire \<Rightarrow> string + bool option" where
  "forward_field data =
     (case map_of data ''agentForward'' of
        None \<Rightarrow> Inr None
      | Some (JBool b) \<Rightarrow> Inr (Some b)
      | Some _ \<Rightarrow> Inl ''data.agentForward must be a boolean'')"

text \<open>Whether the description is set, and to what.\<close>

definition description_field :: "wire \<Rightarrow> string + bool \<times> string option" where
  "description_field data =
     (let bad = Inl ''data.description must be a string up to 1000 characters (pass null to clear)'' in
      case map_of data ''description'' of
        None \<Rightarrow> Inr (False, None)
      | Some JNull \<Rightarrow> Inr (True, None)
      | Some (JStr s) \<Rightarrow> if int (length s) > DescriptionMaxLen then bad else Inr (True, Some s)
      | Some _ \<Rightarrow> bad)"

definition bind_sum :: "'e + 'a \<Rightarrow> ('a \<Rightarrow> 'e + 'b) \<Rightarrow> 'e + 'b" where
  "bind_sum r f = (case r of Inl e \<Rightarrow> Inl e | Inr v \<Rightarrow> f v)"

definition endpointPatchFromWire :: "wire \<Rightarrow> string + endpoint_patch" where
  "endpointPatchFromWire data =
     bind_sum (str_field ''label'' data) (\<lambda>label.
     bind_sum (str_field ''host'' data) (\<lambda>host.
     bind_sum (str_field ''username'' data) (\<lambda>username.
     bind_sum (port_field data) (\<lambda>port.
     bind_sum (uv_field data) (\<lambda>uv.
     bind_sum (forward_field data) (\<lambda>fwd.
     bind_sum (description_field data) (\<lambda>(set, description).
       Inr \<lparr>pt_Label = label, pt_Host = host, pt_Port = port, pt_Username = username, pt_UserVerification = uv,
            pt_AgentForward = fwd, pt_Description = description, pt_DescriptionSet = set\<rparr>)))))))"

definition endpointFull :: "endpoint \<Rightarrow> json" where
  "endpointFull e =
     JObj [(''id'', JStr (se_ID e)), (''accountId'', JStr (se_AccountID e)), (''label'', JStr (se_Label e)), (''host'', JStr (se_Host e)),
       (''port'', JNum (se_Port e)), (''username'', JStr (se_Username e)), (''userVerification'', JStr (se_UserVerification e)),
       (''agentForward'', JBool (se_AgentForward e)), (''description'', nullable_opt (se_Description e)),
       (''hostKey'', case se_HostKey e of
          None \<Rightarrow> JNull
        | Some p \<Rightarrow> JObj [(''type'', JStr (hp_Type p)), (''fingerprint'', JStr (hp_Fingerprint p)),
            (''pinnedAt'', JStr (hp_PinnedAt p)), (''pinnedBy'', JStr (hp_PinnedBy p))])]"

definition info_json :: "endpoint_info \<Rightarrow> json" where
  "info_json e =
     JObj [(''id'', JStr (ei_ID e)), (''label'', JStr (ei_Label e)), (''host'', JStr (ei_Host e)), (''port'', JNum (ei_Port e)),
       (''username'', JStr (ei_Username e)), (''description'', nullable_opt (ei_Description e))]"

definition done_json :: "string \<Rightarrow> string \<Rightarrow> tool_result" where
  "done_json status i = ToolJSON (JObj [(''status'', JStr status), (''id'', JStr i)])"

definition new_endpoint :: "string \<Rightarrow> endpoint_patch \<Rightarrow> endpoint" where
  "new_endpoint i p =
     \<lparr>se_ID = i, se_AccountID = [], se_Label = str_of (pt_Label p), se_Host = str_of (pt_Host p),
      se_Port = (case pt_Port p of None \<Rightarrow> 22 | Some n \<Rightarrow> n), se_Username = str_of (pt_Username p),
      se_UserVerification = (case pt_UserVerification p of None \<Rightarrow> ''required'' | Some v \<Rightarrow> v),
      se_Description = pt_Description p,
      se_AgentForward = (case pt_AgentForward p of None \<Rightarrow> True | Some b \<Rightarrow> b), se_HostKey = None\<rparr>"

record ep_args =
  ea_Action :: string
  ea_ID :: string
  ea_Data :: "wire option"

text \<open>Whether the store fails, twice for the update; \<open>audit\<close> says whether the audit hook is wired.\<close>

record ep_faults =
  ef_first :: bool
  ef_second :: bool

definition mcp_ep_create :: "(db_error \<Rightarrow> string) \<Rightarrow> ep_faults \<Rightarrow> string \<Rightarrow> ep_args \<Rightarrow> agent_session \<Rightarrow> sw_db \<Rightarrow> tool_result \<times> sw_db" where
  "mcp_ep_create dstr flt now a x db =
     (if IsID (ea_ID a) then (ToolError demoReadOnlyErr, db)
      else case endpointPatchFromWire (case ea_Data a of None \<Rightarrow> [] | Some d \<Rightarrow> d) of
             Inl msg \<Rightarrow> (ToolError msg, db)
           | Inr p \<Rightarrow>
               if ea_ID a = [] \<or> str_of (pt_Label p) = [] \<or> str_of (pt_Host p) = [] \<or> str_of (pt_Username p) = []
               then (ToolError ''id, data.label, data.host, data.username are required'', db)
               else case agent_CreateEndpoint (ef_first flt) now (new_endpoint (ea_ID a) p) x db of
                      (Some e, db) \<Rightarrow> (ToolError (dstr e), db)
                    | (None, db) \<Rightarrow> (done_json ''created'' (ea_ID a), db))"

definition mcp_ep_update ::
  "(db_error \<Rightarrow> string) \<Rightarrow> ep_faults \<Rightarrow> bool \<Rightarrow> string \<Rightarrow> ep_args \<Rightarrow> agent_session \<Rightarrow> sw_db \<Rightarrow> tool_result \<times> host_key_event list \<times> sw_db"
where
  "mcp_ep_update dstr flt audit now a x db =
     (if IsID (ea_ID a) then (ToolError demoReadOnlyErr, [], db)
      else if ea_ID a = [] \<or> ea_Data a = None then (ToolError ''id and data are required'', [], db)
      else case endpointPatchFromWire (the (ea_Data a)) of
             Inl msg \<Rightarrow> (ToolError msg, [], db)
           | Inr p \<Rightarrow>
               (case agent_UpdateEndpoint (ef_first flt) (ef_second flt) audit now (ea_ID a) p x db of
                  (Inl e, evs, db) \<Rightarrow> (ToolError (dstr e), evs, db)
                | (Inr ok, evs, db) \<Rightarrow>
                    if \<not> ok then (ToolError (''Endpoint not found: '' @ ea_ID a), evs, db)
                    else (done_json ''updated'' (ea_ID a), evs, db)))"

definition mcp_ep_delete :: "(db_error \<Rightarrow> string) \<Rightarrow> ep_faults \<Rightarrow> string \<Rightarrow> ep_args \<Rightarrow> agent_session \<Rightarrow> sw_db \<Rightarrow> tool_result \<times> sw_db" where
  "mcp_ep_delete dstr flt now a x db =
     (if IsID (ea_ID a) then (ToolError demoReadOnlyErr, db)
      else if ea_ID a = [] then (ToolError ''id is required'', db)
      else case agent_DeleteEndpoint (ef_first flt) now (ea_ID a) x db of
             (Inl e, db) \<Rightarrow> (ToolError (dstr e), db)
           | (Inr ok, db) \<Rightarrow>
               if \<not> ok then (ToolError (''Endpoint not found: '' @ ea_ID a), db) else (done_json ''deleted'' (ea_ID a), db))"

definition mcp_ep_read ::
  "(db_error \<Rightarrow> string) \<Rightarrow> (string \<Rightarrow> byte list) \<Rightarrow> ep_faults \<Rightarrow> demo option \<Rightarrow> ep_args \<Rightarrow> agent_session \<Rightarrow> sw_db \<Rightarrow> tool_result"
where
  "mcp_ep_read dstr sha256 flt dm a x db =
     (if ea_ID a = [] then ToolError ''id is required''
      else case agent_GetEndpoint sha256 (ef_first flt) (ea_ID a) x dm db of
             Inl e \<Rightarrow> ToolError (dstr e)
           | Inr None \<Rightarrow> ToolError (''Endpoint not found: '' @ ea_ID a)
           | Inr (Some e) \<Rightarrow> ToolJSON (endpointFull e))"

definition mcp_manage_endpoints ::
  "(db_error \<Rightarrow> string) \<Rightarrow> (string \<Rightarrow> byte list) \<Rightarrow> ep_faults \<Rightarrow> bool \<Rightarrow> demo option \<Rightarrow> string \<Rightarrow> (string \<times> string) option \<Rightarrow> string + ep_args \<Rightarrow>
   agent_session \<Rightarrow> sw_db \<Rightarrow> tool_result \<times> host_key_event list \<times> sw_db"
where
  "mcp_manage_endpoints dstr sha256 flt audit dm now ci args x db =
     (case args of
        Inl e \<Rightarrow> (ToolError e, [], db)
      | Inr a \<Rightarrow>
          (let x = captureClientInfo ci x in
           if ea_Action a = ''list'' then
             (case agent_ListEndpoints sha256 (ef_first flt) (ef_second flt) x dm db of
                Inl e \<Rightarrow> ToolError (dstr e)
              | Inr eps \<Rightarrow> ToolJSON (JObj [(''endpoints'', JArr (map info_json eps))]), [], db)
           else if ea_Action a = ''read'' then (mcp_ep_read dstr sha256 flt dm a x db, [], db)
           else if ea_Action a = ''create'' then (case mcp_ep_create dstr flt now a x db of (r, db) \<Rightarrow> (r, [], db))
           else if ea_Action a = ''update'' then mcp_ep_update dstr flt audit now a x db
           else if ea_Action a = ''delete'' then (case mcp_ep_delete dstr flt now a x db of (r, db) \<Rightarrow> (r, [], db))
           else (ToolError (''unknown action: '' @ ea_Action a), [], db)))"

section \<open>Key tool\<close>

definition mcp_manage_keys :: "(store_error \<Rightarrow> string) \<Rightarrow> bool \<Rightarrow> string + string \<times> string \<Rightarrow> key_table \<Rightarrow> tool_result" where
  "mcp_manage_keys sstr flt args t =
     (let entry = (\<lambda>k. [(''id'', JStr (ky_ID k)), (''label'', JStr (ky_Label k)), (''type'', JStr (ky_Type k)), (''fingerprint'', JStr (ky_Fingerprint k))]) in
      case args of
        Inl e \<Rightarrow> ToolError e
      | Inr (action, i) \<Rightarrow>
          if action = ''list'' then
            (case keys_List flt t of
               Inl e \<Rightarrow> ToolError (sstr e)
             | Inr ks \<Rightarrow> ToolJSON (JObj [(''keys'', JArr (map (\<lambda>k. JObj (entry k)) ks))]))
          else if action = ''read'' then
            (if i = [] then ToolError ''id is required''
             else case keys_Get flt i t of
                    Inl e \<Rightarrow> ToolError (sstr e)
                  | Inr None \<Rightarrow> ToolError (''Key not found: '' @ i)
                  | Inr (Some (k, pub)) \<Rightarrow> ToolJSON (JObj (entry k @ [(''publicKey'', JStr pub)])))
          else ToolError (''unknown action: '' @ action))"

section \<open>Session resources\<close>

definition toSessionDoc :: "(time \<Rightarrow> string) \<Rightarrow> manager \<Rightarrow> session \<Rightarrow> json" where
  "toSessionDoc fmt m s =
     JObj [(''sessionId'', JStr (s_SessionID s)), (''endpointId'', JStr (s_EndpointID s)), (''status'', JStr (sess_status_str (s_Status s))),
       (''createdAt'', JStr (fmt (s_CreatedAt s))), (''offset'', JNum (case OutputOffset (s_SessionID s) m of Inl _ \<Rightarrow> 0 | Inr n \<Rightarrow> n))]"

definition read_sessions :: "(time \<Rightarrow> string) \<Rightarrow> agent_session \<Rightarrow> manager \<Rightarrow> json" where
  "read_sessions fmt x m = JObj [(''sessions'', JArr (map (toSessionDoc fmt m) (agent_ListSessions x m)))]"

text \<open>\<open>None\<close> is the resource-not-found error; \<open>m'\<close> is the registry after the ownership check.\<close>

definition read_session :: "(time \<Rightarrow> string) \<Rightarrow> string \<Rightarrow> agent_session \<Rightarrow> manager \<Rightarrow> manager \<Rightarrow> json option" where
  "read_session fmt uri x m m' =
     (case cut_prefix uri sessionResourcePrefix of
        None \<Rightarrow> None
      | Some i \<Rightarrow> if \<not> Owns i x m then None else map_option (toSessionDoc fmt m') (GetSession i m'))"

section \<open>What a sequence of tool calls may touch\<close>

datatype mcp_call =
    McpCreate bool "demo option" string time "string + transport" "(string \<times> string) option" "string + string \<times> string"
  | McpSend time bool "string + string \<times> string list"
  | McpClose join "string + string"
  | McpEndpoints ep_faults bool "demo option" string "(string \<times> string) option" "string + ep_args"

text \<open>\<open>x\<close> is the agent session of the request, the same for all requests of a principal but for what the client reports.\<close>

fun mcp_next ::
  "(agent_fail \<Rightarrow> string) \<Rightarrow> (db_error \<Rightarrow> string) \<Rightarrow> (string \<Rightarrow> byte list) \<Rightarrow> agent_session \<Rightarrow> mcp_call \<Rightarrow> manager \<times> sw_db \<Rightarrow> manager \<times> sw_db"
where
  "mcp_next estr dstr sha256 x (McpCreate flt dm sid now outcome ci args) (m, db) =
     (snd (mcp_create_session estr sha256 flt dm db (\<lambda>m. m) sid now outcome (\<lambda>m. m) ci args x m), db)"
| "mcp_next estr dstr sha256 x (McpSend now ok args) (m, db) = (snd (mcp_send_keys estr now ok args x m), db)"
| "mcp_next estr dstr sha256 x (McpClose j args) (m, db) = (snd (mcp_close_session estr j args x m), db)"
| "mcp_next estr dstr sha256 x (McpEndpoints flt audit dm now ci args) (m, db) =
     (m, snd (snd (mcp_manage_endpoints dstr sha256 flt audit dm now ci args x db)))"

fun minted_by :: "mcp_call \<Rightarrow> string list" where
  "minted_by (McpCreate flt dm sid now outcome ci args) = [sid]"
| "minted_by _ = []"

fun fresh_calls ::
  "(agent_fail \<Rightarrow> string) \<Rightarrow> (db_error \<Rightarrow> string) \<Rightarrow> (string \<Rightarrow> byte list) \<Rightarrow> agent_session \<Rightarrow> mcp_call list \<Rightarrow> manager \<times> sw_db \<Rightarrow> bool"
where
  "fresh_calls estr dstr sha256 x [] st = True"
| "fresh_calls estr dstr sha256 x (c # cs) st =
     (list_all (\<lambda>i. map_of (m_terminals (fst st)) i = None) (minted_by c) \<and> fresh_calls estr dstr sha256 x cs (mcp_next estr dstr sha256 x c st))"

definition same_agent :: "agent_session \<Rightarrow> agent_session \<Rightarrow> bool" where
  "same_agent x y \<longleftrightarrow> ax_accountID x = ax_accountID y \<and> ax_clientID x = ax_clientID y"

lemma same_agent_capture: "same_agent (captureClientInfo ci x) x"
  by (simp add: same_agent_def captureClientInfo_def SetClientInfo_def split: option.split prod.split)

lemma same_agent_owns: "same_agent x y \<Longrightarrow> ownsSession x s = ownsSession y s"
  by (simp add: same_agent_def ownsSession_def split: option.split)

text \<open>On the registry a call is nothing or one operation of the agent session; on the table one of the store.\<close>

lemma mcp_manager_op:
  obtains "fst (mcp_next estr dstr sha256 x c (m, db)) = m"
    | y op where "fst (mcp_next estr dstr sha256 x c (m, db)) = agent_step sha256 y op m" "same_agent y x" "set (mints op) \<subseteq> set (minted_by c)"
proof (cases c)
  case (McpCreate flt dm sid now outcome ci args)
  let ?y = "captureClientInfo ci x"
  show thesis
  proof (cases "\<exists>eid reason. args = Inr (eid, reason) \<and> trim_space reason \<noteq> []")
    case False
    with McpCreate that(1) show thesis by (cases args) (auto simp: mcp_create_session_def Let_def)
  next
    case True
    then obtain eid reason where a: "args = Inr (eid, reason)" "trim_space reason \<noteq> []" by blast
    have "fst (mcp_next estr dstr sha256 x c (m, db)) = agent_step sha256 ?y (AgCreate flt dm db sid now outcome eid (trim_space reason)) m"
      using McpCreate a by (auto simp: mcp_create_session_def Let_def split: prod.splits sum.splits)
    from that(2) [OF this same_agent_capture] McpCreate show thesis by simp
  qed
next
  case (McpSend now ok args)
  show thesis
  proof (cases args)
    case (Inl e)
    with McpSend that(1) show thesis by (simp add: mcp_send_keys_def)
  next
    case (Inr a)
    have "fst (mcp_next estr dstr sha256 x c (m, db)) = agent_step sha256 x (AgSend now ok (fst a) (snd a)) m"
      using McpSend Inr by (auto simp: mcp_send_keys_def split: prod.splits sum.splits)
    from that(2) [OF this] show thesis by (simp add: same_agent_def)
  qed
next
  case (McpClose j args)
  show thesis
  proof (cases args)
    case (Inl e)
    with McpClose that(1) show thesis by (simp add: mcp_close_session_def)
  next
    case (Inr sid)
    have "fst (mcp_next estr dstr sha256 x c (m, db)) = agent_step sha256 x (AgClose sid j) m"
      using McpClose Inr by (auto simp: mcp_close_session_def split: prod.splits option.splits)
    from that(2) [OF this] show thesis by (simp add: same_agent_def)
  qed
next
  case McpEndpoints
  with that(1) show thesis by simp
qed

lemma agent_UpdateEndpoint_op:
  "snd (snd (agent_UpdateEndpoint flt flt2 audit now eid patch x db)) = db
   \<or> (\<exists>ep. se_AccountID ep = ax_accountID x \<and> snd (snd (agent_UpdateEndpoint flt flt2 audit now eid patch x db)) = ep_step (EpUpdate flt2 now ep) db)"
proof (cases "es_GetForAccount flt eid (ax_accountID x) db")
  case (Inr eo)
  show ?thesis
  proof (cases eo)
    case (Some e)
    then have "se_AccountID (apply_patch patch e) = ax_accountID x"
      using Inr GetForAccount_Some by (fastforce simp: apply_patch_def fromRow_def)
    with Inr Some show ?thesis by (auto simp: agent_UpdateEndpoint_def Let_def case_prod_beta intro!: exI [of _ "apply_patch patch e"])
  qed (use Inr in \<open>simp add: agent_UpdateEndpoint_def\<close>)
qed (simp add: agent_UpdateEndpoint_def)

lemma mcp_ep_create_op:
  "snd (mcp_ep_create dstr flt now a x db) = db
   \<or> (\<exists>ep. se_AccountID ep = ax_accountID x \<and> snd (mcp_ep_create dstr flt now a x db) = ep_step (EpCreate (ef_first flt) now ep) db)"
proof (cases "endpointPatchFromWire (case ea_Data a of None \<Rightarrow> [] | Some d \<Rightarrow> d)")
  case (Inr p)
  define ep where "ep = (new_endpoint (ea_ID a) p)\<lparr>se_AccountID := ax_accountID x\<rparr>"
  have "snd (mcp_ep_create dstr flt now a x db) \<in> {db, snd (es_Create (ef_first flt) now ep db)}"
    by (auto simp: mcp_ep_create_def Inr agent_CreateEndpoint_def ep_def split: option.split prod.split)
  moreover have "se_AccountID ep = ax_accountID x" by (simp add: ep_def)
  ultimately show ?thesis by auto
qed (simp add: mcp_ep_create_def)

lemma mcp_ep_update_op:
  "snd (snd (mcp_ep_update dstr flt audit now a x db)) = db
   \<or> (\<exists>ep. se_AccountID ep = ax_accountID x \<and> snd (snd (mcp_ep_update dstr flt audit now a x db)) = ep_step (EpUpdate (ef_second flt) now ep) db)"
proof (cases "\<exists>d p. ea_Data a = Some d \<and> endpointPatchFromWire d = Inr p")
  case False
  then show ?thesis by (cases "ea_Data a") (auto simp: mcp_ep_update_def split: sum.split)
next
  case True
  then obtain d p where d: "ea_Data a = Some d" "endpointPatchFromWire d = Inr p" by blast
  let ?u = "agent_UpdateEndpoint (ef_first flt) (ef_second flt) audit now (ea_ID a) p x db"
  have "snd (snd (mcp_ep_update dstr flt audit now a x db)) \<in> {db, snd (snd ?u)}"
    by (auto simp: mcp_ep_update_def d split: sum.split prod.split)
  with agent_UpdateEndpoint_op [of "ef_first flt" "ef_second flt" audit now "ea_ID a" p x db] show ?thesis by auto
qed

lemma mcp_ep_delete_op:
  "snd (mcp_ep_delete dstr flt now a x db) = db
   \<or> snd (mcp_ep_delete dstr flt now a x db) = ep_step (EpDelete (ef_first flt) now (ea_ID a) (ax_accountID x)) db"
  by (auto simp: mcp_ep_delete_def agent_DeleteEndpoint_def split: sum.split prod.split)

lemma mcp_manage_endpoints_op:
  "snd (snd (mcp_manage_endpoints dstr sha256 flt audit dm now ci args x db)) = db
   \<or> (\<exists>op. snd (snd (mcp_manage_endpoints dstr sha256 flt audit dm now ci args x db)) = ep_step op db \<and> op_account op = Some (ax_accountID x))"
proof (cases args)
  case (Inr a)
  let ?y = "captureClientInfo ci x"
  have acc: "ax_accountID ?y = ax_accountID x" using same_agent_capture by (simp add: same_agent_def)
  have "snd (snd (mcp_manage_endpoints dstr sha256 flt audit dm now ci args x db)) \<in>
      {db, snd (mcp_ep_create dstr flt now a ?y db), snd (snd (mcp_ep_update dstr flt audit now a ?y db)), snd (mcp_ep_delete dstr flt now a ?y db)}"
    by (simp add: mcp_manage_endpoints_def Inr Let_def case_prod_beta)
  with mcp_ep_create_op [of dstr flt now a ?y db] mcp_ep_update_op [of dstr flt audit now a ?y db] mcp_ep_delete_op [of dstr flt now a ?y db]
  show ?thesis unfolding acc by (metis empty_iff insert_iff op_account.simps(1-3))
qed (simp add: mcp_manage_endpoints_def)

lemma mcp_db_op:
  obtains "snd (mcp_next estr dstr sha256 x c (m, db)) = db"
    | op where "snd (mcp_next estr dstr sha256 x c (m, db)) = ep_step op db" "op_account op = Some (ax_accountID x)"
proof -
  have "snd (mcp_next estr dstr sha256 x c (m, db)) = db
      \<or> (\<exists>op. snd (mcp_next estr dstr sha256 x c (m, db)) = ep_step op db \<and> op_account op = Some (ax_accountID x))"
  proof (cases c)
    case (McpEndpoints flt audit dm now ci args)
    with mcp_manage_endpoints_op [of dstr sha256 flt audit dm now ci args x db] show ?thesis by simp
  qed simp_all
  with that show thesis by blast
qed

text \<open>One call, and any number of them.\<close>

lemma mcp_next_foreign:
  assumes "mgr_inv m" "list_all (\<lambda>i. map_of (m_terminals m) i = None) (minted_by c)" "mcp_next estr dstr sha256 x c (m, db) = (m', db')"
  shows "mgr_inv m'" "managed_of sid m = Some mg \<Longrightarrow> \<not> ownsSession x (Some (mg_session mg)) \<Longrightarrow> managed_of sid m' = Some mg"
    "row_of db k = Some r \<Longrightarrow> er_account_id r \<noteq> ax_accountID x \<Longrightarrow> row_of db' k = Some r"
    "row_of db' k = Some r \<Longrightarrow> er_account_id r \<noteq> ax_accountID x \<Longrightarrow> row_of db k = Some r"
proof -
  have m': "m' = fst (mcp_next estr dstr sha256 x c (m, db))" and db': "db' = snd (mcp_next estr dstr sha256 x c (m, db))" using assms(3) by simp_all
  show "mgr_inv m'"
    by (rule mcp_manager_op [of estr dstr sha256 x c m db]) (use assms(1) m' agent_step_inv in auto)
  show "managed_of sid m' = Some mg" if "managed_of sid m = Some mg" "\<not> ownsSession x (Some (mg_session mg))"
  proof (cases rule: mcp_manager_op [of estr dstr sha256 x c m db, case_names same op])
    case (op y o1)
    have "\<forall>i\<in>set (mints o1). map_of (m_terminals m) i = None" using op(3) assms(2) by (auto simp: list_all_iff)
    moreover have "\<not> ownsSession y (Some (mg_session mg))" unfolding same_agent_owns [OF op(2)] by (rule that(2))
    ultimately show ?thesis unfolding m' op(1) by (intro agent_step_foreign [OF assms(1) that(1)])
  qed (use that m' in simp)
  have rows: "row_of db' k = Some r \<longleftrightarrow> row_of db k = Some r" if "er_account_id r \<noteq> ax_accountID x"
  proof (cases rule: mcp_db_op [of estr dstr sha256 x c m db, case_names same op])
    case (op o1)
    from endpoint_account_isolation [OF op(2), of db k] that show ?thesis unfolding db' op(1) by blast
  qed (simp add: db')
  show "row_of db k = Some r \<Longrightarrow> er_account_id r \<noteq> ax_accountID x \<Longrightarrow> row_of db' k = Some r" by (simp add: rows)
  show "row_of db' k = Some r \<Longrightarrow> er_account_id r \<noteq> ax_accountID x \<Longrightarrow> row_of db k = Some r" by (simp add: rows)
qed

text \<open>
  C10: the tools keep an agent within its account and client. Whatever sequence of tool calls one
  OAuth client makes, every terminal session it does not own keeps its record, transport and output,
  and no endpoint of another account is changed, removed or created. Such a session is not listed, and
  every attempt to read it (through the tool or as a resource), type into it or close it is answered
  as if it did not exist.
\<close>

theorem mcp_tools_isolated:
  assumes "mgr_reachable m" "fresh_calls estr dstr sha256 x cs (m, db)" "x = mcp_agent cap ip p"
    and "fold (mcp_next estr dstr sha256 x) cs (m, db) = (m', db')"
    and "managed_of sid m = Some mg" "\<not> ownsSession x (Some (mg_session mg))"
  shows "managed_of sid m' = Some mg
    \<and> mcp_read_output estr txt m'' waits (Inr \<lparr>ra_SessionID = sid, ra_AfterOffset = off, ra_Limit = n, ra_WaitMs = 0\<rparr>) x m' = Some (ToolError (estr (AgNotFound sid)))
    \<and> read_session fmt (sessionResourcePrefix @ sid) x m' m'' = None
    \<and> mg_session mg \<notin> set (agent_ListSessions x m')
    \<and> mcp_send_keys estr now ok (Inr (sid, keys)) x m' = (ToolError (estr (AgNotFound sid)), m')
    \<and> mcp_close_session estr j (Inr sid) x m' = (ToolError (estr (AgNotFound sid)), m')
    \<and> (\<forall>k r. er_account_id r \<noteq> p_AccountID p \<longrightarrow> (row_of db' k = Some r \<longleftrightarrow> row_of db k = Some r))"
proof -
  have acc: "ax_accountID x = p_AccountID p" by (simp add: assms(3) mcp_agent_def SetClientInfo_def agent_New_def)
  have run: "fresh_calls estr dstr sha256 x cs (m, db) \<Longrightarrow> fold (mcp_next estr dstr sha256 x) cs (m, db) = (m', db') \<Longrightarrow> mgr_inv m \<Longrightarrow>
      managed_of sid m = Some mg \<Longrightarrow>
      managed_of sid m' = Some mg \<and> (\<forall>k r. er_account_id r \<noteq> p_AccountID p \<longrightarrow> (row_of db' k = Some r \<longleftrightarrow> row_of db k = Some r))"
  proof (induction cs arbitrary: m db)
    case (Cons c cs)
    obtain m1 db1 where step: "mcp_next estr dstr sha256 x c (m, db) = (m1, db1)" by fastforce
    have fresh: "list_all (\<lambda>i. map_of (m_terminals m) i = None) (minted_by c)" using Cons.prems(1) by simp
    note one = mcp_next_foreign [OF Cons.prems(3) fresh step]
    have "managed_of sid m' = Some mg \<and> (\<forall>k r. er_account_id r \<noteq> p_AccountID p \<longrightarrow> (row_of db' k = Some r \<longleftrightarrow> row_of db1 k = Some r))"
      by (rule Cons.IH [of m1 db1]) (use Cons.prems step one(1) one(2) [OF Cons.prems(4) assms(6)] in simp_all)
    with one(3,4) acc show ?case by metis
  qed simp
  have kept: "managed_of sid m' = Some mg" and rows: "\<forall>k r. er_account_id r \<noteq> p_AccountID p \<longrightarrow> (row_of db' k = Some r \<longleftrightarrow> row_of db k = Some r)"
    using run [OF assms(2,4) mgr_inv_reachable [OF assms(1)] assms(5)] by blast+
  have "\<not> Owns sid x m'" using kept assms(6) by (simp add: Owns_def GetSession_managed)
  moreover have "cut_prefix (sessionResourcePrefix @ sid) sessionResourcePrefix = Some sid" by (simp add: cut_prefix_def)
  ultimately show ?thesis using kept rows assms(6)
    by (simp add: mcp_read_output_def agent_ReadOutput_def assertOwned_def read_session_def agent_ListSessions_def
        mcp_send_keys_def agent_SendKeys_def mcp_close_session_def agent_CloseSession_def)
qed

theorem mcp_tools_isolated_witness:
  "let x = mcp_agent None [] \<lparr>p_AccountID = ''acc1'', p_ClientID = ''c2'', p_Scopes = [''mcp'']\<rparr>;
       st = fold (mcp_next (\<lambda>_. []) (\<lambda>_. []) (\<lambda>_. []) x) [McpClose TimedOut (Inr ''s1''), McpSend 5 True (Inr (''s1'', [''Enter'']))] (ex_open, ex_db)
   in managed_of ''s1'' (fst st) = managed_of ''s1'' ex_open \<and> managed_of ''s1'' ex_open \<noteq> None"
proof -
  define x where "x = mcp_agent None [] \<lparr>p_AccountID = ''acc1'', p_ClientID = ''c2'', p_Scopes = [''mcp'']\<rparr>"
  define cs where "cs = [McpClose TimedOut (Inr ''s1''), McpSend 5 True (Inr (''s1'', [''Enter'']))]"
  obtain mg where mg: "managed_of ''s1'' ex_open = Some mg" "s_OwnerClientID (mg_session mg) = ''c1''"
    by (simp add: managed_of_def mgr_eval)
  obtain m' db' where st: "fold (mcp_next (\<lambda>_. []) (\<lambda>_. []) (\<lambda>_. []) x) cs (ex_open, ex_db) = (m', db')" by fastforce
  have fresh: "fresh_calls (\<lambda>_. []) (\<lambda>_. []) (\<lambda>_. []) x cs (ex_open, ex_db)" by (simp add: cs_def)
  have foreign: "\<not> ownsSession x (Some (mg_session mg))" using mg(2) by (simp add: ownsSession_def x_def mcp_agent_def SetClientInfo_def agent_New_def)
  from mcp_tools_isolated [OF ex_open_reachable fresh x_def st mg(1) foreign] have "managed_of ''s1'' m' = Some mg" by blast
  then show ?thesis using mg(1) st by (simp add: Let_def x_def [symmetric] cs_def [symmetric])
qed

text \<open>
  The key tool has no role check: what the web interface shows only to the administrator, the tool
  lists to the agents of every account.
\<close>

theorem keys_tool_ignores_role:
  assumes "\<not> IsAdmin flt acct ids" "(k, r) \<in> set (ListSSHKeys t)"
  shows "keys_list flt flt2 avail acct ids t = (200, JObj [(''keys'', JArr [])])
    \<and> (\<exists>ks. mcp_manage_keys sstr False (Inr (''list'', i)) t = ToolJSON (JObj [(''keys'', JArr ks)])
        \<and> JObj [(''id'', JStr k), (''label'', JStr (kr_label r)), (''type'', JStr (kr_type r)), (''fingerprint'', JStr (kr_fingerprint r))] \<in> set ks)"
  using assms by (force simp: keys_list_def mcp_manage_keys_def keys_List_def Let_def)

end
