(* ===== verification/Spec2Isabelle.thy ===== *)
theory Spec2Isabelle
  imports Terminal_Teardown Approval_Broker Webauthn_Tokens Rate_Limit Agent_Proxy Ws_Properties
    Cimd_Guard Cimd_Cache Cimd_Provision Front_Door Keyed_Mutex Credential_Properties Provider_Properties Hydra_Render Audit_Properties Rest_Audit
    Ssh_Factory Push Last_Used Mcp_Server
begin

text \<open>
  ShellWatch is a server that runs SSH sessions for people and for their software agents, and asks
  a human to approve every use of a signing key. This library models its Go code (\<open>src/internal\<close>) as
  executable definitions and proves what makes it correct.

  \<^bold>\<open>The program and how its parts interact.\<close> A browser signs in with a passkey (\<open>webauthn\<close>) at the
  login and consent provider (\<open>hydra/routes.go\<close>) of an external OAuth server, Hydra. Bearer tokens
  are checked by a gate (\<open>auth\<close>) that introspects them at Hydra through a cache
  (\<open>hydra/resolver.go\<close>). Behind the gate the browser hub (\<open>ws\<close>), the agent tools (\<open>agent\<close>) and the
  agent bridge (\<open>agentproxy\<close>) work on the session registry (\<open>terminal\<close>). A session dials its endpoint
  (\<open>sshx\<close>, \<open>endpointsvc\<close>, \<open>demo\<close>, \<open>hostkeys\<close>); authentication raises a pending approval (\<open>approval\<close>),
  which a person resolves in the browser (\<open>rest/actions.go\<close>) with an assertion that becomes an SSH
  signature (\<open>signing\<close>, \<open>signagent\<close>). Accounts, passkeys and endpoints are SQL tables (\<open>store\<close>).
  Challenges, step-up tokens, invitations, cached principals and cached client documents live in
  maps with deadlines (\<open>ephemeral\<close>, \<open>webauthn\<close>). Clients may be described by a document at their own URL
  (\<open>hydra/cimd*.go\<close>).

  \<^bold>\<open>Theories.\<close>
  \<^item> \<open>Prelude\<close>, \<open>Go_Strings\<close>, \<open>Base64\<close>, \<open>Go_Net\<close>, \<open>Netip\<close>, \<open>Http_Errors\<close>: Go maps as association lists,
    64-bit integers, bytes, JSON values, and what the sources use of \<open>strings\<close>, \<open>encoding/base64\<close>,
    \<open>net\<close>, \<open>net/netip\<close>; the error envelopes of \<open>apierr\<close>.
  \<^item> \<open>Output_Buffer\<close>, \<open>Terminal_Keys\<close>, \<open>Terminal_Manager\<close> (\<open>terminal/\<close>): the output ring, the named keys and the
    registry \<open>Manager\<close> with its heap of sessions. \<open>Terminal_Lifecycle\<close> makes every critical section a
    step of an interleaving (\<open>mgr_step\<close>); \<open>Terminal_Properties\<close> and \<open>Terminal_Teardown\<close> prove the
    lifecycle, the removal hooks, shutdown, the race of connecting and closing, and teardown.
  \<^item> \<open>Approval_Store\<close>, \<open>Approval_Properties\<close>, \<open>Approval_Broker\<close> (\<open>approval/\<close>, \<open>rest/actions.go\<close>): pending requests, who may
    answer them, that each is answered once and in time, and that no signer waits for ever.
    \<open>Single_Claims\<close> is the contract both pending approvals and invitations implement.
  \<^item> \<open>Signing\<close>, \<open>Sign_Agent\<close>, \<open>Agent_Proxy\<close>, \<open>Sanitize\<close>: the SSH signature of an assertion, the agent that prompts
    for every signature, its WebSocket bridge, and cleaning of client-reported text.
  \<^item> \<open>Endpoint_Store\<close>, \<open>Host_Key\<close>, \<open>Endpoint_Service\<close>: the endpoints table, host-key trust on first use, and
    connecting. \<open>Agent_Session\<close>, \<open>Mcp_Server\<close>, \<open>Mcp_Watcher\<close>: what one OAuth client may do, the tools and
    resources (\<open>mcp/\<close>) through which it does it, and the notifications it gets. \<open>Ws_Hub\<close>, \<open>Ws_Properties\<close>: the
    browser connections, the order of their frames and the isolation of accounts.
  \<^item> \<open>Ephemeral_Store\<close>, \<open>Webauthn_Tokens\<close>, \<open>Rate_Limit\<close>, \<open>Real_IP\<close>, \<open>Bearer_Gate\<close>: the deadline maps and their clients, the
    limiter, the client address, the gate and the introspection cache.
  \<^item> \<open>Credential_Store\<close>, \<open>Credential_Properties\<close>: the account and passkey tables with their transactions. \<open>Cose\<close>,
    \<open>Webauthn_Verify\<close>, \<open>Webauthn_Routes\<close>, \<open>Webauthn_Properties\<close>: keys, verification, every ceremony's handler,
    and one machine (\<open>wa_next\<close>) over all requests.
  \<^item> \<open>Endpoint_Address\<close>, \<open>Config\<close>, \<open>Seed\<close>: endpoint addresses as text, loading and validating the configuration,
    first-run seeding and configured host-key pins.
  \<^item> \<open>Rest_Accounts\<close>, \<open>Rest_Endpoints\<close>, \<open>Rest_Sessions\<close> (\<open>rest/\<close>): the HTTP handlers for passkeys, accounts, endpoints,
    sessions and grants, which of their writes need a step-up, and what a revocation may reach.
  \<^item> \<open>Keyset\<close>, \<open>Audit_Log\<close>, \<open>Audit_Properties\<close>, \<open>Notify_Log\<close>, \<open>Rest_Audit\<close> (\<open>audit/\<close>, \<open>notify/\<close>, \<open>rest/audit.go\<close>): cursors and
    pages, the audit tables and their writers, the notification and client registration logs, and the
    routes that read them. They show that the audit trail follows the sessions, that nothing recorded
    is rewritten, that paging loses and repeats nothing, and that rows stay within their account.
  \<^item> \<open>Ssh_Keys\<close>, \<open>Ssh_Factory\<close> (\<open>sshx/\<close>, \<open>store/sshkeys.go\<close>): the key directory and its table, and which keys a
    connection offers. \<open>Push\<close> (\<open>push/\<close>, \<open>store/push.go\<close>): subscriptions, the allowlist of services and delivery.
    \<open>Last_Used\<close> (\<open>store/lastused.go\<close>): the flusher of last-use times as an interleaving.
  \<^item> \<open>Hydra_Admin\<close>, \<open>Hydra_Provider\<close>, \<open>Hydra_Render\<close>, \<open>Provider_Properties\<close>: the admin client, the provider's pages and
    dynamic registration, the HTML, and when a login or consent may be accepted.
  \<^item> \<open>Cimd\<close>, \<open>Cimd_Fetch\<close>, \<open>Cimd_Guard\<close>, \<open>Cimd_Cache\<close>, \<open>Cimd_Resolver\<close>, \<open>Cimd_Provision\<close>, \<open>Front_Door\<close>, \<open>Keyed_Mutex\<close>: client
    documents, the guard against internal addresses, the cache, provisioning at Hydra, the
    authorization front door and the lock that serializes provisioning per client.

  \<^bold>\<open>State and operations.\<close> A Go struct is a record, an enum a datatype, a map an association list with
  distinct keys, a nullable column an option. An operation takes the state and returns it updated
  with its result; an error is a value of an option or sum. Code under a lock is one atomic step, so
  concurrency is an interleaving of such steps; where one operation has several sections (session
  creation, close, the keyed lock, a login) each is a definition of its own. What the code calls
  outside the repository is an argument: clock readings, random ids, driver faults (\<open>flt\<close>), Hydra's
  answers (\<open>srv\<close>), the WebAuthn library (\<open>wa_lib\<close>), DNS and HTTP, the URL and ASN.1 parsers, and the
  work of other goroutines during a blocking call (\<open>others\<close>, \<open>attempts\<close>). Requests to Hydra are kept as
  a trace.

  \<^bold>\<open>Bounds and loops.\<close> 64-bit arithmetic wraps explicitly (\<open>i64\<close>) where the code can overflow: the
  buffer's offsets and the cache lifetimes. \<open>v6_fields\<close> takes fuel 8 because an address has at most
  eight groups. The search for a free passkey label has no bound in the code and is a partial
  function; it is proved to end. \<open>closeAll\<close> closes sessions one after another where the code starts a
  goroutine for each; the interleavings of \<open>mgr_step\<close> cover the other orders.

  \<^bold>\<open>Not modelled.\<close> Network and terminal I/O, the SSH handshake, the HTTP router and upgrade, opening
  and migrating the database, rendering of static assets, the generated API types, the registration
  of the MCP tools on their SDK, the stand-alone agent client, the composition root and the test
  harnesses: they are glue or third-party code around the modelled parts.
\<close>

end
